(* ===== verification/Js_Prelude.thy ===== *)
theory Js_Prelude
  imports Main "HOL-Library.Sublist"
begin

text \<open>
  The JavaScript values and library calls the modelled TypeScript uses, and the lemmas on
  them that every component shares:
  \<^item> exceptions as the left side of a sum, with \<open>bind_r\<close> for "call, then go on unless it
    threw" and \<open>each_r\<close> / \<open>map_r\<close> for loops and \<open>map\<close> callbacks that may throw;
  \<^item> strings as lists of characters, with \<open>includes\<close>, \<open>indexOf\<close>, \<open>split\<close>, \<open>join\<close>,
    \<open>replace\<close> (first match, with its \<open>$\<close> patterns) and number printing;
  \<^item> plain objects used as dictionaries, as association lists in creation order, read back in
    the order \<open>Object.keys\<close> gives (array-index keys ascending, then creation order);
  \<^item> the lodash helpers that occur in several components.
  \<open>null\<close>, \<open>undefined\<close> and an absent property are all \<open>None\<close>: where the code tells them
  apart, the component's own theory says so.
\<close>

named_theorems js_simps \<open>rewrite rules for the library calls\<close>
named_theorems keeps \<open>preservation facts: an operation keeps a component's invariant\<close>

section \<open>Exceptions\<close>

datatype js_error =
    TypeError
  | Thrown string

type_synonym 'a result = "js_error + 'a"

definition bind_r :: "'a result \<Rightarrow> ('a \<Rightarrow> 'b result) \<Rightarrow> 'b result" where
  "bind_r r f = (case r of Inl e \<Rightarrow> Inl e | Inr x \<Rightarrow> f x)"

definition map_res :: "('a \<Rightarrow> 'b) \<Rightarrow> 'a result \<Rightarrow> 'b result" where
  "map_res f r = bind_r r (\<lambda>x. Inr (f x))"

lemma bind_r_simps [simp]:
  "bind_r (Inl e) f = Inl e"
  "bind_r (Inr x) f = f x"
  by (simp_all add: bind_r_def)

lemma bind_r_Inr_iff: "bind_r r f = Inr y \<longleftrightarrow> (\<exists>x. r = Inr x \<and> f x = Inr y)"
  by (cases r) simp_all

lemma bind_r_Inl_iff: "bind_r r f = Inl e \<longleftrightarrow> r = Inl e \<or> (\<exists>x. r = Inr x \<and> f x = Inl e)"
  by (cases r) simp_all

lemma bind_r_cong [fundef_cong]:
  "r = r' \<Longrightarrow> (\<And>x. r' = Inr x \<Longrightarrow> f x = g x) \<Longrightarrow> bind_r r f = bind_r r' g"
  by (cases r') simp_all

lemma map_res_simps [simp]:
  "map_res f (Inl e) = Inl e"
  "map_res f (Inr x) = Inr (f x)"
  by (simp_all add: map_res_def)

lemma map_res_Inr_iff: "map_res f r = Inr y \<longleftrightarrow> (\<exists>x. r = Inr x \<and> y = f x)"
  by (cases r) auto

definition deref :: "'a option \<Rightarrow> 'a result" where
  \<comment> \<open>reading a property of a value that may be undefined\<close>
  "deref x = (case x of None \<Rightarrow> Inl TypeError | Some v \<Rightarrow> Inr v)"

lemma deref_simps [simp]:
  "deref None = Inl TypeError"
  "deref (Some v) = Inr v"
  by (simp_all add: deref_def)

lemma deref_Inr_iff: "deref x = Inr v \<longleftrightarrow> x = Some v"
  by (cases x) simp_all

definition or_else :: "'a option \<Rightarrow> 'a option \<Rightarrow> 'a option" where
  \<comment> \<open>\<open>a || b\<close> on objects, and one property of \<open>{...b, ...a}\<close>\<close>
  "or_else a b = (case a of None \<Rightarrow> b | Some x \<Rightarrow> Some x)"

text \<open>A \<open>for\<close> loop whose body may throw, and a \<open>map\<close> whose callback may throw.\<close>

fun each_r :: "('a \<Rightarrow> unit result) \<Rightarrow> 'a list \<Rightarrow> unit result" where
  "each_r f [] = Inr ()"
| "each_r f (x # xs) = bind_r (f x) (\<lambda>_. each_r f xs)"

fun map_r :: "('a \<Rightarrow> 'b result) \<Rightarrow> 'a list \<Rightarrow> 'b list result" where
  "map_r f [] = Inr []"
| "map_r f (x # xs) = bind_r (f x) (\<lambda>y. bind_r (map_r f xs) (\<lambda>ys. Inr (y # ys)))"

lemma each_r_cong [fundef_cong]:
  "xs = ys \<Longrightarrow> (\<And>x. x \<in> set ys \<Longrightarrow> f x = g x) \<Longrightarrow> each_r f xs = each_r g ys"
  by (induction ys arbitrary: xs) auto

lemma map_r_cong [fundef_cong]:
  "xs = ys \<Longrightarrow> (\<And>x. x \<in> set ys \<Longrightarrow> f x = g x) \<Longrightarrow> map_r f xs = map_r g ys"
  by (induction ys arbitrary: xs) auto

lemma each_r_ok_iff: "each_r f xs = Inr () \<longleftrightarrow> (\<forall>x\<in>set xs. f x = Inr ())"
  by (induction xs) (auto simp: bind_r_Inr_iff)

lemma map_r_Inr_iff:
  "map_r f xs = Inr ys \<longleftrightarrow> list_all2 (\<lambda>x y. f x = Inr y) xs ys"
  by (induction xs arbitrary: ys) (auto simp: bind_r_Inr_iff list_all2_Cons1)

lemma map_r_pure: "(\<And>x. x \<in> set xs \<Longrightarrow> f x = Inr (g x)) \<Longrightarrow> map_r f xs = Inr (map g xs)"
  by (induction xs) auto

lemma map_r_length: "map_r f xs = Inr ys \<Longrightarrow> length ys = length xs"
  by (auto simp: map_r_Inr_iff dest: list_all2_lengthD)

section \<open>Strings\<close>

text \<open>
  \<open>split_first sep s\<close> cuts \<open>s\<close> at the first occurrence of \<open>sep\<close>: the text before it and
  the text after it. \<open>includes\<close>, \<open>indexOf\<close>, \<open>split\<close> and \<open>replace\<close> are all read off it.
\<close>

fun split_first :: "string \<Rightarrow> string \<Rightarrow> (string \<times> string) option" where
  "split_first sep [] = (if sep = [] then Some ([], []) else None)"
| "split_first sep (c # cs) =
     (if prefix sep (c # cs) then Some ([], drop (length sep) (c # cs))
      else map_option (\<lambda>(a, b). (c # a, b)) (split_first sep cs))"

definition js_includes :: "string \<Rightarrow> string \<Rightarrow> bool" where
  "js_includes s t = (split_first t s \<noteq> None)"

definition js_index_of :: "string \<Rightarrow> string \<Rightarrow> nat option" where
  "js_index_of s t = map_option (\<lambda>(a, b). length a) (split_first t s)"

lemma split_first_Some: "split_first sep s = Some (a, b) \<Longrightarrow> s = a @ sep @ b"
proof (induction sep s arbitrary: a rule: split_first.induct)
  case (1 sep)
  then show ?case by (simp split: if_splits)
next
  case (2 sep c cs)
  show ?case
  proof (cases "prefix sep (c # cs)")
    case True
    with "2.prems" show ?thesis by (auto simp: prefix_def)
  next
    case False
    with "2.prems" obtain a' where "split_first sep cs = Some (a', b)" "a = c # a'"
      by auto
    with False "2.IH" show ?thesis by auto
  qed
qed

lemma split_first_None_iff: "split_first sep s = None \<longleftrightarrow> \<not> sublist sep s"
proof (induction sep s rule: split_first.induct)
  case (1 sep)
  then show ?case by simp
next
  case (2 sep c cs)
  then show ?case by (auto simp: sublist_Cons_right)
qed

lemma js_includes_iff_sublist: "js_includes s t \<longleftrightarrow> sublist t s"
  using split_first_None_iff[of t s] by (auto simp: js_includes_def)

lemma split_first_length:
  "split_first sep s = Some (a, b) \<Longrightarrow> length s = length a + length sep + length b"
  by (auto dest: split_first_Some)

text \<open>\<open>s.split(sep)\<close> and \<open>xs.join(sep)\<close>.\<close>

function split_ne :: "string \<Rightarrow> string \<Rightarrow> string list" where
  "split_ne sep s =
     (case split_first sep s of
        None \<Rightarrow> [s]
      | Some (a, b) \<Rightarrow> if sep = [] then [s] else a # split_ne sep b)"
  by pat_completeness auto
termination
  by (relation "measure (\<lambda>(sep, s). length s)") (auto dest: split_first_length)

declare split_ne.simps [simp del]

definition js_split :: "string \<Rightarrow> string \<Rightarrow> string list" where
  "js_split s sep = (if sep = [] then map (\<lambda>c. [c]) s else split_ne sep s)"

fun js_join :: "string \<Rightarrow> string list \<Rightarrow> string" where
  "js_join sep [] = []"
| "js_join sep [x] = x"
| "js_join sep (x # y # zs) = x @ sep @ js_join sep (y # zs)"

lemma split_ne_not_Nil: "split_ne sep s \<noteq> []"
  by (subst split_ne.simps) (auto split: option.split)

lemma js_join_Cons: "xs \<noteq> [] \<Longrightarrow> js_join sep (x # xs) = x @ sep @ js_join sep xs"
  by (cases xs) simp_all

lemma join_split_ne: "sep \<noteq> [] \<Longrightarrow> js_join sep (split_ne sep s) = s"
proof (induction sep s rule: split_ne.induct)
  case (1 sep s)
  show ?case
  proof (cases "split_first sep s")
    case None
    then show ?thesis by (simp add: split_ne.simps[of sep s])
  next
    case (Some p)
    obtain a b where p: "p = (a, b)" by (cases p)
    with Some 1 have "js_join sep (split_ne sep b) = b" by auto
    with Some p "1.prems" have "js_join sep (split_ne sep s) = a @ sep @ b"
      by (simp add: split_ne.simps[of sep s] js_join_Cons[OF split_ne_not_Nil])
    moreover have "s = a @ sep @ b" using Some p by (simp add: split_first_Some)
    ultimately show ?thesis by simp
  qed
qed

lemma join_split: "js_join sep (js_split s sep) = s"
proof (cases "sep = []")
  case True
  have "js_join [] (map (\<lambda>c. [c]) s) = s"
    by (induction s) (auto simp: js_join_Cons neq_Nil_conv, case_tac s, auto)
  with True show ?thesis by (simp add: js_split_def)
next
  case False
  then show ?thesis by (simp add: js_split_def join_split_ne)
qed

text \<open>Splitting at a character.\<close>

lemma js_split_char_Nil [simp]: "js_split [] [d] = [[]]"
  by (simp add: js_split_def split_ne.simps)

lemma js_split_not_Nil: "sep \<noteq> [] \<Longrightarrow> js_split s sep \<noteq> []"
  by (simp add: js_split_def split_ne_not_Nil)

lemma js_split_char_Cons:
  "js_split (c # s) [d] = (if c = d then [] # js_split s [d] else (c # hd (js_split s [d])) # tl (js_split s [d]))"
proof (cases "split_first [d] s")
  case None
  then show ?thesis
    by (simp add: js_split_def split_ne.simps[of "[d]" "c # s"] split_ne.simps[of "[d]" s])
next
  case (Some p)
  then show ?thesis
    by (cases p) (simp add: js_split_def split_ne.simps[of "[d]" "c # s"] split_ne.simps[of "[d]" s])
qed

lemma js_split_char_absent: "d \<notin> set s \<Longrightarrow> js_split s [d] = [s]"
  by (induction s) (auto simp: js_split_char_Cons)

lemma js_split_char_append: "d \<notin> set a \<Longrightarrow> js_split (a @ d # b) [d] = a # js_split b [d]"
  by (induction a) (auto simp: js_split_char_Cons)

lemma js_split_join_char: "xs \<noteq> [] \<Longrightarrow> \<forall>x\<in>set xs. d \<notin> set x \<Longrightarrow> js_split (js_join [d] xs) [d] = xs"
proof (induction xs)
  case (Cons x xs)
  then show ?case by (cases "xs = []") (simp_all add: js_split_char_absent js_split_char_append js_join_Cons)
qed simp

text \<open>
  \<open>s.replace(search, repl)\<close> with a string \<open>search\<close>: only the first match is replaced, and
  \<open>repl\<close> is a template in which \<open>$$\<close> is a dollar sign, \<open>$&\<close> the match, \<open>$`\<close> the text before
  the match and \<open>$'\<close> the text after it; any other dollar sign stands for itself.
\<close>

fun expand_repl :: "string \<Rightarrow> string \<Rightarrow> string \<Rightarrow> string \<Rightarrow> string" where
  "expand_repl m pre post [] = []"
| "expand_repl m pre post [c] = [c]"
| "expand_repl m pre post (c # d # cs) =
     (if c = CHR ''$'' then
        if d = CHR ''$'' then CHR ''$'' # expand_repl m pre post cs
        else if d = CHR ''&'' then m @ expand_repl m pre post cs
        else if d = CHR 0x60 then pre @ expand_repl m pre post cs
        else if d = CHR 0x27 then post @ expand_repl m pre post cs
        else c # expand_repl m pre post (d # cs)
      else c # expand_repl m pre post (d # cs))"

definition js_replace_first :: "string \<Rightarrow> string \<Rightarrow> string \<Rightarrow> string" where
  "js_replace_first s search repl =
     (case split_first search s of
        None \<Rightarrow> s
      | Some (a, b) \<Rightarrow> a @ expand_repl search a b repl @ b)"

lemma expand_repl_no_dollar: "CHR ''$'' \<notin> set r \<Longrightarrow> expand_repl m pre post r = r"
  by (induction m pre post r rule: expand_repl.induct) auto

lemma expand_repl_set:
  "set (expand_repl m pre post r) \<subseteq> set r \<union> set m \<union> set pre \<union> set post"
proof (induction m pre post r rule: expand_repl.induct)
  case (3 m pre post c d cs)
  have "set (expand_repl m pre post cs) \<subseteq> set (c # d # cs) \<union> set m \<union> set pre \<union> set post"
    if "c = CHR ''$''" "d \<in> {CHR ''$'', CHR ''&'', CHR 0x60, CHR 0x27}"
    using 3 that by auto
  moreover have "set (expand_repl m pre post (d # cs)) \<subseteq> set (c # d # cs) \<union> set m \<union> set pre \<union> set post"
    if "\<not> (c = CHR ''$'' \<and> d \<in> {CHR ''$'', CHR ''&'', CHR 0x60, CHR 0x27})"
    using 3 that by auto
  ultimately show ?case
    by (cases "c = CHR ''$'' \<and> d \<in> {CHR ''$'', CHR ''&'', CHR 0x60, CHR 0x27}") auto
qed auto

lemma js_replace_first_absent: "\<not> sublist search s \<Longrightarrow> js_replace_first s search r = s"
  using split_first_None_iff[of search s] by (simp add: js_replace_first_def)

text \<open>
  \<open>s.split(search).join(repl)\<close>, the idiom for "replace every occurrence": the text is scanned
  once from the left and \<open>repl\<close> is taken literally.
\<close>

definition js_replace_all :: "string \<Rightarrow> string \<Rightarrow> string \<Rightarrow> string" where
  "js_replace_all s search repl = js_join repl (js_split s search)"

lemma js_replace_all_self: "js_replace_all s t t = s"
  by (simp add: js_replace_all_def join_split)

lemma js_replace_all_absent: "t \<noteq> [] \<Longrightarrow> \<not> sublist t s \<Longrightarrow> js_replace_all s t r = s"
  using split_first_None_iff[of t s]
  by (simp add: js_replace_all_def js_split_def split_ne.simps[of t s])

lemma js_replace_all_step:
  assumes "split_first t s = Some (a, b)" and "t \<noteq> []"
  shows "js_replace_all s t r = a @ r @ js_replace_all b t r"
  using assms split_ne_not_Nil[of t b]
  by (simp add: js_replace_all_def js_split_def split_ne.simps[of t s] js_join_Cons)

text \<open>Decimal printing of integers, as a template literal prints them.\<close>

definition digit_char :: "nat \<Rightarrow> char" where
  "digit_char d = char_of (48 + d)"

fun nat_str :: "nat \<Rightarrow> string" where
  "nat_str n = (if n < 10 then [digit_char n] else nat_str (n div 10) @ [digit_char (n mod 10)])"

declare nat_str.simps [simp del]

definition int_str :: "int \<Rightarrow> string" where
  "int_str i = (if i < 0 then CHR ''-'' # nat_str (nat (- i)) else nat_str (nat i))"

definition is_digit :: "char \<Rightarrow> bool" where
  "is_digit c = (48 \<le> (of_char c :: nat) \<and> (of_char c :: nat) \<le> 57)"

fun str_nat_acc :: "nat \<Rightarrow> string \<Rightarrow> nat" where
  "str_nat_acc a [] = a"
| "str_nat_acc a (c # cs) = str_nat_acc (10 * a + (of_char c - 48)) cs"

definition str_nat :: "string \<Rightarrow> nat" where
  "str_nat s = str_nat_acc 0 s"

lemma str_nat_acc_append: "str_nat_acc a (s @ [c]) = 10 * str_nat_acc a s + (of_char c - 48)"
  by (induction s arbitrary: a) simp_all

lemma of_digit_char: "d < 10 \<Longrightarrow> (of_char (digit_char d) :: nat) = 48 + d"
  by (simp add: digit_char_def)

lemma str_nat_nat_str: "str_nat (nat_str n) = n"
proof (induction n rule: nat_str.induct)
  case (1 n)
  show ?case
  proof (cases "n < 10")
    case True
    then show ?thesis by (simp add: nat_str.simps[of n] str_nat_def of_digit_char)
  next
    case False
    with 1 have "str_nat (nat_str (n div 10)) = n div 10" by simp
    with False show ?thesis
      by (simp add: nat_str.simps[of n] str_nat_def str_nat_acc_append of_digit_char)
  qed
qed

lemma nat_str_inject [simp]: "nat_str m = nat_str n \<longleftrightarrow> m = n"
  by (metis str_nat_nat_str)

lemma nat_str_digits: "list_all is_digit (nat_str n)"
proof (induction n rule: nat_str.induct)
  case (1 n)
  have d: "d < 10 \<Longrightarrow> is_digit (digit_char d)" for d
    by (simp add: is_digit_def of_digit_char)
  show ?case
    using 1 d by (cases "n < 10") (simp_all add: nat_str.simps[of n])
qed

lemma nat_str_not_Nil [simp]: "nat_str n \<noteq> []"
  by (subst nat_str.simps) simp

lemma int_str_inject [simp]: "int_str i = int_str j \<longleftrightarrow> i = j"
proof -
  have dash: "CHR ''-'' # s \<noteq> nat_str n" for s n
    using nat_str_digits[of n] by (cases "nat_str n") (auto simp: is_digit_def)
  show ?thesis
    using dash dash[symmetric] by (auto simp: int_str_def)
qed

definition opt_str :: "string option \<Rightarrow> string" where
  \<comment> \<open>a template literal or a property key made from a missing string\<close>
  "opt_str s = (case s of None \<Rightarrow> ''undefined'' | Some x \<Rightarrow> x)"

definition is_space :: "char \<Rightarrow> bool" where
  \<comment> \<open>the white space of \<open>\s\<close> and \<open>trim\<close> among the code units below 256\<close>
  "is_space c = (c \<in> {CHR '' '', CHR 0x09, CHR 0x0A, CHR 0x0B, CHR 0x0C, CHR 0x0D, CHR 0xA0})"

definition js_trim :: "string \<Rightarrow> string" where
  "js_trim s = rev (dropWhile is_space (rev (dropWhile is_space s)))"

definition lower_char :: "char \<Rightarrow> char" where
  "lower_char c = (if 65 \<le> (of_char c :: nat) \<and> (of_char c :: nat) \<le> 90 then char_of ((of_char c :: nat) + 32) else c)"

definition toLowerCase :: "string \<Rightarrow> string" where
  \<comment> \<open>on ASCII\<close>
  "toLowerCase s = map lower_char s"

section \<open>Objects used as dictionaries\<close>

type_synonym 'v js_obj = "(string \<times> 'v) list"

definition obj_get :: "'v js_obj \<Rightarrow> string \<Rightarrow> 'v option" where
  "obj_get ob k = map_of ob k"

fun obj_set :: "'v js_obj \<Rightarrow> string \<Rightarrow> 'v \<Rightarrow> 'v js_obj" where
  "obj_set [] k v = [(k, v)]"
| "obj_set ((j, w) # ob) k v = (if j = k then (k, v) # ob else (j, w) # obj_set ob k v)"

definition obj_del :: "'v js_obj \<Rightarrow> string \<Rightarrow> 'v js_obj" where
  "obj_del ob k = filter (\<lambda>(j, w). j \<noteq> k) ob"

definition is_index :: "string \<Rightarrow> bool" where
  \<comment> \<open>a canonical array index, which objects enumerate first and in ascending order\<close>
  "is_index k =
     (k \<noteq> [] \<and> list_all is_digit k \<and> (hd k = CHR ''0'' \<longrightarrow> length k = 1) \<and>
      str_nat k < 2 ^ 32 - 1)"

definition obj_keys :: "'v js_obj \<Rightarrow> string list" where
  "obj_keys ob =
     (let ks = map fst ob
      in sort_key str_nat (filter is_index ks) @ filter (\<lambda>k. \<not> is_index k) ks)"

definition obj_values :: "'v js_obj \<Rightarrow> 'v list" where
  "obj_values ob = List.map_filter (obj_get ob) (obj_keys ob)"

definition obj_entries :: "'v js_obj \<Rightarrow> (string \<times> 'v) list" where
  "obj_entries ob = List.map_filter (\<lambda>k. map_option (Pair k) (obj_get ob k)) (obj_keys ob)"

definition obj_ok :: "'v js_obj \<Rightarrow> bool" where
  "obj_ok ob = distinct (map fst ob)"

lemma obj_get_simps [simp]:
  "obj_get [] k = None"
  "obj_get ((j, w) # ob) k = (if j = k then Some w else obj_get ob k)"
  by (simp_all add: obj_get_def)

lemma obj_get_set: "obj_get (obj_set ob k v) j = (if j = k then Some v else obj_get ob j)"
  by (induction ob k v rule: obj_set.induct) auto

lemma obj_get_del: "obj_get (obj_del ob k) j = (if j = k then None else obj_get ob j)"
  by (induction ob) (auto simp: obj_del_def)

lemma obj_get_None_iff: "obj_get ob k = None \<longleftrightarrow> k \<notin> fst ` set ob"
  by (simp add: obj_get_def map_of_eq_None_iff)

lemma obj_get_in_keys: "obj_get ob k = Some v \<Longrightarrow> k \<in> fst ` set ob"
  using obj_get_None_iff[of ob k] by simp

lemma set_obj_keys [simp]: "set (obj_keys ob) = fst ` set ob"
  by (auto simp: obj_keys_def Let_def)

lemma keys_obj_set: "fst ` set (obj_set ob k v) = insert k (fst ` set ob)"
  by (induction ob k v rule: obj_set.induct) auto

lemma keys_obj_del: "fst ` set (obj_del ob k) = fst ` set ob - {k}"
  by (auto simp: obj_del_def image_iff split: prod.splits)

lemma obj_ok_set [simp]: "obj_ok ob \<Longrightarrow> obj_ok (obj_set ob k v)"
proof (induction ob k v rule: obj_set.induct)
  case (2 j w ob k v)
  then show ?case using keys_obj_set[of ob k v] by (auto simp: obj_ok_def)
qed (simp add: obj_ok_def)

lemma obj_ok_del [simp]: "obj_ok ob \<Longrightarrow> obj_ok (obj_del ob k)"
  by (simp add: obj_ok_def obj_del_def distinct_map_filter)

lemma distinct_obj_keys: "obj_ok ob \<Longrightarrow> distinct (obj_keys ob)"
  by (auto simp: obj_keys_def obj_ok_def Let_def)

lemma map_filter_present:
  assumes "\<And>k. k \<in> set ks \<Longrightarrow> g k = Some (h k)"
  shows "List.map_filter g ks = map h ks"
  using assms by (induction ks) (simp_all add: List.map_filter_simps)

lemma obj_get_present: "k \<in> set (obj_keys ob) \<Longrightarrow> obj_get ob k = Some (the (obj_get ob k))"
  using obj_get_None_iff[of ob k] by (cases "obj_get ob k") auto

lemma obj_entries_eq:
  "obj_entries ob = map (\<lambda>k. (k, the (obj_get ob k))) (obj_keys ob)"
  unfolding obj_entries_def
proof (rule map_filter_present)
  fix k assume "k \<in> set (obj_keys ob)"
  then obtain v where "obj_get ob k = Some v" using obj_get_present by blast
  then show "map_option (Pair k) (obj_get ob k) = Some (k, the (obj_get ob k))" by simp
qed

lemma obj_values_eq: "obj_values ob = map (\<lambda>k. the (obj_get ob k)) (obj_keys ob)"
  unfolding obj_values_def by (rule map_filter_present) (rule obj_get_present)

lemma keys_obj_entries: "map fst (obj_entries ob) = obj_keys ob"
  by (simp add: obj_entries_eq o_def)

lemma map_of_graph: "map_of (map (\<lambda>k. (k, f k)) ks) k = (if k \<in> set ks then Some (f k) else None)"
  by (induction ks) auto

lemma map_of_obj_entries: "map_of (obj_entries ob) k = obj_get ob k"
proof (cases "k \<in> set (obj_keys ob)")
  case True
  then show ?thesis
    unfolding obj_entries_eq map_of_graph using obj_get_present[OF True] by simp
next
  case False
  moreover from False have "obj_get ob k = None" by (simp add: obj_get_None_iff)
  ultimately show ?thesis unfolding obj_entries_eq map_of_graph by simp
qed

definition obj_of_list :: "'v js_obj \<Rightarrow> (string \<times> 'v) list \<Rightarrow> 'v js_obj" where
  \<comment> \<open>\<open>reduce((acc, [k, v]) => ({...acc, [k]: v}), init)\<close>\<close>
  "obj_of_list init ps = foldl (\<lambda>acc (k, v). obj_set acc k v) init ps"

lemma obj_of_list_simps [simp]:
  "obj_of_list init [] = init"
  "obj_of_list init ((k, v) # ps) = obj_of_list (obj_set init k v) ps"
  by (simp_all add: obj_of_list_def)

lemma obj_get_of_list:
  "distinct (map fst ps) \<Longrightarrow>
     obj_get (obj_of_list init ps) k =
       (case map_of ps k of Some v \<Rightarrow> Some v | None \<Rightarrow> obj_get init k)"
proof (induction ps arbitrary: init)
  case (Cons p ps)
  obtain j w where p: "p = (j, w)" by (cases p)
  with Cons.prems have "j = k \<Longrightarrow> map_of ps k = None"
    by (auto simp: map_of_eq_None_iff)
  with Cons p show ?case by (auto simp: obj_get_set split: option.splits)
qed simp

lemma obj_ok_of_list: "obj_ok init \<Longrightarrow> obj_ok (obj_of_list init ps)"
  by (induction ps arbitrary: init) auto

lemma obj_ok_Nil [simp]: "obj_ok []"
  by (simp add: obj_ok_def)

lemma keys_of_list: "fst ` set (obj_of_list init ps) = fst ` set init \<union> fst ` set ps"
proof (induction ps arbitrary: init)
  case (Cons p ps)
  then show ?case using keys_obj_set[of init "fst p" "snd p"] by (cases p) auto
qed simp

text \<open>
  The interface the stores of the program offer: a lookup and an update by key, and what a
  lookup returns after an update. The reducers are clients of it.
\<close>

locale keyed_store =
  fixes get :: "'s \<Rightarrow> 'k \<Rightarrow> 'v option"
    and put :: "'s \<Rightarrow> 'k \<Rightarrow> 'v \<Rightarrow> 's"
  assumes get_put: "get (put s k v) j = (if j = k then Some v else get s j)"
begin

lemma put_result_at: "map_res (put s k) r = Inr s' \<Longrightarrow> \<exists>v. r = Inr v \<and> get s' k = Some v"
  by (auto simp: map_res_Inr_iff get_put)

lemma put_result_frame: "map_res (put s k) r = Inr s' \<Longrightarrow> j \<noteq> k \<Longrightarrow> get s' j = get s j"
  by (auto simp: map_res_Inr_iff get_put)

lemma put_result_all:
  assumes "map_res (put s k) r = Inr s'"
    and "\<And>j v. get s j = Some v \<Longrightarrow> P j v"
    and "\<And>v. r = Inr v \<Longrightarrow> P k v"
    and "get s' i = Some w"
  shows "P i w"
  using assms by (auto simp: map_res_Inr_iff get_put split: if_splits)

end

locale erasable_store = keyed_store +
  fixes del :: "'s \<Rightarrow> 'k \<Rightarrow> 's"
  assumes get_del: "get (del s k) j = (if j = k then None else get s j)"
begin

lemma del_put: "get (del (put s k v) k) = get (del s k)"
  by (rule ext) (simp add: get_del get_put)

lemma put_del: "get (put (del s k) k v) = get (put s k v)"
  by (rule ext) (simp add: get_del get_put)

end

interpretation obj: erasable_store obj_get obj_set obj_del
  by unfold_locales (simp_all add: obj_get_set obj_get_del)

section \<open>Array and lodash helpers\<close>

fun uniq_by :: "('a \<Rightarrow> 'b) \<Rightarrow> 'a list \<Rightarrow> 'a list" where
  \<comment> \<open>\<open>_.uniqBy\<close>: the first element of each key, in order\<close>
  "uniq_by f [] = []"
| "uniq_by f (x # xs) = x # uniq_by f (filter (\<lambda>y. f y \<noteq> f x) xs)"

definition union_by :: "('a \<Rightarrow> 'b) \<Rightarrow> 'a list \<Rightarrow> 'a list \<Rightarrow> 'a list" where
  "union_by f xs ys = uniq_by f (xs @ ys)"

fun find_index :: "('a \<Rightarrow> bool) \<Rightarrow> 'a list \<Rightarrow> nat option" where
  \<comment> \<open>\<open>findIndex\<close>, with \<open>None\<close> for -1\<close>
  "find_index P [] = None"
| "find_index P (x # xs) = (if P x then Some 0 else map_option Suc (find_index P xs))"

lemma set_uniq_by: "set (uniq_by f xs) \<subseteq> set xs"
  by (induction f xs rule: uniq_by.induct) auto

lemma keys_uniq_by: "f ` set (uniq_by f xs) = f ` set xs"
proof (induction f xs rule: uniq_by.induct)
  case (2 f x xs)
  have "f ` set (filter (\<lambda>y. f y \<noteq> f x) xs) = f ` set xs - {f x}" by auto
  with 2 show ?case by auto
qed simp

lemma distinct_uniq_by: "distinct (map f (uniq_by f xs))"
proof (induction f xs rule: uniq_by.induct)
  case (2 f x xs)
  have "f x \<notin> f ` set (uniq_by f (filter (\<lambda>y. f y \<noteq> f x) xs))"
    by (auto simp: keys_uniq_by)
  with 2 show ?case by simp
qed simp

lemma uniq_by_distinct: "distinct (map f xs) \<Longrightarrow> uniq_by f xs = xs"
proof (induction f xs rule: uniq_by.induct)
  case (2 f x xs)
  then have "filter (\<lambda>y. f y \<noteq> f x) xs = xs" by (auto simp: filter_id_conv image_iff)
  with 2 show ?case by simp
qed simp

lemma uniq_by_idem: "uniq_by f (uniq_by f xs) = uniq_by f xs"
  by (rule uniq_by_distinct) (rule distinct_uniq_by)

lemma length_uniq_by: "length (uniq_by f xs) \<le> length xs"
proof (induction f xs rule: uniq_by.induct)
  case (2 f x xs)
  have "length (filter (\<lambda>y. f y \<noteq> f x) xs) \<le> length xs" by (rule length_filter_le)
  then have "length (uniq_by f (filter (\<lambda>y. f y \<noteq> f x) xs)) \<le> length xs"
    by (rule order_trans[OF 2])
  then show ?case by simp
qed simp

lemma union_by_single:
  "distinct (map f ys) \<Longrightarrow> union_by f [x] ys = x # filter (\<lambda>y. f y \<noteq> f x) ys"
  by (simp add: union_by_def uniq_by_distinct distinct_map_filter)

lemma find_index_Some: "find_index P xs = Some i \<Longrightarrow> i < length xs \<and> P (xs ! i)"
  by (induction xs arbitrary: i) (auto split: if_splits)

lemma find_index_first: "find_index P xs = Some i \<Longrightarrow> j < i \<Longrightarrow> \<not> P (xs ! j)"
proof (induction xs arbitrary: i j)
  case (Cons x xs)
  then show ?case by (cases j) (auto split: if_splits)
qed simp

lemma find_index_None: "find_index P xs = None \<longleftrightarrow> (\<forall>x\<in>set xs. \<not> P x)"
  by (induction xs) auto

lemma find_Some: "List.find P xs = Some x \<Longrightarrow> x \<in> set xs \<and> P x"
  by (induction xs) (auto split: if_splits)

lemma find_None: "List.find P xs = None \<longleftrightarrow> (\<forall>x\<in>set xs. \<not> P x)"
  by (induction xs) auto

lemma find_map: "List.find P (map f xs) = map_option f (List.find (P \<circ> f) xs)"
  by (induction xs) auto

lemma find_cong: "(\<And>x. x \<in> set xs \<Longrightarrow> P x = Q x) \<Longrightarrow> List.find P xs = List.find Q xs"
  by (induction xs) auto

text \<open>\<open>map\<close> over a list of entries that never changes an entry's key.\<close>

locale key_preserving =
  fixes key :: "'a \<Rightarrow> 'k" and f :: "'a \<Rightarrow> 'a"
  assumes key_f: "key (f x) = key x"
begin

lemma map_keys: "map key (map f xs) = map key xs"
  by (simp add: key_f)

lemma distinct_keys: "distinct (map key (map f xs)) = distinct (map key xs)"
  by (simp only: map_keys)

lemma find_key: "List.find (\<lambda>x. key x = k) (map f xs) = map_option f (List.find (\<lambda>x. key x = k) xs)"
  by (induction xs) (auto simp: key_f)

end

definition replace_by :: "('a \<Rightarrow> 'k) \<Rightarrow> 'a \<Rightarrow> 'a \<Rightarrow> 'a" where
  \<comment> \<open>the callback \<open>x => x.id === y.id ? y : x\<close>\<close>
  "replace_by key y x = (if key x = key y then y else x)"

interpretation replace_by: key_preserving key "replace_by key y"
  by unfold_locales (simp add: replace_by_def)

section \<open>Rows, folds and the order of strings\<close>

definition at_index :: "'a list \<Rightarrow> nat option \<Rightarrow> 'a option" where
  \<comment> \<open>\<open>row[i]\<close>; the index -1 is \<open>None\<close>\<close>
  "at_index row i = (case i of None \<Rightarrow> None | Some n \<Rightarrow> if n < length row then Some (row ! n) else None)"

fun fold_r :: "('b \<Rightarrow> 'a \<Rightarrow> 'b result) \<Rightarrow> 'b \<Rightarrow> 'a list \<Rightarrow> 'b result" where
  \<comment> \<open>\<open>reduce\<close> with a callback that may throw\<close>
  "fold_r f acc [] = Inr acc"
| "fold_r f acc (x # xs) = bind_r (f acc x) (\<lambda>acc'. fold_r f acc' xs)"

fun str_le :: "string \<Rightarrow> string \<Rightarrow> bool" where
  "str_le [] _ = True"
| "str_le (_ # _) [] = False"
| "str_le (c # s) (d # t) = ((of_char c :: nat) < of_char d \<or> c = d \<and> str_le s t)"

lemma str_le_refl [simp]: "str_le s s"
  by (induction s) simp_all

lemma str_le_total: "str_le s t \<or> str_le t s"
proof (induction s t rule: str_le.induct)
  case (3 c s d t)
  consider "(of_char c :: nat) < of_char d" | "(of_char d :: nat) < of_char c" | "(of_char c :: nat) = of_char d" by linarith
  then show ?case
  proof cases
    case 3
    then have "c = d" by simp
    then show ?thesis using "3.IH" by auto
  qed simp_all
qed simp_all

lemma str_le_trans: "str_le s t \<Longrightarrow> str_le t u \<Longrightarrow> str_le s u"
proof (induction s arbitrary: t u)
  case (Cons c s)
  then show ?case by (cases t; cases u) auto
qed simp

fun insert_str :: "string \<Rightarrow> string list \<Rightarrow> string list" where
  "insert_str x [] = [x]"
| "insert_str x (y # ys) = (if str_le x y then x # y # ys else y # insert_str x ys)"

definition sort_strs :: "string list \<Rightarrow> string list" where
  \<comment> \<open>\<open>xs.sort()\<close>\<close>
  "sort_strs xs = foldr insert_str xs []"

lemma set_insert_str [simp]: "set (insert_str x xs) = insert x (set xs)"
  by (induction xs) auto

lemma set_sort_strs [simp]: "set (sort_strs xs) = set xs"
  unfolding sort_strs_def by (induction xs) auto

lemma distinct_insert_str [simp]: "distinct (insert_str x xs) \<longleftrightarrow> x \<notin> set xs \<and> distinct xs"
  by (induction xs) auto

lemma distinct_sort_strs [simp]: "distinct (sort_strs xs) = distinct xs"
  unfolding sort_strs_def by (induction xs) (auto simp: set_sort_strs[unfolded sort_strs_def])

lemma sorted_insert_str: "sorted_wrt str_le xs \<Longrightarrow> sorted_wrt str_le (insert_str x xs)"
proof (induction xs)
  case (Cons y ys)
  then show ?case using str_le_total[of x y] by (auto intro: str_le_trans)
qed simp

lemma sorted_sort_strs: "sorted_wrt str_le (sort_strs xs)"
  unfolding sort_strs_def by (induction xs) (auto intro: sorted_insert_str)

end
