(* ===== verification/Temp_Vars.thy ===== *)
theory Temp_Vars
  imports Js_Prelude
begin

text \<open>
  Template variables: the data of \<open>ui/src/types/tempVars.ts\<close>, how the values of a variable are
  resolved and selected (\<open>ui/src/tempVars/utils/index.ts\<close>), the selection helpers of the
  dashboard (\<open>ui/src/dashboards/utils/tempVars.ts\<close>) and the tables of
  \<open>ui/src/tempVars/constants/index.ts\<close>.
  Names with a colon on each side are the variables a query mentions.
\<close>

section \<open>Data\<close>

datatype template_value_type =
    VDatabase | VTagKey | VFieldKey | VMeasurement | VTagValue | VCSV | VMap | VPoints
  | VConstant | VMetaQuery | VTimeStamp

datatype template_type =
    TAutoGroupBy | TConstant | TFieldKeys | TMeasurements | TTagKeys | TTagValues | TCSV
  | TMap | TDatabases | TMetaQuery | TText

record template_value =
  tv_value :: string
  tv_type :: template_value_type
  tv_selected :: bool
  tv_localSelected :: bool
  tv_key :: "string option"

record template_query =
  tq_db :: "string option"
  tq_rp :: "string option"
  tq_measurement :: "string option"
  tq_tagKey :: "string option"
  tq_fieldKey :: "string option"
  tq_influxql :: "string option"

record template =
  t_id :: string
  t_tempVar :: string
  t_values :: "template_value list"
  t_type :: template_type
  t_label :: string
  t_query :: "template_query option"

fun TEMPLATE_VARIABLE_TYPES :: "template_type \<Rightarrow> template_value_type option" where
  "TEMPLATE_VARIABLE_TYPES TCSV = Some VCSV"
| "TEMPLATE_VARIABLE_TYPES TMap = Some VMap"
| "TEMPLATE_VARIABLE_TYPES TDatabases = Some VDatabase"
| "TEMPLATE_VARIABLE_TYPES TMeasurements = Some VMeasurement"
| "TEMPLATE_VARIABLE_TYPES TFieldKeys = Some VFieldKey"
| "TEMPLATE_VARIABLE_TYPES TTagKeys = Some VTagKey"
| "TEMPLATE_VARIABLE_TYPES TTagValues = Some VTagValue"
| "TEMPLATE_VARIABLE_TYPES TMetaQuery = Some VMetaQuery"
| "TEMPLATE_VARIABLE_TYPES TText = Some VConstant"
| "TEMPLATE_VARIABLE_TYPES TAutoGroupBy = None"
| "TEMPLATE_VARIABLE_TYPES TConstant = None"

section \<open>Names\<close>

definition trimAndRemoveQuotes :: "string \<Rightarrow> string" where
  "trimAndRemoveQuotes elt =
     (let trimmed = js_trim elt;
          s = (case trimmed of c # cs \<Rightarrow> if c = CHR 0x22 then cs else trimmed | [] \<Rightarrow> [])
      in if s \<noteq> [] \<and> last s = CHR 0x22 then butlast s else s)"

definition formatTempVar :: "string \<Rightarrow> string" where
  "formatTempVar nm =
     CHR '':'' # filter (\<lambda>c. \<not> is_space c) (filter (\<lambda>c. c \<noteq> CHR '':'') nm) @ [CHR '':'']"

definition stripTempVar :: "string \<Rightarrow> string" where
  "stripTempVar tempVarName = take (length tempVarName - 2) (drop 1 tempVarName)"

definition plain_name :: "string \<Rightarrow> bool" where
  "plain_name s = (\<forall>c\<in>set s. c \<noteq> CHR '':'' \<and> \<not> is_space c)"

definition well_named :: "template \<Rightarrow> bool" where
  \<comment> \<open>the template's name is a plain name between two colons\<close>
  "well_named t = (\<exists>s. plain_name s \<and> t_tempVar t = CHR '':'' # s @ [CHR '':''])"

definition name_char :: "char \<Rightarrow> bool" where
  "name_char c = (c \<noteq> CHR '':'' \<and> \<not> is_space c)"

lemma formatTempVar_eq: "formatTempVar nm = CHR '':'' # filter name_char nm @ [CHR '':'']"
  by (simp add: formatTempVar_def name_char_def[abs_def] conj_commute)

lemma plain_name_filter: "plain_name s \<Longrightarrow> filter name_char s = s"
  by (simp add: plain_name_def name_char_def filter_id_conv)

lemma stripTempVar_colons [simp]: "stripTempVar (CHR '':'' # s @ [CHR '':'']) = s"
  by (simp add: stripTempVar_def)

lemma strip_format: "plain_name s \<Longrightarrow> stripTempVar (formatTempVar s) = s"
  by (simp add: formatTempVar_eq plain_name_filter)

lemma format_strip: "well_named t \<Longrightarrow> formatTempVar (stripTempVar (t_tempVar t)) = t_tempVar t"
  by (auto simp: well_named_def formatTempVar_eq plain_name_filter)

lemma formatTempVar_idem: "formatTempVar (formatTempVar s) = formatTempVar s"
proof -
  have "\<not> name_char CHR '':''" by (simp add: name_char_def)
  then show ?thesis by (simp add: formatTempVar_eq)
qed

section \<open>Which value of a variable is selected\<close>

definition getSelectedValue :: "template \<Rightarrow> string option" where
  "getSelectedValue t = map_option tv_value (List.find tv_selected (t_values t))"

definition getLocalSelectedValue :: "template \<Rightarrow> string option" where
  "getLocalSelectedValue t = map_option tv_value (List.find tv_localSelected (t_values t))"

definition truthy :: "string option \<Rightarrow> bool" where
  \<comment> \<open>a string that is neither missing nor empty\<close>
  "truthy v = (v \<noteq> None \<and> v \<noteq> Some [])"

definition usable :: "string option \<Rightarrow> string list \<Rightarrow> string \<Rightarrow> string" where
  \<comment> \<open>\<open>if (!v || !values.includes(v)) v = fallback\<close>\<close>
  "usable v vs fallback = (if \<not> truthy v \<or> the v \<notin> set vs then fallback else the v)"

definition newTemplateValueQuery ::
    "template \<Rightarrow> string list option \<Rightarrow> string option \<Rightarrow> template_value list result" where
  "newTemplateValueQuery t newValues hopefullySelectedValue =
     bind_r (deref newValues) (\<lambda>vs.
       if vs = [] then Inr []
       else bind_r (deref (TEMPLATE_VARIABLE_TYPES (t_type t))) (\<lambda>ty.
         let selectedValue = usable (getSelectedValue t) vs (hd vs);
             localValue = (if truthy hopefullySelectedValue then hopefullySelectedValue
                           else getLocalSelectedValue t);
             localSelectedValue = usable localValue vs selectedValue
         in Inr (map (\<lambda>v. \<lparr>tv_value = v, tv_type = ty, tv_selected = (v = selectedValue),
                          tv_localSelected = (v = localSelectedValue), tv_key = None\<rparr>) vs)))"

definition newTemplateValueConstant ::
    "template \<Rightarrow> string option \<Rightarrow> template_value list" where
  "newTemplateValueConstant t hopefullySelectedValue =
     (case t_values t of
        [] \<Rightarrow> []
      | v0 # _ \<Rightarrow>
        let selectedValue = (case List.find tv_selected (t_values t) of None \<Rightarrow> v0 | Some v \<Rightarrow> v);
            hoped = List.find (\<lambda>v. if t_type t = TMap then tv_key v = hopefullySelectedValue
                                   else Some (tv_value v) = hopefullySelectedValue) (t_values t);
            localSelectedValue =
              (case or_else hoped (List.find tv_localSelected (t_values t)) of
                 None \<Rightarrow> selectedValue | Some v \<Rightarrow> v)
        in map (\<lambda>v. v\<lparr>tv_selected := (tv_value v = tv_value selectedValue),
                      tv_localSelected := (tv_value v = tv_value localSelectedValue)\<rparr>)
             (t_values t))"

definition newTemplateValueText :: "template \<Rightarrow> string option \<Rightarrow> template_value list" where
  "newTemplateValueText t hopefullySelectedValue =
     (if truthy hopefullySelectedValue then
        [\<lparr>tv_value = the hopefullySelectedValue, tv_type = VConstant, tv_selected = False,
          tv_localSelected = True, tv_key = None\<rparr>]
      else case t_values t of
        v # _ \<Rightarrow> [v\<lparr>tv_localSelected := True\<rparr>]
      | [] \<Rightarrow> [\<lparr>tv_value = [], tv_type = VConstant, tv_selected = False,
                tv_localSelected = True, tv_key = None\<rparr>])"

fun resolveValues ::
    "template \<Rightarrow> string list option \<Rightarrow> string option \<Rightarrow> template_value list result" where
  "resolveValues t newValues hopefullySelectedValue =
     (case t_type t of
        TText \<Rightarrow> Inr (newTemplateValueText t hopefullySelectedValue)
      | TCSV \<Rightarrow> Inr (newTemplateValueConstant t hopefullySelectedValue)
      | TMap \<Rightarrow> Inr (newTemplateValueConstant t hopefullySelectedValue)
      | TMetaQuery \<Rightarrow> newTemplateValueQuery t newValues hopefullySelectedValue
      | TFieldKeys \<Rightarrow> newTemplateValueQuery t newValues hopefullySelectedValue
      | TMeasurements \<Rightarrow> newTemplateValueQuery t newValues hopefullySelectedValue
      | TTagKeys \<Rightarrow> newTemplateValueQuery t newValues hopefullySelectedValue
      | TTagValues \<Rightarrow> newTemplateValueQuery t newValues hopefullySelectedValue
      | TDatabases \<Rightarrow> newTemplateValueQuery t newValues hopefullySelectedValue
      | _ \<Rightarrow> Inl (Thrown ''TemplateValue resolution for TemplateType not implemented''))"

declare resolveValues.simps [simp del]

section \<open>What resolving the values guarantees\<close>

lemma usable_in: "vs \<noteq> [] \<Longrightarrow> usable v vs (hd vs) \<in> set vs"
  by (auto simp: usable_def)

lemma usable_in_fallback: "d \<in> set vs \<Longrightarrow> usable v vs d \<in> set vs"
  by (auto simp: usable_def)

lemma usable_same: "v \<noteq> [] \<Longrightarrow> v \<in> set vs \<Longrightarrow> usable (Some v) vs d = v"
  by (simp add: usable_def truthy_def)

definition query_backed :: "template_type \<Rightarrow> bool" where
  "query_backed ty = (ty \<in> {TMetaQuery, TFieldKeys, TMeasurements, TTagKeys, TTagValues, TDatabases})"

lemma query_types_mapped: "query_backed ty \<Longrightarrow> TEMPLATE_VARIABLE_TYPES ty \<noteq> None"
  by (auto simp: query_backed_def)

lemma resolveValues_query:
  "query_backed (t_type t) \<Longrightarrow> resolveValues t vs hope = newTemplateValueQuery t vs hope"
  by (auto simp: query_backed_def resolveValues.simps)

definition one_choice :: "template_value list \<Rightarrow> bool" where
  \<comment> \<open>exactly one entry is selected and exactly one is locally selected\<close>
  "one_choice vs = (length (filter tv_selected vs) = 1 \<and> length (filter tv_localSelected vs) = 1)"

lemma filter_eq_single: "distinct vs \<Longrightarrow> v \<in> set vs \<Longrightarrow> filter (\<lambda>x. x = v) vs = [v]"
  by (induction vs) (auto simp: filter_empty_conv)

lemma newTemplateValueQuery_shape:
  assumes "newTemplateValueQuery t (Some vs) hope = Inr out" and "vs \<noteq> []"
  obtains ty s l where "s \<in> set vs" and "l \<in> set vs"
    and "s = usable (getSelectedValue t) vs (hd vs)"
    and "l = usable (if truthy hope then hope else getLocalSelectedValue t) vs s"
    and "TEMPLATE_VARIABLE_TYPES (t_type t) = Some ty"
    and "out = map (\<lambda>v. \<lparr>tv_value = v, tv_type = ty, tv_selected = (v = s),
                        tv_localSelected = (v = l), tv_key = None\<rparr>) vs"
  using assms that usable_in[OF assms(2)] usable_in_fallback
  by (auto simp: newTemplateValueQuery_def Let_def bind_r_Inr_iff deref_Inr_iff)

text \<open>
  C9: a query-backed variable that resolves to a non-empty list of distinct values offers
  exactly those values in the order the query returned them, with exactly one of them selected
  and exactly one locally selected; a requested value that is among them becomes the local
  choice, and a persisted selection that is still among them stays selected.
\<close>

theorem resolve_query_choice:
  assumes "query_backed (t_type t)" and "resolveValues t (Some vs) hope = Inr out"
    and "vs \<noteq> []" and "distinct vs"
  shows "map tv_value out = vs \<and> one_choice out \<and>
    (\<forall>h. hope = Some h \<and> h \<noteq> [] \<and> h \<in> set vs \<longrightarrow>
       map tv_value (filter tv_localSelected out) = [h]) \<and>
    (\<forall>p. getSelectedValue t = Some p \<and> p \<noteq> [] \<and> p \<in> set vs \<longrightarrow>
       map tv_value (filter tv_selected out) = [p])"
proof -
  have q: "newTemplateValueQuery t (Some vs) hope = Inr out"
    using assms(1,2) by (simp add: resolveValues_query)
  obtain ty s l where s1: "s \<in> set vs" and l1: "l \<in> set vs"
    and s2: "s = usable (getSelectedValue t) vs (hd vs)"
    and l2: "l = usable (if truthy hope then hope else getLocalSelectedValue t) vs s"
    and "TEMPLATE_VARIABLE_TYPES (t_type t) = Some ty"
    and out: "out = map (\<lambda>v. \<lparr>tv_value = v, tv_type = ty, tv_selected = (v = s),
                        tv_localSelected = (v = l), tv_key = None\<rparr>) vs"
    by (rule newTemplateValueQuery_shape[OF q assms(3)])
  have sel: "map tv_value (filter tv_selected out) = [s]"
    using filter_eq_single[OF assms(4) s1] by (simp add: out filter_map o_def)
  have loc: "map tv_value (filter tv_localSelected out) = [l]"
    using filter_eq_single[OF assms(4) l1] by (simp add: out filter_map o_def)
  from sel loc have "one_choice out"
    by (metis (no_types, lifting) One_nat_def length_Cons length_map list.size(3) one_choice_def)
  moreover have "map tv_value out = vs" by (simp add: out o_def)
  moreover have "hope = Some h \<and> h \<noteq> [] \<and> h \<in> set vs \<longrightarrow> l = h" for h
    using l2 by (simp add: truthy_def usable_same)
  moreover have "getSelectedValue t = Some p \<and> p \<noteq> [] \<and> p \<in> set vs \<longrightarrow> s = p" for p
    using s2 by (simp add: usable_same)
  ultimately show ?thesis using sel loc by simp
qed

definition host_template :: template where
  "host_template =
     \<lparr>t_id = ''1'', t_tempVar = '':host:'',
      t_values = [\<lparr>tv_value = ''a'', tv_type = VTagValue, tv_selected = True,
                   tv_localSelected = True, tv_key = None\<rparr>],
      t_type = TTagValues, t_label = [], t_query = None\<rparr>"

theorem resolve_query_choice_witness:
  "map tv_value (filter tv_localSelected
     (projr (resolveValues host_template (Some [''b'', ''a'']) (Some ''b'')))) = [''b'']"
proof -
  obtain out where out: "resolveValues host_template (Some [''b'', ''a'']) (Some ''b'') = Inr out"
    by (simp add: resolveValues.simps host_template_def newTemplateValueQuery_def Let_def)
  have "query_backed (t_type host_template)" by (simp add: host_template_def query_backed_def)
  from resolve_query_choice[OF this out] show ?thesis by (simp add: out)
qed

lemma one_choice_map:
  assumes "distinct (map g vs)" and "s \<in> g ` set vs" and "l \<in> g ` set vs"
    and sel: "\<And>v. v \<in> set vs \<Longrightarrow> tv_selected (f v) = (g v = s)"
    and loc: "\<And>v. v \<in> set vs \<Longrightarrow> tv_localSelected (f v) = (g v = l)"
  shows "one_choice (map f vs)"
proof -
  have single: "length (filter (\<lambda>v. g v = x) vs) = 1" if "x \<in> g ` set vs" for x
    using assms(1) that
  proof (induction vs)
    case (Cons v vs)
    then show ?case by (cases "g v = x") (auto simp: filter_empty_conv image_iff)
  qed simp
  have "filter (tv_selected \<circ> f) vs = filter (\<lambda>v. g v = s) vs"
    using sel by (intro filter_cong) auto
  moreover have "filter (tv_localSelected \<circ> f) vs = filter (\<lambda>v. g v = l) vs"
    using loc by (intro filter_cong) auto
  ultimately show ?thesis using assms(2,3) single by (simp add: one_choice_def filter_map)
qed

lemma find_value_in: "List.find P vs = Some v \<Longrightarrow> tv_value v \<in> tv_value ` set vs"
  by (auto dest: find_Some)

text \<open>
  resolving a CSV or map variable never changes the values it offers; when it has values
  and they are distinct, exactly one of them is selected and exactly one locally selected.
\<close>

theorem resolve_constant_choice:
  assumes "t_type t \<in> {TCSV, TMap}" and "resolveValues t vs hope = Inr out"
  shows "map tv_value out = map tv_value (t_values t) \<and> map tv_key out = map tv_key (t_values t) \<and>
    (t_values t \<noteq> [] \<and> distinct (map tv_value (t_values t)) \<longrightarrow> one_choice out)"
proof -
  have out: "out = newTemplateValueConstant t hope"
    using assms by (auto simp: resolveValues.simps)
  show ?thesis
  proof (cases "t_values t")
    case Nil
    then show ?thesis by (simp add: out newTemplateValueConstant_def)
  next
    case (Cons v0 rest)
    define s where "s = (case List.find tv_selected (t_values t) of None \<Rightarrow> v0 | Some v \<Rightarrow> v)"
    define l where "l = (case or_else (List.find (\<lambda>v. if t_type t = TMap then tv_key v = hope
                                   else Some (tv_value v) = hope) (t_values t))
                          (List.find tv_localSelected (t_values t)) of None \<Rightarrow> s | Some v \<Rightarrow> v)"
    have o: "out = map (\<lambda>v. v\<lparr>tv_selected := (tv_value v = tv_value s),
                             tv_localSelected := (tv_value v = tv_value l)\<rparr>) (t_values t)"
      unfolding out newTemplateValueConstant_def Let_def l_def s_def Cons by (simp only: list.case)
    have s: "tv_value s \<in> tv_value ` set (t_values t)"
      using Cons find_value_in by (auto simp: s_def split: option.splits)
    then have l: "tv_value l \<in> tv_value ` set (t_values t)"
      using find_value_in by (auto simp: l_def or_else_def split: option.splits)
    have "one_choice out" if "distinct (map tv_value (t_values t))"
      unfolding o by (rule one_choice_map[OF that s l]) simp_all
    moreover have "map tv_value out = map tv_value (t_values t)"
      "map tv_key out = map tv_key (t_values t)"
      by (simp_all add: o o_def)
    ultimately show ?thesis by blast
  qed
qed

definition csv_template :: template where
  "csv_template = host_template\<lparr>t_type := TCSV,
     t_values := map (\<lambda>s. \<lparr>tv_value = s, tv_type = VCSV, tv_selected = False,
                        tv_localSelected = False, tv_key = None\<rparr>) [''x'', ''y'']\<rparr>"

theorem resolve_constant_choice_witness:
  "one_choice (projr (resolveValues csv_template None (Some ''y'')))"
proof -
  obtain out where out: "resolveValues csv_template None (Some ''y'') = Inr out"
    by (simp add: resolveValues.simps csv_template_def)
  have "t_type csv_template \<in> {TCSV, TMap}" by (simp add: csv_template_def)
  from resolve_constant_choice[OF this out] have "one_choice out" by (simp add: csv_template_def)
  then show ?thesis by (simp only: out sum.sel)
qed

section \<open>The dashboard's selections\<close>

definition templateSelectionsFromTemplates :: "template list \<Rightarrow> string option js_obj" where
  "templateSelectionsFromTemplates ts =
     foldl (\<lambda>acc t.
       let tempVar = stripTempVar (t_tempVar t) in
       (case List.find tv_localSelected (t_values t) of
          None \<Rightarrow> acc
        | Some selection \<Rightarrow>
            obj_set acc tempVar
              (if t_type t = TMap then tv_key selection else Some (tv_value selection)))) [] ts"

definition templateSelectionsFromQueryParams :: "'v js_obj \<Rightarrow> 'v js_obj" where
  \<comment> \<open>\<open>tempVars\<close> is the object the query-string parser returns for that parameter\<close>
  "templateSelectionsFromQueryParams tempVars =
     foldl (\<lambda>acc (tempVar, v). obj_set acc (formatTempVar tempVar) v) [] (obj_entries tempVars)"

definition mark_selected :: "string \<Rightarrow> template_value \<Rightarrow> template_value" where
  "mark_selected valueToChoose v =
     (if tv_value v = valueToChoose then v\<lparr>tv_selected := True\<rparr> else v\<lparr>tv_selected := False\<rparr>)"

definition mark_localSelected :: "string \<Rightarrow> template_value \<Rightarrow> template_value" where
  "mark_localSelected valueToChoose v =
     (if tv_value v = valueToChoose then v\<lparr>tv_localSelected := True\<rparr>
      else v\<lparr>tv_localSelected := False\<rparr>)"

definition first_value :: "template \<Rightarrow> string" where
  "first_value t = (case t_values t of [] \<Rightarrow> [] | v # _ \<Rightarrow> tv_value v)"

definition makeSelected :: "template \<Rightarrow> string \<Rightarrow> template" where
  "makeSelected t val =
     (let valueToChoose =
            (case List.find (\<lambda>v. tv_value v = val) (t_values t) of
               Some found \<Rightarrow> tv_value found
             | None \<Rightarrow> first_value t)
      in t\<lparr>t_values := map (mark_selected valueToChoose) (t_values t)\<rparr>)"

definition makeLocalSelected :: "template \<Rightarrow> string \<Rightarrow> template" where
  "makeLocalSelected t val =
     (let valueToChoose =
            (case List.find (\<lambda>v. tv_value v = val) (t_values t) of
               Some found \<Rightarrow> tv_value found
             | None \<Rightarrow> (case List.find tv_selected (t_values t) of
                 Some selectedValue \<Rightarrow> tv_value selectedValue
               | None \<Rightarrow> first_value t))
      in t\<lparr>t_values := map (mark_localSelected valueToChoose) (t_values t)\<rparr>)"

definition pickSelected :: "template \<Rightarrow> template" where
  "pickSelected t = makeLocalSelected t []"

definition value_or_empty :: "template_value option \<Rightarrow> string" where
  "value_or_empty v = (case v of None \<Rightarrow> [] | Some x \<Rightarrow> tv_value x)"

definition reconcileSelectedAndLocalSelectedValues :: "template \<Rightarrow> template \<Rightarrow> template" where
  "reconcileSelectedAndLocalSelectedValues nextTemplate nextNextTemplate =
     (let localSelectedValue = List.find tv_localSelected (t_values nextTemplate);
          selectedValue = List.find tv_selected (t_values nextTemplate);
          templateWithLocalSelected = makeSelected nextNextTemplate (value_or_empty selectedValue)
      in makeLocalSelected templateWithLocalSelected (value_or_empty localSelectedValue))"

interpretation mark_selected: key_preserving tv_value "mark_selected c"
  by unfold_locales (simp add: mark_selected_def)

interpretation mark_localSelected: key_preserving tv_value "mark_localSelected c"
  by unfold_locales (simp add: mark_localSelected_def)

lemma mark_fields [simp]:
  "tv_selected (mark_selected c v) = (tv_value v = c)"
  "tv_localSelected (mark_localSelected c v) = (tv_value v = c)"
  "tv_selected (mark_localSelected c v) = tv_selected v"
  "tv_value (mark_selected c v) = tv_value v"
  "tv_value (mark_localSelected c v) = tv_value v"
  by (simp_all add: mark_selected_def mark_localSelected_def)

lemma first_value_in: "t_values t \<noteq> [] \<Longrightarrow> first_value t \<in> tv_value ` set (t_values t)"
  by (cases "t_values t") (simp_all add: first_value_def)

lemma makeSelected_values:
  assumes "t_values t \<noteq> []"
  obtains c where "c \<in> tv_value ` set (t_values t)"
    and "val \<in> tv_value ` set (t_values t) \<longrightarrow> c = val"
    and "makeSelected t val = t\<lparr>t_values := map (mark_selected c) (t_values t)\<rparr>"
proof (cases "List.find (\<lambda>v. tv_value v = val) (t_values t)")
  case None
  then have "val \<notin> tv_value ` set (t_values t)" by (auto simp: find_None)
  with None show ?thesis
    using that[of "first_value t"] first_value_in[OF assms]
    by (simp add: makeSelected_def Let_def)
next
  case (Some f)
  then show ?thesis
    using that[of "tv_value f"] find_Some[OF Some] by (auto simp: makeSelected_def Let_def)
qed

lemma makeLocalSelected_values:
  assumes "t_values t \<noteq> []"
  obtains c where "c \<in> tv_value ` set (t_values t)"
    and "val \<in> tv_value ` set (t_values t) \<longrightarrow> c = val"
    and "makeLocalSelected t val = t\<lparr>t_values := map (mark_localSelected c) (t_values t)\<rparr>"
proof (cases "List.find (\<lambda>v. tv_value v = val) (t_values t)")
  case None
  then have absent: "val \<notin> tv_value ` set (t_values t)" by (auto simp: find_None)
  show ?thesis
  proof (cases "List.find tv_selected (t_values t)")
    case None
    with \<open>List.find (\<lambda>v. tv_value v = val) (t_values t) = None\<close> absent show ?thesis
      using that[of "first_value t"] first_value_in[OF assms]
      by (simp add: makeLocalSelected_def Let_def)
  next
    case (Some s)
    with \<open>List.find (\<lambda>v. tv_value v = val) (t_values t) = None\<close> absent show ?thesis
      using that[of "tv_value s"] find_value_in[OF Some]
      by (simp add: makeLocalSelected_def Let_def)
  qed
next
  case (Some f)
  then show ?thesis
    using that[of "tv_value f"] find_Some[OF Some] by (auto simp: makeLocalSelected_def Let_def)
qed

text \<open>
  carrying the selections of a template over to its next version keeps the values of the
  next version; if it has any and they are distinct, exactly one ends up selected and exactly
  one locally selected, and a selection that is still on offer is the one that stays.
\<close>

theorem reconcile_choice:
  fixes n nn :: template
  assumes "t_values nn \<noteq> []"
  defines "r \<equiv> reconcileSelectedAndLocalSelectedValues n nn"
  shows "map tv_value (t_values r) = map tv_value (t_values nn) \<and>
    (distinct (map tv_value (t_values nn)) \<longrightarrow> one_choice (t_values r)) \<and>
    (\<forall>v. List.find tv_selected (t_values n) = Some v \<and> tv_value v \<in> tv_value ` set (t_values nn) \<longrightarrow>
      (\<forall>x\<in>set (t_values r). tv_selected x = (tv_value x = tv_value v)))"
proof -
  obtain c where c: "c \<in> tv_value ` set (t_values nn)"
    and c_keep: "value_or_empty (List.find tv_selected (t_values n)) \<in> tv_value ` set (t_values nn) \<longrightarrow>
      c = value_or_empty (List.find tv_selected (t_values n))"
    and m1: "makeSelected nn (value_or_empty (List.find tv_selected (t_values n))) =
      nn\<lparr>t_values := map (mark_selected c) (t_values nn)\<rparr>"
    by (rule makeSelected_values[OF assms(1)])
  define nn' where "nn' = nn\<lparr>t_values := map (mark_selected c) (t_values nn)\<rparr>"
  have "t_values nn' \<noteq> []" using assms(1) by (simp add: nn'_def)
  then obtain d where d: "d \<in> tv_value ` set (t_values nn')"
    and m2: "makeLocalSelected nn' (value_or_empty (List.find tv_localSelected (t_values n))) =
      nn'\<lparr>t_values := map (mark_localSelected d) (t_values nn')\<rparr>"
    by (rule makeLocalSelected_values)
  have d': "d \<in> tv_value ` set (t_values nn)" using d by (force simp: nn'_def)
  have r: "t_values r = map (mark_localSelected d \<circ> mark_selected c) (t_values nn)"
    by (simp add: r_def reconcileSelectedAndLocalSelectedValues_def m1 m2 nn'_def[symmetric] Let_def)
       (simp add: nn'_def)
  have "one_choice (t_values r)" if "distinct (map tv_value (t_values nn))"
    unfolding r by (rule one_choice_map[OF that c d']) simp_all
  then show ?thesis
    using c_keep by (auto simp: r o_def value_or_empty_def)
qed

theorem reconcile_choice_witness:
  "one_choice (t_values (reconcileSelectedAndLocalSelectedValues host_template csv_template))"
proof -
  have "t_values csv_template \<noteq> []" by (simp add: csv_template_def)
  from reconcile_choice[OF this, of host_template] show ?thesis by (simp add: csv_template_def)
qed

lemma selections_as_list:
  "templateSelectionsFromTemplates ts =
     obj_of_list [] (List.map_filter (\<lambda>t. map_option
       (\<lambda>v. (stripTempVar (t_tempVar t), if t_type t = TMap then tv_key v else Some (tv_value v)))
       (List.find tv_localSelected (t_values t))) ts)"
proof -
  have "foldl (\<lambda>acc t.
       let tempVar = stripTempVar (t_tempVar t) in
       (case List.find tv_localSelected (t_values t) of
          None \<Rightarrow> acc
        | Some selection \<Rightarrow>
            obj_set acc tempVar
              (if t_type t = TMap then tv_key selection else Some (tv_value selection)))) init ts =
     obj_of_list init (List.map_filter (\<lambda>t. map_option
       (\<lambda>v. (stripTempVar (t_tempVar t), if t_type t = TMap then tv_key v else Some (tv_value v)))
       (List.find tv_localSelected (t_values t))) ts)" for init
    by (induction ts arbitrary: init)
       (simp_all add: List.map_filter_simps Let_def split: option.split)
  then show ?thesis by (simp add: templateSelectionsFromTemplates_def)
qed

lemma params_as_list:
  "templateSelectionsFromQueryParams ob =
     obj_of_list [] (map (\<lambda>(k, v). (formatTempVar k, v)) (obj_entries ob))"
  by (simp add: templateSelectionsFromQueryParams_def obj_of_list_def foldl_map case_prod_unfold)

lemma map_of_map_filter_option:
  "distinct (map k ts) \<Longrightarrow> t \<in> set ts \<Longrightarrow>
     map_of (List.map_filter (\<lambda>t. map_option (\<lambda>v. (k t, g t v)) (f t)) ts) (k t) =
       map_option (g t) (f t)"
proof (induction ts)
  case (Cons u us)
  have "k t \<notin> fst ` set (List.map_filter (\<lambda>t. map_option (\<lambda>v. (k t, g t v)) (f t)) us)"
    if "t = u"
    using Cons.prems that by (induction us) (auto simp: List.map_filter_simps split: option.splits)
  then have none: "t = u \<Longrightarrow>
      map_of (List.map_filter (\<lambda>t. map_option (\<lambda>v. (k t, g t v)) (f t)) us) (k t) = None"
    by (simp add: map_of_eq_None_iff)
  have "k t = k u \<longleftrightarrow> t = u" using Cons.prems by (auto simp: image_iff)
  with Cons none show ?case by (auto simp: List.map_filter_simps split: option.split)
qed simp

lemma keys_map_filter_option:
  "distinct (map k ts) \<Longrightarrow>
     distinct (map fst (List.map_filter (\<lambda>t. map_option (\<lambda>v. (k t, g t v)) (f t)) ts)) \<and>
     fst ` set (List.map_filter (\<lambda>t. map_option (\<lambda>v. (k t, g t v)) (f t)) ts) \<subseteq> k ` set ts"
  by (induction ts) (auto simp: List.map_filter_simps split: option.splits)

lemma well_named_strip_inj:
  "well_named t \<Longrightarrow> well_named u \<Longrightarrow> stripTempVar (t_tempVar t) = stripTempVar (t_tempVar u) \<longleftrightarrow>
     t_tempVar t = t_tempVar u"
  by (metis format_strip)

lemma map_of_rename:
  "inj_on h (insert k (fst ` set es)) \<Longrightarrow>
     map_of (map (\<lambda>(k, v). (h k, v)) es) (h k) = map_of es k"
proof (induction es)
  case (Cons e es)
  then have "inj_on h (insert k (fst ` set es))" by (auto intro: inj_on_subset)
  with Cons show ?case by (cases e) (auto simp: inj_on_def)
qed simp

text \<open>
  C10: writing the dashboard's selections to the query string and reading them back gives every
  variable its own selection under its full name: the key of the chosen entry for a map
  variable, its value for any other, and nothing for a variable with no local choice.
\<close>

theorem selections_roundtrip:
  assumes "\<forall>t\<in>set ts. well_named t" and "distinct (map t_tempVar ts)" and "t \<in> set ts"
  shows "obj_get (templateSelectionsFromQueryParams (templateSelectionsFromTemplates ts)) (t_tempVar t) =
    map_option (\<lambda>v. if t_type t = TMap then tv_key v else Some (tv_value v))
      (List.find tv_localSelected (t_values t))"
proof -
  let ?strip = "\<lambda>t. stripTempVar (t_tempVar t)"
  let ?pick = "\<lambda>t v. if t_type t = TMap then tv_key v else Some (tv_value v)"
  let ?L = "List.map_filter (\<lambda>t. map_option (\<lambda>v. (?strip t, ?pick t v))
    (List.find tv_localSelected (t_values t))) ts"
  define ob where "ob = templateSelectionsFromTemplates ts"
  have ob: "ob = obj_of_list [] ?L" by (simp add: ob_def selections_as_list)
  have "inj_on ?strip (set ts)"
    using assms(1,2) well_named_strip_inj by (auto simp: inj_on_def distinct_map)
  with assms(2) have dist: "distinct (map ?strip ts)" by (simp add: distinct_map)
  note L = keys_map_filter_option[OF dist, of ?pick "\<lambda>t. List.find tv_localSelected (t_values t)"]
  have "obj_ok ob" by (simp add: ob obj_ok_of_list)
  then have dk: "distinct (obj_keys ob)" by (rule distinct_obj_keys)
  have keys: "fst ` set ob \<subseteq> ?strip ` set ts"
    using L by (simp add: ob keys_of_list)
  have inj: "inj_on formatTempVar (insert (?strip t) (fst ` set (obj_entries ob)))"
  proof -
    have "fst ` set (obj_entries ob) = fst ` set ob"
      using keys_obj_entries[of ob] by (metis list.set_map set_obj_keys)
    moreover have "inj_on formatTempVar (?strip ` set ts)"
      using assms(1) format_strip by (auto simp: inj_on_def)
    moreover have "insert (?strip t) (fst ` set ob) \<subseteq> ?strip ` set ts" using keys assms(3) by blast
    ultimately show ?thesis using inj_on_subset by metis
  qed
  let ?R = "map (\<lambda>(k, v). (formatTempVar k, v)) (obj_entries ob)"
  have "map fst ?R = map formatTempVar (obj_keys ob)"
    by (simp add: keys_obj_entries[symmetric] case_prod_unfold o_def)
  moreover have "inj_on formatTempVar (set (obj_keys ob))"
    using inj by (metis inj_on_insert keys_obj_entries list.set_map)
  ultimately have "distinct (map fst ?R)" using dk by (simp add: distinct_map)
  then have "obj_get (templateSelectionsFromQueryParams ob) (formatTempVar (?strip t)) =
      map_of ?R (formatTempVar (?strip t))"
    by (simp add: params_as_list obj_get_of_list split: option.split)
  also have "\<dots> = map_of (obj_entries ob) (?strip t)" by (rule map_of_rename[OF inj])
  also have "\<dots> = obj_get ob (?strip t)" by (rule map_of_obj_entries)
  also have "\<dots> = map_of ?L (?strip t)"
    using L by (simp add: ob obj_get_of_list split: option.split)
  also have "\<dots> = map_option (?pick t) (List.find tv_localSelected (t_values t))"
    by (rule map_of_map_filter_option[OF dist assms(3)])
  finally show ?thesis
    using assms(1,3) by (simp add: ob_def[symmetric] format_strip)
qed

theorem selections_roundtrip_witness:
  "obj_get (templateSelectionsFromQueryParams (templateSelectionsFromTemplates [host_template]))
     '':host:'' = Some (Some ''a'')"
proof -
  have "plain_name ''host'' \<and> t_tempVar host_template = CHR '':'' # ''host'' @ [CHR '':'']"
    by (simp add: plain_name_def is_space_def host_template_def)
  then have "\<forall>t\<in>set [host_template]. well_named t" unfolding well_named_def by auto
  from selections_roundtrip[OF this, of host_template] show ?thesis
    by (simp add: host_template_def)
qed

text \<open>
  The local choice of a map variable is made by key but stored by value, so what the
  dashboard then reports as the selected key is the key of the first entry that has the same
  value as the requested one. A later key of the same value can therefore not be selected.
\<close>

theorem map_selection_by_value:
  assumes "t_type t = TMap" and "well_named t"
    and "List.find (\<lambda>v. tv_key v = hope) (t_values t) = Some v"
    and "resolveValues t vs hope = Inr out"
  shows "obj_get (templateSelectionsFromTemplates [t\<lparr>t_values := out\<rparr>]) (stripTempVar (t_tempVar t)) =
    map_option tv_key (List.find (\<lambda>w. tv_value w = tv_value v) (t_values t))"
proof -
  from assms(3) obtain v0 rest where ne: "t_values t = v0 # rest" by (cases "t_values t") auto
  from assms(1,4) have out: "out = newTemplateValueConstant t hope"
    by (simp add: resolveValues.simps)
  define s where "s = (case List.find tv_selected (t_values t) of None \<Rightarrow> v0 | Some v \<Rightarrow> v)"
  have hoped: "List.find (\<lambda>v. if t_type t = TMap then tv_key v = hope
      else Some (tv_value v) = hope) (t_values t) = Some v"
    using assms(1,3) by simp
  have o: "out = map (\<lambda>x. x\<lparr>tv_selected := (tv_value x = tv_value s),
      tv_localSelected := (tv_value x = tv_value v)\<rparr>) (t_values t)"
    unfolding out newTemplateValueConstant_def hoped
    unfolding Let_def s_def or_else_def ne by (simp only: list.case option.case)
  have "List.find tv_localSelected out = map_option (\<lambda>x. x\<lparr>tv_selected := (tv_value x = tv_value s),
      tv_localSelected := (tv_value x = tv_value v)\<rparr>)
      (List.find (\<lambda>w. tv_value w = tv_value v) (t_values t))"
    by (simp add: o find_map o_def)
  then show ?thesis
    using assms(1)
    by (simp add: templateSelectionsFromTemplates_def Let_def split: option.split)
qed

definition map_template :: template where
  "map_template = \<lparr>t_id = ''m'', t_tempVar = '':m:'',
     t_values = [\<lparr>tv_value = ''v'', tv_type = VMap, tv_selected = True, tv_localSelected = True,
                  tv_key = Some ''k1''\<rparr>,
                 \<lparr>tv_value = ''v'', tv_type = VMap, tv_selected = False, tv_localSelected = False,
                  tv_key = Some ''k2''\<rparr>],
     t_type = TMap, t_label = [], t_query = None\<rparr>"

theorem map_selection_by_value_witness:
  "obj_get (templateSelectionsFromTemplates
      [map_template\<lparr>t_values := projr (resolveValues map_template None (Some ''k2''))\<rparr>]) ''m'' =
    Some (Some ''k1'')"
proof -
  have ty: "t_type map_template = TMap" by (simp add: map_template_def)
  have "plain_name ''m'' \<and> t_tempVar map_template = CHR '':'' # ''m'' @ [CHR '':'']"
    by (simp add: plain_name_def is_space_def map_template_def)
  then have wn: "well_named map_template" unfolding well_named_def by blast
  have f: "List.find (\<lambda>v. tv_key v = Some ''k2'') (t_values map_template) =
      Some (t_values map_template ! 1)"
    by (simp add: map_template_def)
  obtain out where out: "resolveValues map_template None (Some ''k2'') = Inr out"
    by (simp add: ty resolveValues.simps)
  have o: "projr (resolveValues map_template None (Some ''k2'')) = out" by (simp add: out)
  from map_selection_by_value[OF ty wn f out] show ?thesis
    unfolding o by (simp add: map_template_def stripTempVar_def)
qed

end
