(* ===== verification/Temp_Graph.thy ===== *)
theory Temp_Graph
  imports Temp_Vars
begin

text \<open>
  The dependency graph of template variables (\<open>ui/src/tempVars/utils/graph.ts\<close>): which
  variables a template mentions, the graph built from them, the cycle check and the topological
  sort. The code's nodes are mutable objects that point at each other; here the graph is the
  object \<open>nodesById\<close> and a pointer to a node is the id it is stored under. The array of nodes
  the code passes around is \<open>Object.values(nodesById)\<close>, so here it is the graph's key order.
  \<open>children\<close> are the variables a template depends on, \<open>parents\<close> the ones that depend on it.
\<close>

section \<open>Names a template mentions\<close>

fun dep_names_loop :: "bool \<Rightarrow> string \<Rightarrow> string list \<Rightarrow> string \<Rightarrow> bool \<times> string list" where
  "dep_names_loop inName nm names [] = (inName, names)"
| "dep_names_loop inName nm names (c # cs) =
     (if \<not> inName \<and> c = CHR '':'' then dep_names_loop True [CHR '':''] names cs
      else if inName \<and> c = CHR '':'' then
        dep_names_loop False [] (names @ [nm @ [CHR '':'']]) cs
      else if inName \<and> c \<noteq> CHR '':'' then dep_names_loop inName (nm @ [c]) names cs
      else dep_names_loop inName nm names cs)"

definition getDependencyNamesHelper :: "string \<Rightarrow> string list result" where
  "getDependencyNamesHelper s =
     (let (inName, names) = dep_names_loop False [] [] s
      in if inName then Inl (Thrown (''malformed template variable string `'' @ s @ ''`''))
         else Inr names)"

definition set_add :: "'a list \<Rightarrow> 'a \<Rightarrow> 'a list" where
  \<comment> \<open>\<open>Set.add\<close> on a set kept in insertion order\<close>
  "set_add xs x = (if x \<in> set xs then xs else xs @ [x])"

fun dep_names_of_values :: "string list \<Rightarrow> template_value list \<Rightarrow> string list result" where
  "dep_names_of_values names [] = Inr names"
| "dep_names_of_values names (v # vs) =
     bind_r (getDependencyNamesHelper (tv_value v)) (\<lambda>ns.
       dep_names_of_values (foldl set_add names ns) vs)"

definition getDependencyNames :: "template \<Rightarrow> string list result" where
  "getDependencyNames t =
     (case t_query t of
        Some q \<Rightarrow> if truthy (tq_influxql q) then getDependencyNamesHelper (the (tq_influxql q))
                  else dep_names_of_values [] (t_values t)
      | None \<Rightarrow> dep_names_of_values [] (t_values t))"

section \<open>The graph\<close>

datatype remote_data_state = NotStarted | Loading | Done | Errored

record template_node =
  n_parents :: "string list"
  n_children :: "string list"
  n_status :: remote_data_state
  n_initialTemplate :: template
  n_hydratedTemplate :: "template option"

type_synonym template_graph = "template_node js_obj"

definition fresh_node :: "template \<Rightarrow> template_node" where
  "fresh_node t = \<lparr>n_parents = [], n_children = [], n_status = NotStarted,
     n_initialTemplate = t, n_hydratedTemplate = None\<rparr>"

definition update_node :: "(template_node \<Rightarrow> template_node) \<Rightarrow> template_graph \<Rightarrow> string \<Rightarrow> template_graph" where
  \<comment> \<open>a write to a field of the node object stored under the id\<close>
  "update_node f g i = (case obj_get g i of None \<Rightarrow> g | Some n \<Rightarrow> obj_set g i (f n))"

definition children_of :: "template_graph \<Rightarrow> string \<Rightarrow> string list" where
  "children_of g i = (case obj_get g i of None \<Rightarrow> [] | Some n \<Rightarrow> n_children n)"

definition add_parent :: "string \<Rightarrow> template_node \<Rightarrow> template_node" where
  "add_parent p n = n\<lparr>n_parents := n_parents n @ [p]\<rparr>"

definition add_children :: "string list \<Rightarrow> template_node \<Rightarrow> template_node" where
  "add_children cs n = n\<lparr>n_children := n_children n @ cs\<rparr>"

definition named_nodes :: "template_graph \<Rightarrow> string list \<Rightarrow> string list" where
  \<comment> \<open>\<open>nodes.filter(n => childNames.includes(n.initialTemplate.tempVar))\<close>\<close>
  "named_nodes g childNames =
     filter (\<lambda>i. case obj_get g i of None \<Rightarrow> False
                 | Some n \<Rightarrow> t_tempVar (n_initialTemplate n) \<in> set childNames) (obj_keys g)"

definition link_template :: "template_graph \<Rightarrow> template \<Rightarrow> template_graph result" where
  "link_template g t =
     map_res (\<lambda>childNames.
       let children = named_nodes g childNames
       in foldl (update_node (add_parent (t_id t)))
            (update_node (add_children children) g (t_id t)) children)
       (getDependencyNames t)"

fun link_templates :: "template_graph \<Rightarrow> template list \<Rightarrow> template_graph result" where
  "link_templates g [] = Inr g"
| "link_templates g (t # ts) = bind_r (link_template g t) (\<lambda>g'. link_templates g' ts)"

definition unlinked_graph :: "template list \<Rightarrow> template_graph" where
  "unlinked_graph ts = obj_of_list [] (map (\<lambda>t. (t_id t, fresh_node t)) ts)"

lemma children_of_absent: "i \<notin> fst ` set g \<Longrightarrow> children_of g i = []"
  by (simp add: children_of_def obj_get_None_iff[symmetric])

definition node_name :: "template_graph \<Rightarrow> string \<Rightarrow> string" where
  \<comment> \<open>\<open>node.initialTemplate.tempVar\<close>\<close>
  "node_name g i = (case obj_get g i of None \<Rightarrow> [] | Some n \<Rightarrow> t_tempVar (n_initialTemplate n))"

function verifyAcyclicHelper :: "template_graph \<Rightarrow> string \<Rightarrow> string list \<Rightarrow> unit result" where
  "verifyAcyclicHelper g i seen =
     (if i \<in> set seen then
        Inl (Thrown (''cyclic dependency in template '' @ CHR 0x22 # node_name g i @ [CHR 0x22]))
      else each_r (\<lambda>c. verifyAcyclicHelper g c (seen @ [i])) (children_of g i))"
  by pat_completeness auto
termination
proof (relation "measure (\<lambda>(g, i, seen). card (fst ` set g - set seen))")
  fix g :: template_graph and i seen c
  assume "i \<notin> set seen" and "c \<in> set (children_of g i)"
  moreover from this have "i \<in> fst ` set g" using children_of_absent by force
  ultimately have "fst ` set g - set (seen @ [i]) \<subset> fst ` set g - set seen" by auto
  then show "((g, c, seen @ [i]), g, i, seen) \<in> measure (\<lambda>(g, i, seen). card (fst ` set g - set seen))"
    by (simp add: psubset_card_mono)
qed simp

declare verifyAcyclicHelper.simps [simp del]

definition verifyAcyclic :: "template_graph \<Rightarrow> unit result" where
  "verifyAcyclic g = each_r (\<lambda>i. verifyAcyclicHelper g i []) (obj_keys g)"

definition graphFromTemplates :: "template list \<Rightarrow> template_graph result" where
  "graphFromTemplates ts =
     bind_r (link_templates (unlinked_graph ts) ts) (\<lambda>g. map_res (\<lambda>_. g) (verifyAcyclic g))"

text \<open>
  \<open>topologicalSort\<close> and its helper run the same loop, over all the nodes and over one node's
  children: visit each node that is not in \<open>seen\<close> yet. \<open>topo_visit\<close> is that loop and
  \<open>topologicalSortHelper\<close> is its body.
\<close>

function topo_visit :: "template_graph \<Rightarrow> string list \<Rightarrow> string list \<times> string list \<Rightarrow> string list \<times> string list" where
  "topo_visit g [] st = st"
| "topo_visit g (i # is) (seen, acc) =
     (if i \<in> set seen then topo_visit g is (seen, acc)
      else let (seen', acc') = topo_visit g (children_of g i) (i # seen, acc)
           in topo_visit g is (seen', acc' @ [i]))"
  by pat_completeness auto

lemma topo_visit_seen_dom:
  "topo_visit_dom (g, is, st) \<Longrightarrow> set (fst st) \<subseteq> set (fst (topo_visit g is st))"
proof (induction g "is" st rule: topo_visit.pinduct)
  case (2 g i "is" seen acc)
  obtain s a where sa: "topo_visit g (children_of g i) (i # seen, acc) = (s, a)" by fastforce
  show ?case
  proof (cases "i \<in> set seen")
    case False
    with 2 sa have "insert i (set seen) \<subseteq> set s"
      and "set s \<subseteq> set (fst (topo_visit g is (s, a @ [i])))" by simp_all
    then have "set seen \<subseteq> set (fst (topo_visit g is (s, a @ [i])))" by blast
    with 2 sa False show ?thesis by (simp add: topo_visit.psimps)
  qed (use 2 in \<open>simp add: topo_visit.psimps\<close>)
qed (simp add: topo_visit.psimps)

termination topo_visit
proof (relation "(\<lambda>(g, is, seen, acc). card (fst ` set g - set seen)) <*mlex*>
                 measure (\<lambda>(g, is, seen, acc). length is)")
  show "wf ((\<lambda>(g, is, seen, acc). card (fst ` set g - set seen)) <*mlex*>
            measure (\<lambda>(g, is, seen, acc). length is))"
    by (simp add: wf_mlex)
next
  fix g :: template_graph and i :: string and "is" seen acc :: "string list"
  show "((g, is, seen, acc), g, i # is, seen, acc) \<in> (\<lambda>(g, is, seen, acc). card (fst ` set g - set seen)) <*mlex*>
            measure (\<lambda>(g, is, seen, acc). length is)"
    by (simp add: mlex_iff)
next
  fix g :: template_graph and i :: string and "is" seen acc :: "string list"
  assume new: "i \<notin> set seen"
  show "((g, children_of g i, i # seen, acc), g, i # is, seen, acc) \<in> (\<lambda>(g, is, seen, acc). card (fst ` set g - set seen)) <*mlex*>
            measure (\<lambda>(g, is, seen, acc). length is)"
  proof (cases "i \<in> fst ` set g")
    case True
    with new have "fst ` set g - set (i # seen) \<subset> fst ` set g - set seen" by auto
    then have "card (fst ` set g - set (i # seen)) < card (fst ` set g - set seen)"
      by (simp add: psubset_card_mono)
    then show ?thesis by (simp add: mlex_iff)
  next
    case False
    then have "fst ` set g - set (i # seen) = fst ` set g - set seen" by auto
    with False show ?thesis by (simp add: mlex_iff children_of_absent del: set_simps)
  qed
next
  fix g :: template_graph and i :: string and "is" seen acc s a :: "string list" and x
  assume "x = topo_visit g (children_of g i) (i # seen, acc)" and "(s, a) = x"
    and "topo_visit_dom (g, children_of g i, i # seen, acc)"
  then have "set seen \<subseteq> set s"
    using topo_visit_seen_dom[of g "children_of g i" "(i # seen, acc)"] by (metis fst_conv insert_subset list.set(2))
  then have "card (fst ` set g - set s) \<le> card (fst ` set g - set seen)"
    by (intro card_mono) auto
  then show "((g, is, s, a @ [i]), g, i # is, seen, acc) \<in> (\<lambda>(g, is, seen, acc). card (fst ` set g - set seen)) <*mlex*>
            measure (\<lambda>(g, is, seen, acc). length is)"
    by (auto simp: mlex_iff)
qed

declare topo_visit.simps [simp del]

definition topologicalSortHelper :: "template_graph \<Rightarrow> string \<Rightarrow> string list \<times> string list \<Rightarrow> string list \<times> string list" where
  "topologicalSortHelper g i st =
     (let (seen, acc) = topo_visit g (children_of g i) (i # fst st, snd st) in (seen, acc @ [i]))"

definition topologicalSort :: "template_graph \<Rightarrow> string list" where
  "topologicalSort g = rev (snd (topo_visit g (obj_keys g) ([], [])))"

lemma topo_visit_Cons:
  "topo_visit g (i # is) st =
     topo_visit g is (if i \<in> set (fst st) then st else topologicalSortHelper g i st)"
  by (cases st) (simp add: topo_visit.simps topologicalSortHelper_def split: prod.split)

section \<open>The cycle check\<close>

definition edges :: "template_graph \<Rightarrow> (string \<times> string) set" where
  "edges g = {(i, c). c \<in> set (children_of g i)}"

definition closed_graph :: "template_graph \<Rightarrow> bool" where
  "closed_graph g = (\<forall>n\<in>set g. set (n_children (snd n)) \<subseteq> fst ` set g)"

lemma edges_iff [simp]: "(i, c) \<in> edges g \<longleftrightarrow> c \<in> set (children_of g i)"
  by (simp add: edges_def)

lemma edge_from_node: "(i, c) \<in> edges g \<Longrightarrow> i \<in> fst ` set g"
  using children_of_absent by force

lemma edge_to_node:
  assumes "closed_graph g" and "(i, c) \<in> edges g"
  shows "c \<in> fst ` set g"
proof (cases "obj_get g i")
  case None
  with assms(2) show ?thesis by (simp add: children_of_def)
next
  case (Some n)
  then have "(i, n) \<in> set g" by (simp add: obj_get_def map_of_SomeD)
  with assms Some show ?thesis by (force simp: closed_graph_def children_of_def)
qed

lemma verify_helper_ok_iff:
  "verifyAcyclicHelper g i seen = Inr () \<longleftrightarrow>
     i \<notin> set seen \<and> (\<forall>c\<in>set (children_of g i). verifyAcyclicHelper g c (seen @ [i]) = Inr ())"
  by (subst verifyAcyclicHelper.simps) (simp add: each_r_ok_iff)

lemma verify_ok_avoids_seen:
  "(i, m) \<in> (edges g)\<^sup>* \<Longrightarrow> verifyAcyclicHelper g i seen = Inr () \<Longrightarrow> m \<notin> set seen"
proof (induction arbitrary: seen rule: converse_rtrancl_induct)
  case base
  then show ?case by (simp add: verify_helper_ok_iff[of g m])
next
  case (step i c)
  then have "verifyAcyclicHelper g c (seen @ [i]) = Inr ()"
    using verify_helper_ok_iff[of g i seen] by simp
  with step.IH[of "seen @ [i]"] show ?case by simp
qed

lemma acyclic_verify_ok:
  "acyclic (edges g) \<Longrightarrow> (\<forall>s\<in>set seen. (s, i) \<in> (edges g)\<^sup>+) \<Longrightarrow>
     verifyAcyclicHelper g i seen = Inr ()"
proof (induction g i seen rule: verifyAcyclicHelper.induct)
  case (1 g i seen)
  have new: "i \<notin> set seen" using 1 by (auto simp: acyclic_def)
  have "verifyAcyclicHelper g c (seen @ [i]) = Inr ()" if "c \<in> set (children_of g i)" for c
  proof (rule "1.IH"[OF new that "1.prems"(1)])
    show "\<forall>s\<in>set (seen @ [i]). (s, c) \<in> (edges g)\<^sup>+"
      using "1.prems"(2) that by (auto intro: trancl_into_trancl r_into_trancl)
  qed
  with new show ?case by (simp add: verify_helper_ok_iff[of g i seen])
qed

lemma verifyAcyclic_iff: "verifyAcyclic g = Inr () \<longleftrightarrow> acyclic (edges g)"
proof
  assume ok: "verifyAcyclic g = Inr ()"
  show "acyclic (edges g)"
    unfolding acyclic_def
  proof (intro allI notI)
    fix x assume "(x, x) \<in> (edges g)\<^sup>+"
    then obtain c where c: "(x, c) \<in> edges g" "(c, x) \<in> (edges g)\<^sup>*" by (meson tranclD)
    from ok edge_from_node[OF c(1)] have "verifyAcyclicHelper g x [] = Inr ()"
      by (auto simp: verifyAcyclic_def each_r_ok_iff)
    with c(1) have "verifyAcyclicHelper g c [x] = Inr ()" using verify_helper_ok_iff[of g x "[]"] by simp
    from verify_ok_avoids_seen[OF c(2) this] show False by simp
  qed
next
  assume "acyclic (edges g)"
  then show "verifyAcyclic g = Inr ()"
    by (simp add: verifyAcyclic_def each_r_ok_iff acyclic_verify_ok)
qed

section \<open>Which strings are well formed\<close>

fun odd_pieces :: "string list \<Rightarrow> string list" where
  "odd_pieces (x # y # zs) = y # odd_pieces zs"
| "odd_pieces xs = []"

definition colons :: "string \<Rightarrow> nat" where
  "colons s = length (filter (\<lambda>c. c = CHR '':'') s)"

definition in_colons :: "string \<Rightarrow> string" where
  "in_colons s = CHR '':'' # s @ [CHR '':'']"

lemmas split_colon_Cons = js_split_char_Cons[of _ _ "CHR '':''"]

lemma js_split_colon_not_Nil: "js_split s '':'' \<noteq> []"
  by (simp add: js_split_not_Nil)

lemma length_js_split_colon: "length (js_split s '':'') = Suc (colons s)"
proof (induction s)
  case (Cons c s)
  then show ?case
    using js_split_colon_not_Nil[of s] by (simp add: split_colon_Cons colons_def)
qed (simp add: colons_def)

lemma odd_pieces_head [simp]: "odd_pieces ((c # p) # ps) = odd_pieces (p # ps)"
  by (cases ps) simp_all

lemma dep_names_loop_split:
  "dep_names_loop False nm names s =
     (odd (colons s), names @ (if odd (colons s) then map in_colons (odd_pieces (butlast (js_split s '':'')))
                               else map in_colons (odd_pieces (js_split s '':''))))"
  "dep_names_loop True (CHR '':'' # nm) names s =
     (even (colons s), names @ (let ps = (nm @ hd (js_split s '':'')) # tl (js_split s '':'')
        in if even (colons s) then map in_colons (odd_pieces ([] # butlast ps))
           else map in_colons (odd_pieces ([] # ps))))"
proof (induction s arbitrary: nm names)
  case Nil
  { case 1 show ?case by (simp add: colons_def) }
  { case 2 show ?case by (simp add: colons_def) }
next
  case (Cons c s)
  obtain p ps where ps: "js_split s '':'' = p # ps"
    using js_split_colon_not_Nil[of s] by (cases "js_split s '':''") auto
  have len: "length ps = colons s" using length_js_split_colon[of s] ps by simp
  { case 1 show ?case
      using Cons.IH(1)[of nm names] Cons.IH(2)[of "[]" names] ps len
      by (auto simp: split_colon_Cons colons_def Let_def) }
  { case 2 show ?case
      using Cons.IH(1)[of "[]" "names @ [in_colons nm]"] Cons.IH(2)[of "nm @ [c]" names] ps len
      by (auto simp: split_colon_Cons colons_def Let_def in_colons_def) }
qed

text \<open>
  A string with an even number of colons mentions the odd-numbered pieces of its split at
  colons, each between two colons and in order; a string with an odd number of colons makes the
  scan throw, whatever else it holds.
\<close>

theorem getDependencyNamesHelper_pieces:
  "getDependencyNamesHelper s =
     (if even (colons s) then Inr (map in_colons (odd_pieces (js_split s '':'')))
      else Inl (Thrown (''malformed template variable string `'' @ s @ ''`'')))"
  by (simp add: getDependencyNamesHelper_def dep_names_loop_split(1))

lemma dep_names_of_values_fails:
  "v \<in> set vs \<Longrightarrow> odd (colons (tv_value v)) \<Longrightarrow> \<exists>e. dep_names_of_values names vs = Inl e"
proof (induction vs arbitrary: names)
  case (Cons w vs)
  show ?case
  proof (cases "getDependencyNamesHelper (tv_value w)")
    case (Inr ns)
    then have "v \<noteq> w" using Cons.prems(2)
      by (auto simp: getDependencyNamesHelper_def dep_names_loop_split(1))
    with Cons Inr show ?thesis by simp
  qed simp
qed simp

lemma link_templates_fails:
  "t \<in> set ts \<Longrightarrow> getDependencyNames t = Inl e \<Longrightarrow> \<exists>e'. link_templates g ts = Inl e'"
proof (induction ts arbitrary: g)
  case (Cons u us)
  then show ?case by (cases "link_template g u") (auto simp: link_template_def)
qed simp

text \<open>
  a template without a query that has a value with an odd number of colons, such as a
  host and port in a CSV variable, makes the graph of every list it occurs in throw.
\<close>

theorem graphFromTemplates_single_colon:
  assumes "t \<in> set ts" and "t_query t = None" and "v \<in> set (t_values t)"
    and "odd (colons (tv_value v))"
  shows "\<exists>e. graphFromTemplates ts = Inl e"
proof -
  obtain e where "getDependencyNames t = Inl e"
    using dep_names_of_values_fails[OF assms(3,4)] assms(2) by (auto simp: getDependencyNames_def)
  then obtain e' where "link_templates (unlinked_graph ts) ts = Inl e'"
    using link_templates_fails[OF assms(1)] by blast
  then show ?thesis by (simp add: graphFromTemplates_def)
qed

definition port_template :: template where
  "port_template = csv_template\<lparr>t_values := [\<lparr>tv_value = ''localhost:8086'', tv_type = VCSV,
     tv_selected = True, tv_localSelected = True, tv_key = None\<rparr>]\<rparr>"

theorem graphFromTemplates_single_colon_witness:
  "\<exists>e. graphFromTemplates [host_template, port_template] = Inl e"
proof (rule graphFromTemplates_single_colon)
  show "port_template \<in> set [host_template, port_template]" by simp
  show "t_query port_template = None"
    by (simp add: port_template_def csv_template_def host_template_def)
  show "hd (t_values port_template) \<in> set (t_values port_template)"
    by (simp add: port_template_def)
  show "odd (colons (tv_value (hd (t_values port_template))))"
    by (simp add: port_template_def colons_def)
qed

section \<open>The topological sort\<close>

fun ordered_deps :: "template_graph \<Rightarrow> string list \<Rightarrow> bool" where
  \<comment> \<open>everything a node depends on comes later in the list\<close>
  "ordered_deps g [] = True"
| "ordered_deps g (i # is) = (set (children_of g i) \<subseteq> set is \<and> ordered_deps g is)"

definition topo_inv :: "template_graph \<Rightarrow> string set \<Rightarrow> string list \<times> string list \<Rightarrow> bool" where
  \<comment> \<open>\<open>gray\<close> are the nodes being visited: seen, and not yet pushed\<close>
  "topo_inv g gray st =
     (set (fst st) = set (snd st) \<union> gray \<and> set (snd st) \<inter> gray = {} \<and>
      distinct (snd st) \<and> ordered_deps g (rev (snd st)))"

lemma topo_visit_inv:
  assumes "acyclic (edges g)"
  shows "topo_inv g gray st \<Longrightarrow> (\<forall>x\<in>gray. \<forall>i\<in>set is. (x, i) \<in> (edges g)\<^sup>+) \<Longrightarrow>
    topo_inv g gray (topo_visit g is st) \<and>
    set (snd st) \<union> set is \<subseteq> set (snd (topo_visit g is st)) \<and>
    set (snd (topo_visit g is st)) \<subseteq> set (snd st) \<union> (edges g)\<^sup>* `` set is"
  using assms
proof (induction g "is" st arbitrary: gray rule: topo_visit.induct)
  case (1 g st)
  then show ?case by (simp add: topo_visit.simps)
next
  case (2 g i "is" seen acc)
  note pre = "2.prems"
  show ?case
  proof (cases "i \<in> set seen")
    case True
    have "i \<notin> gray" using pre(2,3) by (auto simp: acyclic_def)
    with True pre(1) have "i \<in> set acc" by (auto simp: topo_inv_def)
    with "2.IH"(1)[OF True pre(1) _ pre(3)] pre(2) True show ?thesis
      by (auto simp: topo_visit.simps)
  next
    case False
    obtain s a where sa: "topo_visit g (children_of g i) (i # seen, acc) = (s, a)" by fastforce
    have "topo_inv g (insert i gray) (i # seen, acc)"
      using pre(1) False by (auto simp: topo_inv_def)
    moreover have "\<forall>x\<in>insert i gray. \<forall>c\<in>set (children_of g i). (x, c) \<in> (edges g)\<^sup>+"
      using pre(2) by (auto intro: trancl_into_trancl r_into_trancl)
    ultimately have child: "topo_inv g (insert i gray) (s, a)"
        "set acc \<union> set (children_of g i) \<subseteq> set a"
        "set a \<subseteq> set acc \<union> (edges g)\<^sup>* `` set (children_of g i)"
      using "2.IH"(2)[OF False _ _ pre(3), of "insert i gray"] sa by auto
    have i_new: "i \<notin> set a" using child(1) by (auto simp: topo_inv_def)
    have "i \<notin> gray" using False pre(1) by (auto simp: topo_inv_def)
    with child i_new have "topo_inv g gray (s, a @ [i])" by (auto simp: topo_inv_def)
    with "2.IH"(3)[OF False sa[symmetric] refl _ _ pre(3)] pre(2)
    have rest: "topo_inv g gray (topo_visit g is (s, a @ [i]))"
        "set (a @ [i]) \<union> set is \<subseteq> set (snd (topo_visit g is (s, a @ [i])))"
        "set (snd (topo_visit g is (s, a @ [i]))) \<subseteq> set (a @ [i]) \<union> (edges g)\<^sup>* `` set is"
      by auto
    have "(edges g)\<^sup>* `` set (children_of g i) \<subseteq> (edges g)\<^sup>* `` {i}"
      by (auto intro: converse_rtrancl_into_rtrancl)
    then have "set (a @ [i]) \<union> (edges g)\<^sup>* `` set is \<subseteq> set acc \<union> (edges g)\<^sup>* `` set (i # is)"
      using child(3) Image_mono[of "(edges g)\<^sup>*" "(edges g)\<^sup>*" "{i}" "set (i # is)"] by auto blast
    with rest(3) have "set (snd (topo_visit g is (s, a @ [i]))) \<subseteq> set acc \<union> (edges g)\<^sup>* `` set (i # is)"
      by (rule order_trans)
    with rest(1,2) child(2) False sa show ?thesis by (auto simp: topo_visit.simps)
  qed
qed

lemma ordered_deps_index:
  "ordered_deps g xs \<Longrightarrow> (i, c) \<in> edges g \<Longrightarrow> i \<in> set xs \<Longrightarrow>
     \<exists>us vs ws. xs = us @ i # vs @ c # ws"
proof (induction xs)
  case (Cons x xs)
  show ?case
  proof (cases "x = i")
    case True
    with Cons.prems have "c \<in> set xs" by auto
    then obtain vs ws where "xs = vs @ c # ws" by (meson split_list)
    with True show ?thesis by (metis append_Nil)
  next
    case False
    with Cons obtain us vs ws where "xs = us @ i # vs @ c # ws" by auto
    then show ?thesis by (metis append_Cons)
  qed
qed simp

lemma topologicalSort_spec:
  assumes "verifyAcyclic g = Inr ()" and "closed_graph g"
  shows "acyclic (edges g) \<and> distinct (topologicalSort g) \<and>
    set (topologicalSort g) = set (obj_keys g) \<and>
    (\<forall>i c. c \<in> set (children_of g i) \<longrightarrow>
       (\<exists>us vs ws. topologicalSort g = us @ i # vs @ c # ws))"
proof -
  from assms(1) have ac: "acyclic (edges g)" by (simp add: verifyAcyclic_iff)
  define st where "st = topo_visit g (obj_keys g) ([], [])"
  have "topo_inv g {} ([], [])" by (simp add: topo_inv_def)
  with topo_visit_inv[OF ac, of "{}" "([], [])" "obj_keys g"]
  have inv: "topo_inv g {} st" and sub: "set (obj_keys g) \<subseteq> set (snd st)"
    and sup: "set (snd st) \<subseteq> (edges g)\<^sup>* `` set (obj_keys g)"
    by (auto simp: st_def)
  have reach: "(edges g)\<^sup>* `` set (obj_keys g) \<subseteq> set (obj_keys g)"
  proof
    fix y assume "y \<in> (edges g)\<^sup>* `` set (obj_keys g)"
    then obtain x where "(x, y) \<in> (edges g)\<^sup>*" "x \<in> set (obj_keys g)" by blast
    then show "y \<in> set (obj_keys g)"
      by (induction rule: rtrancl_induct) (simp_all add: edge_to_node[OF assms(2)] del: edges_iff)
  qed
  have ts: "topologicalSort g = rev (snd st)" by (simp add: topologicalSort_def st_def)
  have set_eq: "set (topologicalSort g) = set (obj_keys g)" using sub sup reach ts by auto
  have "ordered_deps g (topologicalSort g)" "distinct (topologicalSort g)"
    using inv by (simp_all add: ts topo_inv_def)
  moreover have "i \<in> set (topologicalSort g)" if "c \<in> set (children_of g i)" for i c
    using that edge_from_node[of i c g] set_eq by simp
  ultimately show ?thesis using ac set_eq ordered_deps_index by auto
qed


definition ab_graph :: template_graph where
  \<comment> \<open>\<open>:a:\<close> depends on \<open>:b:\<close>\<close>
  "ab_graph = [(''a'', (fresh_node (host_template\<lparr>t_id := ''a''\<rparr>))\<lparr>n_children := [''b'']\<rparr>),
               (''b'', (fresh_node (host_template\<lparr>t_id := ''b''\<rparr>))\<lparr>n_parents := [''a'']\<rparr>)]"


section \<open>The graph of a list of templates\<close>

lemma obj_get_update_node:
  "obj_get (update_node f g i) j = (if j = i then map_option f (obj_get g i) else obj_get g j)"
  by (simp add: update_node_def obj_get_set split: option.split)

lemma obj_set_same_keys: "k \<in> fst ` set ob \<Longrightarrow> map fst (obj_set ob k v) = map fst ob"
  by (induction ob k v rule: obj_set.induct) auto

lemma keys_update_node [simp]: "map fst (update_node f g i) = map fst g"
  by (auto simp: update_node_def obj_set_same_keys obj_get_in_keys split: option.split)

lemma foldl_update_node_keys [simp]: "map fst (foldl (update_node f) g is) = map fst g"
  by (induction "is" arbitrary: g) auto

lemma foldl_update_node_get:
  "distinct is \<Longrightarrow> obj_get (foldl (update_node f) g is) j =
     (if j \<in> set is then map_option f (obj_get g j) else obj_get g j)"
  by (induction "is" arbitrary: g) (auto simp: obj_get_update_node)

definition skeleton :: "template_graph \<Rightarrow> template_graph \<Rightarrow> bool" where
  \<comment> \<open>the same nodes for the same templates, whatever the links\<close>
  "skeleton g h = (map fst g = map fst h \<and>
     (\<forall>j. map_option n_initialTemplate (obj_get g j) = map_option n_initialTemplate (obj_get h j)))"

lemma skeleton_refl: "skeleton g g"
  by (simp add: skeleton_def)

lemma skeleton_trans: "skeleton g h \<Longrightarrow> skeleton h k \<Longrightarrow> skeleton g k"
  by (simp add: skeleton_def)

lemma skeleton_keys: "skeleton g h \<Longrightarrow> obj_keys g = obj_keys h"
  by (simp add: skeleton_def obj_keys_def)

lemma named_nodes_eq:
  "named_nodes g ns = filter (\<lambda>i. case map_option n_initialTemplate (obj_get g i) of None \<Rightarrow> False
      | Some t \<Rightarrow> t_tempVar t \<in> set ns) (obj_keys g)"
  unfolding named_nodes_def by (rule filter_cong) (auto split: option.split)

lemma skeleton_named: "skeleton g h \<Longrightarrow> named_nodes g = named_nodes h"
proof (rule ext)
  fix ns assume "skeleton g h"
  then have "obj_keys g = obj_keys h"
    and "\<And>i. map_option n_initialTemplate (obj_get g i) = map_option n_initialTemplate (obj_get h i)"
    by (simp_all add: skeleton_keys) (simp add: skeleton_def)
  then show "named_nodes g ns = named_nodes h ns" by (simp only: named_nodes_eq)
qed

definition dep_ids :: "template_graph \<Rightarrow> template \<Rightarrow> string list" where
  "dep_ids g t = (case getDependencyNames t of Inl _ \<Rightarrow> [] | Inr ns \<Rightarrow> named_nodes g ns)"

lemma skeleton_dep_ids: "skeleton g h \<Longrightarrow> dep_ids g = dep_ids h"
  by (rule ext) (simp only: dep_ids_def skeleton_named)

lemma link_template_get:
  assumes "link_template g t = Inr g'" and "obj_ok g"
  shows "skeleton g' g \<and>
    obj_get g' j = map_option (\<lambda>n. n\<lparr>
      n_children := n_children n @ (if t_id t = j then dep_ids g t else []),
      n_parents := n_parents n @ (if j \<in> set (dep_ids g t) then [t_id t] else [])\<rparr>) (obj_get g j)"
proof -
  obtain ns where ns: "getDependencyNames t = Inr ns"
    and g': "g' = foldl (update_node (add_parent (t_id t)))
      (update_node (add_children (named_nodes g ns)) g (t_id t)) (named_nodes g ns)"
    using assms(1) by (auto simp: link_template_def map_res_Inr_iff Let_def)
  have d: "distinct (named_nodes g ns)"
    using distinct_obj_keys[OF assms(2)] by (simp add: named_nodes_def)
  have get: "obj_get g' j = map_option (\<lambda>n. n\<lparr>
      n_children := n_children n @ (if t_id t = j then dep_ids g t else []),
      n_parents := n_parents n @ (if j \<in> set (dep_ids g t) then [t_id t] else [])\<rparr>) (obj_get g j)" for j
    by (cases "obj_get g j")
       (auto simp: g' foldl_update_node_get[OF d] obj_get_update_node dep_ids_def ns add_parent_def add_children_def)
  have "map fst g' = map fst g" by (simp add: g')
  moreover have "map_option n_initialTemplate (obj_get g' i) = map_option n_initialTemplate (obj_get g i)" for i
    by (simp add: get option.map_comp o_def)
  ultimately show ?thesis using get by (simp add: skeleton_def)
qed

lemma link_templates_get:
  assumes "link_templates g ts = Inr g'" and "obj_ok g"
  shows "skeleton g' g \<and>
    obj_get g' j = map_option (\<lambda>n. n\<lparr>
      n_children := n_children n @ concat (map (dep_ids g) (filter (\<lambda>t. t_id t = j) ts)),
      n_parents := n_parents n @ map t_id (filter (\<lambda>t. j \<in> set (dep_ids g t)) ts)\<rparr>) (obj_get g j)"
  using assms
proof (induction ts arbitrary: g)
  case Nil
  then show ?case by (simp add: skeleton_refl option.map_ident)
next
  case (Cons t ts)
  then obtain h where h: "link_template g t = Inr h" "link_templates h ts = Inr g'"
    by (auto simp: bind_r_Inr_iff)
  note one = link_template_get[OF h(1) Cons.prems(2)]
  have "obj_ok h" using one Cons.prems(2) by (simp add: skeleton_def obj_ok_def)
  from Cons.IH[OF h(2) this] have
    "skeleton g' h"
    "obj_get g' j = map_option (\<lambda>n. n\<lparr>
      n_children := n_children n @ concat (map (dep_ids h) (filter (\<lambda>t. t_id t = j) ts)),
      n_parents := n_parents n @ map t_id (filter (\<lambda>t. j \<in> set (dep_ids h t)) ts)\<rparr>) (obj_get h j)"
    by auto
  with one skeleton_dep_ids[of h g] skeleton_trans[of g' h g] show ?case
    by (simp add: option.map_comp o_def)
qed

lemma unlinked_graph_ok: "obj_ok (unlinked_graph ts)"
  by (simp add: unlinked_graph_def obj_ok_of_list)

lemma unlinked_graph_keys: "fst ` set (unlinked_graph ts) = t_id ` set ts"
  by (simp add: unlinked_graph_def keys_of_list image_image)

lemma unlinked_graph_get:
  assumes "distinct (map t_id ts)"
  shows "t \<in> set ts \<Longrightarrow> obj_get (unlinked_graph ts) (t_id t) = Some (fresh_node t)"
proof -
  assume t: "t \<in> set ts"
  have "map fst (map (\<lambda>t. (t_id t, fresh_node t)) ts) = map t_id ts" by simp
  with assms have d: "distinct (map fst (map (\<lambda>t. (t_id t, fresh_node t)) ts))" by (simp only:)
  with t have "map_of (map (\<lambda>t. (t_id t, fresh_node t)) ts) (t_id t) = Some (fresh_node t)"
    by (intro map_of_is_SomeI) auto
  then show ?thesis by (simp add: unlinked_graph_def obj_get_of_list[OF d])
qed

lemma filter_same_id: "distinct (map t_id ts) \<Longrightarrow> t \<in> set ts \<Longrightarrow> filter (\<lambda>u. t_id u = t_id t) ts = [t]"
  by (induction ts) (auto simp: filter_empty_conv image_iff)

lemma set_named_nodes_unlinked:
  assumes "distinct (map t_id ts)"
  shows "set (named_nodes (unlinked_graph ts) ns) = t_id ` {u \<in> set ts. t_tempVar u \<in> set ns}"
proof -
  have "i \<in> set (named_nodes (unlinked_graph ts) ns) \<longleftrightarrow> i \<in> t_id ` {u \<in> set ts. t_tempVar u \<in> set ns}" for i
  proof (cases "i \<in> t_id ` set ts")
    case True
    then obtain u where u: "u \<in> set ts" "i = t_id u" by blast
    have same: "v = u" if "v \<in> set ts" "t_id v = t_id u" for v
      using assms u(1) that by (auto simp: distinct_map inj_on_def)
    have "i \<in> t_id ` {v \<in> set ts. t_tempVar v \<in> set ns} \<longleftrightarrow> t_tempVar u \<in> set ns"
    proof
      assume "i \<in> t_id ` {v \<in> set ts. t_tempVar v \<in> set ns}"
      then obtain v where "v \<in> set ts" "t_id v = t_id u" "t_tempVar v \<in> set ns" using u(2) by auto
      then show "t_tempVar u \<in> set ns" using same[of v] by simp
    qed (use u in blast)
    with u show ?thesis
      using unlinked_graph_keys[of ts]
      by (simp add: named_nodes_def unlinked_graph_get[OF assms] fresh_node_def)
  next
    case False
    then show ?thesis using unlinked_graph_keys[of ts] by (auto simp: named_nodes_def)
  qed
  then show ?thesis by blast
qed

lemma graphFromTemplates_node:
  assumes "distinct (map t_id ts)" and "graphFromTemplates ts = Inr g" and "t \<in> set ts"
  obtains ns where "getDependencyNames t = Inr ns"
    and "obj_get g (t_id t) = Some ((fresh_node t)\<lparr>
      n_children := named_nodes (unlinked_graph ts) ns,
      n_parents := map t_id (filter (\<lambda>u. t_id t \<in> set (dep_ids (unlinked_graph ts) u)) ts)\<rparr>)"
proof -
  have l: "link_templates (unlinked_graph ts) ts = Inr g"
    using assms(2) by (auto simp: graphFromTemplates_def bind_r_Inr_iff map_res_Inr_iff)
  have "getDependencyNames t \<noteq> Inl e" for e
  proof -
    have "link_templates h us = Inr g \<Longrightarrow> t \<in> set us \<Longrightarrow> getDependencyNames t \<noteq> Inl e" for h us
      by (induction us arbitrary: h) (auto simp: bind_r_Inr_iff link_template_def map_res_Inr_iff)
    then show ?thesis using l assms(3) by blast
  qed
  then obtain ns where ns: "getDependencyNames t = Inr ns" by (metis sum.exhaust)
  then show ?thesis
    using that[of ns] link_templates_get[OF l unlinked_graph_ok, of "t_id t"]
    by (simp add: unlinked_graph_get[OF assms(1,3)] filter_same_id[OF assms(1,3)] dep_ids_def
        fresh_node_def)
qed

lemma graphFromTemplates_keys:
  "graphFromTemplates ts = Inr g \<Longrightarrow> obj_keys g = obj_keys (unlinked_graph ts)"
  using link_templates_get[OF _ unlinked_graph_ok, of ts ts g] skeleton_keys
  by (auto simp: graphFromTemplates_def bind_r_Inr_iff map_res_Inr_iff)

lemma graphFromTemplates_acyclic: "graphFromTemplates ts = Inr g \<Longrightarrow> verifyAcyclic g = Inr ()"
  by (auto simp: graphFromTemplates_def bind_r_Inr_iff map_res_Inr_iff)

lemma graphFromTemplates_dom: "graphFromTemplates ts = Inr g \<Longrightarrow> fst ` set g = t_id ` set ts"
  using graphFromTemplates_keys[of ts g] unlinked_graph_keys[of ts] by (metis set_obj_keys)

lemma graphFromTemplates_closed:
  assumes "distinct (map t_id ts)" and "graphFromTemplates ts = Inr g"
  shows "closed_graph g"
  unfolding closed_graph_def
proof
  fix n assume n: "n \<in> set g"
  then have "fst n \<in> t_id ` set ts" using graphFromTemplates_dom[OF assms(2)] by force
  then obtain t where t: "t \<in> set ts" "t_id t = fst n" by auto
  obtain ns where ns: "obj_get g (t_id t) = Some ((fresh_node t)\<lparr>
      n_children := named_nodes (unlinked_graph ts) ns,
      n_parents := map t_id (filter (\<lambda>u. t_id t \<in> set (dep_ids (unlinked_graph ts) u)) ts)\<rparr>)"
    by (rule graphFromTemplates_node[OF assms t(1)])
  have "map fst g = map fst (unlinked_graph ts)"
    using assms(2) link_templates_get[OF _ unlinked_graph_ok, of ts ts g]
    by (auto simp: graphFromTemplates_def bind_r_Inr_iff map_res_Inr_iff skeleton_def)
  then have "distinct (map fst g)" using unlinked_graph_ok[of ts] by (simp add: obj_ok_def)
  then have "obj_get g (fst n) = Some (snd n)" using n by (simp add: obj_get_def)
  with ns t(2) have "n_children (snd n) = named_nodes (unlinked_graph ts) ns" by (simp add: fresh_node_def)
  moreover have "set (named_nodes (unlinked_graph ts) ns) \<subseteq> fst ` set g"
    using set_named_nodes_unlinked[OF assms(1), of ns] graphFromTemplates_dom[OF assms(2)] by auto
  ultimately show "set (n_children (snd n)) \<subseteq> fst ` set g" by simp
qed

lemma graphFromTemplates_spec:
  assumes "distinct (map t_id ts)" and "graphFromTemplates ts = Inr g"
  shows "set (obj_keys g) = t_id ` set ts \<and> closed_graph g \<and> acyclic (edges g) \<and>
    (\<forall>t\<in>set ts. \<exists>n ns. obj_get g (t_id t) = Some n \<and> getDependencyNames t = Inr ns \<and>
       n_initialTemplate n = t \<and> n_status n = NotStarted \<and> n_hydratedTemplate n = None \<and> distinct (n_parents n) \<and>
       set (n_children n) = t_id ` {u \<in> set ts. t_tempVar u \<in> set ns} \<and>
       set (n_parents n) = {p. t_id t \<in> set (children_of g p)})"
proof -
  have child: "children_of g (t_id u) = dep_ids (unlinked_graph ts) u" if u: "u \<in> set ts" for u
  proof -
    obtain ns where "getDependencyNames u = Inr ns"
      and "obj_get g (t_id u) = Some ((fresh_node u)\<lparr>
        n_children := named_nodes (unlinked_graph ts) ns,
        n_parents := map t_id (filter (\<lambda>v. t_id u \<in> set (dep_ids (unlinked_graph ts) v)) ts)\<rparr>)"
      by (rule graphFromTemplates_node[OF assms u])
    then show ?thesis by (simp add: children_of_def dep_ids_def)
  qed
  have "\<exists>n ns. obj_get g (t_id t) = Some n \<and> getDependencyNames t = Inr ns \<and>
       n_initialTemplate n = t \<and> n_status n = NotStarted \<and> n_hydratedTemplate n = None \<and> distinct (n_parents n) \<and>
       set (n_children n) = t_id ` {u \<in> set ts. t_tempVar u \<in> set ns} \<and>
       set (n_parents n) = {p. t_id t \<in> set (children_of g p)}" if t: "t \<in> set ts" for t
  proof -
    let ?P = "filter (\<lambda>u. t_id t \<in> set (dep_ids (unlinked_graph ts) u)) ts"
    obtain ns where ns: "getDependencyNames t = Inr ns"
      and n: "obj_get g (t_id t) = Some ((fresh_node t)\<lparr>
        n_children := named_nodes (unlinked_graph ts) ns, n_parents := map t_id ?P\<rparr>)"
      by (rule graphFromTemplates_node[OF assms t])
    have "distinct (map t_id ?P)" using assms(1) by (simp add: distinct_map_filter)
    moreover have "set (map t_id ?P) = {p. t_id t \<in> set (children_of g p)}"
    proof -
      have "p \<in> t_id ` set ts" if "t_id t \<in> set (children_of g p)" for p
        using that edge_from_node[of p "t_id t" g] graphFromTemplates_dom[OF assms(2)] by simp
      then show ?thesis using child by fastforce
    qed
    ultimately show ?thesis
      using ns n set_named_nodes_unlinked[OF assms(1), of ns] by (auto simp: fresh_node_def)
  qed
  then show ?thesis
    using graphFromTemplates_dom[OF assms(2)] graphFromTemplates_closed[OF assms]
      graphFromTemplates_acyclic[OF assms(2)] by (simp add: verifyAcyclic_iff)
qed

text \<open>
  C7: for templates with distinct ids, a graph that is built has one node per template; the
  children of a node are exactly the templates whose names it mentions and its parents exactly
  the templates it is a child of, each once; and the dependencies have no cycle.
\<close>

theorem graphFromTemplates_correct:
  assumes "distinct (map t_id ts)" and "graphFromTemplates ts = Inr g"
  shows "set (obj_keys g) = t_id ` set ts \<and> closed_graph g \<and> acyclic (edges g) \<and>
    (\<forall>t\<in>set ts. \<exists>n ns. obj_get g (t_id t) = Some n \<and> getDependencyNames t = Inr ns \<and>
       n_initialTemplate n = t \<and> n_status n = NotStarted \<and> n_hydratedTemplate n = None \<and> distinct (n_parents n) \<and>
       set (n_children n) = t_id ` {u \<in> set ts. t_tempVar u \<in> set ns} \<and>
       set (n_parents n) = {p. t_id t \<in> set (children_of g p)})"
  by (rule graphFromTemplates_spec[OF assms])

definition a_template :: template where
  "a_template = csv_template\<lparr>t_id := ''a'', t_tempVar := '':a:'',
     t_values := [\<lparr>tv_value = ''x:b:'', tv_type = VCSV, tv_selected = True,
       tv_localSelected = True, tv_key = None\<rparr>]\<rparr>"

definition b_template :: template where
  "b_template = host_template\<lparr>t_id := ''b'', t_tempVar := '':b:''\<rparr>"

theorem graphFromTemplates_correct_witness:
  "\<exists>g. graphFromTemplates [a_template, b_template] = Inr g \<and> acyclic (edges g)"
proof -
  have "\<not> isl (graphFromTemplates [a_template, b_template])" by code_simp
  then obtain g where g: "graphFromTemplates [a_template, b_template] = Inr g"
    by (cases "graphFromTemplates [a_template, b_template]") auto
  have "distinct (map t_id [a_template, b_template])"
    by (simp add: a_template_def b_template_def)
  from graphFromTemplates_correct[OF this g] g show ?thesis by blast
qed

end
