(* ===== verification/Temp_Replace.thy ===== *)
theory Temp_Replace
  imports Temp_Graph
begin

text \<open>
  Rendering a query's template variables (\<open>ui/src/tempVars/utils/replace.ts\<close>): the order in
  which the templates are applied, the substitution of one template, the substitution inside
  regular expressions and the \<open>:interval:\<close> variable. The regular-expression scan is a loop
  whose bound, the length of the string, changes in the loop: it is a partial function, so that
  not returning is \<open>None\<close>. Counts and durations are integers; \<open>0\<close> stands for every falsy number.
\<close>

section \<open>The code\<close>

definition sortTemplates :: "template list \<Rightarrow> template list result" where
  "sortTemplates ts =
     map_res (\<lambda>g. List.map_filter (\<lambda>i. map_option n_initialTemplate (obj_get g i)) (topologicalSort g))
       (graphFromTemplates ts)"

definition TEMP_VAR_INTERVAL :: string where "TEMP_VAR_INTERVAL = '':interval:''"
definition DEFAULT_PIXELS :: int where "DEFAULT_PIXELS = 333"
definition DEFAULT_DURATION_MS :: int where "DEFAULT_DURATION_MS = 1000"

definition replaceAll :: "string \<Rightarrow> string \<Rightarrow> string \<Rightarrow> string" where
  "replaceAll query search replacement = js_replace_all query search replacement"

definition replaceInterval :: "string \<Rightarrow> int \<Rightarrow> int \<Rightarrow> string" where
  "replaceInterval query pixels durationMs =
     (if \<not> js_includes query TEMP_VAR_INTERVAL then query
      else let pixels = (if pixels = 0 then DEFAULT_PIXELS else pixels);
               durationMs = (if durationMs = 0 then DEFAULT_DURATION_MS else durationMs);
               msPerPixel = durationMs div pixels
           in replaceAll query TEMP_VAR_INTERVAL (int_str msPerPixel @ ''ms''))"

definition REGEX_COMPARATORS :: "string list" where "REGEX_COMPARATORS = [''=~'', ''!~'']"

definition findNext :: "string \<Rightarrow> string \<Rightarrow> nat \<Rightarrow> nat result" where
  "findNext s t startIndex =
     (let tail = drop startIndex s
      in case js_index_of tail t of
           None \<Rightarrow> Inl (Thrown (''Expected token '' @ CHR 0x27 # t @ CHR 0x27 # '' in '' @ CHR 0x27 # tail @ [CHR 0x27]))
         | Some i \<Rightarrow> Inr (startIndex + i))"

definition replace_regex_at :: "string \<Rightarrow> string \<Rightarrow> string \<Rightarrow> nat \<Rightarrow> (string \<times> nat) result" where
  \<comment> \<open>the body of the loop where a regular expression starts: the new string and the new index\<close>
  "replace_regex_at search replacement res i =
     bind_r (findNext res ''/'' i) (\<lambda>regexStart.
     bind_r (findNext res ''/'' (regexStart + 1)) (\<lambda>regexEnd.
       let regexContent = take (regexEnd - (regexStart + 1)) (drop (regexStart + 1) res);
           replacedRegexContent = js_replace_first regexContent search replacement;
           res' = take (regexStart + 1) res @ replacedRegexContent @ drop regexEnd res
       in map_res (Pair res') (findNext res' ''/'' (regexStart + 1))))"

partial_function (option) regex_loop :: "string \<Rightarrow> string \<Rightarrow> string \<Rightarrow> nat \<Rightarrow> string result option" where
  [code]: "regex_loop search replacement res i =
     (if \<not> i + 1 < length res then Some (Inr res)
      else if [res ! i, res ! (i + 1)] \<notin> set REGEX_COMPARATORS
      then regex_loop search replacement res (i + 1)
      else case replace_regex_at search replacement res i of
             Inl e \<Rightarrow> Some (Inl e)
           | Inr (res', i') \<Rightarrow> regex_loop search replacement res' i')"

definition replaceAllRegex :: "string \<Rightarrow> string \<Rightarrow> string \<Rightarrow> string result option" where
  "replaceAllRegex query search replacement = regex_loop search replacement query 0"

definition quoted :: "char \<Rightarrow> string \<Rightarrow> string" where
  "quoted q s = q # s @ [q]"

definition chosen_value :: "template \<Rightarrow> template_value option" where
  \<comment> \<open>\<open>localSelectedTemplateValue || selectedTemplateValue\<close>\<close>
  "chosen_value t = or_else (List.find tv_localSelected (t_values t)) (List.find tv_selected (t_values t))"

definition render_regexes :: "string \<Rightarrow> string \<Rightarrow> template_value \<Rightarrow> string result option" where
  "render_regexes query tempVar v =
     (if tv_type v \<in> {VTagKey, VFieldKey, VMeasurement, VDatabase, VTagValue, VTimeStamp}
      then replaceAllRegex query tempVar (tv_value v) else Some (Inr query))"

definition render_rest :: "string \<Rightarrow> string \<Rightarrow> string \<Rightarrow> template_value \<Rightarrow> string" where
  "render_rest query q tempVar v =
     (case tv_type v of
        VTagKey \<Rightarrow> replaceAll q tempVar (quoted (CHR 0x22) (tv_value v))
      | VFieldKey \<Rightarrow> replaceAll q tempVar (quoted (CHR 0x22) (tv_value v))
      | VMeasurement \<Rightarrow> replaceAll q tempVar (quoted (CHR 0x22) (tv_value v))
      | VDatabase \<Rightarrow> replaceAll q tempVar (quoted (CHR 0x22) (tv_value v))
      | VTagValue \<Rightarrow> replaceAll q tempVar (quoted (CHR 0x27) (tv_value v))
      | VTimeStamp \<Rightarrow> replaceAll q tempVar (quoted (CHR 0x27) (tv_value v))
      | VCSV \<Rightarrow> replaceAll q tempVar (tv_value v)
      | VConstant \<Rightarrow> replaceAll q tempVar (tv_value v)
      | VMetaQuery \<Rightarrow> replaceAll q tempVar (tv_value v)
      | VMap \<Rightarrow> replaceAll q tempVar (tv_value v)
      | VPoints \<Rightarrow> query)"

definition renderTemplate :: "string \<Rightarrow> template \<Rightarrow> string result option" where
  "renderTemplate query t =
     (if t_values t = [] then Some (Inr query)
      else if query \<noteq> [] \<and> \<not> js_includes query (t_tempVar t) then Some (Inr query)
      else case chosen_value t of
             None \<Rightarrow> Some (Inr query)
           | Some v \<Rightarrow> map_option (map_res (\<lambda>q. render_rest query q (t_tempVar t) v))
                         (render_regexes query (t_tempVar t) v))"

fun render_all :: "string \<Rightarrow> template list \<Rightarrow> string result option" where
  "render_all query [] = Some (Inr query)"
| "render_all query (t # ts) =
     (case renderTemplate query t of
        None \<Rightarrow> None
      | Some (Inl e) \<Rightarrow> Some (Inl e)
      | Some (Inr q) \<Rightarrow> render_all q ts)"

definition templateReplace :: "string \<Rightarrow> template list \<Rightarrow> string result option" where
  "templateReplace query ts =
     (case sortTemplates ts of Inl e \<Rightarrow> Some (Inl e) | Inr sortedTemplates \<Rightarrow> render_all query sortedTemplates)"

definition templateInternalReplace :: "template \<Rightarrow> string option result" where
  "templateInternalReplace t =
     bind_r (deref (t_query t)) (\<lambda>q.
       if t_type t = TMetaQuery then Inr (tq_influxql q)
       else bind_r (deref (tq_influxql q)) (\<lambda>s.
         let s1 = js_replace_first s '':database:'' (quoted (CHR 0x22) (opt_str (tq_db q)));
             s2 = js_replace_first s1 '':measurement:'' (quoted (CHR 0x22) (opt_str (tq_measurement q)));
             s3 = js_replace_first s2 '':tagKey:'' (quoted (CHR 0x22) (opt_str (tq_tagKey q)))
         in Inr (Some s3)))"

section \<open>The order of the templates\<close>

lemma sortTemplates_eq:
  assumes "distinct (map t_id ts)" and "sortTemplates ts = Inr us"
  obtains g where "graphFromTemplates ts = Inr g"
    and "\<And>t. t \<in> set ts \<Longrightarrow> map_option n_initialTemplate (obj_get g (t_id t)) = Some t"
    and "map t_id us = topologicalSort g" and "set us = set ts"
proof -
  obtain g where g: "graphFromTemplates ts = Inr g"
    and us: "us = List.map_filter (\<lambda>i. map_option n_initialTemplate (obj_get g i)) (topologicalSort g)"
    using assms(2) by (auto simp: sortTemplates_def map_res_Inr_iff)
  have init: "map_option n_initialTemplate (obj_get g (t_id t)) = Some t" if "t \<in> set ts" for t
    by (rule graphFromTemplates_node[OF assms(1) g that]) (simp add: fresh_node_def)
  have set_topo: "set (topologicalSort g) = t_id ` set ts"
    using topologicalSort_spec[OF graphFromTemplates_acyclic[OF g] graphFromTemplates_closed[OF assms(1) g]]
      graphFromTemplates_dom[OF g] by simp
  define pick where "pick i = the (map_option n_initialTemplate (obj_get g i))" for i
  have pick: "map_option n_initialTemplate (obj_get g i) = Some (pick i)" if "i \<in> set (topologicalSort g)" for i
  proof -
    from that set_topo obtain t where "t \<in> set ts" "i = t_id t" by auto
    then show ?thesis using init[of t] by (auto simp: pick_def)
  qed
  have us': "us = map pick (topologicalSort g)"
    unfolding us by (rule map_filter_present) (rule pick)
  have pid: "pick (t_id t) = t" if "t \<in> set ts" for t
    using pick[of "t_id t"] init[OF that] that set_topo by simp
  then have id_pick: "t_id (pick i) = i" if "i \<in> set (topologicalSort g)" for i
    using that set_topo by auto
  have "map t_id us = topologicalSort g" unfolding us' by (simp add: map_idI id_pick)
  moreover have "set us = set ts" unfolding us' by (auto simp: set_topo pid image_iff)
  ultimately show ?thesis using that g init by blast
qed

lemma split_map_inj:
  assumes "map f us = xs @ f t # ys @ f u # zs" and "t \<in> set us" and "u \<in> set us" and "inj_on f (set us)"
  shows "\<exists>xs' ys' zs'. us = xs' @ t # ys' @ u # zs'"
proof -
  obtain a r where ar: "us = a @ r" "map f r = f t # ys @ f u # zs"
    using assms(1) by (auto simp: map_eq_append_conv)
  obtain t' r' where r: "r = t' # r'" "f t' = f t" "map f r' = ys @ f u # zs"
    using ar(2) by (auto simp: map_eq_Cons_conv)
  obtain b r'' where b: "r' = b @ r''" "map f r'' = f u # zs"
    using r(3) by (auto simp: map_eq_append_conv)
  obtain u' c where "r'' = u' # c" "f u' = f u"
    using b(2) by (auto simp: map_eq_Cons_conv)
  with ar r b have us: "us = a @ t' # b @ u' # c" "f t' = f t" "f u' = f u" by simp_all
  moreover from us have "t' \<in> set us" "u' \<in> set us" by simp_all
  ultimately have "t' = t" "u' = u" using assms(2-4) by (metis inj_onD)+
  with us show ?thesis by blast
qed

text \<open>
  C5: sorting the templates of a dashboard permutes them, and a template whose query or values
  mention a variable comes before the template of that variable, so that a name brought in by
  rendering a template is rendered by a later one.
\<close>

theorem sortTemplates_correct:
  assumes "distinct (map t_id ts)" and "sortTemplates ts = Inr us"
  shows "distinct us \<and> set us = set ts \<and>
    (\<forall>t\<in>set ts. \<forall>u\<in>set ts. \<forall>ns. getDependencyNames t = Inr ns \<and> t_tempVar u \<in> set ns \<longrightarrow>
       (\<exists>xs ys zs. us = xs @ t # ys @ u # zs))"
proof -
  obtain g where g: "graphFromTemplates ts = Inr g"
    and ids: "map t_id us = topologicalSort g" and set_us: "set us = set ts"
    by (rule sortTemplates_eq[OF assms])
  note topo = topologicalSort_spec[OF graphFromTemplates_acyclic[OF g] graphFromTemplates_closed[OF assms(1) g]]
  have inj: "inj_on t_id (set us)" using assms(1) set_us by (simp add: distinct_map)
  have "distinct us" using topo ids by (metis distinct_map)
  moreover have "\<exists>xs ys zs. us = xs @ t # ys @ u # zs"
    if t: "t \<in> set ts" and u: "u \<in> set ts" and ns: "getDependencyNames t = Inr ns" "t_tempVar u \<in> set ns" for t u ns
  proof -
    obtain ns' where ns': "getDependencyNames t = Inr ns'" and n: "obj_get g (t_id t) = Some ((fresh_node t)\<lparr>
        n_children := named_nodes (unlinked_graph ts) ns',
        n_parents := map t_id (filter (\<lambda>v. t_id t \<in> set (dep_ids (unlinked_graph ts) v)) ts)\<rparr>)"
      by (rule graphFromTemplates_node[OF assms(1) g t])
    then have "t_id u \<in> set (children_of g (t_id t))"
      using ns u set_named_nodes_unlinked[OF assms(1), of ns] by (auto simp: children_of_def)
    with topo obtain xs ys zs where "topologicalSort g = xs @ t_id t # ys @ t_id u # zs" by blast
    then show ?thesis using split_map_inj[OF _ _ _ inj, of xs t ys u zs] ids t u set_us by simp
  qed
  ultimately show ?thesis using set_us by blast
qed

theorem sortTemplates_correct_witness:
  "\<exists>xs ys zs. projr (sortTemplates [b_template, a_template]) = xs @ a_template # ys @ b_template # zs"
proof -
  have "\<not> isl (sortTemplates [b_template, a_template])" by code_simp
  then obtain us where us: "sortTemplates [b_template, a_template] = Inr us"
    by (cases "sortTemplates [b_template, a_template]") auto
  have "distinct (map t_id [b_template, a_template])"
    by (simp add: a_template_def b_template_def)
  note ok = sortTemplates_correct[OF this us]
  have "getDependencyNames a_template = Inr ['':b:''] \<and> t_tempVar b_template = '':b:''" by code_simp
  then show ?thesis using ok by (simp add: us)
qed

section \<open>Substitution inside regular expressions\<close>

lemma split_first_char: "c \<notin> set a \<Longrightarrow> split_first [c] (a @ c # b) = Some (a, b)"
  by (induction a) auto

lemma split_first_char_new: "split_first [c] s = Some (a, b) \<Longrightarrow> c \<notin> set a"
  by (induction s arbitrary: a) (auto split: if_splits)

lemma findNext_append:
  "findNext (p @ s) t (length p) =
     (case split_first t s of
        None \<Rightarrow> Inl (Thrown (''Expected token '' @ CHR 0x27 # t @ CHR 0x27 # '' in '' @ CHR 0x27 # s @ [CHR 0x27]))
      | Some (a, b) \<Rightarrow> Inr (length p + length a))"
  by (simp add: findNext_def js_index_of_def split: option.split prod.split)

definition no_token :: "string \<Rightarrow> js_error" where
  "no_token s = Thrown (''Expected token '' @ CHR 0x27 # ''/'' @ CHR 0x27 # '' in '' @ CHR 0x27 # s @ [CHR 0x27])"

function regex_ref :: "string \<Rightarrow> string \<Rightarrow> string \<Rightarrow> string result" where
  \<comment> \<open>one pass over the text: after a comparator, the next text between two slashes is replaced\<close>
  "regex_ref search r s =
     (case s of
        c # d # cs \<Rightarrow>
          if [c, d] \<in> set REGEX_COMPARATORS then
            case split_first ''/'' s of
              None \<Rightarrow> Inl (no_token s)
            | Some (a, b) \<Rightarrow> (case split_first ''/'' b of
                None \<Rightarrow> Inl (no_token b)
              | Some (content, rest) \<Rightarrow>
                  map_res (\<lambda>u. a @ ''/'' @ js_replace_first content search r @ u)
                    (regex_ref search r (CHR ''/'' # rest)))
          else map_res (Cons c) (regex_ref search r (d # cs))
      | _ \<Rightarrow> Inr s)"
  by pat_completeness auto
termination
  by (relation "measure (\<lambda>(search, r, s). length s)")
     (auto dest!: split_first_length simp del: split_first.simps)

declare regex_ref.simps [simp del]

lemma js_replace_first_set:
  "set (js_replace_first s search r) \<subseteq> set s \<union> set r"
proof (cases "split_first search s")
  case (Some p)
  obtain a b where p: "p = (a, b)" by (cases p)
  with Some have "s = a @ search @ b" by (simp add: split_first_Some)
  with Some p show ?thesis using expand_repl_set[of search a b r] by (auto simp: js_replace_first_def)
qed (simp add: js_replace_first_def)

lemma replace_regex_at_append:
  assumes "CHR ''/'' \<notin> set r"
  shows "replace_regex_at search r (p @ s) (length p) =
    (case split_first ''/'' s of
       None \<Rightarrow> Inl (no_token s)
     | Some (a, b) \<Rightarrow> (case split_first ''/'' b of
         None \<Rightarrow> Inl (no_token b)
       | Some (content, rest) \<Rightarrow>
           let q = p @ a @ ''/'' @ js_replace_first content search r
           in Inr (q @ CHR ''/'' # rest, length q)))"
proof (cases "split_first ''/'' s")
  case None
  then show ?thesis by (simp add: replace_regex_at_def findNext_append no_token_def)
next
  case (Some ab)
  obtain a b where ab: "ab = (a, b)" by (cases ab)
  have s: "s = a @ ''/'' @ b" using Some ab by (intro split_first_Some) simp
  have one: "findNext (p @ s) ''/'' (length p) = Inr (length p + length a)"
    by (simp add: findNext_append Some ab)
  have two: "findNext (p @ s) ''/'' (length p + length a + 1) =
      (case split_first ''/'' b of None \<Rightarrow> Inl (no_token b) | Some (c, d) \<Rightarrow> Inr (length p + length a + 1 + length c))"
    using findNext_append[of "p @ a @ ''/''" b "''/''"]
    by (cases "split_first ''/'' b") (simp_all add: s no_token_def split_beta)
  show ?thesis
  proof (cases "split_first ''/'' b")
    case None
    then show ?thesis using Some ab one two by (simp add: replace_regex_at_def)
  next
    case (Some cd)
    obtain c d where cd: "cd = (c, d)" by (cases cd)
    have b: "b = c @ ''/'' @ d" using Some cd by (intro split_first_Some) simp
    have c: "CHR ''/'' \<notin> set c" using Some cd split_first_char_new by simp
    let ?c = "js_replace_first c search r"
    have "CHR ''/'' \<notin> set ?c" using js_replace_first_set[of c search r] c assms by blast
    then have three: "findNext (p @ a @ CHR ''/'' # ?c @ CHR ''/'' # d) ''/'' (length p + length a + 1) =
        Inr (length p + length a + 1 + length ?c)"
      using findNext_append[of "p @ a @ ''/''" "?c @ CHR ''/'' # d" "''/''"]
      by (simp add: split_first_char)
    show ?thesis
      using \<open>split_first ''/'' s = Some ab\<close> ab Some cd one two three
      by (simp add: replace_regex_at_def s b Let_def)
  qed
qed

lemma regex_loop_ref:
  "CHR ''/'' \<notin> set r \<Longrightarrow>
     regex_loop search r (p @ s) (length p) = Some (map_res ((@) p) (regex_ref search r s))"
proof (induction search r s arbitrary: p rule: regex_ref.induct)
  case (1 search r s)
  show ?case
  proof (cases "\<exists>c d cs. s = c # d # cs")
    case False
    then have "s = [] \<or> (\<exists>c. s = [c])" by (metis list.exhaust)
    then have "\<not> length p + 1 < length (p @ s)" "regex_ref search r s = Inr s"
      by (auto simp: regex_ref.simps[of search r s])
    then show ?thesis by (simp add: regex_loop.simps[of search r "p @ s"])
  next
    case True
    then obtain c d cs where s: "s = c # d # cs" by blast
    then have two: "[(p @ s) ! length p, (p @ s) ! (length p + 1)] = [c, d]" by (simp add: nth_append)
    show ?thesis
    proof (cases "[c, d] \<in> set REGEX_COMPARATORS")
      case False
      then have "regex_loop search r (p @ s) (length p) = regex_loop search r ((p @ [c]) @ d # cs) (length (p @ [c]))"
        using s two by (subst regex_loop.simps) simp
      also have "\<dots> = Some (map_res ((@) (p @ [c])) (regex_ref search r (d # cs)))"
        using "1.IH"(2)[OF s refl False "1.prems", of "p @ [c]"] by (simp only:)
      also have "(@) (p @ [c]) = (\<lambda>u. p @ c # u)" by auto
      finally show ?thesis using False s
        by (cases "regex_ref search r (d # cs)") (simp_all add: regex_ref.simps[of search r "c # d # cs"])
    next
      case comp: True
      then have step: "regex_loop search r (p @ s) (length p) =
          (case replace_regex_at search r (p @ s) (length p) of
             Inl e \<Rightarrow> Some (Inl e) | Inr (res', i') \<Rightarrow> regex_loop search r res' i')"
        using s two by (subst regex_loop.simps) simp
      note at = replace_regex_at_append[OF "1.prems", of search p s]
      have ref: "regex_ref search r s =
          (case split_first ''/'' s of
             None \<Rightarrow> Inl (no_token s)
           | Some (a, b) \<Rightarrow> (case split_first ''/'' b of
               None \<Rightarrow> Inl (no_token b)
             | Some (content, rest) \<Rightarrow>
                 map_res (\<lambda>u. a @ ''/'' @ js_replace_first content search r @ u)
                   (regex_ref search r (CHR ''/'' # rest))))"
        by (subst regex_ref.simps) (simp only: s list.case comp if_True)
      show ?thesis
      proof (cases "split_first ''/'' s")
        case None
        then show ?thesis using step at ref by simp
      next
        case (Some ab)
        obtain a b where ab: "ab = (a, b)" by (cases ab)
        show ?thesis
        proof (cases "split_first ''/'' b")
          case None
          then show ?thesis using step at ref \<open>split_first ''/'' s = Some ab\<close> ab by simp
        next
          case (Some cd)
          obtain content rest where cd: "cd = (content, rest)" by (cases cd)
          define q where "q = p @ a @ ''/'' @ js_replace_first content search r"
          have "regex_loop search r (p @ s) (length p) = regex_loop search r (q @ CHR ''/'' # rest) (length q)"
            using step at \<open>split_first ''/'' s = Some ab\<close> ab Some cd by (simp add: q_def Let_def)
          also have "\<dots> = Some (map_res ((@) q) (regex_ref search r (CHR ''/'' # rest)))"
            using "1.IH"(1)[OF s refl comp \<open>split_first ''/'' s = Some ab\<close> ab[symmetric] Some cd[symmetric] "1.prems"] by blast
          finally show ?thesis using ref \<open>split_first ''/'' s = Some ab\<close> ab Some cd
            by (cases "regex_ref search r (CHR ''/'' # rest)") (simp_all add: q_def)
        qed
      qed
    qed
  qed
qed

text \<open>
  C6: as long as the value has no slash, the scan over the regular expressions of a query
  returns, and what it returns is the single pass that rewrites the text between each comparator's
  pair of slashes and throws where a slash is missing.
\<close>

theorem replaceAllRegex_correct:
  assumes "CHR ''/'' \<notin> set replacement"
  shows "replaceAllRegex query search replacement = Some (regex_ref search replacement query)"
  using regex_loop_ref[OF assms, of search "[]" query]
  by (cases "regex_ref search replacement query") (simp_all add: replaceAllRegex_def)

theorem replaceAllRegex_correct_witness:
  "replaceAllRegex ''h =~ /:h:/ AND h = :h:'' '':h:'' ''a'' = Some (Inr ''h =~ /a/ AND h = :h:'')"
proof -
  have "regex_ref '':h:'' ''a'' ''h =~ /:h:/ AND h = :h:'' = Inr ''h =~ /a/ AND h = :h:''"
    by code_simp
  with replaceAllRegex_correct[of "''a''"] show ?thesis by simp
qed

section \<open>Rendering always ends\<close>

definition slash_free :: "template \<Rightarrow> bool" where
  "slash_free t = (\<forall>v\<in>set (t_values t). CHR ''/'' \<notin> set (tv_value v))"

lemma chosen_value_in: "chosen_value t = Some v \<Longrightarrow> v \<in> set (t_values t)"
  by (auto simp: chosen_value_def or_else_def split: option.splits dest: find_Some)

lemma regex_loop_ends: "CHR ''/'' \<notin> set r \<Longrightarrow> regex_loop search r s 0 \<noteq> None"
  using regex_loop_ref[of r search "[]" s] by simp

lemma renderTemplate_ends: "slash_free t \<Longrightarrow> renderTemplate query t \<noteq> None"
proof (cases "chosen_value t")
  case (Some v)
  assume "slash_free t"
  with Some have "CHR ''/'' \<notin> set (tv_value v)" using chosen_value_in[of t v] by (simp add: slash_free_def)
  then have "regex_loop s (tv_value v) query 0 \<noteq> None" for s by (rule regex_loop_ends)
  then have "render_regexes query (t_tempVar t) v \<noteq> None"
    unfolding render_regexes_def replaceAllRegex_def by (simp only: option.distinct split: if_split) simp
  with Some show ?thesis by (simp add: renderTemplate_def)
qed (simp add: renderTemplate_def)

lemma render_all_ends: "\<forall>t\<in>set ts. slash_free t \<Longrightarrow> render_all query ts \<noteq> None"
proof (induction ts arbitrary: query)
  case (Cons t ts)
  then have "renderTemplate query t \<noteq> None" using renderTemplate_ends by simp
  with Cons show ?case by (auto split: option.split sum.split)
qed simp

lemma sortTemplates_set: "distinct (map t_id ts) \<Longrightarrow> sortTemplates ts = Inr us \<Longrightarrow> set us = set ts"
  by (rule sortTemplates_eq) auto

text \<open>
  Rendering a query against templates none of whose values has a slash always returns, with
  the rendered query or with the error of a cycle, a malformed value or an unfinished regular
  expression.
\<close>

theorem templateReplace_ends:
  assumes "distinct (map t_id ts)" and "\<forall>t\<in>set ts. slash_free t"
  shows "\<exists>r. templateReplace query ts = Some r"
proof (cases "sortTemplates ts")
  case (Inr us)
  have "\<forall>t\<in>set us. slash_free t" using sortTemplates_set[OF assms(1) Inr] assms(2) by simp
  then show ?thesis using render_all_ends[of us query] Inr by (simp add: templateReplace_def)
qed (simp add: templateReplace_def)

theorem templateReplace_ends_witness:
  "\<exists>r. templateReplace ''SELECT :a:'' [b_template, a_template] = Some r"
  by (rule templateReplace_ends)
     (simp_all add: slash_free_def a_template_def b_template_def csv_template_def host_template_def)

section \<open>What rendering one template does to a query\<close>

lemma js_replace_all_Cons:
  assumes "\<not> prefix t (c # s)" and "t \<noteq> []"
  shows "js_replace_all (c # s) t r = c # js_replace_all s t r"
proof (cases "split_first t s")
  case None
  then have "\<not> sublist t s" "\<not> sublist t (c # s)"
    using assms(1) by (simp_all add: split_first_None_iff[symmetric])
  then show ?thesis by (simp add: js_replace_all_absent[OF assms(2)])
next
  case (Some p)
  then show ?thesis
    using assms by (cases p) (simp add: js_replace_all_step)
qed

lemma js_replace_all_match: "t \<noteq> [] \<Longrightarrow> js_replace_all (t @ s) t r = r @ js_replace_all s t r"
  by (rule js_replace_all_step[where a = "[]", simplified]) (cases t; simp)

lemma js_replace_all_skip:
  "CHR '':'' \<notin> set l \<Longrightarrow> js_replace_all (l @ s) (in_colons a) r = l @ js_replace_all s (in_colons a) r"
  by (induction l) (auto simp: js_replace_all_Cons in_colons_def)

fun flat :: "string \<Rightarrow> (string \<times> string) list \<Rightarrow> string" where
  \<comment> \<open>a query as text, then a mention of a variable and the text after it, and so on\<close>
  "flat l [] = l"
| "flat l ((n, m) # ps) = l @ in_colons n @ flat m ps"

fun flat_subst :: "string \<Rightarrow> string \<Rightarrow> string \<Rightarrow> (string \<times> string) list \<Rightarrow> string" where
  "flat_subst a r l [] = l"
| "flat_subst a r l ((n, m) # ps) = l @ (if n = a then r else in_colons n) @ flat_subst a r m ps"

definition plain_mentions :: "string \<Rightarrow> string \<Rightarrow> (string \<times> string) list \<Rightarrow> bool" where
  \<comment> \<open>colons only around the names, and no text between two mentions is itself the name \<open>a\<close>\<close>
  "plain_mentions a l ps =
     (CHR '':'' \<notin> set a \<and> CHR '':'' \<notin> set l \<and>
      (\<forall>p\<in>set ps. CHR '':'' \<notin> set (fst p) \<and> CHR '':'' \<notin> set (snd p) \<and> snd p \<noteq> a))"

lemma colon_free_cancel:
  "CHR '':'' \<notin> set a \<Longrightarrow> CHR '':'' \<notin> set b \<Longrightarrow> a @ CHR '':'' # x = b @ CHR '':'' # y \<longleftrightarrow> a = b \<and> x = y"
proof (induction a arbitrary: b)
  case Nil
  then show ?case by (cases b) auto
next
  case (Cons c a)
  then show ?case by (cases b) auto
qed

lemma flat_no_match:
  assumes "CHR '':'' \<notin> set a" and "CHR '':'' \<notin> set m" and "m \<noteq> a"
  shows "\<not> prefix (in_colons a) (CHR '':'' # flat m ps)"
proof
  assume "prefix (in_colons a) (CHR '':'' # flat m ps)"
  then obtain z where z: "flat m ps = a @ CHR '':'' # z" by (auto simp: prefix_def in_colons_def)
  show False
  proof (cases ps)
    case Nil
    with z assms(2) show False by auto
  next
    case (Cons p qs)
    then show False
      using z assms colon_free_cancel[of m a] by (cases p) (auto simp: in_colons_def)
  qed
qed

lemma replace_mentions:
  "plain_mentions a l ps \<Longrightarrow> js_replace_all (flat l ps) (in_colons a) r = flat_subst a r l ps"
proof (induction ps arbitrary: l)
  case Nil
  then show ?case
    using js_replace_all_skip[of l "[]" a r] js_replace_all_absent[of "in_colons a" "[]" r]
    by (simp add: plain_mentions_def in_colons_def)
next
  case (Cons p ps)
  obtain n m where p: "p = (n, m)" by (cases p)
  have free: "CHR '':'' \<notin> set l" "CHR '':'' \<notin> set n" "CHR '':'' \<notin> set m" "CHR '':'' \<notin> set a" "m \<noteq> a"
    and IH: "js_replace_all (flat m ps) (in_colons a) r = flat_subst a r m ps"
    using Cons p by (simp_all add: plain_mentions_def)
  show ?case
  proof (cases "n = a")
    case True
    have "in_colons a \<noteq> []" by (simp add: in_colons_def)
    then show ?thesis using True p IH js_replace_all_skip[OF free(1)] by (simp add: js_replace_all_match)
  next
    case False
    then have "\<not> prefix (in_colons a) (in_colons n @ flat m ps)"
      using colon_free_cancel[OF free(2,4)] by (auto simp: in_colons_def prefix_def)
    moreover have "js_replace_all (CHR '':'' # flat m ps) (in_colons a) r = CHR '':'' # flat_subst a r m ps"
      using IH flat_no_match[OF free(4,3,5)] by (simp add: js_replace_all_Cons in_colons_def)
    ultimately have "js_replace_all (in_colons n @ flat m ps) (in_colons a) r = in_colons n @ flat_subst a r m ps"
      using js_replace_all_skip[OF free(2), of "CHR '':'' # flat m ps" a r]
      by (simp add: js_replace_all_Cons in_colons_def)
    then show ?thesis using False p js_replace_all_skip[OF free(1)] by simp
  qed
qed

lemma regex_ref_plain:
  "\<forall>c\<in>set REGEX_COMPARATORS. \<not> sublist c s \<Longrightarrow> regex_ref search r s = Inr s"
proof (induction search r s rule: regex_ref.induct)
  case (1 search r s)
  show ?case
  proof (cases "\<exists>c d cs. s = c # d # cs")
    case False
    then have "s = [] \<or> (\<exists>c. s = [c])" by (metis list.exhaust)
    then show ?thesis by (auto simp: regex_ref.simps[of search r s])
  next
    case True
    then obtain c d cs where s: "s = c # d # cs" by blast
    then have no: "[c, d] \<notin> set REGEX_COMPARATORS"
      using "1.prems" by (metis append_Cons append_Nil sublist_appendI)
    moreover have "regex_ref search r (d # cs) = Inr (d # cs)"
      using "1.IH"(2)[OF s refl no] "1.prems" s by (metis sublist_Cons_right)
    ultimately show ?thesis using s by (simp add: regex_ref.simps[of search r "c # d # cs"])
  qed
qed

definition shown :: "template_value \<Rightarrow> string" where
  \<comment> \<open>how a value appears outside regular expressions\<close>
  "shown v = (if tv_type v \<in> {VTagKey, VFieldKey, VMeasurement, VDatabase} then quoted (CHR 0x22) (tv_value v)
              else if tv_type v \<in> {VTagValue, VTimeStamp} then quoted (CHR 0x27) (tv_value v)
              else tv_value v)"

lemma render_rest_shown: "tv_type v \<noteq> VPoints \<Longrightarrow> render_rest q q s v = replaceAll q s (shown v)"
  by (cases "tv_type v") (simp_all add: render_rest_def shown_def)



section \<open>The interval of a query\<close>

lemma split_first_new: "split_first t s = Some (a, b) \<Longrightarrow> t \<noteq> [] \<Longrightarrow> \<not> sublist t a"
proof (induction t s arbitrary: a rule: split_first.induct)
  case (2 t c cs)
  show ?case
  proof (cases "prefix t (c # cs)")
    case False
    with "2.prems"(1) obtain a' where a: "split_first t cs = Some (a', b)" "a = c # a'" by auto
    with "2.IH"[OF False] "2.prems"(2) have "\<not> sublist t a'" by blast
    moreover have "c # cs = a @ t @ b" using a split_first_Some[OF a(1)] by simp
    then have "\<not> prefix t a" using False by (auto simp: prefix_def)
    ultimately show ?thesis using a(2) by (auto simp: sublist_Cons_right)
  qed (use 2 in simp)
qed (simp split: if_splits)

lemma sublist_around:
  assumes "sublist (in_colons a) (x @ r @ y)" and "CHR '':'' \<notin> set r" and "\<not> sublist r a"
  shows "sublist (in_colons a) x \<or> sublist (in_colons a) y"
proof -
  obtain u w where eq: "x @ r @ y = u @ in_colons a @ w" using assms(1) by (auto simp: sublist_def)
  show ?thesis
  proof (cases "length (u @ in_colons a) \<le> length x")
    case True
    then obtain z where "x = u @ in_colons a @ z"
      using eq by (metis append.assoc append_eq_append_conv_if append_take_drop_id)
    then show ?thesis by (auto simp: sublist_def)
  next
    case False
    show ?thesis
    proof (cases "length (x @ r) \<le> length u")
      case True
      then obtain z where "u = (x @ r) @ z"
        using eq by (metis append.assoc append_eq_append_conv_if append_take_drop_id)
      with eq have "y = z @ in_colons a @ w" by simp
      then show ?thesis by (auto simp: sublist_def)
    next
      case inside: False
      \<comment> \<open>neither colon of the name falls into \<open>r\<close>, so all of \<open>r\<close> is inside the name\<close>
      have at: "(x @ r @ y) ! k \<noteq> CHR '':''" if "length x \<le> k" "k < length (x @ r)" for k
        using that assms(2) by (auto simp: nth_append in_set_conv_nth)
      have "(x @ r @ y) ! length u = CHR '':''" by (simp add: eq in_colons_def)
      with at[of "length u"] inside have lu: "length u < length x" by (metis not_le)
      have "(x @ r @ y) ! (length u + length a + 1) = CHR '':''"
        by (simp add: eq in_colons_def nth_append)
      then have lr: "length (x @ r) \<le> length u + length a + 1"
        using at[of "length u + length a + 1"] False
        by (cases "length u + length a + 1 < length (x @ r)") (simp_all add: in_colons_def)
      obtain x' where x': "x = (u @ [CHR '':'']) @ x'"
        using eq lu by (auto simp: in_colons_def append_eq_append_conv2 append_eq_Cons_conv Cons_eq_append_conv)
      have "x' @ r @ y = a @ CHR '':'' # w" using eq x' by (simp add: in_colons_def)
      moreover have "length (x' @ r) \<le> length a" using lr x' by simp
      ultimately have "\<exists>z. a = x' @ r @ z"
        by (metis append.assoc append_eq_append_conv_if append_take_drop_id)
      then show ?thesis using assms(3) by (auto simp: sublist_def)
    qed
  qed
qed

lemma no_mention_left:
  assumes "CHR '':'' \<notin> set r" and "\<not> sublist r a"
  shows "\<not> sublist (in_colons a) (js_replace_all s (in_colons a) r)"
proof (induction s rule: length_induct)
  case (1 s)
  have ne: "in_colons a \<noteq> []" by (simp add: in_colons_def)
  show ?case
  proof (cases "split_first (in_colons a) s")
    case None
    then have "\<not> sublist (in_colons a) s" by (simp add: split_first_None_iff[symmetric])
    then show ?thesis by (simp add: js_replace_all_absent[OF ne])
  next
    case (Some p)
    obtain x b where p: "p = (x, b)" by (cases p)
    then have "length b < length s" using Some split_first_length ne by fastforce
    with 1 have "\<not> sublist (in_colons a) (js_replace_all b (in_colons a) r)" by blast
    moreover have "\<not> sublist (in_colons a) x" using Some p split_first_new ne by blast
    ultimately show ?thesis
      using sublist_around[OF _ assms] Some p ne by (auto simp: js_replace_all_step)
  qed
qed

lemma int_str_no_colon: "CHR '':'' \<notin> set (int_str i)"
proof -
  have "\<not> is_digit CHR '':''" by (simp add: is_digit_def)
  then have "CHR '':'' \<notin> set (nat_str n)" for n
    using nat_str_digits[of n] by (auto simp: list_all_iff)
  then show ?thesis by (simp add: int_str_def)
qed

text \<open>
  a query that mentions the interval variable is given one interval everywhere, the number of
  whole milliseconds per pixel (with the default width and duration where one is missing), and
  no mention of the variable is left.
\<close>

theorem replaceInterval_correct:
  assumes "js_includes query TEMP_VAR_INTERVAL" and "0 \<le> pixels"
  shows "\<not> js_includes (replaceInterval query pixels durationMs) TEMP_VAR_INTERVAL \<and>
    (\<exists>ms. replaceInterval query pixels durationMs = js_replace_all query TEMP_VAR_INTERVAL (int_str ms @ ''ms'') \<and>
       ms * (if pixels = 0 then DEFAULT_PIXELS else pixels) \<le> (if durationMs = 0 then DEFAULT_DURATION_MS else durationMs) \<and>
       (if durationMs = 0 then DEFAULT_DURATION_MS else durationMs) < (ms + 1) * (if pixels = 0 then DEFAULT_PIXELS else pixels))"
proof -
  define w where "w = (if pixels = 0 then DEFAULT_PIXELS else pixels)"
  define d where "d = (if durationMs = 0 then DEFAULT_DURATION_MS else durationMs)"
  have w: "0 < w" using assms(2) by (simp add: w_def DEFAULT_PIXELS_def)
  have out: "replaceInterval query pixels durationMs = js_replace_all query TEMP_VAR_INTERVAL (int_str (d div w) @ ''ms'')"
    using assms(1) by (simp add: replaceInterval_def replaceAll_def w_def d_def Let_def)
  have "\<not> sublist (int_str ms @ ''ms'') ''interval''" for ms
  proof
    assume "sublist (int_str ms @ ''ms'') ''interval''"
    then have "set (int_str ms @ ''ms'') \<subseteq> set ''interval''" by (rule set_mono_sublist)
    moreover have "CHR ''m'' \<in> set (int_str ms @ ''ms'')" by simp
    ultimately have "CHR ''m'' \<in> set ''interval''" by (rule subsetD)
    then show False by simp
  qed
  then have "\<not> sublist (in_colons ''interval'') (js_replace_all query (in_colons ''interval'') (int_str (d div w) @ ''ms''))"
    by (intro no_mention_left) (simp_all add: int_str_no_colon)
  then have "\<not> js_includes (replaceInterval query pixels durationMs) TEMP_VAR_INTERVAL"
    by (simp add: out js_includes_iff_sublist TEMP_VAR_INTERVAL_def in_colons_def)
  moreover have "(d div w) * w \<le> d \<and> d < (d div w + 1) * w"
    using w pos_mod_bound[OF w, of d] pos_mod_sign[OF w, of d] mult_div_mod_eq[of w d]
    unfolding distrib_right mult.commute[of "d div w" w] by linarith
  ultimately show ?thesis using out unfolding w_def d_def by blast
qed

theorem replaceInterval_correct_witness:
  "\<not> js_includes (replaceInterval ''GROUP BY time(:interval:)'' 0 0) TEMP_VAR_INTERVAL"
proof -
  have "js_includes ''GROUP BY time(:interval:)'' TEMP_VAR_INTERVAL" by code_simp
  from replaceInterval_correct[OF this, of 0 0] show ?thesis by simp
qed

end
