(* ===== verification/Temp_Hydrate.thy ===== *)
theory Temp_Hydrate
  imports Temp_Replace
begin

text \<open>
  Hydrating a dashboard's template variables (the second half of \<open>ui/src/tempVars/utils/graph.ts\<close>):
  the caching query fetcher, the hydration of one template and the concurrent hydration of a
  graph. A call of \<open>resolve\<close> runs up to its \<open>await\<close>, so a state is the graph with the calls that
  wait for an answer, and a step is one answer arriving. The fetcher an answer comes from is a
  parameter: it may answer differently at every step, and it may fail.
\<close>

section \<open>The caching fetcher\<close>

record fetcher =
  f_proxyUrl :: string
  f_cache :: "string list js_obj js_obj"

definition new_fetcher :: fetcher where
  \<comment> \<open>no URL is set yet: the empty one\<close>
  "new_fetcher = \<lparr>f_proxyUrl = [], f_cache = []\<rparr>"

definition setProxyUrl :: "fetcher \<Rightarrow> string \<Rightarrow> fetcher result" where
  "setProxyUrl f proxyUrl =
     (if proxyUrl = [] then Inl (Thrown ''Must supply proxyUrl'')
      else Inr (f\<lparr>f_proxyUrl := proxyUrl,
             f_cache := (case obj_get (f_cache f) proxyUrl of
                None \<Rightarrow> obj_set (f_cache f) proxyUrl [] | Some _ \<Rightarrow> f_cache f)\<rparr>))"

definition fetch_cached :: "fetcher \<Rightarrow> string \<Rightarrow> string list option result" where
  \<comment> \<open>\<open>fetch\<close> up to the request: the cached values, or \<open>None\<close> when a request is sent\<close>
  "fetch_cached f query =
     map_res (\<lambda>c. obj_get c query) (deref (obj_get (f_cache f) (f_proxyUrl f)))"

definition fetch_store :: "fetcher \<Rightarrow> string \<Rightarrow> string list \<Rightarrow> fetcher result" where
  \<comment> \<open>\<open>fetch\<close> after the answer: \<open>this.cache[this.proxyUrl][query] = values\<close>\<close>
  "fetch_store f query values =
     map_res (\<lambda>c. f\<lparr>f_cache := obj_set (f_cache f) (f_proxyUrl f) (obj_set c query values)\<rparr>)
       (deref (obj_get (f_cache f) (f_proxyUrl f)))"

lemma setProxyUrl_get:
  "setProxyUrl f u = Inr f' \<Longrightarrow> f_proxyUrl f' = u \<and> (\<exists>c. obj_get (f_cache f') u = Some c) \<and>
     (\<forall>v c. obj_get (f_cache f) v = Some c \<longrightarrow> obj_get (f_cache f') v = Some c)"
  by (auto simp: setProxyUrl_def obj_get_set split: if_splits option.splits)

lemma fetch_store_get:
  "fetch_store f q vs = Inr f' \<Longrightarrow> f_proxyUrl f' = f_proxyUrl f \<and>
     fetch_cached f' q = Inr (Some vs) \<and>
     (\<forall>r. r \<noteq> q \<longrightarrow> fetch_cached f' r = fetch_cached f r)"
  by (auto simp: fetch_store_def fetch_cached_def map_res_Inr_iff deref_Inr_iff obj_get_set)

text \<open>
  The answer of a request is stored under the URL the fetcher has when it arrives. If the
  URL was changed while the request was under way, the answer of the first source is cached for
  the second, whose next fetch of the same query returns it without a request.
\<close>

theorem fetcher_stores_under_current_url:
  assumes "fetch_cached f q = Inr None" and "u \<noteq> []"
  shows "\<exists>f1 f2. setProxyUrl f u = Inr f1 \<and> fetch_store f1 q answerOfFirstUrl = Inr f2 \<and>
    f_proxyUrl f2 = u \<and> fetch_cached f2 q = Inr (Some answerOfFirstUrl)"
proof -
  obtain f1 where f1: "setProxyUrl f u = Inr f1" using assms(2) by (simp add: setProxyUrl_def)
  from setProxyUrl_get[OF f1] obtain c where c: "f_proxyUrl f1 = u" "obj_get (f_cache f1) u = Some c" by blast
  then obtain f2 where f2: "fetch_store f1 q answerOfFirstUrl = Inr f2" by (simp add: fetch_store_def)
  with fetch_store_get[OF f2] c f1 show ?thesis by auto
qed

theorem fetcher_stores_under_current_url_witness:
  "\<exists>f1 f2. setProxyUrl \<lparr>f_proxyUrl = ''/a'', f_cache = [(''/a'', [])]\<rparr> ''/b'' = Inr f1 \<and>
    fetch_store f1 ''SHOW DATABASES'' [''dbOfA''] = Inr f2 \<and>
    f_proxyUrl f2 = ''/b'' \<and> fetch_cached f2 ''SHOW DATABASES'' = Inr (Some [''dbOfA''])"
  by (rule fetcher_stores_under_current_url) (simp_all add: fetch_cached_def)

section \<open>Hydrating one template\<close>

type_synonym selections = "string js_obj"

definition hydrate_query :: "template \<Rightarrow> template list \<Rightarrow> string option result option" where
  \<comment> \<open>the rendered query to fetch, \<open>None\<close> when the template has no query; not returning is the
      outer \<open>None\<close>\<close>
  "hydrate_query t ts =
     (case t_query t of
        None \<Rightarrow> Some (Inr None)
      | Some q \<Rightarrow>
          if truthy (tq_influxql q) then
            (case templateInternalReplace t of
               Inl e \<Rightarrow> Some (Inl e)
             | Inr s \<Rightarrow> map_option (map_res Some) (templateReplace (case s of None \<Rightarrow> [] | Some x \<Rightarrow> x) ts))
          else Some (Inr None))"

definition hydrateTemplate ::
    "(string \<Rightarrow> string list result) \<Rightarrow> selections \<Rightarrow> template \<Rightarrow> template list \<Rightarrow> template result option" where
  "hydrateTemplate fetch selections t ts =
     map_option (\<lambda>rendered.
       bind_r rendered (\<lambda>q.
       bind_r (case q of None \<Rightarrow> Inr None | Some s \<Rightarrow> map_res Some (fetch s)) (\<lambda>newValues.
       map_res (\<lambda>vs. t\<lparr>t_values := vs\<rparr>)
         (resolveValues t newValues (obj_get selections (t_tempVar t))))))
       (hydrate_query t ts)"

lemma hydrateTemplate_keeps:
  "hydrateTemplate fetch sel t ts = Some (Inr u) \<Longrightarrow> \<exists>vs. u = t\<lparr>t_values := vs\<rparr>"
  by (auto simp: hydrateTemplate_def bind_r_Inr_iff map_res_Inr_iff)

section \<open>Hydrating a graph\<close>

definition findLeaves :: "template_graph \<Rightarrow> string list" where
  "findLeaves g = filter (\<lambda>i. children_of g i = []) (obj_keys g)"

definition isResolved :: "template_graph \<Rightarrow> string \<Rightarrow> bool" where
  "isResolved g i = (case obj_get g i of None \<Rightarrow> False | Some n \<Rightarrow> n_status n = Done)"

definition parents_of :: "template_graph \<Rightarrow> string \<Rightarrow> string list" where
  "parents_of g i = (case obj_get g i of None \<Rightarrow> [] | Some n \<Rightarrow> n_parents n)"

definition resolved_templates :: "template_graph \<Rightarrow> template list" where
  \<comment> \<open>\<open>graph.filter(isResolved).map(t => t.hydratedTemplate)\<close>\<close>
  "resolved_templates g =
     List.map_filter (\<lambda>i. Option.bind (obj_get g i) n_hydratedTemplate) (filter (isResolved g) (obj_keys g))"

record hydration =
  hy_graph :: template_graph
  hy_waiting :: "(string \<times> template list) list"
  hy_error :: "js_error option"

definition set_loading :: "template_node \<Rightarrow> template_node" where
  "set_loading n = n\<lparr>n_status := Loading\<rparr>"

definition set_done :: "template \<Rightarrow> template_node \<Rightarrow> template_node" where
  "set_done t n = n\<lparr>n_hydratedTemplate := Some t, n_status := Done\<rparr>"

definition resolve_start :: "hydration \<Rightarrow> string \<Rightarrow> hydration" where
  \<comment> \<open>\<open>resolve(node)\<close> up to its \<open>await\<close>\<close>
  "resolve_start s i =
     s\<lparr>hy_graph := update_node set_loading (hy_graph s) i,
       hy_waiting := hy_waiting s @ [(i, resolved_templates (hy_graph s))]\<rparr>"

definition stop_waiting :: "hydration \<Rightarrow> string \<Rightarrow> hydration" where
  "stop_waiting s i = s\<lparr>hy_waiting := filter (\<lambda>w. fst w \<noteq> i) (hy_waiting s)\<rparr>"

definition resolve_finish :: "hydration \<Rightarrow> string \<Rightarrow> template result \<Rightarrow> hydration" where
  \<comment> \<open>\<open>resolve(node)\<close> after its \<open>await\<close>: a rejection is the result of the first \<open>Promise.all\<close> that
      sees it, and the node stays in \<open>Loading\<close>\<close>
  "resolve_finish s i r =
     (case r of
        Inl e \<Rightarrow> (stop_waiting s i)\<lparr>hy_error := or_else (hy_error s) (Some e)\<rparr>
      | Inr t \<Rightarrow>
          let g = update_node (set_done t) (hy_graph s) i;
              ready = filter (\<lambda>p. list_all (isResolved g) (children_of g p)) (parents_of g i)
          in foldl resolve_start ((stop_waiting s i)\<lparr>hy_graph := g\<rparr>) ready)"

definition initial_of :: "template_graph \<Rightarrow> string \<Rightarrow> template option" where
  "initial_of g i = map_option n_initialTemplate (obj_get g i)"

definition hy_answer :: "(string \<Rightarrow> string list result) \<Rightarrow> selections \<Rightarrow> hydration \<Rightarrow> string \<Rightarrow> hydration option" where
  \<comment> \<open>the call that waits for \<open>i\<close> gets its answer\<close>
  "hy_answer fetch sel s i =
     (case (map_of (hy_waiting s) i, initial_of (hy_graph s) i) of
        (Some env, Some t) \<Rightarrow> map_option (resolve_finish s i) (hydrateTemplate fetch sel t env)
      | _ \<Rightarrow> None)"

definition hy_start :: "template_graph \<Rightarrow> hydration" where
  \<comment> \<open>\<open>findLeaves(graph).map(resolve)\<close>\<close>
  "hy_start g = foldl resolve_start \<lparr>hy_graph = g, hy_waiting = [], hy_error = None\<rparr> (findLeaves g)"

inductive hy_step :: "((string \<Rightarrow> string list result) \<Rightarrow> bool) \<Rightarrow> selections \<Rightarrow> hydration \<Rightarrow> hydration \<Rightarrow> bool"
  for answers sel where
  answer: "answers fetch \<Longrightarrow> hy_answer fetch sel s i = Some s' \<Longrightarrow> hy_step answers sel s s'"

definition hydrated_templates :: "hydration \<Rightarrow> template option list" where
  \<comment> \<open>\<open>graph.map(t => t.hydratedTemplate)\<close>\<close>
  "hydrated_templates s =
     map (\<lambda>i. Option.bind (obj_get (hy_graph s) i) n_hydratedTemplate) (obj_keys (hy_graph s))"

inductive_cases hy_stepE: "hy_step answers sel s s'"

section \<open>Starting calls\<close>

definition node_shape :: "template_node \<Rightarrow> string list \<times> string list \<times> template" where
  "node_shape n = (n_parents n, n_children n, n_initialTemplate n)"

definition same_shape :: "template_graph \<Rightarrow> template_graph \<Rightarrow> bool" where
  \<comment> \<open>the same nodes with the same links; status and hydrated template may differ\<close>
  "same_shape g h = (map fst g = map fst h \<and>
     (\<forall>j. map_option node_shape (obj_get g j) = map_option node_shape (obj_get h j)))"

lemma same_shapeD:
  assumes "same_shape g h"
  shows "obj_keys g = obj_keys h" and "children_of g i = children_of h i"
    and "parents_of g i = parents_of h i" and "initial_of g i = initial_of h i"
proof -
  have "map_option node_shape (obj_get g i) = map_option node_shape (obj_get h i)"
    using assms by (simp add: same_shape_def)
  then show "children_of g i = children_of h i" "parents_of g i = parents_of h i" "initial_of g i = initial_of h i"
    by (cases "obj_get g i"; cases "obj_get h i";
        simp add: children_of_def parents_of_def initial_of_def node_shape_def)+
  show "obj_keys g = obj_keys h" using assms by (simp add: same_shape_def obj_keys_def)
qed

lemma same_shape_refl: "same_shape g g"
  by (simp add: same_shape_def)

lemma same_shape_update:
  assumes "\<And>n. node_shape (f n) = node_shape n" and "same_shape g h"
  shows "same_shape (update_node f g i) h"
  using assms by (auto simp: same_shape_def obj_get_update_node option.map_comp o_def)

lemma same_shape_updates:
  "(\<And>n. node_shape (f n) = node_shape n) \<Longrightarrow> same_shape g h \<Longrightarrow> same_shape (foldl (update_node f) g is) h"
  by (induction "is" arbitrary: g) (simp_all add: same_shape_update)

lemma shape_set [simp]: "node_shape (set_loading n) = node_shape n" "node_shape (set_done t n) = node_shape n"
  by (simp_all add: node_shape_def set_loading_def set_done_def)

lemma isResolved_loading: "\<not> isResolved g p \<Longrightarrow> isResolved (update_node set_loading g p) = isResolved g"
  by (rule ext) (auto simp: isResolved_def obj_get_update_node set_loading_def split: option.split)

lemma resolved_loading:
  assumes "\<not> isResolved g p"
  shows "resolved_templates (update_node set_loading g p) = resolved_templates g"
proof -
  have keys: "obj_keys (update_node set_loading g p) = obj_keys g" by (simp add: obj_keys_def)
  have "List.map_filter (\<lambda>i. Option.bind (obj_get (update_node set_loading g p) i) n_hydratedTemplate) (filter (isResolved g) ks)
      = List.map_filter (\<lambda>i. Option.bind (obj_get g i) n_hydratedTemplate) (filter (isResolved g) ks)" for ks
    using assms by (induction ks) (auto simp: List.map_filter_simps obj_get_update_node split: option.split)
  then show ?thesis by (simp add: resolved_templates_def isResolved_loading[OF assms] keys)
qed

lemma start_all:
  "\<forall>p\<in>set ps. \<not> isResolved (hy_graph s) p \<Longrightarrow>
     foldl resolve_start s ps =
       s\<lparr>hy_graph := foldl (update_node set_loading) (hy_graph s) ps,
         hy_waiting := hy_waiting s @ map (\<lambda>p. (p, resolved_templates (hy_graph s))) ps\<rparr>"
proof (induction ps arbitrary: s)
  case (Cons p ps)
  have p: "\<not> isResolved (hy_graph s) p" using Cons.prems by simp
  have "\<forall>q\<in>set ps. \<not> isResolved (hy_graph (resolve_start s p)) q"
    using Cons.prems isResolved_loading[OF p] by (simp add: resolve_start_def)
  from Cons.IH[OF this] show ?case
    by (simp add: resolve_start_def resolved_loading[OF p])
qed simp

section \<open>The invariant of a hydration\<close>

definition hydrates :: "template_node \<Rightarrow> bool" where
  \<comment> \<open>a node has a hydrated template exactly when it is done, and only its values are new\<close>
  "hydrates n =
     (if n_status n = Done then \<exists>vs. n_hydratedTemplate n = Some ((n_initialTemplate n)\<lparr>t_values := vs\<rparr>)
      else n_hydratedTemplate n = None)"

definition node_ok :: "template_graph \<Rightarrow> template_node \<Rightarrow> bool" where
  "node_ok g n = (hydrates n \<and> n_status n \<noteq> Errored \<and>
     (n_status n = NotStarted \<longleftrightarrow> \<not> list_all (isResolved g) (n_children n)))"

definition call_ok :: "template_graph \<Rightarrow> string \<times> template list \<Rightarrow> bool" where
  \<comment> \<open>the caller is loading and was given every template it depends on\<close>
  "call_ok g w =
     (map_option n_status (obj_get g (fst w)) = Some Loading \<and>
      (\<forall>c\<in>set (children_of g (fst w)). \<exists>n t. obj_get g c = Some n \<and> n_hydratedTemplate n = Some t \<and>
         t \<in> set (snd w)))"

definition hy_inv :: "template_graph \<Rightarrow> hydration \<Rightarrow> bool" where
  "hy_inv g0 s =
     (same_shape (hy_graph s) g0 \<and>
      (\<forall>i n. obj_get (hy_graph s) i = Some n \<longrightarrow> node_ok (hy_graph s) n) \<and>
      distinct (map fst (hy_waiting s)) \<and> (\<forall>w\<in>set (hy_waiting s). call_ok (hy_graph s) w) \<and>
      (hy_error s = None \<longrightarrow>
        (\<forall>i. map_option n_status (obj_get (hy_graph s) i) = Some Loading \<longrightarrow> i \<in> fst ` set (hy_waiting s))))"

definition fresh_graph :: "template_graph \<Rightarrow> bool" where
  \<comment> \<open>what \<open>graphFromTemplates\<close> returns\<close>
  "fresh_graph g = (obj_ok g \<and> closed_graph g \<and> acyclic (edges g) \<and>
     (\<forall>i n. obj_get g i = Some n \<longrightarrow> n_status n = NotStarted \<and> n_hydratedTemplate n = None \<and>
        distinct (n_parents n) \<and> set (n_parents n) = {p. i \<in> set (children_of g p)}))"

lemma hy_inv_node: "hy_inv g0 s \<Longrightarrow> obj_get (hy_graph s) i = Some n \<Longrightarrow> node_ok (hy_graph s) n"
  by (simp add: hy_inv_def)

lemma hy_inv_waiting:
  "hy_inv g0 s \<Longrightarrow> w \<in> set (hy_waiting s) \<Longrightarrow> map_option n_status (obj_get (hy_graph s) (fst w)) = Some Loading"
  by (simp add: hy_inv_def call_ok_def)

lemma graphFromTemplates_fresh:
  assumes "distinct (map t_id ts)" and "graphFromTemplates ts = Inr g"
  shows "fresh_graph g"
proof -
  note spec = graphFromTemplates_spec[OF assms]
  have "map fst g = map fst (unlinked_graph ts)"
    using assms(2) link_templates_get[OF _ unlinked_graph_ok, of ts ts g]
    by (auto simp: graphFromTemplates_def bind_r_Inr_iff map_res_Inr_iff skeleton_def)
  then have "obj_ok g" using unlinked_graph_ok[of ts] by (simp add: obj_ok_def)
  moreover have "n_status n = NotStarted \<and> n_hydratedTemplate n = None \<and>
        distinct (n_parents n) \<and> set (n_parents n) = {p. i \<in> set (children_of g p)}"
    if "obj_get g i = Some n" for i n
  proof -
    have "i \<in> t_id ` set ts" using obj_get_in_keys[OF that] graphFromTemplates_dom[OF assms(2)] by simp
    then obtain t where "t \<in> set ts" "i = t_id t" by blast
    with spec that show ?thesis by fastforce
  qed
  ultimately show ?thesis using spec by (simp add: fresh_graph_def)
qed

lemma resolved_templates_mem:
  assumes "isResolved g c" and "obj_get g c = Some n" and "n_hydratedTemplate n = Some t"
  shows "t \<in> set (resolved_templates g)"
proof -
  have "c \<in> set (obj_keys g)" using obj_get_in_keys[OF assms(2)] by simp
  then show ?thesis
    using assms by (force simp: resolved_templates_def List.map_filter_def)
qed

text \<open>What starting a list of calls does to the invariant's parts.\<close>

lemma start_calls:
  fixes s ps
  defines "g \<equiv> hy_graph s" and "s' \<equiv> foldl resolve_start s ps"
  assumes "distinct ps" and "\<forall>p\<in>set ps. map_option n_status (obj_get g p) = Some NotStarted"
  shows "isResolved (hy_graph s') = isResolved g"
    and "obj_get (hy_graph s') j = (if j \<in> set ps then map_option set_loading (obj_get g j) else obj_get g j)"
    and "hy_waiting s' = hy_waiting s @ map (\<lambda>p. (p, resolved_templates g)) ps"
    and "hy_error s' = hy_error s"
    and "same_shape g h \<Longrightarrow> same_shape (hy_graph s') h"
proof -
  have "\<forall>p\<in>set ps. \<not> isResolved g p"
    using assms(4) by (auto simp: isResolved_def split: option.splits)
  then have s': "s' = s\<lparr>hy_graph := foldl (update_node set_loading) g ps,
         hy_waiting := hy_waiting s @ map (\<lambda>p. (p, resolved_templates g)) ps\<rparr>"
    unfolding s'_def g_def by (rule start_all)
  then show get: "obj_get (hy_graph s') j = (if j \<in> set ps then map_option set_loading (obj_get g j) else obj_get g j)" for j
    by (simp add: foldl_update_node_get[OF assms(3)])
  show "isResolved (hy_graph s') = isResolved g"
  proof
    fix i show "isResolved (hy_graph s') i = isResolved g i"
      using assms(4) by (auto simp: isResolved_def get set_loading_def split: option.splits)
  qed
  show "hy_waiting s' = hy_waiting s @ map (\<lambda>p. (p, resolved_templates g)) ps" "hy_error s' = hy_error s"
    by (simp_all add: s')
  show "same_shape g h \<Longrightarrow> same_shape (hy_graph s') h" by (simp add: s' same_shape_updates)
qed

lemma hy_inv_start:
  assumes "fresh_graph g"
  shows "hy_inv g (hy_start g)"
proof -
  let ?s = "\<lparr>hy_graph = g, hy_waiting = [], hy_error = None\<rparr> :: hydration"
  have fresh: "n_status n = NotStarted \<and> n_hydratedTemplate n = None" if "obj_get g i = Some n" for i n
    using assms that by (simp add: fresh_graph_def)
  have none: "isResolved g = (\<lambda>_. False)"
    by (rule ext) (auto simp: isResolved_def fresh split: option.split)
  have d: "distinct (findLeaves g)"
    using assms distinct_obj_keys[of g] by (simp add: findLeaves_def fresh_graph_def)
  have leaf: "map_option n_status (obj_get g p) = Some NotStarted" if "p \<in> set (findLeaves g)" for p
    using that fresh obj_get_present[of p g] by (cases "obj_get g p") (auto simp: findLeaves_def)
  have "\<forall>p\<in>set (findLeaves g). map_option n_status (obj_get (hy_graph ?s) p) = Some NotStarted"
    using leaf by simp
  note st = start_calls[where s = ?s, OF d this, folded hy_start_def, simplified]
  have leaves: "p \<in> set (findLeaves g) \<longleftrightarrow> n_children n = []" if "obj_get g p = Some n" for p n
    using that obj_get_in_keys[OF that] by (simp add: findLeaves_def children_of_def)
  have "node_ok (hy_graph (hy_start g)) n" if n_in: "obj_get (hy_graph (hy_start g)) i = Some n" for i n
  proof -
    obtain m where m: "obj_get g i = Some m" and n: "n = (if n_children m = [] then set_loading m else m)"
      using n_in leaves[of i] by (cases "obj_get g i") (auto simp: st(2) split: if_splits)
    have "n_children n = n_children m" by (simp add: n set_loading_def)
    then have "list_all (isResolved (hy_graph (hy_start g))) (n_children n) \<longleftrightarrow> n_children m = []"
      by (cases "n_children m") (simp_all add: st(1) none)
    then show ?thesis using fresh[OF m] by (simp add: node_ok_def hydrates_def n set_loading_def)
  qed
  moreover have "call_ok (hy_graph (hy_start g)) w" if w: "w \<in> set (hy_waiting (hy_start g))" for w
  proof -
    from w have p: "fst w \<in> set (findLeaves g)" by (auto simp: st(3))
    have "children_of (hy_graph (hy_start g)) (fst w) = children_of g (fst w)"
      using same_shapeD(2)[OF st(5)[OF same_shape_refl]] by (simp add: hy_start_def)
    also have "\<dots> = []" using p by (simp add: findLeaves_def)
    finally show ?thesis using p leaf[OF p]
      by (cases "obj_get g (fst w)") (simp_all add: call_ok_def st(2) set_loading_def)
  qed
  moreover have "i \<in> fst ` set (hy_waiting (hy_start g))"
    if "map_option n_status (obj_get (hy_graph (hy_start g)) i) = Some Loading" for i
    using that fresh by (cases "obj_get g i") (auto simp: st(2,3) image_image split: if_splits)
  moreover have "distinct (map fst (hy_waiting (hy_start g)))"
    using d by (simp add: st(3) o_def)
  moreover have "same_shape (hy_graph (hy_start g)) g"
    using st(5)[OF same_shape_refl] by (simp add: hy_start_def)
  ultimately show ?thesis unfolding hy_inv_def by blast
qed

lemma no_self_child: "acyclic (edges g) \<Longrightarrow> i \<notin> set (children_of g i)"
  by (metis acyclic_def edges_iff r_into_trancl')

lemma stop_waiting_simps [simp]:
  "hy_graph (stop_waiting s i) = hy_graph s" "hy_error (stop_waiting s i) = hy_error s"
  "hy_waiting (stop_waiting s i) = filter (\<lambda>w. fst w \<noteq> i) (hy_waiting s)"
  by (simp_all add: stop_waiting_def)

lemma hy_inv_rejected:
  assumes "hy_inv g0 s"
  shows "hy_inv g0 (resolve_finish s i (Inl e))"
  using assms by (auto simp: hy_inv_def resolve_finish_def or_else_def distinct_map_filter split: option.split)

text \<open>
  One call ends with a hydrated template: the node is done, exactly the parents whose last
  dependency it was are started, each with every template hydrated so far.
\<close>

lemma resolve_finish_facts:
  fixes vs
  assumes inv: "hy_inv g0 s" and fresh: "fresh_graph g0"
    and w: "(i, env) \<in> set (hy_waiting s)" and t0: "initial_of (hy_graph s) i = Some t0"
  defines "g \<equiv> hy_graph s" and "s' \<equiv> resolve_finish s i (Inr (t0\<lparr>t_values := vs\<rparr>))"
  obtains ready n0 g1 where "distinct ready"
    and "\<forall>p. p \<in> set ready \<longleftrightarrow> i \<in> set (children_of g0 p) \<and> list_all (isResolved (hy_graph s')) (children_of g0 p)"
    and "\<forall>p\<in>set ready. map_option n_status (obj_get g p) = Some NotStarted \<and> p \<noteq> i"
    and "obj_get g i = Some n0" and "n_status n0 = Loading" and "n_initialTemplate n0 = t0"
    and "\<forall>j. obj_get g1 j = (if j = i then Some (set_done (t0\<lparr>t_values := vs\<rparr>) n0) else obj_get g j)"
    and "\<forall>j. obj_get (hy_graph s') j = (if j \<in> set ready then map_option set_loading (obj_get g1 j) else obj_get g1 j)"
    and "isResolved (hy_graph s') = isResolved g1" and "\<forall>j. isResolved g1 j \<longleftrightarrow> isResolved g j \<or> j = i"
    and "hy_waiting s' = filter (\<lambda>w. fst w \<noteq> i) (hy_waiting s) @ map (\<lambda>p. (p, resolved_templates g1)) ready"
    and "hy_error s' = hy_error s" and "same_shape (hy_graph s') g0"
proof -
  define t where "t = t0\<lparr>t_values := vs\<rparr>"
  define g1 where "g1 = update_node (set_done t) g i"
  define ready where "ready = filter (\<lambda>p. list_all (isResolved g1) (children_of g1 p)) (parents_of g1 i)"
  have shape: "same_shape g g0" using inv by (simp add: hy_inv_def g_def)
  have shape1: "same_shape g1 g0" unfolding g1_def by (rule same_shape_update[OF _ shape]) simp
  obtain n0 where n0: "obj_get g i = Some n0" "n_status n0 = Loading"
    using inv w by (force simp: call_ok_def hy_inv_def g_def)
  have init: "n_initialTemplate n0 = t0" using t0 n0 by (simp add: initial_of_def g_def)
  have get1: "obj_get g1 j = (if j = i then Some (set_done t n0) else obj_get g j)" for j
    by (simp add: g1_def obj_get_update_node n0)
  have res1: "isResolved g1 j \<longleftrightarrow> isResolved g j \<or> j = i" for j
    by (simp add: isResolved_def get1 set_done_def)
  have not_i: "\<not> isResolved g i" by (simp add: isResolved_def n0)
  have ch: "children_of g1 p = children_of g0 p" "children_of g p = children_of g0 p" for p
    using same_shapeD(2)[OF shape1] same_shapeD(2)[OF shape] by simp_all
  obtain m0 where m0: "obj_get g0 i = Some m0"
    using shape n0 by (cases "obj_get g0 i") (auto simp: same_shape_def dest!: spec[of _ i])
  have par: "set (parents_of g1 i) = {p. i \<in> set (children_of g0 p)}" "distinct (parents_of g1 i)"
    using fresh m0 same_shapeD(3)[OF shape1, of i] by (simp_all add: fresh_graph_def parents_of_def)
  have ready: "p \<in> set ready \<longleftrightarrow> i \<in> set (children_of g0 p) \<and> list_all (isResolved g1) (children_of g0 p)" for p
    by (simp add: ready_def par(1) ch)
  have parent: "map_option n_status (obj_get g p) = Some NotStarted" if child: "i \<in> set (children_of g0 p)" for p
  proof -
    obtain n where n: "obj_get g p = Some n"
      using child unfolding ch(2)[of p, symmetric] by (cases "obj_get g p") (simp_all add: children_of_def)
    with child not_i have "\<not> list_all (isResolved g) (n_children n)"
      using ch(2)[of p] by (auto simp: list_all_iff children_of_def)
    with hy_inv_node[OF inv, folded g_def, OF n] n show ?thesis by (simp add: node_ok_def)
  qed
  have ready_ns: "map_option n_status (obj_get g p) = Some NotStarted \<and> p \<noteq> i" if "p \<in> set ready" for p
    using that parent fresh no_self_child[of g0 i] by (auto simp: ready fresh_graph_def)
  have d: "distinct ready" using par(2) by (simp add: ready_def)
  let ?s1 = "(stop_waiting s i)\<lparr>hy_graph := g1\<rparr>"
  have s': "s' = foldl resolve_start ?s1 ready"
    by (simp add: s'_def resolve_finish_def t_def[symmetric] g1_def[symmetric] g_def[symmetric] ready_def[symmetric] Let_def)
  have ns1: "\<forall>p\<in>set ready. map_option n_status (obj_get (hy_graph ?s1) p) = Some NotStarted"
    using ready_ns by (simp add: get1)
  have s1: "hy_graph ?s1 = g1" "hy_error ?s1 = hy_error s"
    "hy_waiting ?s1 = filter (\<lambda>w. fst w \<noteq> i) (hy_waiting s)" by simp_all
  note st = start_calls[where s = ?s1, OF d ns1, folded s', unfolded s1]
  have get': "\<forall>j. obj_get (hy_graph s') j = (if j \<in> set ready then map_option set_loading (obj_get g1 j) else obj_get g1 j)"
    by (simp add: st(2))
  have "\<forall>p. p \<in> set ready \<longleftrightarrow> i \<in> set (children_of g0 p) \<and> list_all (isResolved (hy_graph s')) (children_of g0 p)"
    using ready st(1) by simp
  moreover have "\<forall>j. obj_get g1 j = (if j = i then Some (set_done t n0) else obj_get g j)" using get1 by blast
  ultimately show ?thesis
    using that[OF d _ _ n0 init _ get' st(1) _ st(3,4) st(5)[OF shape1]] ready_ns res1 by (simp add: t_def)
qed

lemma hy_inv_resolved:
  assumes inv: "hy_inv g0 s" and fresh: "fresh_graph g0"
    and w: "(i, env) \<in> set (hy_waiting s)" and t0: "initial_of (hy_graph s) i = Some t0"
  shows "hy_inv g0 (resolve_finish s i (Inr (t0\<lparr>t_values := vs\<rparr>)))"
proof -
  define g where "g = hy_graph s"
  define t where "t = t0\<lparr>t_values := vs\<rparr>"
  define s' where "s' = resolve_finish s i (Inr t)"
  obtain ready n0 g1 where d: "distinct ready"
    and ready0: "\<forall>p. p \<in> set ready \<longleftrightarrow> i \<in> set (children_of g0 p) \<and> list_all (isResolved (hy_graph s')) (children_of g0 p)"
    and ready_ns0: "\<forall>p\<in>set ready. map_option n_status (obj_get g p) = Some NotStarted \<and> p \<noteq> i"
    and n0: "obj_get g i = Some n0" "n_status n0 = Loading" and init: "n_initialTemplate n0 = t0"
    and get10: "\<forall>j. obj_get g1 j = (if j = i then Some (set_done t n0) else obj_get g j)"
    and st20: "\<forall>j. obj_get (hy_graph s') j = (if j \<in> set ready then map_option set_loading (obj_get g1 j) else obj_get g1 j)"
    and st1: "isResolved (hy_graph s') = isResolved g1" and res10: "\<forall>j. isResolved g1 j \<longleftrightarrow> isResolved g j \<or> j = i"
    and st3: "hy_waiting s' = filter (\<lambda>w. fst w \<noteq> i) (hy_waiting s) @ map (\<lambda>p. (p, resolved_templates g1)) ready"
    and st4: "hy_error s' = hy_error s" and shape': "same_shape (hy_graph s') g0"
    by (rule resolve_finish_facts[OF inv fresh w t0, where vs = vs, folded g_def, folded t_def, folded s'_def])
  note ready = ready0[rule_format] and ready_ns = ready_ns0[rule_format] and get1 = get10[rule_format]
    and st2 = st20[rule_format] and res1 = res10[rule_format]
  have shape: "same_shape g g0" using inv by (simp add: hy_inv_def g_def)
  note ok = hy_inv_node[OF inv, folded g_def]
  have call: "call_ok g w" if "w \<in> set (hy_waiting s)" for w using inv that by (simp add: hy_inv_def g_def)
  have not_i: "\<not> isResolved g i" by (simp add: isResolved_def n0)
  have ch: "children_of g p = children_of g0 p" for p using same_shapeD(2)[OF shape] .
  have node_ch: "n_children n = children_of g0 j" if "obj_get g j = Some n" for j n
    using ch[of j] that by (simp add: children_of_def)
  have get': "obj_get (hy_graph s') j = (if j = i then Some (set_done t n0)
      else if j \<in> set ready then map_option set_loading (obj_get g j) else obj_get g j)" for j
    using ready_ns by (auto simp: st2 get1)
  have res': "isResolved (hy_graph s') j \<longleftrightarrow> isResolved g j \<or> j = i" for j
    by (simp add: st1 res1)
  have nodes: "node_ok (hy_graph s') n'" if n': "obj_get (hy_graph s') j = Some n'" for j n'
  proof -
    consider (c_self) "j = i" | (c_ready) "j \<noteq> i" "j \<in> set ready" | (c_other) "j \<noteq> i" "j \<notin> set ready" by blast
    then show ?thesis
    proof cases
      case c_self
      with n' have n'_eq: "n' = set_done t n0" by (simp add: get')
      have "list_all (isResolved g) (n_children n0)" using ok[OF n0(1)] n0(2) by (simp add: node_ok_def)
      then have "list_all (isResolved (hy_graph s')) (n_children n0)" by (simp add: list_all_iff res')
      then show ?thesis by (simp add: node_ok_def hydrates_def n'_eq set_done_def t_def init) blast
    next
      case c_ready
      with n' obtain n where n: "obj_get g j = Some n" "n' = set_loading n" by (auto simp: get')
      then have "n_status n = NotStarted" using ready_ns[OF c_ready(2)] by simp
      moreover have "list_all (isResolved (hy_graph s')) (n_children n)"
        using c_ready(2) node_ch[OF n(1)] by (simp add: ready)
      ultimately show ?thesis using ok[OF n(1)] by (simp add: node_ok_def hydrates_def n(2) set_loading_def)
    next
      case c_other
      with n' have n: "obj_get g j = Some n'" by (simp add: get')
      have "list_all (isResolved (hy_graph s')) (n_children n') \<longleftrightarrow> list_all (isResolved g) (n_children n')"
      proof (cases "i \<in> set (children_of g0 j)")
        case True
        then show ?thesis using c_other(2) ready[of j] not_i node_ch[OF n] by (auto simp: list_all_iff res')
      next
        case False
        then show ?thesis using node_ch[OF n] by (auto simp: list_all_iff res')
      qed
      then show ?thesis using ok[OF n] by (simp add: node_ok_def)
    qed
  qed
  have hyd: "obj_get (hy_graph s') c = Some n" if "obj_get g c = Some n" "n_hydratedTemplate n = Some u" for c n u
  proof -
    have "n_status n = Done" using ok[OF that(1)] that(2) by (auto simp: node_ok_def hydrates_def split: if_splits)
    then have "c \<noteq> i" "c \<notin> set ready" using that n0 ready_ns[of c] by auto
    then show ?thesis using that(1) by (simp add: get')
  qed
  have calls: "call_ok (hy_graph s') v" if v: "v \<in> set (hy_waiting s')" for v
  proof -
    from v consider (old) "v \<in> set (hy_waiting s)" "fst v \<noteq> i"
      | (new) p where "p \<in> set ready" "v = (p, resolved_templates g1)"
      by (auto simp: st3)
    then show ?thesis
    proof cases
      case old
      have "map_option n_status (obj_get g (fst v)) = Some Loading"
        using call[OF old(1)] by (simp add: call_ok_def)
      then have "map_option n_status (obj_get (hy_graph s') (fst v)) = Some Loading"
        using old(2) ready_ns[of "fst v"] by (auto simp: get')
      moreover have "\<exists>n t. obj_get (hy_graph s') c = Some n \<and> n_hydratedTemplate n = Some t \<and> t \<in> set (snd v)"
        if c: "c \<in> set (children_of g0 (fst v))" for c
      proof -
        have "\<exists>n t. obj_get g c = Some n \<and> n_hydratedTemplate n = Some t \<and> t \<in> set (snd v)"
          using call[OF old(1)] c by (simp add: call_ok_def ch)
        then show ?thesis using hyd by blast
      qed
      ultimately show ?thesis by (simp add: call_ok_def same_shapeD(2)[OF shape'])
    next
      case new
      have "\<exists>n t. obj_get (hy_graph s') c = Some n \<and> n_hydratedTemplate n = Some t \<and> t \<in> set (snd v)"
        if c: "c \<in> set (children_of g0 p)" for c
      proof -
        have done_c: "isResolved g1 c" using new(1) c by (simp add: ready list_all_iff st1)
        then have "isResolved (hy_graph s') c" by (simp add: st1)
        then obtain n where n: "obj_get (hy_graph s') c = Some n" "n_status n = Done"
          by (auto simp: isResolved_def split: option.splits)
        then obtain u where u: "n_hydratedTemplate n = Some u"
          using nodes[OF n(1)] by (auto simp: node_ok_def hydrates_def)
        have "c \<notin> set ready" using n u ready_ns[of c] by (auto simp: get' set_loading_def)
        then have "obj_get g1 c = Some n" using n by (simp add: get' get1 split: if_splits)
        from resolved_templates_mem[OF done_c this u] n u new(2) show ?thesis by auto
      qed
      moreover have "map_option n_status (obj_get (hy_graph s') p) = Some Loading"
        using new(1) ready_ns[OF new(1)] by (auto simp: get' set_loading_def)
      ultimately show ?thesis using new(2) by (simp add: call_ok_def same_shapeD(2)[OF shape'])
    qed
  qed
  have "distinct (map fst (hy_waiting s'))"
  proof -
    have "distinct (map fst (filter (\<lambda>w. fst w \<noteq> i) (hy_waiting s)))"
      using inv by (simp add: hy_inv_def distinct_map_filter)
    moreover have "fst v \<notin> set ready" if "v \<in> set (hy_waiting s)" for v
      using call[OF that] ready_ns[of "fst v"] by (auto simp: call_ok_def)
    ultimately show ?thesis using d by (auto simp: st3 o_def)
  qed
  moreover have "j \<in> fst ` set (hy_waiting s')"
    if "hy_error s' = None" "map_option n_status (obj_get (hy_graph s') j) = Some Loading" for j
  proof (cases "j \<in> set ready")
    case True
    then show ?thesis by (force simp: st3)
  next
    case False
    with that(2) have "j \<noteq> i" "map_option n_status (obj_get g j) = Some Loading"
      by (auto simp: get' set_done_def split: if_splits)
    moreover have "hy_error s = None" using that(1) by (simp add: st4)
    ultimately have "j \<in> fst ` set (hy_waiting s)" using inv by (simp add: hy_inv_def g_def)
    with \<open>j \<noteq> i\<close> show ?thesis by (force simp: st3)
  qed
  ultimately show ?thesis using shape' nodes calls unfolding s'_def t_def hy_inv_def by blast
qed

lemma hy_inv_step:
  assumes "hy_step answers sel s s'" and "hy_inv g0 s" and "fresh_graph g0"
  shows "hy_inv g0 s'"
  using assms(1)
proof (rule hy_stepE)
  fix fetch i
  assume "hy_answer fetch sel s i = Some s'"
  then obtain env t r where env: "map_of (hy_waiting s) i = Some env" and t: "initial_of (hy_graph s) i = Some t"
    and r: "hydrateTemplate fetch sel t env = Some r" and s': "s' = resolve_finish s i r"
    by (auto simp: hy_answer_def split: option.splits)
  show ?thesis
  proof (cases r)
    case (Inl e)
    then show ?thesis using hy_inv_rejected[OF assms(2)] s' by simp
  next
    case (Inr u)
    then obtain vs where "u = t\<lparr>t_values := vs\<rparr>" using hydrateTemplate_keeps r by blast
    with Inr s' hy_inv_resolved[OF assms(2,3) map_of_SomeD[OF env] t] show ?thesis by simp
  qed
qed

lemma hy_inv_reachable:
  "(hy_step answers sel)\<^sup>*\<^sup>* s s' \<Longrightarrow> hy_inv g0 s \<Longrightarrow> fresh_graph g0 \<Longrightarrow> hy_inv g0 s'"
  by (induction rule: rtranclp_induct) (auto intro: hy_inv_step)

text \<open>
  C2: whatever the order in which answers arrive, and whatever they are, a template's query is
  only rendered when every template it depends on has been hydrated, and with all of their
  hydrated versions; no template is waiting for two answers.
\<close>

theorem hydration_dependencies_first:
  assumes "distinct (map t_id ts)" and "graphFromTemplates ts = Inr g"
    and "(hy_step answers sel)\<^sup>*\<^sup>* (hy_start g) s"
  shows "distinct (map fst (hy_waiting s)) \<and>
    (\<forall>(i, env)\<in>set (hy_waiting s). \<forall>c\<in>set (children_of g i). isResolved (hy_graph s) c \<and>
       (\<exists>t\<in>set ts. \<exists>vs. t_id t = c \<and> t\<lparr>t_values := vs\<rparr> \<in> set env))"
proof -
  note fresh = graphFromTemplates_fresh[OF assms(1,2)]
  have inv: "hy_inv g s" by (rule hy_inv_reachable[OF assms(3) hy_inv_start[OF fresh] fresh])
  then have shape: "same_shape (hy_graph s) g" by (simp add: hy_inv_def)
  have "isResolved (hy_graph s) c \<and> (\<exists>t\<in>set ts. \<exists>vs. t_id t = c \<and> t\<lparr>t_values := vs\<rparr> \<in> set env)"
    if w: "(i, env) \<in> set (hy_waiting s)" and c: "c \<in> set (children_of g i)" for i env c
  proof -
    have "call_ok (hy_graph s) (i, env)" using inv w by (simp add: hy_inv_def)
    then obtain n u where n: "obj_get (hy_graph s) c = Some n" "n_hydratedTemplate n = Some u" "u \<in> set env"
      using c same_shapeD(2)[OF shape, of i] by (auto simp: call_ok_def)
    have "node_ok (hy_graph s) n" using hy_inv_node[OF inv n(1)] .
    then have st: "n_status n = Done" and "\<exists>vs. u = (n_initialTemplate n)\<lparr>t_values := vs\<rparr>"
      using n(2) by (auto simp: node_ok_def hydrates_def split: if_splits)
    moreover obtain t where "t \<in> set ts" "t_id t = c"
      using edge_to_node[of g i c] graphFromTemplates_closed[OF assms(1,2)] c
        graphFromTemplates_dom[OF assms(2)] by auto
    moreover have "initial_of g c = Some (n_initialTemplate n)"
      using n(1) same_shapeD(4)[OF shape, of c] by (simp add: initial_of_def)
    ultimately show ?thesis
      using n graphFromTemplates_spec[OF assms(1,2)] by (fastforce simp: isResolved_def initial_of_def)
  qed
  then show ?thesis using inv by (auto simp: hy_inv_def)
qed

section \<open>A hydration ends, and without an error it hydrates everything\<close>

lemma all_done:
  assumes "hy_inv g s" and "fresh_graph g" and "hy_waiting s = []" and "hy_error s = None"
    and "i \<in> set (obj_keys g)"
  shows "isResolved (hy_graph s) i"
proof -
  have shape: "same_shape (hy_graph s) g" using assms(1) by (simp add: hy_inv_def)
  have fin: "finite (edges g)"
  proof (rule finite_subset)
    show "edges g \<subseteq> fst ` set g \<times> (\<Union>i\<in>fst ` set g. set (children_of g i))"
      using edge_from_node by force
  qed simp
  have "wf ((edges g)\<inverse>)"
    using fin assms(2) by (intro finite_acyclic_wf_converse) (simp_all add: fresh_graph_def)
  then show ?thesis
    using assms(5)
  proof (induction i rule: wf_induct_rule)
    case (less i)
    have "map fst (hy_graph s) = map fst g" using shape by (simp add: same_shape_def)
    then have "fst ` set (hy_graph s) = fst ` set g" by (metis list.set_map)
    then obtain n where n: "obj_get (hy_graph s) i = Some n"
      using less.prems by (metis not_Some_eq obj_get_None_iff set_obj_keys)
    have ch: "n_children n = children_of g i"
      using n same_shapeD(2)[OF shape, of i] by (simp add: children_of_def)
    have "isResolved (hy_graph s) c" if "c \<in> set (children_of g i)" for c
      using less.IH[of c] that edge_to_node[of g i c] assms(2) by (simp add: fresh_graph_def)
    then have "n_status n \<noteq> NotStarted \<and> n_status n \<noteq> Errored"
      using assms(1) n ch by (auto simp: hy_inv_def node_ok_def list_all_iff)
    moreover have "n_status n \<noteq> Loading" using assms n by (auto simp: hy_inv_def)
    ultimately have "n_status n = Done" by (cases "n_status n") auto
    with n show ?case by (simp add: isResolved_def)
  qed
qed

text \<open>
  C1: if no call failed and none is waiting any more, every template has been hydrated: the
  result has one template per node, in the graph's order, and each is one of the given
  templates with new values only.
\<close>

theorem hydration_complete:
  assumes "distinct (map t_id ts)" and "graphFromTemplates ts = Inr g"
    and "(hy_step answers sel)\<^sup>*\<^sup>* (hy_start g) s"
    and "hy_waiting s = []" and "hy_error s = None"
  shows "\<exists>us. hydrated_templates s = map Some us \<and> map t_id us = obj_keys g \<and>
    (\<forall>u\<in>set us. \<exists>t\<in>set ts. \<exists>vs. u = t\<lparr>t_values := vs\<rparr>)"
proof -
  note fresh = graphFromTemplates_fresh[OF assms(1,2)]
  have inv: "hy_inv g s" by (rule hy_inv_reachable[OF assms(3) hy_inv_start[OF fresh] fresh])
  then have shape: "same_shape (hy_graph s) g" by (simp add: hy_inv_def)
  let ?h = "\<lambda>i. Option.bind (obj_get (hy_graph s) i) n_hydratedTemplate"
  have one: "\<exists>t\<in>set ts. \<exists>vs. t_id t = i \<and> ?h i = Some (t\<lparr>t_values := vs\<rparr>)" if i: "i \<in> set (obj_keys g)" for i
  proof -
    obtain n where n: "obj_get (hy_graph s) i = Some n" "n_status n = Done"
      using all_done[OF inv fresh assms(4,5) i] by (auto simp: isResolved_def split: option.splits)
    then obtain vs where vs: "n_hydratedTemplate n = Some ((n_initialTemplate n)\<lparr>t_values := vs\<rparr>)"
      using hy_inv_node[OF inv n(1)] n(2) by (auto simp: node_ok_def hydrates_def)
    obtain t where t: "t \<in> set ts" "t_id t = i" using i graphFromTemplates_dom[OF assms(2)] by auto
    have "initial_of g i = Some (n_initialTemplate n)"
      using n(1) same_shapeD(4)[OF shape, of i] by (simp add: initial_of_def)
    then have "n_initialTemplate n = t"
      using graphFromTemplates_spec[OF assms(1,2)] t by (fastforce simp: initial_of_def)
    with t n vs show ?thesis by auto
  qed
  let ?us = "map (\<lambda>i. the (?h i)) (obj_keys g)"
  have some: "?h i = Some (the (?h i)) \<and> t_id (the (?h i)) = i" if "i \<in> set (obj_keys g)" for i
    using one[OF that] by auto
  have "hydrated_templates s = map ?h (obj_keys g)"
    by (simp add: hydrated_templates_def same_shapeD(1)[OF shape])
  also have "\<dots> = map Some ?us" unfolding map_map by (rule map_cong[OF refl]) (metis comp_apply some)
  finally have "hydrated_templates s = map Some ?us" .
  moreover have "map t_id ?us = obj_keys g" using some by (simp add: map_idI del: set_obj_keys)
  moreover have "\<forall>u\<in>set ?us. \<exists>t\<in>set ts. \<exists>vs. u = t\<lparr>t_values := vs\<rparr>" using one by fastforce
  ultimately show ?thesis by blast
qed

definition hy_rank :: "hydration \<Rightarrow> nat" where
  \<comment> \<open>the nodes that are not done and whose call has not been rejected\<close>
  "hy_rank s = card {i. map_option n_status (obj_get (hy_graph s) i) = Some NotStarted} + length (hy_waiting s)"

lemma not_started_finite: "finite {i. map_option n_status (obj_get g i) = Some NotStarted}"
  by (rule finite_subset[of _ "fst ` set g"]) (auto dest: obj_get_in_keys)

lemma stop_waiting_shorter:
  "w \<in> set xs \<Longrightarrow> fst w = i \<Longrightarrow> length (filter (\<lambda>w. fst w \<noteq> i) xs) < length xs"
  by (rule length_filter_less) auto

lemma hy_rank_resolved:
  assumes "hy_inv g0 s" and "fresh_graph g0" and w: "(i, env) \<in> set (hy_waiting s)"
    and "initial_of (hy_graph s) i = Some t0"
  shows "hy_rank (resolve_finish s i (Inr (t0\<lparr>t_values := vs\<rparr>))) < hy_rank s"
proof -
  define t where "t = t0\<lparr>t_values := vs\<rparr>"
  define s' where "s' = resolve_finish s i (Inr t)"
  let ?ns = "\<lambda>s. {i. map_option n_status (obj_get (hy_graph s) i) = Some NotStarted}"
  obtain ready n0 g1 where d: "distinct ready"
    and ready_ns: "\<forall>p\<in>set ready. map_option n_status (obj_get (hy_graph s) p) = Some NotStarted \<and> p \<noteq> i"
    and n0: "obj_get (hy_graph s) i = Some n0" "n_status n0 = Loading"
    and get1: "\<forall>j. obj_get g1 j = (if j = i then Some (set_done t n0) else obj_get (hy_graph s) j)"
    and get': "\<forall>j. obj_get (hy_graph s') j = (if j \<in> set ready then map_option set_loading (obj_get g1 j) else obj_get g1 j)"
    and waiting: "hy_waiting s' = filter (\<lambda>w. fst w \<noteq> i) (hy_waiting s) @ map (\<lambda>p. (p, resolved_templates g1)) ready"
    by (rule resolve_finish_facts[OF assms, where vs = vs, folded t_def, folded s'_def])
  have "?ns s' = ?ns s - set ready"
    using ready_ns n0 by (auto simp: get' get1 set_loading_def set_done_def split: if_splits)
  moreover have "set ready \<subseteq> ?ns s" using ready_ns by blast
  ultimately have "card (?ns s') + card (set ready) = card (?ns s)"
    using card_Diff_subset[of "set ready" "?ns s"] card_mono[OF not_started_finite, of "set ready" "hy_graph s"] by simp
  moreover have "length (hy_waiting s') < length (hy_waiting s) + length ready"
    using stop_waiting_shorter[OF w] by (simp add: waiting)
  ultimately show ?thesis using distinct_card[OF d] by (simp add: hy_rank_def s'_def t_def)
qed

lemma hy_rank_step:
  assumes "hy_step answers sel s s'" and "hy_inv g0 s" and "fresh_graph g0"
  shows "hy_rank s' < hy_rank s"
  using assms(1)
proof (rule hy_stepE)
  fix fetch i
  assume "hy_answer fetch sel s i = Some s'"
  then obtain env t r where env: "map_of (hy_waiting s) i = Some env" and t: "initial_of (hy_graph s) i = Some t"
    and r: "hydrateTemplate fetch sel t env = Some r" and s': "s' = resolve_finish s i r"
    by (auto simp: hy_answer_def split: option.splits)
  note w = map_of_SomeD[OF env]
  show ?thesis
  proof (cases r)
    case (Inl e)
    then show ?thesis using stop_waiting_shorter[OF w] by (simp add: s' resolve_finish_def hy_rank_def)
  next
    case (Inr u)
    then obtain vs where "u = t\<lparr>t_values := vs\<rparr>" using hydrateTemplate_keeps r by blast
    with Inr s' hy_rank_resolved[OF assms(2,3) w t] show ?thesis by simp
  qed
qed

lemma hy_steps_rank:
  "(hy_step answers sel ^^ k) s s' \<Longrightarrow> hy_inv g0 s \<Longrightarrow> fresh_graph g0 \<Longrightarrow> k + hy_rank s' \<le> hy_rank s"
proof (induction k arbitrary: s')
  case (Suc k)
  then obtain u where u: "(hy_step answers sel ^^ k) s u" "hy_step answers sel u s'" by auto
  then have "hy_inv g0 u" using Suc.prems hy_inv_reachable relpowp_imp_rtranclp by metis
  then have "hy_rank s' < hy_rank u" using hy_rank_step u(2) Suc.prems(3) by blast
  with Suc.IH[OF u(1) Suc.prems(2,3)] show ?case by simp
qed simp

lemma hy_rank_start:
  assumes "fresh_graph g"
  shows "hy_rank (hy_start g) \<le> length (obj_keys g)"
proof -
  let ?ns = "{i. map_option n_status (obj_get (hy_graph (hy_start g)) i) = Some NotStarted}"
  have inv: "hy_inv g (hy_start g)" by (rule hy_inv_start[OF assms])
  have "map fst (hy_graph (hy_start g)) = map fst g" using inv by (simp add: hy_inv_def same_shape_def)
  then have keys: "fst ` set (hy_graph (hy_start g)) = fst ` set g" by (metis list.set_map)
  have sub: "?ns \<union> fst ` set (hy_waiting (hy_start g)) \<subseteq> set (obj_keys g)"
  proof
    fix i assume "i \<in> ?ns \<union> fst ` set (hy_waiting (hy_start g))"
    then obtain n where "obj_get (hy_graph (hy_start g)) i = Some n" using hy_inv_waiting[OF inv] by fastforce
    from obj_get_in_keys[OF this] keys show "i \<in> set (obj_keys g)" by simp
  qed
  have dis: "?ns \<inter> fst ` set (hy_waiting (hy_start g)) = {}"
    using hy_inv_waiting[OF inv] by fastforce
  have "card (fst ` set (hy_waiting (hy_start g))) = length (hy_waiting (hy_start g))"
    using inv by (metis hy_inv_def distinct_card length_map list.set_map)
  then have "hy_rank (hy_start g) = card (?ns \<union> fst ` set (hy_waiting (hy_start g)))"
    using card_Un_disjoint[OF not_started_finite finite_imageI[OF finite_set] dis]
    by (simp add: hy_rank_def)
  also have "\<dots> \<le> card (set (obj_keys g))" by (rule card_mono[OF _ sub]) simp
  also have "\<dots> \<le> length (obj_keys g)" by (rule card_length)
  finally show ?thesis .
qed

text \<open>
  C3: a hydration ends: it takes at most as many answers as the graph has nodes, since no template is
  resolved twice.
\<close>

theorem hydration_ends:
  assumes "distinct (map t_id ts)" and "graphFromTemplates ts = Inr g"
    and "(hy_step answers sel ^^ k) (hy_start g) s"
  shows "k \<le> length (obj_keys g)"
proof -
  note fresh = graphFromTemplates_fresh[OF assms(1,2)]
  from hy_steps_rank[OF assms(3) hy_inv_start[OF fresh] fresh] hy_rank_start[OF fresh]
  show ?thesis by simp
qed

text \<open>
  Hydrating a query-backed template that has no query, which is what the default of a custom
  meta query has, is always rejected with a type error: there are no values to select from.
\<close>

theorem hydrateTemplate_without_query:
  assumes "query_backed (t_type t)" and "\<forall>q. t_query t = Some q \<longrightarrow> \<not> truthy (tq_influxql q)"
  shows "hydrateTemplate fetch sel t ts = Some (Inl TypeError)"
  using assms
  by (simp add: hydrateTemplate_def hydrate_query_def resolveValues_query newTemplateValueQuery_def
      split: option.split)

theorem hydrateTemplate_without_query_witness:
  "hydrateTemplate (\<lambda>_. Inr []) [] (host_template\<lparr>t_type := TMetaQuery\<rparr>) [] = Some (Inl TypeError)"
  by (rule hydrateTemplate_without_query) (simp_all add: host_template_def query_backed_def)

section \<open>A run on two templates\<close>

definition b_csv :: template where
  "b_csv = csv_template\<lparr>t_id := ''b'', t_tempVar := '':b:''\<rparr>"

definition ab_run :: "hydration \<Rightarrow> string list \<Rightarrow> hydration option" where
  "ab_run s is = foldl (\<lambda>u i. Option.bind u (\<lambda>v. hy_answer (\<lambda>_. Inr []) [] v i)) (Some s) is"

lemma ab_run_Nil: "ab_run s [] = Some s"
  by (simp add: ab_run_def)

lemma ab_run_snoc: "ab_run s (is @ [i]) = Option.bind (ab_run s is) (\<lambda>v. hy_answer (\<lambda>_. Inr []) [] v i)"
  by (simp add: ab_run_def)

lemma ab_run_steps: "ab_run s is = Some u \<Longrightarrow> (hy_step (\<lambda>_. True) [] ^^ length is) s u"
proof (induction "is" arbitrary: u rule: rev_induct)
  case Nil
  then show ?case by (simp add: ab_run_def)
next
  case (snoc i "is")
  then obtain v where "ab_run s is = Some v" "hy_answer (\<lambda>_. Inr []) [] v i = Some u"
    by (auto simp: ab_run_snoc bind_eq_Some_conv)
  with snoc.IH[of v] hy_step.answer[of "\<lambda>_. True" "\<lambda>_. Inr []" "[]" v i u] show ?case by auto
qed

lemma ab_graph_built:
  obtains g where "graphFromTemplates [a_template, b_csv] = Inr g"
    and "g = projr (graphFromTemplates [a_template, b_csv])"
proof -
  have "\<not> isl (graphFromTemplates [a_template, b_csv])" by code_simp
  then show ?thesis using that by (cases "graphFromTemplates [a_template, b_csv]") auto
qed

lemma ab_distinct: "distinct (map t_id [a_template, b_csv])"
  by (simp add: a_template_def b_csv_def)

theorem hydration_dependencies_first_witness:
  "\<exists>s env vs. ab_run (hy_start (projr (graphFromTemplates [a_template, b_csv]))) [''b''] = Some s \<and>
     (''a'', env) \<in> set (hy_waiting s) \<and> b_csv\<lparr>t_values := vs\<rparr> \<in> set env"
proof -
  obtain g where g: "graphFromTemplates [a_template, b_csv] = Inr g"
    and g_eq: "g = projr (graphFromTemplates [a_template, b_csv])" by (rule ab_graph_built)
  have "(case ab_run (hy_start (projr (graphFromTemplates [a_template, b_csv]))) [''b''] of
      None \<Rightarrow> False | Some s \<Rightarrow> map fst (hy_waiting s) = [''a''])"
    by code_simp
  then obtain s where s: "ab_run (hy_start g) [''b''] = Some s" and ws: "map fst (hy_waiting s) = [''a'']"
    by (auto simp: g_eq split: option.splits)
  from ws obtain env where env: "(''a'', env) \<in> set (hy_waiting s)" by auto
  have "(hy_step (\<lambda>_. True) [])\<^sup>*\<^sup>* (hy_start g) s"
    using ab_run_steps[OF s] by (rule relpowp_imp_rtranclp)
  note deps = hydration_dependencies_first[OF ab_distinct g this]
  have "children_of (projr (graphFromTemplates [a_template, b_csv])) ''a'' = [''b'']" by code_simp
  then have "''b'' \<in> set (children_of g ''a'')" by (simp add: g_eq)
  with bspec[OF conjunct2[OF deps] env] obtain t vs
    where "t \<in> set [a_template, b_csv]" "t_id t = ''b''" "t\<lparr>t_values := vs\<rparr> \<in> set env"
    unfolding prod.case by blast
  moreover from this have "t = b_csv" by (auto simp: a_template_def)
  ultimately show ?thesis using s env g_eq by blast
qed

theorem hydration_complete_witness:
  "\<exists>s us. ab_run (hy_start (projr (graphFromTemplates [a_template, b_csv]))) [''b'', ''a''] = Some s \<and>
     hydrated_templates s = map Some us"
proof -
  obtain g where g: "graphFromTemplates [a_template, b_csv] = Inr g"
    and g_eq: "g = projr (graphFromTemplates [a_template, b_csv])" by (rule ab_graph_built)
  have "(case ab_run (hy_start (projr (graphFromTemplates [a_template, b_csv]))) [''b'', ''a''] of
      None \<Rightarrow> False | Some s \<Rightarrow> hy_waiting s = [] \<and> hy_error s = None)"
    by code_simp
  then obtain s where s: "ab_run (hy_start g) [''b'', ''a''] = Some s" and w: "hy_waiting s = []" "hy_error s = None"
    by (auto simp: g_eq split: option.splits)
  have "(hy_step (\<lambda>_. True) [])\<^sup>*\<^sup>* (hy_start g) s"
    using ab_run_steps[OF s] by (rule relpowp_imp_rtranclp)
  from hydration_complete[OF ab_distinct g this w] s g_eq show ?thesis by blast
qed

theorem hydration_ends_witness:
  "\<exists>s. ab_run (hy_start (projr (graphFromTemplates [a_template, b_csv]))) [''b''] = Some s \<and>
     1 \<le> length (obj_keys (projr (graphFromTemplates [a_template, b_csv])))"
proof -
  obtain g where g: "graphFromTemplates [a_template, b_csv] = Inr g"
    and g_eq: "g = projr (graphFromTemplates [a_template, b_csv])" by (rule ab_graph_built)
  have "ab_run (hy_start (projr (graphFromTemplates [a_template, b_csv]))) [''b''] \<noteq> None" by code_simp
  then obtain s where s: "ab_run (hy_start g) [''b''] = Some s" by (auto simp: g_eq)
  from hydration_ends[OF ab_distinct g ab_run_steps[OF s]] s g_eq show ?thesis by auto
qed

end
