(* ===== verification/Store_Prelude.thy ===== *)
theory Store_Prelude
  imports Js_Prelude
begin

text \<open>
  What the redux stores share: an HTTP answer is an error with its status or a value; an asynchronous
  action creator is the list of the actions it dispatches, given the answers of its calls in
  order; a store runs a list of actions. A store that keeps a list of entries with an id
  is read as the map from ids to entries. The interface \<open>invariant_steps\<close> lifts what one step keeps to
  runs of any length, and \<open>functional_refinement\<close>, which extends it, the agreement of one action with the map.
\<close>

section \<open>Calls\<close>

datatype http_error = Http_Error int "string option"
  \<comment> \<open>the status, and the message of the answer's data\<close>

type_synonym 'a answer = "http_error + 'a"

definition answer_ok :: "'a answer \<Rightarrow> bool" where
  "answer_ok a = (case a of Inl _ \<Rightarrow> False | Inr _ \<Rightarrow> True)"

section \<open>Runs of a store\<close>

definition run_store :: "('s \<Rightarrow> 'a \<Rightarrow> 's) \<Rightarrow> 's \<Rightarrow> 'a list \<Rightarrow> 's" where
  "run_store step s as = foldl step s as"

primrec run_ok :: "('s \<Rightarrow> 'a \<Rightarrow> bool) \<Rightarrow> ('s \<Rightarrow> 'a \<Rightarrow> 's) \<Rightarrow> 's \<Rightarrow> 'a list \<Rightarrow> bool" where
  \<comment> \<open>every action of the run may be dispatched in the state it meets\<close>
  "run_ok ok step s [] = True"
| "run_ok ok step s (a # as) = (ok s a \<and> run_ok ok step (step s a) as)"

lemma run_store_simps [simp]:
  "run_store step s [] = s"
  "run_store step s (a # as) = run_store step (step s a) as"
  by (simp_all add: run_store_def)

lemma run_store_append: "run_store step s (as @ bs) = run_store step (run_store step s as) bs"
  by (simp add: run_store_def)

lemma run_ok_True [simp]: "run_ok (\<lambda>_ _. True) step s as"
  by (induction as arbitrary: s) simp_all

text \<open>What every step keeps, every run keeps.\<close>

locale invariant_steps =
  fixes step :: "'s \<Rightarrow> 'a \<Rightarrow> 's" and inv :: "'s \<Rightarrow> bool" and ok :: "'s \<Rightarrow> 'a \<Rightarrow> bool"
  assumes keeps_inv: "inv s \<Longrightarrow> ok s a \<Longrightarrow> inv (step s a)"
begin

lemma run_inv: "inv s \<Longrightarrow> run_ok ok step s as \<Longrightarrow> inv (run_store step s as)"
  by (induction as arbitrary: s) (auto intro: keeps_inv)

lemma run_inv_from: "st = run_store step s as \<Longrightarrow> inv s \<Longrightarrow> run_ok ok step s as \<Longrightarrow> inv st"
  by (simp add: run_inv)

end

locale functional_refinement = invariant_steps step inv ok
  for step :: "'s \<Rightarrow> 'a \<Rightarrow> 's" and inv :: "'s \<Rightarrow> bool" and ok :: "'s \<Rightarrow> 'a \<Rightarrow> bool" +
  fixes spec :: "'t \<Rightarrow> 'a \<Rightarrow> 't" and abs :: "'s \<Rightarrow> 't"
  assumes refines: "inv s \<Longrightarrow> ok s a \<Longrightarrow> abs (step s a) = spec (abs s) a"
begin

lemma run_refines: "inv s \<Longrightarrow> run_ok ok step s as \<Longrightarrow> abs (run_store step s as) = run_store spec (abs s) as"
proof (induction as arbitrary: s)
  case (Cons a as)
  then show ?case using keeps_inv[of s a] refines[of s a] by simp
qed simp

end

section \<open>Lists of entries with an id\<close>

definition entries_map :: "('a \<Rightarrow> 'k) \<Rightarrow> 'a list \<Rightarrow> 'k \<Rightarrow> 'a option" where
  "entries_map key xs k = List.find (\<lambda>x. key x = k) xs"

lemma entries_map_Nil [simp]: "entries_map key [] k = None"
  by (simp add: entries_map_def)

lemma entries_map_Cons: "entries_map key (x # xs) k = (if key x = k then Some x else entries_map key xs k)"
  by (simp add: entries_map_def)

lemma entries_map_None: "entries_map key xs k = None \<longleftrightarrow> k \<notin> key ` set xs"
  by (auto simp: entries_map_def find_None)

lemma entries_map_Some: "entries_map key xs k = Some x \<Longrightarrow> x \<in> set xs \<and> key x = k"
  unfolding entries_map_def by (rule find_Some)

lemma entries_map_mem: "distinct (map key xs) \<Longrightarrow> entries_map key xs k = Some x \<longleftrightarrow> x \<in> set xs \<and> key x = k"
  by (induction xs) (auto simp: entries_map_Cons)

lemma entries_map_append:
  "entries_map key (xs @ ys) k = (case entries_map key xs k of None \<Rightarrow> entries_map key ys k | Some x \<Rightarrow> Some x)"
  by (induction xs) (auto simp: entries_map_Cons)

lemma entries_map_snoc_fresh:
  "key x \<notin> key ` set xs \<Longrightarrow> entries_map key (xs @ [x]) = (entries_map key xs)(key x \<mapsto> x)"
  by (induction xs) (auto simp: entries_map_Cons fun_eq_iff)

lemma entries_map_Cons_map: "entries_map key (x # xs) = (entries_map key xs)(key x \<mapsto> x)"
  by (rule ext) (auto simp: entries_map_Cons)

lemma entries_map_remove: "entries_map key (filter (\<lambda>x. key x \<noteq> k) xs) = (entries_map key xs)(k := None)"
  by (rule ext) (induction xs; auto simp: entries_map_Cons)

lemma entries_map_map:
  "(\<And>x. key (f x) = key x) \<Longrightarrow> entries_map key (map f xs) k = map_option f (entries_map key xs k)"
  by (induction xs) (auto simp: entries_map_Cons)

lemma entries_map_replace:
  "entries_map key (map (\<lambda>x. if key x = key y then y else x) xs) =
     (if key y \<in> key ` set xs then (entries_map key xs)(key y \<mapsto> y) else entries_map key xs)"
  by (rule ext) (induction xs; auto simp: entries_map_Cons)

lemma keys_replace: "map key (map (\<lambda>x. if key x = key y then y else x) xs) = map key xs"
  by simp

lemma distinct_remove: "distinct (map key xs) \<Longrightarrow> distinct (map key (filter P xs))"
  by (rule distinct_map_filter)

end
