(* ===== verification/Temp_Editor.thy ===== *)
theory Temp_Editor
  imports Temp_Graph Store_Prelude
begin

text \<open>
  Editing the template variables of a dashboard: the editor of one variable
  (\<open>ui/src/tempVars/components/TemplateVariableEditor.tsx\<close>) with the builders of variables whose values are written down
  (\<open>CSVTemplateBuilder.tsx\<close>, \<open>MapTemplateBuilder.tsx\<close>, \<open>TextTemplateBuilder.tsx\<close>), the defaults of
  \<open>ui/src/tempVars/constants/index.ts\<close>, and the bar that saves the list of variables (\<open>TemplateControlBar.tsx\<close>). The parser of
  comma separated text is a parameter, and so are the ids \<open>uuid.v4()\<close> makes.
\<close>

section \<open>The defaults\<close>

definition RESERVED_TEMPLATE_NAMES :: "string list" where
  "RESERVED_TEMPLATE_NAMES = ['':dashboardTime:'', '':upperDashboardTime:'', '':interval:'', '':lower:'', '':upper:'', '':zoomedLower:'', '':zoomedUpper:'']"

definition no_query :: template_query where
  "no_query = \<lparr>tq_db = None, tq_rp = None, tq_measurement = None, tq_tagKey = None, tq_fieldKey = None, tq_influxql = None\<rparr>"

fun TEMPLATE_VARIABLE_QUERIES :: "template_type \<Rightarrow> string option" where
  "TEMPLATE_VARIABLE_QUERIES TDatabases = Some ''SHOW DATABASES''"
| "TEMPLATE_VARIABLE_QUERIES TMeasurements = Some ''SHOW MEASUREMENTS ON :database:''"
| "TEMPLATE_VARIABLE_QUERIES TFieldKeys = Some ''SHOW FIELD KEYS ON :database: FROM :measurement:''"
| "TEMPLATE_VARIABLE_QUERIES TTagKeys = Some ''SHOW TAG KEYS ON :database: FROM :measurement:''"
| "TEMPLATE_VARIABLE_QUERIES TTagValues = Some ''SHOW TAG VALUES ON :database: FROM :measurement: WITH KEY=:tagKey:''"
| "TEMPLATE_VARIABLE_QUERIES _ = None"

definition default_template :: "string \<Rightarrow> template_type \<Rightarrow> template" where
  \<comment> \<open>what most of the defaults share\<close>
  "default_template uid ty = \<lparr>t_id = uid, t_tempVar = [], t_values = [], t_type = ty, t_label = [],
     t_query = Some (no_query\<lparr>tq_influxql := TEMPLATE_VARIABLE_QUERIES ty\<rparr>)\<rparr>"

fun DEFAULT_TEMPLATES :: "template_type \<Rightarrow> string \<Rightarrow> template option" where
  "DEFAULT_TEMPLATES TDatabases uid = Some ((default_template uid TDatabases)\<lparr>t_values :=
     [\<lparr>tv_value = ''_internal'', tv_type = VDatabase, tv_selected = True, tv_localSelected = True, tv_key = None\<rparr>]\<rparr>)"
| "DEFAULT_TEMPLATES TMeasurements uid = Some ((default_template uid TMeasurements)\<lparr>t_query :=
     Some (no_query\<lparr>tq_influxql := TEMPLATE_VARIABLE_QUERIES TMeasurements, tq_db := Some []\<rparr>)\<rparr>)"
| "DEFAULT_TEMPLATES TCSV uid = Some (default_template uid TCSV)"
| "DEFAULT_TEMPLATES TMap uid = Some (default_template uid TMap)"
| "DEFAULT_TEMPLATES TTagKeys uid = Some (default_template uid TTagKeys)"
| "DEFAULT_TEMPLATES TFieldKeys uid = Some (default_template uid TFieldKeys)"
| "DEFAULT_TEMPLATES TTagValues uid = Some (default_template uid TTagValues)"
| "DEFAULT_TEMPLATES TMetaQuery uid = Some ((default_template uid TMetaQuery)\<lparr>t_tempVar := '':my-meta-query:'',
     t_query := Some (no_query\<lparr>tq_influxql := Some []\<rparr>)\<rparr>)"
| "DEFAULT_TEMPLATES TText uid = Some ((default_template uid TText)\<lparr>t_tempVar := '':my-text:'',
     t_values := [\<lparr>tv_value = [], tv_type = VConstant, tv_selected = False, tv_localSelected = True, tv_key = None\<rparr>], t_query := None\<rparr>)"
| "DEFAULT_TEMPLATES _ uid = None"

section \<open>The editor\<close>

record temp_editor =
  te_nextTemplate :: template
  te_isNew :: bool
  te_savingStatus :: remote_data_state
  te_deletingStatus :: remote_data_state

definition open_editor :: "string \<Rightarrow> template option \<Rightarrow> temp_editor" where
  "open_editor uid t =
     \<lparr>te_nextTemplate = (case t of Some t \<Rightarrow> t | None \<Rightarrow> the (DEFAULT_TEMPLATES TDatabases uid)), te_isNew = (t = None),
      te_savingStatus = NotStarted, te_deletingStatus = NotStarted\<rparr>"

definition handleUpdateSelectedTemplateValue :: "template_value \<Rightarrow> temp_editor \<Rightarrow> temp_editor" where
  "handleUpdateSelectedTemplateValue selected st =
     st\<lparr>te_nextTemplate := (te_nextTemplate st)\<lparr>t_values := map (mark_selected (tv_value selected)) (t_values (te_nextTemplate st))\<rparr>\<rparr>"

definition handleUpdateTemplate :: "template \<Rightarrow> temp_editor \<Rightarrow> temp_editor" where
  "handleUpdateTemplate nextNextTemplate st =
     st\<lparr>te_nextTemplate := reconcileSelectedAndLocalSelectedValues (te_nextTemplate st) nextNextTemplate\<rparr>"

definition handleChooseType :: "template_type \<Rightarrow> string \<Rightarrow> temp_editor \<Rightarrow> temp_editor result" where
  \<comment> \<open>a type without a default throws\<close>
  "handleChooseType ty uid st =
     map_res (\<lambda>d. st\<lparr>te_nextTemplate := d\<lparr>t_id := t_id (te_nextTemplate st), t_tempVar := t_tempVar (te_nextTemplate st)\<rparr>\<rparr>)
       (deref (DEFAULT_TEMPLATES ty uid))"

definition handleChangeName :: "string \<Rightarrow> temp_editor \<Rightarrow> temp_editor" where
  "handleChangeName val st = st\<lparr>te_nextTemplate := (te_nextTemplate st)\<lparr>t_tempVar := val\<rparr>\<rparr>"

definition formatName :: "temp_editor \<Rightarrow> temp_editor" where
  "formatName st =
     (let tempVar = formatTempVar (t_tempVar (te_nextTemplate st))
      in st\<lparr>te_nextTemplate := (te_nextTemplate st)\<lparr>t_tempVar := (if tempVar = ''::'' then [] else tempVar)\<rparr>\<rparr>)"

definition canSave :: "temp_editor \<Rightarrow> bool" where
  "canSave st =
     (let t = te_nextTemplate st
      in t_tempVar t \<noteq> [] \<and> \<not> (t_type t = TCSV \<and> t_values t = []) \<and> formatTempVar (t_tempVar t) \<notin> set RESERVED_TEMPLATE_NAMES \<and>
         te_savingStatus st \<noteq> Loading)"

datatype save_request = CreateTemplate template | UpdateTemplate template

fun saved_template :: "save_request \<Rightarrow> template" where
  "saved_template (CreateTemplate t) = t"
| "saved_template (UpdateTemplate t) = t"

definition template_save :: "temp_editor \<Rightarrow> temp_editor \<times> save_request option" where
  \<comment> \<open>\<open>handleSave\<close>, with what the owner is asked to save; a failure only notifies\<close>
  "template_save st =
     (if \<not> canSave st then (st, None)
      else let nextTemplate = (te_nextTemplate st)\<lparr>t_tempVar := formatTempVar (t_tempVar (te_nextTemplate st))\<rparr>
           in (st\<lparr>te_nextTemplate := nextTemplate, te_savingStatus := Loading\<rparr>,
               Some (if te_isNew st then CreateTemplate (pickSelected nextTemplate) else UpdateTemplate nextTemplate)))"

definition template_delete :: "temp_editor \<Rightarrow> temp_editor" where
  "template_delete st = st\<lparr>te_deletingStatus := Loading\<rparr>"

section \<open>Values that are written down\<close>

definition uniq :: "'a list \<Rightarrow> 'a list" where
  "uniq xs = foldl set_add [] xs"

definition new_value :: "template_value_type \<Rightarrow> string \<Rightarrow> template_value" where
  "new_value ty v = \<lparr>tv_value = v, tv_type = ty, tv_selected = False, tv_localSelected = False, tv_key = None\<rparr>"

definition csv_text :: "template \<Rightarrow> string" where
  \<comment> \<open>the text the builder starts with\<close>
  "csv_text t = js_join '', '' (map tv_value (t_values t))"

definition getValuesFromString :: "(string \<Rightarrow> string list list) \<Rightarrow> string \<Rightarrow> template_value list" where
  "getValuesFromString papa templateValuesString =
     (let templateValues = filter (\<lambda>elt. elt \<noteq> []) (map trimAndRemoveQuotes (uniq (concat (papa templateValuesString))))
      in map (new_value VCSV) templateValues)"

definition csv_blur :: "(string \<Rightarrow> string list list) \<Rightarrow> string \<Rightarrow> temp_editor \<Rightarrow> temp_editor" where
  \<comment> \<open>\<open>handleBlur\<close> for the text of the builder, and \<open>handleUploadFile\<close> for that of a file\<close>
  "csv_blur papa s st = handleUpdateTemplate ((te_nextTemplate st)\<lparr>t_values := getValuesFromString papa s\<rparr>) st"

definition map_text :: "template \<Rightarrow> string" where
  \<comment> \<open>a missing key prints as undefined\<close>
  "map_text t = js_join [CHR 0x0A] (map (\<lambda>v. (case tv_key v of None \<Rightarrow> ''undefined'' | Some k \<Rightarrow> k) @ '', '' @ tv_value v) (t_values t))"

definition trim_newlines :: "string \<Rightarrow> string" where
  "trim_newlines s = rev (dropWhile (\<lambda>c. c = CHR 0x0A) (rev s))"

definition map_row_ok :: "string list \<Rightarrow> bool" where
  "map_row_ok arr \<longleftrightarrow> length arr = 2 \<or> length arr = 3 \<and> arr ! 2 = []"

definition map_row_step :: "string list \<times> template_value list \<Rightarrow> string list \<Rightarrow> string list \<times> template_value list" where
  "map_row_step = (\<lambda>(arrayOfKeys, vs) arr.
     if map_row_ok arr
     then (let key = trimAndRemoveQuotes (arr ! 0); val = trimAndRemoveQuotes (arr ! 1)
           in if key \<notin> set arrayOfKeys \<and> key \<noteq> [] then (arrayOfKeys @ [key], vs @ [(new_value VMap val)\<lparr>tv_key := Some key\<rparr>])
              else (arrayOfKeys, vs))
     else (arrayOfKeys, vs))"

definition constructValuesFromString :: "(string \<Rightarrow> string list list) \<Rightarrow> string \<Rightarrow> template_value list option" where
  \<comment> \<open>undefined when there is no data; a row that is not a pair notifies\<close>
  "constructValuesFromString papa templateValuesString =
     (let data = papa (trim_newlines templateValuesString)
      in if data = [] then None else Some (snd (foldl map_row_step ([], []) data)))"

definition map_blur :: "(string \<Rightarrow> string list list) \<Rightarrow> string \<Rightarrow> temp_editor \<Rightarrow> temp_editor result" where
  \<comment> \<open>a template without values makes the editor throw\<close>
  "map_blur papa s st =
     map_res (\<lambda>vs. handleUpdateTemplate ((te_nextTemplate st)\<lparr>t_values := vs\<rparr>) st) (deref (constructValuesFromString papa s))"

definition valid_csv_name :: "string \<Rightarrow> bool" where
  \<comment> \<open>the dot of the extension stands for any character but a line break\<close>
  "valid_csv_name fileName \<longleftrightarrow>
     (case rev fileName of v # s # c # d # _ \<Rightarrow> [c, s, v] = ''csv'' \<and> d \<noteq> CHR 0x0A \<and> d \<noteq> CHR 0x0D | _ \<Rightarrow> False)"

definition csv_upload :: "(string \<Rightarrow> string list list) \<Rightarrow> string \<Rightarrow> string \<Rightarrow> temp_editor \<Rightarrow> temp_editor" where
  \<comment> \<open>another file only notifies\<close>
  "csv_upload papa uploadContent fileName st = (if valid_csv_name fileName then csv_blur papa uploadContent st else st)"

definition map_upload :: "(string \<Rightarrow> string list list) \<Rightarrow> string \<Rightarrow> string \<Rightarrow> temp_editor \<Rightarrow> temp_editor result" where
  "map_upload papa uploadContent fileName st = (if valid_csv_name fileName then map_blur papa uploadContent st else Inr st)"

definition handleInputChange :: "string \<Rightarrow> temp_editor \<Rightarrow> temp_editor" where
  \<comment> \<open>of the builder of a text\<close>
  "handleInputChange newValue st =
     handleUpdateTemplate ((te_nextTemplate st)\<lparr>t_values :=
       [\<lparr>tv_value = newValue, tv_type = VConstant, tv_selected = True, tv_localSelected = True, tv_key = None\<rparr>]\<rparr>) st"

datatype editor_input =
    ChangeName string | FormatName | ChooseType template_type string | ChooseDefault template_value
  | UpdateValues template \<comment> \<open>a builder hands over a new version\<close>
  | CsvText string | MapText string | TextInput string | Save | Delete

definition editor_input_step :: "(string \<Rightarrow> string list list) \<Rightarrow> temp_editor \<Rightarrow> editor_input \<Rightarrow> temp_editor result" where
  "editor_input_step papa st e =
     (case e of
        ChangeName s \<Rightarrow> Inr (handleChangeName s st)
      | FormatName \<Rightarrow> Inr (formatName st)
      | ChooseType ty uid \<Rightarrow> handleChooseType ty uid st
      | ChooseDefault v \<Rightarrow> Inr (handleUpdateSelectedTemplateValue v st)
      | UpdateValues t \<Rightarrow> Inr (handleUpdateTemplate t st)
      | CsvText s \<Rightarrow> Inr (csv_blur papa s st)
      | MapText s \<Rightarrow> map_blur papa s st
      | TextInput s \<Rightarrow> Inr (handleInputChange s st)
      | Save \<Rightarrow> Inr (fst (template_save st))
      | Delete \<Rightarrow> Inr (template_delete st))"

section \<open>The bar\<close>

definition handleCreateTemplate :: "template list \<Rightarrow> template \<Rightarrow> template list result" where
  \<comment> \<open>the templates handed on to be saved\<close>
  "handleCreateTemplate templates t = (let newTemplates = templates @ [t] in map_res (\<lambda>_. newTemplates) (graphFromTemplates newTemplates))"

definition handleUpdateTemplate_bar :: "template list \<Rightarrow> template \<Rightarrow> template list result" where
  "handleUpdateTemplate_bar templates t =
     (let newTemplates = map (\<lambda>u. if t_id u = t_id t then t else u) templates in map_res (\<lambda>_. newTemplates) (graphFromTemplates newTemplates))"

definition handleDeleteTemplate :: "template list \<Rightarrow> template \<Rightarrow> template list" where
  "handleDeleteTemplate templates t = filter (\<lambda>u. t_id u \<noteq> t_id t) templates"

datatype bar_event = SaveRequest save_request bool | DeleteRequest template bool
  \<comment> \<open>with whether the server accepts the new list\<close>

definition bar_step :: "template list \<Rightarrow> bar_event \<Rightarrow> template list" where
  "bar_step templates e =
     (let (new, accepted) =
        (case e of
           SaveRequest (CreateTemplate t) ok \<Rightarrow> (handleCreateTemplate templates t, ok)
         | SaveRequest (UpdateTemplate t) ok \<Rightarrow> (handleUpdateTemplate_bar templates t, ok)
         | DeleteRequest t ok \<Rightarrow> (Inr (handleDeleteTemplate templates t), ok))
      in case new of Inl _ \<Rightarrow> templates | Inr ts \<Rightarrow> if accepted then ts else templates)"


section \<open>The list of variables\<close>

definition mentions :: "template list \<Rightarrow> (string \<times> string) set" where
  \<comment> \<open>which variable mentions which, by their ids\<close>
  "mentions ts = {(t_id t, t_id u) | t u ns. t \<in> set ts \<and> u \<in> set ts \<and> getDependencyNames t = Inr ns \<and> t_tempVar u \<in> set ns}"

lemma linked_edges:
  assumes "distinct (map t_id ts)" and "link_templates (unlinked_graph ts) ts = Inr g"
  shows "edges g \<subseteq> mentions ts"
proof
  fix p
  assume "p \<in> edges g"
  then obtain i c where p: "p = (i, c)" and c: "c \<in> set (children_of g i)" by (cases p) simp
  have get: "obj_get g i = map_option (\<lambda>n. n\<lparr>
      n_children := n_children n @ concat (map (dep_ids (unlinked_graph ts)) (filter (\<lambda>t. t_id t = i) ts)),
      n_parents := n_parents n @ map t_id (filter (\<lambda>t. i \<in> set (dep_ids (unlinked_graph ts) t)) ts)\<rparr>) (obj_get (unlinked_graph ts) i)"
    using link_templates_get[OF assms(2) unlinked_graph_ok] by blast
  have "i \<in> t_id ` set ts"
    using c get unlinked_graph_keys[of ts] by (auto simp: children_of_def obj_get_None_iff[symmetric] split: option.splits)
  then obtain t where t: "t \<in> set ts" "t_id t = i" by blast
  have "children_of g i = dep_ids (unlinked_graph ts) t"
    using get by (simp add: children_of_def t(2)[symmetric] unlinked_graph_get[OF assms(1) t(1)] filter_same_id[OF assms(1) t(1)] fresh_node_def)
  with c obtain ns where "getDependencyNames t = Inr ns" "c \<in> set (named_nodes (unlinked_graph ts) ns)"
    by (auto simp: dep_ids_def split: sum.splits)
  then show "p \<in> mentions ts"
    using t p set_named_nodes_unlinked[OF assms(1), of ns] unfolding mentions_def by blast
qed

lemma link_templates_ok: "\<forall>t\<in>set us. \<exists>ns. getDependencyNames t = Inr ns \<Longrightarrow> \<exists>g'. link_templates g us = Inr g'"
  by (induction us arbitrary: g) (auto simp: link_template_def bind_r_Inr_iff)

lemma graph_exists:
  assumes "distinct (map t_id ts)"
  shows "(\<exists>g. graphFromTemplates ts = Inr g) \<longleftrightarrow> (\<forall>t\<in>set ts. \<exists>ns. getDependencyNames t = Inr ns) \<and> acyclic (mentions ts)"
proof
  assume "\<exists>g. graphFromTemplates ts = Inr g"
  then obtain g where g: "graphFromTemplates ts = Inr g" by blast
  note spec = graphFromTemplates_spec[OF assms g]
  have "mentions ts \<subseteq> edges g"
  proof
    fix p
    assume "p \<in> mentions ts"
    then obtain t u ns where p: "p = (t_id t, t_id u)" "t \<in> set ts" "u \<in> set ts" "getDependencyNames t = Inr ns" "t_tempVar u \<in> set ns"
      unfolding mentions_def by blast
    obtain n ns' where "obj_get g (t_id t) = Some n" "getDependencyNames t = Inr ns'"
      "set (n_children n) = t_id ` {u \<in> set ts. t_tempVar u \<in> set ns'}"
      using spec p(2) by meson
    then show "p \<in> edges g" using p by (auto simp: children_of_def)
  qed
  then show "(\<forall>t\<in>set ts. \<exists>ns. getDependencyNames t = Inr ns) \<and> acyclic (mentions ts)"
    using spec acyclic_subset by blast
next
  assume ok: "(\<forall>t\<in>set ts. \<exists>ns. getDependencyNames t = Inr ns) \<and> acyclic (mentions ts)"
  then obtain g where g: "link_templates (unlinked_graph ts) ts = Inr g" using link_templates_ok by blast
  then have "verifyAcyclic g = Inr ()" using linked_edges[OF assms g] ok acyclic_subset verifyAcyclic_iff by blast
  then show "\<exists>g. graphFromTemplates ts = Inr g" using g by (simp add: graphFromTemplates_def)
qed

definition templates_ok :: "template list \<Rightarrow> bool" where
  "templates_ok ts \<longleftrightarrow> distinct (map t_id ts) \<and> (\<exists>g. graphFromTemplates ts = Inr g)"

definition bar_event_ok :: "template list \<Rightarrow> bar_event \<Rightarrow> bool" where
  \<comment> \<open>the id of a new variable is new\<close>
  "bar_event_ok ts e = (case e of SaveRequest (CreateTemplate t) _ \<Rightarrow> t_id t \<notin> t_id ` set ts | _ \<Rightarrow> True)"

lemma replaced_ids: "map t_id (map (\<lambda>u. if t_id u = t_id t then t else u) ts) = map t_id ts"
  by simp

lemma bar_step_ok:
  assumes "templates_ok ts" and "bar_event_ok ts e"
  shows "templates_ok (bar_step ts e)"
proof (cases e)
  case (SaveRequest r accepted)
  then show ?thesis
  proof (cases r)
    case (CreateTemplate t)
    then show ?thesis using assms SaveRequest
      by (auto simp: templates_ok_def bar_step_def handleCreateTemplate_def bar_event_ok_def Let_def map_res_Inr_iff split: sum.splits)
  next
    case (UpdateTemplate t)
    have "templates_ok ts'" if "handleUpdateTemplate_bar ts t = Inr ts'" for ts'
    proof -
      have "ts' = map (\<lambda>u. if t_id u = t_id t then t else u) ts" "\<exists>g. graphFromTemplates ts' = Inr g"
        using that by (auto simp: handleUpdateTemplate_bar_def Let_def map_res_Inr_iff)
      then show ?thesis using assms(1) replaced_ids[of t ts] unfolding templates_ok_def by metis
    qed
    then show ?thesis using assms(1) SaveRequest UpdateTemplate by (auto simp: bar_step_def split: sum.splits)
  qed
next
  case (DeleteRequest t accepted)
  let ?ts = "handleDeleteTemplate ts t"
  have sub: "set ?ts \<subseteq> set ts" by (auto simp: handleDeleteTemplate_def)
  then have "mentions ?ts \<subseteq> mentions ts" unfolding mentions_def by blast
  moreover have d: "distinct (map t_id ?ts)" using assms(1) by (simp add: templates_ok_def handleDeleteTemplate_def distinct_map_filter)
  ultimately have "\<exists>g. graphFromTemplates ?ts = Inr g"
    using assms(1) graph_exists[of ts] graph_exists[OF d] sub acyclic_subset unfolding templates_ok_def by blast
  then show ?thesis using assms(1) DeleteRequest d by (simp add: bar_step_def templates_ok_def)
qed

interpretation bar: invariant_steps bar_step templates_ok bar_event_ok
  by unfold_locales (rule bar_step_ok)

text \<open>
  C31: The variables that are saved never depend on each other in a circle. However variables are created, changed and deleted, and whatever
  the server refuses, the ids of the list stay distinct, its dependency graph can be built, and no variable mentions itself
  through others.
\<close>

theorem saved_variables_acyclic:
  assumes "templates_ok ts" and "run_ok bar_event_ok bar_step ts es" and "ts' = run_store bar_step ts es"
  shows "distinct (map t_id ts') \<and> acyclic (mentions ts') \<and> (\<exists>g. graphFromTemplates ts' = Inr g \<and> set (topologicalSort g) = t_id ` set ts')"
proof -
  have ok: "templates_ok ts'" by (rule bar.run_inv_from[OF assms(3,1,2)])
  then have d: "distinct (map t_id ts')" and ex: "\<exists>g. graphFromTemplates ts' = Inr g" by (simp_all add: templates_ok_def)
  then obtain g where g: "graphFromTemplates ts' = Inr g" by blast
  have "closed_graph g" "acyclic (edges g)" "set (obj_keys g) = t_id ` set ts'" using graphFromTemplates_spec[OF d g] by simp_all
  then have "set (topologicalSort g) = t_id ` set ts'" using topologicalSort_spec[OF graphFromTemplates_acyclic[OF g]] by simp
  then show ?thesis using d ex g graph_exists[OF d] by blast
qed

definition mentioning_template :: "string \<Rightarrow> string \<Rightarrow> string \<Rightarrow> template" where
  "mentioning_template i nm q = \<lparr>t_id = i, t_tempVar = nm, t_values = [], t_type = TMetaQuery, t_label = [], t_query = Some (no_query\<lparr>tq_influxql := Some q\<rparr>)\<rparr>"

theorem saved_variables_acyclic_witness:
  "acyclic (mentions (run_store bar_step []
     [SaveRequest (CreateTemplate (mentioning_template ''1'' '':a:'' ''SHOW :b:'')) True,
      SaveRequest (CreateTemplate (mentioning_template ''2'' '':b:'' ''SHOW :a:'')) True]))" (is "acyclic (mentions (run_store _ _ ?es))")
proof -
  have "templates_ok []" by (simp add: templates_ok_def graph_exists mentions_def wf_acyclic)
  moreover have "run_ok bar_event_ok bar_step [] ?es" by (auto simp: bar_step_def handleCreateTemplate_def bar_event_ok_def eq_commute[of "Inr _" "map_res _ _"] map_res_Inr_iff Let_def mentioning_template_def split: sum.splits)
  ultimately show ?thesis using saved_variables_acyclic[of "[]" ?es, OF _ _ refl] by blast
qed

section \<open>Saving\<close>

definition editor_next :: "(string \<Rightarrow> string list list) \<Rightarrow> temp_editor \<Rightarrow> editor_input \<Rightarrow> temp_editor" where
  \<comment> \<open>a handler that throws leaves the state\<close>
  "editor_next papa st e = (case editor_input_step papa st e of Inl _ \<Rightarrow> st | Inr st' \<Rightarrow> st')"

primrec save_requests :: "(string \<Rightarrow> string list list) \<Rightarrow> temp_editor \<Rightarrow> editor_input list \<Rightarrow> save_request list" where
  "save_requests papa st [] = []"
| "save_requests papa st (e # es) =
     (case (if e = Save then snd (template_save st) else None) of None \<Rightarrow> [] | Some r \<Rightarrow> [r]) @ save_requests papa (editor_next papa st e) es"

definition request_ok :: "save_request \<Rightarrow> bool" where
  \<comment> \<open>the name is in its normal form and not reserved, and a CSV variable has values\<close>
  "request_ok r = (let t = saved_template r
     in formatTempVar (t_tempVar t) = t_tempVar t \<and> t_tempVar t \<notin> set RESERVED_TEMPLATE_NAMES \<and> \<not> (t_type t = TCSV \<and> t_values t = []))"

lemma editor_next_saving: "te_savingStatus st = Loading \<Longrightarrow> te_savingStatus (editor_next papa st e) = Loading"
  by (auto simp: editor_next_def editor_input_step_def handleChangeName_def formatName_def handleChooseType_def map_res_Inr_iff
      handleUpdateSelectedTemplateValue_def handleUpdateTemplate_def csv_blur_def map_blur_def handleInputChange_def template_save_def
      template_delete_def canSave_def Let_def split: editor_input.splits sum.splits)

lemma saving_requests_nothing: "te_savingStatus st = Loading \<Longrightarrow> save_requests papa st es = []"
proof (induction es arbitrary: st)
  case (Cons e es)
  then show ?case using editor_next_saving[OF Cons.prems, of papa e] by (simp add: template_save_def canSave_def)
qed simp

lemma makeLocalSelected_fields:
  "t_tempVar (makeLocalSelected t v) = t_tempVar t" "t_type (makeLocalSelected t v) = t_type t" "t_values (makeLocalSelected t v) = [] \<longleftrightarrow> t_values t = []"
  by (simp_all add: makeLocalSelected_def Let_def)

lemma template_save_request: "template_save st = (st', Some r) \<Longrightarrow> te_savingStatus st' = Loading \<and> request_ok r"
  by (auto simp: template_save_def canSave_def request_ok_def pickSelected_def makeLocalSelected_fields formatTempVar_idem Let_def split: if_splits)


text \<open>A save that failed leaves the editor saving, so it can not be tried again.\<close>

lemma failed_save_is_final:
  assumes "canSave st"
  shows "\<not> canSave (run_store (editor_next papa) st (Save # es))"
proof -
  have "te_savingStatus (editor_next papa st Save) = Loading"
    using assms by (simp add: editor_next_def editor_input_step_def template_save_def Let_def)
  then have "te_savingStatus (run_store (editor_next papa) (editor_next papa st Save) es) = Loading"
    by (induction es arbitrary: st rule: rev_induct) (simp_all add: run_store_append editor_next_saving)
  then show ?thesis by (simp add: canSave_def)
qed

text \<open>A name of blanks is not empty, and is saved as two colons.\<close>

lemma blank_name_saved:
  "map (t_tempVar \<circ> saved_template) (save_requests papa (open_editor ''1'' None) [ChangeName ''  '', Save]) = [''::'']"
  by (simp add: editor_next_def editor_input_step_def handleChangeName_def open_editor_def template_save_def canSave_def Let_def
      RESERVED_TEMPLATE_NAMES_def formatTempVar_eq default_template_def pickSelected_def makeLocalSelected_fields name_char_def is_space_def)

section \<open>Text and values\<close>

text \<open>Values are told apart before they are trimmed, so the same value can be there twice.\<close>

lemma csv_values_repeat: "map tv_value (getValuesFromString (\<lambda>s. [js_split s '','']) ''a, b, a'') = [''a'', ''b'', ''a'']"
  by code_simp

text \<open>The dot of the extension is not quoted.\<close>

lemma other_file_accepted: "csv_upload papa uploadContent ''notacsv'' st = csv_blur papa uploadContent st"
  by (simp add: csv_upload_def valid_csv_name_def)

text \<open>Without text there are no values, and the editor throws.\<close>

lemma empty_map_throws: "map_blur (\<lambda>s. if s = [] then [] else map (\<lambda>l. js_split l '','') (js_split s [CHR 0x0A])) [] st = Inl TypeError"
  by (simp add: map_blur_def constructValuesFromString_def trim_newlines_def)

definition unmarked :: "template_value \<Rightarrow> template_value" where
  "unmarked v = v\<lparr>tv_selected := False, tv_localSelected := False\<rparr>"

lemma unmarked_fields [simp]: "tv_value (unmarked v) = tv_value v"
  by (simp add: unmarked_def)

lemma one_marked:
  assumes "length (filter P vs) = 1" and "distinct (map tv_value vs)"
  obtains v where "List.find P vs = Some v" and "v \<in> set vs" and "\<And>x. x \<in> set vs \<Longrightarrow> P x \<longleftrightarrow> tv_value x = tv_value v"
proof -
  obtain v where v: "filter P vs = [v]" using assms(1) by (metis One_nat_def length_0_conv length_Suc_conv)
  then have "v \<in> set vs" "P v" by (auto simp: filter_eq_Cons_iff)
  moreover have "List.find P vs = Some v"
    using v by (induction vs) (auto split: if_splits)
  moreover have "P x \<longleftrightarrow> tv_value x = tv_value v" if "x \<in> set vs" for x
  proof
    assume "P x"
    then have "x \<in> set (filter P vs)" using that by simp
    then show "tv_value x = tv_value v" using v by simp
  next
    assume "tv_value x = tv_value v"
    then have "x = v" using assms(2) that \<open>v \<in> set vs\<close> by (meson distinct_map inj_onD)
    then show "P x" using \<open>P v\<close> by simp
  qed
  ultimately show thesis using that by blast
qed

lemma find_map_key: "(\<And>x. key (f x) = key x) \<Longrightarrow> List.find (\<lambda>x. key x = k) (map f xs) = map_option f (List.find (\<lambda>x. key x = k) xs)"
  by (induction xs) auto

lemma find_value: "distinct (map tv_value vs) \<Longrightarrow> v \<in> set vs \<Longrightarrow> List.find (\<lambda>x. tv_value x = tv_value v) vs = Some v"
  by (induction vs) auto

text \<open>Carrying the choices over to the same values without marks gives the values back.\<close>

lemma reconcile_unmarked:
  assumes "distinct (map tv_value (t_values t))" and "one_choice (t_values t)"
  shows "reconcileSelectedAndLocalSelectedValues t (t\<lparr>t_values := map unmarked (t_values t)\<rparr>) = t"
proof -
  obtain s where s: "List.find tv_selected (t_values t) = Some s" "s \<in> set (t_values t)"
    "\<And>x. x \<in> set (t_values t) \<Longrightarrow> tv_selected x \<longleftrightarrow> tv_value x = tv_value s"
    using one_marked[of tv_selected "t_values t"] assms by (auto simp: one_choice_def)
  obtain l where l: "List.find tv_localSelected (t_values t) = Some l" "l \<in> set (t_values t)"
    "\<And>x. x \<in> set (t_values t) \<Longrightarrow> tv_localSelected x \<longleftrightarrow> tv_value x = tv_value l"
    using one_marked[of tv_localSelected "t_values t"] assms by (auto simp: one_choice_def)
  let ?u = "map unmarked (t_values t)"
  have f1: "List.find (\<lambda>x. tv_value x = tv_value s) ?u = Some (unmarked s)"
    using find_value[OF assms(1) s(2)] by (simp add: find_map_key)
  have f2: "List.find (\<lambda>x. tv_value x = tv_value l) (map (mark_selected (tv_value s)) ?u) = Some (mark_selected (tv_value s) (unmarked l))"
    using find_value[OF assms(1) l(2)] by (simp add: find_map_key)
  have same: "mark_localSelected (tv_value l) (mark_selected (tv_value s) (unmarked v)) = v" if "v \<in> set (t_values t)" for v
    using s(3)[OF that] l(3)[OF that] by (auto simp: mark_localSelected_def mark_selected_def unmarked_def)
  have "map (mark_localSelected (tv_value l) \<circ> (mark_selected (tv_value s) \<circ> unmarked)) (t_values t) = t_values t"
    by (rule map_idI) (simp add: same)
  then show ?thesis
    using f1 f2 s(1) l(1)
    by (simp add: reconcileSelectedAndLocalSelectedValues_def makeSelected_def makeLocalSelected_def value_or_empty_def Let_def)
qed

definition text_char :: "char \<Rightarrow> bool" where
  \<comment> \<open>a character without a meaning of its own in the text\<close>
  "text_char c \<longleftrightarrow> c \<notin> {CHR '','', CHR 0x22, CHR 0x0A, CHR 0x0D, CHR 0x09, CHR ''|'', CHR '';''}"

definition text_line :: "string \<Rightarrow> bool" where
  "text_line s \<longleftrightarrow> s \<noteq> [] \<and> (\<forall>c\<in>set s. text_char c \<or> c = CHR '','')"

definition plain_text :: "string \<Rightarrow> bool" where
  "plain_text s \<longleftrightarrow> js_trim s = s \<and> (\<forall>c\<in>set s. text_char c)"

lemma js_trim_space: "is_space c \<Longrightarrow> js_trim (c # s) = js_trim s"
  by (simp add: js_trim_def)

lemma trim_plain:
  assumes "plain_text s"
  shows "trimAndRemoveQuotes s = s" and "trimAndRemoveQuotes (CHR '' '' # s) = s"
proof -
  have "s \<noteq> [] \<Longrightarrow> last s \<in> set s" by simp
  then have q: "s \<noteq> [] \<Longrightarrow> last s \<noteq> CHR 0x22" "s \<noteq> [] \<Longrightarrow> hd s \<noteq> CHR 0x22"
    using assms by (auto simp: plain_text_def text_char_def dest: bspec[of _ _ "hd s"])
  have t: "js_trim s = s" "js_trim (CHR '' '' # s) = s" using assms js_trim_space[of "CHR '' ''" s] by (simp_all add: plain_text_def is_space_def)
  show "trimAndRemoveQuotes s = s" "trimAndRemoveQuotes (CHR '' '' # s) = s"
    using q unfolding trimAndRemoveQuotes_def t by (auto simp: Let_def split: list.splits)
qed

lemma js_join_char: "js_join sep ((c # a) # xs) = c # js_join sep (a # xs)"
  by (cases xs) simp_all

lemma js_join_comma_space: "js_join '', '' (x # xs) = js_join '','' (x # map (Cons (CHR '' '')) xs)"
  by (induction xs arbitrary: x) (simp_all add: js_join_char)

lemma set_js_join: "set (js_join sep xs) \<subseteq> set sep \<union> (\<Union>x\<in>set xs. set x)"
  by (induction sep xs rule: js_join.induct) auto

lemma set_add_new: "x \<notin> set acc \<Longrightarrow> set_add acc x = acc @ [x]"
  by (simp add: set_add_def)

lemma foldl_set_add: "distinct (acc @ xs) \<Longrightarrow> foldl set_add acc xs = acc @ xs"
  by (induction xs arbitrary: acc) (simp_all add: set_add_new)

lemma uniq_distinct: "distinct xs \<Longrightarrow> uniq xs = xs"
  by (simp add: uniq_def foldl_set_add)

text \<open>What the parser of comma separated text does with plain text.\<close>

definition papa_lines :: "(string \<Rightarrow> string list list) \<Rightarrow> bool" where
  "papa_lines papa \<longleftrightarrow> (\<forall>ls. ls \<noteq> [] \<and> list_all text_line ls \<longrightarrow> papa (js_join [CHR 0x0A] ls) = map (\<lambda>l. js_split l '','') ls)"

lemma papa_line: "papa_lines papa \<Longrightarrow> text_line l \<Longrightarrow> papa l = [js_split l '','']"
  unfolding papa_lines_def by (drule spec[of _ "[l]"]) simp

definition csv_template_ok :: "template \<Rightarrow> bool" where
  \<comment> \<open>as the builder leaves a variable whose values are plain text\<close>
  "csv_template_ok t \<longleftrightarrow> t_values t \<noteq> [] \<and> distinct (map tv_value (t_values t)) \<and> one_choice (t_values t) \<and>
     (\<forall>v\<in>set (t_values t). plain_text (tv_value v) \<and> tv_value v \<noteq> [] \<and> tv_type v = VCSV \<and> tv_key v = None)"

lemma csv_values_read:
  assumes "papa_lines papa" and "xs \<noteq> []" and "distinct xs" and "\<forall>x\<in>set xs. plain_text x \<and> x \<noteq> []"
  shows "getValuesFromString papa (js_join '', '' xs) = map (new_value VCSV) xs"
proof -
  obtain x ys where xs: "xs = x # ys" using assms(2) by (cases xs) simp_all
  let ?l = "x # map (Cons (CHR '' '')) ys"
  have j: "js_join '', '' xs = js_join '','' ?l" unfolding xs by (rule js_join_comma_space)
  have pl: "\<forall>y\<in>set ?l. \<forall>c\<in>set y. text_char c" using assms(4) by (auto simp: xs plain_text_def text_char_def)
  have "text_line (js_join '','' ?l)"
  proof -
    have "text_char c \<or> c = CHR '',''" if "c \<in> set (js_join '','' ?l)" for c
    proof -
      have "c \<in> set '','' \<or> (\<exists>y\<in>set ?l. c \<in> set y)" using subsetD[OF set_js_join that] by blast
      then show ?thesis using pl by (metis empty_iff empty_set insert_iff list.simps(15))
    qed
    moreover have "js_join '','' ?l \<noteq> []" using assms(4) by (cases ys) (auto simp: xs)
    ultimately show ?thesis by (simp add: text_line_def)
  qed
  moreover have "js_split (js_join '','' ?l) '','' = ?l" by (rule js_split_join_char) (use pl in \<open>auto simp: text_char_def\<close>)
  ultimately have "papa (js_join '', '' xs) = [?l]" using papa_line[OF assms(1)] j by simp
  moreover have tr: "map trimAndRemoveQuotes ?l = xs"
    using assms(4) trim_plain by (auto simp: xs intro!: map_idI)
  moreover have "distinct ?l" using assms(3) tr by (metis distinct_map)
  moreover have "filter (\<lambda>elt. elt \<noteq> []) xs = xs" using assms(4) by (simp add: filter_id_conv)
  ultimately show ?thesis by (simp only: getValuesFromString_def Let_def concat.simps append_Nil2 uniq_distinct)
qed

text \<open>
  The text that shows the values of a CSV variable reads back as these values: leaving the text box as it was found
  changes neither the values nor which of them is the default and which is chosen.
\<close>

theorem csv_text_untouched:
  assumes "papa_lines papa" and "csv_template_ok (te_nextTemplate st)"
  shows "csv_blur papa (csv_text (te_nextTemplate st)) st = st"
proof -
  let ?t = "te_nextTemplate st"
  have "getValuesFromString papa (csv_text ?t) = map (new_value VCSV) (map tv_value (t_values ?t))"
    unfolding csv_text_def by (rule csv_values_read[OF assms(1)]) (use assms(2) in \<open>auto simp: csv_template_ok_def\<close>)
  also have "\<dots> = map unmarked (t_values ?t)" using assms(2) by (auto simp: csv_template_ok_def new_value_def unmarked_def)
  finally show ?thesis using reconcile_unmarked[of ?t] assms(2) by (simp add: csv_blur_def handleUpdateTemplate_def csv_template_ok_def)
qed

definition papa_plain :: "string \<Rightarrow> string list list" where
  "papa_plain s = (if s = [] then [] else map (\<lambda>l. js_split l '','') (js_split s [CHR 0x0A]))"

lemma papa_plain_lines: "papa_lines papa_plain"
  unfolding papa_lines_def
proof (intro allI impI)
  fix ls :: "string list"
  assume ls: "ls \<noteq> [] \<and> list_all text_line ls"
  then have "\<forall>l\<in>set ls. CHR 0x0A \<notin> set l" by (auto simp: list_all_iff text_line_def text_char_def)
  then have "js_split (js_join [CHR 0x0A] ls) [CHR 0x0A] = ls" using ls by (simp add: js_split_join_char)
  moreover have "js_join [CHR 0x0A] ls \<noteq> []" using ls by (cases ls; cases "tl ls") (auto simp: text_line_def)
  ultimately show "papa_plain (js_join [CHR 0x0A] ls) = map (\<lambda>l. js_split l '','') ls" by (simp add: papa_plain_def)
qed

definition written_value :: "template_value_type \<Rightarrow> string option \<Rightarrow> string \<Rightarrow> bool \<Rightarrow> bool \<Rightarrow> template_value" where
  "written_value ty k v sel loc = \<lparr>tv_value = v, tv_type = ty, tv_selected = sel, tv_localSelected = loc, tv_key = k\<rparr>"

definition editor_with :: "template_type \<Rightarrow> template_value list \<Rightarrow> temp_editor" where
  "editor_with ty vs = open_editor ''1'' (Some ((default_template ''1'' ty)\<lparr>t_values := vs\<rparr>))"

theorem csv_text_untouched_witness:
  "csv_blur papa_plain ''eu, us west''
     (editor_with TCSV [written_value VCSV None ''eu'' True False, written_value VCSV None ''us west'' False True]) =
     editor_with TCSV [written_value VCSV None ''eu'' True False, written_value VCSV None ''us west'' False True]" (is "csv_blur _ _ ?st = _")
proof -
  have ok: "csv_template_ok (te_nextTemplate ?st)"
    by (simp add: editor_with_def open_editor_def written_value_def csv_template_ok_def default_template_def one_choice_def plain_text_def
        js_trim_def is_space_def text_char_def)
  have "csv_text (te_nextTemplate ?st) = ''eu, us west''" by (simp add: editor_with_def open_editor_def written_value_def csv_text_def default_template_def)
  then show ?thesis using csv_text_untouched[OF papa_plain_lines ok] by simp
qed

definition map_template_ok :: "template \<Rightarrow> bool" where
  \<comment> \<open>as the builder leaves a variable whose keys and values are plain text, each there once\<close>
  "map_template_ok t \<longleftrightarrow> t_values t \<noteq> [] \<and> distinct (map tv_value (t_values t)) \<and> distinct (map tv_key (t_values t)) \<and> one_choice (t_values t) \<and>
     (\<forall>v\<in>set (t_values t). plain_text (tv_value v) \<and> tv_type v = VMap \<and> (\<exists>k. tv_key v = Some k \<and> plain_text k \<and> k \<noteq> []))"

definition map_row :: "template_value \<Rightarrow> string list" where
  "map_row v = [the (tv_key v), CHR '' '' # tv_value v]"

lemma map_row_text:
  assumes "plain_text (tv_value v)" and "tv_key v = Some k" and "plain_text k" and "k \<noteq> []"
  shows "text_line (k @ '', '' @ tv_value v)" and "js_split (k @ '', '' @ tv_value v) '','' = map_row v"
proof -
  show "text_line (k @ '', '' @ tv_value v)" using assms by (auto simp: text_line_def plain_text_def text_char_def)
  have "CHR '','' \<notin> set k" "CHR '','' \<notin> set (CHR '' '' # tv_value v)" using assms by (auto simp: plain_text_def text_char_def)
  then show "js_split (k @ '', '' @ tv_value v) '','' = map_row v"
    using js_split_char_append[of "CHR '',''" k "CHR '' '' # tv_value v"] assms(2) by (simp add: map_row_def js_split_char_absent)
qed

lemma text_line_last: "text_line s \<Longrightarrow> s \<noteq> []" "text_line s \<Longrightarrow> last s \<noteq> CHR 0x0A"
proof -
  assume line: "text_line s"
  then show ne: "s \<noteq> []" by (simp add: text_line_def)
  show "last s \<noteq> CHR 0x0A" using line last_in_set[OF ne] unfolding text_line_def text_char_def by fastforce
qed

lemma last_js_join: "xs \<noteq> [] \<Longrightarrow> last xs \<noteq> [] \<Longrightarrow> js_join sep xs \<noteq> [] \<and> last (js_join sep xs) = last (last xs)"
  by (induction sep xs rule: js_join.induct) auto

lemma trim_newlines_same: "s \<noteq> [] \<Longrightarrow> last s \<noteq> CHR 0x0A \<Longrightarrow> trim_newlines s = s"
  by (induction s rule: rev_induct) (simp_all add: trim_newlines_def)

lemma map_rows_values:
  assumes "\<forall>v\<in>set vs. plain_text (tv_value v) \<and> tv_type v = VMap \<and> (\<exists>k. tv_key v = Some k \<and> plain_text k \<and> k \<noteq> [])"
    and "distinct (map tv_key vs)" and "\<forall>v\<in>set vs. the (tv_key v) \<notin> set ks"
  shows "foldl map_row_step (ks, acc) (map map_row vs) = (ks @ map (the \<circ> tv_key) vs, acc @ map unmarked vs)"
  using assms
proof (induction vs arbitrary: ks acc)
  case (Cons v vs)
  obtain k where k: "tv_key v = Some k" "plain_text k" "k \<noteq> []" "plain_text (tv_value v)" "tv_type v = VMap" using Cons.prems(1) by auto
  have "map_row_step (ks, acc) (map_row v) = (ks @ [k], acc @ [unmarked v])"
    using k Cons.prems(3) trim_plain[OF k(2)] trim_plain[OF k(4)]
    by (simp add: map_row_step_def map_row_def map_row_ok_def new_value_def unmarked_def)
  moreover have "\<forall>u\<in>set vs. the (tv_key u) \<notin> set (ks @ [k])"
    using Cons.prems k(1) by (force simp: image_iff)
  ultimately show ?case using Cons.IH[of "ks @ [k]" "acc @ [unmarked v]"] Cons.prems k(1) by simp
qed simp

text \<open>
  The same holds of the lines of a map: leaving them as they were found keeps keys, values, the default and the choice.
\<close>

theorem map_text_untouched:
  assumes "papa_lines papa" and "map_template_ok (te_nextTemplate st)"
  shows "map_blur papa (map_text (te_nextTemplate st)) st = Inr st"
proof -
  let ?t = "te_nextTemplate st"
  let ?ls = "map (\<lambda>v. the (tv_key v) @ '', '' @ tv_value v) (t_values ?t)"
  have ne: "t_values ?t \<noteq> []" and d: "distinct (map tv_key (t_values ?t))"
    and vs: "\<forall>v\<in>set (t_values ?t). plain_text (tv_value v) \<and> tv_type v = VMap \<and> (\<exists>k. tv_key v = Some k \<and> plain_text k \<and> k \<noteq> [])"
    using assms(2) by (simp_all add: map_template_ok_def)
  have txt_eq: "map_text ?t = js_join [CHR 0x0A] ?ls"
    unfolding map_text_def by (rule arg_cong[of _ _ "js_join [CHR 0x0A]"]) (use vs in \<open>auto\<close>)
  have lines: "list_all text_line ?ls" 
  proof -
    have "text_line (the (tv_key v) @ '', '' @ tv_value v)" if "v \<in> set (t_values ?t)" for v
      using vs that map_row_text(1)[of v "the (tv_key v)"] by fastforce
    then show ?thesis by (simp add: list_all_iff)
  qed
  have lastl: "last ?ls \<noteq> []" "last (last ?ls) \<noteq> CHR 0x0A"
  proof -
    have "last ?ls \<in> set ?ls" using ne by (intro last_in_set) simp
    then have "text_line (last ?ls)" using lines unfolding list_all_iff by blast
    then show "last ?ls \<noteq> []" "last (last ?ls) \<noteq> CHR 0x0A" by (rule text_line_last)+
  qed
  have "?ls \<noteq> []" using ne by simp
  then have "js_join [CHR 0x0A] ?ls \<noteq> []" "last (js_join [CHR 0x0A] ?ls) \<noteq> CHR 0x0A"
    using last_js_join[of ?ls "[CHR 0x0A]"] lastl by simp_all
  then have "trim_newlines (map_text ?t) = map_text ?t" unfolding txt_eq by (rule trim_newlines_same)
  moreover have "papa (map_text ?t) = map (\<lambda>l. js_split l '','') ?ls" using assms(1) ne lines txt_eq by (simp add: papa_lines_def)
  moreover have "map (\<lambda>l. js_split l '','') ?ls = map map_row (t_values ?t)"
  proof -
    have "js_split (the (tv_key v) @ '', '' @ tv_value v) '','' = map_row v" if "v \<in> set (t_values ?t)" for v
      using vs that map_row_text(2)[of v "the (tv_key v)"] by fastforce
    then show ?thesis by simp
  qed
  ultimately have "papa (trim_newlines (map_text ?t)) = map map_row (t_values ?t)" by (simp only:)
  then have "constructValuesFromString papa (map_text ?t) = Some (map unmarked (t_values ?t))"
    using ne map_rows_values[OF vs d, of "[]" "[]"] by (simp add: constructValuesFromString_def)
  then show ?thesis using reconcile_unmarked[of ?t] assms(2) by (simp add: map_blur_def handleUpdateTemplate_def map_template_ok_def)
qed

theorem map_text_untouched_witness:
  "map_blur papa_plain (''eu, 10.0.0.1'' @ [CHR 0x0A] @ ''us, 10.0.0.2'')
     (editor_with TMap [written_value VMap (Some ''eu'') ''10.0.0.1'' False True, written_value VMap (Some ''us'') ''10.0.0.2'' True False]) =
     Inr (editor_with TMap [written_value VMap (Some ''eu'') ''10.0.0.1'' False True, written_value VMap (Some ''us'') ''10.0.0.2'' True False])"
  (is "map_blur _ _ ?st = _")
proof -
  have ok: "map_template_ok (te_nextTemplate ?st)"
    by (simp add: editor_with_def open_editor_def written_value_def map_template_ok_def default_template_def one_choice_def plain_text_def
        js_trim_def is_space_def text_char_def)
  have "map_text (te_nextTemplate ?st) = ''eu, 10.0.0.1'' @ [CHR 0x0A] @ ''us, 10.0.0.2''"
    by (simp add: editor_with_def open_editor_def written_value_def map_text_def default_template_def)
  then show ?thesis using map_text_untouched[OF papa_plain_lines ok] by simp
qed

end
