(* ===== verification/Meta_Queries.thy ===== *)
theory Meta_Queries
  imports Js_Prelude
begin

text \<open>
  Queries about the schema of a database: their texts (\<open>ui/src/shared/apis/metaQuery.js\<close>), the parsers of their answers
  (\<open>show*.js\<close> of \<open>ui/src/shared/parsing\<close>) and which of them a meta query a user types is for
  (\<open>ui/src/tempVars/parsing/index.ts\<close>). The values of an answer are strings; a cell that is not there is None.
\<close>

section \<open>Answers\<close>

record meta_series =
  ms_name :: string
  ms_columns :: "string list"
  ms_values :: "string list list option"

record meta_result =
  mr_error :: "string option"
  mr_series :: "meta_series list option"

type_synonym meta_response = "meta_result list"

definition column_of :: "meta_series \<Rightarrow> string \<Rightarrow> string list \<Rightarrow> string option" where
  \<comment> \<open>\<open>value[series.columns.indexOf(name)]\<close>\<close>
  "column_of s nm row = at_index row (find_index (\<lambda>c. c = nm) (ms_columns s))"

definition first_cell :: "string list \<Rightarrow> string option" where
  "first_cell row = at_index row (Some 0)"

definition series_rows :: "meta_series \<Rightarrow> string list list result" where
  \<comment> \<open>the values, where they are used without a check\<close>
  "series_rows s = deref (ms_values s)"

definition truthy_err :: "string option \<Rightarrow> bool" where
  "truthy_err e \<longleftrightarrow> e \<noteq> None \<and> e \<noteq> Some []"

definition parseShowDatabases :: "meta_response \<Rightarrow> (string list \<times> string option list) result" where
  \<comment> \<open>the errors and the databases; that there are none is also told in an alert\<close>
  "parseShowDatabases response =
     bind_r (deref (at_index response (Some 0))) (\<lambda>results.
       if truthy_err (mr_error results) then Inr ([the (mr_error results)], [])
       else bind_r (deref (mr_series results)) (\<lambda>ss.
         bind_r (deref (at_index ss (Some 0))) (\<lambda>series.
           case ms_values series of None \<Rightarrow> Inr ([], []) | Some rows \<Rightarrow> Inr ([], map first_cell rows))))"

definition field_set :: "string list \<times> string option list js_obj \<Rightarrow> meta_result \<Rightarrow> (string list \<times> string option list js_obj) result" where
  "field_set acc result =
     (if truthy_err (mr_error result) then Inr (fst acc @ [the (mr_error result)], snd acc)
      else case mr_series result of
        None \<Rightarrow> Inr acc
      | Some ss \<Rightarrow> bind_r (deref (at_index ss (Some 0))) (\<lambda>series.
          bind_r (series_rows series) (\<lambda>rows.
            Inr (fst acc, obj_set (snd acc) (ms_name series) (map (column_of series ''fieldKey'') rows)))))"

definition parseShowFieldKeys :: "meta_response \<Rightarrow> (string list \<times> string option list js_obj) result" where
  "parseShowFieldKeys response = fold_r field_set ([], []) response"

definition measurement_set :: "string list \<times> string option list list \<Rightarrow> meta_result \<Rightarrow> (string list \<times> string option list list) result" where
  "measurement_set acc result =
     (if truthy_err (mr_error result) then Inr (fst acc @ [the (mr_error result)], snd acc)
      else case mr_series result of
        None \<Rightarrow> Inr (fst acc, snd acc @ [[]])
      | Some ss \<Rightarrow> bind_r (deref (at_index ss (Some 0))) (\<lambda>series.
          bind_r (series_rows series) (\<lambda>rows. Inr (fst acc, snd acc @ [map (column_of series ''name'') rows]))))"

definition parseShowMeasurements :: "meta_response \<Rightarrow> (string list \<times> string option list list) result" where
  \<comment> \<open>the errors and the measurements of each result, without their positions\<close>
  "parseShowMeasurements response = fold_r measurement_set ([], []) response"

definition parseShowSeries :: "meta_response \<Rightarrow> (string list \<times> string option list) result" where
  "parseShowSeries response =
     map_res (\<lambda>results.
       if truthy_err (mr_error results) then ([the (mr_error results)], [])
       else ([], case mr_series results of Some (s # _) \<Rightarrow> map first_cell (case ms_values s of None \<Rightarrow> [] | Some rows \<Rightarrow> rows) | _ \<Rightarrow> []))
       (deref (at_index response (Some 0)))"

definition parseShowTagKeys :: "meta_response \<Rightarrow> (string list \<times> string option list) result" where
  "parseShowTagKeys response =
     bind_r (deref (at_index response (Some 0))) (\<lambda>results.
       if truthy_err (mr_error results) then Inr ([the (mr_error results)], [])
       else case mr_series results of
         None \<Rightarrow> Inr ([], [])
       | Some ss \<Rightarrow> map_res (\<lambda>series. ([], map first_cell (case ms_values series of None \<Rightarrow> [] | Some rows \<Rightarrow> rows))) (deref (at_index ss (Some 0))))"

definition add_tag :: "meta_series \<Rightarrow> string list js_obj \<Rightarrow> string list \<Rightarrow> string list js_obj" where
  "add_tag s tags row =
     (let tagKey = opt_str (column_of s ''key'' row); tagValue = opt_str (column_of s ''value'' row)
      in obj_set tags tagKey ((case obj_get tags tagKey of None \<Rightarrow> [] | Some vs \<Rightarrow> vs) @ [tagValue]))"

definition add_series_tags :: "string list js_obj \<Rightarrow> meta_series \<Rightarrow> string list js_obj result" where
  "add_series_tags tags s = map_res (foldl (add_tag s) tags) (series_rows s)"

definition parseShowTagValues :: "meta_response \<Rightarrow> string list js_obj result" where
  \<comment> \<open>the tags; there are never errors\<close>
  "parseShowTagValues response =
     bind_r (deref (at_index response (Some 0))) (\<lambda>result.
       if truthy_err (mr_error result) then Inr []
       else map_res (map (\<lambda>(k, v). (k, sort_strs (uniq_by (\<lambda>x. x) v))))
         (fold_r add_series_tags [] (case mr_series result of None \<Rightarrow> [] | Some ss \<Rightarrow> ss)))"

record query_row =
  qr_id :: "string option"
  qr_database :: "string option"
  qr_query :: "string option"
  qr_duration :: "string option"

definition parseShowQueries :: "meta_response \<Rightarrow> (string list \<times> query_row list) result" where
  "parseShowQueries response =
     bind_r (deref (at_index response (Some 0))) (\<lambda>results.
       if truthy_err (mr_error results) then Inr ([the (mr_error results)], [])
       else bind_r (deref (mr_series results)) (\<lambda>ss.
         map_res (\<lambda>series. ([], map (\<lambda>row. \<lparr>qr_id = column_of series ''qid'' row, qr_database = column_of series ''database'' row,
             qr_query = column_of series ''query'' row, qr_duration = column_of series ''duration'' row\<rparr>)
             (case ms_values series of None \<Rightarrow> [] | Some rows \<Rightarrow> rows))) (deref (at_index ss (Some 0)))))"

record policy_row =
  pr_name :: "string option"
  pr_duration :: "string option"
  pr_shardGroupDuration :: "string option"
  pr_replication :: "string option"
  pr_isDefault :: "string option"

definition parseShowRetentionPolicies :: "meta_result \<Rightarrow> (string list \<times> policy_row list) result" where
  "parseShowRetentionPolicies result =
     (if truthy_err (mr_error result) then Inr ([the (mr_error result)], [])
      else bind_r (deref (mr_series result)) (\<lambda>ss.
        map_res (\<lambda>series. ([], map (\<lambda>row. \<lparr>pr_name = column_of series ''name'' row, pr_duration = column_of series ''duration'' row,
            pr_shardGroupDuration = column_of series ''shardGroupDuration'' row, pr_replication = column_of series ''replicaN'' row,
            pr_isDefault = column_of series ''default'' row\<rparr>)
            (case ms_values series of None \<Rightarrow> [] | Some rows \<Rightarrow> rows))) (deref (at_index ss (Some 0)))))"

record shard =
  sh_shardId :: string
  sh_database :: string
  sh_retentionPolicy :: string
  sh_shardGroup :: string
  sh_startTime :: string
  sh_endTime :: string
  sh_expireTime :: int
  sh_owners :: "string list"

definition parseShowShards :: "int \<Rightarrow> shard list \<Rightarrow> shard list js_obj" where
  \<comment> \<open>at a time\<close>
  "parseShowShards now results =
     foldl (\<lambda>shards s.
       if sh_owners s = [] \<or> now > sh_expireTime s then shards
       else (let key = sh_database s @ ''..'' @ sh_retentionPolicy s
             in obj_set shards key ((case obj_get shards key of None \<Rightarrow> [] | Some ss \<Rightarrow> ss) @ [s]))) [] results"

section \<open>Texts\<close>

definition dquote :: "string \<Rightarrow> string" where
  "dquote s = CHR 0x22 # s @ [CHR 0x22]"

definition showRetentionPolicies :: "string list \<Rightarrow> string" where
  \<comment> \<open>of a list of databases\<close>
  "showRetentionPolicies databases = js_join '';'' (map (\<lambda>db. ''SHOW RETENTION POLICIES ON '' @ dquote db) databases)"

definition killQuery :: "string \<Rightarrow> string" where
  "killQuery queryID = ''KILL QUERY '' @ queryID"

definition showTagKeys :: "string option \<Rightarrow> string \<Rightarrow> string" where
  "showTagKeys retentionPolicy measurement =
     ''SHOW TAG KEYS FROM '' @ dquote (case retentionPolicy of None \<Rightarrow> [] | Some rp \<Rightarrow> rp) @ ''.'' @ dquote measurement"

definition showTagValues :: "string option \<Rightarrow> string \<Rightarrow> string list \<Rightarrow> string" where
  "showTagValues retentionPolicy measurement tagKeys =
     ''SHOW TAG VALUES FROM '' @ dquote (case retentionPolicy of None \<Rightarrow> [] | Some rp \<Rightarrow> rp) @ ''.'' @ dquote measurement @
     '' WITH KEY IN ('' @ js_join '', '' (map dquote (sort_strs tagKeys)) @ '')''"

definition showFieldKeys :: "string \<Rightarrow> string \<Rightarrow> string" where
  "showFieldKeys measurement rp = ''SHOW FIELD KEYS FROM '' @ dquote rp @ ''.'' @ dquote measurement"

definition createRetentionPolicy :: "string \<Rightarrow> string \<Rightarrow> string \<Rightarrow> string \<Rightarrow> string" where
  "createRetentionPolicy database rpName duration replicationFactor =
     ''CREATE RETENTION POLICY '' @ dquote rpName @ '' ON '' @ dquote database @ '' DURATION '' @ duration @ '' REPLICATION '' @ replicationFactor"

section \<open>The meta query of a template variable\<close>

definition upper_char :: "char \<Rightarrow> char" where
  "upper_char c = (if 97 \<le> (of_char c :: nat) \<and> (of_char c :: nat) \<le> 122 then char_of ((of_char c :: nat) - 32) else c)"

definition toUpperCase :: "string \<Rightarrow> string" where
  \<comment> \<open>on ASCII\<close>
  "toUpperCase s = map upper_char s"

definition VALID_META_QUERY_PREFIXES :: "string list" where
  "VALID_META_QUERY_PREFIXES =
     [''SHOW DATABASES'', ''SHOW MEASUREMENTS'', ''SHOW SERIES'', ''SHOW TAG VALUES'', ''SHOW FIELD KEYS'', ''SHOW TAG KEYS'']"

definition getMetaQueryPrefix :: "string \<Rightarrow> string option" where
  "getMetaQueryPrefix metaQuery =
     (let ws = js_split (toUpperCase (js_trim metaQuery)) '' '';
          firstTwoWords = js_join '' '' (take 2 ws);
          firstThreeWords = js_join '' '' (take 3 ws)
      in List.find (\<lambda>q. q = firstTwoWords \<or> q = firstThreeWords) VALID_META_QUERY_PREFIXES)"

definition isInvalidMetaQuery :: "string \<Rightarrow> bool" where
  "isInvalidMetaQuery metaQuery \<longleftrightarrow> getMetaQueryPrefix metaQuery = None"

definition checked :: "('x \<Rightarrow> string option list) \<Rightarrow> (string list \<times> 'x) result \<Rightarrow> string option list result" where
  \<comment> \<open>the values of a parsed answer, unless it has errors\<close>
  "checked extractor parsed = bind_r parsed (\<lambda>(errors, x). if errors \<noteq> [] then Inl (Thrown ''errors'') else Inr (extractor x))"

definition parse_with :: "string \<Rightarrow> meta_response \<Rightarrow> string option list result" where
  \<comment> \<open>the parser and the extractor of a prefix\<close>
  "parse_with p response =
     (if p = ''SHOW DATABASES'' then checked (\<lambda>ds. ds) (parseShowDatabases response)
      else if p = ''SHOW FIELD KEYS'' then checked (\<lambda>fs. concat (obj_values fs)) (parseShowFieldKeys response)
      else if p = ''SHOW MEASUREMENTS'' then checked concat (parseShowMeasurements response)
      else if p = ''SHOW TAG KEYS'' then checked (\<lambda>ks. ks) (parseShowTagKeys response)
      else if p = ''SHOW TAG VALUES'' then map_res (\<lambda>tags. map Some (concat (obj_values tags))) (parseShowTagValues response)
      else checked (\<lambda>ss. ss) (parseShowSeries response))"

definition parseMetaQuery :: "string \<Rightarrow> meta_response \<Rightarrow> string option list result" where
  "parseMetaQuery metaQuery response =
     (case getMetaQueryPrefix metaQuery of None \<Rightarrow> Inl (Thrown ''Could not find parser for meta query'') | Some p \<Rightarrow> parse_with p response)"

section \<open>The values of tags\<close>

definition tag_list :: "string list js_obj \<Rightarrow> string \<Rightarrow> string list" where
  \<comment> \<open>the values of a key, none when it is not there\<close>
  "tag_list tags k = (case obj_get tags k of None \<Rightarrow> [] | Some vs \<Rightarrow> vs)"

definition row_values :: "string \<Rightarrow> meta_series \<Rightarrow> string list" where
  "row_values k s =
     map (\<lambda>row. opt_str (column_of s ''value'' row))
       (filter (\<lambda>row. opt_str (column_of s ''key'' row) = k) (case ms_values s of None \<Rightarrow> [] | Some rows \<Rightarrow> rows))"

lemma tag_list_add: "tag_list (add_tag s tags row) k =
    tag_list tags k @ (if opt_str (column_of s ''key'' row) = k then [opt_str (column_of s ''value'' row)] else [])"
  by (auto simp: add_tag_def tag_list_def obj_get_set Let_def split: option.split)

lemma tag_list_rows: "tag_list (foldl (add_tag s) tags rows) k =
    tag_list tags k @ map (\<lambda>row. opt_str (column_of s ''value'' row)) (filter (\<lambda>row. opt_str (column_of s ''key'' row) = k) rows)"
  by (induction rows arbitrary: tags) (simp_all add: tag_list_add)

lemma tag_list_series: "fold_r add_series_tags tags ss = Inr tags' \<Longrightarrow> tag_list tags' k = tag_list tags k @ concat (map (row_values k) ss)"
proof (induction ss arbitrary: tags)
  case (Cons s ss)
  from Cons.prems obtain tags1 where tags1: "add_series_tags tags s = Inr tags1" "fold_r add_series_tags tags1 ss = Inr tags'"
    by (auto simp: bind_r_Inr_iff)
  then obtain rows where "ms_values s = Some rows" "tags1 = foldl (add_tag s) tags rows"
    by (cases "ms_values s") (auto simp: add_series_tags_def series_rows_def)
  then show ?case using Cons.IH[OF tags1(2)] by (simp add: tag_list_rows row_values_def)
qed simp

lemma tag_list_map: "f [] = [] \<Longrightarrow> tag_list (map (\<lambda>(k, v). (k, f v)) tags) k = f (tag_list tags k)"
  by (induction tags) (auto simp: tag_list_def)

text \<open>
  The values parsed for a key of a tag are those of the rows with that key, in every series of the answer, each once and in order.
\<close>
theorem tag_values_parsed:
  assumes "parseShowTagValues (\<lparr>mr_error = None, mr_series = Some ss\<rparr> # results) = Inr tags"
  shows "set (tag_list tags k) = (\<Union>s\<in>set ss. set (row_values k s)) \<and> distinct (tag_list tags k) \<and> sorted_wrt str_le (tag_list tags k)"
proof -
  obtain tags0 where tags0: "fold_r add_series_tags [] ss = Inr tags0" "tags = map (\<lambda>(k, v). (k, sort_strs (uniq_by (\<lambda>x. x) v))) tags0"
    using assms by (auto simp: parseShowTagValues_def at_index_def truthy_err_def map_res_def bind_r_Inr_iff)
  have "tag_list tags k = sort_strs (uniq_by (\<lambda>x. x) (tag_list tags0 k))"
    unfolding tags0(2) by (rule tag_list_map) (simp add: sort_strs_def)
  moreover have "tag_list tags0 k = concat (map (row_values k) ss)"
    using tag_list_series[OF tags0(1), of k] by (simp add: tag_list_def)
  moreover have "set (uniq_by (\<lambda>x. x) xs) = set xs" for xs :: "string list" using keys_uniq_by[of "\<lambda>x. x" xs] by simp
  moreover have "distinct (uniq_by (\<lambda>x. x) xs)" for xs :: "string list" using distinct_uniq_by[of "\<lambda>x. x" xs] by simp
  ultimately show ?thesis by (simp add: sorted_sort_strs)
qed

theorem tag_values_parsed_witness:
  "set (tag_list [(''host'', [''a'', ''b''])] ''host'') =
     (\<Union>s\<in>set [\<lparr>ms_name = ''cpu'', ms_columns = [''key'', ''value''], ms_values = Some [[''host'', ''b''], [''host'', ''a''], [''host'', ''b'']]\<rparr>].
       set (row_values ''host'' s))"
proof -
  have "parseShowTagValues [\<lparr>mr_error = None, mr_series = Some [\<lparr>ms_name = ''cpu'', ms_columns = [''key'', ''value''],
      ms_values = Some [[''host'', ''b''], [''host'', ''a''], [''host'', ''b'']]\<rparr>]\<rparr>] = Inr [(''host'', [''a'', ''b''])]"
    by code_simp
  from tag_values_parsed[OF this, of "''host''"] show ?thesis by (rule conjunct1)
qed

end
