(* ===== verification/Temp_Builders.thy ===== *)
theory Temp_Builders
  imports Temp_Editor Meta_Queries Store_Prelude
begin

text \<open>
  The builders of template variables whose values come from the server (\<open>ui/src/tempVars/components\<close>):
  \<open>TagValuesTemplateBuilder.tsx\<close>, \<open>KeysTemplateBuilder.tsx\<close> with the field and tag keys that use it, \<open>MeasurementsTemplateBuilder.tsx\<close>,
  \<open>DatabasesTemplateBuilder.tsx\<close> and \<open>MetaQueryTemplateBuilder.tsx\<close>. The requests under way are part of the state, each with what its function had
  captured when it was sent, and an answer is an event. A change of the state from an event of the page is put off by React until the handler has
  ended, one that follows an \<open>await\<close> is made at once: that is the argument \<open>batched\<close> of the handlers.
\<close>

section \<open>What is fetched\<close>

definition texts :: "string option list \<Rightarrow> string list" where
  "texts = map opt_str"

definition fetched_databases :: "meta_response \<Rightarrow> string list result" where
  "fetched_databases response = map_res (\<lambda>(_, ds). texts ds) (parseShowDatabases response)"

definition fetched_measurements :: "meta_response \<Rightarrow> string list result" where
  "fetched_measurements response = map_res (\<lambda>(_, ms). texts (case ms of [] \<Rightarrow> [] | m # _ \<Rightarrow> m)) (parseShowMeasurements response)"

definition fetched_tagKeys :: "meta_response \<Rightarrow> string list result" where
  "fetched_tagKeys response = map_res (\<lambda>(_, ks). texts ks) (parseShowTagKeys response)"

definition fetched_fieldKeys :: "meta_response \<Rightarrow> string list result" where
  "fetched_fieldKeys response = map_res (\<lambda>(_, fs). texts (case obj_values fs of [] \<Rightarrow> [] | f # _ \<Rightarrow> f)) (parseShowFieldKeys response)"

definition fetched_tagValues :: "meta_response \<Rightarrow> string list result" where
  "fetched_tagValues response = map_res (\<lambda>tags. case obj_values tags of [] \<Rightarrow> [] | vs # _ \<Rightarrow> vs) (parseShowTagValues response)"

definition tagKeys_text :: "string \<Rightarrow> string \<Rightarrow> string" where
  "tagKeys_text db measurement = ''SHOW TAG KEYS ON '' @ dquote db @ '' FROM '' @ dquote measurement"

definition fieldKeys_text :: "string \<Rightarrow> string \<Rightarrow> string" where
  "fieldKeys_text db measurement = ''SHOW FIELD KEYS ON '' @ dquote db @ '' FROM '' @ dquote measurement"

definition tagValues_text :: "string \<Rightarrow> string \<Rightarrow> string \<Rightarrow> string" where
  "tagValues_text db measurement key =
     ''SHOW TAG VALUES ON '' @ dquote db @ '' FROM '' @ dquote measurement @ '' WITH KEY = '' @ dquote key"

section \<open>What the builders share\<close>

definition fetched_values :: "template_value_type \<Rightarrow> string list \<Rightarrow> template_value list" where
  \<comment> \<open>the values of a list, the first one selected\<close>
  "fetched_values ty vs =
     map (\<lambda>(i, v). \<lparr>tv_value = v, tv_type = ty, tv_selected = (i = 0), tv_localSelected = False, tv_key = None\<rparr>) (enumerate 0 vs)"

definition query_of :: "template \<Rightarrow> template_query" where
  "query_of t = (case t_query t of None \<Rightarrow> no_query | Some q \<Rightarrow> q)"

definition query_part :: "(template_query \<Rightarrow> string option) \<Rightarrow> template \<Rightarrow> string" where
  \<comment> \<open>\<open>_.get(props, 'template.query.db', '')\<close> and the like\<close>
  "query_part f t = (case t_query t of None \<Rightarrow> [] | Some q \<Rightarrow> (case f q of None \<Rightarrow> [] | Some s \<Rightarrow> s))"

definition first_or_empty :: "string list \<Rightarrow> string" where
  "first_or_empty xs = (case xs of [] \<Rightarrow> [] | x # _ \<Rightarrow> x)"

section \<open>The values of a tag\<close>

datatype tag_fetch =
    FetchDatabases \<comment> \<open>of \<open>componentDidMount\<close>, which goes on when it ends\<close>
  | FetchMeasurements bool string string \<comment> \<open>whether of \<open>componentDidMount\<close>, and the database and the measurement selected when it was sent\<close>
  | FetchTagKeys bool string string string
  | FetchTagValues string string string template \<comment> \<open>with the template it goes by\<close>

record tag_builder =
  tb_template :: template \<comment> \<open>the property, which the editor holds\<close>
  tb_databases :: "string list"
  tb_databasesStatus :: remote_data_state
  tb_selectedDatabase :: string
  tb_measurements :: "string list"
  tb_measurementsStatus :: remote_data_state
  tb_selectedMeasurement :: string
  tb_tagKeys :: "string list"
  tb_tagKeysStatus :: remote_data_state
  tb_selectedTagKey :: string
  tb_tagValuesStatus :: remote_data_state
  tb_requests :: "tag_fetch list" \<comment> \<open>under way, in the order they were sent\<close>

definition onUpdateTemplate :: "template \<Rightarrow> tag_builder \<Rightarrow> tag_builder" where
  \<comment> \<open>the editor's handler\<close>
  "onUpdateTemplate t st = st\<lparr>tb_template := reconcileSelectedAndLocalSelectedValues (tb_template st) t\<rparr>"

definition sends :: "tag_fetch \<Rightarrow> tag_builder \<Rightarrow> tag_builder" where
  "sends r st = st\<lparr>tb_requests := tb_requests st @ [r]\<rparr>"

definition open_tag_builder :: "template \<Rightarrow> tag_builder" where
  \<comment> \<open>with the first request of \<open>componentDidMount\<close>\<close>
  "open_tag_builder t =
     sends FetchDatabases
       \<lparr>tb_template = t, tb_databases = [], tb_databasesStatus = Loading, tb_selectedDatabase = query_part tq_db t,
        tb_measurements = [], tb_measurementsStatus = Loading, tb_selectedMeasurement = query_part tq_measurement t,
        tb_tagKeys = [], tb_tagKeysStatus = Loading, tb_selectedTagKey = query_part tq_tagKey t, tb_tagValuesStatus = Loading, tb_requests = []\<rparr>"

definition loadMeasurements_tv :: "bool \<Rightarrow> tag_builder \<Rightarrow> tag_builder" where
  \<comment> \<open>up to its \<open>await\<close>, like the next two\<close>
  "loadMeasurements_tv mount st =
     sends (FetchMeasurements mount (tb_selectedDatabase st) (tb_selectedMeasurement st)) (st\<lparr>tb_measurementsStatus := Loading\<rparr>)"

definition loadTagKeys :: "bool \<Rightarrow> tag_builder \<Rightarrow> tag_builder" where
  "loadTagKeys mount st =
     sends (FetchTagKeys mount (tb_selectedDatabase st) (tb_selectedMeasurement st) (tb_selectedTagKey st)) (st\<lparr>tb_tagKeysStatus := Loading\<rparr>)"

definition loadTagValues :: "tag_builder \<Rightarrow> tag_builder" where
  "loadTagValues st =
     sends (FetchTagValues (tb_selectedDatabase st) (tb_selectedMeasurement st) (tb_selectedTagKey st) (tb_template st))
       (st\<lparr>tb_tagValuesStatus := Loading\<rparr>)"

definition after_setState :: "bool \<Rightarrow> (tag_builder \<Rightarrow> tag_builder) \<Rightarrow> (template_query \<Rightarrow> template_query) \<Rightarrow> tag_builder \<Rightarrow> tag_builder" where
  \<comment> \<open>the callback of \<open>setState\<close>, and the update of the template that follows the call\<close>
  "after_setState batched callback upd st =
     (let update = (\<lambda>s. onUpdateTemplate ((tb_template s)\<lparr>t_query := Some (upd (query_of (tb_template s)))\<rparr>) s)
      in if batched then callback (update st) else update (callback st))"

definition handleChooseDatabase_tv :: "bool \<Rightarrow> string \<Rightarrow> tag_builder \<Rightarrow> tag_builder" where
  "handleChooseDatabase_tv batched db st =
     after_setState batched (loadMeasurements_tv False)
       (\<lambda>q. q\<lparr>tq_db := Some db, tq_tagKey := Some [], tq_measurement := Some []\<rparr>)
       (st\<lparr>tb_selectedDatabase := db, tb_selectedMeasurement := []\<rparr>)"

definition handleChooseMeasurement_tv :: "bool \<Rightarrow> string \<Rightarrow> tag_builder \<Rightarrow> tag_builder" where
  "handleChooseMeasurement_tv batched m st =
     after_setState batched (loadTagKeys False) (\<lambda>q. q\<lparr>tq_measurement := Some m, tq_tagKey := Some []\<rparr>)
       (st\<lparr>tb_selectedMeasurement := m, tb_selectedTagKey := []\<rparr>)"

definition handleChooseTagKey :: "bool \<Rightarrow> string \<Rightarrow> tag_builder \<Rightarrow> tag_builder" where
  "handleChooseTagKey batched k st =
     after_setState batched loadTagValues (\<lambda>q. q\<lparr>tq_tagKey := Some k\<rparr>) (st\<lparr>tb_selectedTagKey := k\<rparr>)"

definition tag_received :: "tag_fetch \<Rightarrow> string list option \<Rightarrow> tag_builder \<Rightarrow> tag_builder" where
  \<comment> \<open>what follows the \<open>await\<close>: the parsed answer, none when the call or the parsing failed; then \<open>componentDidMount\<close> goes on\<close>
  "tag_received r ans st =
     (case r of
        FetchDatabases \<Rightarrow>
          loadMeasurements_tv True
            (case ans of
               None \<Rightarrow> st\<lparr>tb_databasesStatus := Errored\<rparr>
             | Some dbs \<Rightarrow>
                 (let st1 = st\<lparr>tb_databases := dbs, tb_databasesStatus := Done\<rparr>
                  in if tb_selectedDatabase st = [] then handleChooseDatabase_tv False (first_or_empty dbs) st1 else st1))
      | FetchMeasurements mount _ selectedMeasurement \<Rightarrow>
          (if mount then loadTagKeys True else (\<lambda>s. s))
            (case ans of
               None \<Rightarrow> st\<lparr>tb_measurementsStatus := Errored\<rparr>
             | Some ms \<Rightarrow>
                 (let st1 = st\<lparr>tb_measurements := ms, tb_measurementsStatus := Done\<rparr>
                  in if selectedMeasurement = [] then handleChooseMeasurement_tv False (first_or_empty ms) st1 else st1))
      | FetchTagKeys mount _ _ selectedTagKey \<Rightarrow>
          (if mount then loadTagValues else (\<lambda>s. s))
            (case ans of
               None \<Rightarrow> st\<lparr>tb_tagKeysStatus := Errored\<rparr>
             | Some ks \<Rightarrow>
                 (let st1 = st\<lparr>tb_tagKeys := ks, tb_tagKeysStatus := Done\<rparr>
                  in if selectedTagKey = [] then handleChooseTagKey False (first_or_empty ks) st1 else st1))
      | FetchTagValues db m k t \<Rightarrow>
          (case ans of
             None \<Rightarrow> st\<lparr>tb_tagValuesStatus := Errored\<rparr>
           | Some vs \<Rightarrow>
               onUpdateTemplate (t\<lparr>t_values := fetched_values VTagValue vs,
                   t_query := Some ((query_of t)\<lparr>tq_db := Some db, tq_measurement := Some m, tq_tagKey := Some k\<rparr>)\<rparr>)
                 (st\<lparr>tb_tagValuesStatus := Done\<rparr>)))"

datatype tag_event =
    ChosenDatabase string
  | ChosenMeasurement string
  | ChosenTagKey string
  | NameTyped string
  | DefaultChosen template_value
  | Fetched nat "string list option" \<comment> \<open>the answer to the request at a position\<close>

definition tag_builder_step :: "tag_builder \<Rightarrow> tag_event \<Rightarrow> tag_builder" where
  "tag_builder_step st e =
     (case e of
        ChosenDatabase db \<Rightarrow> handleChooseDatabase_tv True db st
      | ChosenMeasurement m \<Rightarrow> handleChooseMeasurement_tv True m st
      | ChosenTagKey k \<Rightarrow> handleChooseTagKey True k st
      | NameTyped s \<Rightarrow> st\<lparr>tb_template := (tb_template st)\<lparr>t_tempVar := s\<rparr>\<rparr>
      | DefaultChosen v \<Rightarrow> st\<lparr>tb_template := (tb_template st)\<lparr>t_values := map (mark_selected (tv_value v)) (t_values (tb_template st))\<rparr>\<rparr>
      | Fetched i ans \<Rightarrow>
          (if i < length (tb_requests st)
           then tag_received (tb_requests st ! i) ans (st\<lparr>tb_requests := take i (tb_requests st) @ drop (Suc i) (tb_requests st)\<rparr>)
           else st))"

section \<open>The values are those of the tag that is selected\<close>

definition selection :: "tag_builder \<Rightarrow> string \<times> string \<times> string" where
  "selection st = (tb_selectedDatabase st, tb_selectedMeasurement st, tb_selectedTagKey st)"

definition tag_answers_ordered :: "(string \<Rightarrow> string \<Rightarrow> string \<Rightarrow> string list) \<Rightarrow> tag_builder \<Rightarrow> tag_event \<Rightarrow> bool" where
  \<comment> \<open>no call fails, answers come in the order of the requests, and to a request for values the server answers with them\<close>
  "tag_answers_ordered srv st e =
     (case e of
        Fetched i ans \<Rightarrow> i = 0 \<and> ans \<noteq> None \<and>
          (case tb_requests st of FetchTagValues db m k _ # _ \<Rightarrow> ans = Some (srv db m k) | _ \<Rightarrow> True)
      | _ \<Rightarrow> True)"

definition fits_selection :: "(string \<Rightarrow> string \<Rightarrow> string \<Rightarrow> string list) \<Rightarrow> tag_builder \<Rightarrow> bool" where
  "fits_selection srv st \<longleftrightarrow>
     (\<exists>q. t_query (tb_template st) = Some q \<and> tq_db q = Some (tb_selectedDatabase st) \<and> tq_measurement q = Some (tb_selectedMeasurement st) \<and>
        tq_tagKey q = Some (tb_selectedTagKey st)) \<and>
     map tv_value (t_values (tb_template st)) = srv (tb_selectedDatabase st) (tb_selectedMeasurement st) (tb_selectedTagKey st)"

fun only_lists :: "tag_fetch \<Rightarrow> bool" where
  \<comment> \<open>the answer fills a list of choices and changes nothing else\<close>
  "only_lists FetchDatabases = False"
| "only_lists (FetchMeasurements mount _ m) = (\<not> mount \<and> m \<noteq> [])"
| "only_lists (FetchTagKeys mount _ _ k) = (\<not> mount \<and> k \<noteq> [])"
| "only_lists (FetchTagValues _ _ _ _) = False"

fun leads :: "string \<times> string \<times> string \<Rightarrow> tag_fetch \<Rightarrow> bool" where
  \<comment> \<open>the answer brings the values of the selection, or a request that will\<close>
  "leads sel FetchDatabases = True"
| "leads sel (FetchMeasurements mount _ m) = (mount \<or> m = [])"
| "leads sel (FetchTagKeys mount _ _ k) = (mount \<or> k = [])"
| "leads sel (FetchTagValues db m k _) = ((db, m, k) = sel)"

definition on_the_way :: "(string \<Rightarrow> string \<Rightarrow> string \<Rightarrow> string list) \<Rightarrow> tag_builder \<Rightarrow> bool" where
  \<comment> \<open>of the requests that matter the last one leads to the values of the selection, and without one they are there\<close>
  "on_the_way srv st =
     (case List.find (\<lambda>r. \<not> only_lists r) (rev (tb_requests st)) of None \<Rightarrow> fits_selection srv st | Some r \<Rightarrow> leads (selection st) r)"

lemma reconcile_keeps [simp]:
  "map tv_value (t_values (reconcileSelectedAndLocalSelectedValues t u)) = map tv_value (t_values u)"
  "t_query (reconcileSelectedAndLocalSelectedValues t u) = t_query u"
  by (simp_all add: reconcileSelectedAndLocalSelectedValues_def makeSelected_def makeLocalSelected_def Let_def o_def mark_selected_def mark_localSelected_def)

lemma fetched_values_are [simp]: "map tv_value (fetched_values ty vs) = vs"
  by (simp add: fetched_values_def case_prod_unfold o_def)

lemma way_sent: "\<not> only_lists r \<Longrightarrow> leads (selection st) r \<Longrightarrow> on_the_way srv (sends r st)"
  by (simp add: on_the_way_def sends_def selection_def)

lemma way_updated: "tb_requests st = rs @ [r] \<Longrightarrow> \<not> only_lists r \<Longrightarrow> leads (selection st) r \<Longrightarrow> on_the_way srv st"
  by (simp add: on_the_way_def)

lemma update_fields [simp]:
  "tb_requests (onUpdateTemplate t st) = tb_requests st" "selection (onUpdateTemplate t st) = selection st"
  by (simp_all add: onUpdateTemplate_def selection_def)

lemma loads_way:
  "on_the_way srv (loadMeasurements_tv True st)" "on_the_way srv (loadTagKeys True st)" "on_the_way srv (loadTagValues st)"
  by (auto simp: loadMeasurements_tv_def loadTagKeys_def loadTagValues_def selection_def intro!: way_sent)

lemma choose_way:
  "on_the_way srv (handleChooseDatabase_tv b db st)"
  "on_the_way srv (handleChooseMeasurement_tv b m st)"
  "on_the_way srv (handleChooseTagKey b k st)"
  by (auto simp: handleChooseDatabase_tv_def handleChooseMeasurement_tv_def handleChooseTagKey_def after_setState_def loadMeasurements_tv_def
      loadTagKeys_def loadTagValues_def sends_def selection_def onUpdateTemplate_def Let_def intro!: way_updated)

lemma find_append: "List.find P (xs @ ys) = (case List.find P xs of None \<Rightarrow> List.find P ys | Some x \<Rightarrow> Some x)"
  by (induction xs) auto

lemma way_kept:
  \<comment> \<open>the requests that matter, the selection, and the query and the values of the template are all that counts\<close>
  assumes "on_the_way srv st" and "List.find (\<lambda>r. \<not> only_lists r) (rev (tb_requests st')) = List.find (\<lambda>r. \<not> only_lists r) (rev (tb_requests st))"
    and "selection st' = selection st" and "t_query (tb_template st') = t_query (tb_template st)"
    and "map tv_value (t_values (tb_template st')) = map tv_value (t_values (tb_template st))"
  shows "on_the_way srv st'"
  using assms by (auto simp: on_the_way_def fits_selection_def selection_def split: option.splits)

lemma values_way:
  assumes way: "on_the_way srv st" and r: "tb_requests st = FetchTagValues db m k t # rs"
  shows "on_the_way srv (tag_received (FetchTagValues db m k t) (Some (srv db m k)) (st\<lparr>tb_requests := rs\<rparr>))"
    (is "on_the_way srv ?st")
proof (cases "List.find (\<lambda>r. \<not> only_lists r) (rev rs)")
  case (Some l)
  then have "leads (selection st) l" using way r by (simp add: on_the_way_def find_append)
  moreover have "tb_requests ?st = rs" "selection ?st = selection st" by (simp_all add: tag_received_def selection_def onUpdateTemplate_def)
  ultimately show ?thesis using Some by (simp add: on_the_way_def)
next
  case None
  then have "(db, m, k) = selection st" using way r by (simp add: on_the_way_def find_append)
  then have "fits_selection srv ?st" by (simp add: tag_received_def onUpdateTemplate_def fits_selection_def selection_def)
  moreover have "tb_requests ?st = rs" by (simp add: tag_received_def)
  ultimately show ?thesis using None by (simp add: on_the_way_def)
qed

lemma received_way:
  assumes way: "on_the_way srv st" and r: "tb_requests st = r # rs"
    and srv: "\<And>db m k t. r = FetchTagValues db m k t \<Longrightarrow> xs = srv db m k"
  shows "on_the_way srv (tag_received r (Some xs) (st\<lparr>tb_requests := rs\<rparr>))"
proof (cases r)
  case FetchDatabases
  then show ?thesis by (simp add: tag_received_def loads_way Let_def)
next
  case (FetchMeasurements mount db m)
  have "on_the_way srv (st\<lparr>tb_requests := rs, tb_measurements := xs, tb_measurementsStatus := Done\<rparr>)" if "\<not> mount" "m \<noteq> []"
    using way r FetchMeasurements that by (intro way_kept[OF way]) (simp_all add: find_append selection_def split: option.split)
  then show ?thesis using FetchMeasurements by (simp add: tag_received_def loads_way choose_way Let_def)
next
  case (FetchTagKeys mount db m k)
  have "on_the_way srv (st\<lparr>tb_requests := rs, tb_tagKeys := xs, tb_tagKeysStatus := Done\<rparr>)" if "\<not> mount" "k \<noteq> []"
    using way r FetchTagKeys that by (intro way_kept[OF way]) (simp_all add: find_append selection_def split: option.split)
  then show ?thesis using FetchTagKeys by (simp add: tag_received_def loads_way choose_way Let_def)
next
  case (FetchTagValues db m k t)
  then show ?thesis using values_way[OF way] r srv by simp
qed

lemma tag_step_way:
  assumes way: "on_the_way srv st" and e: "tag_answers_ordered srv st e"
  shows "on_the_way srv (tag_builder_step st e)"
proof (cases e)
  case (Fetched i ans)
  show ?thesis
  proof (cases "tb_requests st")
    case (Cons r rs)
    obtain xs where "i = 0" "ans = Some xs" and "\<And>db m k t. r = FetchTagValues db m k t \<Longrightarrow> xs = srv db m k"
      using e Fetched Cons by (cases r) (auto simp: tag_answers_ordered_def)
    then show ?thesis using received_way[OF way Cons, of xs] Fetched Cons by (simp add: tag_builder_step_def)
  qed (use way Fetched in \<open>simp add: tag_builder_step_def\<close>)
next
  case (NameTyped s)
  then show ?thesis by (simp add: tag_builder_step_def) (rule way_kept[OF way]; simp add: selection_def)
next
  case (DefaultChosen v)
  then show ?thesis
    by (simp add: tag_builder_step_def) (rule way_kept[OF way]; simp add: selection_def mark_selected_def o_def)
qed (simp_all add: tag_builder_step_def choose_way)

interpretation tag_builder: invariant_steps tag_builder_step "on_the_way srv" "tag_answers_ordered srv" for srv
  by unfold_locales (rule tag_step_way)

text \<open>
  C38: The builder of a variable with the values of a tag, when no call fails and answers come in order. However databases, measurements and keys are
  chosen while lists are loading, once no request is under way the template has the query of what is selected and the values the server has for it.
\<close>
theorem tag_builder_settles:
  assumes "run_ok (tag_answers_ordered srv) tag_builder_step (open_tag_builder t) es"
    and "st = run_store tag_builder_step (open_tag_builder t) es" and "tb_requests st = []"
  shows "(\<exists>q. t_query (tb_template st) = Some q \<and> tq_db q = Some (tb_selectedDatabase st) \<and> tq_measurement q = Some (tb_selectedMeasurement st) \<and>
      tq_tagKey q = Some (tb_selectedTagKey st)) \<and>
    map tv_value (t_values (tb_template st)) = srv (tb_selectedDatabase st) (tb_selectedMeasurement st) (tb_selectedTagKey st)"
proof -
  have "on_the_way srv (open_tag_builder t)" unfolding open_tag_builder_def by (rule way_sent) simp_all
  then have "on_the_way srv st" using tag_builder.run_inv_from assms(1,2) by blast
  then show ?thesis using assms(3) by (simp add: on_the_way_def fits_selection_def)
qed

definition sample_tags :: "string \<Rightarrow> string \<Rightarrow> string \<Rightarrow> string list" where
  "sample_tags db m k = [db @ m @ k @ ''1'', db @ m @ k @ ''2'']"

definition sample_builder_run :: "tag_event list" where
  \<comment> \<open>another key is chosen while the values of the first are on their way\<close>
  "sample_builder_run =
     [Fetched 0 (Some [''d'']), Fetched 0 (Some [''m'']), Fetched 0 (Some [''m'']), Fetched 0 (Some [''k'', ''l'']), Fetched 0 (Some [''k'', ''l'']),
      Fetched 0 (Some [''k'', ''l'']), ChosenTagKey ''l'', Fetched 0 (Some (sample_tags ''d'' ''m'' ''k'')), Fetched 0 (Some (sample_tags ''d'' ''m'' ''k'')),
      Fetched 0 (Some (sample_tags ''d'' ''m'' ''k'')), Fetched 0 (Some (sample_tags ''d'' ''m'' ''k'')), Fetched 0 (Some (sample_tags ''d'' ''m'' ''l''))]"

theorem tag_builder_settles_witness:
  "let st = run_store tag_builder_step (open_tag_builder (default_template ''u'' TTagValues)) sample_builder_run
   in tb_selectedTagKey st = ''l'' \<and> map tv_value (t_values (tb_template st)) = sample_tags ''d'' ''m'' ''l''"
proof -
  let ?st = "run_store tag_builder_step (open_tag_builder (default_template ''u'' TTagValues)) sample_builder_run"
  have ok: "run_ok (tag_answers_ordered sample_tags) tag_builder_step (open_tag_builder (default_template ''u'' TTagValues)) sample_builder_run"
    by code_simp
  have "tb_requests ?st = []" by code_simp
  from tag_builder_settles[OF ok refl this]
  have "map tv_value (t_values (tb_template ?st)) = sample_tags (tb_selectedDatabase ?st) (tb_selectedMeasurement ?st) (tb_selectedTagKey ?st)"
    by (rule conjunct2)
  moreover have "tb_selectedDatabase ?st = ''d''" "tb_selectedMeasurement ?st = ''m''" "tb_selectedTagKey ?st = ''l''" by code_simp+
  ultimately show ?thesis by (simp only: Let_def simp_thms)
qed

text \<open>A name that is typed while values are on their way is lost: the answer is put into the template the request went by.\<close>

lemma typed_name_lost:
  "let st = run_store tag_builder_step (open_tag_builder ((default_template ''u'' TTagValues)\<lparr>t_tempVar := '':a:'',
       t_query := Some (no_query\<lparr>tq_db := Some ''d'', tq_measurement := Some ''m'', tq_tagKey := Some ''k''\<rparr>)\<rparr>))
       [Fetched 0 (Some [''d'']), Fetched 0 (Some [''m'']), Fetched 0 (Some [''k'']), NameTyped ''host'', Fetched 0 (Some [''v''])]
   in t_tempVar (tb_template st) = '':a:''"
  by code_simp

section \<open>The keys of fields and tags\<close>

datatype keys_fetch =
    KeysDatabases
  | KeysMeasurements bool string string
  | FetchKeys string string template

record keys_builder =
  kb_template :: template
  kb_databases :: "string list"
  kb_databasesStatus :: remote_data_state
  kb_selectedDatabase :: string
  kb_measurements :: "string list"
  kb_measurementsStatus :: remote_data_state
  kb_selectedMeasurement :: string
  kb_keysStatus :: remote_data_state
  kb_requests :: "keys_fetch list"

definition onUpdateTemplate_k :: "template \<Rightarrow> keys_builder \<Rightarrow> keys_builder" where
  "onUpdateTemplate_k t st = st\<lparr>kb_template := reconcileSelectedAndLocalSelectedValues (kb_template st) t\<rparr>"

definition keys_sends :: "keys_fetch \<Rightarrow> keys_builder \<Rightarrow> keys_builder" where
  "keys_sends r st = st\<lparr>kb_requests := kb_requests st @ [r]\<rparr>"

definition open_keys_builder :: "template \<Rightarrow> keys_builder" where
  "open_keys_builder t =
     keys_sends KeysDatabases
       \<lparr>kb_template = t, kb_databases = [], kb_databasesStatus = Loading, kb_selectedDatabase = query_part tq_db t,
        kb_measurements = [], kb_measurementsStatus = Loading, kb_selectedMeasurement = query_part tq_measurement t, kb_keysStatus = Loading, kb_requests = []\<rparr>"

definition loadMeasurements_k :: "bool \<Rightarrow> keys_builder \<Rightarrow> keys_builder" where
  "loadMeasurements_k mount st =
     keys_sends (KeysMeasurements mount (kb_selectedDatabase st) (kb_selectedMeasurement st)) (st\<lparr>kb_measurementsStatus := Loading\<rparr>)"

definition loadKeys :: "keys_builder \<Rightarrow> keys_builder" where
  "loadKeys st = keys_sends (FetchKeys (kb_selectedDatabase st) (kb_selectedMeasurement st) (kb_template st)) (st\<lparr>kb_keysStatus := Loading\<rparr>)"

definition after_setState_k :: "bool \<Rightarrow> (keys_builder \<Rightarrow> keys_builder) \<Rightarrow> (template_query \<Rightarrow> template_query) \<Rightarrow> keys_builder \<Rightarrow> keys_builder" where
  "after_setState_k batched callback upd st =
     (let update = (\<lambda>s. onUpdateTemplate_k ((kb_template s)\<lparr>t_query := Some (upd (query_of (kb_template s)))\<rparr>) s)
      in if batched then callback (update st) else update (callback st))"

definition handleChooseDatabase_k :: "bool \<Rightarrow> string \<Rightarrow> keys_builder \<Rightarrow> keys_builder" where
  \<comment> \<open>the measurement of the template stays\<close>
  "handleChooseDatabase_k batched db st =
     after_setState_k batched (loadMeasurements_k False) (\<lambda>q. q\<lparr>tq_db := Some db\<rparr>) (st\<lparr>kb_selectedDatabase := db, kb_selectedMeasurement := []\<rparr>)"

definition handleChooseMeasurement_k :: "bool \<Rightarrow> string \<Rightarrow> keys_builder \<Rightarrow> keys_builder" where
  "handleChooseMeasurement_k batched m st =
     after_setState_k batched loadKeys (\<lambda>q. q\<lparr>tq_measurement := Some m\<rparr>) (st\<lparr>kb_selectedMeasurement := m\<rparr>)"

definition keys_received :: "template_value_type \<Rightarrow> keys_fetch \<Rightarrow> string list option \<Rightarrow> keys_builder \<Rightarrow> keys_builder" where
  "keys_received ty r ans st =
     (case r of
        KeysDatabases \<Rightarrow>
          loadMeasurements_k True
            (case ans of
               None \<Rightarrow> st\<lparr>kb_databasesStatus := Errored\<rparr>
             | Some dbs \<Rightarrow>
                 (let st1 = st\<lparr>kb_databases := dbs, kb_databasesStatus := Done\<rparr>
                  in if kb_selectedDatabase st = [] then handleChooseDatabase_k False (first_or_empty dbs) st1 else st1))
      | KeysMeasurements mount _ selectedMeasurement \<Rightarrow>
          (if mount then loadKeys else (\<lambda>s. s))
            (case ans of
               None \<Rightarrow> st\<lparr>kb_measurementsStatus := Errored\<rparr>
             | Some ms \<Rightarrow>
                 (let st1 = st\<lparr>kb_measurements := ms, kb_measurementsStatus := Done\<rparr>
                  in if selectedMeasurement = [] then handleChooseMeasurement_k False (first_or_empty ms) st1 else st1))
      | FetchKeys db m t \<Rightarrow>
          (case ans of
             None \<Rightarrow> st\<lparr>kb_keysStatus := Errored\<rparr>
           | Some vs \<Rightarrow>
               onUpdateTemplate_k (t\<lparr>t_values := fetched_values ty vs,
                   t_query := Some ((query_of t)\<lparr>tq_db := Some db, tq_measurement := Some m\<rparr>)\<rparr>)
                 (st\<lparr>kb_keysStatus := Done\<rparr>)))"

text \<open>
  When the measurements of another database cannot be read, the template is left with the new database and the measurement of the old one, and with the
  keys of that.
\<close>

lemma failed_measurements_mix:
  "let t = (default_template ''u'' TTagKeys)\<lparr>t_values := fetched_values VTagKey [''k''], t_query := Some (no_query\<lparr>tq_db := Some ''d'', tq_measurement := Some ''m''\<rparr>)\<rparr>;
       st = handleChooseDatabase_k True ''e'' ((open_keys_builder t)\<lparr>kb_requests := []\<rparr>);
       st' = keys_received VTagKey (hd (kb_requests st)) None (st\<lparr>kb_requests := []\<rparr>)
   in kb_requests st' = [] \<and> query_part tq_db (kb_template st') = ''e'' \<and> query_part tq_measurement (kb_template st') = ''m'' \<and>
      map tv_value (t_values (kb_template st')) = [''k'']"
  by code_simp

section \<open>The measurements of a database\<close>

datatype measurements_fetch =
    MsDatabases
  | FetchMs string template

record measurements_builder =
  mb_template :: template
  mb_databases :: "string list"
  mb_databasesStatus :: remote_data_state
  mb_selectedDatabase :: string
  mb_measurementsStatus :: remote_data_state
  mb_requests :: "measurements_fetch list"

definition onUpdateTemplate_m :: "template \<Rightarrow> measurements_builder \<Rightarrow> measurements_builder" where
  "onUpdateTemplate_m t st = st\<lparr>mb_template := reconcileSelectedAndLocalSelectedValues (mb_template st) t\<rparr>"

definition measurements_sends :: "measurements_fetch \<Rightarrow> measurements_builder \<Rightarrow> measurements_builder" where
  "measurements_sends r st = st\<lparr>mb_requests := mb_requests st @ [r]\<rparr>"

definition open_measurements_builder :: "template \<Rightarrow> measurements_builder" where
  "open_measurements_builder t =
     measurements_sends MsDatabases
       \<lparr>mb_template = t, mb_databases = [], mb_databasesStatus = Loading, mb_selectedDatabase = query_part tq_db t, mb_measurementsStatus = Loading, mb_requests = []\<rparr>"

definition loadMeasurements_m :: "measurements_builder \<Rightarrow> measurements_builder" where
  "loadMeasurements_m st = measurements_sends (FetchMs (mb_selectedDatabase st) (mb_template st)) (st\<lparr>mb_measurementsStatus := Loading\<rparr>)"

definition handleChooseDatabase_m :: "bool \<Rightarrow> string \<Rightarrow> measurements_builder \<Rightarrow> measurements_builder" where
  "handleChooseDatabase_m batched db st =
     (let update = (\<lambda>s. onUpdateTemplate_m ((mb_template s)\<lparr>t_query := Some ((query_of (mb_template s))\<lparr>tq_db := Some db\<rparr>)\<rparr>) s);
          st1 = st\<lparr>mb_selectedDatabase := db\<rparr>
      in if batched then loadMeasurements_m (update st1) else update (loadMeasurements_m st1))"

definition measurements_received :: "measurements_fetch \<Rightarrow> string list option \<Rightarrow> measurements_builder \<Rightarrow> measurements_builder" where
  "measurements_received r ans st =
     (case r of
        MsDatabases \<Rightarrow>
          loadMeasurements_m
            (case ans of
               None \<Rightarrow> st\<lparr>mb_databasesStatus := Errored\<rparr>
             | Some dbs \<Rightarrow>
                 (let st1 = st\<lparr>mb_databases := dbs, mb_databasesStatus := Done\<rparr>
                  in if mb_selectedDatabase st = [] then handleChooseDatabase_m False (first_or_empty dbs) st1 else st1))
      | FetchMs db t \<Rightarrow>
          (case ans of
             None \<Rightarrow> st\<lparr>mb_measurementsStatus := Errored\<rparr>
           | Some vs \<Rightarrow> onUpdateTemplate_m (t\<lparr>t_values := fetched_values VMeasurement vs\<rparr>) (st\<lparr>mb_measurementsStatus := Done\<rparr>)))"

datatype measurements_event =
    MsChosen string
  | MsNameTyped string
  | MsFetched nat "string list option"

definition measurements_step :: "measurements_builder \<Rightarrow> measurements_event \<Rightarrow> measurements_builder" where
  "measurements_step st e =
     (case e of
        MsChosen db \<Rightarrow> handleChooseDatabase_m True db st
      | MsNameTyped s \<Rightarrow> st\<lparr>mb_template := (mb_template st)\<lparr>t_tempVar := s\<rparr>\<rparr>
      | MsFetched i ans \<Rightarrow>
          (if i < length (mb_requests st)
           then measurements_received (mb_requests st ! i) ans (st\<lparr>mb_requests := take i (mb_requests st) @ drop (Suc i) (mb_requests st)\<rparr>)
           else st))"

definition measurements_ordered :: "(string \<Rightarrow> string list) \<Rightarrow> measurements_builder \<Rightarrow> measurements_event \<Rightarrow> bool" where
  "measurements_ordered srv st e =
     (case e of
        MsFetched i ans \<Rightarrow> i = 0 \<and> ans \<noteq> None \<and> (case mb_requests st of FetchMs db _ # _ \<Rightarrow> ans = Some (srv db) | _ \<Rightarrow> True)
      | _ \<Rightarrow> True)"

fun goes_by :: "string \<Rightarrow> measurements_fetch \<Rightarrow> bool" where
  "goes_by sel MsDatabases = True"
| "goes_by sel (FetchMs db t) = (db = sel \<and> query_part tq_db t = db)"

definition last_measurements_ok :: "(string \<Rightarrow> string list) \<Rightarrow> measurements_builder \<Rightarrow> bool" where
  \<comment> \<open>the last request goes by a template that has the database selected, and without one the values are there; until the databases are known the
    template has it itself\<close>
  "last_measurements_ok srv st \<longleftrightarrow>
     MsDatabases \<notin> set (tl (mb_requests st)) \<and>
     (if mb_requests st = []
      then query_part tq_db (mb_template st) = mb_selectedDatabase st \<and> map tv_value (t_values (mb_template st)) = srv (mb_selectedDatabase st)
      else (hd (mb_requests st) = MsDatabases \<longrightarrow> query_part tq_db (mb_template st) = mb_selectedDatabase st) \<and>
        goes_by (mb_selectedDatabase st) (last (mb_requests st)))"

lemma query_part_update [simp]: "query_part f (t\<lparr>t_query := Some q\<rparr>) = (case f q of None \<Rightarrow> [] | Some s \<Rightarrow> s)"
  by (simp add: query_part_def)

lemma query_part_values [simp]: "query_part f (t\<lparr>t_values := vs\<rparr>) = query_part f t"
  by (simp add: query_part_def)

lemma query_part_reconciled [simp]: "query_part f (reconcileSelectedAndLocalSelectedValues t u) = query_part f u"
  by (simp add: query_part_def)

lemma load_measurements_ok:
  assumes "query_part tq_db (mb_template st) = mb_selectedDatabase st" and "MsDatabases \<notin> set (tl (mb_requests st))"
  shows "last_measurements_ok srv (loadMeasurements_m st)"
  using assms by (cases "mb_requests st") (simp_all add: last_measurements_ok_def loadMeasurements_m_def measurements_sends_def)

lemma choose_template_m:
  "query_part tq_db (mb_template (handleChooseDatabase_m batched db st)) = db" "mb_selectedDatabase (handleChooseDatabase_m batched db st) = db"
  by (simp_all add: handleChooseDatabase_m_def loadMeasurements_m_def measurements_sends_def onUpdateTemplate_m_def Let_def)

lemma measurements_step_ok:
  assumes ok: "last_measurements_ok srv st" and e: "measurements_ordered srv st e"
  shows "last_measurements_ok srv (measurements_step st e)"
proof (cases e)
  case (MsChosen db)
  then show ?thesis
    by (simp add: measurements_step_def handleChooseDatabase_m_def Let_def) (rule load_measurements_ok; use ok in \<open>simp add: onUpdateTemplate_m_def last_measurements_ok_def\<close>)
next
  case (MsNameTyped s)
  have "query_part tq_db ((mb_template st)\<lparr>t_tempVar := s\<rparr>) = query_part tq_db (mb_template st)" by (simp add: query_part_def)
  then show ?thesis using ok MsNameTyped by (simp add: measurements_step_def last_measurements_ok_def)
next
  case (MsFetched i ans)
  show ?thesis
  proof (cases "mb_requests st")
    case (Cons r rs)
    obtain xs where i: "i = 0" and xs: "ans = Some xs" and srv: "\<And>db t. r = FetchMs db t \<Longrightarrow> xs = srv db"
      using e MsFetched Cons by (cases r) (auto simp: measurements_ordered_def)
    have step: "measurements_step st e = measurements_received r (Some xs) (st\<lparr>mb_requests := rs\<rparr>)"
      using MsFetched Cons i xs by (simp add: measurements_step_def)
    show ?thesis
    proof (cases r)
      case MsDatabases
      have rs: "MsDatabases \<notin> set rs" "query_part tq_db (mb_template st) = mb_selectedDatabase st"
        using ok Cons MsDatabases by (simp_all add: last_measurements_ok_def)
      let ?st1 = "st\<lparr>mb_requests := rs, mb_databases := xs, mb_databasesStatus := Done\<rparr>"
      let ?st2 = "if mb_selectedDatabase st = [] then handleChooseDatabase_m False (first_or_empty xs) ?st1 else ?st1"
      have "MsDatabases \<notin> set (tl (mb_requests ?st2))"
        using rs(1) by (cases rs) (simp_all add: handleChooseDatabase_m_def loadMeasurements_m_def measurements_sends_def onUpdateTemplate_m_def Let_def)
      moreover have "query_part tq_db (mb_template ?st2) = mb_selectedDatabase ?st2" using rs(2) by (simp add: choose_template_m)
      ultimately have "last_measurements_ok srv (loadMeasurements_m ?st2)" by (rule load_measurements_ok[rotated])
      then show ?thesis unfolding step using MsDatabases by (simp add: measurements_received_def Let_def)
    next
      case (FetchMs db t)
      then show ?thesis using ok Cons srv unfolding step
        by (auto simp: measurements_received_def last_measurements_ok_def onUpdateTemplate_m_def dest: hd_in_set list.set_sel(2) split: if_splits)
    qed
  qed (use ok MsFetched in \<open>simp add: measurements_step_def\<close>)
qed

interpretation measurements_builder: invariant_steps measurements_step "last_measurements_ok srv" "measurements_ordered srv" for srv
  by unfold_locales (rule measurements_step_ok)

text \<open>When no call fails and answers come in order, the template has the database selected and its measurements.\<close>

theorem measurements_settle:
  assumes "run_ok (measurements_ordered srv) measurements_step (open_measurements_builder t) es"
    and "st = run_store measurements_step (open_measurements_builder t) es" and "mb_requests st = []"
  shows "query_part tq_db (mb_template st) = mb_selectedDatabase st \<and> map tv_value (t_values (mb_template st)) = srv (mb_selectedDatabase st)"
proof -
  have "last_measurements_ok srv (open_measurements_builder t)"
    by (simp add: last_measurements_ok_def open_measurements_builder_def measurements_sends_def)
  then have "last_measurements_ok srv st" using measurements_builder.run_inv_from assms(1,2) by blast
  then show ?thesis using assms(3) by (simp add: last_measurements_ok_def)
qed

theorem measurements_settle_witness:
  "let st = run_store measurements_step (open_measurements_builder (default_template ''u'' TMeasurements))
       [MsFetched 0 (Some [''d'', ''e'']), MsChosen ''e'', MsFetched 0 (Some [''d1'']), MsFetched 0 (Some [''d1'']), MsFetched 0 (Some [''e1''])]
   in query_part tq_db (mb_template st) = ''e'' \<and> map tv_value (t_values (mb_template st)) = [''e1'']"
proof -
  let ?es = "[MsFetched 0 (Some [''d'', ''e'']), MsChosen ''e'', MsFetched 0 (Some [''d1'']), MsFetched 0 (Some [''d1'']), MsFetched 0 (Some [''e1''])]"
  let ?st = "run_store measurements_step (open_measurements_builder (default_template ''u'' TMeasurements)) ?es"
  have ok: "run_ok (measurements_ordered (\<lambda>db. [db @ ''1''])) measurements_step (open_measurements_builder (default_template ''u'' TMeasurements)) ?es"
    by code_simp
  have "mb_requests ?st = []" "mb_selectedDatabase ?st = ''e''" by code_simp+
  then show ?thesis using measurements_settle[OF ok refl] by (simp add: Let_def)
qed

text \<open>
  In another order they lose the database: the request that follows the choice of the first database was sent before the template had it.
\<close>

lemma measurements_lose_database:
  "let st = run_store measurements_step (open_measurements_builder (default_template ''u'' TMeasurements))
       [MsFetched 0 (Some [''d'']), MsFetched 1 (Some [''m'']), MsFetched 0 (Some [''m''])]
   in mb_requests st = [] \<and> mb_selectedDatabase st = ''d'' \<and> query_part tq_db (mb_template st) = []"
  by code_simp

section \<open>The databases of a source\<close>

definition databases_loaded :: "template \<Rightarrow> string list option \<Rightarrow> remote_data_state \<times> template option" where
  \<comment> \<open>the status, and the template handed to the editor\<close>
  "databases_loaded t ans =
     (case ans of None \<Rightarrow> (Errored, None) | Some dbs \<Rightarrow> (Done, Some (t\<lparr>t_values := fetched_values VDatabase dbs\<rparr>)))"

section \<open>A meta query\<close>

record meta_builder =
  mq_template :: template
  mq_metaQuery :: string
  mq_metaQueryInput :: string
  mq_status :: remote_data_state
  mq_debounced :: bool \<comment> \<open>the debounced change is due\<close>
  mq_requests :: "template list" \<comment> \<open>the templates to be hydrated\<close>

definition executeQuery :: "meta_builder \<Rightarrow> meta_builder" where
  \<comment> \<open>up to its \<open>await\<close>\<close>
  "executeQuery st =
     (if isInvalidMetaQuery (mq_metaQuery st) then st
      else st\<lparr>mq_status := Loading,
        mq_requests := mq_requests st @ [(mq_template st)\<lparr>t_query := Some (no_query\<lparr>tq_influxql := Some (mq_metaQuery st)\<rparr>)\<rparr>]\<rparr>)"

definition open_meta_builder :: "template \<Rightarrow> meta_builder" where
  "open_meta_builder t =
     executeQuery \<lparr>mq_template = t, mq_metaQuery = query_part tq_influxql t, mq_metaQueryInput = query_part tq_influxql t, mq_status = NotStarted,
       mq_debounced = False, mq_requests = []\<rparr>"

definition handleMetaQueryInputChange :: "string \<Rightarrow> meta_builder \<Rightarrow> meta_builder" where
  "handleMetaQueryInputChange val st = st\<lparr>mq_metaQueryInput := val, mq_debounced := True\<rparr>"

definition handleMetaQueryChange :: "meta_builder \<Rightarrow> meta_builder" where
  \<comment> \<open>when the delay is over\<close>
  "handleMetaQueryChange st =
     (if \<not> mq_debounced st then st
      else if mq_metaQuery st = mq_metaQueryInput st then st\<lparr>mq_debounced := False\<rparr>
      else executeQuery (st\<lparr>mq_debounced := False, mq_metaQuery := mq_metaQueryInput st\<rparr>))"

definition showInvalidMetaQueryMessage :: "meta_builder \<Rightarrow> bool" where
  "showInvalidMetaQueryMessage st \<longleftrightarrow> isInvalidMetaQuery (mq_metaQuery st) \<and> mq_metaQuery st \<noteq> []"

definition select_first :: "template \<Rightarrow> template" where
  "select_first t = t\<lparr>t_values := (case t_values t of [] \<Rightarrow> [] | v # vs \<Rightarrow> v\<lparr>tv_selected := True\<rparr> # vs)\<rparr>"

definition meta_received :: "template option \<Rightarrow> meta_builder \<Rightarrow> meta_builder" where
  \<comment> \<open>of the template hydrated, none when that failed\<close>
  "meta_received ans st =
     (case ans of
        None \<Rightarrow> st\<lparr>mq_status := Errored\<rparr>
      | Some t \<Rightarrow> st\<lparr>mq_status := Done, mq_template := reconcileSelectedAndLocalSelectedValues (mq_template st) (select_first t)\<rparr>)"

text \<open>A query that is not one of the six leaves the values, and the query of the template, as they were.\<close>

lemma invalid_keeps_template:
  "isInvalidMetaQuery val \<Longrightarrow> mq_template (handleMetaQueryChange (handleMetaQueryInputChange val st)) = mq_template st \<and>
    mq_requests (handleMetaQueryChange (handleMetaQueryInputChange val st)) = mq_requests st"
  by (simp add: handleMetaQueryChange_def handleMetaQueryInputChange_def executeQuery_def)

lemma extra_space_invalid: "isInvalidMetaQuery ''SHOW  DATABASES'' \<and> \<not> isInvalidMetaQuery ''  show databases''"
  by code_simp

end
