(* ===== verification/Admin_Chronograf.thy ===== *)
theory Admin_Chronograf
  imports Store_Prelude "HOL-Library.Multiset"
begin

text \<open>
  The administration of Chronograf itself: users, organizations and the mappings that sign new users up. The store
  (\<open>ui/src/admin/reducers/chronograf.js\<close>), its actions (\<open>ui/src/admin/actions/chronograf.js\<close>) and the calls of the pages
  (\<open>ui/src/admin/containers/chronograf\<close>). Every call is optimistic: it changes the list before the server has answered and
  takes the change back when the server refuses.
\<close>

section \<open>Data\<close>

record chron_user =
  cu_id :: "string option"
  cu_tempID :: "string option"
  cu_name :: string
  cu_provider :: string
  cu_scheme :: string
  cu_superAdmin :: bool
  cu_roles :: "(string \<times> string) list" \<comment> \<open>the names of roles, and their organizations\<close>
  cu_self :: "string option" \<comment> \<open>\<open>links.self\<close>; a user that is being created has no links\<close>

record chron_org =
  co_id :: "string option"
  co_tempID :: "string option"
  co_name :: string
  co_defaultRole :: string
  co_self :: "string option"

record mapping =
  cm_id :: "string option"
  cm_tempID :: "string option"
  cm_scheme :: string
  cm_provider :: string
  cm_providerOrganization :: string
  cm_organizationId :: string

record chron_admin =
  ca_users :: "chron_user list"
  ca_organizations :: "chron_org list"
  ca_mappings :: "mapping list"

datatype chron_action =
    CLoadUsers "chron_user list"
  | CLoadOrganizations "chron_org list"
  | CAddUser chron_user
  | CUpdateUser chron_user chron_user
  | CSyncUser chron_user chron_user
  | CRemoveUser chron_user
  | CAddOrganization chron_org
  | CRenameOrganization chron_org string
  | CSyncOrganization chron_org chron_org
  | CRemoveOrganization chron_org
  | CLoadMappings "mapping list"
  | CUpdateMapping mapping mapping
  | CAddMapping mapping
  | CRemoveMapping mapping

section \<open>The reducer\<close>

definition isSameUser :: "chron_user \<Rightarrow> chron_user \<Rightarrow> bool" where
  "isSameUser userA userB \<longleftrightarrow> cu_name userA = cu_name userB \<and> cu_provider userA = cu_provider userB \<and> cu_scheme userA = cu_scheme userB"

definition truthy_id :: "string option \<Rightarrow> bool" where
  "truthy_id i \<longleftrightarrow> i \<noteq> None \<and> i \<noteq> Some []"

definition replaceMapping :: "mapping \<Rightarrow> mapping \<Rightarrow> mapping \<Rightarrow> mapping" where
  "replaceMapping m staleMapping updatedMapping =
     (if truthy_id (cm_tempID staleMapping) \<and> cm_tempID m = cm_tempID staleMapping then updatedMapping
      else if cm_id m = cm_id staleMapping then updatedMapping
      else m)"

definition map_by_link :: "('a \<Rightarrow> string option) \<Rightarrow> 'a \<Rightarrow> ('a \<Rightarrow> 'a) \<Rightarrow> 'a list \<Rightarrow> 'a list result" where
  \<comment> \<open>the entries with the link of an entry change; reading the link of an entry without links throws\<close>
  "map_by_link self x f xs =
     (if \<exists>y\<in>set xs. self y = None \<or> self x = None then Inl TypeError
      else Inr (map (\<lambda>y. if self y = self x then f y else y) xs))"

definition adminChronograf :: "chron_admin \<Rightarrow> chron_action \<Rightarrow> chron_admin result" where
  "adminChronograf st action =
     (case action of
        CLoadUsers us \<Rightarrow> Inr (st\<lparr>ca_users := us\<rparr>)
      | CLoadOrganizations os \<Rightarrow> Inr (st\<lparr>ca_organizations := os\<rparr>)
      | CAddUser user \<Rightarrow> Inr (st\<lparr>ca_users := ca_users st @ [user]\<rparr>)
      | CUpdateUser user updatedUser \<Rightarrow>
          map_res (\<lambda>us. st\<lparr>ca_users := us\<rparr>) (map_by_link cu_self user (\<lambda>_. updatedUser) (ca_users st))
      | CSyncUser staleUser syncedUser \<Rightarrow>
          Inr (st\<lparr>ca_users := map (\<lambda>u. if isSameUser u staleUser then syncedUser else u) (ca_users st)\<rparr>)
      | CRemoveUser user \<Rightarrow>
          Inr (st\<lparr>ca_users := filter (\<lambda>u. if truthy_id (cu_tempID u) then cu_tempID u \<noteq> cu_tempID user else cu_id u \<noteq> cu_id user) (ca_users st)\<rparr>)
      | CAddOrganization organization \<Rightarrow> Inr (st\<lparr>ca_organizations := organization # ca_organizations st\<rparr>)
      | CRenameOrganization organization newName \<Rightarrow>
          map_res (\<lambda>os. st\<lparr>ca_organizations := os\<rparr>)
            (map_by_link co_self organization (\<lambda>og. og\<lparr>co_name := newName\<rparr>) (ca_organizations st))
      | CSyncOrganization staleOrganization syncedOrganization \<Rightarrow>
          Inr (st\<lparr>ca_organizations := map (\<lambda>og. if co_name og = co_name staleOrganization then syncedOrganization else og) (ca_organizations st)\<rparr>)
      | CRemoveOrganization organization \<Rightarrow>
          Inr (st\<lparr>ca_organizations := filter (\<lambda>og. if truthy_id (co_tempID organization) then co_tempID og \<noteq> co_tempID organization
             else co_id og \<noteq> co_id organization) (ca_organizations st)\<rparr>)
      | CLoadMappings ms \<Rightarrow> Inr (st\<lparr>ca_mappings := ms\<rparr>)
      | CUpdateMapping staleMapping updatedMapping \<Rightarrow>
          Inr (st\<lparr>ca_mappings := map (\<lambda>m. replaceMapping m staleMapping updatedMapping) (ca_mappings st)\<rparr>)
      | CAddMapping mapping \<Rightarrow> Inr (st\<lparr>ca_mappings := ca_mappings st @ [mapping]\<rparr>)
      | CRemoveMapping mapping \<Rightarrow>
          Inr (st\<lparr>ca_mappings := filter (\<lambda>m. if truthy_id (cm_tempID mapping) then cm_tempID m \<noteq> cm_tempID mapping
             else cm_id m \<noteq> cm_id mapping) (ca_mappings st)\<rparr>))"

section \<open>Calls\<close>

datatype chron_dispatch =
    CDo chron_action
  | CNotify string
  | CErrorThrown
  | CLater chron_action \<comment> \<open>after \<open>REVERT_STATE_DELAY\<close>\<close>

definition revert_later :: "http_error \<Rightarrow> chron_action \<Rightarrow> chron_dispatch list" where
  \<comment> \<open>what the failure of a creation does: it reads the message of the answer's data, and throws when there is no data\<close>
  "revert_later e a = (case e of Http_Error _ None \<Rightarrow> [] | Http_Error _ (Some message) \<Rightarrow> [CErrorThrown, CLater a])"

definition loadUsersAsync :: "chron_user list answer \<Rightarrow> chron_dispatch list" where
  "loadUsersAsync ans = (case ans of Inr us \<Rightarrow> [CDo (CLoadUsers us)] | Inl _ \<Rightarrow> [CErrorThrown])"

definition loadOrganizationsAsync :: "chron_org list answer \<Rightarrow> chron_dispatch list" where
  "loadOrganizationsAsync ans = (case ans of Inr os \<Rightarrow> [CDo (CLoadOrganizations os)] | Inl _ \<Rightarrow> [CErrorThrown])"

definition loadMappingsAsync :: "mapping list answer \<Rightarrow> chron_dispatch list" where
  "loadMappingsAsync ans = (case ans of Inr ms \<Rightarrow> [CDo (CLoadMappings ms)] | Inl _ \<Rightarrow> [CErrorThrown])"

definition createMappingAsync :: "string \<Rightarrow> mapping \<Rightarrow> mapping answer \<Rightarrow> chron_dispatch list" where
  "createMappingAsync uid mapping ans =
     (let mappingWithTempId = mapping\<lparr>cm_tempID := Some uid\<rparr>
      in CDo (CAddMapping mappingWithTempId) #
         (case ans of Inr data \<Rightarrow> [CDo (CUpdateMapping mappingWithTempId data)] | Inl e \<Rightarrow> revert_later e (CRemoveMapping mappingWithTempId)))"

definition deleteMappingAsync :: "mapping \<Rightarrow> unit answer \<Rightarrow> chron_dispatch list" where
  "deleteMappingAsync mapping ans =
     CDo (CRemoveMapping mapping) # (case ans of Inr _ \<Rightarrow> [CNotify ''mappingDeleted''] | Inl _ \<Rightarrow> [CErrorThrown, CDo (CAddMapping mapping)])"

definition updateMappingAsync :: "mapping \<Rightarrow> mapping \<Rightarrow> unit answer \<Rightarrow> chron_dispatch list" where
  "updateMappingAsync staleMapping updatedMapping ans =
     CDo (CUpdateMapping staleMapping updatedMapping) #
       (case ans of Inr _ \<Rightarrow> [] | Inl _ \<Rightarrow> [CErrorThrown, CDo (CUpdateMapping updatedMapping staleMapping)])"

definition createUserAsync :: "string \<Rightarrow> chron_user \<Rightarrow> chron_user answer \<Rightarrow> chron_dispatch list" where
  "createUserAsync uid user ans =
     (let userWithTempID = user\<lparr>cu_tempID := Some uid\<rparr>
      in CDo (CAddUser userWithTempID) #
         (case ans of Inr data \<Rightarrow> [CDo (CSyncUser userWithTempID data)] | Inl e \<Rightarrow> revert_later e (CRemoveUser userWithTempID)))"

definition updateUserAsync :: "chron_user \<Rightarrow> chron_user \<Rightarrow> chron_user answer \<Rightarrow> chron_dispatch list" where
  "updateUserAsync user updatedUser ans =
     CDo (CUpdateUser user updatedUser) #
       (case ans of Inr data \<Rightarrow> [CNotify ''userUpdated'', CDo (CSyncUser user data)] | Inl _ \<Rightarrow> [CErrorThrown, CDo (CSyncUser user user)])"

definition deleteUserAsync :: "chron_user \<Rightarrow> unit answer \<Rightarrow> chron_dispatch list" where
  "deleteUserAsync user ans =
     CDo (CRemoveUser user) # (case ans of Inr _ \<Rightarrow> [CNotify ''userDeleted''] | Inl _ \<Rightarrow> [CErrorThrown, CDo (CAddUser user)])"

definition createOrganizationAsync :: "string \<Rightarrow> chron_org \<Rightarrow> chron_org answer \<Rightarrow> chron_dispatch list" where
  "createOrganizationAsync uid organization ans =
     (let organizationWithTempID = organization\<lparr>co_tempID := Some uid\<rparr>
      in CDo (CAddOrganization organizationWithTempID) #
         (case ans of Inr data \<Rightarrow> [CDo (CSyncOrganization organization data)] | Inl e \<Rightarrow> revert_later e (CRemoveOrganization organizationWithTempID)))"

definition updateOrganizationAsync :: "chron_org \<Rightarrow> chron_org \<Rightarrow> chron_org answer \<Rightarrow> chron_dispatch list" where
  "updateOrganizationAsync organization updatedOrganization ans =
     CDo (CRenameOrganization organization (co_name updatedOrganization)) #
       (case ans of Inr data \<Rightarrow> [CDo (CSyncOrganization updatedOrganization data)]
        | Inl _ \<Rightarrow> [CErrorThrown, CDo (CSyncOrganization organization organization)])"

definition deleteOrganizationAsync :: "chron_org \<Rightarrow> unit answer \<Rightarrow> chron_dispatch list" where
  "deleteOrganizationAsync organization ans =
     CDo (CRemoveOrganization organization) #
       (case ans of Inr _ \<Rightarrow> [CNotify ''orgDeleted''] | Inl _ \<Rightarrow> [CErrorThrown, CDo (CAddOrganization organization)])"

fun chron_effect :: "chron_admin \<Rightarrow> chron_dispatch list \<Rightarrow> chron_admin" where
  \<comment> \<open>an action whose reducer throws ends the call\<close>
  "chron_effect st [] = st"
| "chron_effect st (CDo a # ds) = (case adminChronograf st a of Inl _ \<Rightarrow> st | Inr st' \<Rightarrow> chron_effect st' ds)"
| "chron_effect st (CLater a # ds) = (case adminChronograf st a of Inl _ \<Rightarrow> st | Inr st' \<Rightarrow> chron_effect st' ds)"
| "chron_effect st (_ # ds) = chron_effect st ds"

text \<open>The calls that change something, each with what the server answers.\<close>

datatype chron_call =
    CreateMapping string mapping "mapping answer"
  | DeleteMapping mapping "unit answer"
  | ChangeMapping mapping mapping "unit answer"
  | CreateUser string chron_user "chron_user answer"
  | ChangeUser chron_user chron_user "chron_user answer"
  | DeleteUser chron_user "unit answer"
  | CreateOrganization string chron_org "chron_org answer"
  | ChangeOrganization chron_org chron_org "chron_org answer"
  | DeleteOrganization chron_org "unit answer"

fun call_dispatches :: "chron_call \<Rightarrow> chron_dispatch list" where
  "call_dispatches (CreateMapping uid m ans) = createMappingAsync uid m ans"
| "call_dispatches (DeleteMapping m ans) = deleteMappingAsync m ans"
| "call_dispatches (ChangeMapping m m' ans) = updateMappingAsync m m' ans"
| "call_dispatches (CreateUser uid u ans) = createUserAsync uid u ans"
| "call_dispatches (ChangeUser u u' ans) = updateUserAsync u u' ans"
| "call_dispatches (DeleteUser u ans) = deleteUserAsync u ans"
| "call_dispatches (CreateOrganization uid og ans) = createOrganizationAsync uid og ans"
| "call_dispatches (ChangeOrganization og og' ans) = updateOrganizationAsync og og' ans"
| "call_dispatches (DeleteOrganization og ans) = deleteOrganizationAsync og ans"

definition chron_call_step :: "chron_admin \<Rightarrow> chron_call \<Rightarrow> chron_admin" where
  "chron_call_step st c = chron_effect st (call_dispatches c)"

section \<open>What the server holds\<close>

type_synonym chron_contents = "chron_user multiset \<times> chron_org multiset \<times> mapping multiset"

definition chron_contents :: "chron_admin \<Rightarrow> chron_contents" where
  "chron_contents st = (mset (ca_users st), mset (ca_organizations st), mset (ca_mappings st))"

definition swap_in :: "'a \<Rightarrow> 'a \<Rightarrow> 'a multiset \<Rightarrow> 'a multiset" where
  "swap_in old new X = add_mset new (X - {#old#})"

fun chron_call_spec :: "chron_contents \<Rightarrow> chron_call \<Rightarrow> chron_contents" where
  \<comment> \<open>a call that is refused changes nothing\<close>
  "chron_call_spec (U, G, M) (CreateMapping _ _ (Inr m)) = (U, G, add_mset m M)"
| "chron_call_spec (U, G, M) (DeleteMapping m (Inr _)) = (U, G, M - {#m#})"
| "chron_call_spec (U, G, M) (ChangeMapping m m' (Inr _)) = (U, G, swap_in m m' M)"
| "chron_call_spec (U, G, M) (CreateUser _ _ (Inr u)) = (add_mset u U, G, M)"
| "chron_call_spec (U, G, M) (ChangeUser u _ (Inr u')) = (swap_in u u' U, G, M)"
| "chron_call_spec (U, G, M) (DeleteUser u (Inr _)) = (U - {#u#}, G, M)"
| "chron_call_spec (U, G, M) (CreateOrganization _ _ (Inr g)) = (U, add_mset g G, M)"
| "chron_call_spec (U, G, M) (ChangeOrganization g _ (Inr g')) = (U, swap_in g g' G, M)"
| "chron_call_spec (U, G, M) (DeleteOrganization g (Inr _)) = (U, G - {#g#}, M)"
| "chron_call_spec X _ = X"

definition user_identity :: "chron_user \<Rightarrow> string \<times> string \<times> string" where
  "user_identity u = (cu_name u, cu_provider u, cu_scheme u)"

definition user_settled :: "chron_user \<Rightarrow> bool" where
  "user_settled u \<longleftrightarrow> cu_id u \<noteq> None \<and> cu_tempID u = None \<and> cu_self u \<noteq> None"

definition org_settled :: "chron_org \<Rightarrow> bool" where
  "org_settled g \<longleftrightarrow> co_id g \<noteq> None \<and> co_tempID g = None \<and> co_self g \<noteq> None"

definition mapping_settled :: "mapping \<Rightarrow> bool" where
  "mapping_settled m \<longleftrightarrow> cm_id m \<noteq> None \<and> cm_tempID m = None"

definition users_settled :: "chron_user list \<Rightarrow> bool" where
  \<comment> \<open>every user is one of the server, told apart by its id, its link and its name at its provider\<close>
  "users_settled us \<longleftrightarrow> list_all user_settled us \<and> distinct (map cu_id us) \<and> distinct (map cu_self us) \<and> distinct (map user_identity us)"

definition orgs_settled :: "chron_org list \<Rightarrow> bool" where
  "orgs_settled gs \<longleftrightarrow> list_all org_settled gs \<and> distinct (map co_id gs) \<and> distinct (map co_self gs) \<and> distinct (map co_name gs)"

definition mappings_settled :: "mapping list \<Rightarrow> bool" where
  "mappings_settled ms \<longleftrightarrow> list_all mapping_settled ms \<and> distinct (map cm_id ms)"

definition settled :: "chron_admin \<Rightarrow> bool" where
  "settled st \<longleftrightarrow> users_settled (ca_users st) \<and> orgs_settled (ca_organizations st) \<and> mappings_settled (ca_mappings st)"

definition others :: "'a \<Rightarrow> 'a list \<Rightarrow> 'a list" where
  "others x xs = filter (\<lambda>y. y \<noteq> x) xs"

definition refused_ok :: "'a answer \<Rightarrow> bool" where
  \<comment> \<open>a refusal comes with a message\<close>
  "refused_ok ans = (case ans of Inl (Http_Error _ None) \<Rightarrow> False | _ \<Rightarrow> True)"

definition answered :: "('a \<Rightarrow> bool) \<Rightarrow> 'a answer \<Rightarrow> bool" where
  "answered P ans = (case ans of Inl _ \<Rightarrow> True | Inr x \<Rightarrow> P x)"

definition chron_call_ok :: "chron_admin \<Rightarrow> chron_call \<Rightarrow> bool" where
  \<comment> \<open>what is changed or deleted is on the page, what is new has no id yet, and what the server answers is an entry of its own; an
    organization whose change is refused keeps its name\<close>
  "chron_call_ok st c =
     (case c of
        CreateMapping uid m ans \<Rightarrow> uid \<noteq> [] \<and> cm_id m = None \<and> refused_ok ans \<and> answered (\<lambda>d. mappings_settled (d # ca_mappings st)) ans
      | DeleteMapping m ans \<Rightarrow> m \<in> set (ca_mappings st)
      | ChangeMapping m m' ans \<Rightarrow> m \<in> set (ca_mappings st) \<and> cm_id m' = cm_id m \<and> cm_tempID m' = None
      | CreateUser uid u ans \<Rightarrow> uid \<noteq> [] \<and> cu_id u = None \<and> refused_ok ans \<and>
          answered (\<lambda>d. users_settled (d # ca_users st) \<and> user_identity d = user_identity u) ans
      | ChangeUser u u' ans \<Rightarrow> u \<in> set (ca_users st) \<and> user_identity u' = user_identity u \<and>
          answered (\<lambda>d. users_settled (d # others u (ca_users st))) ans
      | DeleteUser u ans \<Rightarrow> u \<in> set (ca_users st)
      | CreateOrganization uid g ans \<Rightarrow> uid \<noteq> [] \<and> refused_ok ans \<and>
          answered (\<lambda>d. orgs_settled (d # ca_organizations st) \<and> co_name d = co_name g) ans
      | ChangeOrganization g g' ans \<Rightarrow> g \<in> set (ca_organizations st) \<and>
          (case ans of Inl _ \<Rightarrow> co_name g' = co_name g
           | Inr d \<Rightarrow> orgs_settled (d # others g (ca_organizations st)) \<and> co_name d = co_name g')
      | DeleteOrganization g ans \<Rightarrow> g \<in> set (ca_organizations st))"

section \<open>Lists of entries\<close>

definition swap :: "'a \<Rightarrow> 'a \<Rightarrow> 'a list \<Rightarrow> 'a list" where
  "swap x z xs = map (\<lambda>y. if y = x then z else y) xs"

lemma keyed_eq: "distinct (map key xs) \<Longrightarrow> x \<in> set xs \<Longrightarrow> y \<in> set xs \<Longrightarrow> key y = key x \<longleftrightarrow> y = x"
  by (auto simp: distinct_map dest: inj_onD)

lemma map_keyed_swap:
  assumes "distinct (map key xs)" and "x \<in> set xs"
  shows "map (\<lambda>y. if key y = key x then z else y) xs = swap x z xs"
  unfolding swap_def by (rule map_cong[OF refl]) (simp add: keyed_eq[OF assms])

lemma filter_keyed_others:
  assumes "distinct (map key xs)" and "x \<in> set xs"
  shows "filter (\<lambda>y. key y \<noteq> key x) xs = others x xs"
  unfolding others_def by (rule filter_cong[OF refl]) (simp add: keyed_eq[OF assms])

lemma mset_swap: "distinct xs \<Longrightarrow> x \<in> set xs \<Longrightarrow> mset (swap x z xs) = swap_in x z (mset xs)"
proof (induction xs)
  case (Cons a xs)
  show ?case
  proof (cases "a = x")
    case True
    then have "swap x z xs = xs" using Cons.prems by (auto simp: swap_def intro!: map_idI)
    then show ?thesis using True by (simp add: swap_def swap_in_def)
  next
    case False
    then show ?thesis using Cons by (simp add: swap_def swap_in_def add_mset_commute)
  qed
qed simp

lemma mset_others: "distinct xs \<Longrightarrow> x \<in> set xs \<Longrightarrow> mset (others x xs) = mset xs - {#x#}"
proof (induction xs)
  case (Cons a xs)
  show ?case
  proof (cases "a = x")
    case True
    then have "others x (a # xs) = xs" using Cons.prems by (auto simp: others_def filter_id_conv)
    then show ?thesis using True by simp
  next
    case False
    then have "others x (a # xs) = a # others x xs" by (simp add: others_def)
    then show ?thesis using False Cons by simp
  qed
qed simp

lemma mset_others_add: "distinct xs \<Longrightarrow> x \<in> set xs \<Longrightarrow> add_mset x (mset (others x xs)) = mset xs"
  by (simp add: mset_others)

lemma mset_swap_others: "distinct xs \<Longrightarrow> x \<in> set xs \<Longrightarrow> mset (swap x z xs) = mset (z # others x xs)"
  by (simp add: mset_swap mset_others swap_in_def)

text \<open>Being settled does not depend on the order of the entries.\<close>

lemma users_settled_mset: "mset us = mset vs \<Longrightarrow> users_settled us \<longleftrightarrow> users_settled vs"
  unfolding users_settled_def list_all_iff by (metis mset_eq_imp_distinct_iff mset_eq_setD mset_map)

lemma orgs_settled_mset: "mset gs = mset hs \<Longrightarrow> orgs_settled gs \<longleftrightarrow> orgs_settled hs"
  unfolding orgs_settled_def list_all_iff by (metis mset_eq_imp_distinct_iff mset_eq_setD mset_map)

lemma mappings_settled_mset: "mset ms = mset ns \<Longrightarrow> mappings_settled ms \<longleftrightarrow> mappings_settled ns"
  unfolding mappings_settled_def list_all_iff by (metis mset_eq_imp_distinct_iff mset_eq_setD mset_map)

lemma settled_sub:
  "users_settled us \<Longrightarrow> users_settled (others u us)"
  "orgs_settled gs \<Longrightarrow> orgs_settled (others g gs)"
  "mappings_settled ms \<Longrightarrow> mappings_settled (others m ms)"
  by (auto simp: users_settled_def orgs_settled_def mappings_settled_def others_def list_all_iff distinct_map_filter)

lemma settled_distinct:
  "users_settled us \<Longrightarrow> distinct us"
  "orgs_settled gs \<Longrightarrow> distinct gs"
  "mappings_settled ms \<Longrightarrow> distinct ms"
  by (auto simp: users_settled_def orgs_settled_def mappings_settled_def distinct_map)

lemma isSameUser_iff: "isSameUser a b \<longleftrightarrow> user_identity a = user_identity b"
  by (auto simp: isSameUser_def user_identity_def)

text \<open>What the entries of a settled list are not.\<close>

lemma settled_entry:
  "mappings_settled ms \<Longrightarrow> m \<in> set ms \<Longrightarrow> cm_id m \<noteq> None \<and> cm_tempID m = None"
  "users_settled us \<Longrightarrow> u \<in> set us \<Longrightarrow> cu_id u \<noteq> None \<and> cu_tempID u = None \<and> cu_self u \<noteq> None"
  "orgs_settled gs \<Longrightarrow> g \<in> set gs \<Longrightarrow> co_id g \<noteq> None \<and> co_tempID g = None \<and> co_self g \<noteq> None"
  by (auto simp: mappings_settled_def mapping_settled_def users_settled_def user_settled_def orgs_settled_def org_settled_def list_all_iff)

lemma settled_keys:
  "mappings_settled ms \<Longrightarrow> distinct (map cm_id ms)"
  "users_settled us \<Longrightarrow> distinct (map cu_id us)"
  "users_settled us \<Longrightarrow> distinct (map cu_self us)"
  "users_settled us \<Longrightarrow> distinct (map user_identity us)"
  "orgs_settled gs \<Longrightarrow> distinct (map co_id gs)"
  "orgs_settled gs \<Longrightarrow> distinct (map co_self gs)"
  "orgs_settled gs \<Longrightarrow> distinct (map co_name gs)"
  by (simp_all add: mappings_settled_def users_settled_def orgs_settled_def)

lemma settled_new:
  "orgs_settled (d # gs) \<Longrightarrow> g \<in> set gs \<Longrightarrow> co_name g \<noteq> co_name d"
  "users_settled (v # us) \<Longrightarrow> u \<in> set us \<Longrightarrow> user_identity u \<noteq> user_identity v"
  by (auto simp: orgs_settled_def users_settled_def dest: image_eqI[OF sym])

lemma refused_message: "refused_ok (Inl e) \<Longrightarrow> \<exists>k t. e = Http_Error k (Some t)"
  by (cases e) (auto simp: refused_ok_def split: option.splits)

lemmas chron_sim = chron_call_step_def adminChronograf_def chron_contents_def truthy_id_def revert_later_def Let_def

section \<open>Mappings\<close>

lemma create_mapping_call:
  assumes "mappings_settled (ca_mappings st)" and "chron_call_ok st (CreateMapping uid m ans)"
  shows "\<exists>ms. chron_call_step st (CreateMapping uid m ans) = st\<lparr>ca_mappings := ms\<rparr> \<and> mappings_settled ms \<and>
    mset ms = (case ans of Inl _ \<Rightarrow> mset (ca_mappings st) | Inr d \<Rightarrow> add_mset d (mset (ca_mappings st)))"
proof -
  let ?ms = "ca_mappings st"
  have ok: "uid \<noteq> []" "cm_id m = None" "refused_ok ans" "answered (\<lambda>d. mappings_settled (d # ?ms)) ans"
    using assms(2) by (simp_all add: chron_call_ok_def)
  have same: "map (\<lambda>x. replaceMapping x (m\<lparr>cm_tempID := Some uid\<rparr>) d) ?ms = ?ms" for d
    by (intro map_idI) (use settled_entry(1)[OF assms(1)] ok(2) in \<open>fastforce simp: replaceMapping_def truthy_id_def\<close>)
  have kept: "filter (\<lambda>x. cm_tempID x \<noteq> Some uid) ?ms = ?ms"
    using settled_entry(1)[OF assms(1)] by (simp add: filter_id_conv)
  show ?thesis
  proof (cases ans)
    case (Inl e)
    then obtain k t where e: "e = Http_Error k (Some t)" using refused_message[of e] ok(3) by blast
    have "chron_call_step st (CreateMapping uid m ans) = st\<lparr>ca_mappings := ?ms\<rparr>"
      using ok(1) kept by (simp add: Inl e createMappingAsync_def chron_sim)
    then show ?thesis using assms(1) Inl by (intro exI[of _ ?ms]) simp
  next
    case (Inr data)
    have "chron_call_step st (CreateMapping uid m ans) = st\<lparr>ca_mappings := ?ms @ [data]\<rparr>"
      using ok(1) same[of data] by (simp add: Inr createMappingAsync_def replaceMapping_def chron_sim)
    moreover have "mappings_settled (?ms @ [data])"
      using ok(4) Inr mappings_settled_mset[of "data # ?ms" "?ms @ [data]"] by (simp add: answered_def)
    ultimately show ?thesis using Inr by auto
  qed
qed

lemma delete_mapping_call:
  assumes ms: "mappings_settled (ca_mappings st)" and m: "m \<in> set (ca_mappings st)"
  shows "\<exists>ms. chron_call_step st (DeleteMapping m ans) = st\<lparr>ca_mappings := ms\<rparr> \<and> mappings_settled ms \<and>
    mset ms = (case ans of Inl _ \<Rightarrow> mset (ca_mappings st) | Inr _ \<Rightarrow> mset (ca_mappings st) - {#m#})"
proof -
  let ?o = "others m (ca_mappings st)"
  have f: "filter (\<lambda>x. cm_id x \<noteq> cm_id m) (ca_mappings st) = ?o" by (rule filter_keyed_others[OF settled_keys(1)[OF ms] m])
  note d = settled_distinct(3)[OF ms]
  have p: "mset (?o @ [m]) = mset (ca_mappings st)" using mset_others_add[OF d m] by simp
  have "chron_call_step st (DeleteMapping m ans) = st\<lparr>ca_mappings := (case ans of Inl _ \<Rightarrow> ?o @ [m] | Inr _ \<Rightarrow> ?o)\<rparr>"
    using f settled_entry(1)[OF ms m] by (simp add: deleteMappingAsync_def chron_sim split: sum.split)
  then show ?thesis
    using ms p settled_sub(3)[OF ms] mset_others[OF d m] mappings_settled_mset[OF p] by (auto split: sum.split)
qed

lemma change_mapping_call:
  assumes ms: "mappings_settled (ca_mappings st)" and ok: "chron_call_ok st (ChangeMapping m m' ans)"
  shows "\<exists>ms. chron_call_step st (ChangeMapping m m' ans) = st\<lparr>ca_mappings := ms\<rparr> \<and> mappings_settled ms \<and>
    mset ms = (case ans of Inl _ \<Rightarrow> mset (ca_mappings st) | Inr _ \<Rightarrow> swap_in m m' (mset (ca_mappings st)))"
proof -
  let ?ms = "ca_mappings st"
  have m: "m \<in> set ?ms" and m': "cm_id m' = cm_id m" "cm_tempID m' = None" using ok by (simp_all add: chron_call_ok_def)
  note dk = settled_keys(1)[OF ms]
  have rep: "map (\<lambda>x. replaceMapping x m m') ?ms = swap m m' ?ms"
    unfolding map_keyed_swap[OF dk m, symmetric] using settled_entry(1)[OF ms m] by (intro map_cong) (auto simp: replaceMapping_def truthy_id_def)
  have undo: "map (\<lambda>x. replaceMapping x m' m) (swap m m' ?ms) = ?ms"
    using m' keyed_eq[OF dk m] by (auto simp: swap_def replaceMapping_def truthy_id_def o_def intro!: map_idI)
  have "chron_call_step st (ChangeMapping m m' ans) = st\<lparr>ca_mappings := (case ans of Inl _ \<Rightarrow> ?ms | Inr _ \<Rightarrow> swap m m' ?ms)\<rparr>"
    using rep undo by (simp add: updateMappingAsync_def chron_sim split: sum.split)
  moreover have "mappings_settled (swap m m' ?ms)"
  proof -
    have "map cm_id (swap m m' ?ms) = map cm_id ?ms" using m' by (simp add: swap_def)
    moreover have "list_all mapping_settled (swap m m' ?ms)"
      using settled_entry(1)[OF ms] m m' by (auto simp: swap_def list_all_iff mapping_settled_def)
    ultimately show ?thesis using dk by (simp add: mappings_settled_def)
  qed
  ultimately show ?thesis using ms mset_swap[OF settled_distinct(3)[OF ms] m, of m']
    by (intro exI[of _ "case ans of Inl _ \<Rightarrow> ?ms | Inr _ \<Rightarrow> swap m m' ?ms"]) (auto split: sum.split)
qed

section \<open>Users\<close>

lemma create_user_call:
  assumes us: "users_settled (ca_users st)" and "chron_call_ok st (CreateUser uid u ans)"
  shows "\<exists>us. chron_call_step st (CreateUser uid u ans) = st\<lparr>ca_users := us\<rparr> \<and> users_settled us \<and>
    mset us = (case ans of Inl _ \<Rightarrow> mset (ca_users st) | Inr d \<Rightarrow> add_mset d (mset (ca_users st)))"
proof -
  let ?us = "ca_users st"
  have ok: "uid \<noteq> []" "cu_id u = None" "refused_ok ans" "answered (\<lambda>d. users_settled (d # ?us) \<and> user_identity d = user_identity u) ans"
    using assms(2) by (simp_all add: chron_call_ok_def)
  show ?thesis
  proof (cases ans)
    case (Inl e)
    then obtain k t where e: "e = Http_Error k (Some t)" using refused_message[of e] ok(3) by blast
    have truthy: "truthy_id (Some uid)" using ok(1) by (simp add: truthy_id_def)
    let ?u = "u\<lparr>cu_tempID := Some uid\<rparr>"
    have "filter (\<lambda>x. if truthy_id (cu_tempID x) then cu_tempID x \<noteq> cu_tempID ?u else cu_id x \<noteq> cu_id ?u) ?us = ?us"
      using settled_entry(2)[OF us] ok(2) by (simp add: filter_id_conv truthy_id_def)
    then have "chron_call_step st (CreateUser uid u ans) = st\<lparr>ca_users := ?us\<rparr>"
      using truthy by (simp add: Inl e createUserAsync_def chron_call_step_def adminChronograf_def revert_later_def Let_def split del: if_split)
    then show ?thesis using us Inl by (intro exI[of _ ?us]) simp
  next
    case (Inr data)
    have "map (\<lambda>x. if isSameUser x (u\<lparr>cu_tempID := Some uid\<rparr>) then data else x) ?us = ?us"
      by (intro map_idI) (use ok(4) Inr settled_new(2)[of data ?us] in \<open>auto simp: answered_def isSameUser_iff user_identity_def\<close>)
    then have "chron_call_step st (CreateUser uid u ans) = st\<lparr>ca_users := ?us @ [data]\<rparr>"
      by (simp add: Inr createUserAsync_def isSameUser_def chron_sim)
    moreover have "users_settled (?us @ [data])"
      using ok(4) Inr users_settled_mset[of "data # ?us" "?us @ [data]"] by (simp add: answered_def)
    ultimately show ?thesis using Inr by auto
  qed
qed

lemma delete_user_call:
  assumes us: "users_settled (ca_users st)" and u: "u \<in> set (ca_users st)"
  shows "\<exists>us. chron_call_step st (DeleteUser u ans) = st\<lparr>ca_users := us\<rparr> \<and> users_settled us \<and>
    mset us = (case ans of Inl _ \<Rightarrow> mset (ca_users st) | Inr _ \<Rightarrow> mset (ca_users st) - {#u#})"
proof -
  let ?o = "others u (ca_users st)"
  have "filter (\<lambda>x. if truthy_id (cu_tempID x) then cu_tempID x \<noteq> cu_tempID u else cu_id x \<noteq> cu_id u) (ca_users st) =
      filter (\<lambda>x. cu_id x \<noteq> cu_id u) (ca_users st)"
    using settled_entry(2)[OF us] by (intro filter_cong) (auto simp: truthy_id_def)
  also have "\<dots> = ?o" by (rule filter_keyed_others[OF settled_keys(2)[OF us] u])
  finally have f: "filter (\<lambda>x. if truthy_id (cu_tempID x) then cu_tempID x \<noteq> cu_tempID u else cu_id x \<noteq> cu_id u) (ca_users st) = ?o" .
  note d = settled_distinct(1)[OF us]
  have p: "mset (?o @ [u]) = mset (ca_users st)" using mset_others_add[OF d u] by simp
  have "chron_call_step st (DeleteUser u ans) = st\<lparr>ca_users := (case ans of Inl _ \<Rightarrow> ?o @ [u] | Inr _ \<Rightarrow> ?o)\<rparr>"
    using f by (simp add: deleteUserAsync_def chron_call_step_def adminChronograf_def split: sum.split)
  then show ?thesis
    using us p settled_sub(1)[OF us] mset_others[OF d u] users_settled_mset[OF p] by (auto split: sum.split)
qed

lemma swap_swap: "distinct (map key xs) \<Longrightarrow> x \<in> set xs \<Longrightarrow> key x' = key x \<Longrightarrow>
    map (\<lambda>y. if key y = key x then z else y) (swap x x' xs) = swap x z xs"
  unfolding swap_def by (auto simp: keyed_eq)

lemma swap_self: "swap x x xs = xs"
  unfolding swap_def by (rule map_idI) simp

lemma map_by_link_ok:
  assumes "\<And>y. y \<in> set xs \<Longrightarrow> self y \<noteq> None" and "distinct (map self xs)" and "x \<in> set xs"
  shows "map_by_link self x f xs = Inr (swap x (f x) xs)"
proof -
  have "map (\<lambda>y. if self y = self x then f y else y) xs = swap x (f x) xs"
    unfolding swap_def by (rule map_cong[OF refl]) (auto simp: keyed_eq[OF assms(2,3)])
  then show ?thesis using assms(1,3) by (auto simp: map_by_link_def)
qed

lemma change_user_call:
  assumes us: "users_settled (ca_users st)" and ok: "chron_call_ok st (ChangeUser u u' ans)"
  shows "\<exists>us. chron_call_step st (ChangeUser u u' ans) = st\<lparr>ca_users := us\<rparr> \<and> users_settled us \<and>
    mset us = (case ans of Inl _ \<Rightarrow> mset (ca_users st) | Inr d \<Rightarrow> swap_in u d (mset (ca_users st)))"
proof -
  let ?us = "ca_users st"
  have u: "u \<in> set ?us" and u': "user_identity u' = user_identity u" and d: "answered (\<lambda>d. users_settled (d # others u ?us)) ans"
    using ok by (simp_all add: chron_call_ok_def)
  have link: "map_by_link cu_self u (\<lambda>_. u') ?us = Inr (swap u u' ?us)"
    using settled_entry(2)[OF us] by (intro map_by_link_ok settled_keys us u) blast
  have sync: "map (\<lambda>x. if isSameUser x u then z else x) (swap u u' ?us) = swap u z ?us" for z
    unfolding isSameUser_iff by (rule swap_swap[OF settled_keys(4)[OF us] u u'])
  have "chron_call_step st (ChangeUser u u' ans) = st\<lparr>ca_users := (case ans of Inl _ \<Rightarrow> ?us | Inr d \<Rightarrow> swap u d ?us)\<rparr>"
    using link sync by (simp add: updateUserAsync_def chron_sim swap_self split: sum.split)
  moreover have "users_settled (swap u d ?us)" if "ans = Inr d" for d
    using d that users_settled_mset[OF mset_swap_others[OF settled_distinct(1)[OF us] u]] by (simp add: answered_def)
  ultimately show ?thesis using us mset_swap[OF settled_distinct(1)[OF us] u]
    by (intro exI[of _ "case ans of Inl _ \<Rightarrow> ?us | Inr d \<Rightarrow> swap u d ?us"]) (auto split: sum.split)
qed

section \<open>Organizations\<close>

lemma create_org_call:
  assumes gs: "orgs_settled (ca_organizations st)" and "chron_call_ok st (CreateOrganization uid g ans)"
  shows "\<exists>gs. chron_call_step st (CreateOrganization uid g ans) = st\<lparr>ca_organizations := gs\<rparr> \<and> orgs_settled gs \<and>
    mset gs = (case ans of Inl _ \<Rightarrow> mset (ca_organizations st) | Inr d \<Rightarrow> add_mset d (mset (ca_organizations st)))"
proof -
  let ?gs = "ca_organizations st"
  have ok: "uid \<noteq> []" "refused_ok ans" "answered (\<lambda>d. orgs_settled (d # ?gs) \<and> co_name d = co_name g) ans"
    using assms(2) by (simp_all add: chron_call_ok_def)
  show ?thesis
  proof (cases ans)
    case (Inl e)
    then obtain k t where e: "e = Http_Error k (Some t)" using refused_message[of e] ok(2) by blast
    have "filter (\<lambda>x. co_tempID x \<noteq> Some uid) ?gs = ?gs" using settled_entry(3)[OF gs] by (simp add: filter_id_conv)
    then have "chron_call_step st (CreateOrganization uid g ans) = st\<lparr>ca_organizations := ?gs\<rparr>"
      using ok(1) by (simp add: Inl e createOrganizationAsync_def chron_sim)
    then show ?thesis using gs Inl by (intro exI[of _ ?gs]) simp
  next
    case (Inr data)
    have "map (\<lambda>x. if co_name x = co_name g then data else x) ?gs = ?gs"
      by (intro map_idI) (use ok(3) Inr settled_new(1)[of data ?gs] in \<open>auto simp: answered_def\<close>)
    then have "chron_call_step st (CreateOrganization uid g ans) = st\<lparr>ca_organizations := data # ?gs\<rparr>"
      by (simp add: Inr createOrganizationAsync_def chron_sim)
    then show ?thesis using ok(3) Inr by (auto simp: answered_def)
  qed
qed

lemma delete_org_call:
  assumes gs: "orgs_settled (ca_organizations st)" and g: "g \<in> set (ca_organizations st)"
  shows "\<exists>gs. chron_call_step st (DeleteOrganization g ans) = st\<lparr>ca_organizations := gs\<rparr> \<and> orgs_settled gs \<and>
    mset gs = (case ans of Inl _ \<Rightarrow> mset (ca_organizations st) | Inr _ \<Rightarrow> mset (ca_organizations st) - {#g#})"
proof -
  let ?o = "others g (ca_organizations st)"
  have f: "filter (\<lambda>x. co_id x \<noteq> co_id g) (ca_organizations st) = ?o" by (rule filter_keyed_others[OF settled_keys(5)[OF gs] g])
  note d = settled_distinct(2)[OF gs]
  have p: "mset (g # ?o) = mset (ca_organizations st)" using mset_others_add[OF d g] by simp
  have "chron_call_step st (DeleteOrganization g ans) = st\<lparr>ca_organizations := (case ans of Inl _ \<Rightarrow> g # ?o | Inr _ \<Rightarrow> ?o)\<rparr>"
    using f settled_entry(3)[OF gs g] by (simp add: deleteOrganizationAsync_def chron_sim split: sum.split)
  then show ?thesis
    using gs p settled_sub(2)[OF gs] mset_others[OF d g] orgs_settled_mset[OF p] by (auto split: sum.split)
qed

lemma change_org_call:
  assumes gs: "orgs_settled (ca_organizations st)" and ok: "chron_call_ok st (ChangeOrganization g g' ans)"
  shows "\<exists>gs. chron_call_step st (ChangeOrganization g g' ans) = st\<lparr>ca_organizations := gs\<rparr> \<and> orgs_settled gs \<and>
    mset gs = (case ans of Inl _ \<Rightarrow> mset (ca_organizations st) | Inr d \<Rightarrow> swap_in g d (mset (ca_organizations st)))"
proof -
  let ?gs = "ca_organizations st" and ?r = "g\<lparr>co_name := co_name g'\<rparr>"
  have g: "g \<in> set ?gs" using ok by (simp add: chron_call_ok_def)
  have link: "map_by_link co_self g (\<lambda>y. y\<lparr>co_name := co_name g'\<rparr>) ?gs = Inr (swap g ?r ?gs)"
    using settled_entry(3)[OF gs] by (intro map_by_link_ok settled_keys gs g) blast
  note d = settled_distinct(2)[OF gs]
  show ?thesis
  proof (cases ans)
    case (Inl e)
    then have "?r = g" using ok by (simp add: chron_call_ok_def)
    moreover have "map (\<lambda>x. if co_name x = co_name g then g else x) ?gs = ?gs"
      using map_keyed_swap[OF settled_keys(7)[OF gs] g, of g] by (simp add: swap_self)
    ultimately have "chron_call_step st (ChangeOrganization g g' ans) = st\<lparr>ca_organizations := ?gs\<rparr>"
      using link by (simp add: Inl updateOrganizationAsync_def chron_sim swap_self)
    then show ?thesis using gs Inl by (intro exI[of _ ?gs]) simp
  next
    case (Inr data)
    then have dok: "orgs_settled (data # others g ?gs)" "co_name data = co_name g'" using ok by (simp_all add: chron_call_ok_def)
    have "co_name y \<noteq> co_name g'" if "y \<in> set ?gs" "y \<noteq> g" for y
      using dok(2) that settled_new(1)[OF dok(1), of y] by (auto simp: others_def)
    then have "map (\<lambda>x. if co_name x = co_name g' then data else x) (swap g ?r ?gs) = swap g data ?gs"
      unfolding swap_def by auto
    then have "chron_call_step st (ChangeOrganization g g' ans) = st\<lparr>ca_organizations := swap g data ?gs\<rparr>"
      using link by (simp add: Inr updateOrganizationAsync_def chron_sim)
    then show ?thesis using Inr mset_swap[OF d g] dok(1) orgs_settled_mset[OF mset_swap_others[OF d g]] by auto
  qed
qed

section \<open>Every call\<close>

lemma chron_call_result:
  assumes st: "settled st" and ok: "chron_call_ok st c"
  shows "settled (chron_call_step st c) \<and> chron_contents (chron_call_step st c) = chron_call_spec (chron_contents st) c"
proof -
  have us: "users_settled (ca_users st)" and gs: "orgs_settled (ca_organizations st)" and ms: "mappings_settled (ca_mappings st)"
    using st by (simp_all add: settled_def)
  show ?thesis
  proof (cases c)
    case (CreateMapping uid m ans)
    then show ?thesis using create_mapping_call[OF ms] ok us gs by (fastforce simp: settled_def chron_contents_def split: sum.splits)
  next
    case (DeleteMapping m ans)
    then show ?thesis using delete_mapping_call[OF ms, of m ans] ok us gs
      by (fastforce simp: chron_call_ok_def settled_def chron_contents_def split: sum.splits)
  next
    case (ChangeMapping m m' ans)
    then show ?thesis using change_mapping_call[OF ms, of m m' ans] ok us gs by (fastforce simp: settled_def chron_contents_def split: sum.splits)
  next
    case (CreateUser uid u ans)
    then show ?thesis using create_user_call[OF us, of uid u ans] ok ms gs by (fastforce simp: settled_def chron_contents_def split: sum.splits)
  next
    case (ChangeUser u u' ans)
    then show ?thesis using change_user_call[OF us, of u u' ans] ok ms gs by (fastforce simp: settled_def chron_contents_def split: sum.splits)
  next
    case (DeleteUser u ans)
    then show ?thesis using delete_user_call[OF us, of u ans] ok ms gs
      by (fastforce simp: chron_call_ok_def settled_def chron_contents_def split: sum.splits)
  next
    case (CreateOrganization uid g ans)
    then show ?thesis using create_org_call[OF gs, of uid g ans] ok ms us by (fastforce simp: settled_def chron_contents_def split: sum.splits)
  next
    case (ChangeOrganization g g' ans)
    then show ?thesis using change_org_call[OF gs, of g g' ans] ok ms us by (fastforce simp: settled_def chron_contents_def split: sum.splits)
  next
    case (DeleteOrganization g ans)
    then show ?thesis using delete_org_call[OF gs, of g ans] ok ms us
      by (fastforce simp: chron_call_ok_def settled_def chron_contents_def split: sum.splits)
  qed
qed

interpretation chron: functional_refinement chron_call_step settled chron_call_ok chron_call_spec chron_contents
  by unfold_locales (simp_all add: chron_call_result)


definition server_org :: "string \<Rightarrow> string \<Rightarrow> chron_org" where
  "server_org i nm = \<lparr>co_id = Some i, co_tempID = None, co_name = nm, co_defaultRole = ''member'', co_self = Some (''/orgs/'' @ i)\<rparr>"

definition server_mapping :: "string option \<Rightarrow> string \<Rightarrow> mapping" where
  "server_mapping i p = \<lparr>cm_id = i, cm_tempID = None, cm_scheme = ''*'', cm_provider = p, cm_providerOrganization = ''*'', cm_organizationId = ''1''\<rparr>"

definition two_orgs :: chron_admin where
  "two_orgs = \<lparr>ca_users = [], ca_organizations = [server_org ''1'' ''a'', server_org ''2'' ''b''], ca_mappings = [server_mapping (Some ''7'') ''github'']\<rparr>"

definition refused :: "http_error" where
  "refused = Http_Error 500 (Some ''no'')"


section \<open>What does not settle\<close>

text \<open>A refused change of an organization's name is not taken back: the organization no longer has the name it is looked up by.\<close>

lemma rename_not_undone:
  "ca_organizations (chron_call_step two_orgs (ChangeOrganization (server_org ''2'' ''b'') (server_org ''2'' ''c'') (Inl refused))) =
     [server_org ''1'' ''a'', (server_org ''2'' ''b'')\<lparr>co_name := ''c''\<rparr>]"
  by code_simp

text \<open>While a user is being created, changing another one throws, since the new one has no links.\<close>

lemma pending_user_blocks: "cu_self u = None \<Longrightarrow> u \<in> set (ca_users st) \<Longrightarrow> adminChronograf st (CUpdateUser v v') = Inl TypeError"
  by (auto simp: adminChronograf_def map_by_link_def)

text \<open>A creation that fails without an answer leaves its entry in the list.\<close>

lemma unanswered_creation_stays:
  "ca_mappings (chron_call_step st (CreateMapping uid m (Inl (Http_Error k None)))) = ca_mappings st @ [m\<lparr>cm_tempID := Some uid\<rparr>]"
  by (simp add: createMappingAsync_def chron_sim)

text \<open>Of two mappings that are being created, the first answer replaces both, since neither has an id.\<close>

lemma first_answer_replaces_both:
  "map_res ca_mappings (adminChronograf (two_orgs\<lparr>ca_mappings := [(server_mapping None ''a'')\<lparr>cm_tempID := Some ''x''\<rparr>,
       (server_mapping None ''b'')\<lparr>cm_tempID := Some ''y''\<rparr>]\<rparr>)
     (CUpdateMapping ((server_mapping None ''a'')\<lparr>cm_tempID := Some ''x''\<rparr>) (server_mapping (Some ''8'') ''a''))) =
   Inr [server_mapping (Some ''8'') ''a'', server_mapping (Some ''8'') ''a'']"
  by code_simp

end
