(* ===== verification/Admin_Influx.thy ===== *)
theory Admin_Influx
  imports Store_Prelude
begin

text \<open>
  The administration of an InfluxDB: its users, roles, databases with their retention policies, and running queries. The store
  (\<open>ui/src/admin/reducers/influxdb.js\<close>), its actions (\<open>ui/src/admin/actions/influxdb.js\<close>) and the handlers of the pages
  (\<open>ui/src/admin/containers/AdminInfluxDBPage.tsx\<close>, \<open>DatabaseManagerPage.js\<close>, \<open>ui/src/admin/components/DatabaseRow.js\<close>). Entries are found by
  their link; an entry that is being created has the empty link, a database a temporary one.
\<close>

section \<open>Data\<close>

record influx_user =
  iu_name :: string
  iu_password :: string
  iu_roles :: "string list"
  iu_permissions :: "string list"
  iu_self :: string
  iu_isNew :: bool
  iu_isEditing :: bool
  iu_hidden :: bool

record influx_role =
  ir_name :: string
  ir_permissions :: "string list"
  ir_users :: "string list"
  ir_self :: string
  ir_isNew :: bool
  ir_isEditing :: bool
  ir_hidden :: bool

record retention_policy =
  rp_name :: string
  rp_duration :: string
  rp_replication :: int
  rp_isDefault :: bool
  rp_self :: string
  rp_isNew :: bool

record influx_db =
  id_name :: string
  id_self :: string
  id_isNew :: bool
  id_isEditing :: bool
  id_retentionPolicies :: "retention_policy list"
  id_deleteCode :: "string option"

record running_query =
  rq_id :: int
  rq_database :: string
  rq_query :: string
  rq_duration :: string

record influx_admin =
  ia_users :: "influx_user list"
  ia_roles :: "influx_role list"
  ia_permissions :: "(string \<times> string list) list" \<comment> \<open>scopes, with what is allowed\<close>
  ia_queries :: "running_query list"
  ia_queryIDToKill :: "int option"
  ia_databases :: "influx_db list"

definition NEW_DEFAULT_USER :: influx_user where
  "NEW_DEFAULT_USER = \<lparr>iu_name = [], iu_password = [], iu_roles = [], iu_permissions = [], iu_self = [], iu_isNew = True,
     iu_isEditing = False, iu_hidden = False\<rparr>"

definition NEW_DEFAULT_ROLE :: influx_role where
  "NEW_DEFAULT_ROLE = \<lparr>ir_name = [], ir_permissions = [], ir_users = [], ir_self = [], ir_isNew = True, ir_isEditing = False, ir_hidden = False\<rparr>"

definition NEW_DEFAULT_RP :: retention_policy where
  "NEW_DEFAULT_RP = \<lparr>rp_name = ''autogen'', rp_duration = ''0'', rp_replication = 2, rp_isDefault = True, rp_self = [], rp_isNew = False\<rparr>"

definition NEW_EMPTY_RP :: retention_policy where
  "NEW_EMPTY_RP = \<lparr>rp_name = [], rp_duration = [], rp_replication = 0, rp_isDefault = False, rp_self = [], rp_isNew = True\<rparr>"

definition NEW_DEFAULT_DATABASE :: influx_db where
  "NEW_DEFAULT_DATABASE = \<lparr>id_name = [], id_self = [], id_isNew = True, id_isEditing = False, id_retentionPolicies = [NEW_DEFAULT_RP], id_deleteCode = None\<rparr>"

text \<open>The parts of an entry that the pages edit.\<close>

datatype user_edit = UserName string | UserPassword string
datatype database_edit = DatabaseName string | DeleteCode string

record policy_edit =
  pe_name :: string
  pe_duration :: string
  pe_replication :: int

fun edit_user :: "user_edit \<Rightarrow> influx_user \<Rightarrow> influx_user" where
  "edit_user (UserName s) u = u\<lparr>iu_name := s\<rparr>"
| "edit_user (UserPassword s) u = u\<lparr>iu_password := s\<rparr>"

fun edit_database :: "database_edit \<Rightarrow> influx_db \<Rightarrow> influx_db" where
  "edit_database (DatabaseName s) d = d\<lparr>id_name := s\<rparr>"
| "edit_database (DeleteCode s) d = d\<lparr>id_deleteCode := Some s\<rparr>"

definition edit_policy :: "policy_edit \<Rightarrow> retention_policy \<Rightarrow> retention_policy" where
  "edit_policy e rp = rp\<lparr>rp_name := pe_name e, rp_duration := pe_duration e, rp_replication := pe_replication e\<rparr>"

datatype influx_action =
    ILoadUsers "influx_user list"
  | ILoadRoles "influx_role list"
  | ILoadPermissions "(string \<times> string list) list"
  | ILoadDatabases "influx_db list"
  | IAddUser
  | IAddRole
  | IAddDatabase string \<comment> \<open>the id \<open>uuid.v4()\<close> makes\<close>
  | IAddRetentionPolicy influx_db
  | ISyncUser influx_user influx_user
  | ISyncRole influx_role influx_role
  | ISyncDatabase influx_db influx_db
  | ISyncRetentionPolicy influx_db retention_policy retention_policy
  | IEditUser influx_user user_edit
  | IEditRole influx_role string
  | IEditDatabase influx_db database_edit
  | IEditRetentionPolicyRequested influx_db retention_policy policy_edit
  | IEditRetentionPolicyFailed influx_db retention_policy
  | IDeleteUser influx_user
  | IDeleteRole influx_role
  | IRemoveDatabase influx_db
  | IRemoveRetentionPolicy influx_db retention_policy
  | IAddDatabaseDeleteCode influx_db
  | IRemoveDatabaseDeleteCode influx_db
  | ILoadQueries "running_query list"
  | IFilterUsers string
  | IFilterRoles string
  | IKillQuery int
  | ISetQueryToKill "int option"

section \<open>The reducer\<close>

definition on_user :: "string \<Rightarrow> (influx_user \<Rightarrow> influx_user) \<Rightarrow> influx_admin \<Rightarrow> influx_admin" where
  "on_user l f st = st\<lparr>ia_users := map (\<lambda>u. if iu_self u = l then f u else u) (ia_users st)\<rparr>"

definition on_role :: "string \<Rightarrow> (influx_role \<Rightarrow> influx_role) \<Rightarrow> influx_admin \<Rightarrow> influx_admin" where
  "on_role l f st = st\<lparr>ia_roles := map (\<lambda>r. if ir_self r = l then f r else r) (ia_roles st)\<rparr>"

definition on_database :: "string \<Rightarrow> (influx_db \<Rightarrow> influx_db) \<Rightarrow> influx_admin \<Rightarrow> influx_admin" where
  "on_database l f st = st\<lparr>ia_databases := map (\<lambda>db. if id_self db = l then f db else db) (ia_databases st)\<rparr>"

definition on_policy :: "string \<Rightarrow> (retention_policy \<Rightarrow> retention_policy) \<Rightarrow> influx_db \<Rightarrow> influx_db" where
  "on_policy l f db = db\<lparr>id_retentionPolicies := map (\<lambda>rp. if rp_self rp = l then f rp else rp) (id_retentionPolicies db)\<rparr>"

definition adminInfluxDB :: "influx_admin \<Rightarrow> influx_action \<Rightarrow> influx_admin" where
  "adminInfluxDB st action =
     (case action of
        ILoadUsers us \<Rightarrow> st\<lparr>ia_users := us\<rparr>
      | ILoadRoles rs \<Rightarrow> st\<lparr>ia_roles := rs\<rparr>
      | ILoadPermissions ps \<Rightarrow> st\<lparr>ia_permissions := ps\<rparr>
      | ILoadDatabases ds \<Rightarrow> st\<lparr>ia_databases := ds\<rparr>
      | IAddUser \<Rightarrow> st\<lparr>ia_users := NEW_DEFAULT_USER\<lparr>iu_isEditing := True\<rparr> # ia_users st\<rparr>
      | IAddRole \<Rightarrow> st\<lparr>ia_roles := NEW_DEFAULT_ROLE\<lparr>ir_isEditing := True\<rparr> # ia_roles st\<rparr>
      | IAddDatabase uid \<Rightarrow>
          st\<lparr>ia_databases := NEW_DEFAULT_DATABASE\<lparr>id_self := ''temp-ID'' @ uid, id_isEditing := True\<rparr> # ia_databases st\<rparr>
      | IAddRetentionPolicy database \<Rightarrow>
          on_database (id_self database) (\<lambda>_. database\<lparr>id_retentionPolicies := NEW_EMPTY_RP # id_retentionPolicies database\<rparr>) st
      | ISyncUser staleUser syncedUser \<Rightarrow> on_user (iu_self staleUser) (\<lambda>_. syncedUser) st
      | ISyncRole staleRole syncedRole \<Rightarrow> on_role (ir_self staleRole) (\<lambda>_. syncedRole) st
      | ISyncDatabase stale synced \<Rightarrow> on_database (id_self stale) (\<lambda>_. synced) st
      | ISyncRetentionPolicy database stale synced \<Rightarrow> on_database (id_self database) (on_policy (rp_self stale) (\<lambda>_. synced)) st
      | IEditUser user updates \<Rightarrow> on_user (iu_self user) (edit_user updates) st
      | IEditRole r nm \<Rightarrow> on_role (ir_self r) (\<lambda>r. r\<lparr>ir_name := nm\<rparr>) st
      | IEditDatabase database updates \<Rightarrow> on_database (id_self database) (edit_database updates) st
      | IEditRetentionPolicyRequested database retentionPolicy updates \<Rightarrow>
          on_database (id_self database) (on_policy (rp_self retentionPolicy) (edit_policy updates)) st
      | IEditRetentionPolicyFailed database retentionPolicy \<Rightarrow>
          on_database (id_self database) (on_policy (rp_self retentionPolicy) (\<lambda>_. retentionPolicy)) st
      | IDeleteUser user \<Rightarrow> st\<lparr>ia_users := filter (\<lambda>u. iu_self u \<noteq> iu_self user) (ia_users st)\<rparr>
      | IDeleteRole r \<Rightarrow> st\<lparr>ia_roles := filter (\<lambda>x. ir_self x \<noteq> ir_self r) (ia_roles st)\<rparr>
      | IRemoveDatabase database \<Rightarrow> st\<lparr>ia_databases := filter (\<lambda>db. id_self db \<noteq> id_self database) (ia_databases st)\<rparr>
      | IRemoveRetentionPolicy database retentionPolicy \<Rightarrow>
          on_database (id_self database)
            (\<lambda>db. db\<lparr>id_retentionPolicies := filter (\<lambda>rp. rp_self rp \<noteq> rp_self retentionPolicy) (id_retentionPolicies db)\<rparr>) st
      | IAddDatabaseDeleteCode database \<Rightarrow> on_database (id_self database) (\<lambda>db. db\<lparr>id_deleteCode := Some []\<rparr>) st
      | IRemoveDatabaseDeleteCode database \<Rightarrow> on_database (id_self database) (\<lambda>_. database\<lparr>id_deleteCode := None\<rparr>) st
      | ILoadQueries qs \<Rightarrow> st\<lparr>ia_queries := qs\<rparr>
      | IFilterUsers t \<Rightarrow> st\<lparr>ia_users := map (\<lambda>u. u\<lparr>iu_hidden := \<not> js_includes (toLowerCase (iu_name u)) t\<rparr>) (ia_users st)\<rparr>
      | IFilterRoles t \<Rightarrow> st\<lparr>ia_roles := map (\<lambda>r. r\<lparr>ir_hidden := \<not> js_includes (toLowerCase (ir_name r)) t\<rparr>) (ia_roles st)\<rparr>
      | IKillQuery queryID \<Rightarrow> st\<lparr>ia_queries := filter (\<lambda>q. rq_id q \<noteq> queryID) (ia_queries st)\<rparr>
      | ISetQueryToKill q \<Rightarrow> st\<lparr>ia_queryIDToKill := q\<rparr>)"

section \<open>Calls\<close>

datatype influx_dispatch =
    IDo influx_action
  | INotify string
  | IErrorThrown
  | ILater influx_action \<comment> \<open>after \<open>REVERT_STATE_DELAY\<close>\<close>

definition influx_failed :: "http_error \<Rightarrow> influx_dispatch list \<Rightarrow> influx_dispatch list" where
  \<comment> \<open>the handlers of failures read the message of the answer's data, and throw when there is no data\<close>
  "influx_failed e ds = (case e of Http_Error _ None \<Rightarrow> [] | Http_Error _ (Some message) \<Rightarrow> IErrorThrown # ds)"

definition load_influx :: "('a \<Rightarrow> influx_action) \<Rightarrow> 'a answer \<Rightarrow> influx_dispatch list" where
  "load_influx load ans = (case ans of Inr data \<Rightarrow> [IDo (load data)] | Inl _ \<Rightarrow> [IErrorThrown])"

definition loadUsers_influx :: "influx_user list answer \<Rightarrow> influx_dispatch list" where
  "loadUsers_influx = load_influx ILoadUsers"

definition loadRoles_influx :: "influx_role list answer \<Rightarrow> influx_dispatch list" where
  "loadRoles_influx = load_influx ILoadRoles"

definition loadPermissions_influx :: "(string \<times> string list) list answer \<Rightarrow> influx_dispatch list" where
  "loadPermissions_influx = load_influx ILoadPermissions"

fun insert_by_name :: "influx_db \<Rightarrow> influx_db list \<Rightarrow> influx_db list" where
  "insert_by_name d [] = [d]"
| "insert_by_name d (e # es) = (if str_le (toLowerCase (id_name d)) (toLowerCase (id_name e)) then d # e # es else e # insert_by_name d es)"

definition sort_by_name :: "influx_db list \<Rightarrow> influx_db list" where
  \<comment> \<open>\<open>_.sortBy\<close>, which is stable\<close>
  "sort_by_name ds = foldr insert_by_name ds []"

definition loadDBsAndRPsAsync :: "influx_db list answer \<Rightarrow> influx_dispatch list" where
  "loadDBsAndRPsAsync ans = load_influx (\<lambda>ds. ILoadDatabases (sort_by_name ds)) ans"

definition createUser_influx :: "influx_user \<Rightarrow> influx_user answer \<Rightarrow> influx_dispatch list" where
  "createUser_influx user ans =
     (case ans of Inr data \<Rightarrow> [INotify ''userCreated'', IDo (ISyncUser user data)] | Inl e \<Rightarrow> influx_failed e [ILater (IDeleteUser user)])"

definition createRoleAsync :: "influx_role \<Rightarrow> influx_role answer \<Rightarrow> influx_dispatch list" where
  "createRoleAsync r ans =
     (case ans of Inr data \<Rightarrow> [INotify ''roleCreated'', IDo (ISyncRole r data)] | Inl e \<Rightarrow> influx_failed e [ILater (IDeleteRole r)])"

definition createDatabaseAsync :: "influx_db \<Rightarrow> influx_db answer \<Rightarrow> influx_dispatch list" where
  "createDatabaseAsync database ans =
     (case ans of Inr data \<Rightarrow> [IDo (ISyncDatabase database data), INotify ''databaseCreated''] | Inl e \<Rightarrow> influx_failed e [ILater (IRemoveDatabase database)])"

definition createRetentionPolicyAsync :: "influx_db \<Rightarrow> retention_policy \<Rightarrow> retention_policy answer \<Rightarrow> influx_dispatch list" where
  "createRetentionPolicyAsync database retentionPolicy ans =
     (case ans of Inr data \<Rightarrow> [INotify ''retentionPolicyCreated'', IDo (ISyncRetentionPolicy database retentionPolicy data)]
      | Inl e \<Rightarrow> INotify ''retentionPolicyCreationError'' # influx_failed e [ILater (IRemoveRetentionPolicy database retentionPolicy)])"

definition updateRetentionPolicyAsync :: "influx_db \<Rightarrow> retention_policy \<Rightarrow> policy_edit \<Rightarrow> retention_policy answer \<Rightarrow> influx_dispatch list" where
  "updateRetentionPolicyAsync database oldRP newRP ans =
     IDo (IEditRetentionPolicyRequested database oldRP newRP) #
       (case ans of Inr data \<Rightarrow> [IDo (ISyncRetentionPolicy database oldRP data), INotify ''retentionPolicyUpdated'']
        | Inl e \<Rightarrow> IDo (IEditRetentionPolicyFailed database oldRP) # influx_failed e [])"

definition killQueryAsync :: "int \<Rightarrow> unit answer \<Rightarrow> influx_dispatch list" where
  "killQueryAsync queryID ans =
     [IDo (IKillQuery queryID), IDo (ISetQueryToKill None)] @ (case ans of Inr _ \<Rightarrow> [] | Inl _ \<Rightarrow> [IErrorThrown])"

definition optimistic_delete :: "influx_action \<Rightarrow> string \<Rightarrow> unit answer \<Rightarrow> influx_dispatch list" where
  "optimistic_delete a note ans = IDo a # (case ans of Inr _ \<Rightarrow> [INotify note] | Inl e \<Rightarrow> influx_failed e [])"

definition deleteRoleAsync :: "influx_role \<Rightarrow> unit answer \<Rightarrow> influx_dispatch list" where
  "deleteRoleAsync r ans = optimistic_delete (IDeleteRole r) ''roleDeleted'' ans"

definition deleteUser_influx :: "influx_user \<Rightarrow> unit answer \<Rightarrow> influx_dispatch list" where
  "deleteUser_influx user ans = optimistic_delete (IDeleteUser user) ''userDeleted'' ans"

definition deleteDatabaseAsync :: "influx_db \<Rightarrow> unit answer \<Rightarrow> influx_dispatch list" where
  "deleteDatabaseAsync database ans = optimistic_delete (IRemoveDatabase database) ''databaseDeleted'' ans"

definition deleteRetentionPolicyAsync :: "influx_db \<Rightarrow> retention_policy \<Rightarrow> unit answer \<Rightarrow> influx_dispatch list" where
  "deleteRetentionPolicyAsync database retentionPolicy ans =
     optimistic_delete (IRemoveRetentionPolicy database retentionPolicy) ''retentionPolicyDeleted'' ans"

definition synced_call :: "string \<Rightarrow> ('a \<Rightarrow> influx_action) \<Rightarrow> 'a answer \<Rightarrow> influx_dispatch list" where
  "synced_call note sync ans = (case ans of Inr data \<Rightarrow> [INotify note, IDo (sync data)] | Inl e \<Rightarrow> influx_failed e [])"

definition updateRoleUsersAsync :: "influx_role \<Rightarrow> influx_role answer \<Rightarrow> influx_dispatch list" where
  "updateRoleUsersAsync r ans = synced_call ''roleUsersUpdated'' (ISyncRole r) ans"

definition updateRolePermissionsAsync :: "influx_role \<Rightarrow> influx_role answer \<Rightarrow> influx_dispatch list" where
  "updateRolePermissionsAsync r ans = synced_call ''rolePermissionsUpdated'' (ISyncRole r) ans"

definition updateUserPermissionsAsync :: "influx_user \<Rightarrow> influx_user answer \<Rightarrow> influx_dispatch list" where
  "updateUserPermissionsAsync user ans = synced_call ''userPermissionsUpdated'' (ISyncUser user) ans"

definition updateUserRolesAsync :: "influx_user \<Rightarrow> influx_user answer \<Rightarrow> influx_dispatch list" where
  "updateUserRolesAsync user ans = synced_call ''userRolesUpdated'' (ISyncUser user) ans"

definition updateUserPasswordAsync :: "influx_user \<Rightarrow> influx_user answer \<Rightarrow> influx_dispatch list" where
  "updateUserPasswordAsync user ans = synced_call ''userPasswordUpdated'' (ISyncUser user) ans"

fun influx_effect :: "influx_dispatch list \<Rightarrow> influx_action list" where
  \<comment> \<open>the actions a call dispatches, in order\<close>
  "influx_effect [] = []"
| "influx_effect (IDo a # ds) = a # influx_effect ds"
| "influx_effect (ILater a # ds) = a # influx_effect ds"
| "influx_effect (_ # ds) = influx_effect ds"

section \<open>A refused change of a retention policy\<close>

definition touches_policy :: "string \<Rightarrow> string \<Rightarrow> influx_action \<Rightarrow> bool" where
  \<comment> \<open>an action that loads, replaces or removes the policy with a link, or its database\<close>
  "touches_policy l p a =
     (case a of
        ILoadDatabases _ \<Rightarrow> True
      | IAddDatabase uid \<Rightarrow> ''temp-ID'' @ uid = l
      | IAddRetentionPolicy d \<Rightarrow> id_self d = l
      | ISyncDatabase d d' \<Rightarrow> id_self d = l \<or> id_self d' = l
      | ISyncRetentionPolicy d rp rp' \<Rightarrow> id_self d = l \<and> (rp_self rp = p \<or> rp_self rp' = p)
      | IEditRetentionPolicyRequested d rp _ \<Rightarrow> id_self d = l \<and> rp_self rp = p
      | IEditRetentionPolicyFailed d rp \<Rightarrow> id_self d = l \<and> rp_self rp = p
      | IRemoveDatabase d \<Rightarrow> id_self d = l
      | IRemoveRetentionPolicy d rp \<Rightarrow> id_self d = l \<and> rp_self rp = p
      | IRemoveDatabaseDeleteCode d \<Rightarrow> id_self d = l
      | _ \<Rightarrow> False)"

definition policy_is :: "string \<Rightarrow> string \<Rightarrow> retention_policy \<Rightarrow> influx_admin \<Rightarrow> bool" where
  "policy_is l p rp st \<longleftrightarrow>
     (\<forall>db\<in>set (ia_databases st). id_self db = l \<longrightarrow> (\<forall>x\<in>set (id_retentionPolicies db). rp_self x = p \<longrightarrow> x = rp))"

lemma on_policy_self [simp]: "id_self (on_policy p f db) = id_self db"
  by (simp add: on_policy_def)

lemma edit_database_fields [simp]:
  "id_self (edit_database e db) = id_self db" "id_retentionPolicies (edit_database e db) = id_retentionPolicies db"
  by (cases e; simp)+

lemma edit_policy_self [simp]: "rp_self (edit_policy e rp) = rp_self rp"
  by (simp add: edit_policy_def)

lemma on_database_commute:
  assumes "\<And>d. id_self (g d) = id_self d"
    and "\<And>d. id_self d = l' \<Longrightarrow> if l' = l then id_self (h d) = l \<and> h (g d) = g (h d) else id_self (h d) \<noteq> l"
  shows "on_database l' h (on_database l g st) = on_database l g (on_database l' h st)"
  using assms by (auto simp: on_database_def split: if_splits)

lemma on_policy_commute:
  assumes "\<And>x. rp_self (f x) = rp_self x" and "p \<noteq> q" and "\<And>x. rp_self x = q \<Longrightarrow> rp_self (h x) \<noteq> p"
  shows "on_policy q h (on_policy p f db) = on_policy p f (on_policy q h db)"
  using assms by (auto simp: on_policy_def)

lemma on_policy_edit: "edit_database e (on_policy p f db) = on_policy p f (edit_database e db)"
  by (cases e) (simp_all add: on_policy_def)

lemma filter_on_policy:
  assumes "\<And>x. rp_self (f x) = rp_self x"
  shows "(on_policy p f db)\<lparr>id_retentionPolicies := filter (\<lambda>x. rp_self x \<noteq> q) (id_retentionPolicies (on_policy p f db))\<rparr> =
    on_policy p f (db\<lparr>id_retentionPolicies := filter (\<lambda>x. rp_self x \<noteq> q) (id_retentionPolicies db)\<rparr>)"
proof -
  have "rp_self (if rp_self x = p then f x else x) = rp_self x" for x using assms by simp
  then show ?thesis by (simp add: on_policy_def filter_map o_def)
qed

lemma untouched_commute:
  assumes f: "\<And>x. rp_self (f x) = rp_self x" and "\<not> touches_policy l p a"
  shows "adminInfluxDB (on_database l (on_policy p f) st) a = on_database l (on_policy p f) (adminInfluxDB st a)"
proof (cases a)
  case (ISyncRetentionPolicy d rp rp')
  then show ?thesis using assms
    by (auto simp: adminInfluxDB_def touches_policy_def intro!: on_database_commute on_policy_commute)
next
  case (IEditRetentionPolicyRequested d rp e)
  then show ?thesis using assms
    by (auto simp: adminInfluxDB_def touches_policy_def intro!: on_database_commute on_policy_commute)
next
  case (IEditRetentionPolicyFailed d rp)
  then show ?thesis using assms
    by (auto simp: adminInfluxDB_def touches_policy_def intro!: on_database_commute on_policy_commute)
next
  case (IEditDatabase d e)
  then show ?thesis by (auto simp: adminInfluxDB_def on_policy_edit intro!: on_database_commute)
next
  case (IRemoveRetentionPolicy d rp)
  then show ?thesis by (auto simp: adminInfluxDB_def filter_on_policy[OF f] intro!: on_database_commute)
next
  case (IAddDatabaseDeleteCode d)
  then show ?thesis by (auto simp: adminInfluxDB_def on_policy_def intro!: on_database_commute)
next
  case (IRemoveDatabase d)
  then show ?thesis by (simp add: adminInfluxDB_def on_database_def filter_map o_def if_distrib cong: if_cong)
qed (use assms(2) in \<open>auto simp: adminInfluxDB_def touches_policy_def on_user_def on_role_def on_database_def intro!: on_database_commute\<close>)

lemma policy_is_step:
  assumes "policy_is l p rp st" and "\<not> touches_policy l p a"
  shows "policy_is l p rp (adminInfluxDB st a)"
  using assms
  by (cases a) (auto simp: policy_is_def adminInfluxDB_def touches_policy_def on_user_def on_role_def on_database_def on_policy_def edit_policy_def
      split: if_splits)

lemma policy_put_back:
  assumes "policy_is l p rp st"
  shows "on_database l (on_policy p (\<lambda>_. rp)) (on_database l (on_policy p (edit_policy e)) st) = st"
proof -
  have put_back: "on_policy p (\<lambda>_. rp) (on_policy p (edit_policy e) db) = db" if "db \<in> set (ia_databases st)" "id_self db = l" for db
  proof -
    have "on_policy p (\<lambda>_. rp) (on_policy p (edit_policy e) db) = on_policy p (\<lambda>_. rp) db" by (simp add: on_policy_def)
    also have "\<dots> = db"
    proof -
      have "map (\<lambda>x. if rp_self x = p then rp else x) (id_retentionPolicies db) = id_retentionPolicies db"
        by (rule map_idI) (use assms that in \<open>auto simp: policy_is_def\<close>)
      then show ?thesis by (simp add: on_policy_def)
    qed
    finally show ?thesis .
  qed
  have "map ((\<lambda>db. if id_self db = l then on_policy p (\<lambda>_. rp) db else db) \<circ> (\<lambda>db. if id_self db = l then on_policy p (edit_policy e) db else db))
      (ia_databases st) = ia_databases st"
    by (intro map_idI) (simp add: put_back)
  then show ?thesis by (simp add: on_database_def)
qed

lemma untouched_run:
  assumes "policy_is l p rp st" and "\<forall>a\<in>set as. \<not> touches_policy l p a"
  shows "run_store adminInfluxDB (on_database l (on_policy p (edit_policy e)) st) as =
      on_database l (on_policy p (edit_policy e)) (run_store adminInfluxDB st as) \<and> policy_is l p rp (run_store adminInfluxDB st as)"
  using assms
proof (induction as arbitrary: st)
  case (Cons a as)
  then show ?case using policy_is_step[of l p rp st a] untouched_commute[of "edit_policy e" l p a st] by simp
qed simp

text \<open>
  C34: A change of a retention policy that the server refuses leaves no trace. Whatever else is done between the change and
  the answer, as long as it does not load, replace or remove that policy or its database, the store ends up as if the change had never been asked for.
\<close>

theorem refused_policy_change_undone:
  assumes "policy_is (id_self db) (rp_self rp) rp st" and "\<forall>a\<in>set meanwhile. \<not> touches_policy (id_self db) (rp_self rp) a"
    and "influx_effect (updateRetentionPolicyAsync db rp e (Inl err)) = [request, failure]"
  shows "run_store adminInfluxDB st (request # meanwhile @ [failure]) = run_store adminInfluxDB st meanwhile"
proof -
  have "request = IEditRetentionPolicyRequested db rp e \<and> failure = IEditRetentionPolicyFailed db rp"
    using assms(3) by (cases err) (auto simp: updateRetentionPolicyAsync_def influx_failed_def split: option.splits)
  then have r: "adminInfluxDB s request = on_database (id_self db) (on_policy (rp_self rp) (edit_policy e)) s"
    and f: "adminInfluxDB s failure = on_database (id_self db) (on_policy (rp_self rp) (\<lambda>_. rp)) s" for s
    by (simp_all add: adminInfluxDB_def)
  show ?thesis
    using untouched_run[OF assms(1,2), of e] policy_put_back[of "id_self db" "rp_self rp" rp _ e]
    by (simp add: run_store_append r f)
qed

definition server_policy :: "string \<Rightarrow> retention_policy" where
  "server_policy l = NEW_DEFAULT_RP\<lparr>rp_self := l\<rparr>"

definition server_db :: "string \<Rightarrow> retention_policy list \<Rightarrow> influx_db" where
  "server_db nm rps = \<lparr>id_name = nm, id_self = ''/dbs/'' @ nm, id_isNew = False, id_isEditing = False, id_retentionPolicies = rps, id_deleteCode = None\<rparr>"

definition influx_start :: "influx_db list \<Rightarrow> influx_admin" where
  "influx_start dbs = \<lparr>ia_users = [], ia_roles = [], ia_permissions = [], ia_queries = [], ia_queryIDToKill = None, ia_databases = dbs\<rparr>"

theorem refused_policy_change_undone_witness:
  "ia_databases (run_store adminInfluxDB (influx_start [server_db ''a'' [server_policy ''/p'']])
     [IEditRetentionPolicyRequested (server_db ''a'' [server_policy ''/p'']) (server_policy ''/p'') \<lparr>pe_name = ''autogen'', pe_duration = ''1h'', pe_replication = 1\<rparr>,
      IAddDatabase ''x'', IEditRetentionPolicyFailed (server_db ''a'' [server_policy ''/p'']) (server_policy ''/p'')]) =
   [NEW_DEFAULT_DATABASE\<lparr>id_self := ''temp-IDx'', id_isEditing := True\<rparr>, server_db ''a'' [server_policy ''/p'']]"
proof -
  let ?db = "server_db ''a'' [server_policy ''/p'']" and ?rp = "server_policy ''/p''"
  let ?e = "\<lparr>pe_name = ''autogen'', pe_duration = ''1h'', pe_replication = 1\<rparr> :: policy_edit"
  have 1: "policy_is (id_self ?db) (rp_self ?rp) ?rp (influx_start [?db])" by (simp add: policy_is_def influx_start_def server_db_def)
  have 2: "\<forall>a\<in>set [IAddDatabase ''x'']. \<not> touches_policy (id_self ?db) (rp_self ?rp) a" by (simp add: touches_policy_def server_db_def)
  have 3: "influx_effect (updateRetentionPolicyAsync ?db ?rp ?e (Inl (Http_Error 400 (Some ''no'')))) =
      [IEditRetentionPolicyRequested ?db ?rp ?e, IEditRetentionPolicyFailed ?db ?rp]"
    by (simp add: updateRetentionPolicyAsync_def influx_failed_def)
  show ?thesis using refused_policy_change_undone[OF 1 2 3] by (simp add: adminInfluxDB_def influx_start_def)
qed

section \<open>A refused creation\<close>

definition about_draft :: "influx_action \<Rightarrow> bool" where
  \<comment> \<open>an action on the user that is being created, or its addition\<close>
  "about_draft a =
     (case a of IAddUser \<Rightarrow> True | IEditUser u _ \<Rightarrow> iu_self u = [] | ISyncUser u _ \<Rightarrow> iu_self u = [] | IDeleteUser u \<Rightarrow> iu_self u = [] | _ \<Rightarrow> False)"

definition names_users :: "influx_action \<Rightarrow> bool" where
  \<comment> \<open>what the server answers has links, and is no answer to the creation of the draft\<close>
  "names_users a =
     (case a of ILoadUsers us \<Rightarrow> [] \<notin> iu_self ` set us | ISyncUser u u' \<Rightarrow> iu_self u \<noteq> [] \<and> iu_self u' \<noteq> [] | _ \<Rightarrow> True)"

definition without_draft :: "influx_admin \<Rightarrow> influx_admin" where
  "without_draft st = st\<lparr>ia_users := filter (\<lambda>u. iu_self u \<noteq> []) (ia_users st)\<rparr>"

lemma edit_user_self [simp]: "iu_self (edit_user e u) = iu_self u"
  by (cases e) simp_all

lemma filter_map_cond:
  "(\<And>x. Q x \<Longrightarrow> P (f x) \<longleftrightarrow> P x) \<Longrightarrow> filter P (map (\<lambda>x. if Q x then f x else x) xs) = map (\<lambda>x. if Q x then f x else x) (filter P xs)"
  by (induction xs) auto

lemma filter_map_draft:
  "(\<And>x. Q x \<Longrightarrow> \<not> P x) \<Longrightarrow> (\<And>x. Q x \<Longrightarrow> \<not> P (f x)) \<Longrightarrow> filter P (map (\<lambda>x. if Q x then f x else x) xs) = filter P xs"
  by (induction xs) auto

lemma draft_step:
  assumes "names_users a"
  shows "without_draft (adminInfluxDB st a) = (if about_draft a then without_draft st else adminInfluxDB (without_draft st) a)"
proof (cases a)
  case (IEditUser u e)
  then show ?thesis
    using filter_map_cond[of "\<lambda>x. iu_self x = iu_self u" "\<lambda>x. iu_self x \<noteq> []" "edit_user e"]
      filter_map_draft[of "\<lambda>x. iu_self x = []" "\<lambda>x. iu_self x \<noteq> []" "edit_user e"]
    by (auto simp: without_draft_def adminInfluxDB_def on_user_def about_draft_def)
next
  case (ISyncUser u u')
  then show ?thesis
    using assms filter_map_cond[of "\<lambda>x. iu_self x = iu_self u" "\<lambda>x. iu_self x \<noteq> []" "\<lambda>_. u'"]
    by (auto simp: without_draft_def adminInfluxDB_def on_user_def about_draft_def names_users_def)
next
  case (IDeleteUser u)
  then show ?thesis by (auto simp: without_draft_def adminInfluxDB_def about_draft_def conj_commute)
next
  case (ILoadUsers us)
  then have "filter (\<lambda>u. iu_self u \<noteq> []) us = us" using assms by (auto simp: names_users_def filter_id_conv image_iff)
  then show ?thesis by (simp add: ILoadUsers without_draft_def adminInfluxDB_def about_draft_def)
next
  case (IFilterUsers t)
  then show ?thesis by (simp add: without_draft_def adminInfluxDB_def about_draft_def filter_map o_def)
qed (simp_all add: without_draft_def adminInfluxDB_def about_draft_def on_database_def on_role_def NEW_DEFAULT_USER_def)

lemma draft_run:
  assumes "\<forall>a\<in>set as. names_users a"
  shows "without_draft (run_store adminInfluxDB st as) = run_store adminInfluxDB (without_draft st) (filter (\<lambda>a. \<not> about_draft a) as)"
  using assms
proof (induction as arbitrary: st)
  case (Cons a as)
  then have "without_draft (run_store adminInfluxDB (adminInfluxDB st a) as) =
      run_store adminInfluxDB (without_draft (adminInfluxDB st a)) (filter (\<lambda>a. \<not> about_draft a) as)" by simp
  then show ?case using draft_step[of a st] Cons.prems by simp
qed simp

text \<open>
  The creation of a user that the server refuses leaves no trace: whatever is done between the addition of the draft and its
  removal, the store ends up as if only the rest had been done.
\<close>

theorem refused_user_undone:
  assumes "\<forall>u\<in>set (ia_users st). iu_self u \<noteq> []" and "iu_self draft = []"
    and "\<forall>a\<in>set meanwhile. names_users a"
  shows "run_store adminInfluxDB st (IAddUser # meanwhile @ [IDeleteUser draft]) =
    run_store adminInfluxDB st (filter (\<lambda>a. \<not> about_draft a) meanwhile)"
proof -
  have "without_draft (adminInfluxDB st IAddUser) = st"
    using assms(1) by (simp add: without_draft_def adminInfluxDB_def NEW_DEFAULT_USER_def filter_id_conv)
  moreover have "adminInfluxDB s (IDeleteUser draft) = without_draft s" for s
    using assms(2) by (simp add: adminInfluxDB_def without_draft_def)
  ultimately show ?thesis using draft_run[OF assms(3), of "adminInfluxDB st IAddUser"] by (simp add: run_store_append)
qed

text \<open>The timer that takes back a refused draft also removes a later one, since all drafts have the empty link.\<close>

lemma later_draft_removed:
  assumes "\<forall>u\<in>set (ia_users st). iu_self u \<noteq> []" and "iu_self draft = []"
  shows "run_store adminInfluxDB st [IAddUser, IDeleteUser draft, IAddUser, IEditUser draft (UserName ''new''), IDeleteUser draft] = st"
  using refused_user_undone[OF assms, of "[IDeleteUser draft, IAddUser, IEditUser draft (UserName ''new'')]"] assms(2)
  by (simp add: names_users_def about_draft_def)

text \<open>The filter compares with the names in lower case but keeps the case of what is typed.\<close>

lemma upper_case_finds_nobody:
  "map iu_hidden (ia_users (run_store adminInfluxDB ((influx_start [])\<lparr>ia_users := [NEW_DEFAULT_USER\<lparr>iu_name := ''Bob''\<rparr>]\<rparr>) [IFilterUsers ''B''])) = [True]"
  by code_simp

text \<open>A user that could not be deleted stays off the list.\<close>

lemma refused_deletion_stays:
  "influx_effect (deleteUser_influx u (Inl e)) = [IDeleteUser u]"
  by (cases e) (simp add: deleteUser_influx_def optimistic_delete_def influx_failed_def split: option.splits)

section \<open>The pages\<close>

definition isValidUser :: "influx_user \<Rightarrow> bool" where
  "isValidUser user \<longleftrightarrow> length (iu_name user) \<ge> 3 \<and> length (iu_password user) \<ge> 3"

definition isValidRole :: "influx_role \<Rightarrow> bool" where
  "isValidRole r \<longleftrightarrow> length (ir_name r) \<ge> 3"

datatype influx_request =
    CreateUserRequest influx_user | CreateRoleRequest influx_role | CreateDatabaseRequest influx_db | DeleteDatabaseRequest influx_db
  | CreatePolicyRequest influx_db retention_policy | UpdatePolicyRequest influx_db retention_policy policy_edit
  | Dispatch influx_action | Notify string

definition handleSaveUser :: "influx_user \<Rightarrow> influx_request list" where
  "handleSaveUser user =
     (if \<not> isValidUser user then [Notify ''userNamePasswordInvalid''] else if iu_isNew user then [CreateUserRequest user] else [])"

definition handleSaveRole :: "influx_role \<Rightarrow> influx_request list" where
  "handleSaveRole r = (if \<not> isValidRole r then [Notify ''roleNameInvalid''] else if ir_isNew r then [CreateRoleRequest r] else [])"

definition allowed_permissions :: "influx_admin \<Rightarrow> string list" where
  "allowed_permissions st = (case List.find (\<lambda>p. fst p = ''all'') (ia_permissions st) of None \<Rightarrow> [] | Some p \<Rightarrow> snd p)"

definition handleCreateDatabase :: "influx_db list \<Rightarrow> influx_db \<Rightarrow> influx_request list" where
  "handleCreateDatabase databases database =
     (if id_name database = [] then [Notify ''databaseNameInvalid'']
      else if \<exists>db\<in>set (drop 1 databases). id_name db = id_name database then [Notify ''databaseNameAlreadyExists'']
      else [CreateDatabaseRequest database])"

datatype key = Escape | Enter | Other_Key

definition handleKeyDownDatabase :: "influx_db list \<Rightarrow> influx_db \<Rightarrow> key \<Rightarrow> influx_request list" where
  "handleKeyDownDatabase databases database k =
     (case k of Escape \<Rightarrow> [Dispatch (IRemoveDatabase database)] | Enter \<Rightarrow> handleCreateDatabase databases database | Other_Key \<Rightarrow> [])"

definition handleDatabaseDeleteConfirm :: "influx_db \<Rightarrow> key \<Rightarrow> string \<Rightarrow> influx_request list" where
  "handleDatabaseDeleteConfirm database k val =
     (case k of
        Escape \<Rightarrow> [Dispatch (IRemoveDatabaseDeleteCode database)]
      | Enter \<Rightarrow> (if id_deleteCode database \<noteq> Some (''DELETE '' @ id_name database) then [Notify ''databaseDeleteConfirmationRequired'']
          else [DeleteDatabaseRequest database])
      | Other_Key \<Rightarrow> [Dispatch (IEditDatabase database (DeleteCode val))])"

definition onConfirm :: "influx_db \<Rightarrow> influx_request list" where
  \<comment> \<open>the button beside the text\<close>
  "onConfirm database =
     (if id_deleteCode database \<noteq> Some (''DELETE '' @ id_name database) then [Notify ''databaseDeleteConfirmationRequired'']
      else [DeleteDatabaseRequest database])"

definition getInputValues :: "bool \<Rightarrow> retention_policy \<Rightarrow> string option \<Rightarrow> string \<Rightarrow> int \<Rightarrow> policy_edit option" where
  \<comment> \<open>of the inputs of a policy's row: the name's input is there for a new policy only, that of the replication for an enterprise cluster; the
    sign of infinity is not among the characters of the model\<close>
  "getInputValues isRFDisplayed rp nm dur repl =
     (let name' = (case nm of None \<Rightarrow> rp_name rp | Some s \<Rightarrow> if js_trim s = [] then rp_name rp else js_trim s);
          duration = js_trim dur;
          replication = (if isRFDisplayed then repl else 1)
      in if duration = [] \<or> isRFDisplayed \<and> replication = 0 then None
         else Some \<lparr>pe_name = name', pe_duration = duration, pe_replication = replication\<rparr>)"

definition handleCreate_rp :: "influx_db \<Rightarrow> retention_policy \<Rightarrow> policy_edit option \<Rightarrow> influx_request list" where
  "handleCreate_rp database rp inputs =
     (case inputs of None \<Rightarrow> [Notify ''retentionPolicyCantHaveEmptyFields''] | Some e \<Rightarrow> [CreatePolicyRequest database (edit_policy e rp)])"

definition handleUpdate_rp :: "influx_db \<Rightarrow> retention_policy \<Rightarrow> policy_edit option \<Rightarrow> influx_request list" where
  "handleUpdate_rp database rp inputs =
     (case inputs of None \<Rightarrow> [Notify ''retentionPolicyCantHaveEmptyFields''] | Some e \<Rightarrow> [UpdatePolicyRequest database rp e])"

definition handleKeyDown_rp :: "influx_db \<Rightarrow> retention_policy \<Rightarrow> key \<Rightarrow> policy_edit option \<Rightarrow> influx_request list" where
  "handleKeyDown_rp database rp k inputs =
     (case k of
        Escape \<Rightarrow> (if rp_isNew rp then [Dispatch (IRemoveRetentionPolicy database rp)] else [])
      | Enter \<Rightarrow> (if rp_isNew rp then handleCreate_rp database rp inputs else handleUpdate_rp database rp inputs)
      | Other_Key \<Rightarrow> [])"

definition handleClickOutside_rp :: "influx_db \<Rightarrow> retention_policy \<Rightarrow> influx_request list" where
  "handleClickOutside_rp database rp = (if rp_isNew rp then [Dispatch (IRemoveRetentionPolicy database rp)] else [])"

text \<open>The page of the databases, in which every event names the database whose row it happens in.\<close>

datatype db_event =
    StartDelete string | TypeCode string string | PressEnter string | PressEscape string | ClickConfirm string
  | Elsewhere influx_action \<comment> \<open>any other action on the store\<close>

record db_page =
  dp_store :: influx_admin
  dp_typed :: "(string \<times> string) list" \<comment> \<open>what has been typed, in which row\<close>
  dp_deleted :: "influx_db list" \<comment> \<open>what the server has been asked to delete\<close>

definition row :: "db_page \<Rightarrow> string \<Rightarrow> influx_db option" where
  "row st l = List.find (\<lambda>db. id_self db = l) (ia_databases (dp_store st))"

fun db_request :: "db_page \<Rightarrow> influx_request \<Rightarrow> db_page" where
  "db_request st (Dispatch a) = st\<lparr>dp_store := adminInfluxDB (dp_store st) a\<rparr>"
| "db_request st (DeleteDatabaseRequest db) =
     st\<lparr>dp_store := adminInfluxDB (dp_store st) (IRemoveDatabase db), dp_deleted := dp_deleted st @ [db]\<rparr>"
| "db_request st _ = st"

definition row_requests :: "db_page \<Rightarrow> string \<Rightarrow> (influx_db \<Rightarrow> influx_request list) \<Rightarrow> db_page" where
  "row_requests st l f = (case row st l of None \<Rightarrow> st | Some db \<Rightarrow> foldl db_request st (f db))"

definition db_page_step :: "db_page \<Rightarrow> db_event \<Rightarrow> db_page" where
  "db_page_step st e =
     (case e of
        StartDelete l \<Rightarrow> row_requests st l (\<lambda>db. [Dispatch (IAddDatabaseDeleteCode db)])
      | TypeCode l s \<Rightarrow> (row_requests st l (\<lambda>db. handleDatabaseDeleteConfirm db Other_Key s))\<lparr>dp_typed := dp_typed st @ [(l, s)]\<rparr>
      | PressEnter l \<Rightarrow> row_requests st l (\<lambda>db. handleDatabaseDeleteConfirm db Enter [])
      | PressEscape l \<Rightarrow> row_requests st l (\<lambda>db. handleDatabaseDeleteConfirm db Escape [])
      | ClickConfirm l \<Rightarrow> row_requests st l onConfirm
      | Elsewhere a \<Rightarrow> st\<lparr>dp_store := adminInfluxDB (dp_store st) a\<rparr>)"

definition codes_typed :: "db_page \<Rightarrow> bool" where
  \<comment> \<open>every text of confirmation was typed in the row of its database, and so were those of the deleted databases\<close>
  "codes_typed st \<longleftrightarrow>
     (\<forall>db\<in>set (ia_databases (dp_store st)). \<forall>c. id_deleteCode db = Some c \<and> c \<noteq> [] \<longrightarrow> (id_self db, c) \<in> set (dp_typed st)) \<and>
     (\<forall>db\<in>set (dp_deleted st). (id_self db, ''DELETE '' @ id_name db) \<in> set (dp_typed st))"

definition codeless :: "db_page \<Rightarrow> db_event \<Rightarrow> bool" where
  \<comment> \<open>what comes from the server carries no text of confirmation, and what the page hands over is in the store\<close>
  "codeless st e =
     (case e of
        Elsewhere (ILoadDatabases ds) \<Rightarrow> (\<forall>d\<in>set ds. id_deleteCode d = None)
      | Elsewhere (ISyncDatabase _ d) \<Rightarrow> id_deleteCode d = None
      | Elsewhere (IAddRetentionPolicy d) \<Rightarrow> d \<in> set (ia_databases (dp_store st))
      | Elsewhere (IEditDatabase _ (DeleteCode _)) \<Rightarrow> False
      | _ \<Rightarrow> True)"

lemma row_Some: "row st l = Some db \<Longrightarrow> db \<in> set (ia_databases (dp_store st)) \<and> id_self db = l"
  unfolding row_def by (auto dest: find_Some)

lemma codes_typed_elsewhere:
  assumes "codes_typed st" and "codeless st (Elsewhere a)"
  shows "codes_typed (st\<lparr>dp_store := adminInfluxDB (dp_store st) a\<rparr>)"
proof (cases a)
  case (IEditDatabase d e)
  then show ?thesis using assms by (cases e) (auto simp: codes_typed_def codeless_def adminInfluxDB_def on_database_def)
next
  case (IAddDatabase uid)
  then show ?thesis using assms by (auto simp: codes_typed_def adminInfluxDB_def NEW_DEFAULT_DATABASE_def)
qed (use assms in \<open>auto simp: codes_typed_def codeless_def adminInfluxDB_def on_user_def on_role_def on_database_def on_policy_def\<close>)

lemma codes_typed_confirm:
  assumes inv: "codes_typed st" and "row st l = Some db" and "id_deleteCode db = Some (''DELETE '' @ id_name db)"
  shows "codes_typed (db_request st (DeleteDatabaseRequest db))"
proof -
  have "(id_self db, ''DELETE '' @ id_name db) \<in> set (dp_typed st)"
    using inv row_Some[OF assms(2)] assms(3) by (auto simp: codes_typed_def)
  then show ?thesis using inv by (auto simp: codes_typed_def adminInfluxDB_def)
qed

lemma codes_typed_step:
  assumes inv: "codes_typed st" and ok: "codeless st e"
  shows "codes_typed (db_page_step st e)"
proof (cases e)
  case (StartDelete l)
  then show ?thesis using inv codes_typed_elsewhere[OF inv, of "IAddDatabaseDeleteCode d" for d]
    by (auto simp: db_page_step_def row_requests_def codeless_def split: option.split)
next
  case (TypeCode l s)
  then show ?thesis using inv
    by (auto simp: db_page_step_def row_requests_def handleDatabaseDeleteConfirm_def codes_typed_def adminInfluxDB_def on_database_def
        dest!: row_Some split: option.split)
next
  case (PressEnter l)
  then show ?thesis using inv codes_typed_confirm[OF inv]
    by (auto simp: db_page_step_def row_requests_def handleDatabaseDeleteConfirm_def split: option.split)
next
  case (PressEscape l)
  then show ?thesis using inv codes_typed_elsewhere[OF inv, of "IRemoveDatabaseDeleteCode d" for d]
    by (auto simp: db_page_step_def row_requests_def handleDatabaseDeleteConfirm_def codeless_def split: option.split)
next
  case (ClickConfirm l)
  then show ?thesis using inv codes_typed_confirm[OF inv]
    by (auto simp: db_page_step_def row_requests_def onConfirm_def split: option.split)
next
  case (Elsewhere a)
  then show ?thesis using codes_typed_elsewhere[OF inv] ok by (simp add: db_page_step_def)
qed

interpretation db_rows: invariant_steps db_page_step codes_typed codeless
  by unfold_locales (rule codes_typed_step)

lemma db_requests_typed [simp]: "dp_typed (foldl db_request st rs) = dp_typed st"
proof (induction rs arbitrary: st)
  case (Cons r rs)
  then show ?case by (cases r) simp_all
qed simp

definition typed_codes :: "db_event list \<Rightarrow> (string \<times> string) list" where
  "typed_codes es = concat (map (\<lambda>e. case e of TypeCode l s \<Rightarrow> [(l, s)] | _ \<Rightarrow> []) es)"

lemma run_typed: "dp_typed (run_store db_page_step st es) = dp_typed st @ typed_codes es"
proof (induction es arbitrary: st)
  case (Cons e es)
  have "dp_typed (db_page_step st e) = dp_typed st @ typed_codes [e]"
    by (simp add: db_page_step_def row_requests_def typed_codes_def split: db_event.split option.split)
  then show ?case using Cons by (simp add: typed_codes_def)
qed (simp add: typed_codes_def)

text \<open>
  C35: No database is deleted by accident. Whatever is done on the page, the server is asked to delete a database only
  after DELETE and its name have been typed in its own row.
\<close>

theorem deletion_confirmed:
  assumes "\<forall>d\<in>set dbs. id_deleteCode d = None"
    and "st = \<lparr>dp_store = influx_start dbs, dp_typed = [], dp_deleted = []\<rparr>" and "run_ok codeless db_page_step st es"
    and "db \<in> set (dp_deleted (run_store db_page_step st es))"
  shows "TypeCode (id_self db) (''DELETE '' @ id_name db) \<in> set es"
proof -
  have "codes_typed st" using assms(1) by (simp add: assms(2) codes_typed_def influx_start_def)
  then have "codes_typed (run_store db_page_step st es)" by (rule db_rows.run_inv[OF _ assms(3)])
  then have "(id_self db, ''DELETE '' @ id_name db) \<in> set (typed_codes es)"
    using assms(4) run_typed[of st es] by (auto simp: codes_typed_def assms(2))
  then show ?thesis by (auto simp: typed_codes_def split: db_event.splits)
qed

theorem deletion_confirmed_witness:
  "let st = \<lparr>dp_store = influx_start [server_db ''a'' [], server_db ''b'' []], dp_typed = [], dp_deleted = []\<rparr>;
       es = [StartDelete ''/dbs/a'', TypeCode ''/dbs/a'' ''DELETE a'', PressEnter ''/dbs/a'', StartDelete ''/dbs/b'', ClickConfirm ''/dbs/b'']
   in map id_name (dp_deleted (run_store db_page_step st es)) = [''a''] \<and> TypeCode ''/dbs/a'' ''DELETE a'' \<in> set es"
proof -
  let ?st = "\<lparr>dp_store = influx_start [server_db ''a'' [], server_db ''b'' []], dp_typed = [], dp_deleted = []\<rparr>"
  let ?es = "[StartDelete ''/dbs/a'', TypeCode ''/dbs/a'' ''DELETE a'', PressEnter ''/dbs/a'', StartDelete ''/dbs/b'', ClickConfirm ''/dbs/b'']"
  let ?db = "(server_db ''a'' [])\<lparr>id_deleteCode := Some ''DELETE a''\<rparr>"
  have run: "dp_deleted (run_store db_page_step ?st ?es) = [?db]" by code_simp
  have ok: "run_ok codeless db_page_step ?st ?es" by code_simp
  have "\<forall>d\<in>set [server_db ''a'' [], server_db ''b'' []]. id_deleteCode d = None" by (simp add: server_db_def)
  from deletion_confirmed[OF this refl ok, of ?db] run show ?thesis by (simp add: server_db_def Let_def)
qed

section \<open>Running queries\<close>

fun skip_digits :: "string \<Rightarrow> string" where
  "skip_digits [] = []"
| "skip_digits (c # s) = (if is_digit c then skip_digits s else c # s)"

definition after_char :: "char \<Rightarrow> string option \<Rightarrow> string option" where
  \<comment> \<open>digits and then a character at the start of the text\<close>
  "after_char c s = (case s of None \<Rightarrow> None | Some t \<Rightarrow> (case skip_digits t of [] \<Rightarrow> None | d # u \<Rightarrow> if d = c then Some u else None))"

definition magnitude :: "string \<Rightarrow> nat option" where
  \<comment> \<open>\<open>TIMES.find\<close>; the sign of micro is a character of the model too\<close>
  "magnitude d =
     (if js_includes d ''ns'' then Some 0
      else if js_includes d [CHR 0xB5, CHR ''s''] then Some 1
      else if js_includes d ''u'' then Some 1
      else if (case after_char (CHR ''m'') (Some d) of Some (c # _) \<Rightarrow> c = CHR ''s'' | _ \<Rightarrow> False) then Some 2
      else if after_char (CHR ''s'') (Some d) \<noteq> None then Some 3
      else if after_char (CHR ''s'') (after_char (CHR ''m'') (Some d)) \<noteq> None then Some 4
      else if after_char (CHR ''s'') (after_char (CHR ''m'') (after_char (CHR ''h'') (Some d))) \<noteq> None then Some 5
      else None)"

definition compare_queries :: "running_query \<Rightarrow> running_query \<Rightarrow> bool result" where
  \<comment> \<open>what the comparison answers; it throws for a duration that is not found\<close>
  "compare_queries a b =
     (case (magnitude (rq_duration a), magnitude (rq_duration b)) of (Some m, Some n) \<Rightarrow> Inr (m \<le> n) | _ \<Rightarrow> Inl TypeError)"

text \<open>The comparison asks to swap two queries of the same magnitude in either order.\<close>

lemma queries_compare_both_ways:
  "magnitude (rq_duration a) = Some m \<Longrightarrow> magnitude (rq_duration b) = Some m \<Longrightarrow>
   compare_queries a b = Inr True \<and> compare_queries b a = Inr True"
  by (simp add: compare_queries_def)

text \<open>A duration of days, or one with a fraction, is not found, and the page throws.\<close>

lemma fraction_throws: "compare_queries \<lparr>rq_id = 1, rq_database = ''a'', rq_query = ''q'', rq_duration = ''1.5s''\<rparr> b = Inl TypeError"
proof -
  have "magnitude ''1.5s'' = None" by code_simp
  then show ?thesis by (simp add: compare_queries_def)
qed

definition uniqueQueries :: "running_query list \<Rightarrow> running_query list" where
  "uniqueQueries qs = uniq_by rq_id qs"

end
