(* ===== verification/Query_Config.thy ===== *)
theory Query_Config
  imports Js_Prelude
begin

text \<open>
  The query a user builds with the mouse: the types of \<open>ui/src/types/queries.ts\<close>, the field
  helpers of \<open>ui/src/shared/reducers/helpers/fields.js\<close>, \<open>ui/src/utils/defaultQueryConfig.ts\<close>
  and the transitions of \<open>ui/src/utils/queryTransitions.ts\<close>. A transition takes the value the
  store has under an id, which is missing when the id is unknown: \<open>{...undefined, x}\<close> is an
  object with nothing but \<open>x\<close>, so every property of a configuration may be missing, while
  reading a property of a missing configuration throws.
\<close>

section \<open>Data\<close>

datatype field =
  Field (f_value: string) (f_type: string) (f_alias: "string option") (f_args: "field list option")

record group_by =
  gb_time :: "string option"
  gb_tags :: "string list option"

record query_status =
  qs_loading :: "bool option"
  qs_error :: "string option"
  qs_warn :: "string option"
  qs_success :: "string option"

record time_shift =
  ts_label :: string
  ts_unit :: string
  ts_quantity :: string

record duration_range =
  dr_lower :: string
  dr_upper :: "string option"

record tag =
  tag_key :: string
  tag_value :: string

record namespace =
  ns_database :: string
  ns_retentionPolicy :: string

record query_config =
  qc_id :: "string option"
  qc_database :: "string option"
  qc_measurement :: "string option"
  qc_retentionPolicy :: "string option"
  qc_fields :: "field list option"
  qc_tags :: "string list js_obj option"
  qc_groupBy :: "group_by option"
  qc_areTagsAccepted :: "bool option"
  qc_rawText :: "string option"
  qc_range :: "duration_range option"
  qc_source :: "string option" \<comment> \<open>the id of the source object\<close>
  qc_fill :: "string option"
  qc_status :: "query_status option"
  qc_shifts :: "time_shift list option"
  qc_lower :: "string option"
  qc_upper :: "string option"
  qc_isQuerySupportedByExplorer :: "bool option"

definition empty_object :: query_config where
  "empty_object = \<lparr>qc_id = None, qc_database = None, qc_measurement = None, qc_retentionPolicy = None,
     qc_fields = None, qc_tags = None, qc_groupBy = None, qc_areTagsAccepted = None, qc_rawText = None,
     qc_range = None, qc_source = None, qc_fill = None, qc_status = None, qc_shifts = None,
     qc_lower = None, qc_upper = None, qc_isQuerySupportedByExplorer = None\<rparr>"

definition spread :: "query_config option \<Rightarrow> query_config" where
  \<comment> \<open>\<open>{...query}\<close>\<close>
  "spread q = (case q of None \<Rightarrow> empty_object | Some c \<Rightarrow> c)"

definition spread_groupBy :: "group_by option \<Rightarrow> group_by" where
  "spread_groupBy g = (case g of None \<Rightarrow> \<lparr>gb_time = None, gb_tags = None\<rparr> | Some x \<Rightarrow> x)"

definition NULL_STRING :: string where "NULL_STRING = ''null''"

definition defaultQueryConfig :: "string option \<Rightarrow> bool \<Rightarrow> query_config" where
  "defaultQueryConfig i isKapacitorRule =
     (let queryConfig = empty_object\<lparr>qc_id := i, qc_fields := Some [], qc_tags := Some [],
            qc_groupBy := Some \<lparr>gb_time = None, gb_tags = Some []\<rparr>,
            qc_areTagsAccepted := Some True, qc_shifts := Some []\<rparr>
      in if isKapacitorRule then queryConfig else queryConfig\<lparr>qc_fill := Some NULL_STRING\<rparr>)"

section \<open>Fields\<close>

fun fieldWalk :: "field list \<Rightarrow> (field \<Rightarrow> 'a option) \<Rightarrow> 'a list" where
  "fieldWalk [] fn = []"
| "fieldWalk (Field v ty al args # fs) fn =
     (case fn (Field v ty al args) of None \<Rightarrow> [] | Some x \<Rightarrow> [x]) @
     (case args of None \<Rightarrow> [] | Some as \<Rightarrow> fieldWalk as fn) @ fieldWalk fs fn"

definition ofType :: "field list \<Rightarrow> string \<Rightarrow> field list" where
  "ofType flds ty = filter (\<lambda>f. f_type f = ty) flds"

definition getFields :: "field list \<Rightarrow> field list" where
  "getFields flds = ofType flds ''field''"

definition getFunctions :: "field list \<Rightarrow> field list" where
  "getFunctions flds = ofType flds ''func''"

definition numFunctions :: "field list \<Rightarrow> nat" where
  "numFunctions flds = length (getFunctions flds)"

definition functionNames :: "field list \<Rightarrow> string list" where
  "functionNames flds = map f_value (getFunctions flds)"

definition getFieldsDeep :: "field list \<Rightarrow> field list" where
  "getFieldsDeep flds =
     uniq_by f_value (fieldWalk flds (\<lambda>f. if f_type f = ''field'' then Some f else None))"

definition fieldNamesDeep :: "field list \<Rightarrow> string list" where
  "fieldNamesDeep flds = map f_value (getFieldsDeep flds)"

definition firstFieldName :: "field list \<Rightarrow> string option" where
  "firstFieldName flds = (case fieldNamesDeep flds of [] \<Rightarrow> None | x # _ \<Rightarrow> Some x)"

definition hasField :: "string \<Rightarrow> field list \<Rightarrow> bool" where
  "hasField fieldName flds = list_ex (\<lambda>f. f = fieldName) (fieldNamesDeep flds)"

definition getFieldsWithName :: "string \<Rightarrow> field list \<Rightarrow> field list" where
  "getFieldsWithName fieldName flds = filter (\<lambda>f. f_value f = fieldName) (getFieldsDeep flds)"

definition everyOfType :: "field list \<Rightarrow> string \<Rightarrow> bool" where
  "everyOfType flds ty = list_all (\<lambda>f. f_type f = ty) flds"

definition everyTopField :: "field list \<Rightarrow> bool" where
  "everyTopField flds = everyOfType flds ''field''"

definition everyTopFunction :: "field list \<Rightarrow> bool" where
  "everyTopFunction flds = everyOfType flds ''func''"

definition args_or_empty :: "field \<Rightarrow> field list" where
  "args_or_empty f = (case f_args f of None \<Rightarrow> [] | Some as \<Rightarrow> as)"

definition getFuncsByFieldName :: "string \<Rightarrow> field list \<Rightarrow> field list" where
  "getFuncsByFieldName fieldName flds =
     filter (\<lambda>f. list_ex (\<lambda>a. f_value a = fieldName) (args_or_empty f)) (getFunctions flds)"

fun remove_applied :: "string \<Rightarrow> field list \<Rightarrow> field list result" where
  \<comment> \<open>the \<open>reduce\<close> of \<open>removeField\<close>: walking the arguments of an entry without any throws\<close>
  "remove_applied fieldName [] = Inr []"
| "remove_applied fieldName (f # fs) =
     bind_r (deref (f_args f)) (\<lambda>args.
       map_res (\<lambda>rest. if hasField fieldName args then rest else f # rest) (remove_applied fieldName fs))"

definition removeField :: "string \<Rightarrow> field list \<Rightarrow> field list result" where
  "removeField fieldName flds =
     (if everyTopField flds then Inr (filter (\<lambda>f. f_value f \<noteq> fieldName) flds)
      else remove_applied fieldName flds)"

section \<open>Transitions\<close>

definition editRawText :: "query_config option \<Rightarrow> string option \<Rightarrow> query_config" where
  "editRawText query rawText = (spread query)\<lparr>qc_rawText := rawText\<rparr>"

definition chooseNamespace :: "query_config option \<Rightarrow> namespace \<Rightarrow> bool \<Rightarrow> query_config result" where
  "chooseNamespace query ns isKapacitorRule =
     map_res (\<lambda>q. (defaultQueryConfig (qc_id q) isKapacitorRule)
         \<lparr>qc_database := Some (ns_database ns), qc_retentionPolicy := Some (ns_retentionPolicy ns)\<rparr>)
       (deref query)"

definition chooseMeasurement :: "query_config option \<Rightarrow> string \<Rightarrow> bool \<Rightarrow> query_config result" where
  "chooseMeasurement query measurement isKapacitorRule =
     map_res (\<lambda>q. (defaultQueryConfig (qc_id q) isKapacitorRule)
         \<lparr>qc_database := qc_database q, qc_retentionPolicy := qc_retentionPolicy q,
          qc_measurement := Some measurement\<rparr>)
       (deref query)"

definition toggleKapaField :: "query_config option \<Rightarrow> field \<Rightarrow> query_config result" where
  "toggleKapaField query f =
     (if f_type f = ''field'' then
        map_res (\<lambda>q. q\<lparr>qc_fields := Some [f],
            qc_groupBy := Some ((spread_groupBy (qc_groupBy q))\<lparr>gb_time := None\<rparr>)\<rparr>) (deref query)
      else Inr ((spread query)\<lparr>qc_fields := Some [f]\<rparr>))"

definition mean_of :: "string \<Rightarrow> field" where
  "mean_of v = Field ''mean'' ''func'' (Some (''mean_'' @ v)) (Some [Field v ''field'' None None])"

definition buildInitialField :: "string \<Rightarrow> field" where
  "buildInitialField v = mean_of v"

definition addInitialField :: "query_config option \<Rightarrow> field \<Rightarrow> group_by option \<Rightarrow> query_config" where
  "addInitialField query f groupBy =
     (spread query)\<lparr>qc_fields := Some [buildInitialField (f_value f)], qc_groupBy := groupBy\<rparr>"

definition toggleField :: "query_config option \<Rightarrow> field \<Rightarrow> query_config result" where
  "toggleField query f =
     bind_r (deref query) (\<lambda>q.
       let v = f_value f;
           flds = (case qc_fields q of None \<Rightarrow> [] | Some fs \<Rightarrow> fs);
           isSelected = hasField v flds;
           newFuncs = filter (\<lambda>f. f_type f = ''func'') flds
       in if isSelected then
            map_res (\<lambda>newFields.
              if newFields = [] then
                q\<lparr>qc_groupBy := Some ((spread_groupBy (qc_groupBy q))\<lparr>gb_time := None\<rparr>), qc_fields := Some []\<rparr>
              else q\<lparr>qc_fields := Some newFields\<rparr>)
              (removeField v flds)
          else if newFuncs = [] then
            Inr (q\<lparr>qc_fields := Some (flds @ [Field v ''field'' None None])\<rparr>)
          else Inr (q\<lparr>qc_fields := Some (flds @ [mean_of v])\<rparr>))"

definition groupByTime :: "query_config option \<Rightarrow> string option \<Rightarrow> query_config result" where
  "groupByTime query time =
     map_res (\<lambda>q. q\<lparr>qc_groupBy := Some ((spread_groupBy (qc_groupBy q))\<lparr>gb_time := time\<rparr>)\<rparr>) (deref query)"

definition fill :: "query_config option \<Rightarrow> string option \<Rightarrow> query_config" where
  "fill query v = (spread query)\<lparr>qc_fill := v\<rparr>"

definition toggleTagAcceptance :: "query_config option \<Rightarrow> query_config result" where
  "toggleTagAcceptance query =
     map_res (\<lambda>q. q\<lparr>qc_areTagsAccepted := Some (\<not> (qc_areTagsAccepted q = Some True))\<rparr>) (deref query)"

definition removeFuncs :: "query_config option \<Rightarrow> field list option \<Rightarrow> query_config result" where
  "removeFuncs query flds =
     bind_r (deref flds) (\<lambda>fs. map_res (\<lambda>q.
       q\<lparr>qc_fields := Some (getFieldsDeep fs),
         qc_groupBy := Some ((spread_groupBy (qc_groupBy q))\<lparr>gb_time := None\<rparr>)\<rparr>) (deref query))"

definition updateRawQuery :: "query_config option \<Rightarrow> string option \<Rightarrow> query_config" where
  "updateRawQuery query rawText = (spread query)\<lparr>qc_rawText := rawText\<rparr>"

definition timeShift :: "query_config option \<Rightarrow> time_shift \<Rightarrow> query_config" where
  "timeShift query shift = (spread query)\<lparr>qc_shifts := Some [shift]\<rparr>"

text \<open>
  \<open>applyFuncsToField\<close>: the accumulator of its \<open>reduce\<close> holds fields and, for a plain field, one
  array of functions, which the look-up of duplicates does not see into.
\<close>

type_synonym acc_item = "field + field list"

definition item_fields :: "acc_item \<Rightarrow> field list" where
  "item_fields x = (case x of Inl f \<Rightarrow> [f] | Inr fs \<Rightarrow> fs)"

definition top_fields :: "acc_item list \<Rightarrow> field list" where
  "top_fields acc = concat (map (\<lambda>x. case x of Inl f \<Rightarrow> [f] | Inr _ \<Rightarrow> []) acc)"

definition applied_alias :: "field \<Rightarrow> string \<Rightarrow> string" where
  "applied_alias func v = f_value func @ ''_'' @ v"

definition apply_to_plain :: "field list \<Rightarrow> field \<Rightarrow> field list" where
  "apply_to_plain funcs f = map (\<lambda>func. Field (f_value func) (f_type func)
       (Some (case f_alias func of
          None \<Rightarrow> applied_alias func (f_value f)
        | Some a \<Rightarrow> if a = [] then applied_alias func (f_value f) else a))
       (Some [Field (f_value f) ''field'' None None])) funcs"

definition new_funcs :: "acc_item list \<Rightarrow> field list \<Rightarrow> field \<Rightarrow> string \<Rightarrow> field list" where
  "new_funcs acc funcs target changed =
     foldl (\<lambda>acc2 func.
       let funcsToChange = getFuncsByFieldName changed (top_fields acc)
       in case List.find (\<lambda>a. f_value a = f_value func) funcsToChange of
            Some dup \<Rightarrow> acc2
          | None \<Rightarrow> acc2 @ [Field (f_value func) (f_type func)
                      (Some (applied_alias func (f_value target))) (Some [target])]) [] funcs"

fun apply_funcs_loop :: "field list \<Rightarrow> field \<Rightarrow> acc_item list \<Rightarrow> field list \<Rightarrow> acc_item list result" where
  "apply_funcs_loop funcs target acc [] = Inr acc"
| "apply_funcs_loop funcs target acc (f # fs) =
     (if f_type f = ''field'' then apply_funcs_loop funcs target (acc @ [Inr (apply_to_plain funcs f)]) fs
      else bind_r (deref (f_args f)) (\<lambda>args.
        case List.find (\<lambda>a. f_value a = f_value target) args of
          Some fieldToChange \<Rightarrow>
            apply_funcs_loop funcs target (acc @ map Inl (new_funcs acc funcs target (f_value fieldToChange))) fs
        | None \<Rightarrow> apply_funcs_loop funcs target (acc @ [Inl f]) fs))"

record apply_args =
  aa_field :: field
  aa_funcs :: "field list option"

definition applyFuncsToField :: "query_config option \<Rightarrow> apply_args \<Rightarrow> group_by option \<Rightarrow> query_config result" where
  "applyFuncsToField query args groupBy =
     bind_r (deref query) (\<lambda>q. bind_r (deref (qc_fields q)) (\<lambda>flds.
       map_res (\<lambda>nextFields. q\<lparr>qc_fields := Some (concat (map item_fields nextFields)), qc_groupBy := groupBy\<rparr>)
         (apply_funcs_loop (case aa_funcs args of None \<Rightarrow> [] | Some fs \<Rightarrow> fs) (aa_field args) [] flds)))"

definition splice_value :: "string list \<Rightarrow> string \<Rightarrow> string list" where
  \<comment> \<open>\<open>xs.splice(xs.indexOf(x), 1)\<close> on a copy that has \<open>x\<close>: the first one goes\<close>
  "splice_value xs x = remove1 x xs"

definition groupByTag :: "query_config option \<Rightarrow> string \<Rightarrow> query_config result" where
  "groupByTag query tagKey =
     bind_r (deref query) (\<lambda>q. bind_r (deref (qc_groupBy q)) (\<lambda>g. bind_r (deref (gb_tags g)) (\<lambda>oldTags.
       let newTags = (if tagKey \<in> set oldTags then splice_value oldTags tagKey else oldTags @ [tagKey])
       in Inr (q\<lparr>qc_groupBy := Some (g\<lparr>gb_tags := Some newTags\<rparr>)\<rparr>))))"

definition chooseTag :: "query_config option \<Rightarrow> tag \<Rightarrow> query_config result" where
  "chooseTag query tg =
     bind_r (deref query) (\<lambda>q. bind_r (deref (qc_tags q)) (\<lambda>tags.
       let tagValues = obj_get tags (tag_key tg)
       in Inr (if tagValues = Some [tag_value tg] then q\<lparr>qc_tags := Some (obj_del tags (tag_key tg))\<rparr>
          else case tagValues of
              None \<Rightarrow> q\<lparr>qc_tags := Some (obj_set tags (tag_key tg) [tag_value tg])\<rparr>
            | Some old \<Rightarrow>
                if tag_value tg \<in> set old
                then q\<lparr>qc_tags := Some (obj_set tags (tag_key tg) (splice_value old (tag_value tg)))\<rparr>
                else q\<lparr>qc_tags := Some (obj_set tags (tag_key tg) (old @ [tag_value tg]))\<rparr>)))"

section \<open>Well-formed configurations\<close>

definition plain_field :: "field \<Rightarrow> bool" where
  "plain_field f = (f_type f = ''field'')"

definition applied_func :: "field \<Rightarrow> bool" where
  "applied_func f = (f_type f = ''func'' \<and> f_args f \<noteq> None)"

definition homogeneous :: "field list \<Rightarrow> bool" where
  \<comment> \<open>the precondition \<open>removeField\<close> states: only fields, or only functions\<close>
  "homogeneous fs = (list_all plain_field fs \<or> list_all applied_func fs)"

definition wf_groupBy :: "group_by option \<Rightarrow> bool" where
  "wf_groupBy g = (case g of None \<Rightarrow> False | Some x \<Rightarrow> gb_tags x \<noteq> None)"

definition wf_config :: "query_config \<Rightarrow> bool" where
  "wf_config q = (qc_id q \<noteq> None \<and> (case qc_fields q of None \<Rightarrow> False | Some fs \<Rightarrow> homogeneous fs) \<and>
     wf_groupBy (qc_groupBy q) \<and> qc_tags q \<noteq> None)"

lemma wf_config_iff: "wf_config q \<longleftrightarrow> qc_id q \<noteq> None \<and> (\<exists>fs. qc_fields q = Some fs \<and> homogeneous fs) \<and>
     wf_groupBy (qc_groupBy q) \<and> qc_tags q \<noteq> None"
  by (auto simp: wf_config_def split: option.split)

definition funcs_ok :: "apply_args \<Rightarrow> bool" where
  "funcs_ok args = (case aa_funcs args of None \<Rightarrow> True | Some fs \<Rightarrow> list_all (\<lambda>f. f_type f = ''func'') fs)"

definition wf_result :: "query_config result \<Rightarrow> bool" where
  "wf_result r = (\<exists>q. r = Inr q \<and> wf_config q)"

lemma wf_result_Inr [simp]: "wf_result (Inr q) = wf_config q"
  by (simp add: wf_result_def)

lemma field_not_func [simp]: "plain_field f \<Longrightarrow> \<not> applied_func f"
  by (simp add: plain_field_def applied_func_def)

lemma homogeneous_Nil [simp]: "homogeneous []"
  by (simp add: homogeneous_def)

lemma homogeneous_filter: "homogeneous fs \<Longrightarrow> homogeneous (filter P fs)"
  by (auto simp: homogeneous_def list_all_iff)

lemma spread_Some [simp]: "spread (Some q) = q"
  by (simp add: spread_def)

lemma wf_groupBy_time [simp]:
  "wf_groupBy g \<Longrightarrow> wf_groupBy (Some ((spread_groupBy g)\<lparr>gb_time := tm\<rparr>))"
  by (auto simp: wf_groupBy_def spread_groupBy_def split: option.splits)

lemma removeField_homogeneous:
  "homogeneous fs \<Longrightarrow> \<exists>out. removeField v fs = Inr out \<and> homogeneous out \<and> set out \<subseteq> set fs"
proof -
  assume h: "homogeneous fs"
  have rest: "list_all applied_func gs \<Longrightarrow>
      \<exists>out. remove_applied v gs = Inr out \<and> list_all applied_func out \<and> set out \<subseteq> set gs" for gs
    by (induction gs) (force simp: applied_func_def)+
  show ?thesis
  proof (cases "everyTopField fs")
    case True
    then show ?thesis using homogeneous_filter[OF h] by (auto simp: removeField_def)
  next
    case False
    then have "list_all applied_func fs"
      using h by (auto simp: homogeneous_def everyTopField_def everyOfType_def plain_field_def list_all_iff)
    from rest[OF this] False show ?thesis by (auto simp: removeField_def homogeneous_def)
  qed
qed

lemma fieldWalk_all:
  "(\<And>f x. fn f = Some x \<Longrightarrow> P x) \<Longrightarrow> list_all P (fieldWalk fs fn)"
  by (induction fs fn rule: fieldWalk.induct) (auto simp: list_all_iff split: option.splits)

lemma getFieldsDeep_plain: "list_all plain_field (getFieldsDeep fs)"
proof -
  have "list_all plain_field (fieldWalk fs (\<lambda>f. if f_type f = ''field'' then Some f else None))"
    by (rule fieldWalk_all) (auto simp: plain_field_def split: if_splits)
  then show ?thesis
    using set_uniq_by[of f_value "fieldWalk fs (\<lambda>f. if f_type f = ''field'' then Some f else None)"]
    by (auto simp: getFieldsDeep_def list_all_iff)
qed

lemma default_wf [keeps]: "i \<noteq> None \<Longrightarrow> wf_config (defaultQueryConfig i b)"
  by (simp add: defaultQueryConfig_def wf_config_iff wf_groupBy_def Let_def)

lemma editRawText_wf [keeps]: "wf_config q \<Longrightarrow> wf_config (editRawText (Some q) r)"
  by (simp add: editRawText_def wf_config_iff)

lemma updateRawQuery_wf [keeps]: "wf_config q \<Longrightarrow> wf_config (updateRawQuery (Some q) r)"
  by (simp add: updateRawQuery_def wf_config_iff)

lemma fill_wf [keeps]: "wf_config q \<Longrightarrow> wf_config (fill (Some q) v)"
  by (simp add: fill_def wf_config_iff)

lemma timeShift_wf [keeps]: "wf_config q \<Longrightarrow> wf_config (timeShift (Some q) s)"
  by (simp add: timeShift_def wf_config_iff)

lemma addInitialField_wf [keeps]: "wf_config q \<Longrightarrow> wf_groupBy g \<Longrightarrow> wf_config (addInitialField (Some q) f g)"
  by (simp add: addInitialField_def buildInitialField_def mean_of_def wf_config_iff homogeneous_def applied_func_def)

lemma chooseNamespace_wf [keeps]: "wf_config q \<Longrightarrow> wf_result (chooseNamespace (Some q) ns b)"
  by (simp add: chooseNamespace_def defaultQueryConfig_def wf_config_iff wf_groupBy_def Let_def)

lemma chooseMeasurement_wf [keeps]: "wf_config q \<Longrightarrow> wf_result (chooseMeasurement (Some q) m b)"
  by (simp add: chooseMeasurement_def defaultQueryConfig_def wf_config_iff wf_groupBy_def Let_def)

lemma groupByTime_wf [keeps]: "wf_config q \<Longrightarrow> wf_result (groupByTime (Some q) tm)"
  by (simp add: groupByTime_def wf_config_iff)

lemma toggleTagAcceptance_wf [keeps]: "wf_config q \<Longrightarrow> wf_result (toggleTagAcceptance (Some q))"
  by (simp add: toggleTagAcceptance_def wf_config_iff)

lemma removeFuncs_wf [keeps]: "wf_config q \<Longrightarrow> wf_result (removeFuncs (Some q) (Some fs))"
  by (simp add: removeFuncs_def wf_config_iff homogeneous_def getFieldsDeep_plain)

lemma toggleKapaField_wf [keeps]: "wf_config q \<Longrightarrow> homogeneous [f] \<Longrightarrow> wf_result (toggleKapaField (Some q) f)"
  by (simp add: toggleKapaField_def wf_config_iff)

lemma groupByTag_wf [keeps]: "wf_config q \<Longrightarrow> wf_result (groupByTag (Some q) k)"
  by (auto simp: groupByTag_def wf_config_iff wf_groupBy_def split: option.splits)

lemma chooseTag_wf [keeps]: "wf_config q \<Longrightarrow> wf_result (chooseTag (Some q) tg)"
  by (auto simp: chooseTag_def wf_config_iff Let_def split: option.split)

lemma toggleField_wf [keeps]:
  assumes "wf_config q"
  shows "wf_result (toggleField (Some q) f)"
proof -
  obtain fs where fs: "qc_fields q = Some fs" "homogeneous fs" using assms by (auto simp: wf_config_iff)
  obtain out where out: "removeField (f_value f) fs = Inr out" "homogeneous out"
    using removeField_homogeneous[OF fs(2)] by blast
  have "homogeneous (fs @ [Field (f_value f) ''field'' None None])" if "filter (\<lambda>f. f_type f = ''func'') fs = []"
    using fs(2) that by (auto simp: homogeneous_def list_all_iff plain_field_def applied_func_def filter_empty_conv)
  moreover have "homogeneous (fs @ [mean_of (f_value f)])" if "filter (\<lambda>f. f_type f = ''func'') fs \<noteq> []"
    using fs(2) that
    by (auto simp: homogeneous_def list_all_iff plain_field_def applied_func_def mean_of_def filter_empty_conv)
  ultimately show ?thesis
    using assms out by (simp add: toggleField_def fs(1) wf_config_iff Let_def)
qed

lemma new_funcs_applied:
  "\<forall>f\<in>set funcs. f_type f = ''func'' \<Longrightarrow> list_all applied_func (new_funcs acc funcs target changed)"
proof -
  assume f: "\<forall>f\<in>set funcs. f_type f = ''func''"
  have "list_all applied_func acc2 \<Longrightarrow> \<forall>f\<in>set fs. f_type f = ''func'' \<Longrightarrow>
      list_all applied_func (foldl (\<lambda>acc2 func.
       let funcsToChange = getFuncsByFieldName changed (top_fields acc)
       in case List.find (\<lambda>a. f_value a = f_value func) funcsToChange of
            Some dup \<Rightarrow> acc2
          | None \<Rightarrow> acc2 @ [Field (f_value func) (f_type func)
                      (Some (applied_alias func (f_value target))) (Some [target])]) acc2 fs)" for acc2 fs
    by (induction fs arbitrary: acc2) (auto simp: applied_func_def Let_def split: option.split)
  from this[of "[]" funcs] f show ?thesis by (simp add: new_funcs_def)
qed

lemma apply_funcs_loop_applied:
  assumes "\<forall>f\<in>set funcs. f_type f = ''func''"
  shows "homogeneous fs \<Longrightarrow> list_all applied_func (concat (map item_fields acc)) \<Longrightarrow>
    \<exists>out. apply_funcs_loop funcs target acc fs = Inr out \<and> list_all applied_func (concat (map item_fields out))"
proof (induction fs arbitrary: acc)
  case (Cons f fs)
  have hs: "homogeneous fs" using Cons.prems(1) by (auto simp: homogeneous_def)
  show ?case
  proof (cases "f_type f = ''field''")
    case True
    have "list_all applied_func (apply_to_plain funcs f)"
      using assms by (auto simp: apply_to_plain_def list_all_iff applied_func_def)
    with Cons.IH[OF hs, of "acc @ [Inr (apply_to_plain funcs f)]"] Cons.prems(2) True
    show ?thesis by (simp add: item_fields_def)
  next
    case False
    then obtain args where f: "f_args f = Some args" "applied_func f"
      using Cons.prems(1) by (auto simp: homogeneous_def plain_field_def applied_func_def)
    have inl: "concat (map item_fields (map Inl xs)) = xs" for xs
      by (induction xs) (simp_all add: item_fields_def)
    show ?thesis
    proof (cases "List.find (\<lambda>a. f_value a = f_value target) args")
      case None
      with Cons.IH[OF hs, of "acc @ [Inl f]"] Cons.prems(2) False f
      show ?thesis by (simp add: item_fields_def)
    next
      case (Some a)
      with Cons.IH[OF hs, of "acc @ map Inl (new_funcs acc funcs target (f_value a))"] Cons.prems(2) False f
        new_funcs_applied[OF assms, of acc target "f_value a"] inl[of "new_funcs acc funcs target (f_value a)"]
      show ?thesis by simp
    qed
  qed
qed auto

lemma applyFuncsToField_wf [keeps]:
  assumes "wf_config q" and "wf_groupBy g"
    and "funcs_ok args"
  shows "wf_result (applyFuncsToField (Some q) args g)"
proof -
  obtain fs where fs: "qc_fields q = Some fs" "homogeneous fs" using assms by (auto simp: wf_config_iff)
  let ?funcs = "case aa_funcs args of None \<Rightarrow> [] | Some fs \<Rightarrow> fs"
  have "\<forall>f\<in>set ?funcs. f_type f = ''func''" using assms(3) by (cases "aa_funcs args") (auto simp: funcs_ok_def list_all_iff)
  from apply_funcs_loop_applied[OF this fs(2), of "[]"]
  obtain out where "apply_funcs_loop ?funcs (aa_field args) [] fs = Inr out"
    "list_all applied_func (concat (map item_fields out))" by auto
  then show ?thesis using assms(1,2) fs by (simp add: applyFuncsToField_def wf_config_iff homogeneous_def)
qed

section \<open>What the toggles do\<close>

definition is_field :: "field \<Rightarrow> field option" where
  "is_field f = (if f_type f = ''field'' then Some f else None)"

lemma is_field_Field: "is_field (Field v ty al as) = (if ty = ''field'' then Some (Field v ty al as) else None)"
  by (simp add: is_field_def)

lemma fieldWalk_append: "fieldWalk (xs @ ys) fn = fieldWalk xs fn @ fieldWalk ys fn"
  by (induction xs fn rule: fieldWalk.induct) simp_all

lemma hasField_iff: "hasField v fs \<longleftrightarrow> v \<in> f_value ` set (fieldWalk fs is_field)"
  by (auto simp: hasField_def fieldNamesDeep_def getFieldsDeep_def keys_uniq_by is_field_def[abs_def] list_ex_iff)

lemma hasField_append: "hasField v (xs @ ys) \<longleftrightarrow> hasField v xs \<or> hasField v ys"
  by (auto simp: hasField_iff fieldWalk_append)

lemma hasField_Cons: "hasField v (f # fs) \<longleftrightarrow>
    (f_type f = ''field'' \<and> f_value f = v) \<or> (\<exists>as. f_args f = Some as \<and> hasField v as) \<or> hasField v fs"
  by (cases f) (auto simp: hasField_iff is_field_Field split: option.splits)

lemma hasField_Nil [simp]: "\<not> hasField v []"
  by (simp add: hasField_iff)

lemma hasField_plain_value: "f \<in> set fs \<Longrightarrow> plain_field f \<Longrightarrow> hasField (f_value f) fs"
  by (induction fs) (auto simp: hasField_Cons plain_field_def)

lemma remove_applied_other:
  "list_all applied_func fs \<Longrightarrow> \<not> hasField v fs \<Longrightarrow>
     remove_applied v (fs @ [mean_of v]) = Inr fs"
  by (induction fs) (auto simp: hasField_Cons applied_func_def mean_of_def)

lemma removeField_added:
  assumes "homogeneous fs" and "\<not> hasField v fs"
  shows "removeField v (fs @ [if filter (\<lambda>f. f_type f = ''func'') fs = [] then Field v ''field'' None None
      else mean_of v]) = Inr fs"
proof (cases "filter (\<lambda>f. f_type f = ''func'') fs = []")
  case True
  then have plain: "list_all plain_field fs"
    using assms(1) by (auto simp: homogeneous_def list_all_iff applied_func_def filter_empty_conv)
  have "filter (\<lambda>f. f_value f \<noteq> v) fs = fs"
    using assms(2) plain hasField_plain_value by (auto simp: filter_id_conv list_all_iff)
  moreover have "everyTopField (fs @ [Field v ''field'' None None])"
    using plain by (simp add: everyTopField_def everyOfType_def plain_field_def[abs_def])
  ultimately show ?thesis using True by (simp add: removeField_def)
next
  case False
  then have "list_all applied_func fs"
    using assms(1) by (auto simp: homogeneous_def list_all_iff plain_field_def filter_empty_conv)
  moreover have "\<not> everyTopField (fs @ [mean_of v])"
    by (simp add: everyTopField_def everyOfType_def mean_of_def)
  ultimately show ?thesis using False assms(2) by (simp add: removeField_def remove_applied_other)
qed

text \<open>
  toggling a field that a well-formed query does not have selects it, as a plain field or as its
  mean according to what the query holds, and toggling it again gives back the fields the query
  had; neither toggle throws.
\<close>

theorem toggleField_twice:
  assumes "wf_config q" and "qc_fields q = Some fs" and "\<not> hasField (f_value f) fs"
  shows "\<exists>q1 q2. toggleField (Some q) f = Inr q1 \<and> toggleField (Some q1) f = Inr q2 \<and>
    (\<exists>fs1. qc_fields q1 = Some fs1 \<and> hasField (f_value f) fs1) \<and> qc_fields q2 = Some fs"
proof -
  have hom: "homogeneous fs" using assms(1,2) by (auto simp: wf_config_iff)
  let ?x = "if filter (\<lambda>f. f_type f = ''func'') fs = [] then Field (f_value f) ''field'' None None else mean_of (f_value f)"
  let ?q1 = "q\<lparr>qc_fields := Some (fs @ [?x])\<rparr>"
  have one: "toggleField (Some q) f = Inr ?q1" by (simp add: toggleField_def assms(2,3) Let_def)
  have has: "hasField (f_value f) (fs @ [?x])" by (simp add: hasField_append hasField_Cons mean_of_def)
  then have "\<exists>q2. toggleField (Some ?q1) f = Inr q2 \<and> qc_fields q2 = Some fs"
    using removeField_added[OF hom assms(3)] by (auto simp: toggleField_def Let_def)
  with one has show ?thesis by fastforce
qed

definition cpu_config :: query_config where
  "cpu_config = (defaultQueryConfig (Some ''q'') False)\<lparr>qc_fields := Some [mean_of ''usage_idle'']\<rparr>"

lemma cpu_config_wf: "wf_config cpu_config"
  by (simp add: cpu_config_def defaultQueryConfig_def wf_config_iff wf_groupBy_def homogeneous_def
      mean_of_def applied_func_def Let_def)

theorem toggleField_twice_witness:
  "\<exists>q1 q2. toggleField (Some cpu_config) (Field ''usage_user'' ''field'' None None) = Inr q1 \<and>
     toggleField (Some q1) (Field ''usage_user'' ''field'' None None) = Inr q2 \<and>
     qc_fields q2 = Some [mean_of ''usage_idle'']"
proof -
  have "qc_fields cpu_config = Some [mean_of ''usage_idle'']" by (simp add: cpu_config_def)
  moreover have "\<not> hasField (f_value (Field ''usage_user'' ''field'' None None)) [mean_of ''usage_idle'']"
    by code_simp
  ultimately show ?thesis using toggleField_twice[OF cpu_config_wf] by blast
qed

definition selected_values :: "query_config \<Rightarrow> string \<Rightarrow> string list" where
  "selected_values q k =
     (case qc_tags q of None \<Rightarrow> [] | Some t \<Rightarrow> (case obj_get t k of None \<Rightarrow> [] | Some vs \<Rightarrow> vs))"

text \<open>
  Choosing a tag value of a query whose chosen values are distinct flips whether that value
  is chosen, leaves the other values and the other keys alone, and never leaves a key with no
  value behind if there was none.
\<close>

theorem chooseTag_flips:
  assumes "qc_tags q = Some t" and "distinct (selected_values q (tag_key tg))"
  shows "\<exists>q' t'. chooseTag (Some q) tg = Inr q' \<and> qc_tags q' = Some t' \<and>
    set (selected_values q' (tag_key tg)) =
      (if tag_value tg \<in> set (selected_values q (tag_key tg))
       then set (selected_values q (tag_key tg)) - {tag_value tg}
       else insert (tag_value tg) (set (selected_values q (tag_key tg)))) \<and>
    (\<forall>k. k \<noteq> tag_key tg \<longrightarrow> selected_values q' k = selected_values q k) \<and>
    ((\<forall>k. obj_get t k \<noteq> Some []) \<longrightarrow> (\<forall>k. obj_get t' k \<noteq> Some []))"
proof (cases "obj_get t (tag_key tg)")
  case None
  then show ?thesis using assms(1) by (simp add: chooseTag_def selected_values_def obj_get_set)
next
  case (Some old)
  have d: "distinct old" using assms Some by (simp add: selected_values_def)
  have "remove1 (tag_value tg) old \<noteq> []" if "tag_value tg \<in> set old" "old \<noteq> [tag_value tg]"
  proof
    assume none: "remove1 (tag_value tg) old = []"
    then have "length old = 1" using length_remove1[of "tag_value tg" old] that(1)
      by (cases old) (auto split: if_splits)
    then obtain x where "old = [x]" by (cases old) auto
    then show False using that by auto
  qed
  then show ?thesis
    using assms(1) Some d
    by (auto simp: chooseTag_def selected_values_def obj_get_set obj_get_del splice_value_def Let_def
        split: if_splits)
qed

theorem chooseTag_flips_witness:
  "\<exists>q'. chooseTag (Some cpu_config) \<lparr>tag_key = ''host'', tag_value = ''a''\<rparr> = Inr q' \<and>
     set (selected_values q' ''host'') = {''a''}"
proof -
  have t: "qc_tags cpu_config = Some []" by (simp add: cpu_config_def defaultQueryConfig_def Let_def)
  then have "selected_values cpu_config k = []" for k by (simp add: selected_values_def)
  with chooseTag_flips[OF t, of "\<lparr>tag_key = ''host'', tag_value = ''a''\<rparr>"] show ?thesis by auto
qed

end
