(* ===== verification/Query_Store.thy ===== *)
theory Query_Store
  imports Query_Config
begin

text \<open>
  The stores of query configurations: the actions and reducers of the data explorer
  (\<open>ui/src/data_explorer/actions/view/index.ts\<close>, \<open>ui/src/data_explorer/reducers\<close>) and of the
  Kapacitor rule page (\<open>ui/src/kapacitor/actions/queryConfigs.ts\<close>,
  \<open>ui/src/kapacitor/reducers/queryConfigs.js\<close>). A reducer takes the state and an action and
  returns the next state or throws; the store applies its reducers to every action. Action
  creators are named after the page (\<open>de_\<close>, \<open>kapa_\<close>), since both pages have one of each name.
\<close>

section \<open>The data explorer's actions\<close>

record time_range =
  tr_lower :: "string option"
  tr_upper :: "string option option" \<comment> \<open>absent, or null, or a time\<close>
  tr_seconds :: "int option"
  tr_format :: "string option"

datatype de_action =
    DE_ADD_QUERY string
  | DE_DELETE_QUERY string
  | DE_TOGGLE_FIELD string field
  | DE_GROUP_BY_TIME string "string option"
  | DE_FILL string "string option"
  | DE_REMOVE_FUNCS string "field list option" "group_by option"
  | DE_APPLY_FUNCS_TO_FIELD string apply_args "group_by option"
  | DE_CHOOSE_TAG string tag
  | DE_CHOOSE_NAMESPACE string string string
  | DE_CHOOSE_MEASUREMENT string string
  | DE_EDIT_RAW_TEXT string "string option"
  | DE_SET_TIME_RANGE time_range
  | DE_GROUP_BY_TAG string string
  | DE_TOGGLE_TAG_ACCEPTANCE string
  | DE_UPDATE_RAW_QUERY string "string option"
  | DE_UPDATE_QUERY_CONFIG query_config
  | DE_ADD_INITIAL_FIELD string field "group_by option"
  | DE_EDIT_QUERY_STATUS string "query_status option"
  | DE_TIME_SHIFT string time_shift

definition de_addQuery :: "string \<Rightarrow> de_action" where
  \<comment> \<open>the default id is a fresh UUID\<close>
  "de_addQuery queryID = DE_ADD_QUERY queryID"

definition de_deleteQuery :: "string \<Rightarrow> de_action" where
  "de_deleteQuery queryID = DE_DELETE_QUERY queryID"

definition de_toggleField :: "string \<Rightarrow> field \<Rightarrow> de_action" where
  "de_toggleField queryID fieldFunc = DE_TOGGLE_FIELD queryID fieldFunc"

definition de_groupByTime :: "string \<Rightarrow> string option \<Rightarrow> de_action" where
  "de_groupByTime queryID time = DE_GROUP_BY_TIME queryID time"

definition de_fill :: "string \<Rightarrow> string option \<Rightarrow> de_action" where
  "de_fill queryID v = DE_FILL queryID v"

definition de_removeFuncs :: "string \<Rightarrow> field list option \<Rightarrow> group_by option \<Rightarrow> de_action" where
  "de_removeFuncs queryID flds groupBy = DE_REMOVE_FUNCS queryID flds groupBy"

definition de_applyFuncsToField :: "string \<Rightarrow> apply_args \<Rightarrow> group_by option \<Rightarrow> de_action" where
  "de_applyFuncsToField queryID fieldFunc groupBy = DE_APPLY_FUNCS_TO_FIELD queryID fieldFunc groupBy"

definition de_chooseTag :: "string \<Rightarrow> tag \<Rightarrow> de_action" where
  "de_chooseTag queryID tg = DE_CHOOSE_TAG queryID tg"

definition de_chooseNamespace :: "string \<Rightarrow> namespace \<Rightarrow> de_action" where
  "de_chooseNamespace queryID ns = DE_CHOOSE_NAMESPACE queryID (ns_database ns) (ns_retentionPolicy ns)"

definition de_chooseMeasurement :: "string \<Rightarrow> string \<Rightarrow> de_action" where
  "de_chooseMeasurement queryID measurement = DE_CHOOSE_MEASUREMENT queryID measurement"

definition de_editRawText :: "string \<Rightarrow> string option \<Rightarrow> de_action" where
  "de_editRawText queryID rawText = DE_EDIT_RAW_TEXT queryID rawText"

definition de_setTimeRange :: "time_range \<Rightarrow> de_action" where
  "de_setTimeRange bounds = DE_SET_TIME_RANGE bounds"

definition de_groupByTag :: "string \<Rightarrow> string \<Rightarrow> de_action" where
  "de_groupByTag queryID tagKey = DE_GROUP_BY_TAG queryID tagKey"

definition de_toggleTagAcceptance :: "string \<Rightarrow> de_action" where
  "de_toggleTagAcceptance queryID = DE_TOGGLE_TAG_ACCEPTANCE queryID"

definition de_updateRawQuery :: "string \<Rightarrow> string option \<Rightarrow> de_action" where
  "de_updateRawQuery queryID tx = DE_UPDATE_RAW_QUERY queryID tx"

definition de_updateQueryConfig :: "query_config \<Rightarrow> de_action" where
  "de_updateQueryConfig config = DE_UPDATE_QUERY_CONFIG config"

definition de_addInitialField :: "string \<Rightarrow> field \<Rightarrow> group_by option \<Rightarrow> de_action" where
  "de_addInitialField queryID f groupBy = DE_ADD_INITIAL_FIELD queryID f groupBy"

definition de_editQueryStatus :: "string \<Rightarrow> query_status option \<Rightarrow> de_action" where
  "de_editQueryStatus queryID status = DE_EDIT_QUERY_STATUS queryID status"

definition de_timeShift :: "string \<Rightarrow> time_shift \<Rightarrow> de_action" where
  "de_timeShift queryID shift = DE_TIME_SHIFT queryID shift"

text \<open>
  \<open>editRawTextAsync\<close> sends the text to the server, whose answer is a parameter: the queries it
  returns, each with its id and configuration, or a failure. What it dispatches is the update
  with the configuration of the query of that id, or the error.
\<close>

datatype de_dispatched = Dispatch de_action | ErrorThrown js_error

definition editRawTextAsync ::
    "(string \<Rightarrow> (string \<times> string) list \<Rightarrow> (string \<times> query_config) list result) \<Rightarrow> string \<Rightarrow> string \<Rightarrow> string \<Rightarrow> de_dispatched" where
  "editRawTextAsync getQueryConfigAndStatus url i tx =
     (case bind_r (getQueryConfigAndStatus url [(tx, i)])
             (\<lambda>queries. map_res snd (deref (List.find (\<lambda>q. fst q = i) queries))) of
        Inr config \<Rightarrow> Dispatch (de_updateQueryConfig config)
      | Inl e \<Rightarrow> ErrorThrown e)"

section \<open>The data explorer's reducers\<close>

type_synonym configs = "query_config js_obj"

definition de_queryConfigs :: "configs \<Rightarrow> de_action \<Rightarrow> configs result" where
  "de_queryConfigs state action =
     (case action of
        DE_CHOOSE_NAMESPACE queryID database retentionPolicy \<Rightarrow>
          map_res (\<lambda>next. obj_set state queryID (next\<lparr>qc_rawText := None\<rparr>))
            (chooseNamespace (obj_get state queryID)
               \<lparr>ns_database = database, ns_retentionPolicy = retentionPolicy\<rparr> False)
      | DE_CHOOSE_MEASUREMENT queryID measurement \<Rightarrow>
          bind_r (chooseMeasurement (obj_get state queryID) measurement False) (\<lambda>next.
          map_res (\<lambda>q. obj_set state queryID (next\<lparr>qc_rawText := qc_rawText q\<rparr>))
            (deref (obj_get state queryID)))
      | DE_ADD_QUERY queryID \<Rightarrow> Inr (obj_set state queryID (defaultQueryConfig (Some queryID) False))
      | DE_DELETE_QUERY queryID \<Rightarrow> Inr (obj_del state queryID)
      | DE_UPDATE_QUERY_CONFIG config \<Rightarrow> Inr (obj_set state (opt_str (qc_id config)) config)
      | DE_EDIT_RAW_TEXT queryID rawText \<Rightarrow>
          Inr (obj_set state queryID (editRawText (obj_get state queryID) rawText))
      | DE_GROUP_BY_TIME queryID time \<Rightarrow>
          map_res (obj_set state queryID) (groupByTime (obj_get state queryID) time)
      | DE_TOGGLE_TAG_ACCEPTANCE queryID \<Rightarrow>
          map_res (obj_set state queryID) (toggleTagAcceptance (obj_get state queryID))
      | DE_TOGGLE_FIELD queryID fieldFunc \<Rightarrow>
          map_res (\<lambda>next. obj_set state queryID (next\<lparr>qc_rawText := None\<rparr>))
            (toggleField (obj_get state queryID) fieldFunc)
      | DE_APPLY_FUNCS_TO_FIELD queryID fieldFunc groupBy \<Rightarrow>
          map_res (obj_set state queryID) (applyFuncsToField (obj_get state queryID) fieldFunc groupBy)
      | DE_CHOOSE_TAG queryID tg \<Rightarrow>
          map_res (obj_set state queryID) (chooseTag (obj_get state queryID) tg)
      | DE_GROUP_BY_TAG queryID tagKey \<Rightarrow>
          map_res (obj_set state queryID) (groupByTag (obj_get state queryID) tagKey)
      | DE_FILL queryID v \<Rightarrow> Inr (obj_set state queryID (fill (obj_get state queryID) v))
      | DE_UPDATE_RAW_QUERY queryID tx \<Rightarrow>
          Inr (obj_set state queryID (updateRawQuery (obj_get state queryID) tx))
      | DE_EDIT_QUERY_STATUS queryID status \<Rightarrow>
          Inr (obj_set state queryID ((spread (obj_get state queryID))\<lparr>qc_status := status\<rparr>))
      | DE_REMOVE_FUNCS queryID flds groupBy \<Rightarrow>
          map_res (obj_set state queryID) (removeFuncs (obj_get state queryID) flds)
      | DE_ADD_INITIAL_FIELD queryID f groupBy \<Rightarrow>
          Inr (obj_set state queryID (addInitialField (obj_get state queryID) f groupBy))
      | DE_TIME_SHIFT queryID shift \<Rightarrow>
          Inr (obj_set state queryID (timeShift (obj_get state queryID) shift))
      | DE_SET_TIME_RANGE bounds \<Rightarrow> Inr state)"

definition de_ui :: "string list \<Rightarrow> de_action \<Rightarrow> string list" where
  \<comment> \<open>the state is the object with the one property \<open>queryIDs\<close>\<close>
  "de_ui queryIDs action =
     (case action of
        DE_ADD_QUERY queryID \<Rightarrow> queryIDs @ [queryID]
      | DE_DELETE_QUERY queryID \<Rightarrow> filter (\<lambda>i. i \<noteq> queryID) queryIDs
      | _ \<Rightarrow> queryIDs)"

definition de_timeRange :: "time_range \<Rightarrow> de_action \<Rightarrow> time_range" where
  "de_timeRange state action =
     (case action of
        DE_SET_TIME_RANGE bounds \<Rightarrow>
          \<lparr>tr_lower = or_else (tr_lower bounds) (tr_lower state),
           tr_upper = or_else (tr_upper bounds) (tr_upper state),
           tr_seconds = or_else (tr_seconds bounds) (tr_seconds state),
           tr_format = or_else (tr_format bounds) (tr_format state)\<rparr>
      | _ \<Rightarrow> state)"

record de_store =
  dataExplorerQueryConfigs :: configs
  timeRange :: time_range
  dataExplorer :: "string list"

definition de_initial :: de_store where
  "de_initial = \<lparr>dataExplorerQueryConfigs = [],
     timeRange = \<lparr>tr_lower = Some ''now() - 1h'', tr_upper = Some None, tr_seconds = None, tr_format = None\<rparr>,
     dataExplorer = []\<rparr>"

definition de_reduce :: "de_store \<Rightarrow> de_action \<Rightarrow> de_store result" where
  \<comment> \<open>the combined reducers\<close>
  "de_reduce s a =
     map_res (\<lambda>qc. s\<lparr>dataExplorerQueryConfigs := qc, timeRange := de_timeRange (timeRange s) a,
                     dataExplorer := de_ui (dataExplorer s) a\<rparr>)
       (de_queryConfigs (dataExplorerQueryConfigs s) a)"

fun de_run :: "de_store \<Rightarrow> de_action list \<Rightarrow> de_store result" where
  "de_run s [] = Inr s"
| "de_run s (a # as) = bind_r (de_reduce s a) (\<lambda>s'. de_run s' as)"

section \<open>The Kapacitor page's actions and reducer\<close>

datatype kapa_action =
    KAPA_CHOOSE_NAMESPACE string string string
  | KAPA_CHOOSE_MEASUREMENT string string
  | KAPA_CHOOSE_TAG string tag
  | KAPA_GROUP_BY_TAG string string
  | KAPA_TOGGLE_TAG_ACCEPTANCE string
  | KAPA_TOGGLE_FIELD string field
  | KAPA_APPLY_FUNCS_TO_FIELD string apply_args
  | KAPA_GROUP_BY_TIME string "string option"
  | KAPA_REMOVE_FUNCS string "field list option"
  | KAPA_TIME_SHIFT string time_shift
  | KAPA_LOAD_QUERY query_config
  | KAPA_ADD_QUERY string

definition kapa_chooseNamespace :: "string \<Rightarrow> namespace \<Rightarrow> kapa_action" where
  "kapa_chooseNamespace queryID ns = KAPA_CHOOSE_NAMESPACE queryID (ns_database ns) (ns_retentionPolicy ns)"

definition kapa_chooseMeasurement :: "string \<Rightarrow> string \<Rightarrow> kapa_action" where
  "kapa_chooseMeasurement queryID measurement = KAPA_CHOOSE_MEASUREMENT queryID measurement"

definition kapa_chooseTag :: "string \<Rightarrow> tag \<Rightarrow> kapa_action" where
  "kapa_chooseTag queryID tg = KAPA_CHOOSE_TAG queryID tg"

definition kapa_groupByTag :: "string \<Rightarrow> string \<Rightarrow> kapa_action" where
  "kapa_groupByTag queryID tagKey = KAPA_GROUP_BY_TAG queryID tagKey"

definition kapa_toggleTagAcceptance :: "string \<Rightarrow> kapa_action" where
  "kapa_toggleTagAcceptance queryID = KAPA_TOGGLE_TAG_ACCEPTANCE queryID"

definition kapa_toggleField :: "string \<Rightarrow> field \<Rightarrow> kapa_action" where
  "kapa_toggleField queryID fieldFunc = KAPA_TOGGLE_FIELD queryID fieldFunc"

definition kapa_applyFuncsToField :: "string \<Rightarrow> apply_args \<Rightarrow> kapa_action" where
  "kapa_applyFuncsToField queryID fieldFunc = KAPA_APPLY_FUNCS_TO_FIELD queryID fieldFunc"

definition kapa_groupByTime :: "string \<Rightarrow> string option \<Rightarrow> kapa_action" where
  "kapa_groupByTime queryID time = KAPA_GROUP_BY_TIME queryID time"

definition kapa_removeFuncs :: "string \<Rightarrow> field list option \<Rightarrow> kapa_action" where
  "kapa_removeFuncs queryID flds = KAPA_REMOVE_FUNCS queryID flds"

definition kapa_timeShift :: "string \<Rightarrow> time_shift \<Rightarrow> kapa_action" where
  "kapa_timeShift queryID shift = KAPA_TIME_SHIFT queryID shift"

definition kapa_queryConfigs :: "configs \<Rightarrow> kapa_action \<Rightarrow> configs result" where
  "kapa_queryConfigs state action =
     (case action of
        KAPA_LOAD_QUERY query \<Rightarrow> Inr (obj_set state (opt_str (qc_id query)) query)
      | KAPA_ADD_QUERY queryID \<Rightarrow> Inr (obj_set state queryID (defaultQueryConfig (Some queryID) True))
      | KAPA_CHOOSE_NAMESPACE queryID database retentionPolicy \<Rightarrow>
          map_res (\<lambda>next. obj_set state queryID (next\<lparr>qc_rawText := None\<rparr>))
            (chooseNamespace (obj_get state queryID)
               \<lparr>ns_database = database, ns_retentionPolicy = retentionPolicy\<rparr> True)
      | KAPA_CHOOSE_MEASUREMENT queryID measurement \<Rightarrow>
          bind_r (chooseMeasurement (obj_get state queryID) measurement True) (\<lambda>next.
          map_res (\<lambda>q. obj_set state queryID (next\<lparr>qc_rawText := qc_rawText q\<rparr>))
            (deref (obj_get state queryID)))
      | KAPA_CHOOSE_TAG queryID tg \<Rightarrow>
          map_res (obj_set state queryID) (chooseTag (obj_get state queryID) tg)
      | KAPA_GROUP_BY_TAG queryID tagKey \<Rightarrow>
          map_res (obj_set state queryID) (groupByTag (obj_get state queryID) tagKey)
      | KAPA_TOGGLE_TAG_ACCEPTANCE queryID \<Rightarrow>
          map_res (obj_set state queryID) (toggleTagAcceptance (obj_get state queryID))
      | KAPA_TOGGLE_FIELD queryID fieldFunc \<Rightarrow>
          map_res (\<lambda>next. obj_set state queryID (next\<lparr>qc_rawText := None\<rparr>))
            (toggleKapaField (obj_get state queryID) fieldFunc)
      | KAPA_APPLY_FUNCS_TO_FIELD queryID fieldFunc \<Rightarrow>
          bind_r (deref (obj_get state queryID)) (\<lambda>q.
          bind_r (deref (qc_groupBy q)) (\<lambda>groupBy.
          map_res (obj_set state queryID)
            (applyFuncsToField (obj_get state queryID) fieldFunc
              (Some (groupBy\<lparr>gb_time := (if gb_time groupBy \<noteq> None \<and> gb_time groupBy \<noteq> Some []
                                        then gb_time groupBy else Some ''10s'')\<rparr>)))))
      | KAPA_GROUP_BY_TIME queryID time \<Rightarrow>
          map_res (obj_set state queryID) (groupByTime (obj_get state queryID) time)
      | KAPA_REMOVE_FUNCS queryID flds \<Rightarrow>
          map_res (obj_set state queryID) (removeFuncs (obj_get state queryID) flds)
      | KAPA_TIME_SHIFT queryID shift \<Rightarrow>
          Inr (obj_set state queryID (timeShift (obj_get state queryID) shift)))"

section \<open>The stores keep well-formed configurations\<close>

definition wf_configs :: "configs \<Rightarrow> bool" where
  \<comment> \<open>every configuration is well formed and stored under its own id\<close>
  "wf_configs s = (\<forall>k q. obj_get s k = Some q \<longrightarrow> wf_config q \<and> qc_id q = Some k)"

definition keeps_id :: "query_config \<Rightarrow> query_config result \<Rightarrow> bool" where
  "keeps_id q r = (\<forall>q'. r = Inr q' \<longrightarrow> qc_id q' = qc_id q)"

lemma pure_ids:
  "qc_id (editRawText (Some q) rt) = qc_id q" "qc_id (updateRawQuery (Some q) rt) = qc_id q"
  "qc_id (fill (Some q) v) = qc_id q" "qc_id (timeShift (Some q) sh) = qc_id q"
  "qc_id (addInitialField (Some q) f g) = qc_id q"
  by (simp_all add: editRawText_def updateRawQuery_def fill_def timeShift_def addInitialField_def)

lemma default_ids:
  "keeps_id q (chooseNamespace (Some q) ns b)" "keeps_id q (chooseMeasurement (Some q) m b)"
  by (simp_all add: keeps_id_def chooseNamespace_def chooseMeasurement_def defaultQueryConfig_def Let_def)

lemma keeps_id_Inl [simp]: "keeps_id q (Inl e)"
  by (simp add: keeps_id_def)

lemma keeps_id_Inr [simp]: "keeps_id q (Inr q') \<longleftrightarrow> qc_id q' = qc_id q"
  by (simp add: keeps_id_def)

lemma keeps_id_bind: "(\<And>x. keeps_id q (f x)) \<Longrightarrow> keeps_id q (bind_r r f)"
  by (cases r) simp_all

lemma keeps_id_map: "(\<And>x. qc_id (f x) = qc_id q) \<Longrightarrow> keeps_id q (map_res f r)"
  by (cases r) simp_all

lemma groupBy_ids:
  "keeps_id q (groupByTime (Some q) tm)" "keeps_id q (toggleTagAcceptance (Some q))"
  by (simp_all add: groupByTime_def toggleTagAcceptance_def)

lemma removeFuncs_id: "keeps_id q (removeFuncs (Some q) fs)"
  by (cases fs) (simp_all add: removeFuncs_def)

lemma toggleKapaField_id: "keeps_id q (toggleKapaField (Some q) f)"
  by (simp add: toggleKapaField_def)

lemma groupByTag_id: "keeps_id q (groupByTag (Some q) k)"
  by (simp add: groupByTag_def keeps_id_bind)

lemma applyFuncsToField_id: "keeps_id q (applyFuncsToField (Some q) as g)"
  by (simp add: applyFuncsToField_def keeps_id_bind keeps_id_map)

lemma chooseTag_id: "keeps_id q (chooseTag (Some q) tg)"
  by (simp add: chooseTag_def Let_def keeps_id_bind split: option.split)

lemma toggleField_id: "keeps_id q (toggleField (Some q) f)"
  by (simp add: toggleField_def Let_def keeps_id_map)

definition put_ok :: "configs \<Rightarrow> string \<Rightarrow> configs result \<Rightarrow> bool" where
  \<comment> \<open>no exception, a well-formed store, and only the entry \<open>k\<close> may have changed\<close>
  "put_ok s k r = (\<exists>s'. r = Inr s' \<and> wf_configs s' \<and> (\<forall>j. j \<noteq> k \<longrightarrow> obj_get s' j = obj_get s j))"

lemma wf_configs_set: "wf_configs s \<Longrightarrow> wf_config q \<Longrightarrow> qc_id q = Some k \<Longrightarrow> wf_configs (obj_set s k q)"
  by (simp add: wf_configs_def obj_get_set)

lemma put_okI:
  assumes "wf_configs s" and "obj_get s k = Some q" and "wf_result r" and "keeps_id q r"
  shows "put_ok s k (map_res (obj_set s k) r)"
proof -
  obtain q' where q': "r = Inr q'" "wf_config q'" using assms(3) by (auto simp: wf_result_def)
  then have "qc_id q' = Some k" using assms(1,2,4) by (simp add: wf_configs_def)
  then show ?thesis using q' wf_configs_set[OF assms(1) q'(2)] by (simp add: put_ok_def obj_get_set)
qed

lemma put_ok_rawI:
  assumes "wf_configs s" and "obj_get s k = Some q" and "wf_result r" and "keeps_id q r"
  shows "put_ok s k (map_res (\<lambda>next. obj_set s k (next\<lparr>qc_rawText := f next\<rparr>)) r)"
proof -
  obtain q' where q': "r = Inr q'" "wf_config q'" using assms(3) by (auto simp: wf_result_def)
  then have "qc_id q' = qc_id q" using assms(4) by simp
  with q' have "wf_result (Inr (q'\<lparr>qc_rawText := f q'\<rparr>))" "keeps_id q (Inr (q'\<lparr>qc_rawText := f q'\<rparr>))"
    by (simp_all add: wf_config_iff)
  from put_okI[OF assms(1,2) this] q'(1) show ?thesis by simp
qed

fun de_ok :: "configs \<Rightarrow> de_action \<Rightarrow> bool" where
  \<comment> \<open>what the page's components guarantee of an action: an id of the store where one is read, and
      a payload without missing parts\<close>
  "de_ok s (DE_ADD_QUERY i) = True"
| "de_ok s (DE_DELETE_QUERY i) = True"
| "de_ok s (DE_SET_TIME_RANGE b) = True"
| "de_ok s (DE_UPDATE_QUERY_CONFIG c) = wf_config c"
| "de_ok s (DE_TOGGLE_FIELD i f) = (obj_get s i \<noteq> None)"
| "de_ok s (DE_GROUP_BY_TIME i tm) = (obj_get s i \<noteq> None)"
| "de_ok s (DE_FILL i v) = (obj_get s i \<noteq> None)"
| "de_ok s (DE_REMOVE_FUNCS i fs g) = (obj_get s i \<noteq> None \<and> fs \<noteq> None)"
| "de_ok s (DE_APPLY_FUNCS_TO_FIELD i as g) = (obj_get s i \<noteq> None \<and> wf_groupBy g \<and> funcs_ok as)"
| "de_ok s (DE_CHOOSE_TAG i tg) = (obj_get s i \<noteq> None)"
| "de_ok s (DE_CHOOSE_NAMESPACE i db rp) = (obj_get s i \<noteq> None)"
| "de_ok s (DE_CHOOSE_MEASUREMENT i m) = (obj_get s i \<noteq> None)"
| "de_ok s (DE_EDIT_RAW_TEXT i rt) = (obj_get s i \<noteq> None)"
| "de_ok s (DE_GROUP_BY_TAG i k) = (obj_get s i \<noteq> None)"
| "de_ok s (DE_TOGGLE_TAG_ACCEPTANCE i) = (obj_get s i \<noteq> None)"
| "de_ok s (DE_UPDATE_RAW_QUERY i rt) = (obj_get s i \<noteq> None)"
| "de_ok s (DE_ADD_INITIAL_FIELD i f g) = (obj_get s i \<noteq> None \<and> wf_groupBy g)"
| "de_ok s (DE_EDIT_QUERY_STATUS i st) = (obj_get s i \<noteq> None)"
| "de_ok s (DE_TIME_SHIFT i sh) = (obj_get s i \<noteq> None)"

fun de_target :: "de_action \<Rightarrow> string" where
  \<comment> \<open>the only entry an action may change\<close>
  "de_target (DE_SET_TIME_RANGE b) = []"
| "de_target (DE_UPDATE_QUERY_CONFIG c) = opt_str (qc_id c)"
| "de_target (DE_ADD_QUERY i) = i"
| "de_target (DE_DELETE_QUERY i) = i"
| "de_target (DE_TOGGLE_FIELD i f) = i"
| "de_target (DE_GROUP_BY_TIME i tm) = i"
| "de_target (DE_FILL i v) = i"
| "de_target (DE_REMOVE_FUNCS i fs g) = i"
| "de_target (DE_APPLY_FUNCS_TO_FIELD i as g) = i"
| "de_target (DE_CHOOSE_TAG i tg) = i"
| "de_target (DE_CHOOSE_NAMESPACE i db rp) = i"
| "de_target (DE_CHOOSE_MEASUREMENT i m) = i"
| "de_target (DE_EDIT_RAW_TEXT i rt) = i"
| "de_target (DE_GROUP_BY_TAG i k) = i"
| "de_target (DE_TOGGLE_TAG_ACCEPTANCE i) = i"
| "de_target (DE_UPDATE_RAW_QUERY i rt) = i"
| "de_target (DE_ADD_INITIAL_FIELD i f g) = i"
| "de_target (DE_EDIT_QUERY_STATUS i st) = i"
| "de_target (DE_TIME_SHIFT i sh) = i"

lemma put_ok_pureI:
  "wf_configs s \<Longrightarrow> obj_get s k = Some q \<Longrightarrow> wf_config q' \<Longrightarrow> keeps_id q (Inr q') \<Longrightarrow>
     put_ok s k (Inr (obj_set s k q'))"
  using put_okI[of s k q "Inr q'"] by simp

lemma put_ok_addI: "wf_configs s \<Longrightarrow> wf_config q \<Longrightarrow> qc_id q = Some k \<Longrightarrow> put_ok s k (Inr (obj_set s k q))"
  by (simp add: put_ok_def wf_configs_set obj_get_set)

lemma default_id [simp]: "qc_id (defaultQueryConfig i b) = i"
  by (simp add: defaultQueryConfig_def Let_def)

lemmas config_puts = put_okI put_ok_rawI put_ok_pureI
lemmas transition_keeps = keeps pure_ids default_ids groupBy_ids removeFuncs_id toggleKapaField_id
  groupByTag_id applyFuncsToField_id chooseTag_id toggleField_id

lemma de_queryConfigs_put_ok:
  assumes s: "wf_configs s" and ok: "de_ok s a"
  shows "put_ok s (de_target a) (de_queryConfigs s a)"
proof -
  have wf: "wf_config q" if "obj_get s k = Some q" for k q using s that by (simp add: wf_configs_def)
  show ?thesis
  proof (cases a)
    case (DE_DELETE_QUERY i)
    then show ?thesis using s by (simp add: de_queryConfigs_def put_ok_def wf_configs_def obj_get_del)
  next
    case (DE_SET_TIME_RANGE b)
    then show ?thesis using s by (simp add: de_queryConfigs_def put_ok_def)
  next
    case (DE_UPDATE_QUERY_CONFIG c)
    then have "wf_config c" "\<exists>i. qc_id c = Some i" using ok by (auto simp: wf_config_iff)
    then show ?thesis using s DE_UPDATE_QUERY_CONFIG
      by (auto simp: de_queryConfigs_def opt_str_def intro: put_ok_addI)
  next
    case (DE_ADD_QUERY i)
    then show ?thesis using s by (simp add: de_queryConfigs_def put_ok_addI default_wf)
  next
    case (DE_CHOOSE_MEASUREMENT i m)
    then obtain q where q: "obj_get s i = Some q" using ok by auto
    obtain n where n: "chooseMeasurement (Some q) m False = Inr n" "wf_result (Inr n)" "keeps_id q (Inr n)"
      using chooseMeasurement_wf[OF wf[OF q], of m False] default_ids(2)[of q m False] by (auto simp: wf_result_def)
    then show ?thesis
      using put_ok_rawI[OF s q n(2,3), of "\<lambda>_. qc_rawText q"] q DE_CHOOSE_MEASUREMENT
      by (simp add: de_queryConfigs_def)
  next
    case (DE_EDIT_QUERY_STATUS i st)
    then obtain q where q: "obj_get s i = Some q" using ok by auto
    have "wf_config (q\<lparr>qc_status := st\<rparr>)" "keeps_id q (Inr (q\<lparr>qc_status := st\<rparr>))"
      using wf[OF q] by (simp_all add: wf_config_iff keeps_id_def)
    from put_ok_pureI[OF s q this] q DE_EDIT_QUERY_STATUS show ?thesis by (simp add: de_queryConfigs_def)
  qed (use ok wf s in \<open>auto simp: de_queryConfigs_def intro!: put_okI put_ok_rawI put_ok_pureI transition_keeps\<close>)
qed

text \<open>
  C12: on a store of well-formed configurations, an action of the data explorer that names a
  stored query (or adds, deletes or replaces one) is reduced without an exception, the store
  stays well formed, and no other query's configuration changes.
\<close>

theorem de_queryConfigs_keeps:
  assumes "wf_configs s" and "de_ok s a"
  shows "\<exists>s'. de_queryConfigs s a = Inr s' \<and> wf_configs s' \<and>
    (\<forall>j. j \<noteq> de_target a \<longrightarrow> obj_get s' j = obj_get s j)"
  using de_queryConfigs_put_ok[OF assms] by (simp add: put_ok_def)

theorem de_queryConfigs_keeps_witness:
  "\<exists>s'. de_queryConfigs [(''q'', cpu_config)] (DE_TOGGLE_FIELD ''q'' (Field ''usage_idle'' ''field'' None None)) = Inr s' \<and>
     wf_configs s'"
proof -
  have "wf_configs [(''q'', cpu_config)]"
    using cpu_config_wf by (simp add: wf_configs_def cpu_config_def)
  from de_queryConfigs_keeps[OF this, of "DE_TOGGLE_FIELD ''q'' (Field ''usage_idle'' ''field'' None None)"]
  show ?thesis by auto
qed

definition de_inv :: "de_store \<Rightarrow> bool" where
  \<comment> \<open>the page shows each of its queries once, and every shown query has a configuration\<close>
  "de_inv s = (wf_configs (dataExplorerQueryConfigs s) \<and> distinct (dataExplorer s) \<and>
     (\<forall>i\<in>set (dataExplorer s). obj_get (dataExplorerQueryConfigs s) i \<noteq> None))"

definition de_fresh :: "de_store \<Rightarrow> de_action \<Rightarrow> bool" where
  \<comment> \<open>a new query has a new id\<close>
  "de_fresh s a = (case a of DE_ADD_QUERY i \<Rightarrow> i \<notin> set (dataExplorer s) | _ \<Rightarrow> True)"

fun de_run_ok :: "de_store \<Rightarrow> de_action list \<Rightarrow> bool" where
  "de_run_ok s [] = True"
| "de_run_ok s (a # as) = (de_ok (dataExplorerQueryConfigs s) a \<and> de_fresh s a \<and>
     (case de_reduce s a of Inl e \<Rightarrow> True | Inr s' \<Rightarrow> de_run_ok s' as))"

lemma de_reduce_other:
  "j \<noteq> de_target a \<Longrightarrow> put_ok s (de_target a) (de_queryConfigs s a) \<Longrightarrow> de_queryConfigs s a = Inr s' \<Longrightarrow>
     obj_get s' j = obj_get s j"
  by (auto simp: put_ok_def)

lemma de_target_stays:
  assumes "de_queryConfigs s a = Inr s'" and "\<forall>i. a \<noteq> DE_DELETE_QUERY i" and "\<forall>b. a \<noteq> DE_SET_TIME_RANGE b"
  shows "obj_get s' (de_target a) \<noteq> None"
  using assms by (cases a) (auto simp: de_queryConfigs_def obj_get_set map_res_Inr_iff bind_r_Inr_iff)

lemma de_inv_step:
  assumes inv: "de_inv s" and ok: "de_ok (dataExplorerQueryConfigs s) a" and fresh: "de_fresh s a"
  shows "\<exists>s'. de_reduce s a = Inr s' \<and> de_inv s'"
proof -
  let ?c = "dataExplorerQueryConfigs s"
  have wf: "wf_configs ?c" using inv by (simp add: de_inv_def)
  note put = de_queryConfigs_put_ok[OF wf ok]
  obtain c' where c': "de_queryConfigs ?c a = Inr c'" "wf_configs c'" using put by (auto simp: put_ok_def)
  have "obj_get c' i \<noteq> None" if "i \<in> set (de_ui (dataExplorer s) a)" for i
  proof (cases "i = de_target a")
    case True
    show ?thesis
    proof (cases "(\<exists>j. a = DE_DELETE_QUERY j) \<or> (\<exists>b. a = DE_SET_TIME_RANGE b)")
      case False
      then show ?thesis using de_target_stays[OF c'(1)] True by blast
    next
      case special: True
      then show ?thesis using that True inv c'(1) by (auto simp: de_ui_def de_inv_def de_queryConfigs_def)
    qed
  next
    case False
    then have "i \<in> set (dataExplorer s)" using that by (cases a) (auto simp: de_ui_def)
    then show ?thesis using de_reduce_other[OF False put c'(1)] inv by (simp add: de_inv_def)
  qed
  moreover have "distinct (de_ui (dataExplorer s) a)"
    using inv fresh by (cases a) (auto simp: de_ui_def de_inv_def de_fresh_def)
  ultimately show ?thesis using c' by (simp add: de_reduce_def de_inv_def)
qed

lemma de_run_inv: "de_inv s \<Longrightarrow> de_run_ok s as \<Longrightarrow> \<exists>s'. de_run s as = Inr s' \<and> de_inv s'"
proof (induction as arbitrary: s)
  case (Cons a as)
  then obtain s1 where "de_reduce s a = Inr s1" "de_inv s1" using de_inv_step by fastforce
  with Cons show ?case by auto
qed simp


definition de_session :: "de_action list" where
  "de_session = [DE_ADD_QUERY ''q'', DE_CHOOSE_NAMESPACE ''q'' ''telegraf'' ''autogen'',
     DE_CHOOSE_MEASUREMENT ''q'' ''cpu'', DE_TOGGLE_FIELD ''q'' (Field ''usage_idle'' ''field'' None None),
     DE_DELETE_QUERY ''q'']"


fun kapa_ok :: "configs \<Rightarrow> kapa_action \<Rightarrow> bool" where
  "kapa_ok s (KAPA_LOAD_QUERY c) = wf_config c"
| "kapa_ok s (KAPA_ADD_QUERY i) = True"
| "kapa_ok s (KAPA_CHOOSE_NAMESPACE i db rp) = (obj_get s i \<noteq> None)"
| "kapa_ok s (KAPA_CHOOSE_MEASUREMENT i m) = (obj_get s i \<noteq> None)"
| "kapa_ok s (KAPA_CHOOSE_TAG i tg) = (obj_get s i \<noteq> None)"
| "kapa_ok s (KAPA_GROUP_BY_TAG i k) = (obj_get s i \<noteq> None)"
| "kapa_ok s (KAPA_TOGGLE_TAG_ACCEPTANCE i) = (obj_get s i \<noteq> None)"
| "kapa_ok s (KAPA_TOGGLE_FIELD i f) = (obj_get s i \<noteq> None \<and> homogeneous [f])"
| "kapa_ok s (KAPA_APPLY_FUNCS_TO_FIELD i as) = (obj_get s i \<noteq> None \<and> funcs_ok as)"
| "kapa_ok s (KAPA_GROUP_BY_TIME i tm) = (obj_get s i \<noteq> None)"
| "kapa_ok s (KAPA_REMOVE_FUNCS i fs) = (obj_get s i \<noteq> None \<and> fs \<noteq> None)"
| "kapa_ok s (KAPA_TIME_SHIFT i sh) = (obj_get s i \<noteq> None)"

fun kapa_target :: "kapa_action \<Rightarrow> string" where
  "kapa_target (KAPA_LOAD_QUERY c) = opt_str (qc_id c)"
| "kapa_target (KAPA_ADD_QUERY i) = i"
| "kapa_target (KAPA_CHOOSE_NAMESPACE i db rp) = i"
| "kapa_target (KAPA_CHOOSE_MEASUREMENT i m) = i"
| "kapa_target (KAPA_CHOOSE_TAG i tg) = i"
| "kapa_target (KAPA_GROUP_BY_TAG i k) = i"
| "kapa_target (KAPA_TOGGLE_TAG_ACCEPTANCE i) = i"
| "kapa_target (KAPA_TOGGLE_FIELD i f) = i"
| "kapa_target (KAPA_APPLY_FUNCS_TO_FIELD i as) = i"
| "kapa_target (KAPA_GROUP_BY_TIME i tm) = i"
| "kapa_target (KAPA_REMOVE_FUNCS i fs) = i"
| "kapa_target (KAPA_TIME_SHIFT i sh) = i"

lemma kapa_queryConfigs_put_ok:
  assumes s: "wf_configs s" and ok: "kapa_ok s a"
  shows "put_ok s (kapa_target a) (kapa_queryConfigs s a)"
proof -
  have wf: "wf_config q" if "obj_get s k = Some q" for k q using s that by (simp add: wf_configs_def)
  show ?thesis
  proof (cases a)
    case (KAPA_LOAD_QUERY c)
    then have "wf_config c" "\<exists>i. qc_id c = Some i" using ok by (auto simp: wf_config_iff)
    then show ?thesis using s KAPA_LOAD_QUERY
      by (auto simp: kapa_queryConfigs_def opt_str_def intro: put_ok_addI)
  next
    case (KAPA_ADD_QUERY i)
    then show ?thesis using s by (simp add: kapa_queryConfigs_def put_ok_addI default_wf)
  next
    case (KAPA_CHOOSE_MEASUREMENT i m)
    then obtain q where q: "obj_get s i = Some q" using ok by auto
    obtain n where n: "chooseMeasurement (Some q) m True = Inr n" "wf_result (Inr n)" "keeps_id q (Inr n)"
      using chooseMeasurement_wf[OF wf[OF q], of m True] default_ids(2)[of q m True] by (auto simp: wf_result_def)
    then show ?thesis
      using put_ok_rawI[OF s q n(2,3), of "\<lambda>_. qc_rawText q"] q KAPA_CHOOSE_MEASUREMENT
      by (simp add: kapa_queryConfigs_def)
  next
    case (KAPA_APPLY_FUNCS_TO_FIELD i as)
    then obtain q where q: "obj_get s i = Some q" using ok by auto
    then obtain g where g: "qc_groupBy q = Some g" "gb_tags g \<noteq> None"
      using wf[OF q] by (auto simp: wf_config_iff wf_groupBy_def split: option.splits)
    have "wf_groupBy (Some (g\<lparr>gb_time := tm\<rparr>))" for tm using g(2) by (simp add: wf_groupBy_def)
    then show ?thesis
      using ok q g KAPA_APPLY_FUNCS_TO_FIELD
        put_okI[OF s q applyFuncsToField_wf[OF wf[OF q]] applyFuncsToField_id]
      by (simp add: kapa_queryConfigs_def)
  qed (use ok wf s in \<open>auto simp: kapa_queryConfigs_def intro!: put_okI put_ok_rawI put_ok_pureI transition_keeps\<close>)
qed

text \<open>
  The same for the Kapacitor page: on a well-formed store an action on a stored query, or
  one that adds or loads a query, is reduced without an exception, keeps the store well formed and
  changes no other query.
\<close>

theorem kapa_queryConfigs_keeps:
  assumes "wf_configs s" and "kapa_ok s a"
  shows "\<exists>s'. kapa_queryConfigs s a = Inr s' \<and> wf_configs s' \<and>
    (\<forall>j. j \<noteq> kapa_target a \<longrightarrow> obj_get s' j = obj_get s j)"
  using kapa_queryConfigs_put_ok[OF assms] by (simp add: put_ok_def)

theorem kapa_queryConfigs_keeps_witness:
  "\<exists>s'. kapa_queryConfigs [(''q'', cpu_config)] (KAPA_GROUP_BY_TAG ''q'' ''host'') = Inr s' \<and> wf_configs s'"
proof -
  have "wf_configs [(''q'', cpu_config)]"
    using cpu_config_wf by (simp add: wf_configs_def cpu_config_def)
  from kapa_queryConfigs_keeps[OF this, of "KAPA_GROUP_BY_TAG ''q'' ''host''"] show ?thesis by auto
qed

end
