(* ===== verification/Fast_Loops.thy ===== *)
theory Fast_Loops
  imports Js_Prelude
begin

text \<open>
  The hand-written array loops of \<open>ui/src/utils/fast.ts\<close>, which the time series code uses in
  place of the built-in methods. A callback gets the element, its index and the whole array, as
  in the code; the lemmas show each loop equal to the list function it replaces.
\<close>

fun fast_map_loop :: "('a \<Rightarrow> nat \<Rightarrow> 'a list \<Rightarrow> 'b) \<Rightarrow> 'a list \<Rightarrow> nat \<Rightarrow> 'a list \<Rightarrow> 'b list" where
  "fast_map_loop iterator subject i [] = []"
| "fast_map_loop iterator subject i (x # xs) = iterator x i subject # fast_map_loop iterator subject (i + 1) xs"

definition fastMap :: "'a list \<Rightarrow> ('a \<Rightarrow> nat \<Rightarrow> 'a list \<Rightarrow> 'b) \<Rightarrow> 'b list" where
  "fastMap subject iterator = fast_map_loop iterator subject 0 subject"

fun fast_reduce_loop :: "('r \<Rightarrow> 'a \<Rightarrow> nat \<Rightarrow> 'a list \<Rightarrow> 'r) \<Rightarrow> 'a list \<Rightarrow> nat \<Rightarrow> 'r \<Rightarrow> 'a list \<Rightarrow> 'r" where
  "fast_reduce_loop iterator subject i res [] = res"
| "fast_reduce_loop iterator subject i res (x # xs) =
     fast_reduce_loop iterator subject (i + 1) (iterator res x i subject) xs"

definition fastReduce :: "'a list \<Rightarrow> ('r \<Rightarrow> 'a \<Rightarrow> nat \<Rightarrow> 'a list \<Rightarrow> 'r) \<Rightarrow> 'r \<Rightarrow> 'r" where
  \<comment> \<open>with an initial value, as every caller has one\<close>
  "fastReduce subject iterator initialValue = fast_reduce_loop iterator subject 0 initialValue subject"

definition fastReduce_noInit :: "'a list \<Rightarrow> ('a \<Rightarrow> 'a \<Rightarrow> nat \<Rightarrow> 'a list \<Rightarrow> 'a) \<Rightarrow> 'a option" where
  \<comment> \<open>without one the first element is the start, \<open>undefined\<close> on an empty array\<close>
  "fastReduce_noInit subject iterator =
     (case subject of [] \<Rightarrow> None | x # xs \<Rightarrow> Some (fast_reduce_loop iterator subject 1 x xs))"

fun fast_filter_loop :: "('a \<Rightarrow> nat \<Rightarrow> 'a list \<Rightarrow> bool) \<Rightarrow> 'a list \<Rightarrow> nat \<Rightarrow> 'a list \<Rightarrow> 'a list \<Rightarrow> 'a list" where
  "fast_filter_loop iterator subject i res [] = res"
| "fast_filter_loop iterator subject i res (x # xs) =
     fast_filter_loop iterator subject (i + 1) (if iterator x i subject then res @ [x] else res) xs"

definition fastFilter :: "'a list \<Rightarrow> ('a \<Rightarrow> nat \<Rightarrow> 'a list \<Rightarrow> bool) \<Rightarrow> 'a list" where
  "fastFilter subject iterator = fast_filter_loop iterator subject 0 [] subject"

fun fast_each_loop :: "('s \<Rightarrow> 'a \<Rightarrow> nat \<Rightarrow> 's result) \<Rightarrow> nat \<Rightarrow> 's \<Rightarrow> 'a list \<Rightarrow> 's result" where
  "fast_each_loop body i s [] = Inr s"
| "fast_each_loop body i s (x # xs) = bind_r (body s x i) (\<lambda>s'. fast_each_loop body (i + 1) s' xs)"

definition fastForEach :: "'a list \<Rightarrow> ('s \<Rightarrow> 'a \<Rightarrow> nat \<Rightarrow> 's result) \<Rightarrow> 's \<Rightarrow> 's result" where
  \<comment> \<open>the variables the callback writes are the state \<open>s\<close>; it may throw\<close>
  "fastForEach subject body s = fast_each_loop body 0 s subject"

definition push_all :: "'a list \<Rightarrow> 'a list \<Rightarrow> 'a list" where
  \<comment> \<open>push the elements one by one\<close>
  "push_all arr item = foldl (\<lambda>a x. a @ [x]) arr item"

definition fastConcat :: "'a list list \<Rightarrow> 'a list" where
  "fastConcat args = foldl push_all [] args"

definition fastCloneArray :: "'a list \<Rightarrow> 'a list" where
  "fastCloneArray input = map (\<lambda>i. input ! i) [0..<length input]"

lemma fast_map_loop_pure: "fast_map_loop (\<lambda>x i s. f x) subject i xs = map f xs"
  by (induction xs arbitrary: i) simp_all

lemma fastMap_map [js_simps]: "fastMap xs (\<lambda>x i s. f x) = map f xs"
  by (simp add: fastMap_def fast_map_loop_pure)

lemma fast_map_loop_index: "fast_map_loop (\<lambda>x i s. f i x) subject n xs = map (\<lambda>(i, x). f i x) (enumerate n xs)"
  by (induction xs arbitrary: n) simp_all

lemma fastMap_index: "fastMap xs (\<lambda>x i s. f i x) = map (\<lambda>(i, x). f i x) (enumerate 0 xs)"
  by (simp add: fastMap_def fast_map_loop_index)

lemma length_fast_map_loop [simp]: "length (fast_map_loop f subject n xs) = length xs"
  by (induction xs arbitrary: n) simp_all

lemma fast_reduce_loop_foldl: "fast_reduce_loop (\<lambda>r x i s. f r x) subject i r xs = foldl f r xs"
  by (induction xs arbitrary: i r) simp_all

lemma fastReduce_foldl [js_simps]: "fastReduce xs (\<lambda>r x i s. f r x) r = foldl f r xs"
  by (simp add: fastReduce_def fast_reduce_loop_foldl)

lemma fast_reduce_loop_index:
  "fast_reduce_loop (\<lambda>r x i s. f r x i) subject n r xs = foldl (\<lambda>r (i, x). f r x i) r (enumerate n xs)"
  by (induction xs arbitrary: n r) simp_all

lemma fastFilter_filter [js_simps]: "fastFilter xs (\<lambda>x i s. P x) = filter P xs"
proof -
  have "fast_filter_loop (\<lambda>x i s. P x) subject n r xs = r @ filter P xs" for subject n r
    by (induction xs arbitrary: n r) simp_all
  then show ?thesis by (simp add: fastFilter_def)
qed

lemma push_all_append [js_simps]: "push_all arr item = arr @ item"
proof -
  have "foldl (\<lambda>a x. a @ [x]) arr item = arr @ item"
    by (induction item arbitrary: arr) simp_all
  then show ?thesis by (simp add: push_all_def)
qed

lemma fastConcat_concat [js_simps]: "fastConcat args = concat args"
proof -
  have "foldl push_all r args = r @ concat args" for r
    by (induction args arbitrary: r) (simp_all add: push_all_append)
  then show ?thesis by (simp add: fastConcat_def)
qed

lemma fastCloneArray_id [js_simps]: "fastCloneArray xs = xs"
  by (simp add: fastCloneArray_def map_nth)

end
