(* ===== verification/Time_Series.thy ===== *)
theory Time_Series
  imports Fast_Loops "HOL-Library.List_Lexorder" "HOL-Library.Char_ord"
begin

text \<open>
  From the server's answers to the rows of a graph or table: \<open>ui/src/types/series.ts\<close>,
  \<open>ui/src/utils/groupByTimeSeriesTransform.ts\<close> and \<open>ui/src/utils/timeSeriesTransformers.ts\<close>.
  The parallel arrays of \<open>Cells\<close> are a list of records here. Numbers are integers. Strings sort
  by code unit; values of different kinds sort as numbers, strings, null, which is what lodash does
  for the numbers and nulls that occur as times. Shifting a date by a quantity of units is moment's work and
  a parameter.
\<close>

section \<open>Data\<close>

datatype ts_value = VNum int | VStr string | VNull

instantiation ts_value :: linorder
begin

fun less_eq_ts_value :: "ts_value \<Rightarrow> ts_value \<Rightarrow> bool" where
  "less_eq_ts_value (VNum a) (VNum b) = (a \<le> b)"
| "less_eq_ts_value (VNum a) _ = True"
| "less_eq_ts_value (VStr a) (VNum b) = False"
| "less_eq_ts_value (VStr a) (VStr b) = (a \<le> b)"
| "less_eq_ts_value (VStr a) VNull = True"
| "less_eq_ts_value VNull b = (b = VNull)"

definition less_ts_value :: "ts_value \<Rightarrow> ts_value \<Rightarrow> bool" where
  "less_ts_value a b = (a \<le> b \<and> \<not> b \<le> (a::ts_value))"

instance
proof
  fix x y z :: ts_value
  show "x < y \<longleftrightarrow> x \<le> y \<and> \<not> y \<le> x" by (simp add: less_ts_value_def)
  show "x \<le> x" by (cases x) auto
  show "x \<le> y \<Longrightarrow> y \<le> z \<Longrightarrow> x \<le> z" by (cases x; cases y; cases z) auto
  show "x \<le> y \<Longrightarrow> y \<le> x \<Longrightarrow> x = y" by (cases x; cases y) auto
  show "x \<le> y \<or> y \<le> x" by (cases x; cases y) auto
qed

end

record ts_series =
  s_name :: string
  s_columns :: "string list"
  s_values :: "ts_value list list option"
  s_tags :: "string js_obj option"

record ts_result =
  r_series :: "ts_series list option"
  r_error :: "string option"

type_synonym server_response = "ts_result list option"
  \<comment> \<open>\<open>response.results\<close>, if the answer has it\<close>

record flat_result =
  fr_series :: "ts_series list"
  fr_responseIndex :: nat
  fr_isGroupBy :: bool

record series =
  se_name :: string
  se_columns :: "string list"
  se_values :: "ts_value list list option"
  se_tags :: "string js_obj option"
  se_responseIndex :: nat
  se_seriesIndex :: nat
  se_isGroupBy :: bool

record cell =
  ce_label :: string
  ce_value :: ts_value
  ce_time :: ts_value
  ce_seriesIndex :: nat
  ce_responseIndex :: nat

record label =
  la_label :: string
  la_seriesIndex :: nat
  la_responseIndex :: nat

record time_series =
  t_time :: ts_value
  t_vals :: "ts_value list"

section \<open>From responses to series\<close>

definition first_or_undefined :: "ts_value list \<Rightarrow> ts_value" where
  "first_or_undefined row = (case row of [] \<Rightarrow> VNull | x # _ \<Rightarrow> x)"

definition add_tags :: "string list \<Rightarrow> ts_series \<Rightarrow> ts_value list list result" where
  \<comment> \<open>the rows of one series with the values of the tag keys after the time\<close>
  "add_tags tagsKeys s =
     bind_r (map_r (\<lambda>tk. map_res (\<lambda>tags. case obj_get tags tk of None \<Rightarrow> VNull | Some v \<Rightarrow> VStr v)
               (deref (s_tags s))) tagsKeys) (\<lambda>tagsToAdd.
       map_res (map (\<lambda>row. first_or_undefined row # tagsToAdd @ tl row)) (deref (s_values s)))"

definition flattenGroupBySeries :: "ts_result list \<Rightarrow> nat \<Rightarrow> string js_obj \<Rightarrow> flat_result list result" where
  "flattenGroupBySeries results responseIndex tags =
     (case results of
        [] \<Rightarrow> Inr []
      | r # _ \<Rightarrow>
        let tagsKeys = obj_keys tags;
            seriesArray = (case r_series r of None \<Rightarrow> [] | Some ss \<Rightarrow> ss)
        in map_res (\<lambda>accumulatedValues.
             [\<lparr>fr_series =
                 [\<lparr>s_name = (case seriesArray of [] \<Rightarrow> [] | s # _ \<Rightarrow> s_name s),
                   s_columns = (case seriesArray of [] \<Rightarrow> [] | s # _ \<Rightarrow> s_columns s),
                   s_values = Some (concat accumulatedValues),
                   s_tags = Some (case seriesArray of [] \<Rightarrow> [] | s # _ \<Rightarrow>
                               (case s_tags s of None \<Rightarrow> [] | Some t \<Rightarrow> t))\<rparr>],
               fr_responseIndex = responseIndex, fr_isGroupBy = True\<rparr>])
             (map_r (add_tags tagsKeys) seriesArray))"

definition successful :: "ts_result \<Rightarrow> bool" where
  "successful r = (r_series r \<noteq> None \<and> r_error r = None)"

definition tags_of_results :: "ts_result list \<Rightarrow> string js_obj" where
  \<comment> \<open>\<open>_.get(results, ['0', 'series', '0', 'tags'], {})\<close>\<close>
  "tags_of_results results =
     (case results of [] \<Rightarrow> []
      | r # _ \<Rightarrow> (case r_series r of
          Some (s # _) \<Rightarrow> (case s_tags s of None \<Rightarrow> [] | Some t \<Rightarrow> t)
        | _ \<Rightarrow> []))"

definition results_of_response :: "bool \<Rightarrow> server_response \<Rightarrow> nat \<Rightarrow> flat_result list result" where
  "results_of_response isTable response index =
     (let results = (case response of None \<Rightarrow> [] | Some rs \<Rightarrow> rs);
          successfulResults = filter successful results;
          tagsFromResults = tags_of_results results;
          hasGroupBy = (tagsFromResults \<noteq> [])
      in if isTable \<and> hasGroupBy then flattenGroupBySeries successfulResults index tagsFromResults
         else Inr (fastMap successfulResults (\<lambda>r i s.
                \<lparr>fr_series = (case r_series r of None \<Rightarrow> [] | Some ss \<Rightarrow> ss),
                 fr_responseIndex = index, fr_isGroupBy = False\<rparr>)))"

definition constructResults :: "server_response list \<Rightarrow> bool \<Rightarrow> flat_result list result" where
  "constructResults raw isTable =
     map_res concat (map_r (\<lambda>(index, response). results_of_response isTable response index) (enumerate 0 raw))"

definition constructSerieses :: "flat_result list \<Rightarrow> series list" where
  "constructSerieses results =
     concat (fastMap results (\<lambda>r i rs. fastMap (fr_series r) (\<lambda>s index ss.
       \<lparr>se_name = s_name s, se_columns = s_columns s, se_values = s_values s, se_tags = s_tags s,
        se_responseIndex = fr_responseIndex r, se_seriesIndex = index, se_isGroupBy = fr_isGroupBy r\<rparr>)))"

section \<open>From series to cells and labels\<close>

definition series_tags :: "series \<Rightarrow> string js_obj" where
  "series_tags s = (case se_tags s of None \<Rightarrow> [] | Some t \<Rightarrow> t)"

definition tag_set :: "string js_obj \<Rightarrow> string" where
  "tag_set tags = concat (sort (map (\<lambda>k.
     ''['' @ k @ ''='' @ (case obj_get tags k of None \<Rightarrow> ''undefined'' | Some v \<Rightarrow> v) @ '']'') (obj_keys tags)))"

definition mk_label :: "series \<Rightarrow> string \<Rightarrow> label" where
  "mk_label s l = \<lparr>la_label = l, la_seriesIndex = se_seriesIndex s, la_responseIndex = se_responseIndex s\<rparr>"

definition unsorted_labels :: "series \<Rightarrow> label list" where
  "unsorted_labels s =
     (if se_isGroupBy s then
        fastConcat [fastMap (obj_keys (series_tags s)) (\<lambda>k i ks. mk_label s k),
                    fastMap (tl (se_columns s)) (\<lambda>c i cs. mk_label s (se_name s @ ''.'' @ c))]
      else fastMap (tl (se_columns s)) (\<lambda>c i cs. mk_label s (se_name s @ ''.'' @ c @ tag_set (series_tags s))))"

definition row_cells :: "series \<Rightarrow> label list \<Rightarrow> cell list \<Rightarrow> ts_value list \<Rightarrow> cell list result" where
  \<comment> \<open>the cells of one row after the ones before it; a value with no column throws\<close>
  "row_cells s labels cells vals =
     fastForEach (tl vals) (\<lambda>cells v i.
       if i < length labels then
         Inr (cells @ [\<lparr>ce_label = la_label (labels ! i), ce_value = v, ce_time = first_or_undefined vals,
                        ce_seriesIndex = se_seriesIndex s, ce_responseIndex = se_responseIndex s\<rparr>])
       else Inl TypeError) cells"

definition series_values :: "series \<Rightarrow> ts_value list list" where
  "series_values s = (case se_values s of None \<Rightarrow> [] | Some vs \<Rightarrow> vs)"

record cell_table =
  ct_cells :: "cell list"
  ct_labels :: "label list"
  ct_seriesLabels :: "label list list"

definition add_series :: "cell_table \<Rightarrow> series \<Rightarrow> cell_table result" where
  "add_series ct s =
     (let ul = unsorted_labels s;
          ct' = ct\<lparr>ct_labels := ct_labels ct @ ul, ct_seriesLabels := ct_seriesLabels ct @ [ul]\<rparr>
      in if se_isGroupBy s then Inr ct'
         else map_res (\<lambda>cells. ct'\<lparr>ct_cells := cells\<rparr>)
           (fastForEach (series_values s) (\<lambda>cells vals i. row_cells s ul cells vals) (ct_cells ct)))"

definition constructCells :: "series list \<Rightarrow> (cell list \<times> label list \<times> label list list) result" where
  "constructCells serieses =
     map_res (\<lambda>ct. (ct_cells ct, sort_key la_label (ct_labels ct), ct_seriesLabels ct))
       (fastForEach serieses (\<lambda>ct s i. add_series ct s)
          \<lparr>ct_cells = [], ct_labels = [], ct_seriesLabels = []\<rparr>)"

section \<open>From cells to rows\<close>

definition value_key :: "string \<Rightarrow> nat \<Rightarrow> nat \<Rightarrow> string" where
  \<comment> \<open>\<open>label + responseIndex + seriesIndex\<close>, a concatenation\<close>
  "value_key l responseIndex seriesIndex = l @ nat_str responseIndex @ nat_str seriesIndex"

definition label_key :: "label \<Rightarrow> string" where
  "label_key l = value_key (la_label l) (la_responseIndex l) (la_seriesIndex l)"

definition labels_to_value_index :: "label list \<Rightarrow> nat js_obj" where
  "labels_to_value_index sortedLabels = fastReduce sortedLabels (\<lambda>acc l i ls. obj_set acc (label_key l) i) []"

definition set_value :: "nat js_obj \<Rightarrow> string \<Rightarrow> ts_value \<Rightarrow> ts_value list \<Rightarrow> ts_value list" where
  \<comment> \<open>\<open>values[index[key]] = v\<close>; for a key that is missing it sets a property no one reads\<close>
  "set_value index key v vals = (case obj_get index key of None \<Rightarrow> vals | Some i \<Rightarrow> vals[i := v])"

definition group_row :: "series \<Rightarrow> label list \<Rightarrow> nat js_obj \<Rightarrow> ts_value list \<Rightarrow> ts_value list \<Rightarrow> time_series result" where
  "group_row s labels index dashArray row =
     map_res (\<lambda>vals. \<lparr>t_time = first_or_undefined row, t_vals = vals\<rparr>)
       (fastForEach (tl row) (\<lambda>vals v j.
          if j < length labels
          then Inr (set_value index (value_key (la_label (labels ! j)) (se_responseIndex s) (se_seriesIndex s)) v vals)
          else Inl TypeError) (fastCloneArray dashArray))"

definition insertGroupByValues ::
    "series list \<Rightarrow> label list list \<Rightarrow> nat js_obj \<Rightarrow> label list \<Rightarrow> time_series list result" where
  "insertGroupByValues serieses seriesLabels index sortedLabels =
     (let dashArray = replicate (length sortedLabels) (VStr ''-'')
      in map_res concat (map_r (\<lambda>(s, labels).
           if \<not> se_isGroupBy s then Inr []
           else bind_r (deref (se_values s)) (map_r (group_row s labels index dashArray)))
           (zip serieses seriesLabels)))"

definition time_key :: "ts_value \<Rightarrow> string" where
  \<comment> \<open>a time as a property name\<close>
  "time_key v = (case v of VNum n \<Rightarrow> int_str n | VStr s \<Rightarrow> s | VNull \<Rightarrow> ''null'')"

definition nth_opt :: "'a list \<Rightarrow> nat \<Rightarrow> 'a option" where
  "nth_opt xs i = (if i < length xs then Some (xs ! i) else None)"

definition shifted_time :: "(ts_value \<Rightarrow> string option \<Rightarrow> string option \<Rightarrow> int) \<Rightarrow> cell \<Rightarrow> ts_value" where
  "shifted_time shiftDate c =
     (if js_includes (ce_label c) ''_shifted__''
      then let parts = js_split (ce_label c) ''__''
           in VNum (shiftDate (ce_time c) (nth_opt parts 1) (nth_opt parts 2))
      else ce_time c)"

definition add_cell ::
    "(ts_value \<Rightarrow> string option \<Rightarrow> string option \<Rightarrow> int) \<Rightarrow> nat js_obj \<Rightarrow> ts_value list \<Rightarrow>
     nat js_obj \<times> time_series list \<Rightarrow> cell \<Rightarrow> nat js_obj \<times> time_series list" where
  "add_cell shiftDate index nullArray st c =
     (let (tsMemo, timeSeries) = st;
          time = shifted_time shiftDate c;
          (tsMemo, timeSeries, row) =
            (case obj_get tsMemo (time_key time) of
               Some r \<Rightarrow> (tsMemo, timeSeries, r)
             | None \<Rightarrow> (obj_set tsMemo (time_key time) (length timeSeries),
                 timeSeries @ [\<lparr>t_time = time, t_vals = fastCloneArray nullArray\<rparr>], length timeSeries))
      in (tsMemo, timeSeries[row := (timeSeries ! row)\<lparr>t_vals :=
            set_value index (value_key (ce_label c) (ce_responseIndex c) (ce_seriesIndex c)) (ce_value c)
              (t_vals (timeSeries ! row))\<rparr>]))"

definition constructTimeSeries ::
    "(ts_value \<Rightarrow> string option \<Rightarrow> string option \<Rightarrow> int) \<Rightarrow> series list \<Rightarrow> cell list \<Rightarrow> label list \<Rightarrow>
     label list list \<Rightarrow> time_series list result" where
  "constructTimeSeries shiftDate serieses cells sortedLabels seriesLabels =
     (let nullArray = replicate (length sortedLabels) VNull;
          index = labels_to_value_index sortedLabels
      in map_res (\<lambda>timeSeries.
           sort_key t_time (snd (foldl (add_cell shiftDate index nullArray) ([], timeSeries) cells)))
         (insertGroupByValues serieses seriesLabels index sortedLabels))"

definition groupByTimeSeriesTransform ::
    "(ts_value \<Rightarrow> string option \<Rightarrow> string option \<Rightarrow> int) \<Rightarrow> server_response list \<Rightarrow> bool \<Rightarrow>
     (label list \<times> time_series list) result" where
  "groupByTimeSeriesTransform shiftDate raw isTable =
     bind_r (constructResults raw isTable) (\<lambda>results.
       let serieses = constructSerieses results
       in bind_r (constructCells serieses) (\<lambda>(cells, sortedLabels, seriesLabels).
            map_res (Pair sortedLabels) (constructTimeSeries shiftDate serieses cells sortedLabels seriesLabels)))"

section \<open>Graph and table\<close>

datatype dygraph_value = DDate ts_value | DVal ts_value

record dygraph_data =
  dg_labels :: "string list"
  dg_timeSeries :: "dygraph_value list list"
  dg_dygraphSeries :: "string js_obj" \<comment> \<open>the axis of each series\<close>

definition timeSeriesToDygraph ::
    "(ts_value \<Rightarrow> string option \<Rightarrow> string option \<Rightarrow> int) \<Rightarrow> server_response list \<Rightarrow> string \<Rightarrow> dygraph_data result" where
  "timeSeriesToDygraph shiftDate raw pathname =
     (let isInDataExplorer = js_includes pathname ''data-explorer''
      in map_res (\<lambda>(sortedLabels, sortedTimeSeries).
           \<lparr>dg_labels = ''time'' # fastMap sortedLabels (\<lambda>l i ls. la_label l),
            dg_timeSeries = fastMap sortedTimeSeries (\<lambda>t i ts. DDate (t_time t) # map DVal (t_vals t)),
            dg_dygraphSeries = fastReduce sortedLabels (\<lambda>acc l i ls.
              if isInDataExplorer then acc
              else obj_set acc (la_label l) (if la_responseIndex l = 0 then ''y'' else ''y2'')) []\<rparr>)
         (groupByTimeSeriesTransform shiftDate raw False))"

datatype table_cell = TLabel string | TValue ts_value

record table_data =
  td_data :: "table_cell list list"
  td_sortedLabels :: "label list"

definition timeSeriesToTableGraph ::
    "(ts_value \<Rightarrow> string option \<Rightarrow> string option \<Rightarrow> int) \<Rightarrow> server_response list \<Rightarrow> table_data result" where
  "timeSeriesToTableGraph shiftDate raw =
     map_res (\<lambda>(sortedLabels, sortedTimeSeries).
       let labels = ''time'' # fastMap sortedLabels (\<lambda>l i ls. la_label l);
           tableData = fastMap sortedTimeSeries (\<lambda>t i ts. map TValue (t_time t # t_vals t))
       in \<lparr>td_data = (if tableData \<noteq> [] then map TLabel labels # tableData else [[]]),
           td_sortedLabels = sortedLabels\<rparr>)
       (groupByTimeSeriesTransform shiftDate raw True)"

section \<open>The index of the columns\<close>

lemma labels_to_value_index_list:
  "labels_to_value_index ls = obj_of_list [] (map (\<lambda>(i, l). (label_key l, i)) (enumerate 0 ls))"
proof -
  have "foldl (\<lambda>r (i, x). obj_set r (label_key x) i) init xs =
      obj_of_list init (map (\<lambda>(i, l). (label_key l, i)) xs)" for init and xs :: "(nat \<times> label) list"
    by (induction xs arbitrary: init) auto
  then show ?thesis by (simp add: labels_to_value_index_def fastReduce_def fast_reduce_loop_index)
qed

lemma value_index_iff:
  assumes "distinct (map label_key ls)"
  shows "obj_get (labels_to_value_index ls) k = Some i \<longleftrightarrow> i < length ls \<and> label_key (ls ! i) = k"
proof -
  let ?ps = "map (\<lambda>(i, l). (label_key l, i)) (enumerate 0 ls)"
  have "map fst ?ps = map label_key ls"
    by (rule nth_equalityI) (simp_all add: nth_enumerate_eq)
  then have d: "distinct (map fst ?ps)" using assms by simp
  have "obj_get (labels_to_value_index ls) k = map_of ?ps k"
    by (simp add: labels_to_value_index_list obj_get_of_list[OF d] split: option.split)
  also have "\<dots> = Some i \<longleftrightarrow> (k, i) \<in> set ?ps" using d by simp
  also have "\<dots> \<longleftrightarrow> i < length ls \<and> label_key (ls ! i) = k"
    by (force simp: in_set_enumerate_eq)
  finally show ?thesis .
qed

lemma set_value_length [simp]: "length (set_value index k v vals) = length vals"
  by (simp add: set_value_def split: option.split)

lemma set_value_nth:
  assumes "distinct (map label_key ls)" and "length vals = length ls" and "i < length ls"
  shows "set_value (labels_to_value_index ls) k v vals ! i = (if label_key (ls ! i) = k then v else vals ! i)"
proof (cases "obj_get (labels_to_value_index ls) k")
  case None
  then have "label_key (ls ! i) \<noteq> k"
    using value_index_iff[OF assms(1), of k i] assms(3) by auto
  with None show ?thesis by (simp add: set_value_def)
next
  case (Some j)
  then have "j < length ls" "label_key (ls ! j) = k" using value_index_iff[OF assms(1)] by auto
  moreover have "label_key (ls ! i) = label_key (ls ! j) \<longleftrightarrow> i = j"
    using assms(1,3) \<open>j < length ls\<close> by (metis length_map nth_eq_iff_index_eq nth_map)
  ultimately show ?thesis using Some assms(2,3) by (auto simp: set_value_def nth_list_update)
qed

section \<open>The rows hold exactly the cells\<close>

definition cell_key :: "cell \<Rightarrow> string" where
  "cell_key c = value_key (ce_label c) (ce_responseIndex c) (ce_seriesIndex c)"

definition last_value ::
    "(ts_value \<Rightarrow> string option \<Rightarrow> string option \<Rightarrow> int) \<Rightarrow> cell list \<Rightarrow> string \<Rightarrow> string \<Rightarrow> ts_value" where
  \<comment> \<open>the value of the last cell at a time and in a column, null if there is none\<close>
  "last_value sh cells tk lk =
     (case List.find (\<lambda>c. time_key (shifted_time sh c) = tk \<and> cell_key c = lk) (rev cells) of
        None \<Rightarrow> VNull | Some c \<Rightarrow> ce_value c)"

lemma last_value_snoc:
  "last_value sh (cs @ [c]) tk lk =
     (if time_key (shifted_time sh c) = tk \<and> cell_key c = lk then ce_value c else last_value sh cs tk lk)"
  by (simp add: last_value_def)

lemma last_value_Nil [simp]: "last_value sh [] tk lk = VNull"
  by (simp add: last_value_def)

lemma last_value_other: "tk \<notin> (\<lambda>c. time_key (shifted_time sh c)) ` set cs \<Longrightarrow> last_value sh cs tk lk = VNull"
proof -
  assume "tk \<notin> (\<lambda>c. time_key (shifted_time sh c)) ` set cs"
  then have "List.find (\<lambda>c. time_key (shifted_time sh c) = tk \<and> cell_key c = lk) (rev cs) = None"
    by (auto simp: find_None)
  then show ?thesis by (simp add: last_value_def)
qed

definition row_key :: "time_series \<Rightarrow> string" where
  "row_key t = time_key (t_time t)"

definition rows_ok ::
    "(ts_value \<Rightarrow> string option \<Rightarrow> string option \<Rightarrow> int) \<Rightarrow> label list \<Rightarrow> cell list \<Rightarrow> time_series list \<Rightarrow> bool" where
  "rows_ok sh ls cs ts =
     (distinct (map row_key ts) \<and>
      (\<forall>t\<in>set ts. length (t_vals t) = length ls \<and>
         (\<forall>i<length ls. t_vals t ! i = last_value sh cs (row_key t) (label_key (ls ! i)))))"

definition memo_ok :: "nat js_obj \<Rightarrow> time_series list \<Rightarrow> bool" where
  "memo_ok memo ts = (\<forall>k r. obj_get memo k = Some r \<longleftrightarrow> r < length ts \<and> row_key (ts ! r) = k)"

lemma rows_ok_update:
  assumes d: "distinct (map label_key ls)" and ok: "rows_ok sh ls cs ts" and r: "r < length ts"
    and k: "row_key (ts ! r) = time_key (shifted_time sh c)"
  shows "rows_ok sh ls (cs @ [c]) (ts[r := (ts ! r)\<lparr>t_vals :=
    set_value (labels_to_value_index ls) (cell_key c) (ce_value c) (t_vals (ts ! r))\<rparr>])"
proof -
  let ?row = "(ts ! r)\<lparr>t_vals := set_value (labels_to_value_index ls) (cell_key c) (ce_value c) (t_vals (ts ! r))\<rparr>"
  let ?ts = "ts[r := ?row]"
  have same: "map row_key ?ts = map row_key ts"
    using r by (intro nth_equalityI) (auto simp: nth_list_update row_key_def)
  have "length (t_vals t) = length ls \<and>
      (\<forall>i<length ls. t_vals t ! i = last_value sh (cs @ [c]) (row_key t) (label_key (ls ! i)))"
    if t: "t \<in> set ?ts" for t
  proof -
    obtain j where j: "j < length ts" "t = ?ts ! j" using t by (auto simp: in_set_conv_nth)
    have old: "length (t_vals (ts ! j)) = length ls"
      "\<And>i. i < length ls \<Longrightarrow> t_vals (ts ! j) ! i = last_value sh cs (row_key (ts ! j)) (label_key (ls ! i))"
      using ok j(1) by (simp_all add: rows_ok_def)
    show ?thesis
    proof (cases "j = r")
      case True
      then have t_eq: "t = ?row" and rk: "row_key t = time_key (shifted_time sh c)"
        using j r k by (simp_all add: row_key_def)
      then show ?thesis using old True set_value_nth[OF d, of "t_vals (ts ! r)"] k
        by (auto simp: last_value_snoc rk)
    next
      case False
      then have "t = ts ! j" using j by simp
      moreover have "row_key (ts ! j) \<noteq> row_key (ts ! r)"
        using ok j(1) r False by (metis length_map nth_eq_iff_index_eq nth_map rows_ok_def)
      ultimately show ?thesis using old k by (simp add: last_value_snoc)
    qed
  qed
  then show ?thesis using ok same by (simp add: rows_ok_def)
qed

lemma rows_ok_new:
  assumes ok: "rows_ok sh ls cs ts" and new: "time_key tm \<notin> row_key ` set ts"
    and cells: "row_key ` set ts = (\<lambda>c. time_key (shifted_time sh c)) ` set cs"
  shows "rows_ok sh ls cs (ts @ [\<lparr>t_time = tm, t_vals = replicate (length ls) VNull\<rparr>])"
proof -
  have "last_value sh cs (time_key tm) lk = VNull" for lk
    using cells new by (intro last_value_other) simp
  then show ?thesis using ok new by (auto simp: rows_ok_def row_key_def)
qed

lemma row_keys_update: "map row_key (ts[r := (ts ! r)\<lparr>t_vals := vs\<rparr>]) = map row_key ts"
  by (cases "r < length ts") (simp_all add: row_key_def map_update list_update_same_conv list_update_beyond)

lemma memo_ok_same_keys: "map row_key ts' = map row_key ts \<Longrightarrow> memo_ok memo ts \<Longrightarrow> memo_ok memo ts'"
  unfolding memo_ok_def by (metis length_map nth_map)

lemma memo_ok_new:
  "memo_ok memo ts \<Longrightarrow> row_key t \<notin> row_key ` set ts \<Longrightarrow> memo_ok (obj_set memo (row_key t) (length ts)) (ts @ [t])"
proof -
  assume ok: "memo_ok memo ts" and new: "row_key t \<notin> row_key ` set ts"
  have "row_key (ts ! r) \<noteq> row_key t" if "r < length ts" for r
    using new that by (metis image_eqI nth_mem)
  then show ?thesis using ok by (auto simp: memo_ok_def obj_get_set nth_append less_Suc_eq)
qed

lemma memo_ok_missing: "memo_ok memo ts \<Longrightarrow> obj_get memo k = None \<Longrightarrow> k \<notin> row_key ` set ts"
proof
  assume ok: "memo_ok memo ts" and none: "obj_get memo k = None" and "k \<in> row_key ` set ts"
  then obtain i where "i < length ts" "row_key (ts ! i) = k" by (auto simp: in_set_conv_nth)
  then have "obj_get memo k = Some i" using ok by (simp add: memo_ok_def)
  with none show False by simp
qed

definition cells_inv ::
    "(ts_value \<Rightarrow> string option \<Rightarrow> string option \<Rightarrow> int) \<Rightarrow> label list \<Rightarrow> cell list \<Rightarrow>
     nat js_obj \<times> time_series list \<Rightarrow> bool" where
  "cells_inv sh ls cs st = (rows_ok sh ls cs (snd st) \<and> memo_ok (fst st) (snd st) \<and>
     row_key ` set (snd st) = (\<lambda>c. time_key (shifted_time sh c)) ` set cs)"

lemma add_cell_inv:
  assumes d: "distinct (map label_key ls)" and inv: "cells_inv sh ls cs st"
  shows "cells_inv sh ls (cs @ [c])
    (add_cell sh (labels_to_value_index ls) (replicate (length ls) VNull) st c)"
proof -
  obtain memo ts where st: "st = (memo, ts)" by (cases st)
  let ?tk = "time_key (shifted_time sh c)"
  let ?upd = "\<lambda>ts r. ts[r := (ts ! r)\<lparr>t_vals :=
    set_value (labels_to_value_index ls) (cell_key c) (ce_value c) (t_vals (ts ! r))\<rparr>]"
  have step: "cells_inv sh ls (cs @ [c]) (memo', ?upd ts' r)"
    if "rows_ok sh ls cs ts'" "memo_ok memo' ts'" "r < length ts'" "row_key (ts' ! r) = ?tk"
      "row_key ` set ts' = insert ?tk ((\<lambda>c. time_key (shifted_time sh c)) ` set cs)" for memo' ts' r
    using rows_ok_update[OF d that(1,3,4)] memo_ok_same_keys[OF row_keys_update that(2)] that(5)
      row_keys_update[of ts' r]
    by (simp add: cells_inv_def) (metis set_map)
  show ?thesis
  proof (cases "obj_get memo ?tk")
    case (Some r)
    then have r: "r < length ts" "row_key (ts ! r) = ?tk"
      using inv st by (auto simp: cells_inv_def memo_ok_def)
    moreover from this have "?tk \<in> row_key ` set ts" by (metis image_eqI nth_mem)
    ultimately have "cells_inv sh ls (cs @ [c]) (memo, ?upd ts r)"
      using inv st by (intro step) (auto simp: cells_inv_def)
    then show ?thesis using Some st by (simp add: add_cell_def Let_def cell_key_def)
  next
    case None
    let ?t = "\<lparr>t_time = shifted_time sh c, t_vals = replicate (length ls) VNull\<rparr>"
    have "memo_ok memo ts" using inv st by (simp add: cells_inv_def)
    then have new: "?tk \<notin> row_key ` set ts" by (rule memo_ok_missing[OF _ None])
    have rk: "row_key ?t = ?tk" by (simp add: row_key_def)
    have "cells_inv sh ls (cs @ [c]) (obj_set memo ?tk (length ts), ?upd (ts @ [?t]) (length ts))"
      using inv st new rk rows_ok_new[of sh ls cs ts "shifted_time sh c"] memo_ok_new[of memo ts ?t]
      by (intro step) (auto simp: cells_inv_def)
    then show ?thesis using None st by (simp add: add_cell_def Let_def cell_key_def fastCloneArray_id)
  qed
qed

lemma add_cells_inv:
  assumes "distinct (map label_key ls)"
  shows "cells_inv sh ls cs
    (foldl (add_cell sh (labels_to_value_index ls) (replicate (length ls) VNull)) ([], []) cs)"
proof (induction cs rule: rev_induct)
  case Nil
  then show ?case by (simp add: cells_inv_def rows_ok_def memo_ok_def)
next
  case (snoc c cs)
  then show ?case using add_cell_inv[OF assms] by simp
qed

lemma no_group_rows:
  assumes "\<forall>s\<in>set serieses. \<not> se_isGroupBy s"
  shows "insertGroupByValues serieses seriesLabels index ls = Inr []"
proof -
  have "map_r (\<lambda>(s, labels). if \<not> se_isGroupBy s then Inr [] else bind_r (deref (se_values s))
      (map_r (group_row s labels index dash))) zs = Inr (map (\<lambda>_. []) zs)"
    if "\<forall>z\<in>set zs. \<not> se_isGroupBy (fst z)" for zs dash
    using that by (induction zs) auto
  moreover have "\<forall>z\<in>set (zip serieses seriesLabels). \<not> se_isGroupBy (fst z)"
    using assms by (auto dest: set_zip_leftD)
  ultimately show ?thesis by (simp add: insertGroupByValues_def Let_def)
qed

text \<open>The rows of a graph from its cells: a row per time, a value per label.\<close>

lemma constructTimeSeries_correct:
  assumes "\<forall>s\<in>set serieses. \<not> se_isGroupBy s" and "distinct (map label_key sortedLabels)"
  shows "\<exists>rows. constructTimeSeries shiftDate serieses cells sortedLabels seriesLabels = Inr rows \<and>
    sorted (map t_time rows) \<and> distinct (map row_key rows) \<and>
    row_key ` set rows = (\<lambda>c. time_key (shifted_time shiftDate c)) ` set cells \<and>
    (\<forall>row\<in>set rows. length (t_vals row) = length sortedLabels \<and>
       (\<forall>i<length sortedLabels. t_vals row ! i = last_value shiftDate cells (row_key row) (label_key (sortedLabels ! i))))"
proof -
  define ts where "ts = snd (foldl (add_cell shiftDate (labels_to_value_index sortedLabels)
    (replicate (length sortedLabels) VNull)) ([], []) cells)"
  have ok: "rows_ok shiftDate sortedLabels cells ts"
    and keys: "row_key ` set ts = (\<lambda>c. time_key (shifted_time shiftDate c)) ` set cells"
    using add_cells_inv[OF assms(2), of shiftDate cells] by (simp_all add: cells_inv_def ts_def)
  have rows: "constructTimeSeries shiftDate serieses cells sortedLabels seriesLabels = Inr (sort_key t_time ts)"
    by (simp add: constructTimeSeries_def no_group_rows[OF assms(1)] ts_def Let_def)
  have "distinct (map row_key ts)" using ok by (simp add: rows_ok_def)
  then have "distinct (map row_key (sort_key t_time ts))"
    by (simp add: distinct_map)
  then show ?thesis using rows ok keys by (simp add: rows_ok_def)
qed

section \<open>The cells of the answers\<close>

definition graph_results :: "server_response list \<Rightarrow> flat_result list" where
  \<comment> \<open>the successful results with the number of their response\<close>
  "graph_results raw = concat (map (\<lambda>(index, response).
     map (\<lambda>r. \<lparr>fr_series = (case r_series r of None \<Rightarrow> [] | Some ss \<Rightarrow> ss),
              fr_responseIndex = index, fr_isGroupBy = False\<rparr>)
       (filter successful (case response of None \<Rightarrow> [] | Some rs \<Rightarrow> rs))) (enumerate 0 raw))"

definition graph_serieses :: "server_response list \<Rightarrow> series list" where
  "graph_serieses raw = constructSerieses (graph_results raw)"

definition mk_cell :: "series \<Rightarrow> ts_value list \<Rightarrow> nat \<times> ts_value \<Rightarrow> cell" where
  "mk_cell s row p = \<lparr>ce_label = la_label (unsorted_labels s ! fst p), ce_value = snd p,
     ce_time = first_or_undefined row, ce_seriesIndex = se_seriesIndex s, ce_responseIndex = se_responseIndex s\<rparr>"

definition row_to_cells :: "series \<Rightarrow> ts_value list \<Rightarrow> cell list" where
  "row_to_cells s row = map (mk_cell s row) (enumerate 0 (tl row))"

definition graph_cells :: "server_response list \<Rightarrow> cell list" where
  "graph_cells raw = concat (map (\<lambda>s. concat (map (row_to_cells s) (series_values s))) (graph_serieses raw))"

definition graph_labels :: "server_response list \<Rightarrow> label list" where
  "graph_labels raw = sort_key la_label (concat (map unsorted_labels (graph_serieses raw)))"

definition rows_fit :: "series \<Rightarrow> bool" where
  \<comment> \<open>no row has more values than the series has columns\<close>
  "rows_fit s = list_all (\<lambda>row. length (tl row) \<le> length (tl (se_columns s))) (series_values s)"

lemma constructResults_graph: "constructResults raw False = Inr (graph_results raw)"
proof -
  have "map_r (\<lambda>(index, response). results_of_response False response index) xs =
      Inr (map (\<lambda>(index, response). map (\<lambda>r. \<lparr>fr_series = (case r_series r of None \<Rightarrow> [] | Some ss \<Rightarrow> ss),
              fr_responseIndex = index, fr_isGroupBy = False\<rparr>)
       (filter successful (case response of None \<Rightarrow> [] | Some rs \<Rightarrow> rs))) xs)" for xs
    by (induction xs) (auto simp: results_of_response_def Let_def js_simps)
  then show ?thesis by (simp add: constructResults_def graph_results_def)
qed

lemma graph_no_group: "s \<in> set (graph_serieses raw) \<Longrightarrow> \<not> se_isGroupBy s"
  by (auto simp: graph_serieses_def constructSerieses_def fastMap_map fastMap_index graph_results_def)

lemma length_unsorted_labels: "\<not> se_isGroupBy s \<Longrightarrow> length (unsorted_labels s) = length (tl (se_columns s))"
  by (simp add: unsorted_labels_def js_simps)

lemma row_cells_eq:
  assumes "length (tl row) \<le> length (unsorted_labels s)"
  shows "row_cells s (unsorted_labels s) cells row = Inr (cells @ row_to_cells s row)"
proof -
  have "n + length vs \<le> length (unsorted_labels s) \<Longrightarrow>
      fast_each_loop (\<lambda>cells v i.
       if i < length (unsorted_labels s) then
         Inr (cells @ [\<lparr>ce_label = la_label (unsorted_labels s ! i), ce_value = v, ce_time = first_or_undefined row,
                        ce_seriesIndex = se_seriesIndex s, ce_responseIndex = se_responseIndex s\<rparr>])
       else Inl TypeError) n cells vs = Inr (cells @ map (mk_cell s row) (enumerate n vs))" for n cells vs
    by (induction vs arbitrary: n cells) (simp_all add: mk_cell_def)
  from this[of 0 "tl row"] assms show ?thesis by (simp add: row_cells_def fastForEach_def row_to_cells_def)
qed

lemma add_series_eq:
  assumes "\<not> se_isGroupBy s" and "rows_fit s"
  shows "add_series ct s = Inr (ct\<lparr>ct_cells := ct_cells ct @ concat (map (row_to_cells s) (series_values s)),
    ct_labels := ct_labels ct @ unsorted_labels s, ct_seriesLabels := ct_seriesLabels ct @ [unsorted_labels s]\<rparr>)"
proof -
  have "\<forall>row\<in>set rows. length (tl row) \<le> length (unsorted_labels s) \<Longrightarrow>
      fast_each_loop (\<lambda>cells vals i. row_cells s (unsorted_labels s) cells vals) n cells rows =
        Inr (cells @ concat (map (row_to_cells s) rows))" for rows n cells
    by (induction rows arbitrary: n cells) (simp_all add: row_cells_eq)
  then show ?thesis
    using assms length_unsorted_labels[OF assms(1)]
    by (simp add: add_series_def Let_def fastForEach_def rows_fit_def list_all_iff)
qed

lemma constructCells_graph:
  assumes "list_all rows_fit (graph_serieses raw)"
  shows "constructCells (graph_serieses raw) =
    Inr (graph_cells raw, graph_labels raw, map unsorted_labels (graph_serieses raw))"
proof -
  have "\<forall>s\<in>set ss. \<not> se_isGroupBy s \<and> rows_fit s \<Longrightarrow>
      fast_each_loop (\<lambda>ct s i. add_series ct s) n ct ss = Inr (ct\<lparr>
        ct_cells := ct_cells ct @ concat (map (\<lambda>s. concat (map (row_to_cells s) (series_values s))) ss),
        ct_labels := ct_labels ct @ concat (map unsorted_labels ss),
        ct_seriesLabels := ct_seriesLabels ct @ map unsorted_labels ss\<rparr>)" for ss n ct
    by (induction ss arbitrary: n ct) (simp_all add: add_series_eq)
  then show ?thesis
    using assms graph_no_group
    by (simp add: constructCells_def fastForEach_def graph_cells_def graph_labels_def list_all_iff)
qed

lemma graph_rows_spec:
  assumes "list_all rows_fit (graph_serieses raw)" and "distinct (map label_key (graph_labels raw))"
  shows "\<exists>rows. groupByTimeSeriesTransform shiftDate raw False = Inr (graph_labels raw, rows) \<and>
    sorted (map t_time rows) \<and> distinct (map row_key rows) \<and>
    row_key ` set rows = (\<lambda>c. time_key (shifted_time shiftDate c)) ` set (graph_cells raw) \<and>
    (\<forall>row\<in>set rows. length (t_vals row) = length (graph_labels raw) \<and>
       (\<forall>i<length (graph_labels raw). t_vals row ! i =
          last_value shiftDate (graph_cells raw) (row_key row) (label_key (graph_labels raw ! i))))"
proof -
  have none: "\<forall>s\<in>set (graph_serieses raw). \<not> se_isGroupBy s" using graph_no_group by blast
  show ?thesis
    using constructTimeSeries_correct[OF none assms(2), of shiftDate "graph_cells raw" "map unsorted_labels (graph_serieses raw)"]
    by (auto simp: groupByTimeSeriesTransform_def constructResults_graph constructCells_graph[OF assms(1)]
        graph_serieses_def[symmetric] Let_def)
qed


definition cpu_result :: "string \<Rightarrow> ts_value list list \<Rightarrow> ts_result" where
  "cpu_result c rows = \<lparr>r_series = Some [\<lparr>s_name = ''cpu'', s_columns = [''time'', c], s_values = Some rows,
     s_tags = None\<rparr>], r_error = None\<rparr>"

definition cpu_answers :: "server_response list" where
  "cpu_answers = [Some [cpu_result ''a'' [[VNum 2, VNum 7], [VNum 1, VNum 8]]], Some [cpu_result ''b'' [[VNum 2, VNum 9]]]]"


section \<open>When two labels have the same key\<close>

lemma nat_str_single: "n < 10 \<Longrightarrow> nat_str n = [digit_char n]"
  by (simp add: nat_str.simps)

lemma digit_char_inj: "m < 10 \<Longrightarrow> n < 10 \<Longrightarrow> digit_char m = digit_char n \<longleftrightarrow> m = n"
  by (metis add_left_cancel of_digit_char)

text \<open>
  With fewer than ten responses and fewer than ten series in each result, the key under which a
  label's column is found determines its label, response and series.
\<close>

theorem label_key_injective:
  assumes "la_responseIndex l < 10" and "la_seriesIndex l < 10"
    and "la_responseIndex m < 10" and "la_seriesIndex m < 10"
  shows "label_key l = label_key m \<longleftrightarrow>
    la_label l = la_label m \<and> la_responseIndex l = la_responseIndex m \<and> la_seriesIndex l = la_seriesIndex m"
  using assms by (auto simp: label_key_def value_key_def nat_str_single digit_char_inj)

theorem label_key_injective_witness:
  "label_key \<lparr>la_label = ''cpu.a'', la_seriesIndex = 1, la_responseIndex = 0\<rparr> \<noteq>
   label_key \<lparr>la_label = ''cpu.a'', la_seriesIndex = 0, la_responseIndex = 1\<rparr>"
  by (simp add: label_key_injective)

lemma label_key_collision:
  "label_key \<lparr>la_label = l, la_seriesIndex = 11, la_responseIndex = 1\<rparr> =
   label_key \<lparr>la_label = l, la_seriesIndex = 1, la_responseIndex = 11\<rparr>"
  by (simp add: label_key_def value_key_def nat_str.simps)

text \<open>
  The series are numbered within each result, so two statements of one response that return
  the same column get the same key: the row has two columns of that label, the first of which stays
  null, and the value of the first statement is lost.
\<close>

theorem same_column_twice_loses_value:
  "groupByTimeSeriesTransform shiftDate
     [Some [cpu_result ''a'' [[VNum tm, v]], cpu_result ''a'' [[VNum tm, w]]]] False =
   Inr ([\<lparr>la_label = ''cpu.a'', la_seriesIndex = 0, la_responseIndex = 0\<rparr>,
         \<lparr>la_label = ''cpu.a'', la_seriesIndex = 0, la_responseIndex = 0\<rparr>],
        [\<lparr>t_time = VNum tm, t_vals = [VNull, w]\<rparr>])"
proof -
  have unshifted: "\<not> js_includes ''cpu.a'' ''_shifted__''" by (simp add: js_includes_def)
  have cells: "constructCells (graph_serieses [Some [cpu_result ''a'' [[VNum tm, v]], cpu_result ''a'' [[VNum tm, w]]]]) =
    Inr ([\<lparr>ce_label = ''cpu.a'', ce_value = v, ce_time = VNum tm, ce_seriesIndex = 0, ce_responseIndex = 0\<rparr>,
          \<lparr>ce_label = ''cpu.a'', ce_value = w, ce_time = VNum tm, ce_seriesIndex = 0, ce_responseIndex = 0\<rparr>],
         [\<lparr>la_label = ''cpu.a'', la_seriesIndex = 0, la_responseIndex = 0\<rparr>,
          \<lparr>la_label = ''cpu.a'', la_seriesIndex = 0, la_responseIndex = 0\<rparr>],
         [[\<lparr>la_label = ''cpu.a'', la_seriesIndex = 0, la_responseIndex = 0\<rparr>],
          [\<lparr>la_label = ''cpu.a'', la_seriesIndex = 0, la_responseIndex = 0\<rparr>]])"
    by (simp add: constructCells_def fastForEach_def add_series_def row_cells_def unsorted_labels_def
        graph_serieses_def graph_results_def constructSerieses_def fastMap_def cpu_result_def successful_def
        series_tags_def tag_set_def obj_keys_def mk_label_def series_values_def first_or_undefined_def Let_def)
  show ?thesis
    using cells
    by (simp add: groupByTimeSeriesTransform_def constructResults_graph graph_serieses_def[symmetric]
        constructTimeSeries_def no_group_rows graph_no_group labels_to_value_index_def fastReduce_def
        add_cell_def shifted_time_def unshifted set_value_def label_key_def value_key_def Let_def
        fastCloneArray_id)
qed

section \<open>The graph\<close>

lemma axis_fold:
  "distinct (map la_label ls) \<Longrightarrow> l \<in> set ls \<Longrightarrow>
     obj_get (foldl (\<lambda>acc l. obj_set acc (la_label l) (ax l)) init ls) (la_label l) = Some (ax l)"
proof -
  have "foldl (\<lambda>acc l. obj_set acc (la_label l) (ax l)) init ls = obj_of_list init (map (\<lambda>l. (la_label l, ax l)) ls)"
    for init ls by (induction ls arbitrary: init) simp_all
  moreover assume d: "distinct (map la_label ls)" and l: "l \<in> set ls"
  have "map fst (map (\<lambda>l. (la_label l, ax l)) ls) = map la_label ls" by simp
  with d have d': "distinct (map fst (map (\<lambda>l. (la_label l, ax l)) ls))" by (simp only:)
  moreover have "map_of (map (\<lambda>l. (la_label l, ax l)) ls) (la_label l) = Some (ax l)"
    using d' l by (intro map_of_is_SomeI) auto
  ultimately show ?thesis by (simp add: obj_get_of_list)
qed

text \<open>
  A graph built from answers whose rows fit has as many values in every row as it has
  labels, the time first; and where the labels differ, each series outside the data explorer is
  drawn on the left axis exactly when it comes from the first response.
\<close>

theorem timeSeriesToDygraph_shape:
  assumes "list_all rows_fit (graph_serieses raw)" and "distinct (map label_key (graph_labels raw))"
  shows "\<exists>d. timeSeriesToDygraph shiftDate raw pathname = Inr d \<and>
    dg_labels d = ''time'' # map la_label (graph_labels raw) \<and>
    (\<forall>row\<in>set (dg_timeSeries d). length row = length (dg_labels d)) \<and>
    (distinct (map la_label (graph_labels raw)) \<and> \<not> js_includes pathname ''data-explorer'' \<longrightarrow>
       (\<forall>l\<in>set (graph_labels raw). obj_get (dg_dygraphSeries d) (la_label l) =
          Some (if la_responseIndex l = 0 then ''y'' else ''y2'')))"
proof -
  obtain rows where rows: "groupByTimeSeriesTransform shiftDate raw False = Inr (graph_labels raw, rows)"
    and len: "\<forall>row\<in>set rows. length (t_vals row) = length (graph_labels raw)"
    using graph_rows_spec[OF assms, of shiftDate] by blast
  then show ?thesis
    using axis_fold[where ls = "graph_labels raw" and init = "[]"
      and ax = "\<lambda>l. if la_responseIndex l = 0 then ''y'' else ''y2''"]
    by (simp add: timeSeriesToDygraph_def fastMap_map fastReduce_foldl Let_def)
qed

theorem timeSeriesToDygraph_shape_witness:
  "\<exists>d. timeSeriesToDygraph (\<lambda>_ _ _. 0) cpu_answers ''/dashboards'' = Inr d \<and>
     dg_labels d = [''time'', ''cpu.a'', ''cpu.b''] \<and> obj_get (dg_dygraphSeries d) ''cpu.b'' = Some ''y2''"
proof -
  have a: "list_all rows_fit (graph_serieses cpu_answers)" by code_simp
  have b: "distinct (map label_key (graph_labels cpu_answers))" by code_simp
  have c: "distinct (map la_label (graph_labels cpu_answers)) \<and> \<not> js_includes ''/dashboards'' ''data-explorer''" by code_simp
  have l: "map la_label (graph_labels cpu_answers) = [''cpu.a'', ''cpu.b'']" by code_simp
  have m: "list_ex (\<lambda>l. la_label l = ''cpu.b'' \<and> la_responseIndex l \<noteq> 0) (graph_labels cpu_answers)" by code_simp
  then obtain x where "x \<in> set (graph_labels cpu_answers)" "la_label x = ''cpu.b''" "la_responseIndex x \<noteq> 0"
    by (auto simp: list_ex_iff)
  then show ?thesis
    using timeSeriesToDygraph_shape[OF a b, of "\<lambda>_ _ _. 0" "''/dashboards''"] c l by fastforce
qed

end
