(* ===== verification/InfluxQL.thy ===== *)
theory InfluxQL
  imports Query_Store Temp_Replace
begin

text \<open>
  Writing InfluxQL: \<open>ui/src/utils/influxql.ts\<close>, the time range helpers of
  \<open>ui/src/shared/query/helpers.js\<close>, and the queries of a cell
  (\<open>ui/src/utils/buildQueriesForGraphs.ts\<close>, \<open>ui/src/utils/buildQueriesForLayouts.ts\<close>).
  \<open>null\<close> results are \<open>None\<close>. Whether a string is a date is decided by the browser and moment
  and is the parameter \<open>is_date\<close>.
\<close>

section \<open>Time ranges\<close>

record bounds =
  b_lower :: "string option"
  b_upper :: "string option"

definition quote_time :: "string option \<Rightarrow> string option" where
  \<comment> \<open>one bound of \<open>quoteIfTimestamp\<close>\<close>
  "quote_time s =
     (if truthy s \<and> js_includes (the s) ''Z'' \<and> \<not> js_includes (the s) [CHR 0x27]
      then Some (CHR 0x27 # the s @ [CHR 0x27]) else s)"

definition quoteIfTimestamp :: "bounds \<Rightarrow> bounds" where
  "quoteIfTimestamp tr = \<lparr>b_lower = quote_time (b_lower tr), b_upper = quote_time (b_upper tr)\<rparr>"

datatype time_range_kind = ABSOLUTE | INVALID | RELATIVE_LOWER | RELATIVE_UPPER

definition now_test :: "string option \<Rightarrow> bool" where
  \<comment> \<open>\<open>/^now/.test(s)\<close>\<close>
  "now_test s = (case s of None \<Rightarrow> False | Some x \<Rightarrow> prefix ''now'' x)"

definition timeRangeType :: "(string option \<Rightarrow> bool) \<Rightarrow> bounds \<Rightarrow> string option \<Rightarrow> time_range_kind" where
  "timeRangeType is_date tr ty =
     (if \<not> truthy (b_upper tr) \<and> \<not> truthy (b_lower tr) then INVALID
      else if truthy ty \<and> ty \<noteq> Some ''influxql'' then INVALID
      else let isUpperValid = is_date (b_upper tr); isLowerValid = is_date (b_lower tr) in
        if isLowerValid \<and> isUpperValid then ABSOLUTE
        else if now_test (b_lower tr) \<and> \<not> truthy (b_upper tr) then RELATIVE_LOWER
        else if isLowerValid \<and> now_test (b_upper tr) then RELATIVE_UPPER
        else INVALID)"

definition shiftTimeRange :: "(string option \<Rightarrow> bool) \<Rightarrow> bounds \<Rightarrow> time_shift \<Rightarrow> bounds" where
  "shiftTimeRange is_date tr shift =
     (let duration = ts_quantity shift @ ts_unit shift in
      case timeRangeType is_date tr None of
        RELATIVE_UPPER \<Rightarrow> \<lparr>b_lower = Some (opt_str (b_lower tr) @ '' - '' @ duration),
                          b_upper = Some (opt_str (b_upper tr) @ '' - '' @ duration)\<rparr>
      | ABSOLUTE \<Rightarrow> \<lparr>b_lower = Some (opt_str (b_lower tr) @ '' - '' @ duration),
                    b_upper = Some (opt_str (b_upper tr) @ '' - '' @ duration)\<rparr>
      | RELATIVE_LOWER \<Rightarrow> \<lparr>b_lower = Some (opt_str (b_lower tr) @ '' - '' @ duration),
                          b_upper = Some (''now() - '' @ duration)\<rparr>
      | INVALID \<Rightarrow> tr)"

section \<open>Clauses\<close>

fun buildFields :: "field list \<Rightarrow> string \<Rightarrow> string" where
  \<comment> \<open>the second argument is what the shift prints as; a nested call has none\<close>
  "buildFields flds shift = js_join '', '' (map (\<lambda>f.
     case f of Field v ty al args \<Rightarrow>
       if ty = ''field'' then (if v = ''*'' then ''*'' else quoted (CHR 0x22) v)
       else if ty = ''wildcard'' then ''*''
       else if ty = ''regex'' then quoted (CHR ''/'') v
       else if ty = ''number'' then v
       else if ty = ''integer'' then v
       else if ty = ''func'' then
         v @ ''('' @ (case args of None \<Rightarrow> [] | Some as \<Rightarrow> buildFields as []) @ '')'' @
         (case al of None \<Rightarrow> [] | Some a \<Rightarrow> if a = [] then [] else '' AS '' @ quoted (CHR 0x22) (a @ shift))
       else []) flds)"

declare buildFields.simps [simp del]

definition qualified_measurement :: "string \<Rightarrow> string option \<Rightarrow> string \<Rightarrow> string" where
  "qualified_measurement database retentionPolicy measurement =
     quoted (CHR 0x22) database @ ''.'' @
     (if truthy retentionPolicy then quoted (CHR 0x22) (the retentionPolicy) else []) @
     ''.'' @ quoted (CHR 0x22) measurement"

definition buildSelect :: "query_config \<Rightarrow> string \<Rightarrow> string option" where
  "buildSelect q shift =
     (if \<not> truthy (qc_database q) \<or> \<not> truthy (qc_measurement q) \<or> qc_fields q = None \<or> qc_fields q = Some []
      then None
      else Some (''SELECT '' @ buildFields (the (qc_fields q)) shift @ '' FROM '' @
        qualified_measurement (the (qc_database q)) (qc_retentionPolicy q) (the (qc_measurement q))))"

definition buildSelectStatement :: "query_config \<Rightarrow> string option" where
  \<comment> \<open>\<open>shift\<close> defaults to \<open>null\<close>, which a template literal prints\<close>
  "buildSelectStatement config = buildSelect config ''null''"

definition tag_clause :: "bool \<Rightarrow> string \<Rightarrow> string list \<Rightarrow> string" where
  "tag_clause areTagsAccepted k vs =
     (let operator = (if areTagsAccepted then ''='' else ''!='') in
      if length vs > 1 then
        ''('' @ js_join '' OR '' (map (\<lambda>v. quoted (CHR 0x22) k @ operator @ quoted (CHR 0x27) v) vs) @ '')''
      else quoted (CHR 0x22) k @ operator @ quoted (CHR 0x27) (js_join '','' vs))"

definition tag_clauses :: "string list js_obj option \<Rightarrow> bool option \<Rightarrow> string list" where
  "tag_clauses tags areTagsAccepted =
     map (\<lambda>(k, vs). tag_clause (areTagsAccepted = Some True) k vs)
       (case tags of None \<Rightarrow> [] | Some t \<Rightarrow> obj_entries t)"

definition time_clauses :: "bounds \<Rightarrow> string list" where
  "time_clauses tr =
     (let timeClause = quoteIfTimestamp tr
      in (if truthy (b_lower timeClause) then [''time > '' @ opt_str (b_lower tr)] else []) @
         (if truthy (b_upper timeClause) then [''time < '' @ opt_str (b_upper tr)] else []))"

definition buildWhereClause :: "bounds \<Rightarrow> string list js_obj option \<Rightarrow> bool option \<Rightarrow> string" where
  "buildWhereClause tr tags areTagsAccepted =
     (let subClauses = time_clauses tr @ tag_clauses tags areTagsAccepted
      in if subClauses = [] then [] else '' WHERE '' @ js_join '' AND '' subClauses)"

definition AUTO_GROUP_BY :: string where "AUTO_GROUP_BY = ''auto''"

definition buildGroupByTime :: "group_by option \<Rightarrow> string" where
  "buildGroupByTime groupBy =
     (case groupBy of None \<Rightarrow> [] | Some g \<Rightarrow>
        if \<not> truthy (gb_time g) then []
        else '' GROUP BY time('' @
          (if the (gb_time g) = AUTO_GROUP_BY then TEMP_VAR_INTERVAL else the (gb_time g)) @ '')'')"

definition buildGroupByTags :: "group_by option \<Rightarrow> string result" where
  "buildGroupByTags groupBy =
     (case groupBy of None \<Rightarrow> Inr [] | Some g \<Rightarrow>
        map_res (\<lambda>ts. if ts = [] then []
          else let tags = js_join '', '' (map (quoted (CHR 0x22)) ts)
               in if truthy (gb_time g) then '', '' @ tags else '' GROUP BY '' @ tags) (deref (gb_tags g)))"

definition buildGroupBy :: "group_by option \<Rightarrow> string result" where
  "buildGroupBy groupBy = map_res (\<lambda>tags. buildGroupByTime groupBy @ tags) (buildGroupByTags groupBy)"

definition buildFill :: "string \<Rightarrow> string" where
  "buildFill fl = '' FILL('' @ fl @ '')''"

definition fill_or_null :: "string option \<Rightarrow> string" where
  \<comment> \<open>an absent fill is \<open>NULL_STRING\<close>, and null prints the same\<close>
  "fill_or_null fl = (case fl of None \<Rightarrow> NULL_STRING | Some f \<Rightarrow> f)"

definition buildInfluxQLQuery :: "bounds \<Rightarrow> query_config \<Rightarrow> string \<Rightarrow> string option result" where
  "buildInfluxQLQuery tRange config shift =
     (let tr = quoteIfTimestamp tRange in
      case buildSelect config shift of
        None \<Rightarrow> Inr None
      | Some select \<Rightarrow>
        let condition = buildWhereClause tr (qc_tags config) (qc_areTagsAccepted config)
        in bind_r (buildGroupBy (qc_groupBy config)) (\<lambda>dimensions.
           map_res (\<lambda>g. Some (select @ condition @ dimensions @
               (if truthy (gb_time g) then buildFill (fill_or_null (qc_fill config)) else [])))
             (deref (qc_groupBy config))))"

definition TYPE_QUERY_CONFIG :: string where "TYPE_QUERY_CONFIG = ''queryConfig''"
definition TYPE_SHIFTED :: string where "TYPE_SHIFTED = ''shifted queryConfig''"
definition TYPE_FLUX :: string where "TYPE_FLUX = ''flux''"

definition buildQuery ::
    "(string option \<Rightarrow> bool) \<Rightarrow> string \<Rightarrow> bounds \<Rightarrow> query_config \<Rightarrow> time_shift option \<Rightarrow> string option result" where
  "buildQuery is_date ty tRange config shift =
     (if ty = TYPE_QUERY_CONFIG then buildInfluxQLQuery tRange config []
      else if ty = TYPE_SHIFTED then
        bind_r (deref shift) (\<lambda>s.
          buildInfluxQLQuery (shiftTimeRange is_date tRange s) config
            (''_shifted__'' @ ts_quantity s @ ''__'' @ ts_unit s))
      else buildInfluxQLQuery tRange config [])"

definition buildRawText :: "query_config \<Rightarrow> bounds \<Rightarrow> string result" where
  "buildRawText config tRange =
     (if truthy (qc_rawText config) then Inr (the (qc_rawText config))
      else map_res (\<lambda>q. case q of None \<Rightarrow> [] | Some s \<Rightarrow> s) (buildInfluxQLQuery tRange config []))"

section \<open>The queries of a graph\<close>

record query =
  q_text :: string
  q_id :: "string option"
  q_queryConfig :: query_config

definition bounds_of_range :: "duration_range \<Rightarrow> bounds" where
  "bounds_of_range r = \<lparr>b_lower = Some (dr_lower r), b_upper = dr_upper r\<rparr>"

definition is_parsable :: "query_config \<Rightarrow> bool result" where
  "is_parsable q =
     (if truthy (qc_database q) \<and> truthy (qc_measurement q)
      then map_res (\<lambda>fs. fs \<noteq> []) (deref (qc_fields q)) else Inr False)"

definition null_str :: "string option \<Rightarrow> string" where
  \<comment> \<open>what null prints as\<close>
  "null_str s = (case s of None \<Rightarrow> ''null'' | Some x \<Rightarrow> x)"

definition with_shifts ::
    "(string option \<Rightarrow> bool) \<Rightarrow> bounds \<Rightarrow> query_config \<Rightarrow> string option \<Rightarrow> string option result" where
  \<comment> \<open>the text followed by the shifted queries, where there are shifts and the query can be parsed\<close>
  "with_shifts is_date tRange q tx =
     bind_r (is_parsable q) (\<lambda>isParsable.
       case qc_shifts q of
         None \<Rightarrow> Inr tx
       | Some shifts \<Rightarrow>
           if shifts \<noteq> [] \<and> isParsable then
             map_res (\<lambda>shifted. Some (null_str tx @ '';'' @ js_join '';'' (map null_str shifted)))
               (map_r (\<lambda>s. buildQuery is_date TYPE_SHIFTED tRange q (Some s))
                 (filter (\<lambda>s. ts_unit s \<noteq> []) shifts))
           else Inr tx)"

definition graph_statement :: "(string option \<Rightarrow> bool) \<Rightarrow> bounds \<Rightarrow> query_config \<Rightarrow> string option result" where
  \<comment> \<open>the text of one statement of \<open>buildQueries\<close>\<close>
  "graph_statement is_date tR q =
     (let tRange = (case qc_range q of None \<Rightarrow> tR | Some r \<Rightarrow> bounds_of_range r)
      in bind_r (if truthy (qc_rawText q) then Inr (qc_rawText q)
                 else buildQuery is_date TYPE_QUERY_CONFIG tRange q None)
           (with_shifts is_date tRange q))"

definition buildQueries :: "(string option \<Rightarrow> bool) \<Rightarrow> query_config list \<Rightarrow> bounds \<Rightarrow> query list result" where
  "buildQueries is_date queryConfigs tR =
     map_res (\<lambda>texts. List.map_filter (\<lambda>(q, tx). map_option (\<lambda>s.
         \<lparr>q_text = s, q_id = qc_id q, q_queryConfig = q\<rparr>) tx) (zip queryConfigs texts))
       (map_r (graph_statement is_date tR) queryConfigs)"

section \<open>The queries of a layout\<close>

record cell_query =
  cq_query :: string
  cq_queryConfig :: "query_config option"
  cq_source :: "string option"
  cq_wheres :: "string list option"
  cq_groupbys :: "string list option"
  cq_text :: "string option"

record time_range_option =
  tro_defaultGroupBy :: string
  tro_seconds :: nat
  tro_inputValue :: string
  tro_lower :: string
  tro_upper :: "string option"
  tro_menuOption :: string

definition timeRanges :: "time_range_option list" where
  "timeRanges = [
     \<lparr>tro_defaultGroupBy = ''10s'', tro_seconds = 300, tro_inputValue = ''Past 5m'',
        tro_lower = ''now() - 5m'', tro_upper = None, tro_menuOption = ''Past 5m''\<rparr>,
     \<lparr>tro_defaultGroupBy = ''1m'', tro_seconds = 900, tro_inputValue = ''Past 15m'',
        tro_lower = ''now() - 15m'', tro_upper = None, tro_menuOption = ''Past 15m''\<rparr>,
     \<lparr>tro_defaultGroupBy = ''1m'', tro_seconds = 3600, tro_inputValue = ''Past 1h'',
        tro_lower = ''now() - 1h'', tro_upper = None, tro_menuOption = ''Past 1h''\<rparr>,
     \<lparr>tro_defaultGroupBy = ''1m'', tro_seconds = 21600, tro_inputValue = ''Past 6h'',
        tro_lower = ''now() - 6h'', tro_upper = None, tro_menuOption = ''Past 6h''\<rparr>,
     \<lparr>tro_defaultGroupBy = ''5m'', tro_seconds = 43200, tro_inputValue = ''Past 12h'',
        tro_lower = ''now() - 12h'', tro_upper = None, tro_menuOption = ''Past 12h''\<rparr>,
     \<lparr>tro_defaultGroupBy = ''10m'', tro_seconds = 86400, tro_inputValue = ''Past 24h'',
        tro_lower = ''now() - 24h'', tro_upper = None, tro_menuOption = ''Past 24h''\<rparr>,
     \<lparr>tro_defaultGroupBy = ''30m'', tro_seconds = 172800, tro_inputValue = ''Past 2d'',
        tro_lower = ''now() - 2d'', tro_upper = None, tro_menuOption = ''Past 2d''\<rparr>,
     \<lparr>tro_defaultGroupBy = ''1h'', tro_seconds = 604800, tro_inputValue = ''Past 7d'',
        tro_lower = ''now() - 7d'', tro_upper = None, tro_menuOption = ''Past 7d''\<rparr>,
     \<lparr>tro_defaultGroupBy = ''6h'', tro_seconds = 2592000, tro_inputValue = ''Past 30d'',
        tro_lower = ''now() - 30d'', tro_upper = None, tro_menuOption = ''Past 30d''\<rparr>]"

definition buildCannedDashboardQuery :: "cell_query \<Rightarrow> bounds \<Rightarrow> string option \<Rightarrow> string" where
  "buildCannedDashboardQuery q tr host =
     (let defaultGroupBy = (case List.find (\<lambda>r. Some (tro_lower r) = b_lower tr) timeRanges of
            None \<Rightarrow> ''5m'' | Some r \<Rightarrow> tro_defaultGroupBy r);
          tx = cq_query q @
            (if truthy (b_upper tr)
             then '' where time > '' @ quoted (CHR 0x27) (opt_str (b_lower tr)) @ '' AND time < '' @
               quoted (CHR 0x27) (the (b_upper tr))
             else '' where time > '' @ opt_str (b_lower tr));
          tx = tx @ (if truthy host then '' and '' @ quoted (CHR 0x22) ''host'' @ '' = '' @ quoted (CHR 0x27) (the host) else []);
          tx = tx @ (case cq_wheres q of None \<Rightarrow> []
                     | Some ws \<Rightarrow> if ws \<noteq> [] then '' and '' @ js_join '' and '' ws else [])
      in case cq_groupbys q of
           None \<Rightarrow> tx @ '' group by time('' @ defaultGroupBy @ '')''
         | Some gs \<Rightarrow>
             if list_ex (\<lambda>g. js_includes g ''time'') gs then tx @ '' group by '' @ js_join '','' gs
             else if gs \<noteq> [] then tx @ '' group by time('' @ defaultGroupBy @ ''),'' @ js_join '','' gs
             else tx @ '' group by time('' @ defaultGroupBy @ '')'')"

definition TEMP_VAR_DASHBOARD_TIME :: string where "TEMP_VAR_DASHBOARD_TIME = '':dashboardTime:''"
definition TEMP_VAR_UPPER_DASHBOARD_TIME :: string where
  "TEMP_VAR_UPPER_DASHBOARD_TIME = '':upperDashboardTime:''"

definition skip_space :: "string \<Rightarrow> string" where
  \<comment> \<open>\<open>( )?\<close>\<close>
  "skip_space s = (case s of c # cs \<Rightarrow> if c = CHR '' '' then cs else s | [] \<Rightarrow> [])"

definition after_prefix :: "string \<Rightarrow> string \<Rightarrow> string option" where
  "after_prefix p s = (if prefix p s then Some (drop (length p) s) else None)"

definition match_dashboard_time :: "string \<Rightarrow> string option" where
  \<comment> \<open>the rest of \<open>s\<close> after a match of \<open>time( )?>( )?:dashboardTime:\<close> at its start\<close>
  "match_dashboard_time s =
     Option.bind (after_prefix ''time'' s) (\<lambda>s1.
     Option.bind (after_prefix ''>'' (skip_space s1)) (\<lambda>s2.
       after_prefix TEMP_VAR_DASHBOARD_TIME (skip_space s2)))"

definition match_upper_bound :: "string \<Rightarrow> string option" where
  \<comment> \<open>\<open>time( )?<\<close>\<close>
  "match_upper_bound s = Option.bind (after_prefix ''time'' s) (\<lambda>s1. after_prefix ''<'' (skip_space s1))"

fun matches_somewhere :: "(string \<Rightarrow> string option) \<Rightarrow> string \<Rightarrow> bool" where
  "matches_somewhere m [] = (m [] \<noteq> None)"
| "matches_somewhere m (c # cs) = (m (c # cs) \<noteq> None \<or> matches_somewhere m cs)"

lemma after_prefix_shorter: "after_prefix p s = Some r \<Longrightarrow> length r + length p = length s"
  by (auto simp: after_prefix_def prefix_def split: if_splits)

lemma skip_space_shorter: "length (skip_space s) \<le> length s"
  by (simp add: skip_space_def split: list.split)

lemma match_dashboard_time_shorter: "match_dashboard_time s = Some r \<Longrightarrow> length r < length s"
proof -
  assume "match_dashboard_time s = Some r"
  then obtain s1 s2 where "after_prefix ''time'' s = Some s1" "after_prefix ''>'' (skip_space s1) = Some s2"
    "after_prefix TEMP_VAR_DASHBOARD_TIME (skip_space s2) = Some r"
    by (auto simp: match_dashboard_time_def bind_eq_Some_conv)
  then show ?thesis
    using after_prefix_shorter[of "''time''" s s1] after_prefix_shorter[of "''>''" "skip_space s1" s2]
      after_prefix_shorter[of TEMP_VAR_DASHBOARD_TIME "skip_space s2" r] skip_space_shorter[of s1] skip_space_shorter[of s2]
    by simp
qed

function replace_dashboard_time :: "string \<Rightarrow> string \<Rightarrow> string" where
  \<comment> \<open>\<open>rawText.replace(dashboardTimeRegex, fullTimeText)\<close>, a global replacement with plain text\<close>
  "replace_dashboard_time full s =
     (case match_dashboard_time s of
        Some r \<Rightarrow> full @ replace_dashboard_time full r
      | None \<Rightarrow> (case s of [] \<Rightarrow> [] | c # cs \<Rightarrow> c # replace_dashboard_time full cs))"
  by pat_completeness auto
termination
  by (relation "measure (\<lambda>(full, s). length s)") (auto dest: match_dashboard_time_shorter)

declare replace_dashboard_time.simps [simp del]

definition addTimeBoundsToRawText :: "string option \<Rightarrow> string option" where
  "addTimeBoundsToRawText rawText =
     (if \<not> truthy rawText then None
      else let raw = the rawText in
        if matches_somewhere match_dashboard_time raw \<and>
           \<not> js_includes raw TEMP_VAR_UPPER_DASHBOARD_TIME \<and> \<not> matches_somewhere match_upper_bound raw
        then Some (replace_dashboard_time (''time > '' @ TEMP_VAR_DASHBOARD_TIME @ '' AND '' @
               ''time < '' @ TEMP_VAR_UPPER_DASHBOARD_TIME) raw)
        else rawText)"

definition layout_query_text ::
    "(string option \<Rightarrow> bool) \<Rightarrow> bounds \<Rightarrow> string option \<Rightarrow> cell_query \<Rightarrow> string option result" where
  "layout_query_text is_date tRange host q =
     (case cq_queryConfig q of
        None \<Rightarrow> Inr (Some (buildCannedDashboardQuery q tRange host))
      | Some qc \<Rightarrow>
          let tR = (case qc_range qc of Some r \<Rightarrow> bounds_of_range r
                    | None \<Rightarrow> \<lparr>b_lower = Some TEMP_VAR_DASHBOARD_TIME, b_upper = Some TEMP_VAR_UPPER_DASHBOARD_TIME\<rparr>)
          in bind_r (if truthy (addTimeBoundsToRawText (qc_rawText qc)) then Inr (addTimeBoundsToRawText (qc_rawText qc))
                     else buildQuery is_date TYPE_QUERY_CONFIG tR qc None)
               (with_shifts is_date tRange qc))"

definition buildQueriesForLayouts ::
    "(string option \<Rightarrow> bool) \<Rightarrow> cell_query list \<Rightarrow> bounds \<Rightarrow> string option \<Rightarrow> cell_query list result" where
  "buildQueriesForLayouts is_date queries tRange host =
     map_r (\<lambda>q. map_res (\<lambda>tx. q\<lparr>cq_text := tx\<rparr>) (layout_query_text is_date tRange host q)) queries"


section \<open>What the texts mean\<close>

subsection \<open>Time bounds\<close>

lemma includes_quote [simp]: "js_includes (q # s @ [q]) [q]"
  unfolding js_includes_iff_sublist using sublist_append_rightI[of "[q]" "s @ [q]"] by simp

lemma quote_time_again [simp]: "quote_time (quote_time s) = quote_time s"
proof (cases "truthy s \<and> js_includes (the s) ''Z'' \<and> \<not> js_includes (the s) [CHR 0x27]")
  case True
  then have "quote_time s = Some (CHR 0x27 # the s @ [CHR 0x27])" unfolding quote_time_def by (rule if_P)
  then show ?thesis by (simp only: quote_time_def[of "Some _"] option.sel includes_quote not_True_eq_False simp_thms if_False)
next
  case False
  then have "quote_time s = s" unfolding quote_time_def by (rule if_not_P)
  then show ?thesis by simp
qed

lemma quoteIfTimestamp_again [simp]: "quoteIfTimestamp (quoteIfTimestamp tr) = quoteIfTimestamp tr"
  by (simp add: quoteIfTimestamp_def)

lemma truthy_quote_time [simp]: "truthy (quote_time s) = truthy s"
  unfolding quote_time_def by (simp add: truthy_def)

lemma truthy_opt_str: "truthy s \<Longrightarrow> opt_str s = the s"
  by (cases s) (simp_all add: truthy_def opt_str_def)

lemma time_clauses_eq:
  "time_clauses tr = (if truthy (b_lower tr) then [''time > '' @ the (b_lower tr)] else []) @
     (if truthy (b_upper tr) then [''time < '' @ the (b_upper tr)] else [])"
  by (simp add: time_clauses_def quoteIfTimestamp_def truthy_opt_str)

definition writable :: "query_config \<Rightarrow> bool" where
  \<comment> \<open>the parts a SELECT needs are there\<close>
  "writable q = (truthy (qc_database q) \<and> truthy (qc_measurement q) \<and> qc_fields q \<noteq> None \<and> qc_fields q \<noteq> Some [])"

definition grouping :: "group_by option \<Rightarrow> string" where
  \<comment> \<open>the dimensions of a group-by whose tags are there\<close>
  "grouping g = (case buildGroupBy g of Inl _ \<Rightarrow> [] | Inr s \<Rightarrow> s)"

definition filling :: "query_config \<Rightarrow> string" where
  "filling q = (if truthy (gb_time (the (qc_groupBy q))) then buildFill (fill_or_null (qc_fill q)) else [])"

definition written :: "bounds \<Rightarrow> query_config \<Rightarrow> string \<Rightarrow> string" where
  "written tr q sh = the (buildSelect q sh) @ buildWhereClause (quoteIfTimestamp tr) (qc_tags q) (qc_areTagsAccepted q) @
     grouping (qc_groupBy q) @ filling q"

lemma buildSelect_writable: "buildSelect q sh = (if writable q then Some (the (buildSelect q sh)) else None)"
  by (simp add: buildSelect_def writable_def)

lemma buildGroupBy_wf: "wf_groupBy g \<Longrightarrow> buildGroupBy g = Inr (grouping g)"
  by (auto simp: wf_groupBy_def grouping_def buildGroupBy_def buildGroupByTags_def split: option.splits)

lemma buildInfluxQLQuery_eq:
  assumes "wf_config q"
  shows "buildInfluxQLQuery tr q sh = Inr (if writable q then Some (written tr q sh) else None)"
proof -
  have g: "wf_groupBy (qc_groupBy q)" using assms by (simp add: wf_config_iff)
  then obtain g0 where g0: "qc_groupBy q = Some g0" by (auto simp: wf_groupBy_def split: option.splits)
  show ?thesis
  proof (cases "writable q")
    case True
    then obtain s where s: "buildSelect q sh = Some s" using buildSelect_writable[of q sh] by simp
    then show ?thesis using True g0
      by (simp add: buildInfluxQLQuery_def Let_def buildGroupBy_wf[OF g[unfolded g0]] written_def filling_def)
  next
    case False
    then have "buildSelect q sh = None" using buildSelect_writable[of q sh] by simp
    then show ?thesis using False by (simp add: buildInfluxQLQuery_def Let_def)
  qed
qed

text \<open>
  Writing the query of a well-formed configuration never throws: it gives null exactly when
  the database, the measurement or the fields are missing, and otherwise the select clause, the
  time bounds and tag filters, the dimensions and, where there is a time dimension, the fill.
  Bounds that were already quoted are not quoted again.
\<close>

theorem buildInfluxQLQuery_total:
  assumes "wf_config q"
  shows "buildInfluxQLQuery tr q sh = Inr (if writable q then Some (written tr q sh) else None) \<and>
    buildInfluxQLQuery (quoteIfTimestamp tr) q sh = buildInfluxQLQuery tr q sh"
  using assms by (simp_all add: buildInfluxQLQuery_eq written_def)

definition usage_config :: query_config where
  "usage_config = (defaultQueryConfig (Some ''1'') False)\<lparr>
     qc_database := Some ''telegraf'', qc_retentionPolicy := Some ''autogen'', qc_measurement := Some ''cpu'',
     qc_fields := Some [Field ''mean'' ''func'' (Some ''m'') (Some [Field ''usage'' ''field'' None None])],
     qc_tags := Some [(''host'', [''a'', ''b''])],
     qc_groupBy := Some \<lparr>gb_time = Some ''auto'', gb_tags = Some [''cpu'']\<rparr>\<rparr>"

lemma usage_config_wf: "wf_config usage_config" by code_simp

theorem buildInfluxQLQuery_total_witness:
  "buildInfluxQLQuery \<lparr>b_lower = Some ''now() - 1h'', b_upper = None\<rparr> usage_config [] =
     Inr (Some (written \<lparr>b_lower = Some ''now() - 1h'', b_upper = None\<rparr> usage_config []))"
proof -
  have "writable usage_config" by code_simp
  then show ?thesis using buildInfluxQLQuery_total[OF usage_config_wf] by simp
qed

subsection \<open>Tag filters\<close>

text \<open>A comparison of a tag with a value, what it prints as and when a point satisfies it; a clause
  is the disjunction of its comparisons and the filter the conjunction of its clauses.\<close>

datatype comparison = Compare bool string string

fun comparison_text :: "comparison \<Rightarrow> string" where
  "comparison_text (Compare eq k v) = quoted (CHR 0x22) k @ (if eq then ''='' else ''!='') @ quoted (CHR 0x27) v"

fun satisfies :: "(string \<Rightarrow> string) \<Rightarrow> comparison \<Rightarrow> bool" where
  "satisfies p (Compare eq k v) = ((p k = v) = eq)"

definition clause_text :: "comparison list \<Rightarrow> string" where
  "clause_text cs =
     (if length cs > 1 then ''('' @ js_join '' OR '' (map comparison_text cs) @ '')''
      else concat (map comparison_text cs))"

definition admits :: "(string \<Rightarrow> string) \<Rightarrow> comparison list list \<Rightarrow> bool" where
  "admits p css = list_all (list_ex (satisfies p)) css"

lemma tag_clause_text: "vs \<noteq> [] \<Longrightarrow> tag_clause eq k vs = clause_text (map (Compare eq k) vs)"
  by (cases vs; cases "tl vs") (auto simp: tag_clause_def clause_text_def Let_def o_def)

definition tag_filter :: "string list js_obj \<Rightarrow> bool \<Rightarrow> comparison list list" where
  "tag_filter tags eq = map (\<lambda>(k, vs). map (Compare eq k) vs) (obj_entries tags)"

lemma obj_entries_in: "(k, vs) \<in> set (obj_entries ob) \<longleftrightarrow> obj_get ob k = Some vs"
proof -
  have "(k, vs) \<in> set (obj_entries ob) \<longleftrightarrow> k \<in> set (obj_keys ob) \<and> vs = the (obj_get ob k)"
    by (auto simp: obj_entries_eq)
  then show ?thesis using obj_get_None_iff[of ob k] by (cases "obj_get ob k") auto
qed

lemma admits_tag_filter:
  "admits p (tag_filter tags eq) \<longleftrightarrow> (\<forall>k vs. obj_get tags k = Some vs \<longrightarrow> (\<exists>v\<in>set vs. (p k = v) = eq))"
proof -
  have "admits p (tag_filter tags eq) \<longleftrightarrow>
      (\<forall>e\<in>set (obj_entries tags). \<exists>v\<in>set (snd e). (p (fst e) = v) = eq)"
    by (simp add: admits_def tag_filter_def list_all_iff list_ex_iff split_def)
  then show ?thesis unfolding obj_entries_in[symmetric] Ball_def split_paired_All by simp
qed

lemma tag_clauses_text:
  assumes "\<forall>k vs. obj_get tags k = Some vs \<longrightarrow> vs \<noteq> []"
  shows "tag_clauses (Some tags) acc = map clause_text (tag_filter tags (acc = Some True))"
  using assms by (auto simp: tag_clauses_def tag_filter_def obj_entries_in tag_clause_text)

text \<open>
  The filter on tags. When tags are accepted the condition admits exactly the points whose
  every chosen tag has one of the chosen values. When they are excluded the comparisons of a tag
  are still joined by OR, so a point is admitted as soon as each of its tags differs from ONE of
  the values to exclude: with two values for every tag nothing at all is excluded.
\<close>

theorem buildWhereClause_tags:
  assumes "tags \<noteq> []" and "\<forall>k vs. obj_get tags k = Some vs \<longrightarrow> vs \<noteq> []"
  shows "buildWhereClause tr (Some tags) acc =
      '' WHERE '' @ js_join '' AND '' (time_clauses tr @ map clause_text (tag_filter tags (acc = Some True))) \<and>
    (\<forall>p. admits p (tag_filter tags True) \<longleftrightarrow> (\<forall>k vs. obj_get tags k = Some vs \<longrightarrow> p k \<in> set vs)) \<and>
    (\<forall>p. admits p (tag_filter tags False) \<longleftrightarrow> (\<forall>k vs. obj_get tags k = Some vs \<longrightarrow> set vs \<noteq> {p k})) \<and>
    ((\<forall>k vs. obj_get tags k = Some vs \<longrightarrow> (\<exists>v w. v \<in> set vs \<and> w \<in> set vs \<and> v \<noteq> w)) \<longrightarrow>
       (\<forall>p. admits p (tag_filter tags False)))"
proof -
  have "obj_keys tags \<noteq> []" by (metis assms(1) image_is_empty set_empty set_obj_keys)
  then have ne: "tag_clauses (Some tags) acc \<noteq> []"
    by (simp add: tag_clauses_def obj_entries_eq)
  have differs: "(\<exists>v\<in>set vs. (p k = v) = False) \<longleftrightarrow> set vs \<noteq> {p k}" if "vs \<noteq> []" for p k and vs :: "string list"
    using that by (cases vs) auto
  have out: "admits p (tag_filter tags False) \<longleftrightarrow> (\<forall>k vs. obj_get tags k = Some vs \<longrightarrow> set vs \<noteq> {p k})" for p
    unfolding admits_tag_filter by (intro all_cong1 imp_cong refl differs assms(2)[rule_format])
  then have two: "admits p (tag_filter tags False)"
    if "\<forall>k vs. obj_get tags k = Some vs \<longrightarrow> (\<exists>v w. v \<in> set vs \<and> w \<in> set vs \<and> v \<noteq> w)" for p
    using that by (metis singletonD)
  have printed: "buildWhereClause tr (Some tags) acc =
      '' WHERE '' @ js_join '' AND '' (time_clauses tr @ map clause_text (tag_filter tags (acc = Some True)))"
    using ne unfolding buildWhereClause_def Let_def tag_clauses_text[of tags acc, OF assms(2)] by simp
  have kept: "admits p (tag_filter tags True) \<longleftrightarrow> (\<forall>k vs. obj_get tags k = Some vs \<longrightarrow> p k \<in> set vs)" for p
    unfolding admits_tag_filter by simp
  show ?thesis
    by (intro conjI allI impI) (rule printed kept out two, assumption?)+
qed

theorem buildWhereClause_tags_witness:
  "buildWhereClause \<lparr>b_lower = None, b_upper = None\<rparr> (Some [(''cpu'', [''cpu1'', ''cpu2''])]) None =
     '' WHERE '' @ js_join '' AND '' [''('' @ quoted (CHR 0x22) ''cpu'' @ ''!='' @ quoted (CHR 0x27) ''cpu1'' @ '' OR '' @
       quoted (CHR 0x22) ''cpu'' @ ''!='' @ quoted (CHR 0x27) ''cpu2'' @ '')''] \<and>
   admits (\<lambda>_. ''cpu1'') (tag_filter [(''cpu'', [''cpu1'', ''cpu2''])] False)"
proof -
  let ?tags = "[(''cpu'', [''cpu1'', ''cpu2''])]"
  have get: "obj_get ?tags k = Some vs \<Longrightarrow> k = ''cpu'' \<and> vs = [''cpu1'', ''cpu2'']" for k vs
    by (auto simp: obj_get_def split: if_splits)
  have ne: "?tags \<noteq> []" by simp
  have two: "\<forall>k vs. obj_get ?tags k = Some vs \<longrightarrow> (\<exists>v w. v \<in> set vs \<and> w \<in> set vs \<and> v \<noteq> w)"
  proof (intro allI impI)
    fix k vs assume "obj_get ?tags k = Some vs"
    then have "vs = [''cpu1'', ''cpu2'']" using get by blast
    then have "''cpu1'' \<in> set vs \<and> ''cpu2'' \<in> set vs \<and> ''cpu1'' \<noteq> ''cpu2''" by simp
    then show "\<exists>v w. v \<in> set vs \<and> w \<in> set vs \<and> v \<noteq> w" by blast
  qed
  have vs: "\<forall>k vs. obj_get ?tags k = Some vs \<longrightarrow> vs \<noteq> []" using get by blast
  note fact = buildWhereClause_tags[of ?tags "\<lparr>b_lower = None, b_upper = None\<rparr>" None, OF ne vs]
  have printed: "time_clauses \<lparr>b_lower = None, b_upper = None\<rparr> @ map clause_text (tag_filter ?tags (None = Some True)) =
      [''('' @ quoted (CHR 0x22) ''cpu'' @ ''!='' @ quoted (CHR 0x27) ''cpu1'' @ '' OR '' @
       quoted (CHR 0x22) ''cpu'' @ ''!='' @ quoted (CHR 0x27) ''cpu2'' @ '')'']"
    by code_simp
  show ?thesis
    using fact[THEN conjunct1] fact[THEN conjunct2, THEN conjunct2, THEN conjunct2, THEN mp, OF two]
    unfolding printed by (intro conjI) (assumption, simp)
qed

subsection \<open>The statements of a graph\<close>

definition range_of :: "query_config \<Rightarrow> bounds \<Rightarrow> bounds" where
  "range_of q tR = (case qc_range q of None \<Rightarrow> tR | Some r \<Rightarrow> bounds_of_range r)"

definition shift_suffix :: "time_shift \<Rightarrow> string" where
  "shift_suffix s = ''_shifted__'' @ ts_quantity s @ ''__'' @ ts_unit s"

definition shifted_texts :: "(string option \<Rightarrow> bool) \<Rightarrow> bounds \<Rightarrow> query_config \<Rightarrow> string list" where
  "shifted_texts is_date tr q =
     map (\<lambda>s. written (shiftTimeRange is_date tr s) q (shift_suffix s))
       (filter (\<lambda>s. ts_unit s \<noteq> []) (case qc_shifts q of None \<Rightarrow> [] | Some ss \<Rightarrow> ss))"

definition has_text :: "query_config \<Rightarrow> bool" where
  "has_text q = (truthy (qc_rawText q) \<or> writable q)"

definition whole_text :: "(string option \<Rightarrow> bool) \<Rightarrow> bounds \<Rightarrow> query_config \<Rightarrow> string" where
  "whole_text is_date tR q =
     (if truthy (qc_rawText q) then the (qc_rawText q) else written (range_of q tR) q []) @
     (if writable q \<and> qc_shifts q \<noteq> None \<and> qc_shifts q \<noteq> Some []
      then '';'' @ js_join '';'' (shifted_texts is_date (range_of q tR) q) else [])"

lemma query_types: "TYPE_SHIFTED \<noteq> TYPE_QUERY_CONFIG"
  by (simp add: TYPE_SHIFTED_def TYPE_QUERY_CONFIG_def)

lemma buildQuery_plain: "buildQuery is_date TYPE_QUERY_CONFIG tr q s = buildInfluxQLQuery tr q []"
  by (simp add: buildQuery_def)

lemma buildQuery_shifted:
  "buildQuery is_date TYPE_SHIFTED tr q (Some s) = buildInfluxQLQuery (shiftTimeRange is_date tr s) q (shift_suffix s)"
  by (simp add: buildQuery_def query_types shift_suffix_def)

lemma is_parsable_wf: "wf_config q \<Longrightarrow> is_parsable q = Inr (writable q)"
  by (auto simp: is_parsable_def writable_def wf_config_iff)

lemma with_shifts_wf:
  assumes "wf_config q"
  shows "with_shifts is_date tr q tx = Inr
    (if writable q \<and> qc_shifts q \<noteq> None \<and> qc_shifts q \<noteq> Some []
     then Some (null_str tx @ '';'' @ js_join '';'' (shifted_texts is_date tr q)) else tx)"
proof (cases "qc_shifts q")
  case None
  then show ?thesis by (simp add: with_shifts_def is_parsable_wf[OF assms])
next
  case (Some ss)
  have "map_r (\<lambda>s. buildQuery is_date TYPE_SHIFTED tr q (Some s)) (filter (\<lambda>s. ts_unit s \<noteq> []) ss) =
      Inr (map (\<lambda>s. Some (written (shiftTimeRange is_date tr s) q (shift_suffix s))) (filter (\<lambda>s. ts_unit s \<noteq> []) ss))"
    if "writable q"
    by (rule map_r_pure) (simp add: buildQuery_shifted buildInfluxQLQuery_eq[OF assms] that)
  then show ?thesis
    by (cases "writable q")
       (simp_all add: with_shifts_def is_parsable_wf[OF assms] Some shifted_texts_def o_def null_str_def)
qed

lemma graph_statement_wf:
  assumes "wf_config q"
  shows "graph_statement is_date tR q = Inr (if has_text q then Some (whole_text is_date tR q) else None)"
proof -
  have own: "(if truthy (qc_rawText q) then Inr (qc_rawText q)
       else buildQuery is_date TYPE_QUERY_CONFIG (range_of q tR) q None) =
      Inr (if has_text q then Some (if truthy (qc_rawText q) then the (qc_rawText q) else written (range_of q tR) q []) else None)"
    by (cases "qc_rawText q") (simp_all add: truthy_def has_text_def buildQuery_plain buildInfluxQLQuery_eq[OF assms])
  show ?thesis
    unfolding graph_statement_def Let_def range_of_def[symmetric] own
    by (simp add: with_shifts_wf[OF assms] whole_text_def has_text_def null_str_def)
qed

lemma queries_of_texts:
  "List.map_filter (\<lambda>(q, tx). map_option (h q) tx) (zip qs (map (\<lambda>q. if P q then Some (f q) else None) qs)) =
     map (\<lambda>q. h q (f q)) (filter P qs)"
  by (induction qs) (simp_all add: List.map_filter_simps)

lemma buildQueries_wf:
  assumes "\<forall>q\<in>set qs. wf_config q"
  shows "buildQueries is_date qs tR = Inr (map
    (\<lambda>q. \<lparr>q_text = whole_text is_date tR q, q_id = qc_id q, q_queryConfig = q\<rparr>) (filter has_text qs))"
proof -
  have "map_r (graph_statement is_date tR) qs =
      Inr (map (\<lambda>q. if has_text q then Some (whole_text is_date tR q) else None) qs)"
    by (rule map_r_pure) (simp add: graph_statement_wf assms)
  then show ?thesis
    unfolding buildQueries_def by (simp only: map_res_simps queries_of_texts)
qed

text \<open>
  The statements of a graph. For well-formed configurations building them returns; there is
  one per configuration that has raw text or can be written, in their order; and its text is the
  raw text or the written query followed, for a configuration that can be written and has shifts,
  by one query per shift that has a unit, written for the shifted range with an alias suffix.
\<close>

theorem buildQueries_correct:
  assumes "\<forall>q\<in>set qs. wf_config q"
  shows "\<exists>rs. buildQueries is_date qs tR = Inr rs \<and> map q_queryConfig rs = filter has_text qs \<and>
    list_all (\<lambda>r. q_id r = qc_id (q_queryConfig r) \<and> q_text r = whole_text is_date tR (q_queryConfig r)) rs"
  using buildQueries_wf[OF assms, of is_date tR] by (simp add: o_def list_all_iff)

theorem buildQueries_correct_witness:
  "\<exists>rs. buildQueries (\<lambda>_. False) [usage_config, defaultQueryConfig (Some ''2'') False] \<lparr>b_lower = Some ''now() - 1h'', b_upper = None\<rparr> =
      Inr rs \<and> map q_queryConfig rs = [usage_config]"
proof -
  have "\<forall>q\<in>set [usage_config, defaultQueryConfig (Some ''2'') False]. wf_config q"
    by (simp add: usage_config_wf default_wf)
  moreover have "filter has_text [usage_config, defaultQueryConfig (Some ''2'') False] = [usage_config]"
    by code_simp
  ultimately show ?thesis using buildQueries_correct[of _ "\<lambda>_. False" "\<lparr>b_lower = Some ''now() - 1h'', b_upper = None\<rparr>"]
    by fastforce
qed

subsection \<open>Shifting an absolute range\<close>

lemma quote_date:
  assumes "js_includes s ''Z''" and "\<not> js_includes s [CHR 0x27]"
  shows "quote_time (Some s) = Some (quoted (CHR 0x27) s)"
proof -
  have "s \<noteq> []" using assms(1) by (auto simp: js_includes_iff_sublist)
  then show ?thesis unfolding quote_time_def quoted_def using assms by (simp add: truthy_def)
qed

lemma sublist_single: "sublist [c] s \<longleftrightarrow> c \<in> set s"
  by (metis append_Cons append_Nil in_set_conv_decomp sublist_def)

lemma includes_single: "js_includes s [c] \<longleftrightarrow> c \<in> set s"
  by (simp add: js_includes_iff_sublist sublist_single)

text \<open>
  Shifting an absolute range. For bounds that are plain dates (with a zone letter and no
  quote of their own, as the time picker and the zoom of a graph make them) the shifted query
  compares the time with the quoted text DATE - DURATION: the duration that shifts the range ends up inside
  the quotes, not after them.
\<close>

theorem shift_inside_quotes:
  assumes "wf_config q" and "writable q"
    and "is_date (Some lo)" and "is_date (Some hi)"
    and "CHR ''Z'' \<in> set lo" and "CHR ''Z'' \<in> set hi"
    and "CHR 0x27 \<notin> set (lo @ hi @ ts_quantity s @ ts_unit s)"
  shows "\<exists>select dimensions. buildQuery is_date TYPE_SHIFTED \<lparr>b_lower = Some lo, b_upper = Some hi\<rparr> q (Some s) =
    Inr (Some (select @ '' WHERE '' @ js_join '' AND ''
      ([''time > '' @ quoted (CHR 0x27) (lo @ '' - '' @ ts_quantity s @ ts_unit s),
        ''time < '' @ quoted (CHR 0x27) (hi @ '' - '' @ ts_quantity s @ ts_unit s)] @
       tag_clauses (qc_tags q) (qc_areTagsAccepted q)) @ dimensions))"
proof -
  let ?dur = "ts_quantity s @ ts_unit s"
  have ne: "lo \<noteq> []" "hi \<noteq> []" using assms(5,6) by auto
  have ty: "timeRangeType is_date \<lparr>b_lower = Some lo, b_upper = Some hi\<rparr> None = ABSOLUTE"
    by (simp add: timeRangeType_def truthy_def ne assms(3,4))
  then have shift: "shiftTimeRange is_date \<lparr>b_lower = Some lo, b_upper = Some hi\<rparr> s =
      \<lparr>b_lower = Some (lo @ '' - '' @ ?dur), b_upper = Some (hi @ '' - '' @ ?dur)\<rparr>"
    by (simp add: shiftTimeRange_def Let_def opt_str_def)
  have "quote_time (Some (lo @ '' - '' @ ?dur)) = Some (quoted (CHR 0x27) (lo @ '' - '' @ ?dur))"
    by (rule quote_date) (use assms(5,7) in \<open>simp_all add: includes_single\<close>)
  moreover have "quote_time (Some (hi @ '' - '' @ ?dur)) = Some (quoted (CHR 0x27) (hi @ '' - '' @ ?dur))"
    by (rule quote_date) (use assms(6,7) in \<open>simp_all add: includes_single\<close>)
  ultimately have quotes: "quoteIfTimestamp (shiftTimeRange is_date \<lparr>b_lower = Some lo, b_upper = Some hi\<rparr> s) =
      \<lparr>b_lower = Some (quoted (CHR 0x27) (lo @ '' - '' @ ?dur)), b_upper = Some (quoted (CHR 0x27) (hi @ '' - '' @ ?dur))\<rparr>"
    unfolding shift quoteIfTimestamp_def by simp
  have times: "time_clauses \<lparr>b_lower = Some (quoted (CHR 0x27) (lo @ '' - '' @ ?dur)),
      b_upper = Some (quoted (CHR 0x27) (hi @ '' - '' @ ?dur))\<rparr> =
      [''time > '' @ quoted (CHR 0x27) (lo @ '' - '' @ ?dur), ''time < '' @ quoted (CHR 0x27) (hi @ '' - '' @ ?dur)]"
    by (simp add: time_clauses_eq truthy_def quoted_def)
  show ?thesis
    unfolding buildQuery_shifted buildInfluxQLQuery_eq[OF assms(1)] written_def quotes buildWhereClause_def times
    by (auto simp: assms(2) Let_def)
qed

theorem shift_inside_quotes_witness:
  "\<exists>select dimensions. buildQuery (\<lambda>_. True) TYPE_SHIFTED
      \<lparr>b_lower = Some ''2018-07-01T00:00:00Z'', b_upper = Some ''2018-07-02T00:00:00Z''\<rparr> usage_config
      (Some \<lparr>ts_label = [], ts_unit = ''d'', ts_quantity = ''1''\<rparr>) =
    Inr (Some (select @ '' WHERE '' @ js_join '' AND ''
      ([''time > '' @ quoted (CHR 0x27) ''2018-07-01T00:00:00Z - 1d'', ''time < '' @ quoted (CHR 0x27) ''2018-07-02T00:00:00Z - 1d''] @
       tag_clauses (qc_tags usage_config) (qc_areTagsAccepted usage_config)) @ dimensions))"
proof -
  have w: "writable usage_config" by code_simp
  show ?thesis
    using shift_inside_quotes[OF usage_config_wf w, of "\<lambda>_. True" "''2018-07-01T00:00:00Z''" "''2018-07-02T00:00:00Z''"
      "\<lparr>ts_label = [], ts_unit = ''d'', ts_quantity = ''1''\<rparr>"]
    by simp
qed

end
