(* ===== verification/Logs_Query.thy ===== *)
theory Logs_Query
  imports InfluxQL Time_Series
begin

text \<open>
  The queries of the log viewer: \<open>ui/src/logs/utils/index.ts\<close>. A regular expression prints as the
  engine prints it, or throws where it is malformed: the parameter \<open>regexp\<close>. Times are milliseconds;
  moment reads a text as a time and prints a time as an ISO text: the parameters \<open>parse_time\<close> and
  \<open>to_iso\<close>. The server's answer to the \<open>n\<close>-th count query of a search is \<open>exec n query\<close>.
\<close>

section \<open>Filters\<close>

record filter_clause =
  fc_id :: string
  fc_key :: string
  fc_value :: string
  fc_operator :: string

definition keyMapping :: "string \<Rightarrow> string" where
  "keyMapping key = (if key = ''severity_1'' then ''severity'' else key)"

definition operatorMapping :: "string \<Rightarrow> string" where
  "operatorMapping operator = (if operator = ''=='' then ''='' else operator)"

definition valueMapping :: "(string \<Rightarrow> string result) \<Rightarrow> string \<Rightarrow> string \<Rightarrow> string result" where
  "valueMapping regexp operator value =
     (if operator = ''=~'' \<or> operator = ''!~'' then regexp value else Inr (quoted (CHR 0x27) value))"

definition filter_text :: "(string \<Rightarrow> string result) \<Rightarrow> filter_clause \<Rightarrow> string result" where
  "filter_text regexp f =
     map_res (\<lambda>v. quoted (CHR 0x22) (keyMapping (fc_key f)) @ '' '' @ operatorMapping (fc_operator f) @ '' '' @ v)
       (valueMapping regexp (fc_operator f) (fc_value f))"

definition filtersClause :: "(string \<Rightarrow> string result) \<Rightarrow> filter_clause list \<Rightarrow> string result" where
  "filtersClause regexp filters = map_res (js_join '' AND '') (map_r (filter_text regexp) filters)"

section \<open>Queries\<close>

definition infinite_time_clauses :: "string option \<Rightarrow> string option \<Rightarrow> string list" where
  "infinite_time_clauses lower upper =
     (if truthy lower then [''time >= '' @ quoted (CHR 0x27) (the lower)] else []) @
     (if truthy upper then [''time < '' @ quoted (CHR 0x27) (the upper)] else [])"

definition buildInfiniteScrollWhereClause ::
    "string option \<Rightarrow> string option \<Rightarrow> string list js_obj option \<Rightarrow> bool option \<Rightarrow> string" where
  "buildInfiniteScrollWhereClause lower upper tags areTagsAccepted =
     (let subClauses = infinite_time_clauses lower upper @ tag_clauses tags areTagsAccepted
      in if subClauses = [] then [] else '' WHERE '' @ js_join '' AND '' subClauses)"

definition with_search :: "(string \<Rightarrow> string result) \<Rightarrow> string \<Rightarrow> string option \<Rightarrow> string \<Rightarrow> string result" where
  \<comment> \<open>\<open>name\<close> is how the message column is written\<close>
  "with_search regexp name searchTerm condition =
     (if truthy searchTerm
      then map_res (\<lambda>r. condition @ '' AND '' @ name @ '' =~ '' @ r) (regexp (the searchTerm))
      else Inr condition)"

definition with_filters :: "(string \<Rightarrow> string result) \<Rightarrow> filter_clause list \<Rightarrow> string \<Rightarrow> string result" where
  "with_filters regexp filters condition =
     (if filters \<noteq> [] then map_res (\<lambda>c. condition @ '' AND '' @ c) (filtersClause regexp filters) else Inr condition)"

definition buildGeneralLogQuery ::
    "(string \<Rightarrow> string result) \<Rightarrow> string \<Rightarrow> query_config \<Rightarrow> filter_clause list \<Rightarrow> string option \<Rightarrow> string result" where
  "buildGeneralLogQuery regexp condition config filters searchTerm =
     (let select = null_str (buildSelect config [])
      in bind_r (buildGroupBy (qc_groupBy config)) (\<lambda>dimensions.
         bind_r (deref (qc_groupBy config)) (\<lambda>g.
           let fillClause = (if truthy (gb_time g) then buildFill (fill_or_null (qc_fill config)) else [])
           in bind_r (with_search regexp ''message'' searchTerm condition) (\<lambda>condition.
              map_res (\<lambda>condition. select @ condition @ dimensions @ fillClause)
                (with_filters regexp filters condition)))))"

definition buildInfiniteScrollLogQuery ::
    "(string \<Rightarrow> string result) \<Rightarrow> string option \<Rightarrow> string option \<Rightarrow> query_config \<Rightarrow> filter_clause list \<Rightarrow>
     string option \<Rightarrow> string result" where
  "buildInfiniteScrollLogQuery regexp lower upper config filters searchTerm =
     buildGeneralLogQuery regexp
       (buildInfiniteScrollWhereClause lower upper (qc_tags config) (qc_areTagsAccepted config))
       config filters searchTerm"

definition buildLogQuery ::
    "(string \<Rightarrow> string result) \<Rightarrow> bounds \<Rightarrow> query_config \<Rightarrow> filter_clause list \<Rightarrow> string option \<Rightarrow> string result" where
  "buildLogQuery regexp tRange config filters searchTerm =
     (let tr = quoteIfTimestamp tRange; select = null_str (buildSelect config [])
      in bind_r (buildGroupBy (qc_groupBy config)) (\<lambda>dimensions.
         bind_r (deref (qc_groupBy config)) (\<lambda>g.
           let fillClause = (if truthy (gb_time g) then buildFill (fill_or_null (qc_fill config)) else []);
               condition = buildWhereClause tr (qc_tags config) (qc_areTagsAccepted config)
           in bind_r (with_search regexp ''message'' searchTerm condition) (\<lambda>condition.
              map_res (\<lambda>condition. select @ condition @ dimensions @ fillClause)
                (with_filters regexp filters condition)))))"

section \<open>Searching for a time bound\<close>

definition BIN_COUNT :: int where "BIN_COUNT = 30"
definition SECONDS_AWAY_LIMIT :: int where "SECONDS_AWAY_LIMIT = 1296000"

definition nth_value :: "nat \<Rightarrow> 'a list \<Rightarrow> 'a option" where
  "nth_value i xs = (if i < length xs then Some (xs ! i) else None)"

definition first_count :: "server_response \<Rightarrow> ts_value" where
  \<comment> \<open>\<open>getDeep(result, 'results.0.series.0.values.0.1', 0)\<close>\<close>
  "first_count response =
     (case Option.bind response (\<lambda>results.
           Option.bind (nth_value 0 results) (\<lambda>r.
           Option.bind (r_series r) (\<lambda>ss.
           Option.bind (nth_value 0 ss) (\<lambda>s.
           Option.bind (s_values s) (\<lambda>vs.
           Option.bind (nth_value 0 vs) (nth_value 1)))))) of
        None \<Rightarrow> VNum 0 | Some v \<Rightarrow> v)"

definition count_query ::
    "(string \<Rightarrow> string result) \<Rightarrow> string \<Rightarrow> string \<Rightarrow> query_config \<Rightarrow> filter_clause list \<Rightarrow> string option \<Rightarrow> string result" where
  "count_query regexp lower upper config filters searchTerm =
     (let select = ''SELECT count(message) FROM '' @ quoted (CHR 0x22) (opt_str (qc_database config)) @ ''.'' @
            (if truthy (qc_retentionPolicy config) then quoted (CHR 0x22) (the (qc_retentionPolicy config)) else []) @
            ''.'' @ quoted (CHR 0x22) (opt_str (qc_measurement config));
          condition = ''WHERE time >= '' @ quoted (CHR 0x27) lower @ '' AND time <='' @ quoted (CHR 0x27) upper
      in bind_r (with_search regexp (quoted (CHR 0x22) ''message'') searchTerm condition) (\<lambda>condition.
         map_res (\<lambda>condition. select @ '' '' @ condition @ '' FILL(0)'') (with_filters regexp filters condition)))"

definition getQueryCountForBounds ::
    "(string \<Rightarrow> server_response result) \<Rightarrow> (string \<Rightarrow> string result) \<Rightarrow> string \<Rightarrow> string \<Rightarrow> query_config \<Rightarrow>
     filter_clause list \<Rightarrow> string option \<Rightarrow> ts_value result" where
  "getQueryCountForBounds exec regexp lower upper config filters searchTerm =
     bind_r (count_query regexp lower upper config filters searchTerm) (\<lambda>query. map_res first_count (exec query))"

definition enough :: "ts_value \<Rightarrow> bool" where
  \<comment> \<open>\<open>count >= 400\<close>; the server counts in numbers\<close>
  "enough c = (case c of VNum n \<Rightarrow> n \<ge> 400 | _ \<Rightarrow> False)"

text \<open>
  The loops. \<open>parsedUpper\<close> and \<open>currentLower\<close> are one moment: \<open>subtract\<close> changes it and returns
  it, so there is one time, \<open>current\<close>. The parameter \<open>count\<close> is the n-th call of
  \<open>getQueryCountForBounds\<close>, of which only the moving bound changes.
\<close>

partial_function (option) older_loop ::
    "(nat \<Rightarrow> int \<Rightarrow> ts_value result) \<Rightarrow> int \<Rightarrow> int \<Rightarrow> nat \<Rightarrow> int result option" where
  "older_loop count secondsBack current n =
     (if secondsBack \<ge> SECONDS_AWAY_LIMIT then Some (Inr current)
      else (case count n current of
              Inl e \<Rightarrow> Some (Inl e)
            | Inr c \<Rightarrow>
                if enough c then Some (Inr current)
                else let secondsBack = secondsBack + 2 * secondsBack
                     in older_loop count secondsBack (current - 1000 * secondsBack) (Suc n)))"

partial_function (option) newer_loop ::
    "(nat \<Rightarrow> int \<Rightarrow> ts_value result) \<Rightarrow> int \<Rightarrow> int \<Rightarrow> nat \<Rightarrow> int result option" where
  "newer_loop count secondsForward current n =
     (if secondsForward > SECONDS_AWAY_LIMIT then Some (Inr current)
      else (case count n current of
              Inl e \<Rightarrow> Some (Inl e)
            | Inr c \<Rightarrow>
                if enough c then Some (Inr current)
                else let secondsForward = secondsForward + 2 * secondsForward
                     in newer_loop count secondsForward (current + 1000 * secondsForward) (Suc n)))"

definition findOlderLowerTimeBounds ::
    "(string \<Rightarrow> int) \<Rightarrow> (int \<Rightarrow> string) \<Rightarrow> (nat \<Rightarrow> string \<Rightarrow> server_response result) \<Rightarrow> (string \<Rightarrow> string result) \<Rightarrow>
     string \<Rightarrow> query_config \<Rightarrow> filter_clause list \<Rightarrow> string option \<Rightarrow> string result option" where
  "findOlderLowerTimeBounds parse_time to_iso exec regexp upper config filters searchTerm =
     (let parsedUpper = parse_time upper; secondsBack = 5
      in map_option (map_res to_iso)
           (older_loop (\<lambda>n lower. getQueryCountForBounds (exec n) regexp (to_iso lower) upper config filters searchTerm)
             secondsBack (parsedUpper - 1000 * secondsBack) 0))"

definition findNewerUpperTimeBounds ::
    "(string \<Rightarrow> int) \<Rightarrow> (int \<Rightarrow> string) \<Rightarrow> (nat \<Rightarrow> string \<Rightarrow> server_response result) \<Rightarrow> (string \<Rightarrow> string result) \<Rightarrow>
     string \<Rightarrow> query_config \<Rightarrow> filter_clause list \<Rightarrow> string option \<Rightarrow> string result option" where
  "findNewerUpperTimeBounds parse_time to_iso exec regexp lower config filters searchTerm =
     (let parsedLower = parse_time lower; secondsForward = 5
      in map_option (map_res to_iso)
           (newer_loop (\<lambda>n upper. getQueryCountForBounds (exec n) regexp lower (to_iso upper) config filters searchTerm)
             secondsForward (parsedLower + 1000 * secondsForward) 0))"

section \<open>The configurations of the histogram and the table\<close>

record log_range =
  lr_upper :: "string option"
  lr_lower :: string
  lr_seconds :: "int option"
  lr_windowOption :: string
  lr_timeOption :: string

definition truthy_num :: "int option \<Rightarrow> bool" where
  "truthy_num n = (n \<noteq> None \<and> n \<noteq> Some 0)"

definition computeSeconds :: "int \<Rightarrow> (string \<Rightarrow> int option) \<Rightarrow> log_range \<Rightarrow> int option" where
  \<comment> \<open>\<open>now\<close> is the current Unix time and \<open>unix\<close> the Unix time of a text, \<open>None\<close> for NaN\<close>
  "computeSeconds now unix rng =
     (if truthy_num (lr_seconds rng) then lr_seconds rng
      else if truthy (lr_upper rng) \<and> js_includes (the (lr_upper rng)) ''now'' \<and> lr_lower rng \<noteq> []
      then map_option (\<lambda>l. now - l) (unix (lr_lower rng))
      else if truthy (lr_upper rng) \<and> lr_lower rng \<noteq> []
      then Option.bind (unix (the (lr_upper rng))) (\<lambda>u. map_option (\<lambda>l. u - l) (unix (lr_lower rng)))
      else Some 120)"

definition bin_seconds :: "int \<Rightarrow> int" where
  "bin_seconds seconds = max (seconds div BIN_COUNT) 1"

definition createGroupBy :: "int \<Rightarrow> (string \<Rightarrow> int option) \<Rightarrow> log_range \<Rightarrow> group_by" where
  "createGroupBy now unix rng =
     \<lparr>gb_time = Some ((case computeSeconds now unix rng of None \<Rightarrow> ''NaN'' | Some s \<Rightarrow> int_str (bin_seconds s)) @ ''s''),
      gb_tags = Some [''severity'']\<rparr>"

definition histogramFields :: "field list" where
  "histogramFields = [Field ''count'' ''func'' (Some []) (Some [Field ''message'' ''field'' (Some ''message'') None])]"

definition tableFields :: "field list" where
  "tableFields = map (\<lambda>n. Field n ''field'' (Some n) None)
     [''severity'', ''timestamp'', ''message'', ''facility'', ''procid'', ''appname'', ''host'']"

definition logsDefaultQueryConfig :: query_config where
  "logsDefaultQueryConfig = empty_object\<lparr>qc_areTagsAccepted := Some False, qc_fill := Some ''0'',
     qc_measurement := Some ''syslog'', qc_rawText := None, qc_shifts := Some [], qc_tags := Some []\<rparr>"

definition range_of_log :: "log_range \<Rightarrow> duration_range" where
  "range_of_log r = \<lparr>dr_lower = lr_lower r, dr_upper = lr_upper r\<rparr>"

definition buildHistogramQueryConfig ::
    "int \<Rightarrow> (string \<Rightarrow> int option) \<Rightarrow> string \<Rightarrow> namespace \<Rightarrow> log_range \<Rightarrow> query_config" where
  \<comment> \<open>the third argument is the id \<open>uuid.v4()\<close> makes\<close>
  "buildHistogramQueryConfig now unix i ns rng =
     logsDefaultQueryConfig\<lparr>qc_id := Some i, qc_range := Some (range_of_log rng),
       qc_database := Some (ns_database ns), qc_retentionPolicy := Some (ns_retentionPolicy ns),
       qc_groupBy := Some (createGroupBy now unix rng), qc_fields := Some histogramFields\<rparr>"

definition buildTableQueryConfig :: "string \<Rightarrow> namespace \<Rightarrow> log_range \<Rightarrow> query_config" where
  "buildTableQueryConfig i ns rng =
     logsDefaultQueryConfig\<lparr>qc_id := Some i, qc_range := Some (range_of_log rng),
       qc_database := Some (ns_database ns), qc_retentionPolicy := Some (ns_retentionPolicy ns),
       qc_groupBy := Some \<lparr>gb_time = None, gb_tags = Some []\<rparr>, qc_fields := Some tableFields, qc_fill := None\<rparr>"

section \<open>The answer for the histogram\<close>

record histogram_datum =
  hd_key :: string
  hd_time :: "ts_value option"
  hd_value :: "ts_value option"
  hd_group :: string

definition ts_str :: "ts_value option \<Rightarrow> string" where
  "ts_str v = (case v of None \<Rightarrow> ''undefined'' | Some (VNum n) \<Rightarrow> int_str n | Some (VStr s) \<Rightarrow> s | Some VNull \<Rightarrow> ''null'')"

definition histogram_row :: "string \<Rightarrow> nat \<Rightarrow> nat \<Rightarrow> ts_value list \<Rightarrow> histogram_datum" where
  "histogram_row grp timeColIndex countColIndex v =
     (let time = nth_value timeColIndex v; value = nth_value countColIndex v
      in \<lparr>hd_key = grp @ ''-'' @ ts_str value @ ''-'' @ ts_str time, hd_time = time, hd_value = value, hd_group = grp\<rparr>)"

definition histogram_series :: "ts_series \<Rightarrow> histogram_datum list" where
  "histogram_series current =
     (let grp = (case Option.bind (s_tags current) (\<lambda>t. obj_get t ''severity'') of None \<Rightarrow> [] | Some g \<Rightarrow> g)
      in case s_values current of None \<Rightarrow> [] | Some vs \<Rightarrow>
         (case (find_index (\<lambda>v. v = ''time'') (s_columns current), find_index (\<lambda>v. v = ''count'') (s_columns current)) of
            (Some t, Some c) \<Rightarrow> map (histogram_row grp t c) vs
          | _ \<Rightarrow> []))"

definition parseHistogramQueryResponse :: "server_response \<Rightarrow> histogram_datum list" where
  "parseHistogramQueryResponse response =
     (let series = (case Option.bind response (\<lambda>rs. Option.bind (nth_value 0 rs) r_series) of None \<Rightarrow> [] | Some ss \<Rightarrow> ss)
      in foldl (\<lambda>acc current. acc @ histogram_series current) [] series)"

section \<open>The search ends within twelve queries\<close>

definition offset_secs :: "nat \<Rightarrow> int" where
  \<comment> \<open>how far the moved time is away when the k-th query is made\<close>
  "offset_secs k = (\<Sum>i\<le>k. 5 * 3 ^ i)"

lemma offset_0 [simp]: "offset_secs 0 = 5"
  by (simp add: offset_secs_def)

lemma offset_Suc: "offset_secs (Suc k) = offset_secs k + 5 * 3 ^ Suc k"
  by (simp add: offset_secs_def)

lemma offset_secs_closed: "2 * offset_secs k = 5 * (3 ^ Suc k - 1)"
  by (induction k) (simp_all add: offset_Suc)

lemma offset_12: "offset_secs 12 = 3985805"
  using offset_secs_closed[of 12] by simp

lemma pow3_mono: "k \<le> l \<Longrightarrow> (3::int) ^ k \<le> 3 ^ l"
  by (rule power_increasing) simp_all

lemma limit_iff: "k \<le> 12 \<Longrightarrow> (5 * 3 ^ k \<ge> SECONDS_AWAY_LIMIT) = (k = 12) \<and> (5 * 3 ^ k > SECONDS_AWAY_LIMIT) = (k = 12)"
proof -
  assume k: "k \<le> 12"
  show ?thesis
  proof (cases "k = 12")
    case False
    then have "(3::int) ^ k \<le> 3 ^ 11" using k by (intro pow3_mono) simp
    then show ?thesis using False by (simp add: SECONDS_AWAY_LIMIT_def)
  qed (simp add: SECONDS_AWAY_LIMIT_def)
qed

definition search_result :: "(nat \<Rightarrow> int \<Rightarrow> ts_value result) \<Rightarrow> (nat \<Rightarrow> int) \<Rightarrow> nat \<Rightarrow> int result" where
  \<comment> \<open>the search stopped at step \<open>k\<close>: at the limit without a query, or at the answer of the k-th query\<close>
  "search_result count at k = (if k = 12 then Inr (at 12) else map_res (\<lambda>_. at k) (count k (at k)))"

definition stops_at :: "(nat \<Rightarrow> int \<Rightarrow> ts_value result) \<Rightarrow> (nat \<Rightarrow> int) \<Rightarrow> nat \<Rightarrow> bool" where
  \<comment> \<open>the first step that is the limit, fails or finds enough rows\<close>
  "stops_at count at k = (k \<le> 12 \<and> list_all (\<lambda>i. \<exists>c. count i (at i) = Inr c \<and> \<not> enough c) [0..<k] \<and>
     (k = 12 \<or> (\<nexists>c. count k (at k) = Inr c \<and> \<not> enough c)))"

lemma first_stop:
  assumes "k \<le> 12"
  shows "\<exists>l. k \<le> l \<and> l \<le> 12 \<and> list_all P [k..<l] \<and> (l = 12 \<or> \<not> P l)"
  using assms
proof (induction "12 - k" arbitrary: k)
  case 0
  then show ?case by (intro exI[of _ 12]) simp
next
  case (Suc d)
  show ?case
  proof (cases "P k")
    case False
    then show ?thesis using Suc.prems by (intro exI[of _ k]) simp
  next
    case True
    from Suc.hyps(2) have "d = 12 - Suc k" "Suc k \<le> 12" by simp_all
    from Suc.hyps(1)[OF this] obtain l where l: "Suc k \<le> l" "l \<le> 12" "list_all P [Suc k..<l]" "l = 12 \<or> \<not> P l" by blast
    have "[k..<l] = k # [Suc k..<l]" using l(1) by (simp add: upt_rec)
    then show ?thesis using l True by (intro exI[of _ l]) simp
  qed
qed

lemma stop_exists: "\<exists>k. stops_at count at k"
  using first_stop[of 0 "\<lambda>i. \<exists>c. count i (at i) = Inr c \<and> \<not> enough c"] by (auto simp: stops_at_def)

definition older_at :: "int \<Rightarrow> nat \<Rightarrow> int" where
  "older_at t k = t - 1000 * offset_secs k"

definition newer_at :: "int \<Rightarrow> nat \<Rightarrow> int" where
  "newer_at t k = t + 1000 * offset_secs k"

lemma older_at_Suc: "older_at t k - 1000 * (5 * 3 ^ Suc k) = older_at t (Suc k)"
  by (simp add: older_at_def offset_Suc)

lemma newer_at_Suc: "newer_at t k + 1000 * (5 * 3 ^ Suc k) = newer_at t (Suc k)"
  by (simp add: newer_at_def offset_Suc)

lemma triple: "5 * 3 ^ k + 2 * (5 * 3 ^ k) = (5 * 3 ^ Suc k :: int)"
  by simp

lemma stops_below:
  assumes "stops_at count at l" and "k < l"
  shows "\<exists>c. count k (at k) = Inr c \<and> \<not> enough c"
  using assms by (simp add: stops_at_def list_all_iff)

lemma stops_here:
  assumes "stops_at count at l"
  shows "l = 12 \<or> (\<exists>e. count l (at l) = Inl e) \<or> (\<exists>c. count l (at l) = Inr c \<and> enough c)"
  using assms by (cases "count l (at l)") (auto simp: stops_at_def)

lemma older_loop_ends:
  assumes "stops_at count (older_at t) l" and "k \<le> l"
  shows "older_loop count (5 * 3 ^ k) (older_at t k) k = Some (search_result count (older_at t) l)"
  using assms(2)
proof (induction k rule: inc_induct)
  case base
  have "l \<le> 12" using assms(1) by (simp add: stops_at_def)
  then show ?case using stops_here[OF assms(1)] limit_iff[of l]
    by (subst older_loop.simps) (auto simp: search_result_def)
next
  case (step k)
  have "k < 12" using assms(1) step.hyps by (simp add: stops_at_def)
  then have low: "\<not> 5 * 3 ^ k \<ge> SECONDS_AWAY_LIMIT" using limit_iff[of k] by simp
  obtain c where "count k (older_at t k) = Inr c" "\<not> enough c" using stops_below[OF assms(1) step.hyps(2)] by blast
  then show ?case using low step.IH
    by (subst older_loop.simps) (simp only: Let_def triple older_at_Suc if_False sum.case)
qed

lemma newer_loop_ends:
  assumes "stops_at count (newer_at t) l" and "k \<le> l"
  shows "newer_loop count (5 * 3 ^ k) (newer_at t k) k = Some (search_result count (newer_at t) l)"
  using assms(2)
proof (induction k rule: inc_induct)
  case base
  have "l \<le> 12" using assms(1) by (simp add: stops_at_def)
  then show ?case using stops_here[OF assms(1)] limit_iff[of l]
    by (subst newer_loop.simps) (auto simp: search_result_def)
next
  case (step k)
  have "k < 12" using assms(1) step.hyps by (simp add: stops_at_def)
  then have low: "\<not> 5 * 3 ^ k > SECONDS_AWAY_LIMIT" using limit_iff[of k] by simp
  obtain c where "count k (newer_at t k) = Inr c" "\<not> enough c" using stops_below[OF assms(1) step.hyps(2)] by blast
  then show ?case using low step.IH
    by (subst newer_loop.simps) (simp only: Let_def triple newer_at_Suc if_False sum.case)
qed

definition older_count ::
    "(int \<Rightarrow> string) \<Rightarrow> (nat \<Rightarrow> string \<Rightarrow> server_response result) \<Rightarrow> (string \<Rightarrow> string result) \<Rightarrow>
     string \<Rightarrow> query_config \<Rightarrow> filter_clause list \<Rightarrow> string option \<Rightarrow> nat \<Rightarrow> int \<Rightarrow> ts_value result" where
  "older_count to_iso exec regexp upper config filters searchTerm =
     (\<lambda>n lower. getQueryCountForBounds (exec n) regexp (to_iso lower) upper config filters searchTerm)"

definition newer_count ::
    "(int \<Rightarrow> string) \<Rightarrow> (nat \<Rightarrow> string \<Rightarrow> server_response result) \<Rightarrow> (string \<Rightarrow> string result) \<Rightarrow>
     string \<Rightarrow> query_config \<Rightarrow> filter_clause list \<Rightarrow> string option \<Rightarrow> nat \<Rightarrow> int \<Rightarrow> ts_value result" where
  "newer_count to_iso exec regexp lower config filters searchTerm =
     (\<lambda>n upper. getQueryCountForBounds (exec n) regexp lower (to_iso upper) config filters searchTerm)"

lemma search_bounds:
  "(\<exists>k. stops_at (older_count to_iso exec regexp tm config filters searchTerm) (older_at (parse_time tm)) k \<and>
     findOlderLowerTimeBounds parse_time to_iso exec regexp tm config filters searchTerm =
       Some (map_res to_iso (search_result (older_count to_iso exec regexp tm config filters searchTerm) (older_at (parse_time tm)) k))) \<and>
   (\<exists>k. stops_at (newer_count to_iso exec regexp tm config filters searchTerm) (newer_at (parse_time tm)) k \<and>
     findNewerUpperTimeBounds parse_time to_iso exec regexp tm config filters searchTerm =
       Some (map_res to_iso (search_result (newer_count to_iso exec regexp tm config filters searchTerm) (newer_at (parse_time tm)) k)))"
proof (intro conjI)
  let ?older = "older_count to_iso exec regexp tm config filters searchTerm"
  let ?newer = "newer_count to_iso exec regexp tm config filters searchTerm"
  obtain k where k: "stops_at ?older (older_at (parse_time tm)) k" using stop_exists by blast
  have "older_at (parse_time tm) 0 = parse_time tm - 1000 * 5" by (simp add: older_at_def)
  then have "findOlderLowerTimeBounds parse_time to_iso exec regexp tm config filters searchTerm =
      Some (map_res to_iso (search_result ?older (older_at (parse_time tm)) k))"
    using older_loop_ends[OF k, of 0] by (simp add: findOlderLowerTimeBounds_def older_count_def)
  then show "\<exists>k. stops_at ?older (older_at (parse_time tm)) k \<and>
     findOlderLowerTimeBounds parse_time to_iso exec regexp tm config filters searchTerm =
       Some (map_res to_iso (search_result ?older (older_at (parse_time tm)) k))"
    using k by blast
  obtain l where l: "stops_at ?newer (newer_at (parse_time tm)) l" using stop_exists by blast
  have "newer_at (parse_time tm) 0 = parse_time tm + 1000 * 5" by (simp add: newer_at_def)
  then have "findNewerUpperTimeBounds parse_time to_iso exec regexp tm config filters searchTerm =
      Some (map_res to_iso (search_result ?newer (newer_at (parse_time tm)) l))"
    using newer_loop_ends[OF l, of 0] by (simp add: findNewerUpperTimeBounds_def newer_count_def)
  then show "\<exists>k. stops_at ?newer (newer_at (parse_time tm)) k \<and>
     findNewerUpperTimeBounds parse_time to_iso exec regexp tm config filters searchTerm =
       Some (map_res to_iso (search_result ?newer (newer_at (parse_time tm)) k))"
    using l by blast
qed

text \<open>
  C14: Searching for the bounds of a page of logs always ends, whatever the server answers, after at
  most twelve count queries. It stops at the first query that fails or counts 400 rows, and then
  the failure or the bound of that query is the result; the twelfth try past that is returned
  without a query. Because the moment is changed in place, the bound of the k-th query is not \<open>5 * 3 ^ k\<close> seconds away but
  the sum of these up to k: at the end 3985805 seconds, against a limit of 1296000.
\<close>

theorem time_bound_search:
  "(\<exists>k. stops_at (older_count to_iso exec regexp tm config filters searchTerm) (older_at (parse_time tm)) k \<and>
     findOlderLowerTimeBounds parse_time to_iso exec regexp tm config filters searchTerm =
       Some (map_res to_iso (search_result (older_count to_iso exec regexp tm config filters searchTerm) (older_at (parse_time tm)) k))) \<and>
   (\<exists>k. stops_at (newer_count to_iso exec regexp tm config filters searchTerm) (newer_at (parse_time tm)) k \<and>
     findNewerUpperTimeBounds parse_time to_iso exec regexp tm config filters searchTerm =
       Some (map_res to_iso (search_result (newer_count to_iso exec regexp tm config filters searchTerm) (newer_at (parse_time tm)) k))) \<and>
   older_at (parse_time tm) 12 = parse_time tm - 1000 * 3985805 \<and> SECONDS_AWAY_LIMIT < 3985805"
  using search_bounds[of to_iso exec regexp tm config filters searchTerm parse_time]
  by (simp only: older_at_def offset_12) (simp add: SECONDS_AWAY_LIMIT_def)

section \<open>The conditions of a log query\<close>

lemma join_append:
  "xs \<noteq> [] \<Longrightarrow> js_join sep (xs @ ys) = (if ys = [] then js_join sep xs else js_join sep xs @ sep @ js_join sep ys)"
proof (induction xs)
  case (Cons x xs)
  then show ?case by (cases "xs = []"; cases "ys = []") (simp_all add: js_join_Cons)
qed simp

definition message_clauses :: "(string \<Rightarrow> string result) \<Rightarrow> string option \<Rightarrow> string list result" where
  \<comment> \<open>the search for a term in the message, where there is a term\<close>
  "message_clauses regexp searchTerm =
     (if truthy searchTerm then map_res (\<lambda>r. [''message =~ '' @ r]) (regexp (the searchTerm)) else Inr [])"

lemma with_search_join:
  assumes "cs \<noteq> []" and "message_clauses regexp s = Inr ms"
  shows "with_search regexp ''message'' s (w @ js_join '' AND '' cs) = Inr (w @ js_join '' AND '' (cs @ ms))"
  using assms by (auto simp: with_search_def message_clauses_def map_res_Inr_iff join_append split: if_splits)

lemma with_filters_join:
  assumes "cs \<noteq> []" and "map_r (filter_text regexp) filters = Inr fs"
  shows "with_filters regexp filters (w @ js_join '' AND '' cs) = Inr (w @ js_join '' AND '' (cs @ fs))"
proof -
  have "fs = [] \<longleftrightarrow> filters = []" using map_r_length[OF assms(2)] by auto
  then show ?thesis using assms by (auto simp: with_filters_def filtersClause_def join_append)
qed

definition log_query_text :: "query_config \<Rightarrow> string list \<Rightarrow> string" where
  "log_query_text config clauses =
     null_str (buildSelect config []) @ '' WHERE '' @ js_join '' AND '' clauses @
     grouping (qc_groupBy config) @ filling config"

lemma general_query_text:
  assumes "wf_groupBy (qc_groupBy config)" and "cs \<noteq> []"
    and "message_clauses regexp s = Inr ms" and "map_r (filter_text regexp) filters = Inr fs"
  shows "buildGeneralLogQuery regexp ('' WHERE '' @ js_join '' AND '' cs) config filters s =
    Inr (log_query_text config (cs @ ms @ fs))"
proof -
  obtain g where g: "qc_groupBy config = Some g" using assms(1) by (auto simp: wf_groupBy_def split: option.splits)
  have ne: "cs @ ms \<noteq> []" using assms(2) by simp
  show ?thesis
    unfolding buildGeneralLogQuery_def buildGroupBy_wf[OF assms(1)] with_search_join[OF assms(2,3)] bind_r_simps Let_def
      with_filters_join[OF ne assms(4)]
    by (simp add: g log_query_text_def filling_def)
qed

lemma buildLogQuery_general:
  "buildLogQuery regexp tRange config filters s =
     buildGeneralLogQuery regexp (buildWhereClause (quoteIfTimestamp tRange) (qc_tags config) (qc_areTagsAccepted config))
       config filters s"
  by (simp add: buildLogQuery_def buildGeneralLogQuery_def Let_def)


definition page_of_logs :: query_config where
  "page_of_logs = buildTableQueryConfig ''7'' \<lparr>ns_database = ''telegraf'', ns_retentionPolicy = ''autogen''\<rparr>
     \<lparr>lr_upper = None, lr_lower = ''now() - 1m'', lr_seconds = Some 60, lr_windowOption = ''1m'', lr_timeOption = ''now''\<rparr>"


text \<open>
  The width of the histogram's bins. For a range of at least thirty seconds a bin has a whole
  number of seconds, at least one, and the range holds at least thirty and fewer than sixty bins.
\<close>

theorem histogram_bins:
  assumes "computeSeconds now unix rng = Some s" and "30 \<le> s"
  shows "\<exists>w. gb_time (createGroupBy now unix rng) = Some (int_str w @ ''s'') \<and> 1 \<le> w \<and> 30 * w \<le> s \<and> s < 60 * w"
proof -
  let ?w = "s div 30"
  have "1 \<le> ?w" "30 * ?w \<le> s" using assms(2) by linarith+
  moreover from this have "s < 60 * ?w" using assms(2) by presburger
  ultimately have w: "1 \<le> ?w" "30 * ?w \<le> s" "s < 60 * ?w" and "bin_seconds s = ?w" by (simp_all add: bin_seconds_def BIN_COUNT_def)
  then show ?thesis
    using assms(1) w
    by (intro exI[of _ ?w]) (simp add: createGroupBy_def)
qed

theorem histogram_bins_witness:
  "\<exists>w. gb_time (createGroupBy 0 (\<lambda>_. None) \<lparr>lr_upper = None, lr_lower = ''now() - 1m'', lr_seconds = Some 60,
      lr_windowOption = ''1m'', lr_timeOption = ''now''\<rparr>) = Some (int_str w @ ''s'') \<and> 1 \<le> w \<and> 30 * w \<le> 60 \<and> 60 < 60 * w"
  by (rule histogram_bins) (simp_all add: computeSeconds_def truthy_num_def)

end
