(* ===== verification/Dashboard_Types.thy ===== *)
theory Dashboard_Types
  imports InfluxQL Temp_Vars
begin

text \<open>
  Dashboards and their cells: \<open>ui/src/types/dashboards.ts\<close>, \<open>ui/src/types/colors.ts\<close> and the defaults of
  \<open>ui/src/dashboards/constants/index.ts\<close>. Positions, sizes and ids are integers. The links of a
  dashboard and of a cell, and the legend, are only handed on and are left out.
\<close>

section \<open>Parts of a cell\<close>

record axis =
  ax_label :: string
  ax_prefix :: string
  ax_suffix :: string
  ax_base :: string
  ax_scale :: string
  ax_bounds :: "(string \<times> string) option"

record axes =
  axes_x :: axis
  axes_y :: axis
  axes_y2 :: "axis option"

record field_option =
  fo_internalName :: string
  fo_displayName :: "string option"
  fo_visible :: bool

record table_options =
  to_verticalTimeAxis :: bool
  to_sortBy :: field_option
  to_wrapping :: "string option"
  to_fixFirstColumn :: bool

record decimal_places =
  dp_isEnforced :: bool
  dp_digits :: nat

record 'v color =
  co_type :: string
  co_hex :: string
  co_id :: string
  co_name :: string
  co_value :: 'v

datatype cell_type =
    CLine | CStacked | CStepPlot | CBar | CLinePlusSingleStat | CSingleStat | CGauge | CTable | CAlerts | CNews | CGuide

record dash_cell =
  dc_i :: string
  dc_x :: int
  dc_y :: int
  dc_w :: int
  dc_h :: int
  dc_name :: string
  dc_queries :: "cell_query list"
  dc_type :: cell_type
  dc_axes :: "axes option"
  dc_colors :: "string color list"
  dc_tableOptions :: "table_options option"
  dc_fieldOptions :: "field_option list"
  dc_timeFormat :: string
  dc_decimalPlaces :: decimal_places
  dc_inView :: bool

record dashboard =
  da_id :: int
  da_cells :: "dash_cell list"
  da_templates :: "template list"
  da_name :: string
  da_organization :: string

section \<open>Defaults\<close>

definition UNTITLED_GRAPH :: string where "UNTITLED_GRAPH = ''Untitled Graph''"

definition DEFAULT_DECIMAL_PLACES :: decimal_places where
  "DEFAULT_DECIMAL_PLACES = \<lparr>dp_isEnforced = True, dp_digits = 2\<rparr>"

definition DEFAULT_TIME_FIELD :: field_option where
  "DEFAULT_TIME_FIELD = \<lparr>fo_internalName = ''time'', fo_displayName = Some [], fo_visible = True\<rparr>"

definition DEFAULT_TABLE_OPTIONS :: table_options where
  "DEFAULT_TABLE_OPTIONS = \<lparr>to_verticalTimeAxis = True, to_sortBy = DEFAULT_TIME_FIELD, to_wrapping = Some ''truncate'',
     to_fixFirstColumn = True\<rparr>"

definition DEFAULT_TIME_FORMAT :: string where "DEFAULT_TIME_FORMAT = ''MM/DD/YYYY HH:mm:ss''"

definition NEW_DEFAULT_DASHBOARD_CELL :: dash_cell where
  \<comment> \<open>the parts the constant does not have are absent: no id, no axes, no colors\<close>
  "NEW_DEFAULT_DASHBOARD_CELL = \<lparr>dc_i = [], dc_x = 0, dc_y = 0, dc_w = 4, dc_h = 4, dc_name = UNTITLED_GRAPH, dc_queries = [],
     dc_type = CLine, dc_axes = None, dc_colors = [], dc_tableOptions = Some DEFAULT_TABLE_OPTIONS,
     dc_fieldOptions = [DEFAULT_TIME_FIELD], dc_timeFormat = DEFAULT_TIME_FORMAT,
     dc_decimalPlaces = DEFAULT_DECIMAL_PLACES, dc_inView = True\<rparr>"

end
