(* ===== verification/Logs_Config.thy ===== *)
theory Logs_Config
  imports Dashboard_Types
begin

text \<open>
  The column configuration of the log viewer, as the server stores it and as the table uses it:
  \<open>ui/src/logs/utils/config.ts\<close>, with the names of \<open>ui/src/logs/constants/index.ts\<close>. The members of
  the two open-ended enumerations (levels and colors) are the texts they are equal to; looking up an unknown
  member gives undefined.
\<close>

section \<open>Data\<close>

datatype severity_format = FDot | FDotText | FText

definition SEVERITY_LEVELS :: "string list" where
  "SEVERITY_LEVELS = [''emerg'', ''alert'', ''crit'', ''err'', ''warning'', ''notice'', ''info'', ''debug'']"

definition SEVERITY_COLORS :: "string list" where
  "SEVERITY_COLORS = [''ruby'', ''fire'', ''curacao'', ''tiger'', ''pineapple'', ''thunder'', ''sulfur'', ''viridian'',
     ''rainforest'', ''honeydew'', ''ocean'', ''pool'', ''laser'', ''planet'', ''star'', ''comet'', ''graphite'',
     ''wolf'', ''mist'', ''pearl'']"

definition enum_member :: "string list \<Rightarrow> string option \<Rightarrow> string option" where
  \<comment> \<open>\<open>Enum[name]\<close>\<close>
  "enum_member names name = (case name of Some n \<Rightarrow> if n \<in> set names then Some n else None | None \<Rightarrow> None)"

record severity_level_color =
  lc_level :: "string option"
  lc_color :: "string option"

record log_config =
  lg_tableColumns :: "field_option list"
  lg_severityFormat :: "severity_format option"
  lg_severityLevelColors :: "severity_level_color list option"

datatype encoding_type = EVisibility | EDisplay | ELabel | EColor | EOther string

record server_encoding =
  en_type :: encoding_type
  en_value :: "string option"
  en_name :: "string option"

record server_column =
  sc_name :: string
  sc_position :: int
  sc_encodings :: "server_encoding list"

section \<open>From the server\<close>

definition sortColumns :: "server_column list \<Rightarrow> server_column list" where
  "sortColumns columns = sort_key sc_position columns"

definition apply_encoding :: "field_option \<Rightarrow> server_encoding \<Rightarrow> field_option" where
  \<comment> \<open>the callback of the reduce\<close>
  "apply_encoding acc e =
     (if en_type e = EVisibility \<and> en_value e = Some ''visible'' then acc\<lparr>fo_visible := True\<rparr>
      else if en_type e = EDisplay then acc\<lparr>fo_displayName := en_value e\<rparr>
      else acc)"

definition columnServerToUI :: "server_column \<Rightarrow> field_option" where
  "columnServerToUI column =
     (let internalName = sc_name column;
          encodings = foldl apply_encoding
            \<lparr>fo_internalName = internalName, fo_displayName = Some [], fo_visible = False\<rparr> (sc_encodings column)
      in encodings\<lparr>fo_internalName := internalName\<rparr>)"

definition label_flags :: "server_encoding list \<Rightarrow> bool \<times> bool" where
  \<comment> \<open>\<open>hasText\<close> and \<open>hasIcon\<close> after the loop\<close>
  "label_flags encodings = foldl (\<lambda>(hasText, hasIcon) e.
      if en_type e = ELabel
      then (hasText \<or> en_value e = Some ''text'', hasIcon \<or> en_value e = Some ''icon'')
      else (hasText, hasIcon)) (False, False) encodings"

definition getFormatFromColumn :: "server_column \<Rightarrow> severity_format" where
  "getFormatFromColumn column =
     (let (hasText, hasIcon) = label_flags (sc_encodings column)
      in if hasText \<and> hasIcon then FDotText else if hasText then FText else FDot)"

definition getLevelColorsFromColumn :: "server_column \<Rightarrow> severity_level_color list" where
  "getLevelColorsFromColumn column =
     map (\<lambda>c. \<lparr>lc_level = enum_member SEVERITY_LEVELS (en_name c), lc_color = enum_member SEVERITY_COLORS (en_value c)\<rparr>)
       (filter (\<lambda>e. en_type e = EColor) (sc_encodings column))"

definition server_column_step :: "log_config \<Rightarrow> server_column \<Rightarrow> log_config" where
  \<comment> \<open>one call of the callback of \<open>sortedColumns.map\<close>, with the two variables it assigns\<close>
  "server_column_step acc c =
     (let acc = (if sc_name c = ''severity''
                 then acc\<lparr>lg_severityFormat := Some (getFormatFromColumn c),
                          lg_severityLevelColors := Some (getLevelColorsFromColumn c)\<rparr>
                 else acc)
      in acc\<lparr>lg_tableColumns := lg_tableColumns acc @ [columnServerToUI c]\<rparr>)"

definition logConfigServerToUI :: "server_column list \<Rightarrow> log_config option" where
  "logConfigServerToUI columns =
     (if columns = [] then None
      else Some (foldl server_column_step
             \<lparr>lg_tableColumns = [], lg_severityFormat = None, lg_severityLevelColors = None\<rparr> (sortColumns columns)))"

section \<open>To the server\<close>

definition getDisplayAndVisibleEncodings :: "field_option \<Rightarrow> server_encoding list" where
  "getDisplayAndVisibleEncodings tableColumn =
     [if fo_visible tableColumn
      then \<lparr>en_type = EVisibility, en_value = Some ''visible'', en_name = None\<rparr>
      else \<lparr>en_type = EVisibility, en_value = Some ''hidden'', en_name = None\<rparr>] @
     (case fo_displayName tableColumn of
        None \<Rightarrow> []
      | Some n \<Rightarrow> if n = [] then [] else [\<lparr>en_type = EDisplay, en_value = Some n, en_name = None\<rparr>])"

definition label_encoding :: "string \<Rightarrow> server_encoding" where
  "label_encoding v = \<lparr>en_type = ELabel, en_value = Some v, en_name = None\<rparr>"

definition getLabelEncodings :: "severity_format option \<Rightarrow> server_encoding list option" where
  "getLabelEncodings fmt =
     (case fmt of
        Some FDot \<Rightarrow> Some [label_encoding ''icon'']
      | Some FText \<Rightarrow> Some [label_encoding ''text'']
      | Some FDotText \<Rightarrow> Some [label_encoding ''icon'', label_encoding ''text'']
      | None \<Rightarrow> None)"

definition getColorEncodings :: "severity_level_color list option \<Rightarrow> server_encoding list result" where
  "getColorEncodings levelColors =
     map_res (map (\<lambda>l. \<lparr>en_type = EColor, en_value = lc_color l, en_name = lc_level l\<rparr>)) (deref levelColors)"

definition getFullEncodings ::
    "field_option \<Rightarrow> severity_format option \<Rightarrow> severity_level_color list option \<Rightarrow> server_encoding list result" where
  \<comment> \<open>spreading \<open>null\<close> into an array throws\<close>
  "getFullEncodings tableColumn fmt severityLevelColors =
     (let encodings = getDisplayAndVisibleEncodings tableColumn
      in if fo_internalName tableColumn = ''severity''
         then bind_r (deref (getLabelEncodings fmt)) (\<lambda>labels.
              map_res (\<lambda>colors. encodings @ labels @ colors) (getColorEncodings severityLevelColors))
         else Inr encodings)"

definition logConfigUIToServer :: "log_config \<Rightarrow> server_column list result" where
  "logConfigUIToServer config =
     map_r (\<lambda>(i, c). map_res (\<lambda>encodings. \<lparr>sc_name = fo_internalName c, sc_position = int i, sc_encodings = encodings\<rparr>)
         (getFullEncodings c (lg_severityFormat config) (lg_severityLevelColors config)))
       (enumerate 0 (lg_tableColumns config))"

section \<open>The round trip\<close>

definition color_ok :: "severity_level_color \<Rightarrow> bool" where
  "color_ok l = ((\<exists>n. lc_level l = Some n \<and> n \<in> set SEVERITY_LEVELS) \<and> (\<exists>c. lc_color l = Some c \<and> c \<in> set SEVERITY_COLORS))"

definition config_ok :: "log_config \<Rightarrow> bool" where
  \<comment> \<open>a configuration as the table uses it: one severity column, known levels and colors, names that are there\<close>
  "config_ok g = (list_all (\<lambda>c. fo_displayName c \<noteq> None) (lg_tableColumns g) \<and>
     (\<exists>c\<in>set (lg_tableColumns g). fo_internalName c = ''severity'') \<and>
     lg_severityFormat g \<noteq> None \<and>
     (\<exists>ls. lg_severityLevelColors g = Some ls \<and> list_all color_ok ls))"

definition full_encodings :: "field_option \<Rightarrow> severity_format \<Rightarrow> severity_level_color list \<Rightarrow> server_encoding list" where
  \<comment> \<open>the value of \<open>getFullEncodings\<close> where the format and the colors are there\<close>
  "full_encodings c f ls = getDisplayAndVisibleEncodings c @
     (if fo_internalName c = ''severity''
      then the (getLabelEncodings (Some f)) @ map (\<lambda>l. \<lparr>en_type = EColor, en_value = lc_color l, en_name = lc_level l\<rparr>) ls
      else [])"

lemma getFullEncodings_full: "getFullEncodings c (Some f) (Some ls) = Inr (full_encodings c f ls)"
  by (cases f) (simp_all add: getFullEncodings_def full_encodings_def getLabelEncodings_def getColorEncodings_def Let_def)

definition severity_encodings :: "severity_format \<Rightarrow> severity_level_color list \<Rightarrow> server_encoding list" where
  "severity_encodings f ls = the (getLabelEncodings (Some f)) @
     map (\<lambda>l. \<lparr>en_type = EColor, en_value = lc_color l, en_name = lc_level l\<rparr>) ls"

lemma full_encodings_alt:
  "full_encodings c f ls = getDisplayAndVisibleEncodings c @ (if fo_internalName c = ''severity'' then severity_encodings f ls else [])"
  by (simp add: full_encodings_def severity_encodings_def)

lemma fold_display_other:
  "list_all (\<lambda>e. en_type e \<noteq> EVisibility \<and> en_type e \<noteq> EDisplay) es \<Longrightarrow> foldl apply_encoding a es = a"
  by (induction es) (simp_all add: apply_encoding_def)

lemma severity_encodings_other:
  "list_all (\<lambda>e. en_type e \<noteq> EVisibility \<and> en_type e \<noteq> EDisplay) (severity_encodings f ls)"
  by (cases f) (simp_all add: severity_encodings_def getLabelEncodings_def label_encoding_def list_all_iff)

lemma display_roundtrip:
  assumes "fo_displayName c = Some n"
  shows "foldl apply_encoding \<lparr>fo_internalName = fo_internalName c, fo_displayName = Some [], fo_visible = False\<rparr>
    (getDisplayAndVisibleEncodings c) = c"
  by (cases "n = []") (simp_all add: getDisplayAndVisibleEncodings_def assms apply_encoding_def)

lemma column_roundtrip:
  assumes "fo_displayName c \<noteq> None"
  shows "columnServerToUI \<lparr>sc_name = fo_internalName c, sc_position = i, sc_encodings = full_encodings c f ls\<rparr> = c"
proof -
  obtain n where n: "fo_displayName c = Some n" using assms by blast
  have "foldl apply_encoding \<lparr>fo_internalName = fo_internalName c, fo_displayName = Some [], fo_visible = False\<rparr>
      (full_encodings c f ls) = c"
    unfolding full_encodings_alt foldl_append display_roundtrip[OF n]
    using fold_display_other[OF severity_encodings_other[of f ls]] by simp
  then show ?thesis by (simp add: columnServerToUI_def)
qed

lemma label_flags_display: "label_flags (getDisplayAndVisibleEncodings c @ es) = label_flags es"
  by (simp add: label_flags_def getDisplayAndVisibleEncodings_def split: option.split)

lemma label_flags_colors:
  "foldl (\<lambda>(hasText, hasIcon) e. if en_type e = ELabel
      then (hasText \<or> en_value e = Some ''text'', hasIcon \<or> en_value e = Some ''icon'') else (hasText, hasIcon)) a
     (map (\<lambda>l. \<lparr>en_type = EColor, en_value = lc_color l, en_name = lc_level l\<rparr>) ls) = a"
  by (induction ls arbitrary: a) auto

lemma format_roundtrip:
  assumes "fo_internalName c = ''severity''"
  shows "getFormatFromColumn \<lparr>sc_name = nm, sc_position = i, sc_encodings = full_encodings c f ls\<rparr> = f"
proof -
  have "label_flags (severity_encodings f ls) = (f = FText \<or> f = FDotText, f = FDot \<or> f = FDotText)"
    unfolding label_flags_def severity_encodings_def foldl_append label_flags_colors
    by (cases f) (simp_all add: getLabelEncodings_def label_encoding_def)
  then show ?thesis
    by (cases f) (simp_all add: getFormatFromColumn_def full_encodings_alt assms label_flags_display)
qed

lemma colors_roundtrip:
  assumes "fo_internalName c = ''severity''" and "list_all color_ok ls"
  shows "getLevelColorsFromColumn \<lparr>sc_name = nm, sc_position = i, sc_encodings = full_encodings c f ls\<rparr> = ls"
proof -
  have "filter (\<lambda>e. en_type e = EColor) (full_encodings c f ls) =
      map (\<lambda>l. \<lparr>en_type = EColor, en_value = lc_color l, en_name = lc_level l\<rparr>) ls"
    by (cases f; cases "fo_displayName c")
       (simp_all add: full_encodings_alt assms(1) severity_encodings_def getLabelEncodings_def label_encoding_def
          getDisplayAndVisibleEncodings_def filter_map o_def)
  moreover have "\<lparr>lc_level = enum_member SEVERITY_LEVELS (lc_level l), lc_color = enum_member SEVERITY_COLORS (lc_color l)\<rparr> = l"
    if "l \<in> set ls" for l
    using that assms(2) by (auto simp: list_all_iff color_ok_def enum_member_def)
  ultimately show ?thesis
    by (simp add: getLevelColorsFromColumn_def o_def map_idI)
qed

definition sent_column :: "severity_format \<Rightarrow> severity_level_color list \<Rightarrow> nat \<times> field_option \<Rightarrow> server_column" where
  "sent_column f ls p =
     \<lparr>sc_name = fo_internalName (snd p), sc_position = int (fst p), sc_encodings = full_encodings (snd p) f ls\<rparr>"

lemma sent_columns_sorted: "sortColumns (map (sent_column f ls) (enumerate n cs)) = map (sent_column f ls) (enumerate n cs)"
proof -
  have "map (\<lambda>p. int (fst p)) (enumerate n cs) = map int [n..<n + length cs]"
    by (simp only: map_fst_enumerate[symmetric] map_map o_def)
  moreover have "sorted (map int [n..<n + length cs])" by (simp add: sorted_map)
  ultimately have "sorted (map (\<lambda>p. int (fst p)) (enumerate n cs))" by simp
  then show ?thesis
    by (simp add: sortColumns_def sort_key_id_if_sorted sent_column_def o_def)
qed

lemma fold_sent_columns:
  assumes "list_all (\<lambda>c. fo_displayName c \<noteq> None) cs" and "list_all color_ok ls"
  shows "foldl server_column_step acc (map (sent_column f ls) (enumerate n cs)) =
    (if \<exists>c\<in>set cs. fo_internalName c = ''severity''
     then acc\<lparr>lg_tableColumns := lg_tableColumns acc @ cs, lg_severityFormat := Some f, lg_severityLevelColors := Some ls\<rparr>
     else acc\<lparr>lg_tableColumns := lg_tableColumns acc @ cs\<rparr>)"
  using assms(1)
proof (induction cs arbitrary: n acc)
  case (Cons c cs)
  then have "columnServerToUI (sent_column f ls (n, c)) = c"
    by (simp add: sent_column_def column_roundtrip)
  moreover have "fo_internalName c = ''severity'' \<Longrightarrow> getFormatFromColumn (sent_column f ls (n, c)) = f \<and>
      getLevelColorsFromColumn (sent_column f ls (n, c)) = ls"
    by (simp add: sent_column_def format_roundtrip colors_roundtrip assms(2))
  ultimately have "server_column_step acc (sent_column f ls (n, c)) =
      (if fo_internalName c = ''severity''
       then acc\<lparr>lg_tableColumns := lg_tableColumns acc @ [c], lg_severityFormat := Some f, lg_severityLevelColors := Some ls\<rparr>
       else acc\<lparr>lg_tableColumns := lg_tableColumns acc @ [c]\<rparr>)"
    by (simp add: server_column_step_def Let_def) (simp add: sent_column_def)
  then show ?case using Cons by (simp add: enumerate_simps)
qed simp

text \<open>
  Storing a column configuration. A configuration with a severity column, a format, known
  levels and colors, and display names is written to the server without an exception and is read
  back exactly as it was, the order of the columns, the names, the visibility, the format and the colors.
\<close>

theorem log_config_roundtrip:
  assumes "config_ok g"
  shows "\<exists>cs. logConfigUIToServer g = Inr cs \<and> logConfigServerToUI cs = Some g"
proof -
  obtain f ls where f: "lg_severityFormat g = Some f" and ls: "lg_severityLevelColors g = Some ls" "list_all color_ok ls"
    using assms by (auto simp: config_ok_def)
  let ?cs = "map (sent_column f ls) (enumerate 0 (lg_tableColumns g))"
  have "logConfigUIToServer g = Inr ?cs"
    unfolding logConfigUIToServer_def f ls(1)
    by (rule map_r_pure) (auto simp: getFullEncodings_full sent_column_def)
  moreover have "?cs \<noteq> []" using assms by (auto simp: config_ok_def enumerate_eq_zip)
  moreover have "foldl server_column_step \<lparr>lg_tableColumns = [], lg_severityFormat = None, lg_severityLevelColors = None\<rparr> ?cs = g"
    using assms fold_sent_columns[of "lg_tableColumns g" ls] ls by (simp add: config_ok_def f)
  ultimately show ?thesis by (simp add: logConfigServerToUI_def sent_columns_sorted)
qed

definition two_columns :: log_config where
  "two_columns = \<lparr>lg_tableColumns =
       [\<lparr>fo_internalName = ''severity'', fo_displayName = Some [], fo_visible = True\<rparr>,
        \<lparr>fo_internalName = ''message'', fo_displayName = Some ''text'', fo_visible = False\<rparr>],
     lg_severityFormat = Some FDotText,
     lg_severityLevelColors = Some [\<lparr>lc_level = Some ''alert'', lc_color = Some ''pearl''\<rparr>]\<rparr>"

theorem log_config_roundtrip_witness:
  "\<exists>cs. logConfigUIToServer two_columns = Inr cs \<and> logConfigServerToUI cs = Some two_columns"
  by (rule log_config_roundtrip) (simp add: config_ok_def two_columns_def color_ok_def SEVERITY_LEVELS_def SEVERITY_COLORS_def)

end
