(* ===== verification/Sources.thy ===== *)
theory Sources
  imports Store_Prelude
begin

text \<open>
  The sources and services of the user: the types of \<open>ui/src/types/sources.ts\<close>, \<open>services.ts\<close> and
  \<open>kapacitor.ts\<close>, the actions and asynchronous action creators of \<open>ui/src/shared/actions/sources.ts\<close> and
  \<open>services.ts\<close> and the reducers \<open>ui/src/shared/reducers/sources.ts\<close> and \<open>services.ts\<close>. The reducers
  assign to properties of the old state's objects in places; states are values here, so only the returned state is modelled.
\<close>

section \<open>Data\<close>

record kapacitor =
  ka_id :: "string option"
  ka_url :: string
  ka_name :: string
  ka_username :: "string option"
  ka_password :: "string option"
  ka_active :: bool
  ka_insecureSkipVerify :: bool
  ka_self :: string

record service =
  sv_id :: "string option"
  sv_sourceID :: string
  sv_url :: string
  sv_name :: string
  sv_type :: string
  sv_username :: "string option"
  sv_password :: "string option"
  sv_insecureSkipVerify :: bool
  sv_active :: "bool option" \<comment> \<open>\<open>metadata.active\<close>\<close>
  sv_self :: string

record source =
  so_id :: string
  so_name :: string
  so_type :: string
  so_url :: string
  so_default :: bool
  so_telegraf :: string
  so_organization :: string
  so_defaultRP :: string
  so_proxy :: "string option" \<comment> \<open>\<open>links.proxy\<close>\<close>
  so_services_link :: string
  so_kapacitors :: "kapacitor list option"

datatype source_action =
    LoadSources "source list"
  | UpdateSource source
  | AddSource source
  | FetchKapacitors source "kapacitor list"
  | SetActiveKapacitor kapacitor
  | DeleteKapacitor kapacitor

datatype service_action =
    LoadServices "service list"
  | AddService service
  | DeleteService service
  | UpdateService service
  | SetActiveService source service

section \<open>The reducers\<close>

definition clear_default :: "source \<Rightarrow> source" where
  "clear_default s = s\<lparr>so_default := False\<rparr>"

definition set_at :: "nat option \<Rightarrow> 'a \<Rightarrow> 'a list \<Rightarrow> 'a list" where
  \<comment> \<open>\<open>xs[i] = x\<close> with an index from \<open>findIndex\<close>: at -1 it is no element of the array\<close>
  "set_at i x xs = (case i of None \<Rightarrow> xs | Some j \<Rightarrow> xs[j := x])"

definition splice_first :: "('a \<Rightarrow> bool) \<Rightarrow> 'a list \<Rightarrow> 'a list" where
  \<comment> \<open>\<open>splice(findIndex(P), 1)\<close>\<close>
  "splice_first P xs = (case find_index P xs of None \<Rightarrow> xs | Some i \<Rightarrow> take i xs @ drop (Suc i) xs)"

definition sourcesReducer :: "source list \<Rightarrow> source_action \<Rightarrow> source list result" where
  "sourcesReducer st action =
     (case action of
        LoadSources sources \<Rightarrow> Inr sources
      | UpdateSource s \<Rightarrow>
          let updatedIndex = find_index (\<lambda>x. so_id x = so_id s) st;
              updatedSources = (if so_default s then map clear_default st else st)
          in Inr (set_at updatedIndex s updatedSources)
      | AddSource s \<Rightarrow>
          let updatedSources = (if so_default s then map clear_default st else st)
          in Inr (updatedSources @ [s])
      | FetchKapacitors s kapacitors \<Rightarrow>
          Inr (case find_index (\<lambda>x. so_id x = so_id s) st of
                 None \<Rightarrow> st
               | Some i \<Rightarrow> st[i := (st ! i)\<lparr>so_kapacitors := Some kapacitors\<rparr>])
      | SetActiveKapacitor k \<Rightarrow>
          map_r (\<lambda>s. map_res (\<lambda>ks. s\<lparr>so_kapacitors := Some (map (\<lambda>x. x\<lparr>ka_active := (ka_id x = ka_id k)\<rparr>) ks)\<rparr>)
            (deref (so_kapacitors s))) st
      | DeleteKapacitor k \<Rightarrow>
          Inr (map (\<lambda>s. s\<lparr>so_kapacitors := map_option (splice_first (\<lambda>x. ka_id x = ka_id k)) (so_kapacitors s)\<rparr>) st))"

definition merge_service :: "service \<Rightarrow> service \<Rightarrow> service" where
  \<comment> \<open>\<open>{...s, ...service}\<close>: an optional property the second object does not have keeps its value\<close>
  "merge_service s new = new\<lparr>sv_id := or_else (sv_id new) (sv_id s), sv_username := or_else (sv_username new) (sv_username s),
     sv_password := or_else (sv_password new) (sv_password s)\<rparr>"

definition servicesReducer :: "service list \<Rightarrow> service_action \<Rightarrow> service list" where
  "servicesReducer st action =
     (case action of
        LoadServices services \<Rightarrow> services
      | AddService s \<Rightarrow> st @ [s]
      | DeleteService d \<Rightarrow> filter (\<lambda>s. sv_id s \<noteq> sv_id d) st
      | UpdateService new \<Rightarrow> map (\<lambda>s. if sv_id s = sv_id new then merge_service s new else s) st
      | SetActiveService src service \<Rightarrow>
          let otherServices = filter (\<lambda>s. sv_sourceID s \<noteq> so_id src) st;
              currentServices = filter (\<lambda>s. sv_sourceID s = so_id src) st;
              updatedServices = map (\<lambda>s. s\<lparr>sv_active := Some (sv_id s = sv_id service)\<rparr>) currentServices
          in otherServices @ updatedServices)"

section \<open>Asynchronous actions\<close>

datatype shared_dispatch =
    DSource source_action
  | DService service_action
  | DNotify string
  | DErrorThrown http_error
  | DConsole

definition HTTP_NOT_FOUND :: int where "HTTP_NOT_FOUND = 404"

definition load_answer :: "source list answer \<Rightarrow> shared_dispatch list" where
  "load_answer sources = (case sources of Inl _ \<Rightarrow> [DNotify ''notifyServerError''] | Inr ss \<Rightarrow> [DSource (LoadSources ss)])"

definition removeAndLoadSources :: "unit answer \<Rightarrow> source list answer \<Rightarrow> shared_dispatch list" where
  \<comment> \<open>the answers of \<open>deleteSource\<close> and \<open>getSources\<close>\<close>
  "removeAndLoadSources del sources =
     (case del of
        Inl (Http_Error status _) \<Rightarrow>
          if status \<noteq> HTTP_NOT_FOUND then [DNotify ''notifyServerError''] else load_answer sources
      | Inr _ \<Rightarrow> load_answer sources)"

definition fetchKapacitorsAsync :: "source \<Rightarrow> kapacitor list answer \<Rightarrow> shared_dispatch list" where
  "fetchKapacitorsAsync s ks =
     (case ks of Inl _ \<Rightarrow> [DNotify ''notifyCouldNotRetrieveKapacitors''] | Inr kapacitors \<Rightarrow> [DSource (FetchKapacitors s kapacitors)])"

definition setActiveKapacitorAsync :: "kapacitor \<Rightarrow> shared_dispatch list \<times> kapacitor" where
  \<comment> \<open>what is dispatched, whatever the server says, and what is put to the server\<close>
  "setActiveKapacitorAsync k = ([DSource (SetActiveKapacitor k)], k\<lparr>ka_active := True\<rparr>)"

definition deleteKapacitorAsync :: "kapacitor \<Rightarrow> unit answer \<Rightarrow> shared_dispatch list" where
  "deleteKapacitorAsync k a =
     (case a of Inl _ \<Rightarrow> [DNotify ''notifyCouldNotDeleteKapacitor''] | Inr _ \<Rightarrow> [DSource (DeleteKapacitor k)])"

definition getSourcesAsync :: "source list answer \<Rightarrow> shared_dispatch list" where
  "getSourcesAsync a = (case a of Inl e \<Rightarrow> [DErrorThrown e] | Inr ss \<Rightarrow> [DSource (LoadSources ss)])"

definition setActiveServiceAsync ::
    "source \<Rightarrow> service \<Rightarrow> service option \<Rightarrow> unit answer \<Rightarrow> unit answer \<Rightarrow> shared_dispatch list \<times> service list" where
  \<comment> \<open>the answers to the one or two updates; the result has the services that are put, in order\<close>
  "setActiveServiceAsync src activeService prevActiveService a1 a2 =
     (let active = activeService\<lparr>sv_active := Some True\<rparr>
      in case a1 of
           Inl _ \<Rightarrow> ([DConsole], [active])
         | Inr _ \<Rightarrow>
             (case prevActiveService of
                None \<Rightarrow> ([DService (SetActiveService src active)], [active])
              | Some p \<Rightarrow>
                  let prev = p\<lparr>sv_active := Some False\<rparr>
                  in (case a2 of
                        Inl _ \<Rightarrow> ([DConsole], [active, prev])
                      | Inr _ \<Rightarrow> ([DService (SetActiveService src active)], [active, prev]))))"

definition is_flux :: "service \<Rightarrow> bool" where
  "is_flux s = (sv_type s = ''flux'')"

definition reduce_services :: "service list list \<Rightarrow> service list result" where
  \<comment> \<open>\<open>reduce\<close> with no initial value: it starts from the first element and throws for an empty array\<close>
  "reduce_services xss =
     (case xss of [] \<Rightarrow> Inl TypeError | x # xs \<Rightarrow> Inr (foldl (\<lambda>acc cur. acc @ filter is_flux cur) x xs))"

definition all_answers :: "'a answer list \<Rightarrow> 'a list answer" where
  \<comment> \<open>\<open>Promise.all\<close>; the error is one of those there are, here the first in the list\<close>
  "all_answers as = foldr (\<lambda>a acc. case a of Inl e \<Rightarrow> Inl e | Inr x \<Rightarrow> (case acc of Inl e \<Rightarrow> Inl e | Inr xs \<Rightarrow> Inr (x # xs))) as (Inr [])"

definition fetchAllFluxServicesAsync :: "service list answer list \<Rightarrow> shared_dispatch list" where
  \<comment> \<open>the answer for each source; \<open>return getServicesAJAX(..)\<close> is not awaited inside its own try\<close>
  "fetchAllFluxServicesAsync answers =
     (case all_answers answers of
        Inl _ \<Rightarrow> [DConsole, DNotify ''couldNotGetServices'']
      | Inr sourceServices \<Rightarrow>
          (case reduce_services sourceServices of
             Inl _ \<Rightarrow> [DConsole, DNotify ''couldNotGetServices'']
           | Inr flat \<Rightarrow> [DService (LoadServices flat)]))"

definition fetchFluxServicesForSourceAsync :: "service list answer \<Rightarrow> shared_dispatch list" where
  "fetchFluxServicesForSourceAsync a =
     (case a of Inl _ \<Rightarrow> [DConsole, DNotify ''couldNotGetServices''] | Inr ss \<Rightarrow> [DService (LoadServices (filter is_flux ss))])"

definition createServiceAsync :: "service answer \<Rightarrow> shared_dispatch list" where
  "createServiceAsync a = (case a of Inl _ \<Rightarrow> [DConsole] | Inr s \<Rightarrow> [DService (AddService s)])"

definition updateServiceAsync :: "service answer \<Rightarrow> shared_dispatch list" where
  "updateServiceAsync a = (case a of Inl _ \<Rightarrow> [DConsole] | Inr s \<Rightarrow> [DService (UpdateService s)])"

definition deleteServiceAsync :: "service \<Rightarrow> unit answer \<Rightarrow> shared_dispatch list" where
  "deleteServiceAsync s a = (case a of Inl _ \<Rightarrow> [DConsole] | Inr _ \<Rightarrow> [DService (DeleteService s)])"

section \<open>The sources: one default\<close>

definition ids :: "source list \<Rightarrow> string list" where
  "ids st = map so_id st"

definition sources_ok :: "source list \<Rightarrow> bool" where
  "sources_ok st = (distinct (ids st) \<and> length (filter so_default st) \<le> 1)"

definition source_action_ok :: "source list \<Rightarrow> source_action \<Rightarrow> bool" where
  \<comment> \<open>what the callers provide: a list from the server is well formed, an added source is new, and
    a kapacitor is activated once the kapacitors of every source are loaded\<close>
  "source_action_ok st a =
     (case a of
        LoadSources ss \<Rightarrow> sources_ok ss
      | AddSource s \<Rightarrow> so_id s \<notin> set (ids st)
      | SetActiveKapacitor _ \<Rightarrow> list_all (\<lambda>s. so_kapacitors s \<noteq> None) st
      | _ \<Rightarrow> True)"

lemma clear_default_simps [simp]: "so_id (clear_default s) = so_id s" "\<not> so_default (clear_default s)"
  by (simp_all add: clear_default_def)

lemma no_default_cleared: "filter so_default (map clear_default st) = []"
  by (simp add: filter_map o_def)

lemma ids_cleared [simp]: "ids (map clear_default st) = ids st"
  by (simp add: ids_def o_def)

lemma default_update_le:
  "i < length st \<Longrightarrow> length (filter so_default (st[i := s])) \<le>
     length (filter so_default st) + (if so_default s \<and> \<not> so_default (st ! i) then 1 else 0)"
proof (induction st arbitrary: i)
  case (Cons x st)
  show ?case
  proof (cases i)
    case (Suc j)
    then show ?thesis using Cons.IH[of j] Cons.prems by auto
  qed auto
qed simp

lemma default_update_only: "i < length st \<Longrightarrow> filter so_default st = [] \<Longrightarrow> so_default s \<Longrightarrow> filter so_default (st[i := s]) = [s]"
proof (induction st arbitrary: i)
  case (Cons x st)
  then show ?case by (cases i) (auto split: if_splits)
qed simp

lemma ids_update: "i < length st \<Longrightarrow> so_id s = so_id (st ! i) \<Longrightarrow> ids (st[i := s]) = ids st"
  by (metis ids_def list_update_id map_update)

lemma found_source:
  assumes "find_index (\<lambda>x. so_id x = so_id s) st = Some i"
  shows "i < length st" "so_id (st ! i) = so_id s"
  using find_index_Some[OF assms] by auto

lemma kapacitors_map_keeps:
  assumes "\<And>s. so_id (f s) = so_id s" "\<And>s. so_default (f s) = so_default s" "sources_ok st"
  shows "sources_ok (map f st)"
  using assms by (simp add: sources_ok_def ids_def o_def filter_map)

lemma map_deref_kapacitors:
  assumes "list_all (\<lambda>s. so_kapacitors s \<noteq> None) st"
  shows "map_r (\<lambda>s. map_res (\<lambda>ks. s\<lparr>so_kapacitors := Some (f ks)\<rparr>) (deref (so_kapacitors s))) st =
    Inr (map (\<lambda>s. s\<lparr>so_kapacitors := Some (f (the (so_kapacitors s)))\<rparr>) st)"
  using assms by (intro map_r_pure) (auto simp: list_all_iff)

definition default_after_update :: "source list \<Rightarrow> source \<Rightarrow> source list \<Rightarrow> bool" where
  \<comment> \<open>what an update does: a stored source is replaced, and a default one becomes the only default\<close>
  "default_after_update st s st' =
     (if so_id s \<in> set (ids st)
      then s \<in> set st' \<and> (so_default s \<longrightarrow> filter so_default st' = [s])
      else ids st' = ids st \<and> s \<notin> set st' \<and> (so_default s \<longrightarrow> filter so_default st' = []))"

lemma update_source:
  assumes "sources_ok st"
  shows "\<exists>st'. sourcesReducer st (UpdateSource s) = Inr st' \<and> sources_ok st' \<and> default_after_update st s st'"
proof (cases "find_index (\<lambda>x. so_id x = so_id s) st")
  case None
  then have new: "so_id s \<notin> set (ids st)" by (auto simp: find_index_None ids_def)
  let ?st' = "if so_default s then map clear_default st else st"
  have "s \<notin> set ?st'" using new by (auto simp: ids_def)
  moreover have "sources_ok ?st'" using assms by (simp add: sources_ok_def no_default_cleared)
  moreover have "sourcesReducer st (UpdateSource s) = Inr ?st'" by (simp add: sourcesReducer_def None set_at_def)
  moreover have "so_default s \<Longrightarrow> filter so_default ?st' = []" by (simp only: no_default_cleared if_True)
  ultimately show ?thesis using new by (simp add: default_after_update_def)
next
  case (Some i)
  note i = found_source[OF Some]
  let ?st = "if so_default s then map clear_default st else st"
  let ?st' = "?st[i := s]"
  have at: "i < length ?st" "so_id s = so_id (?st ! i)" using i by auto
  have "ids ?st' = ids st" using ids_update[OF at] by simp
  moreover have only: "so_default s \<Longrightarrow> filter so_default ?st' = [s]"
    using default_update_only[OF at(1)] no_default_cleared[of st] by simp
  moreover have "length (filter so_default ?st') \<le> 1"
    using only default_update_le[OF i(1), of s] assms by (cases "so_default s") (auto simp: sources_ok_def)
  moreover have "so_id (st ! i) \<in> set (ids st)" using i(1) by (simp add: ids_def)
  then have "so_id s \<in> set (ids st)" using i(2) by simp
  moreover have "s \<in> set ?st'" using at(1) by (rule set_update_memI)
  ultimately show ?thesis using assms
    by (intro exI[of _ ?st']) (simp add: sourcesReducer_def Some set_at_def sources_ok_def default_after_update_def)
qed

lemma other_source_actions:
  assumes "sources_ok st" "source_action_ok st a" "\<nexists>s. a = UpdateSource s"
  shows "\<exists>st'. sourcesReducer st a = Inr st' \<and> sources_ok st'"
proof (cases a)
  case (LoadSources ss)
  then show ?thesis using assms by (simp add: sourcesReducer_def source_action_ok_def)
next
  case (AddSource s)
  then show ?thesis using assms
    by (auto simp: sourcesReducer_def source_action_ok_def sources_ok_def ids_def o_def no_default_cleared)
next
  case (FetchKapacitors s ks)
  show ?thesis
  proof (cases "find_index (\<lambda>x. so_id x = so_id s) st")
    case None
    then show ?thesis using assms(1) FetchKapacitors by (simp add: sourcesReducer_def)
  next
    case (Some i)
    let ?s = "(st ! i)\<lparr>so_kapacitors := Some ks\<rparr>"
    have "i < length st" using found_source[OF Some] by simp
    then have "sources_ok (st[i := ?s])"
      using assms(1) default_update_le[of i st ?s] ids_update[of i st ?s] by (simp add: sources_ok_def)
    then show ?thesis using FetchKapacitors Some by (simp add: sourcesReducer_def)
  qed
next
  case (SetActiveKapacitor k)
  then have "list_all (\<lambda>s. so_kapacitors s \<noteq> None) st" using assms(2) by (simp add: source_action_ok_def)
  then show ?thesis using SetActiveKapacitor assms(1)
    by (simp add: sourcesReducer_def map_deref_kapacitors) (rule kapacitors_map_keeps, simp_all)
next
  case (DeleteKapacitor k)
  then show ?thesis using assms(1) by (simp add: sourcesReducer_def) (rule kapacitors_map_keeps, simp_all)
next
  case (UpdateSource s)
  then show ?thesis using assms(3) by simp
qed

text \<open>
  C17: The list of sources. Every action on a well-formed list returns a well-formed list: ids are
  distinct and at most one source is the default. Updating a stored source replaces it and, if it is
  the default, makes it the only default. Updating a default source that is not in the list
  stores nothing and leaves no default at all.
\<close>

theorem sourcesReducer_keeps:
  assumes "sources_ok st" and "source_action_ok st a"
  shows "\<exists>st'. sourcesReducer st a = Inr st' \<and> sources_ok st' \<and>
    (\<forall>s. a = UpdateSource s \<longrightarrow> default_after_update st s st')"
proof (cases "\<exists>s. a = UpdateSource s")
  case True
  then show ?thesis using update_source[OF assms(1)] by auto
next
  case False
  then show ?thesis using other_source_actions[OF assms] by auto
qed

definition local_source :: "string \<Rightarrow> bool \<Rightarrow> source" where
  "local_source i d = \<lparr>so_id = i, so_name = ''Local'', so_type = ''influx'', so_url = ''http://localhost:8086'', so_default = d,
     so_telegraf = ''telegraf'', so_organization = ''default'', so_defaultRP = [], so_proxy = Some ''/proxy'',
     so_services_link = ''/services'', so_kapacitors = None\<rparr>"

theorem sourcesReducer_keeps_witness:
  "\<exists>st'. sourcesReducer [local_source ''1'' True, local_source ''2'' False] (UpdateSource (local_source ''2'' True)) = Inr st' \<and>
     filter so_default st' = [local_source ''2'' True]"
proof -
  have 1: "sources_ok [local_source ''1'' True, local_source ''2'' False]" by code_simp
  have 2: "source_action_ok [local_source ''1'' True, local_source ''2'' False] (UpdateSource (local_source ''2'' True))"
    by (simp add: source_action_ok_def)
  have 3: "so_id (local_source ''2'' True) \<in> set (ids [local_source ''1'' True, local_source ''2'' False])"
    "so_default (local_source ''2'' True)" by code_simp+
  show ?thesis using sourcesReducer_keeps[OF 1 2] 3 by (auto simp: default_after_update_def)
qed

section \<open>The services: a map from ids\<close>

definition service_spec :: "(string option \<Rightarrow> service option) \<Rightarrow> service_action \<Rightarrow> string option \<Rightarrow> service option" where
  \<comment> \<open>what an action does to the services by id\<close>
  "service_spec m a =
     (case a of
        LoadServices ss \<Rightarrow> entries_map sv_id ss
      | AddService s \<Rightarrow> m(sv_id s \<mapsto> s)
      | DeleteService d \<Rightarrow> m(sv_id d := None)
      | UpdateService n \<Rightarrow> (case m (sv_id n) of None \<Rightarrow> m | Some s \<Rightarrow> m(sv_id n \<mapsto> merge_service s n))
      | SetActiveService src sv \<Rightarrow>
          (\<lambda>i. map_option (\<lambda>s. if sv_sourceID s = so_id src then s\<lparr>sv_active := Some (i = sv_id sv)\<rparr> else s) (m i)))"

definition services_inv :: "service list \<Rightarrow> bool" where
  "services_inv st = distinct (map sv_id st)"

definition service_action_ok :: "service list \<Rightarrow> service_action \<Rightarrow> bool" where
  "service_action_ok st a =
     (case a of
        LoadServices ss \<Rightarrow> distinct (map sv_id ss)
      | AddService s \<Rightarrow> sv_id s \<notin> sv_id ` set st
      | _ \<Rightarrow> True)"

lemma merge_service_id: "sv_id s = sv_id n \<Longrightarrow> sv_id (merge_service s n) = sv_id s"
  by (simp add: merge_service_def or_else_def split: option.split)

definition put_service :: "service \<Rightarrow> service \<Rightarrow> service" where
  "put_service n s = (if sv_id s = sv_id n then merge_service s n else s)"

lemma put_service_id: "sv_id (put_service n s) = sv_id s"
  by (simp add: put_service_def merge_service_id)

definition mark_active :: "source \<Rightarrow> service \<Rightarrow> service \<Rightarrow> service" where
  "mark_active src sv s = (if sv_sourceID s = so_id src then s\<lparr>sv_active := Some (sv_id s = sv_id sv)\<rparr> else s)"

lemma mark_active_id: "sv_id (mark_active src sv s) = sv_id s"
  by (simp add: mark_active_def)

lemma set_active_list:
  "servicesReducer st (SetActiveService src sv) =
     map (mark_active src sv) (filter (\<lambda>s. sv_sourceID s \<noteq> so_id src) st @ filter (\<lambda>s. sv_sourceID s = so_id src) st)"
proof -
  have "map (mark_active src sv) (filter (\<lambda>s. sv_sourceID s \<noteq> so_id src) st) = filter (\<lambda>s. sv_sourceID s \<noteq> so_id src) st"
    by (rule map_idI) (simp add: mark_active_def)
  moreover have "map (mark_active src sv) (filter (\<lambda>s. sv_sourceID s = so_id src) st) =
      map (\<lambda>s. s\<lparr>sv_active := Some (sv_id s = sv_id sv)\<rparr>) (filter (\<lambda>s. sv_sourceID s = so_id src) st)"
    by (rule map_cong) (simp_all add: mark_active_def)
  ultimately show ?thesis by (simp add: servicesReducer_def Let_def)
qed

lemma entries_map_partition:
  assumes "distinct (map key xs)"
  shows "entries_map key (filter (\<lambda>x. \<not> P x) xs @ filter P xs) = entries_map key xs"
    and "distinct (map key (filter (\<lambda>x. \<not> P x) xs @ filter P xs))"
proof -
  show d: "distinct (map key (filter (\<lambda>x. \<not> P x) xs @ filter P xs))"
    using assms by (auto simp: distinct_map_filter distinct_map inj_on_def)
  show "entries_map key (filter (\<lambda>x. \<not> P x) xs @ filter P xs) = entries_map key xs"
  proof (rule ext)
    fix k
    have "entries_map key (filter (\<lambda>x. \<not> P x) xs @ filter P xs) k = Some x \<longleftrightarrow> entries_map key xs k = Some x" for x
      unfolding entries_map_mem[OF d] entries_map_mem[OF assms] by auto
    then show "entries_map key (filter (\<lambda>x. \<not> P x) xs @ filter P xs) k = entries_map key xs k"
      by (cases "entries_map key xs k") (metis not_None_eq)+
  qed
qed

lemma services_keep: "services_inv st \<Longrightarrow> service_action_ok st a \<Longrightarrow> services_inv (servicesReducer st a)"
proof (cases a)
  case (SetActiveService src sv)
  assume "services_inv st"
  then show ?thesis
    using entries_map_partition(2)[of sv_id st "\<lambda>s. sv_sourceID s = so_id src"]
    unfolding SetActiveService set_active_list services_inv_def by (simp add: o_def mark_active_id)
next
  case (UpdateService n)
  assume "services_inv st"
  then show ?thesis
    by (simp add: services_inv_def servicesReducer_def UpdateService o_def put_service_def[symmetric] put_service_id)
qed (auto simp: services_inv_def service_action_ok_def servicesReducer_def distinct_map_filter)

lemma service_refines:
  assumes "services_inv st" and "service_action_ok st a"
  shows "entries_map sv_id (servicesReducer st a) = service_spec (entries_map sv_id st) a"
proof (cases a)
  case (AddService s)
  then show ?thesis using assms(2)
    by (simp add: servicesReducer_def service_spec_def service_action_ok_def entries_map_snoc_fresh)
next
  case (UpdateService n)
  have "entries_map sv_id (map (put_service n) st) k = map_option (put_service n) (entries_map sv_id st k)" for k
    by (rule entries_map_map) (rule put_service_id)
  moreover have "entries_map sv_id st k = Some s \<Longrightarrow> sv_id s = k" for k s
    by (drule entries_map_Some) simp
  ultimately have "entries_map sv_id (map (put_service n) st) k = service_spec (entries_map sv_id st) a k" for k
    by (cases "entries_map sv_id st k"; cases "k = sv_id n") (auto simp: service_spec_def UpdateService put_service_def split: option.split)
  then show ?thesis
    by (simp add: servicesReducer_def UpdateService put_service_def[symmetric] fun_eq_iff)
next
  case (SetActiveService src sv)
  let ?parts = "filter (\<lambda>s. \<not> sv_sourceID s = so_id src) st @ filter (\<lambda>s. sv_sourceID s = so_id src) st"
  have "entries_map sv_id (map (mark_active src sv) ?parts) k = map_option (mark_active src sv) (entries_map sv_id st k)" for k
    using entries_map_partition(1)[of sv_id st "\<lambda>s. sv_sourceID s = so_id src"] assms(1)
    by (subst entries_map_map) (simp_all add: mark_active_id services_inv_def)
  moreover have "entries_map sv_id st k = Some s \<Longrightarrow> sv_id s = k" for k s
    by (drule entries_map_Some) simp
  ultimately show ?thesis
    unfolding SetActiveService set_active_list
    by (auto simp: service_spec_def fun_eq_iff mark_active_def intro!: option.map_cong)
qed (simp_all add: servicesReducer_def service_spec_def entries_map_remove)

interpretation services: functional_refinement servicesReducer services_inv service_action_ok service_spec "entries_map sv_id"
  by unfold_locales (rule services_keep service_refines; assumption)+

text \<open>
  The list of services implements a map from ids to services. For any sequence of actions in
  which a loaded list has distinct ids and an added service is new, looking services up in
  the list the reducer leaves gives what the map operations give, and the ids stay distinct: the
  reordering that activating a service does is not observable by id.
\<close>

theorem services_implement_map:
  assumes "services_inv st" and "run_ok service_action_ok servicesReducer st as"
  shows "entries_map sv_id (run_store servicesReducer st as) = run_store service_spec (entries_map sv_id st) as \<and>
    services_inv (run_store servicesReducer st as)"
  using services.run_refines[OF assms] services.run_inv[OF assms] by simp

definition flux_service :: "string \<Rightarrow> string \<Rightarrow> service" where
  "flux_service i src = \<lparr>sv_id = Some i, sv_sourceID = src, sv_url = ''http://localhost:8093'', sv_name = ''Flux'', sv_type = ''flux'',
     sv_username = None, sv_password = None, sv_insecureSkipVerify = False, sv_active = None, sv_self = ''/services''\<rparr>"

theorem services_implement_map_witness:
  "entries_map sv_id (run_store servicesReducer [flux_service ''1'' ''a'', flux_service ''2'' ''b'']
      [SetActiveService (local_source ''a'' True) (flux_service ''1'' ''a''), DeleteService (flux_service ''2'' ''b'')]) (Some ''1'') =
   Some ((flux_service ''1'' ''a'')\<lparr>sv_active := Some True\<rparr>)"
proof -
  let ?st = "[flux_service ''1'' ''a'', flux_service ''2'' ''b'']"
  let ?as = "[SetActiveService (local_source ''a'' True) (flux_service ''1'' ''a''), DeleteService (flux_service ''2'' ''b'')]"
  have 1: "services_inv ?st" by code_simp
  have 2: "run_ok service_action_ok servicesReducer ?st ?as" by (simp add: service_action_ok_def)
  have "run_store service_spec (entries_map sv_id ?st) ?as (Some ''1'') = Some ((flux_service ''1'' ''a'')\<lparr>sv_active := Some True\<rparr>)"
    by (simp add: service_spec_def entries_map_Cons flux_service_def local_source_def)
  then show ?thesis using services_implement_map[OF 1 2] by simp
qed

lemma all_answers_Inr: "all_answers (map Inr xss) = Inr xss"
  by (induction xss) (simp_all add: all_answers_def)

lemma foldl_filter_append: "foldl (\<lambda>acc cur. acc @ filter P cur) x xss = x @ concat (map (filter P) xss)"
  by (induction xss arbitrary: x) simp_all

text \<open>
  Loading the flux services of all sources. Because the reduce has no initial value the
  services of the first source are stored whatever their type, only those of the
  others are restricted to flux, and with no source at all the user is told the services could not
  be loaded.
\<close>

theorem fetchAllFluxServices_first:
  "fetchAllFluxServicesAsync (map Inr (first # rest)) = [DService (LoadServices (first @ concat (map (filter is_flux) rest)))] \<and>
   fetchAllFluxServicesAsync [] = [DConsole, DNotify ''couldNotGetServices'']"
proof -
  have "all_answers ([] :: service list answer list) = Inr []" by (simp add: all_answers_def)
  then show ?thesis
    using all_answers_Inr[of "first # rest"]
    by (simp add: fetchAllFluxServicesAsync_def reduce_services_def foldl_filter_append)
qed

end
