(* ===== verification/Logs_Store.thy ===== *)
theory Logs_Store
  imports Logs_Query Logs_Config Sources
begin

text \<open>
  The state of the log viewer: \<open>ui/src/types/logs.ts\<close>, the actions and asynchronous action creators of
  \<open>ui/src/logs/actions/index.ts\<close> and the reducer \<open>ui/src/logs/reducers/index.ts\<close>. A query that is
  under way has read the state when it was started; its answer is dispatched to the state it meets. The runs of
  \<open>logs_event\<close> are all interleavings. The series of an answer is taken to have values.
\<close>

section \<open>State\<close>

record table_data_l =
  td_columns :: "string list"
  td_values :: "ts_value list list"

record time_bounds_l =
  tb_upper :: "string option"
  tb_lower :: string

record time_window =
  tw_seconds :: int
  tw_windowOption :: string

record logs_state =
  ls_currentSource :: "source option"
  ls_currentNamespaces :: "namespace list"
  ls_timeRange :: log_range
  ls_currentNamespace :: "namespace option"
  ls_histogramQueryConfig :: "query_config option"
  ls_tableQueryConfig :: "query_config option"
  ls_tableData :: table_data_l
  ls_histogramData :: "histogram_datum list"
  ls_searchTerm :: "string option"
  ls_filters :: "filter_clause list"
  ls_queryCount :: int
  ls_logConfig :: log_config
  ls_customTime :: "string option" \<comment> \<open>\<open>tableTime.custom\<close>\<close>
  ls_relativeTime :: "int option" \<comment> \<open>\<open>tableTime.relative\<close>\<close>
  ls_forward :: table_data_l
  ls_backward :: table_data_l
  ls_newRowsAdded :: "int option"

definition defaultTableData :: table_data_l where
  "defaultTableData = \<lparr>td_columns = [''time'', ''severity'', ''timestamp'', ''message'', ''facility'', ''procid'', ''appname'', ''host''],
     td_values = []\<rparr>"

definition defaultState :: logs_state where
  "defaultState = \<lparr>ls_currentSource = None, ls_currentNamespaces = [],
     ls_timeRange = \<lparr>lr_upper = None, lr_lower = ''now() - 1m'', lr_seconds = Some 60, lr_windowOption = ''1m'', lr_timeOption = ''now''\<rparr>,
     ls_currentNamespace = None, ls_histogramQueryConfig = None, ls_tableQueryConfig = None,
     ls_tableData = \<lparr>td_columns = [], td_values = []\<rparr>, ls_histogramData = [], ls_searchTerm = Some [], ls_filters = [],
     ls_queryCount = 0,
     ls_logConfig = \<lparr>lg_tableColumns = [], lg_severityFormat = Some FDotText, lg_severityLevelColors = Some []\<rparr>,
     ls_customTime = None, ls_relativeTime = None, ls_forward = defaultTableData, ls_backward = defaultTableData,
     ls_newRowsAdded = Some 0\<rparr>"

datatype logs_action =
    LSetSource source
  | LSetNamespaces "namespace list"
  | LSetTimeBounds time_bounds_l
  | LSetTimeWindow time_window
  | LSetTimeMarker string
  | LSetNamespace "namespace option"
  | LSetHistogramQueryConfig query_config
  | LSetHistogramData "histogram_datum list"
  | LSetTableQueryConfig query_config
  | LSetTableData table_data_l
  | LSetSearchTerm "string option"
  | LAddFilter filter_clause
  | LRemoveFilter string
  | LChangeFilter string string string
  | LIncrementQueryCount
  | LDecrementQueryCount
  | LConcatMoreLogs table_data_l
  | LPrependMoreLogs table_data_l
  | LSetConfig log_config
  | LSetTableRelativeTime int
  | LSetTableCustomTime string
  | LSetTableForwardData table_data_l
  | LSetTableBackwardData table_data_l
  | LClearRowsAdded

section \<open>The reducer\<close>

definition removeFilter_l :: "logs_state \<Rightarrow> string \<Rightarrow> logs_state" where
  "removeFilter_l st i = st\<lparr>ls_filters := filter (\<lambda>f. fc_id f \<noteq> i) (ls_filters st)\<rparr>"

definition addFilter_l :: "logs_state \<Rightarrow> filter_clause \<Rightarrow> logs_state" where
  "addFilter_l st f = st\<lparr>ls_filters := ls_filters st @ [f]\<rparr>"

definition changeFilter_l :: "logs_state \<Rightarrow> string \<Rightarrow> string \<Rightarrow> string \<Rightarrow> logs_state" where
  "changeFilter_l st i operator value =
     st\<lparr>ls_filters := map (\<lambda>f. if fc_id f = i then f\<lparr>fc_operator := operator, fc_value := value\<rparr> else f) (ls_filters st)\<rparr>"

definition decrementQueryCount :: "logs_state \<Rightarrow> logs_state" where
  "decrementQueryCount st = st\<lparr>ls_queryCount := max (ls_queryCount st - 1) 0\<rparr>"

definition incrementQueryCount :: "logs_state \<Rightarrow> logs_state" where
  "incrementQueryCount st = st\<lparr>ls_queryCount := ls_queryCount st + 1\<rparr>"

definition concatMoreLogs :: "logs_state \<Rightarrow> table_data_l \<Rightarrow> logs_state" where
  "concatMoreLogs st series =
     st\<lparr>ls_backward := \<lparr>td_columns = td_columns (ls_backward st), td_values = td_values (ls_backward st) @ td_values series\<rparr>\<rparr>"

definition prependMoreLogs :: "logs_state \<Rightarrow> table_data_l \<Rightarrow> logs_state" where
  "prependMoreLogs st series =
     (let forward = ls_forward st;
          vals = td_values series @ td_values forward;
          uniqueValues = uniq_by (nth_value 0) vals;
          newRowsAdded = int (length uniqueValues) - int (length (td_values forward))
      in st\<lparr>ls_newRowsAdded := Some newRowsAdded,
            ls_forward := \<lparr>td_columns = td_columns forward, td_values = uniqueValues\<rparr>\<rparr>)"

definition setConfigs :: "logs_state \<Rightarrow> log_config \<Rightarrow> logs_state" where
  "setConfigs st g =
     st\<lparr>ls_logConfig := (ls_logConfig st)\<lparr>lg_tableColumns := lg_tableColumns g, lg_severityFormat := lg_severityFormat g,
          lg_severityLevelColors := lg_severityLevelColors g\<rparr>\<rparr>"

definition logsReducer :: "logs_state \<Rightarrow> logs_action \<Rightarrow> logs_state" where
  "logsReducer st action =
     (case action of
        LSetSource s \<Rightarrow> st\<lparr>ls_currentSource := Some s\<rparr>
      | LSetNamespaces ns \<Rightarrow> st\<lparr>ls_currentNamespaces := ns\<rparr>
      | LSetTimeBounds b \<Rightarrow> st\<lparr>ls_timeRange := (ls_timeRange st)\<lparr>lr_upper := tb_upper b, lr_lower := tb_lower b\<rparr>\<rparr>
      | LSetTimeWindow w \<Rightarrow>
          st\<lparr>ls_timeRange := (ls_timeRange st)\<lparr>lr_windowOption := tw_windowOption w, lr_seconds := Some (tw_seconds w)\<rparr>\<rparr>
      | LSetTimeMarker timeOption \<Rightarrow> st\<lparr>ls_timeRange := (ls_timeRange st)\<lparr>lr_timeOption := timeOption\<rparr>\<rparr>
      | LSetNamespace n \<Rightarrow> st\<lparr>ls_currentNamespace := n\<rparr>
      | LSetHistogramQueryConfig q \<Rightarrow> st\<lparr>ls_histogramQueryConfig := Some q\<rparr>
      | LSetHistogramData d \<Rightarrow> st\<lparr>ls_histogramData := d\<rparr>
      | LSetTableQueryConfig q \<Rightarrow> st\<lparr>ls_tableQueryConfig := Some q\<rparr>
      | LSetTableData d \<Rightarrow> st\<lparr>ls_tableData := d\<rparr>
      | LClearRowsAdded \<Rightarrow> st\<lparr>ls_newRowsAdded := None\<rparr>
      | LSetTableForwardData d \<Rightarrow> st\<lparr>ls_forward := d\<rparr>
      | LSetTableBackwardData d \<Rightarrow> st\<lparr>ls_backward := d\<rparr>
      | LSetSearchTerm t \<Rightarrow> st\<lparr>ls_searchTerm := t\<rparr>
      | LSetTableCustomTime t \<Rightarrow> st\<lparr>ls_customTime := Some t, ls_relativeTime := None\<rparr>
      | LSetTableRelativeTime t \<Rightarrow> st\<lparr>ls_customTime := None, ls_relativeTime := Some t\<rparr>
      | LAddFilter f \<Rightarrow> addFilter_l st f
      | LRemoveFilter i \<Rightarrow> removeFilter_l st i
      | LChangeFilter i op v \<Rightarrow> changeFilter_l st i op v
      | LIncrementQueryCount \<Rightarrow> incrementQueryCount st
      | LDecrementQueryCount \<Rightarrow> decrementQueryCount st
      | LConcatMoreLogs d \<Rightarrow> concatMoreLogs st d
      | LPrependMoreLogs d \<Rightarrow> prependMoreLogs st d
      | LSetConfig g \<Rightarrow> setConfigs st g)"

section \<open>Reading the state\<close>

definition getProxyLink :: "logs_state \<Rightarrow> string option" where
  "getProxyLink st = Option.bind (ls_currentSource st) so_proxy"

definition getTableSelectedTime :: "int \<Rightarrow> (int \<Rightarrow> string) \<Rightarrow> logs_state \<Rightarrow> string" where
  \<comment> \<open>\<open>now\<close> is the current time in milliseconds\<close>
  "getTableSelectedTime now to_iso st =
     (if truthy (ls_customTime st) then the (ls_customTime st)
      else to_iso (now - 1000 * (case ls_relativeTime st of None \<Rightarrow> 0 | Some r \<Rightarrow> r)))"

definition INITIAL_LIMIT :: nat where "INITIAL_LIMIT = 1000"

definition table_ready :: "string \<Rightarrow> logs_state \<Rightarrow> bool" where
  \<comment> \<open>\<open>_.every([queryConfig, time, namespace, proxyLink])\<close>\<close>
  "table_ready time st = (ls_tableQueryConfig st \<noteq> None \<and> time \<noteq> [] \<and> ls_currentNamespace st \<noteq> None \<and> truthy (getProxyLink st))"

definition histogram_ready :: "logs_state \<Rightarrow> bool" where
  "histogram_ready st = (ls_histogramQueryConfig st \<noteq> None \<and> ls_currentNamespace st \<noteq> None \<and> truthy (getProxyLink st))"

definition page_ready :: "logs_state \<Rightarrow> bool" where
  "page_ready st = (ls_currentNamespace st \<noteq> None \<and> truthy (getProxyLink st) \<and> ls_tableQueryConfig st \<noteq> None)"

definition ordered :: "string \<Rightarrow> string \<Rightarrow> string" where
  "ordered direction query = query @ '' ORDER BY time '' @ direction @ '' LIMIT '' @ nat_str INITIAL_LIMIT"

definition newer_query ::
    "(string \<Rightarrow> int) \<Rightarrow> (int \<Rightarrow> string) \<Rightarrow> (nat \<Rightarrow> string \<Rightarrow> server_response result) \<Rightarrow> (string \<Rightarrow> string result) \<Rightarrow>
     string \<Rightarrow> query_config \<Rightarrow> logs_state \<Rightarrow> string result option" where
  \<comment> \<open>the query for the rows after \<open>startTime\<close>; \<open>None\<close> would be a search that does not end\<close>
  "newer_query parse_time to_iso exec regexp startTime config st =
     map_option (\<lambda>endTime. bind_r endTime (\<lambda>endTime.
         map_res (ordered ''ASC'')
           (buildInfiniteScrollLogQuery regexp (Some startTime) (Some endTime) config (ls_filters st) (ls_searchTerm st))))
       (findNewerUpperTimeBounds parse_time to_iso exec regexp startTime config (ls_filters st) (ls_searchTerm st))"

definition older_query ::
    "(string \<Rightarrow> int) \<Rightarrow> (int \<Rightarrow> string) \<Rightarrow> (nat \<Rightarrow> string \<Rightarrow> server_response result) \<Rightarrow> (string \<Rightarrow> string result) \<Rightarrow>
     string \<Rightarrow> query_config \<Rightarrow> logs_state \<Rightarrow> string result option" where
  "older_query parse_time to_iso exec regexp time config st =
     map_option (\<lambda>lower. bind_r lower (\<lambda>lower.
         map_res (ordered ''DESC'')
           (buildInfiniteScrollLogQuery regexp (Some lower) (Some time) config (ls_filters st) (ls_searchTerm st))))
       (findOlderLowerTimeBounds parse_time to_iso exec regexp time config (ls_filters st) (ls_searchTerm st))"

definition histogram_query :: "(string \<Rightarrow> string result) \<Rightarrow> query_config \<Rightarrow> logs_state \<Rightarrow> string result" where
  "histogram_query regexp config st =
     buildLogQuery regexp \<lparr>b_lower = Some (lr_lower (ls_timeRange st)), b_upper = lr_upper (ls_timeRange st)\<rparr> config
       (ls_filters st) (ls_searchTerm st)"

definition page_config :: "query_config \<Rightarrow> string \<Rightarrow> query_config" where
  \<comment> \<open>\<open>newQueryConfig\<close> of the two page queries\<close>
  "page_config config time = config\<lparr>qc_range := Some \<lparr>dr_lower = time, dr_upper = None\<rparr>\<rparr>"

definition first_series :: "server_response \<Rightarrow> table_data_l" where
  \<comment> \<open>\<open>getDeep(response, 'results.0.series.0', defaultTableData)\<close>\<close>
  "first_series response =
     (case Option.bind response (\<lambda>rs. Option.bind (nth_value 0 rs) (\<lambda>r. Option.bind (r_series r) (nth_value 0))) of
        None \<Rightarrow> defaultTableData
      | Some s \<Rightarrow> \<lparr>td_columns = s_columns s, td_values = (case s_values s of None \<Rightarrow> [] | Some vs \<Rightarrow> vs)\<rparr>)"

definition reversed :: "table_data_l \<Rightarrow> table_data_l" where
  "reversed d = \<lparr>td_columns = td_columns d, td_values = rev (td_values d)\<rparr>"

section \<open>Queries under way\<close>

datatype query_kind = QHistogram | QNewer | QOlder | QMoreOlder | QMoreNewer

definition counted :: "query_kind \<Rightarrow> bool" where
  \<comment> \<open>the kinds that count as running; the page queries do not\<close>
  "counted k = (k = QHistogram \<or> k = QNewer \<or> k = QOlder)"

record logs_world =
  lw_state :: logs_state
  lw_running :: "(nat \<times> query_kind) list"
  lw_next :: nat

datatype logs_event =
    EDispatch logs_action
  | EStart query_kind string \<comment> \<open>an action creator is dispatched; the text is the time of a table or page query\<close>
  | EAnswer nat "server_response answer"

definition ready :: "query_kind \<Rightarrow> string \<Rightarrow> logs_state \<Rightarrow> bool" where
  "ready k time st =
     (case k of QHistogram \<Rightarrow> histogram_ready st | QNewer \<Rightarrow> table_ready time st | QOlder \<Rightarrow> table_ready time st
      | QMoreOlder \<Rightarrow> page_ready st | QMoreNewer \<Rightarrow> page_ready st)"

definition answer_action :: "query_kind \<Rightarrow> server_response \<Rightarrow> logs_action" where
  "answer_action k response =
     (case k of
        QHistogram \<Rightarrow> LSetHistogramData (parseHistogramQueryResponse response)
      | QNewer \<Rightarrow> LSetTableForwardData (reversed (first_series response))
      | QOlder \<Rightarrow> LSetTableBackwardData (first_series response)
      | QMoreOlder \<Rightarrow> LConcatMoreLogs (first_series response)
      | QMoreNewer \<Rightarrow> LPrependMoreLogs (reversed (first_series response)))"

definition logs_step :: "logs_world \<Rightarrow> logs_event \<Rightarrow> logs_world" where
  "logs_step w e =
     (case e of
        EDispatch a \<Rightarrow> w\<lparr>lw_state := logsReducer (lw_state w) a\<rparr>
      | EStart k time \<Rightarrow>
          if \<not> ready k time (lw_state w) then w
          else w\<lparr>lw_state := (if counted k then logsReducer (lw_state w) LIncrementQueryCount else lw_state w),
                 lw_running := lw_running w @ [(lw_next w, k)], lw_next := Suc (lw_next w)\<rparr>
      | EAnswer i a \<Rightarrow>
          (case map_of (lw_running w) i of
             None \<Rightarrow> w
           | Some k \<Rightarrow>
               let st = (case a of Inl _ \<Rightarrow> lw_state w | Inr response \<Rightarrow> logsReducer (lw_state w) (answer_action k response))
               in w\<lparr>lw_state := (if counted k then logsReducer st LDecrementQueryCount else st),
                    lw_running := filter (\<lambda>p. fst p \<noteq> i) (lw_running w)\<rparr>))"

definition initial_world :: logs_world where
  "initial_world = \<lparr>lw_state = defaultState, lw_running = [], lw_next = 0\<rparr>"

definition event_ok :: "logs_world \<Rightarrow> logs_event \<Rightarrow> bool" where
  \<comment> \<open>only the action creators move the count\<close>
  "event_ok w e = (e \<noteq> EDispatch LIncrementQueryCount \<and> e \<noteq> EDispatch LDecrementQueryCount)"

section \<open>The count of running queries\<close>

definition running_count :: "logs_world \<Rightarrow> nat" where
  "running_count w = length (filter (\<lambda>p. counted (snd p)) (lw_running w))"

definition logs_inv :: "logs_world \<Rightarrow> bool" where
  "logs_inv w = (ls_queryCount (lw_state w) = int (running_count w) \<and> distinct (map fst (lw_running w)) \<and>
     list_all (\<lambda>p. fst p < lw_next w) (lw_running w))"

lemma reducer_count [simp]:
  "a \<noteq> LIncrementQueryCount \<Longrightarrow> a \<noteq> LDecrementQueryCount \<Longrightarrow> ls_queryCount (logsReducer st a) = ls_queryCount st"
  by (cases a) (simp_all add: logsReducer_def addFilter_l_def removeFilter_l_def changeFilter_l_def concatMoreLogs_def
      prependMoreLogs_def setConfigs_def Let_def)

lemma count_moves [simp]:
  "ls_queryCount (logsReducer st LIncrementQueryCount) = ls_queryCount st + 1"
  "ls_queryCount (logsReducer st LDecrementQueryCount) = max (ls_queryCount st - 1) 0"
  by (simp_all add: logsReducer_def incrementQueryCount_def decrementQueryCount_def)

lemma answer_action_count [simp]: "ls_queryCount (logsReducer st (answer_action k r)) = ls_queryCount st"
  by (rule reducer_count) (cases k; simp add: answer_action_def)+

lemma remove_running:
  assumes "distinct (map fst ps)" and "map_of ps i = Some k"
  shows "length (filter (\<lambda>p. counted (snd p)) ps) =
    length (filter (\<lambda>p. counted (snd p)) (filter (\<lambda>p. fst p \<noteq> i) ps)) + (if counted k then 1 else 0)"
  using assms
proof (induction ps)
  case (Cons p ps)
  show ?case
  proof (cases "fst p = i")
    case True
    then have "filter (\<lambda>q. fst q \<noteq> i) ps = ps" using Cons.prems(1) by (auto simp: filter_id_conv image_iff)
    then show ?thesis using True Cons.prems by simp
  next
    case False
    then show ?thesis using Cons by auto
  qed
qed simp

lemma logs_inv_start:
  assumes "logs_inv w"
  shows "logs_inv (logs_step w (EStart k time))"
proof (cases "ready k time (lw_state w)")
  case True
  then show ?thesis using assms
    by (fastforce simp: logs_step_def logs_inv_def running_count_def list_all_iff)
qed (simp add: logs_step_def assms)

lemma logs_inv_answer:
  assumes "logs_inv w"
  shows "logs_inv (logs_step w (EAnswer i a))"
proof (cases "map_of (lw_running w) i")
  case (Some k)
  have d: "distinct (map fst (lw_running w))" using assms by (simp add: logs_inv_def)
  define st where "st = (case a of Inl _ \<Rightarrow> lw_state w | Inr response \<Rightarrow> logsReducer (lw_state w) (answer_action k response))"
  have c: "ls_queryCount st = ls_queryCount (lw_state w)" by (cases a) (simp_all add: st_def)
  let ?rest = "filter (\<lambda>p. fst p \<noteq> i) (lw_running w)"
  have step: "logs_step w (EAnswer i a) = w\<lparr>lw_state := (if counted k then logsReducer st LDecrementQueryCount else st), lw_running := ?rest\<rparr>"
    by (simp add: logs_step_def Some st_def)
  show ?thesis
    using assms remove_running[OF d Some] d
    unfolding step logs_inv_def running_count_def by (auto simp: c distinct_map_filter list_all_iff)
qed (simp add: logs_step_def assms)

lemma logs_inv_step:
  assumes "logs_inv w" and "event_ok w e"
  shows "logs_inv (logs_step w e)"
proof (cases e)
  case (EDispatch a)
  then show ?thesis using assms by (auto simp: logs_step_def logs_inv_def running_count_def event_ok_def)
qed (simp_all add: logs_inv_start logs_inv_answer assms(1))

lemma logs_inv_initial: "logs_inv initial_world"
  by (simp add: logs_inv_def initial_world_def running_count_def defaultState_def)

text \<open>The count shown to the user as a function of the events alone.\<close>

definition observed_count :: "logs_world \<Rightarrow> nat" where
  "observed_count w = nat (ls_queryCount (lw_state w))"

interpretation viewer: invariant_steps logs_step logs_inv event_ok
  by unfold_locales (rule logs_inv_step)

text \<open>
  C16: The indicator of running queries. In every interleaving of user actions, starts of queries
  and answers, successful or not, the stored count is the number of histogram and table queries under
  way; it is never negative and it is zero once all have been answered.
\<close>

theorem query_count_exact:
  assumes "run_ok event_ok logs_step initial_world es"
  shows "ls_queryCount (lw_state (run_store logs_step initial_world es)) = int (running_count (run_store logs_step initial_world es)) \<and>
    0 \<le> ls_queryCount (lw_state (run_store logs_step initial_world es))"
  using viewer.run_inv[OF logs_inv_initial assms] by (simp add: logs_inv_def)

definition telegraf :: namespace where
  "telegraf = \<lparr>ns_database = ''telegraf'', ns_retentionPolicy = ''autogen''\<rparr>"

definition open_viewer :: "logs_event list" where
  \<comment> \<open>a source, a namespace and the configurations are chosen\<close>
  "open_viewer = [EDispatch (LSetSource (local_source ''1'' True)), EDispatch (LSetNamespace (Some telegraf)),
     EDispatch (LSetHistogramQueryConfig page_of_logs), EDispatch (LSetTableQueryConfig page_of_logs)]"

theorem query_count_exact_witness:
  "ls_queryCount (lw_state (run_store logs_step initial_world
     (open_viewer @ [EStart QHistogram [], EStart QMoreOlder ''2018'', EStart QNewer ''2018'', EAnswer 0 (Inl (Http_Error 500 None))]))) = 1"
proof -
  let ?es = "open_viewer @ [EStart QHistogram [], EStart QMoreOlder ''2018'', EStart QNewer ''2018'', EAnswer 0 (Inl (Http_Error 500 None))]"
  have "run_ok event_ok logs_step initial_world ?es" by (simp add: open_viewer_def event_ok_def)
  moreover have "running_count (run_store logs_step initial_world ?es) = 1" by code_simp
  ultimately show ?thesis using query_count_exact[of ?es] by simp
qed

section \<open>Answers that come late\<close>

lemma reducer_histogram:
  "ls_histogramData (logsReducer st (LSetHistogramData d)) = d"
  "ls_histogramData (logsReducer st LDecrementQueryCount) = ls_histogramData st"
  "ls_currentNamespace (logsReducer st (LSetHistogramData d)) = ls_currentNamespace st"
  "ls_currentNamespace (logsReducer st LDecrementQueryCount) = ls_currentNamespace st"
  "ls_currentNamespace (logsReducer st LIncrementQueryCount) = ls_currentNamespace st"
  "ls_currentNamespace (logsReducer st (LSetNamespace n)) = n"
  by (simp_all add: logsReducer_def decrementQueryCount_def incrementQueryCount_def)

lemma ready_moves:
  "histogram_ready (logsReducer st LIncrementQueryCount) = histogram_ready st"
  "histogram_ready st \<Longrightarrow> histogram_ready (logsReducer st (LSetNamespace (Some n)))"
  by (simp_all add: histogram_ready_def getProxyLink_def logsReducer_def incrementQueryCount_def)

text \<open>
  Switching the namespace while the histogram is loading. The query of the new namespace may be
  answered first; the answer of the old namespace then still replaces its data, so the histogram
  shows the old namespace's logs under the new one.
\<close>

theorem stale_histogram:
  assumes "logs_inv w" and "histogram_ready (lw_state w)"
  shows "ls_currentNamespace (lw_state (run_store logs_step w
      [EStart QHistogram [], EDispatch (LSetNamespace (Some n)), EStart QHistogram [],
       EAnswer (Suc (lw_next w)) (Inr new), EAnswer (lw_next w) (Inr old)])) = Some n \<and>
    ls_histogramData (lw_state (run_store logs_step w
      [EStart QHistogram [], EDispatch (LSetNamespace (Some n)), EStart QHistogram [],
       EAnswer (Suc (lw_next w)) (Inr new), EAnswer (lw_next w) (Inr old)])) = parseHistogramQueryResponse old"
proof -
  have older: "\<forall>p\<in>set (lw_running w). fst p < lw_next w" using assms(1) by (simp add: logs_inv_def list_all_iff)
  then have "map_of (lw_running w) (lw_next w) = None" "map_of (lw_running w) (Suc (lw_next w)) = None"
    by (auto simp: map_of_eq_None_iff)
  moreover have "filter (\<lambda>p. fst p \<noteq> Suc (lw_next w)) (lw_running w) = lw_running w"
    using older by (auto simp: filter_id_conv)
  ultimately show ?thesis
    using assms(2)
    by (simp add: logs_step_def ready_def counted_def ready_moves map_add_def answer_action_def reducer_histogram)
qed

theorem stale_histogram_witness:
  "ls_histogramData (lw_state (run_store logs_step (run_store logs_step initial_world open_viewer)
      [EStart QHistogram [], EDispatch (LSetNamespace (Some telegraf)), EStart QHistogram [],
       EAnswer 1 (Inr None), EAnswer 0 (Inr (Some [\<lparr>r_series = Some [\<lparr>s_name = ''syslog'', s_columns = [''time'', ''count''],
          s_values = Some [[VNum 5, VNum 2]], s_tags = None\<rparr>], r_error = None\<rparr>]))])) =
   [\<lparr>hd_key = ''-2-5'', hd_time = Some (VNum 5), hd_value = Some (VNum 2), hd_group = []\<rparr>]"
proof -
  let ?w = "run_store logs_step initial_world open_viewer"
  let ?old = "Some [\<lparr>r_series = Some [\<lparr>s_name = ''syslog'', s_columns = [''time'', ''count''],
          s_values = Some [[VNum 5, VNum 2]], s_tags = None\<rparr>], r_error = None\<rparr>]"
  have 1: "logs_inv ?w" by (rule viewer.run_inv[OF logs_inv_initial]) (simp add: open_viewer_def event_ok_def)
  have 2: "histogram_ready (lw_state ?w)" by code_simp
  have 3: "lw_next ?w = 0" by code_simp
  have 4: "parseHistogramQueryResponse ?old = [\<lparr>hd_key = ''-2-5'', hd_time = Some (VNum 5), hd_value = Some (VNum 2), hd_group = []\<rparr>]"
    by code_simp
  show ?thesis using stale_histogram[OF 1 2, of telegraf None ?old] 3 4 by simp
qed

section \<open>The query of a page\<close>

lemma count_total:
  assumes "message_clauses regexp s = Inr ms" and "map_r (filter_text regexp) filters = Inr fs"
    and "\<forall>q. \<exists>r. exec q = Inr r"
  shows "\<exists>c. getQueryCountForBounds exec regexp lower upper config filters s = Inr c"
proof -
  have "\<exists>c. with_search regexp name s cond = Inr c" for name cond
    using assms(1) by (auto simp: with_search_def message_clauses_def map_res_Inr_iff split: if_splits)
  moreover have "\<exists>c. with_filters regexp filters cond = Inr c" for cond
    using assms(2) by (simp add: with_filters_def filtersClause_def)
  ultimately have "\<exists>q. count_query regexp lower upper config filters s = Inr q"
    unfolding count_query_def Let_def by (metis bind_r_simps(2) map_res_simps(2))
  then show ?thesis using assms(3) by (auto simp: getQueryCountForBounds_def) (metis map_res_simps(2))
qed

lemma search_total:
  assumes "stops_at count at k" and "\<forall>n t. \<exists>c. count n t = Inr c"
  shows "search_result count at k = Inr (at k)" "k \<le> 12"
  using assms by (auto simp: search_result_def stops_at_def) (metis map_res_simps(2))+

definition page_text :: "string \<Rightarrow> query_config \<Rightarrow> string \<Rightarrow> string \<Rightarrow> string list \<Rightarrow> string" where
  "page_text direction config lower upper conditions =
     ordered direction (log_query_text config (infinite_time_clauses (Some lower) (Some upper) @
       tag_clauses (qc_tags config) (qc_areTagsAccepted config) @ conditions))"

lemma infinite_query_text:
  assumes "wf_groupBy (qc_groupBy config)" and "lower \<noteq> [] \<or> upper \<noteq> []"
    and "message_clauses regexp s = Inr ms" and "map_r (filter_text regexp) filters = Inr fs"
  shows "map_res (ordered d) (buildInfiniteScrollLogQuery regexp (Some lower) (Some upper) config filters s) =
    Inr (page_text d config lower upper (ms @ fs))"
proof -
  let ?cs = "infinite_time_clauses (Some lower) (Some upper) @ tag_clauses (qc_tags config) (qc_areTagsAccepted config)"
  have ne: "?cs \<noteq> []" using assms(2) by (auto simp: infinite_time_clauses_def truthy_def)
  have "buildInfiniteScrollWhereClause (Some lower) (Some upper) (qc_tags config) (qc_areTagsAccepted config) =
      '' WHERE '' @ js_join '' AND '' ?cs"
    using ne by (simp only: buildInfiniteScrollWhereClause_def Let_def if_False)
  then show ?thesis
    using general_query_text[OF assms(1) ne assms(3,4)] by (simp add: buildInfiniteScrollLogQuery_def page_text_def)
qed

text \<open>
  The query for a page of logs. When the server answers the count queries and the regular
  expressions are well formed, the bound search ends and the query is for the rows from the found bound
  to the given time, newest first (or from the time to the bound, oldest first), with the tag filters, the
  search and the user's filters, a thousand rows at most.
\<close>

theorem page_queries:
  assumes "wf_groupBy (qc_groupBy config)" and "time \<noteq> []"
    and "message_clauses regexp (ls_searchTerm st) = Inr ms" and "map_r (filter_text regexp) (ls_filters st) = Inr fs"
    and "\<forall>n q. \<exists>r. exec n q = Inr r"
  shows "(\<exists>k\<le>12. older_query parse_time to_iso exec regexp time config st =
      Some (Inr (page_text ''DESC'' config (to_iso (older_at (parse_time time) k)) time (ms @ fs)))) \<and>
    (\<exists>k\<le>12. newer_query parse_time to_iso exec regexp time config st =
      Some (Inr (page_text ''ASC'' config time (to_iso (newer_at (parse_time time) k)) (ms @ fs))))"
proof
  let ?older = "older_count to_iso exec regexp time config (ls_filters st) (ls_searchTerm st)"
  let ?newer = "newer_count to_iso exec regexp time config (ls_filters st) (ls_searchTerm st)"
  have total: "\<forall>n t. \<exists>c. ?older n t = Inr c" "\<forall>n t. \<exists>c. ?newer n t = Inr c"
    unfolding older_count_def newer_count_def using count_total[OF assms(3,4)] assms(5) by blast+
  obtain k where k: "stops_at ?older (older_at (parse_time time)) k" and found:
    "findOlderLowerTimeBounds parse_time to_iso exec regexp time config (ls_filters st) (ls_searchTerm st) =
       Some (map_res to_iso (search_result ?older (older_at (parse_time time)) k))"
    using search_bounds by blast
  show "\<exists>k\<le>12. older_query parse_time to_iso exec regexp time config st =
      Some (Inr (page_text ''DESC'' config (to_iso (older_at (parse_time time) k)) time (ms @ fs)))"
    using search_total[OF k total(1)] found assms(2)
    by (intro exI[of _ k]) (simp add: older_query_def infinite_query_text[OF assms(1) _ assms(3,4)])
  obtain l where l: "stops_at ?newer (newer_at (parse_time time)) l" and found:
    "findNewerUpperTimeBounds parse_time to_iso exec regexp time config (ls_filters st) (ls_searchTerm st) =
       Some (map_res to_iso (search_result ?newer (newer_at (parse_time time)) l))"
    using search_bounds by blast
  show "\<exists>k\<le>12. newer_query parse_time to_iso exec regexp time config st =
      Some (Inr (page_text ''ASC'' config time (to_iso (newer_at (parse_time time) k)) (ms @ fs)))"
    using search_total[OF l total(2)] found assms(2)
    by (intro exI[of _ l]) (simp add: newer_query_def infinite_query_text[OF assms(1) _ assms(3,4)])
qed

theorem page_queries_witness:
  "\<exists>k\<le>12. older_query (\<lambda>_. 0) (\<lambda>t. ''T'' @ int_str t) (\<lambda>_ _. Inr None) Inr ''T0'' page_of_logs defaultState =
     Some (Inr (page_text ''DESC'' page_of_logs (''T'' @ int_str (older_at 0 k)) ''T0'' []))"
proof -
  have 1: "wf_groupBy (qc_groupBy page_of_logs)" by code_simp
  have 2: "''T0'' \<noteq> []" by simp
  have 3: "message_clauses Inr (ls_searchTerm defaultState) = Inr []" "map_r (filter_text Inr) (ls_filters defaultState) = Inr []"
    by code_simp+
  have 4: "\<forall>n q. \<exists>r. (\<lambda>_ _. Inr None) n q = Inr r" by simp
  show ?thesis using page_queries[OF 1 2 3 4, of "\<lambda>_. 0" "\<lambda>t. ''T'' @ int_str t"] by simp
qed

section \<open>New rows\<close>

lemma uniq_by_append:
  "uniq_by f (xs @ ys) = uniq_by f xs @ uniq_by f (filter (\<lambda>y. f y \<notin> f ` set xs) ys)"
proof (induction f xs arbitrary: ys rule: uniq_by.induct)
  case (2 f x xs)
  have "filter (\<lambda>y. f y \<notin> f ` set (filter (\<lambda>z. f z \<noteq> f x) xs)) (filter (\<lambda>z. f z \<noteq> f x) ys) =
      filter (\<lambda>y. f y \<notin> insert (f x) (f ` set xs)) ys"
    unfolding filter_filter by (rule filter_cong[OF refl]) auto
  then show ?case using "2.IH"[of "filter (\<lambda>z. f z \<noteq> f x) ys"] by simp
qed simp

text \<open>
  Rows that arrive at the top of the table. When the rows shown have distinct times, the new
  ones are put before them, each time once, a row shown before disappears only where a new one has its
  time, and the number reported is the number of times that were not shown before.
\<close>

theorem prependMoreLogs_rows:
  assumes "distinct (map (nth_value 0) (td_values (ls_forward st)))"
  shows "let fwd = td_values (ls_forward st); new = td_values series; st' = logsReducer st (LPrependMoreLogs series) in
    td_values (ls_forward st') = uniq_by (nth_value 0) new @ filter (\<lambda>r. nth_value 0 r \<notin> nth_value 0 ` set new) fwd \<and>
    distinct (map (nth_value 0) (td_values (ls_forward st'))) \<and>
    ls_newRowsAdded st' = Some (int (card (nth_value 0 ` set new - nth_value 0 ` set fwd)))"
proof -
  let ?fwd = "td_values (ls_forward st)" and ?new = "td_values series"
  let ?keep = "filter (\<lambda>r. nth_value 0 r \<notin> nth_value 0 ` set ?new) ?fwd"
  have "distinct (map (nth_value 0) ?keep)" using assms by (rule distinct_map_filter)
  then have u: "uniq_by (nth_value 0) (?new @ ?fwd) = uniq_by (nth_value 0) ?new @ ?keep"
    by (simp add: uniq_by_append uniq_by_distinct)
  have d: "distinct (map (nth_value 0) (uniq_by (nth_value 0) (?new @ ?fwd)))" by (rule distinct_uniq_by)
  have "length (uniq_by (nth_value 0) (?new @ ?fwd)) = card (nth_value 0 ` set (uniq_by (nth_value 0) (?new @ ?fwd)))"
    using distinct_card[OF d] by simp
  also have "\<dots> = card (nth_value 0 ` set ?new \<union> nth_value 0 ` set ?fwd)" by (simp add: keys_uniq_by image_Un)
  also have "\<dots> = card (nth_value 0 ` set ?new - nth_value 0 ` set ?fwd) + card (nth_value 0 ` set ?fwd)"
    by (subst card_Un_disjoint[symmetric]) auto
  also have "card (nth_value 0 ` set ?fwd) = length ?fwd" using distinct_card[OF assms] by simp
  finally show ?thesis using d u by (simp add: Let_def logsReducer_def prependMoreLogs_def)
qed

theorem prependMoreLogs_rows_witness:
  "ls_newRowsAdded (logsReducer (defaultState\<lparr>ls_forward := \<lparr>td_columns = [''time''], td_values = [[VNum 2], [VNum 1]]\<rparr>\<rparr>)
     (LPrependMoreLogs \<lparr>td_columns = [''time''], td_values = [[VNum 3], [VNum 2]]\<rparr>)) = Some 1"
proof -
  let ?st = "defaultState\<lparr>ls_forward := \<lparr>td_columns = [''time''], td_values = [[VNum 2], [VNum 1]]\<rparr>\<rparr>"
  let ?new = "\<lparr>td_columns = [''time''], td_values = [[VNum 3], [VNum 2]]\<rparr>"
  have "distinct (map (nth_value 0) (td_values (ls_forward ?st)))" by code_simp
  note r = prependMoreLogs_rows[OF this, of ?new]
  have "nth_value 0 ` set (td_values ?new) - nth_value 0 ` set (td_values (ls_forward ?st)) = {Some (VNum 3)}"
    by (auto simp: nth_value_def)
  then show ?thesis using r by (simp add: Let_def)
qed

section \<open>Action creators that start queries\<close>

text \<open>
  The part of a thunk that runs when it is dispatched, as a function on the store and its running
  queries. What it takes from outside the store is in a \<open>page_env\<close>: the time in milliseconds, how a time is
  printed and read, and the ids made for the two configurations.
\<close>

record page_env =
  pe_now :: int
  pe_iso :: "int \<Rightarrow> string"
  pe_unix :: "string \<Rightarrow> int option"
  pe_histogramID :: string
  pe_tableID :: string

definition dispatch_l :: "logs_action \<Rightarrow> logs_world \<Rightarrow> logs_world" where
  "dispatch_l a w = logs_step w (EDispatch a)"

definition executeHistogramQueryAsync :: "logs_world \<Rightarrow> logs_world" where
  "executeHistogramQueryAsync w = logs_step w (EStart QHistogram [])"

definition executeTableNewerQueryAsync :: "page_env \<Rightarrow> logs_world \<Rightarrow> logs_world" where
  "executeTableNewerQueryAsync env w =
     logs_step w (EStart QNewer (getTableSelectedTime (pe_now env) (pe_iso env) (lw_state w)))"

definition executeTableOlderQueryAsync :: "page_env \<Rightarrow> logs_world \<Rightarrow> logs_world" where
  "executeTableOlderQueryAsync env w =
     logs_step w (EStart QOlder (getTableSelectedTime (pe_now env) (pe_iso env) (lw_state w)))"

definition executeTableQueryAsync :: "page_env \<Rightarrow> logs_world \<Rightarrow> logs_world" where
  "executeTableQueryAsync env w =
     dispatch_l LClearRowsAdded (executeTableOlderQueryAsync env (executeTableNewerQueryAsync env w))"

definition executeQueriesAsync :: "page_env \<Rightarrow> logs_world \<Rightarrow> logs_world" where
  "executeQueriesAsync env w = executeTableQueryAsync env (executeHistogramQueryAsync w)"

definition setTableCustomTimeAsync :: "page_env \<Rightarrow> string \<Rightarrow> logs_world \<Rightarrow> logs_world" where
  "setTableCustomTimeAsync env time w = executeTableQueryAsync env (dispatch_l (LSetTableCustomTime time) w)"

definition setTableRelativeTimeAsync :: "page_env \<Rightarrow> int \<Rightarrow> logs_world \<Rightarrow> logs_world" where
  "setTableRelativeTimeAsync env time w = executeTableQueryAsync env (dispatch_l (LSetTableRelativeTime time) w)"

definition setSearchTermAsync :: "page_env \<Rightarrow> string option \<Rightarrow> logs_world \<Rightarrow> logs_world" where
  "setSearchTermAsync env searchTerm w = executeQueriesAsync env (dispatch_l (LSetSearchTerm searchTerm) w)"

definition setHistogramQueryConfigAsync :: "page_env \<Rightarrow> logs_world \<Rightarrow> logs_world" where
  "setHistogramQueryConfigAsync env w =
     (case ls_currentNamespace (lw_state w) of
        None \<Rightarrow> w
      | Some ns \<Rightarrow>
          executeHistogramQueryAsync
            (dispatch_l (LSetHistogramQueryConfig
               (buildHistogramQueryConfig (pe_now env div 1000) (pe_unix env) (pe_histogramID env) ns (ls_timeRange (lw_state w)))) w))"

definition setTableQueryConfigAsync :: "page_env \<Rightarrow> logs_world \<Rightarrow> logs_world" where
  "setTableQueryConfigAsync env w =
     (case ls_currentNamespace (lw_state w) of
        None \<Rightarrow> w
      | Some ns \<Rightarrow>
          executeTableQueryAsync env
            (dispatch_l (LSetTableQueryConfig (buildTableQueryConfig (pe_tableID env) ns (ls_timeRange (lw_state w)))) w))"

definition setTimeRangeAsync :: "page_env \<Rightarrow> logs_world \<Rightarrow> logs_world" where
  "setTimeRangeAsync env w = setTableQueryConfigAsync env (setHistogramQueryConfigAsync env w)"

definition setNamespaceAsync :: "page_env \<Rightarrow> namespace option \<Rightarrow> logs_world \<Rightarrow> logs_world" where
  "setNamespaceAsync env ns w =
     setTableQueryConfigAsync env (setHistogramQueryConfigAsync env (dispatch_l (LSetNamespace ns) w))"

definition populateNamespacesAsync :: "page_env \<Rightarrow> namespace list \<Rightarrow> source option \<Rightarrow> logs_world \<Rightarrow> logs_world" where
  \<comment> \<open>once the namespaces of the source are there\<close>
  "populateNamespacesAsync env namespaces src w =
     (if namespaces = [] then w
      else let w = dispatch_l (LSetNamespaces namespaces) w
           in case src of
                Some s \<Rightarrow>
                  if so_telegraf s \<noteq> []
                  then setNamespaceAsync env (List.find (\<lambda>n. ns_database n = so_telegraf s) namespaces) w
                  else setNamespaceAsync env (Some (hd namespaces)) w
              | None \<Rightarrow> setNamespaceAsync env (Some (hd namespaces)) w)"

definition getSourceAndPopulateNamespacesAsync ::
    "page_env \<Rightarrow> source \<Rightarrow> namespace list \<Rightarrow> logs_world \<Rightarrow> logs_world" where
  \<comment> \<open>given the answer for the source and, when it can be asked, that for its namespaces\<close>
  "getSourceAndPopulateNamespacesAsync env s namespaces w =
     (if truthy (so_proxy s)
      then populateNamespacesAsync env namespaces (Some s) (dispatch_l (LSetSource s) w)
      else w)"

definition getLogConfigAsync :: "server_column list answer \<Rightarrow> logs_world \<Rightarrow> logs_world" where
  \<comment> \<open>an error, also one of the conversion, is only logged\<close>
  "getLogConfigAsync a w =
     (case a of Inl _ \<Rightarrow> w
      | Inr columns \<Rightarrow> (case logConfigServerToUI columns of None \<Rightarrow> w | Some g \<Rightarrow> dispatch_l (LSetConfig g) w))"

definition updateLogConfigAsync :: "log_config \<Rightarrow> (server_column list \<Rightarrow> unit answer) \<Rightarrow> logs_world \<Rightarrow> logs_world" where
  "updateLogConfigAsync g put w =
     (case logConfigUIToServer g of
        Inl _ \<Rightarrow> w
      | Inr columns \<Rightarrow> (case put columns of Inl _ \<Rightarrow> w | Inr _ \<Rightarrow> dispatch_l (LSetConfig g) w))"

lemma start_simps:
  "ready k time (lw_state w) \<Longrightarrow> lw_running (logs_step w (EStart k time)) = lw_running w @ [(lw_next w, k)]"
  "ready k time (lw_state w) \<Longrightarrow> lw_next (logs_step w (EStart k time)) = Suc (lw_next w)"
  "ready k time (lw_state w) \<Longrightarrow> counted k \<Longrightarrow> lw_state (logs_step w (EStart k time)) = incrementQueryCount (lw_state w)"
  by (simp_all add: logs_step_def logsReducer_def)

lemma dispatch_simps:
  "lw_running (dispatch_l a w) = lw_running w" "lw_next (dispatch_l a w) = lw_next w"
  "lw_state (dispatch_l a w) = logsReducer (lw_state w) a"
  by (simp_all add: dispatch_l_def logs_step_def)

lemma selected_time_not_empty: "\<forall>n. to_iso n \<noteq> [] \<Longrightarrow> getTableSelectedTime now to_iso st \<noteq> []"
  by (auto simp: getTableSelectedTime_def truthy_def)

lemma table_query_starts:
  assumes "table_ready (getTableSelectedTime (pe_now env) (pe_iso env) (lw_state w)) (lw_state w)"
  shows "executeTableQueryAsync env w =
    w\<lparr>lw_state := (lw_state w)\<lparr>ls_queryCount := ls_queryCount (lw_state w) + 2, ls_newRowsAdded := None\<rparr>,
      lw_running := lw_running w @ [(lw_next w, QNewer), (Suc (lw_next w), QOlder)], lw_next := Suc (Suc (lw_next w))\<rparr>"
proof -
  have t: "getTableSelectedTime (pe_now env) (pe_iso env) (incrementQueryCount st) = getTableSelectedTime (pe_now env) (pe_iso env) st"
    "table_ready time (incrementQueryCount st) = table_ready time st" for st time
    by (simp_all add: getTableSelectedTime_def incrementQueryCount_def table_ready_def getProxyLink_def)
  show ?thesis
    using assms by (simp add: executeTableQueryAsync_def executeTableOlderQueryAsync_def executeTableNewerQueryAsync_def
        dispatch_l_def logs_step_def ready_def counted_def t logsReducer_def)
      (simp add: incrementQueryCount_def)
qed

lemma histogram_query_starts:
  assumes "histogram_ready (lw_state w)"
  shows "executeHistogramQueryAsync w =
    w\<lparr>lw_state := incrementQueryCount (lw_state w), lw_running := lw_running w @ [(lw_next w, QHistogram)], lw_next := Suc (lw_next w)\<rparr>"
  using assms by (simp add: executeHistogramQueryAsync_def logs_step_def ready_def counted_def logsReducer_def)

definition three_queries :: "nat \<Rightarrow> (nat \<times> query_kind) list" where
  "three_queries n = [(n, QHistogram), (Suc n, QNewer), (Suc (Suc n), QOlder)]"

lemma namespace_queries:
  assumes proxy: "truthy (getProxyLink (lw_state w))" and "\<forall>n. pe_iso env n \<noteq> []"
  shows "let w' = setNamespaceAsync env (Some ns) w; rng = ls_timeRange (lw_state w)
    in ls_currentNamespace (lw_state w') = Some ns \<and>
       ls_histogramQueryConfig (lw_state w') =
         Some (buildHistogramQueryConfig (pe_now env div 1000) (pe_unix env) (pe_histogramID env) ns rng) \<and>
       ls_tableQueryConfig (lw_state w') = Some (buildTableQueryConfig (pe_tableID env) ns rng) \<and>
       lw_running w' = lw_running w @ three_queries (lw_next w) \<and>
       ls_queryCount (lw_state w') = ls_queryCount (lw_state w) + 3"
proof -
  define h where "h = buildHistogramQueryConfig (pe_now env div 1000) (pe_unix env) (pe_histogramID env) ns (ls_timeRange (lw_state w))"
  define st1 where "st1 = (lw_state w)\<lparr>ls_currentNamespace := Some ns, ls_histogramQueryConfig := Some h\<rparr>"
  have r1: "histogram_ready st1" using proxy by (simp add: st1_def histogram_ready_def getProxyLink_def)
  have 1: "setHistogramQueryConfigAsync env (dispatch_l (LSetNamespace (Some ns)) w) =
      w\<lparr>lw_state := incrementQueryCount st1, lw_running := lw_running w @ [(lw_next w, QHistogram)], lw_next := Suc (lw_next w)\<rparr>"
    using histogram_query_starts[of "w\<lparr>lw_state := st1\<rparr>"] r1
    by (simp add: setHistogramQueryConfigAsync_def dispatch_l_def logs_step_def logsReducer_def st1_def h_def)
  define tb where "tb = buildTableQueryConfig (pe_tableID env) ns (ls_timeRange (lw_state w))"
  define st2 where "st2 = (incrementQueryCount st1)\<lparr>ls_tableQueryConfig := Some tb\<rparr>"
  let ?w2 = "w\<lparr>lw_state := st2, lw_running := lw_running w @ [(lw_next w, QHistogram)], lw_next := Suc (lw_next w)\<rparr>"
  have r2: "table_ready (getTableSelectedTime (pe_now env) (pe_iso env) (lw_state ?w2)) (lw_state ?w2)"
    using proxy selected_time_not_empty[OF assms(2)]
    by (simp add: st2_def st1_def table_ready_def getProxyLink_def incrementQueryCount_def)
  have 2: "setNamespaceAsync env (Some ns) w = executeTableQueryAsync env ?w2"
    unfolding setNamespaceAsync_def 1
    by (cases w) (simp add: setTableQueryConfigAsync_def dispatch_l_def logs_step_def logsReducer_def st2_def tb_def st1_def incrementQueryCount_def)
  show ?thesis
    unfolding 2 table_query_starts[OF r2]
    by (simp add: Let_def st2_def st1_def h_def tb_def incrementQueryCount_def three_queries_def)
qed

lemma no_namespace: "lw_running (setNamespaceAsync env None w) = lw_running w"
  "ls_currentNamespace (lw_state (setNamespaceAsync env None w)) = None"
  by (simp_all add: setNamespaceAsync_def setHistogramQueryConfigAsync_def setTableQueryConfigAsync_def dispatch_l_def
      logs_step_def logsReducer_def)

text \<open>
  Opening the log viewer on a source. When the source's own database is among its namespaces, the first of
  that database becomes the current one, the configurations of the histogram and the table are made for it and
  the selected time range, and exactly the three queries are started and counted. When it is not, no namespace
  is current, although there are some to choose from, and nothing is queried.
\<close>

theorem viewer_opens:
  assumes "truthy (so_proxy s)" and "so_telegraf s \<noteq> []" and "namespaces \<noteq> []" and "\<forall>n. pe_iso env n \<noteq> []"
  shows "let w' = getSourceAndPopulateNamespacesAsync env s namespaces w; rng = ls_timeRange (lw_state w)
    in ls_currentNamespaces (lw_state w') = namespaces \<and> ls_currentSource (lw_state w') = Some s \<and>
       (case List.find (\<lambda>n. ns_database n = so_telegraf s) namespaces of
          Some ns \<Rightarrow>
            ls_currentNamespace (lw_state w') = Some ns \<and>
            ls_histogramQueryConfig (lw_state w') =
              Some (buildHistogramQueryConfig (pe_now env div 1000) (pe_unix env) (pe_histogramID env) ns rng) \<and>
            ls_tableQueryConfig (lw_state w') = Some (buildTableQueryConfig (pe_tableID env) ns rng) \<and>
            lw_running w' = lw_running w @ three_queries (lw_next w) \<and>
            ls_queryCount (lw_state w') = ls_queryCount (lw_state w) + 3
        | None \<Rightarrow> ls_currentNamespace (lw_state w') = None \<and> lw_running w' = lw_running w)"
proof -
  define w1 where "w1 = dispatch_l (LSetNamespaces namespaces) (dispatch_l (LSetSource s) w)"
  have w1: "truthy (getProxyLink (lw_state w1))" "ls_timeRange (lw_state w1) = ls_timeRange (lw_state w)"
    "lw_running w1 = lw_running w" "lw_next w1 = lw_next w" "ls_queryCount (lw_state w1) = ls_queryCount (lw_state w)"
    "ls_currentNamespaces (lw_state w1) = namespaces" "ls_currentSource (lw_state w1) = Some s"
    using assms(1) by (simp_all add: w1_def dispatch_simps logsReducer_def getProxyLink_def)
  have w': "getSourceAndPopulateNamespacesAsync env s namespaces w =
      setNamespaceAsync env (List.find (\<lambda>n. ns_database n = so_telegraf s) namespaces) w1"
    using assms by (simp add: getSourceAndPopulateNamespacesAsync_def populateNamespacesAsync_def w1_def)
  have frame: "ls_currentNamespaces (lw_state (setNamespaceAsync env n w1)) = namespaces \<and>
      ls_currentSource (lw_state (setNamespaceAsync env n w1)) = Some s" for n
    using w1(6,7)
    by (auto simp: setNamespaceAsync_def setHistogramQueryConfigAsync_def setTableQueryConfigAsync_def
        executeHistogramQueryAsync_def executeTableQueryAsync_def executeTableNewerQueryAsync_def executeTableOlderQueryAsync_def
        dispatch_l_def logs_step_def logsReducer_def incrementQueryCount_def split: option.splits)
  show ?thesis
    unfolding w' using frame namespace_queries[OF w1(1) assms(4)] w1 no_namespace[of env w1]
    by (simp add: Let_def split: option.split)
qed

definition some_env :: page_env where
  "some_env = \<lparr>pe_now = 0, pe_iso = (\<lambda>n. int_str n), pe_unix = (\<lambda>_. None), pe_histogramID = ''h'', pe_tableID = ''t''\<rparr>"

lemma viewer_opens_witness:
  "let w' = getSourceAndPopulateNamespacesAsync some_env (local_source ''1'' True)
       [\<lparr>ns_database = ''_internal'', ns_retentionPolicy = ''monitor''\<rparr>, telegraf] initial_world
   in ls_currentNamespace (lw_state w') = Some telegraf \<and> lw_running w' = three_queries 0"
proof -
  have f: "List.find (\<lambda>n. ns_database n = so_telegraf (local_source ''1'' True))
      [\<lparr>ns_database = ''_internal'', ns_retentionPolicy = ''monitor''\<rparr>, telegraf] = Some telegraf"
    by (simp add: local_source_def telegraf_def)
  have "truthy (so_proxy (local_source ''1'' True))" "so_telegraf (local_source ''1'' True) \<noteq> []"
    by (simp_all add: local_source_def truthy_def)
  moreover have "\<forall>n. pe_iso some_env n \<noteq> []"
    by (simp add: some_env_def int_str_def)
  ultimately show ?thesis
    using viewer_opens[of "local_source ''1'' True" "[\<lparr>ns_database = ''_internal'', ns_retentionPolicy = ''monitor''\<rparr>, telegraf]" some_env initial_world]
    unfolding Let_def f by (simp add: initial_world_def)
qed

end
