(* ===== verification/Logs_Page.thy ===== *)
theory Logs_Page
  imports Logs_Store Complex_Main "HOL-Library.Multiset"
begin

text \<open>
  The page of the log viewer over its store: \<open>ui/src/logs/containers/LogsPage.tsx\<close> with the timer of its live
  updates, the scrolling of \<open>ui/src/logs/components/LogsTable.tsx\<close> that asks for older and newer rows, the editing
  of a filter (\<open>LogsFilter.tsx\<close>) and the overlay of its options (\<open>OptionsOverlay.tsx\<close>, \<open>DraggableColumn.tsx\<close>). Handlers change
  the world of \<open>Logs_Store\<close> by its action creators; what a handler does behind an \<open>await\<close> of a plain action follows
  at once. Times are milliseconds; how they are printed and read is a parameter.
\<close>

section \<open>State\<close>

definition LiveUpdating_Play :: string where "LiveUpdating_Play = ''icon play''"

definition LiveUpdating_Pause :: string where "LiveUpdating_Pause = ''icon pause''"

definition NOW :: int where "NOW = 0"

definition SECONDS_TO_MS :: int where "SECONDS_TO_MS = 1000"

record logs_page =
  lp_world :: logs_world
  lp_liveUpdating :: string
  lp_isOverlayVisible :: bool
  lp_hasScrolled :: bool
  lp_interval :: "nat option"
  lp_loadingNewer :: bool
  lp_timers :: "nat list" \<comment> \<open>the intervals that tick in the browser\<close>
  lp_nextTimer :: nat

definition initial_logs_page :: "logs_world \<Rightarrow> logs_page" where
  "initial_logs_page w = \<lparr>lp_world = w, lp_liveUpdating = LiveUpdating_Pause, lp_isOverlayVisible = False, lp_hasScrolled = False,
     lp_interval = None, lp_loadingNewer = False, lp_timers = [], lp_nextTimer = 0\<rparr>"

definition on_world :: "(logs_world \<Rightarrow> logs_world) \<Rightarrow> logs_page \<Rightarrow> logs_page" where
  "on_world f st = st\<lparr>lp_world := f (lp_world st)\<rparr>"

definition histogramColors :: "log_config \<Rightarrow> (string option \<times> string option) list" where
  \<comment> \<open>the groups and their colors that \<open>getDerivedStateFromProps\<close> makes\<close>
  "histogramColors g = map (\<lambda>lc. (lc_level lc, lc_color lc)) (case lg_severityLevelColors g of None \<Rightarrow> [] | Some ls \<Rightarrow> ls)"

definition liveUpdatingStatus :: "logs_page \<Rightarrow> string" where
  "liveUpdatingStatus st = (if lp_liveUpdating st = LiveUpdating_Play then LiveUpdating_Play else LiveUpdating_Pause)"

definition stop_interval :: "logs_page \<Rightarrow> logs_page" where
  \<comment> \<open>\<open>clearInterval(this.interval)\<close>\<close>
  "stop_interval st = st\<lparr>lp_timers := filter (\<lambda>i. Some i \<noteq> lp_interval st) (lp_timers st)\<rparr>"

definition source_to_get :: "source list \<Rightarrow> logs_state \<Rightarrow> string option" where
  \<comment> \<open>the source that \<open>componentDidUpdate\<close> asks for\<close>
  "source_to_get sources st =
     (if ls_currentSource st = None \<and> sources \<noteq> []
      then Some (so_id (case List.find so_default sources of Some s \<Rightarrow> s | None \<Rightarrow> hd sources))
      else None)"

definition page_didUpdate :: "logs_page \<Rightarrow> logs_page" where
  "page_didUpdate st =
     (if liveUpdatingStatus st = LiveUpdating_Pause \<and> lp_interval st \<noteq> None then (stop_interval st)\<lparr>lp_interval := None\<rparr> else st)"

definition startUpdating :: "logs_page \<Rightarrow> logs_page" where
  "startUpdating st =
     (let st = (if lp_interval st \<noteq> None then stop_interval st else st)
      in st\<lparr>lp_interval := Some (lp_nextTimer st), lp_timers := lp_timers st @ [lp_nextTimer st], lp_nextTimer := Suc (lp_nextTimer st),
            lp_liveUpdating := LiveUpdating_Play\<rparr>)"

section \<open>The handlers of the page\<close>

definition fetchNewDataset :: "page_env \<Rightarrow> logs_page \<Rightarrow> logs_page" where
  "fetchNewDataset env = on_world (executeQueriesAsync env)"

definition mount_page :: "page_env \<Rightarrow> logs_world \<Rightarrow> logs_page" where
  "mount_page env w =
     (let st = initial_logs_page w;
          st = (if ls_currentNamespace (lw_state w) \<noteq> None then fetchNewDataset env st else st)
      in page_didUpdate (if lr_timeOption (ls_timeRange (lw_state w)) = ''now'' then startUpdating st else st))"

definition time_bounds :: "page_env \<Rightarrow> (string \<Rightarrow> int) \<Rightarrow> log_range \<Rightarrow> time_bounds_l" where
  "time_bounds env date rng =
     (if lr_timeOption rng \<noteq> ''now''
      then (let numberTimeOption = date (lr_timeOption rng);
                milliseconds = (case lr_seconds rng of None \<Rightarrow> 0 | Some s \<Rightarrow> s) * SECONDS_TO_MS
            in \<lparr>tb_upper = Some (pe_iso env (numberTimeOption + milliseconds)), tb_lower = pe_iso env (numberTimeOption - milliseconds)\<rparr>)
      else \<lparr>tb_upper = None, tb_lower = ''now() - '' @ lr_windowOption rng\<rparr>)"

definition handleSetTimeBounds :: "page_env \<Rightarrow> (string \<Rightarrow> int) \<Rightarrow> logs_page \<Rightarrow> logs_page" where
  "handleSetTimeBounds env date st =
     (let st = on_world (dispatch_l (LSetTimeBounds (time_bounds env date (ls_timeRange (lw_state (lp_world st)))))) st;
          st = on_world (setTimeRangeAsync env) st
      in fetchNewDataset env st)"

definition handleChooseCustomTime :: "page_env \<Rightarrow> (string \<Rightarrow> int) \<Rightarrow> string \<Rightarrow> logs_page \<Rightarrow> logs_page" where
  "handleChooseCustomTime env date time st =
     (let st = on_world (setTableCustomTimeAsync env time) st;
          st = page_didUpdate (st\<lparr>lp_hasScrolled := False, lp_liveUpdating := LiveUpdating_Pause\<rparr>);
          st = on_world (dispatch_l (LSetTimeMarker time)) st
      in handleSetTimeBounds env date st)"

definition handleChooseRelativeTime :: "page_env \<Rightarrow> (string \<Rightarrow> int) \<Rightarrow> int \<Rightarrow> logs_page \<Rightarrow> logs_page" where
  "handleChooseRelativeTime env date time st =
     (let st = on_world (setTableRelativeTimeAsync env time) st;
          timeOption = (if time = NOW then ''now'' else pe_iso env (pe_now env - time * SECONDS_TO_MS));
          liveUpdating = (if time = NOW then LiveUpdating_Play else LiveUpdating_Pause);
          st = page_didUpdate (st\<lparr>lp_hasScrolled := False, lp_liveUpdating := liveUpdating\<rparr>);
          st = on_world (dispatch_l (LSetTimeMarker timeOption)) st
      in handleSetTimeBounds env date st)"

definition handleScrollToTop :: "logs_page \<Rightarrow> logs_page" where
  "handleScrollToTop st = (if lp_liveUpdating st = [] then startUpdating st else st)"

definition handleVerticalScroll :: "logs_page \<Rightarrow> logs_page" where
  "handleVerticalScroll st =
     (let st = (if lp_liveUpdating st \<noteq> [] then stop_interval st else st)
      in st\<lparr>lp_liveUpdating := LiveUpdating_Pause, lp_hasScrolled := True\<rparr>)"

definition handleChangeLiveUpdatingStatus :: "page_env \<Rightarrow> (string \<Rightarrow> int) \<Rightarrow> logs_page \<Rightarrow> logs_page" where
  "handleChangeLiveUpdatingStatus env date st =
     (if lp_liveUpdating st = LiveUpdating_Play
      then stop_interval (st\<lparr>lp_liveUpdating := LiveUpdating_Pause\<rparr>)
      else handleChooseRelativeTime env date NOW st)"

definition handleTagSelection :: "page_env \<Rightarrow> string \<Rightarrow> string \<Rightarrow> string \<Rightarrow> logs_page \<Rightarrow> logs_page" where
  "handleTagSelection env uid tag key st =
     fetchNewDataset env (on_world (dispatch_l (LAddFilter \<lparr>fc_id = uid, fc_key = key, fc_value = tag, fc_operator = ''==''\<rparr>)) st)"

definition handleFilterDelete :: "page_env \<Rightarrow> string \<Rightarrow> logs_page \<Rightarrow> logs_page" where
  "handleFilterDelete env i st = fetchNewDataset env (on_world (dispatch_l (LRemoveFilter i)) st)"

definition handleFilterChange :: "page_env \<Rightarrow> string \<Rightarrow> string \<Rightarrow> string \<Rightarrow> logs_page \<Rightarrow> logs_page" where
  "handleFilterChange env i operator value st =
     on_world (executeQueriesAsync env) (fetchNewDataset env (on_world (dispatch_l (LChangeFilter i operator value)) st))"

definition handleBarClick :: "page_env \<Rightarrow> (string \<Rightarrow> int) \<Rightarrow> int \<Rightarrow> logs_page \<Rightarrow> logs_page" where
  "handleBarClick env date time st = handleChooseCustomTime env date (pe_iso env time) st"

definition handleSetTimeWindow :: "page_env \<Rightarrow> (string \<Rightarrow> int) \<Rightarrow> time_window \<Rightarrow> logs_page \<Rightarrow> logs_page" where
  "handleSetTimeWindow env date timeWindow st = handleSetTimeBounds env date (on_world (dispatch_l (LSetTimeWindow timeWindow)) st)"

definition fetchNewer :: "string \<Rightarrow> logs_page \<Rightarrow> logs_page" where
  "fetchNewer time st = on_world (\<lambda>w. logs_step w (EStart QMoreNewer time)) (st\<lparr>lp_loadingNewer := True\<rparr>)"

definition fetchOlder :: "string \<Rightarrow> logs_page \<Rightarrow> logs_page" where
  "fetchOlder time = on_world (\<lambda>w. logs_step w (EStart QMoreOlder time))"

definition tableScrollToRow :: "logs_page \<Rightarrow> logs_page \<times> int option" where
  \<comment> \<open>the row the table is scrolled to at a rendering; \<open>None\<close> leaves it where it is\<close>
  "tableScrollToRow st =
     (let s = lw_state (lp_world st)
      in if liveUpdatingStatus st = LiveUpdating_Play then (st, Some 0)
         else if lp_loadingNewer st \<and> truthy_num (ls_newRowsAdded s) then (st\<lparr>lp_loadingNewer := False\<rparr>, ls_newRowsAdded s)
         else if lp_hasScrolled st then (st, None)
         else (st, Some (max (int (length (td_values (ls_forward s))) - 3) 0)))"

datatype page_event =
    ScrollToTop | VerticalScroll | ExpandMessage | ToggleOverlay | Rendered
  | ChooseCustomTime string | ChooseRelativeTime int | ChangeLiveStatus | BarClick int
  | SubmitSearch string | TagSelection string string string | FilterDelete string | FilterChange string string string
  | SetTimeWindow time_window | ChooseNamespace namespace
  | FetchNewer string | FetchOlder string | IntervalTick nat
  | SourceArrived source "namespace list" | ConfigArrived "server_column list answer" | QueryAnswered nat "server_response answer"

definition page_handler :: "page_env \<Rightarrow> (string \<Rightarrow> int) \<Rightarrow> logs_page \<Rightarrow> page_event \<Rightarrow> logs_page" where
  "page_handler env date st e =
     (case e of
        ScrollToTop \<Rightarrow> handleScrollToTop st
      | VerticalScroll \<Rightarrow> handleVerticalScroll st
      | ExpandMessage \<Rightarrow> st\<lparr>lp_liveUpdating := LiveUpdating_Pause\<rparr>
      | ToggleOverlay \<Rightarrow> st\<lparr>lp_isOverlayVisible := \<not> lp_isOverlayVisible st\<rparr>
      | Rendered \<Rightarrow> fst (tableScrollToRow st)
      | ChooseCustomTime t \<Rightarrow> handleChooseCustomTime env date t st
      | ChooseRelativeTime t \<Rightarrow> handleChooseRelativeTime env date t st
      | ChangeLiveStatus \<Rightarrow> handleChangeLiveUpdatingStatus env date st
      | BarClick t \<Rightarrow> handleBarClick env date t st
      | SubmitSearch s \<Rightarrow> on_world (setSearchTermAsync env (Some s)) st
      | TagSelection uid tag key \<Rightarrow> handleTagSelection env uid tag key st
      | FilterDelete i \<Rightarrow> handleFilterDelete env i st
      | FilterChange i op v \<Rightarrow> handleFilterChange env i op v st
      | SetTimeWindow w \<Rightarrow> handleSetTimeWindow env date w st
      | ChooseNamespace ns \<Rightarrow> on_world (setNamespaceAsync env (Some ns)) st
      | FetchNewer t \<Rightarrow> fetchNewer t st
      | FetchOlder t \<Rightarrow> fetchOlder t st
      | IntervalTick i \<Rightarrow> if i \<in> set (lp_timers st) then fetchNewDataset env st else st
      | SourceArrived s ns \<Rightarrow> on_world (getSourceAndPopulateNamespacesAsync env s ns) st
      | ConfigArrived a \<Rightarrow> on_world (getLogConfigAsync a) st
      | QueryAnswered i a \<Rightarrow> on_world (\<lambda>w. logs_step w (EAnswer i a)) st)"

definition page_step :: "page_env \<Rightarrow> (string \<Rightarrow> int) \<Rightarrow> logs_page \<Rightarrow> page_event \<Rightarrow> logs_page" where
  "page_step env date st e = page_didUpdate (page_handler env date st e)"


section \<open>Live updates\<close>

definition pauses :: "page_event \<Rightarrow> bool" where
  \<comment> \<open>the events that stop live updates\<close>
  "pauses e =
     (case e of VerticalScroll \<Rightarrow> True | ExpandMessage \<Rightarrow> True | ChangeLiveStatus \<Rightarrow> True | ChooseCustomTime _ \<Rightarrow> True | BarClick _ \<Rightarrow> True
      | ChooseRelativeTime t \<Rightarrow> t \<noteq> NOW | _ \<Rightarrow> False)"

definition live_state :: "bool \<Rightarrow> logs_page \<Rightarrow> bool" where
  "live_state live st =
     (if live then lp_timers st = [0] \<and> lp_interval st = Some 0 \<and> lp_liveUpdating st = LiveUpdating_Play
      else lp_timers st = [] \<and> lp_liveUpdating st \<noteq> [])"

lemma world_frame [simp]:
  "lp_timers (on_world f st) = lp_timers st" "lp_interval (on_world f st) = lp_interval st"
  "lp_liveUpdating (on_world f st) = lp_liveUpdating st" "lp_hasScrolled (on_world f st) = lp_hasScrolled st"
  "lp_world (on_world f st) = f (lp_world st)"
  by (simp_all add: on_world_def)

lemma fetch_frame [simp]:
  "lp_timers (fetchNewDataset env st) = lp_timers st" "lp_interval (fetchNewDataset env st) = lp_interval st"
  "lp_liveUpdating (fetchNewDataset env st) = lp_liveUpdating st" "lp_nextTimer (fetchNewDataset env st) = lp_nextTimer st"
  "lp_hasScrolled (fetchNewDataset env st) = lp_hasScrolled st"
  by (simp_all add: fetchNewDataset_def on_world_def)

lemma bounds_frame [simp]:
  "lp_timers (handleSetTimeBounds env date st) = lp_timers st" "lp_interval (handleSetTimeBounds env date st) = lp_interval st"
  "lp_liveUpdating (handleSetTimeBounds env date st) = lp_liveUpdating st" "lp_hasScrolled (handleSetTimeBounds env date st) = lp_hasScrolled st"
  by (simp_all add: handleSetTimeBounds_def Let_def)

lemmas live_defs = LiveUpdating_Play_def LiveUpdating_Pause_def liveUpdatingStatus_def page_didUpdate_def stop_interval_def

lemma quiet_handler:
  assumes "\<not> pauses e" and "lp_liveUpdating st \<noteq> []"
  shows "lp_timers (page_handler env date st e) = lp_timers st \<and> lp_interval (page_handler env date st e) = lp_interval st \<and>
    lp_liveUpdating (page_handler env date st e) = lp_liveUpdating st \<or> (\<exists>t. e = ChooseRelativeTime t)"
  using assms
  by (cases e) (auto simp: page_handler_def pauses_def handleScrollToTop_def tableScrollToRow_def fetchNewer_def fetchOlder_def
      handleTagSelection_def handleFilterDelete_def handleFilterChange_def handleSetTimeWindow_def Let_def)

lemma relative_live:
  "lp_timers (handleChooseRelativeTime env date t st) =
     (if t = NOW then lp_timers st else filter (\<lambda>i. Some i \<noteq> lp_interval st) (lp_timers st))"
  "lp_liveUpdating (handleChooseRelativeTime env date t st) = (if t = NOW then LiveUpdating_Play else LiveUpdating_Pause)"
  "t = NOW \<Longrightarrow> lp_interval (handleChooseRelativeTime env date t st) = lp_interval st"
  by (auto simp: handleChooseRelativeTime_def Let_def live_defs filter_id_conv)

lemma custom_live:
  "lp_timers (handleChooseCustomTime env date t st) = filter (\<lambda>i. Some i \<noteq> lp_interval st) (lp_timers st)"
  "lp_liveUpdating (handleChooseCustomTime env date t st) = LiveUpdating_Pause"
  by (auto simp: handleChooseCustomTime_def Let_def live_defs filter_id_conv)

lemma didUpdate_live:
  "lp_timers (page_didUpdate st) = (if lp_liveUpdating st = LiveUpdating_Play then lp_timers st else filter (\<lambda>i. Some i \<noteq> lp_interval st) (lp_timers st))"
  "lp_liveUpdating (page_didUpdate st) = lp_liveUpdating st"
  "lp_liveUpdating st = LiveUpdating_Play \<Longrightarrow> lp_interval (page_didUpdate st) = lp_interval st"
  by (auto simp: live_defs filter_id_conv)

lemma live_step:
  assumes "live_state live st"
  shows "live_state (live \<and> \<not> pauses e) (page_step env date st e)"
proof (cases "pauses e")
  case True
  then show ?thesis
    using assms
    by (cases e)
      (auto simp: page_step_def page_handler_def pauses_def live_state_def handleVerticalScroll_def handleChangeLiveUpdatingStatus_def
        handleBarClick_def relative_live custom_live didUpdate_live Let_def split: if_splits, auto simp: live_defs)
next
  case False
  show ?thesis
  proof (cases "\<exists>t. e = ChooseRelativeTime t")
    case True
    then show ?thesis
      using assms False by (auto simp: page_step_def page_handler_def pauses_def live_state_def relative_live didUpdate_live split: if_splits)
        (auto simp: live_defs)
  next
    case other: False
    have "lp_liveUpdating st \<noteq> []" using assms by (auto simp: live_state_def live_defs split: if_splits)
    then show ?thesis
      using quiet_handler[OF False] other assms False by (auto simp: page_step_def live_state_def didUpdate_live split: if_splits)
  qed
qed

lemma live_run:
  "live_state (lr_timeOption (ls_timeRange (lw_state w)) = ''now'' \<and> \<not> list_ex pauses es) (run_store (page_step env date) (mount_page env w) es)"
proof -
  have "live_state (live \<and> \<not> list_ex pauses es) (run_store (page_step env date) st es)" if "live_state live st" for live st
    using that
  proof (induction es arbitrary: live st)
    case (Cons e es)
    show ?case using Cons.IH[OF live_step[OF Cons.prems, of e env date]] by (simp add: conj_assoc)
  qed simp
  moreover have "live_state (lr_timeOption (ls_timeRange (lw_state w)) = ''now'') (mount_page env w)"
    by (simp add: mount_page_def initial_logs_page_def startUpdating_def live_state_def live_defs Let_def)
  ultimately show ?thesis by blast
qed

text \<open>
  Live updates run until the first pause, and never again. The page starts its one timer when it is opened on the current
  time; from then on, whatever the user does and the server answers, it ticks exactly as long as nobody has scrolled, opened a
  message, chosen another time or pressed the button. No button starts it again.
\<close>

theorem live_until_paused:
  "lp_timers (run_store (page_step env date) (mount_page env w) es) =
     (if lr_timeOption (ls_timeRange (lw_state w)) = ''now'' \<and> \<not> list_ex pauses es then [0] else [])"
  using live_run[of w es env date] unfolding live_state_def by (simp split: if_splits)

text \<open>So the button shows that updates are live when none come.\<close>

lemma play_without_timer:
  "let st = run_store (page_step env date) (mount_page env w) (es @ [VerticalScroll, ChangeLiveStatus])
   in liveUpdatingStatus st = LiveUpdating_Play \<and> lp_timers st = []"
proof -
  have "lp_liveUpdating (run_store (page_step env date) (mount_page env w) (es @ [VerticalScroll])) = LiveUpdating_Pause"
    by (simp add: run_store_append page_step_def page_handler_def handleVerticalScroll_def Let_def live_defs)
  then have "lp_liveUpdating (run_store (page_step env date) (mount_page env w) ((es @ [VerticalScroll]) @ [ChangeLiveStatus])) = LiveUpdating_Play"
    unfolding run_store_append[of _ _ "es @ [VerticalScroll]"]
    by (simp add: page_step_def page_handler_def handleChangeLiveUpdatingStatus_def didUpdate_live relative_live)
      (simp add: live_defs)
  moreover have "live_state False (run_store (page_step env date) (mount_page env w) (es @ [VerticalScroll, ChangeLiveStatus]))"
    using live_run[of w "es @ [VerticalScroll, ChangeLiveStatus]" env date] by (simp add: pauses_def)
  ultimately show ?thesis by (simp add: liveUpdatingStatus_def live_state_def)
qed

section \<open>Choosing a time\<close>

definition page_time :: "logs_state \<Rightarrow> log_range \<times> namespace option \<times> string option \<times> int option" where
  \<comment> \<open>what starting queries leaves as it is\<close>
  "page_time st = (ls_timeRange st, ls_currentNamespace st, ls_customTime st, ls_relativeTime st)"

definition page_configs :: "logs_state \<Rightarrow> query_config option \<times> query_config option" where
  "page_configs st = (ls_histogramQueryConfig st, ls_tableQueryConfig st)"

lemma starts_keep [simp]:
  "page_time (lw_state (logs_step w (EStart k t))) = page_time (lw_state w)"
  "page_configs (lw_state (logs_step w (EStart k t))) = page_configs (lw_state w)"
  "page_time (logsReducer st LClearRowsAdded) = page_time st" "page_configs (logsReducer st LClearRowsAdded) = page_configs st"
  "page_time (logsReducer st (LSetHistogramQueryConfig q)) = page_time st"
  "page_time (logsReducer st (LSetTableQueryConfig q)) = page_time st"
  "page_configs (logsReducer st (LSetHistogramQueryConfig q)) = (Some q, snd (page_configs st))"
  "page_configs (logsReducer st (LSetTableQueryConfig q)) = (fst (page_configs st), Some q)"
  "page_time (logsReducer st (LSetTimeBounds b)) =
     ((fst (page_time st))\<lparr>lr_upper := tb_upper b, lr_lower := tb_lower b\<rparr>, snd (page_time st))"
  by (simp_all add: page_time_def page_configs_def logs_step_def logsReducer_def incrementQueryCount_def)

lemmas execute_defs = executeQueriesAsync_def executeTableQueryAsync_def executeHistogramQueryAsync_def executeTableNewerQueryAsync_def
  executeTableOlderQueryAsync_def dispatch_simps

lemma executes_keep [simp]:
  "page_time (lw_state (executeQueriesAsync env w)) = page_time (lw_state w)"
  "page_configs (lw_state (executeQueriesAsync env w)) = page_configs (lw_state w)"
  "page_time (lw_state (executeTableQueryAsync env w)) = page_time (lw_state w)"
  "page_configs (lw_state (executeTableQueryAsync env w)) = page_configs (lw_state w)"
  "page_time (lw_state (executeHistogramQueryAsync w)) = page_time (lw_state w)"
  "page_configs (lw_state (executeHistogramQueryAsync w)) = page_configs (lw_state w)"
  by (simp_all add: execute_defs)

definition configs_for :: "page_env \<Rightarrow> log_range \<Rightarrow> namespace \<Rightarrow> query_config option \<times> query_config option" where
  \<comment> \<open>the configurations of the histogram and the table for a range\<close>
  "configs_for env rng ns =
     (Some (buildHistogramQueryConfig (pe_now env div 1000) (pe_unix env) (pe_histogramID env) ns rng),
      Some (buildTableQueryConfig (pe_tableID env) ns rng))"

lemma range_async:
  "page_time (lw_state (setTimeRangeAsync env w)) = page_time (lw_state w)"
  "page_configs (lw_state (setTimeRangeAsync env w)) =
     (case ls_currentNamespace (lw_state w) of None \<Rightarrow> page_configs (lw_state w) | Some ns \<Rightarrow> configs_for env (ls_timeRange (lw_state w)) ns)"
proof -
  let ?w = "setHistogramQueryConfigAsync env w"
  have 1: "page_time (lw_state ?w) = page_time (lw_state w)"
    by (simp add: setHistogramQueryConfigAsync_def dispatch_simps split: option.split)
  then have same: "ls_currentNamespace (lw_state ?w) = ls_currentNamespace (lw_state w)" "ls_timeRange (lw_state ?w) = ls_timeRange (lw_state w)"
    by (simp_all add: page_time_def)
  show "page_time (lw_state (setTimeRangeAsync env w)) = page_time (lw_state w)"
    unfolding setTimeRangeAsync_def setTableQueryConfigAsync_def same
    by (cases "ls_currentNamespace (lw_state w)") (simp_all add: 1 dispatch_simps)
  show "page_configs (lw_state (setTimeRangeAsync env w)) =
     (case ls_currentNamespace (lw_state w) of None \<Rightarrow> page_configs (lw_state w) | Some ns \<Rightarrow> configs_for env (ls_timeRange (lw_state w)) ns)"
    unfolding setTimeRangeAsync_def setTableQueryConfigAsync_def same
    by (cases "ls_currentNamespace (lw_state w)") (simp_all add: setHistogramQueryConfigAsync_def dispatch_simps configs_for_def)
qed

definition bounded_range :: "page_env \<Rightarrow> (string \<Rightarrow> int) \<Rightarrow> log_range \<Rightarrow> log_range" where
  "bounded_range env date rng =
     rng\<lparr>lr_upper := tb_upper (time_bounds env date rng), lr_lower := tb_lower (time_bounds env date rng)\<rparr>"

lemma set_bounds:
  assumes "page_time (lw_state (lp_world st)) = (rng, ns, custom, rel)"
  shows "page_time (lw_state (lp_world (handleSetTimeBounds env date st))) = (bounded_range env date rng, ns, custom, rel)"
    and "ns = Some n \<Longrightarrow> page_configs (lw_state (lp_world (handleSetTimeBounds env date st))) = configs_for env (bounded_range env date rng) n"
proof -
  have [simp]: "ls_timeRange (lw_state (lp_world st)) = rng" "ls_currentNamespace (lw_state (lp_world st)) = ns"
    using assms by (simp_all add: page_time_def)
  let ?w = "dispatch_l (LSetTimeBounds (time_bounds env date rng)) (lp_world st)"
  have 1: "page_time (lw_state ?w) = (bounded_range env date rng, ns, custom, rel)"
    using assms by (simp add: dispatch_simps bounded_range_def)
  then have [simp]: "ls_timeRange (lw_state ?w) = bounded_range env date rng" "ls_currentNamespace (lw_state ?w) = ns"
    by (simp_all add: page_time_def)
  show "page_time (lw_state (lp_world (handleSetTimeBounds env date st))) = (bounded_range env date rng, ns, custom, rel)"
    by (simp add: handleSetTimeBounds_def fetchNewDataset_def range_async 1 Let_def)
  show "page_configs (lw_state (lp_world (handleSetTimeBounds env date st))) = configs_for env (bounded_range env date rng) n" if "ns = Some n"
    using that by (simp add: handleSetTimeBounds_def fetchNewDataset_def range_async Let_def)
qed

lemma marker_time [simp]:
  "page_time (logsReducer st (LSetTimeMarker t)) = ((fst (page_time st))\<lparr>lr_timeOption := t\<rparr>, snd (page_time st))"
  "page_time (logsReducer st (LSetTableCustomTime c)) = (ls_timeRange st, ls_currentNamespace st, Some c, None)"
  "page_time (logsReducer st (LSetTableRelativeTime r)) = (ls_timeRange st, ls_currentNamespace st, None, Some r)"
  "page_time (logsReducer st (LSetTimeWindow v)) =
     ((fst (page_time st))\<lparr>lr_windowOption := tw_windowOption v, lr_seconds := Some (tw_seconds v)\<rparr>, snd (page_time st))"
  by (simp_all add: page_time_def logsReducer_def)

lemma didUpdate_world [simp]: "lp_world (page_didUpdate st) = lp_world st"
  by (simp add: page_didUpdate_def stop_interval_def)

definition marked :: "page_env \<Rightarrow> (string \<Rightarrow> int) \<Rightarrow> string \<Rightarrow> log_range \<Rightarrow> log_range" where
  "marked env date timeOption rng = bounded_range env date (rng\<lparr>lr_timeOption := timeOption\<rparr>)"

lemma marked_range:
  "timeOption \<noteq> ''now'' \<Longrightarrow> marked env date timeOption rng =
     (let ms = SECONDS_TO_MS * (case lr_seconds rng of None \<Rightarrow> 0 | Some s \<Rightarrow> s)
      in rng\<lparr>lr_timeOption := timeOption, lr_lower := pe_iso env (date timeOption - ms), lr_upper := Some (pe_iso env (date timeOption + ms))\<rparr>)"
  "marked env date ''now'' rng = rng\<lparr>lr_timeOption := ''now'', lr_lower := ''now() - '' @ lr_windowOption rng, lr_upper := None\<rparr>"
  by (simp_all add: marked_def bounded_range_def time_bounds_def Let_def mult.commute)

lemma set_marker:
  assumes "page_time (lw_state (lp_world st)) = (rng, Some ns, custom, rel)"
  shows "page_time (lw_state (lp_world (handleSetTimeBounds env date (on_world (dispatch_l (LSetTimeMarker t)) st)))) =
      (marked env date t rng, Some ns, custom, rel)"
    and "page_configs (lw_state (lp_world (handleSetTimeBounds env date (on_world (dispatch_l (LSetTimeMarker t)) st)))) =
      configs_for env (marked env date t rng) ns"
proof -
  have "page_time (lw_state (lp_world (on_world (dispatch_l (LSetTimeMarker t)) st))) = (rng\<lparr>lr_timeOption := t\<rparr>, Some ns, custom, rel)"
    using assms by (simp add: dispatch_simps)
  from set_bounds[OF this] show
    "page_time (lw_state (lp_world (handleSetTimeBounds env date (on_world (dispatch_l (LSetTimeMarker t)) st)))) =
      (marked env date t rng, Some ns, custom, rel)"
    "page_configs (lw_state (lp_world (handleSetTimeBounds env date (on_world (dispatch_l (LSetTimeMarker t)) st)))) =
      configs_for env (marked env date t rng) ns"
    by (simp_all add: marked_def)
qed

text \<open>
  The bounds follow the chosen time. Choosing a time of one's own centers the range on it, a past moment on that moment before now, by
  the window on both sides, and the present leaves it open above; the queries of the histogram and the table
  are then made for this range, the table starts at the chosen time, and live updates show as on only for the present.
\<close>

theorem chosen_time:
  assumes "rng = ls_timeRange (lw_state (lp_world st))" and "ls_currentNamespace (lw_state (lp_world st)) = Some ns"
    and "\<forall>x. date (pe_iso env x) = x \<and> pe_iso env x \<noteq> ''now''" and "t \<noteq> ''now''" and "r \<noteq> NOW"
    and "around = (\<lambda>t x. let ms = SECONDS_TO_MS * (case lr_seconds rng of None \<Rightarrow> 0 | Some s \<Rightarrow> s)
           in rng\<lparr>lr_timeOption := t, lr_lower := pe_iso env (x - ms), lr_upper := Some (pe_iso env (x + ms))\<rparr>)"
    and "open_range = rng\<lparr>lr_timeOption := ''now'', lr_lower := ''now() - '' @ lr_windowOption rng, lr_upper := None\<rparr>"
    and "before = pe_now env - r * SECONDS_TO_MS"
    and "shows_range = (\<lambda>st' rng' custom rel live. page_time (lw_state (lp_world st')) = (rng', Some ns, custom, rel) \<and>
           page_configs (lw_state (lp_world st')) = configs_for env rng' ns \<and> liveUpdatingStatus st' = live)"
  shows "shows_range (handleChooseCustomTime env date t st) (around t (date t)) (Some t) None LiveUpdating_Pause \<and>
    shows_range (handleChooseRelativeTime env date r st) (around (pe_iso env before) before) None (Some r) LiveUpdating_Pause \<and>
    shows_range (handleChooseRelativeTime env date NOW st) open_range None (Some NOW) LiveUpdating_Play"
proof -
  define custom where "custom = page_didUpdate ((on_world (setTableCustomTimeAsync env t) st)\<lparr>lp_hasScrolled := False, lp_liveUpdating := LiveUpdating_Pause\<rparr>)"
  define rel where "rel r = page_didUpdate ((on_world (setTableRelativeTimeAsync env r) st)\<lparr>lp_hasScrolled := False,
      lp_liveUpdating := (if r = NOW then LiveUpdating_Play else LiveUpdating_Pause)\<rparr>)" for r
  have 1: "page_time (lw_state (lp_world custom)) = (rng, Some ns, Some t, None)"
    using assms(1,2) by (simp add: custom_def setTableCustomTimeAsync_def dispatch_simps page_time_def [symmetric])
  have 2: "page_time (lw_state (lp_world (rel r))) = (rng, Some ns, None, Some r)" for r
    using assms(1,2) by (simp add: rel_def setTableRelativeTimeAsync_def dispatch_simps)
  have c: "handleChooseCustomTime env date t st = handleSetTimeBounds env date (on_world (dispatch_l (LSetTimeMarker t)) custom)"
    by (simp add: handleChooseCustomTime_def custom_def Let_def)
  have rl: "handleChooseRelativeTime env date r st = handleSetTimeBounds env date (on_world (dispatch_l
      (LSetTimeMarker (if r = NOW then ''now'' else pe_iso env (pe_now env - r * SECONDS_TO_MS)))) (rel r))" for r
    by (simp add: handleChooseRelativeTime_def rel_def Let_def)
  have live: "liveUpdatingStatus (handleChooseCustomTime env date t st) = LiveUpdating_Pause"
    "liveUpdatingStatus (handleChooseRelativeTime env date r st) = (if r = NOW then LiveUpdating_Play else LiveUpdating_Pause)" for r
    by (simp_all add: liveUpdatingStatus_def custom_live relative_live LiveUpdating_Play_def LiveUpdating_Pause_def)
  have "shows_range (handleChooseCustomTime env date t st) (around t (date t)) (Some t) None LiveUpdating_Pause"
    using set_marker[OF 1, of env date t] marked_range(1)[OF assms(4), of env date rng]
    live(1) unfolding assms(6,9) c by simp
  moreover have "shows_range (handleChooseRelativeTime env date r st) (around (pe_iso env before) before) None (Some r) LiveUpdating_Pause"
    using set_marker[OF 2, of env date "pe_iso env before" r] marked_range(1)[of "pe_iso env before" env date rng] assms(3,5) live(2)[of r]
    unfolding assms(6,8,9) rl[of r] by simp
  moreover have "shows_range (handleChooseRelativeTime env date NOW st) open_range None (Some NOW) LiveUpdating_Play"
    using set_marker[OF 2, of env date "''now''" NOW] marked_range(2)[of env date rng] live(2)[of NOW]
    unfolding assms(7,9) rl[of NOW] by simp
  ultimately show ?thesis by blast
qed

definition unary_env :: page_env where
  \<comment> \<open>a time is printed as so many signs\<close>
  "unary_env = \<lparr>pe_now = 5000, pe_iso = (\<lambda>n. ''T'' @ replicate (nat n) (CHR ''+'') @ replicate (nat (- n)) (CHR ''-'')), pe_unix = (\<lambda>_. None),
     pe_histogramID = ''h'', pe_tableID = ''t''\<rparr>"

definition unary_date :: "string \<Rightarrow> int" where
  "unary_date s = int (length (filter (\<lambda>c. c = CHR ''+'') s)) - int (length (filter (\<lambda>c. c = CHR ''-'') s))"

lemma unary_date: "unary_date (pe_iso unary_env x) = x \<and> pe_iso unary_env x \<noteq> ''now''"
  by (auto simp: unary_date_def unary_env_def)

lemma chosen_time_witness:
  "let w = run_store logs_step initial_world open_viewer; st = mount_page unary_env w; rng = ls_timeRange (lw_state (lp_world st));
       w' = lp_world (handleChooseRelativeTime unary_env unary_date 3 st)
   in lr_lower (ls_timeRange (lw_state w')) = pe_iso unary_env (-58000) \<and> lr_upper (ls_timeRange (lw_state w')) = Some (pe_iso unary_env 62000)"
proof -
  let ?w = "run_store logs_step initial_world open_viewer"
  let ?st = "mount_page unary_env ?w"
  have w: "page_time (lw_state ?w) = (\<lparr>lr_upper = None, lr_lower = ''now() - 1m'', lr_seconds = Some 60, lr_windowOption = ''1m'', lr_timeOption = ''now''\<rparr>,
      Some telegraf, None, None)"
    by code_simp
  then have "page_time (lw_state (lp_world ?st)) = page_time (lw_state ?w)"
    by (simp add: mount_page_def initial_logs_page_def startUpdating_def fetchNewDataset_def stop_interval_def Let_def)
  then have st: "ls_timeRange (lw_state (lp_world ?st)) = \<lparr>lr_upper = None, lr_lower = ''now() - 1m'', lr_seconds = Some 60, lr_windowOption = ''1m'',
      lr_timeOption = ''now''\<rparr>" "ls_currentNamespace (lw_state (lp_world ?st)) = Some telegraf"
    unfolding w by (simp_all add: page_time_def)
  have "\<forall>x. unary_date (pe_iso unary_env x) = x \<and> pe_iso unary_env x \<noteq> ''now''" using unary_date by blast
  note chosen = chosen_time[OF refl st(2) this _ _ refl refl refl refl, of "''T''" 3]
  have "page_time (lw_state (lp_world (handleChooseRelativeTime unary_env unary_date 3 ?st))) =
    (\<lparr>lr_upper = Some (pe_iso unary_env 62000), lr_lower = pe_iso unary_env (-58000), lr_seconds = Some 60, lr_windowOption = ''1m'',
      lr_timeOption = pe_iso unary_env 2000\<rparr>, Some telegraf, None, Some 3)"
    using chosen by (simp add: st NOW_def SECONDS_TO_MS_def Let_def) (simp add: unary_env_def)
  then show ?thesis by (simp add: page_time_def Let_def)
qed


section \<open>Scrolling the table\<close>

definition ROW_HEIGHT :: int where "ROW_HEIGHT = 18"

record logs_table =
  gt_scrollTop :: int
  gt_scrollLeft :: int
  gt_lastQueryTime :: "int option"
  gt_firstQueryTime :: "int option"

definition initial_table :: logs_table where
  "initial_table = \<lparr>gt_scrollTop = 0, gt_scrollLeft = 0, gt_lastQueryTime = None, gt_firstQueryTime = None\<rparr>"

definition table_from_props :: "bool \<Rightarrow> int option \<Rightarrow> logs_table \<Rightarrow> logs_table" where
  "table_from_props isScrolledToTop scrollToRow st =
     (let st = (if isScrolledToTop then st\<lparr>gt_lastQueryTime := None, gt_firstQueryTime := None, gt_scrollTop := 0\<rparr> else st)
      in case scrollToRow of None \<Rightarrow> st | Some r \<Rightarrow> st\<lparr>gt_scrollTop := r * ROW_HEIGHT\<rparr>)"

definition cell_time :: "(ts_value \<Rightarrow> int) \<Rightarrow> ts_value list option \<Rightarrow> int option" where
  \<comment> \<open>the first cell of a row; how it compares is a parameter\<close>
  "cell_time num row = map_option num (Option.bind row (nth_value 0))"

definition last_row :: "ts_value list list \<Rightarrow> ts_value list option" where
  "last_row rows = (if rows = [] then None else Some (last rows))"

definition loadMoreAboveRows :: "(ts_value \<Rightarrow> int) \<Rightarrow> int \<Rightarrow> logs_state \<Rightarrow> logs_table \<Rightarrow> logs_table \<times> int option" where
  \<comment> \<open>with the time newer rows are fetched for\<close>
  "loadMoreAboveRows num now s st =
     (if ls_queryCount s > 0 then (st, None)
      else let firstTime = (case cell_time num (nth_value 0 (td_values (ls_forward s))) of
               Some t \<Rightarrow> t
             | None \<Rightarrow> (case cell_time num (nth_value 0 (td_values (ls_backward s))) of Some t \<Rightarrow> t | None \<Rightarrow> now))
           in if truthy_num (gt_firstQueryTime st) \<and> the (gt_firstQueryTime st) > firstTime then (st, None)
              else (st\<lparr>gt_firstQueryTime := Some firstTime\<rparr>, Some firstTime))"

definition loadMoreBelowRows :: "(ts_value \<Rightarrow> int) \<Rightarrow> int \<Rightarrow> logs_state \<Rightarrow> logs_table \<Rightarrow> logs_table \<times> int option" where
  \<comment> \<open>with the time older rows are fetched for\<close>
  "loadMoreBelowRows num now s st =
     (if ls_queryCount s > 0 then (st, None)
      else let lastTime = (case cell_time num (last_row (td_values (ls_backward s))) of
               Some t \<Rightarrow> t
             | None \<Rightarrow> (case cell_time num (last_row (td_values (ls_forward s))) of Some t \<Rightarrow> t | None \<Rightarrow> now))
           in if truthy_num (gt_lastQueryTime st) \<and> the (gt_lastQueryTime st) \<le> lastTime then (st, None)
              else (st\<lparr>gt_lastQueryTime := Some lastTime\<rparr>, Some lastTime))"

definition rowCount :: "logs_state \<Rightarrow> nat" where
  "rowCount s = length (td_values (ls_forward s)) + length (td_values (ls_backward s))"

definition isRowLoaded :: "logs_state \<Rightarrow> int \<Rightarrow> bool" where
  "isRowLoaded s index \<longleftrightarrow> index < int (rowCount s) - 1"

definition handleScroll :: "(ts_value \<Rightarrow> int) \<Rightarrow> int \<Rightarrow> logs_state \<Rightarrow> int \<Rightarrow> logs_table \<Rightarrow> logs_table \<times> int option \<times> page_event option" where
  \<comment> \<open>for a position from the top; with the time newer rows are fetched for and the event the page is told\<close>
  "handleScroll num now s scrollTop st =
     (let previousTop = gt_scrollTop st;
          (st, fetch) = (if scrollTop < 200 \<and> scrollTop \<le> previousTop then loadMoreAboveRows num now s (st\<lparr>gt_scrollTop := scrollTop\<rparr>)
                         else (st\<lparr>gt_scrollTop := scrollTop\<rparr>, None))
      in (st, fetch, if scrollTop = 0 then Some ScrollToTop else if scrollTop \<noteq> previousTop then Some VerticalScroll else None))"

fun ask_below :: "(ts_value \<Rightarrow> int) \<Rightarrow> logs_table \<Rightarrow> (int \<times> logs_state) list \<Rightarrow> int list" where
  \<comment> \<open>the times older rows are fetched for, one after the other, whatever the table shows meanwhile\<close>
  "ask_below num st [] = []"
| "ask_below num st ((now, s) # visits) =
     (case loadMoreBelowRows num now s (table_from_props False None st) of
        (st', None) \<Rightarrow> ask_below num st' visits
      | (st', Some t) \<Rightarrow> t # ask_below num st' visits)"

lemma ask_below_sorted:
  assumes "0 \<notin> set (ask_below num st visits)"
  shows "sorted_wrt (>) (ask_below num st visits) \<and>
    (truthy_num (gt_lastQueryTime st) \<longrightarrow> (\<forall>t\<in>set (ask_below num st visits). t < the (gt_lastQueryTime st)))"
  using assms
proof (induction num st visits rule: ask_below.induct)
  case (2 num st now s visits)
  obtain st' t where t: "loadMoreBelowRows num now s (table_from_props False None st) = (st', t)"
    by (cases "loadMoreBelowRows num now s (table_from_props False None st)")
  show ?case
  proof (cases t)
    case None
    then have "st' = st" using t by (auto simp: loadMoreBelowRows_def table_from_props_def Let_def split: if_splits)
    then show ?thesis using 2 t None by simp
  next
    case (Some u)
    then have "gt_lastQueryTime st' = Some u" "truthy_num (gt_lastQueryTime st) \<longrightarrow> u < the (gt_lastQueryTime st)"
      using t by (auto simp: loadMoreBelowRows_def table_from_props_def Let_def split: if_splits)
    moreover have "u \<noteq> 0" using 2(3) t Some by simp
    ultimately show ?thesis using 2 t Some by (fastforce simp: truthy_num_def)
  qed
qed simp

text \<open>
  Scrolling down asks for ever older rows. Whatever rows arrive and are replaced in between, the times for which the table fetches older rows
  strictly decrease, so no page is asked for twice.
\<close>

theorem older_pages_decrease:
  assumes "0 \<notin> set (ask_below num initial_table visits)"
  shows "sorted_wrt (>) (ask_below num initial_table visits)"
  using ask_below_sorted[OF assms] by simp

definition rows_until :: "int \<Rightarrow> logs_state" where
  "rows_until t = defaultState\<lparr>ls_backward := \<lparr>td_columns = [''time''], td_values = [[VNum 100], [VNum t]]\<rparr>\<rparr>"

definition num_of :: "ts_value \<Rightarrow> int" where
  "num_of v = (case v of VNum n \<Rightarrow> n | _ \<Rightarrow> 0)"

lemma older_pages_decrease_witness:
  "ask_below num_of initial_table [(0, rows_until 50), (0, rows_until 50), (0, rows_until 20)] = [50, 20] \<and> sorted_wrt (>) [50, 20 :: int]"
proof -
  have "ask_below num_of initial_table [(0, rows_until 50), (0, rows_until 50), (0, rows_until 20)] = [50, 20]" by code_simp
  then show ?thesis using older_pages_decrease[of num_of "[(0, rows_until 50), (0, rows_until 50), (0, rows_until 20)]"] by simp
qed

text \<open>
  The last time asked for outlives the rows it was for: the table never hears that it is scrolled to its top, so after the reader
  moved to a later time, no older rows are fetched until the rows shown end before the old time.
\<close>

lemma no_older_after_jump:
  assumes "gt_lastQueryTime st = Some old" and "old \<noteq> 0" and "cell_time num (last_row (td_values (ls_backward s))) = Some t" and "old \<le> t"
  shows "loadMoreBelowRows num now s (table_from_props False r st) = (table_from_props False r st, None)"
  using assms by (cases r) (simp_all add: loadMoreBelowRows_def table_from_props_def truthy_num_def Let_def)


section \<open>Editing a filter\<close>

record filter_edit =
  ff_editing :: bool
  ff_value :: string
  ff_operator :: string

definition start_filter :: "filter_clause \<Rightarrow> filter_edit" where
  "start_filter f = \<lparr>ff_editing = False, ff_value = fc_value f, ff_operator = fc_operator f\<rparr>"

definition stopEditing :: "filter_clause \<Rightarrow> filter_edit \<Rightarrow> filter_edit \<times> page_event option" where
  \<comment> \<open>with the change the page is told\<close>
  "stopEditing f st =
     (if \<not> ff_editing st then (st, None)
      else if fc_operator f = ff_operator st \<and> fc_value f = ff_value st then (st\<lparr>ff_editing := False\<rparr>, None)
      else if ff_operator st \<in> set [''!='', ''=='', ''=~'', ''!~''] \<and> ff_value st \<noteq> []
      then (st\<lparr>ff_editing := False\<rparr>, Some (FilterChange (fc_id f) (ff_operator st) (ff_value st)))
      else (st\<lparr>ff_operator := fc_operator f, ff_value := fc_value f, ff_editing := False\<rparr>, None))"

datatype filter_input = StartEdit | OperatorInput string | ValueInput string | StopEdit

definition filter_input_step :: "filter_clause \<Rightarrow> filter_edit \<Rightarrow> filter_input \<Rightarrow> filter_edit \<times> page_event option" where
  "filter_input_step f st e =
     (case e of
        StartEdit \<Rightarrow> (st\<lparr>ff_editing := True\<rparr>, None)
      | OperatorInput s \<Rightarrow> (st\<lparr>ff_operator := js_trim s\<rparr>, None)
      | ValueInput s \<Rightarrow> (st\<lparr>ff_value := js_trim s\<rparr>, None)
      | StopEdit \<Rightarrow> stopEditing f st)"

section \<open>The overlay of options\<close>

record options_overlay =
  oo_workingLevelColumns :: "severity_level_color list"
  oo_workingColumns :: "field_option list"
  oo_workingFormat :: severity_format

definition DEFAULT_SEVERITY_LEVELS :: "(string \<times> string) list" where
  "DEFAULT_SEVERITY_LEVELS = [(''emerg'', ''ruby''), (''alert'', ''fire''), (''crit'', ''curacao''), (''err'', ''tiger''),
     (''warning'', ''pineapple''), (''notice'', ''rainforest''), (''info'', ''star''), (''debug'', ''wolf'')]"

definition open_options :: "log_config \<Rightarrow> options_overlay" where
  \<comment> \<open>with the getters of the page that give the properties\<close>
  "open_options g =
     \<lparr>oo_workingLevelColumns = (case lg_severityLevelColors g of None \<Rightarrow> [] | Some ls \<Rightarrow> ls),
      oo_workingColumns = lg_tableColumns g,
      oo_workingFormat = (case lg_severityFormat g of None \<Rightarrow> FDotText | Some f \<Rightarrow> f)\<rparr>"

definition isSaveDisabled :: "log_config \<Rightarrow> options_overlay \<Rightarrow> bool" where
  "isSaveDisabled g st \<longleftrightarrow> st = open_options g"

definition handleResetSeverityLevels :: "options_overlay \<Rightarrow> options_overlay" where
  "handleResetSeverityLevels st =
     st\<lparr>oo_workingLevelColumns := map (\<lambda>(level, color). \<lparr>lc_level = enum_member SEVERITY_LEVELS (Some level), lc_color = Some color\<rparr>)
          DEFAULT_SEVERITY_LEVELS\<rparr>"

definition handleChangeSeverityLevel :: "string \<Rightarrow> string \<Rightarrow> options_overlay \<Rightarrow> options_overlay" where
  "handleChangeSeverityLevel severityLevel color st =
     st\<lparr>oo_workingLevelColumns := map (\<lambda>c. if lc_level c = Some severityLevel then c\<lparr>lc_color := Some color\<rparr> else c) (oo_workingLevelColumns st)\<rparr>"

definition moved :: "nat \<Rightarrow> nat \<Rightarrow> 'a list \<Rightarrow> 'a list" where
  \<comment> \<open>for an index of the list; another one would put undefined there\<close>
  "moved dragIndex hoverIndex xs =
     (let columnsRemoved = take dragIndex xs @ drop (dragIndex + 1) xs
      in take hoverIndex columnsRemoved @ [xs ! dragIndex] @ drop hoverIndex columnsRemoved)"

definition handleMoveColumn :: "nat \<Rightarrow> nat \<Rightarrow> options_overlay \<Rightarrow> options_overlay" where
  "handleMoveColumn dragIndex hoverIndex st = st\<lparr>oo_workingColumns := moved dragIndex hoverIndex (oo_workingColumns st)\<rparr>"

definition column_hover :: "nat \<Rightarrow> nat \<Rightarrow> rat \<Rightarrow> rat \<Rightarrow> bool" where
  \<comment> \<open>whether the column at \<open>dragIndex\<close> moves when the pointer is \<open>hoverClientY\<close> below the top of another one\<close>
  "column_hover dragIndex hoverIndex hoverClientY height =
     (let hoverMiddleY = height / 2
      in \<not> (dragIndex = hoverIndex \<or> dragIndex < hoverIndex \<and> hoverClientY < hoverMiddleY \<or> dragIndex > hoverIndex \<and> hoverClientY > hoverMiddleY))"

definition handleUpdateColumn :: "field_option \<Rightarrow> options_overlay \<Rightarrow> options_overlay" where
  "handleUpdateColumn column st =
     st\<lparr>oo_workingColumns := map (\<lambda>wc. if fo_internalName wc = fo_internalName column then column else wc) (oo_workingColumns st)\<rparr>"

datatype options_event =
    ResetSeverityLevels | ChangeSeverityLevel string string | ChangeSeverityFormat severity_format
  | HoverColumn nat nat rat rat | RenameColumn field_option string | ToggleColumn field_option

definition options_step :: "options_overlay \<Rightarrow> options_event \<Rightarrow> options_overlay" where
  "options_step st e =
     (case e of
        ResetSeverityLevels \<Rightarrow> handleResetSeverityLevels st
      | ChangeSeverityLevel level color \<Rightarrow> handleChangeSeverityLevel level color st
      | ChangeSeverityFormat f \<Rightarrow> st\<lparr>oo_workingFormat := f\<rparr>
      | HoverColumn d h y height \<Rightarrow> if column_hover d h y height then handleMoveColumn d h st else st
      | RenameColumn c name \<Rightarrow> handleUpdateColumn (c\<lparr>fo_displayName := Some name\<rparr>) st
      | ToggleColumn c \<Rightarrow> handleUpdateColumn (c\<lparr>fo_visible := \<not> fo_visible c\<rparr>) st)"

definition handleUpdateSeverityLevels :: "severity_level_color list \<Rightarrow> (server_column list \<Rightarrow> unit answer) \<Rightarrow> logs_world \<Rightarrow> logs_world" where
  "handleUpdateSeverityLevels levels put w = updateLogConfigAsync ((ls_logConfig (lw_state w))\<lparr>lg_severityLevelColors := Some levels\<rparr>) put w"

definition handleUpdateSeverityFormat :: "severity_format \<Rightarrow> (server_column list \<Rightarrow> unit answer) \<Rightarrow> logs_world \<Rightarrow> logs_world" where
  "handleUpdateSeverityFormat f put w = updateLogConfigAsync ((ls_logConfig (lw_state w))\<lparr>lg_severityFormat := Some f\<rparr>) put w"

definition handleUpdateColumns :: "field_option list \<Rightarrow> (server_column list \<Rightarrow> unit answer) \<Rightarrow> logs_world \<Rightarrow> logs_world" where
  "handleUpdateColumns columns put w = updateLogConfigAsync ((ls_logConfig (lw_state w))\<lparr>lg_tableColumns := columns\<rparr>) put w"

definition handleSave :: "options_overlay \<Rightarrow> (server_column list \<Rightarrow> unit answer) list \<Rightarrow> logs_world \<Rightarrow> logs_world" where
  \<comment> \<open>for the answers to the three updates\<close>
  "handleSave st puts w =
     handleUpdateColumns (oo_workingColumns st) (puts ! 2)
       (handleUpdateSeverityLevels (oo_workingLevelColumns st) (puts ! 1) (handleUpdateSeverityFormat (oo_workingFormat st) (puts ! 0) w))"

definition options_config :: "options_overlay \<Rightarrow> log_config" where
  "options_config st = \<lparr>lg_tableColumns = oo_workingColumns st, lg_severityFormat = Some (oo_workingFormat st),
     lg_severityLevelColors = Some (oo_workingLevelColumns st)\<rparr>"

definition options_event_ok :: "options_overlay \<Rightarrow> options_event \<Rightarrow> bool" where
  \<comment> \<open>a color of the list is chosen, and a column that is shown is dragged, renamed and toggled\<close>
  "options_event_ok st e =
     (case e of
        ChangeSeverityLevel level color \<Rightarrow> color \<in> set SEVERITY_COLORS
      | HoverColumn d h y height \<Rightarrow> d < length (oo_workingColumns st)
      | ToggleColumn c \<Rightarrow> c \<in> set (oo_workingColumns st)
      | _ \<Rightarrow> True)"

definition options_inv :: "string multiset \<Rightarrow> options_overlay \<Rightarrow> bool" where
  "options_inv names st \<longleftrightarrow> config_ok (options_config st) \<and> mset (map fo_internalName (oo_workingColumns st)) = names"

lemma moved_mset: "d < length xs \<Longrightarrow> mset (moved d h xs) = mset xs"
proof -
  assume d: "d < length xs"
  have "mset (moved d h xs) = add_mset (xs ! d) (mset (take h (take d xs @ drop (d + 1) xs) @ drop h (take d xs @ drop (d + 1) xs)))"
    unfolding moved_def Let_def by simp
  also have "\<dots> = add_mset (xs ! d) (mset (take d xs) + mset (drop (d + 1) xs))" by (simp only: append_take_drop_id mset_append)
  also have "\<dots> = mset (take d xs @ xs ! d # drop (d + 1) xs)" by simp
  also have "take d xs @ xs ! d # drop (d + 1) xs = xs" using d by (simp add: id_take_nth_drop[symmetric])
  finally show ?thesis .
qed

lemma update_inv:
  assumes "options_inv names st" and "fo_displayName c \<noteq> None"
  shows "options_inv names (handleUpdateColumn c st)"
proof -
  let ?upd = "\<lambda>wc. if fo_internalName wc = fo_internalName c then c else wc"
  have names: "map fo_internalName (oo_workingColumns (handleUpdateColumn c st)) = map fo_internalName (oo_workingColumns st)"
    by (simp add: handleUpdateColumn_def)
  obtain x where "x \<in> set (oo_workingColumns st)" "fo_internalName x = ''severity''"
    using assms(1) by (auto simp: options_inv_def config_ok_def options_config_def)
  then have "?upd x \<in> set (oo_workingColumns (handleUpdateColumn c st)) \<and> fo_internalName (?upd x) = ''severity''"
    by (auto simp: handleUpdateColumn_def)
  then have "config_ok (options_config (handleUpdateColumn c st))"
    using assms unfolding options_inv_def config_ok_def options_config_def
    by (intro conjI) (auto simp: handleUpdateColumn_def list_all_iff)
  then show ?thesis using assms(1) names unfolding options_inv_def by metis
qed

lemma options_step_inv:
  assumes "options_inv names st" and "options_event_ok st e"
  shows "options_inv names (options_step st e)"
proof (cases e)
  case ResetSeverityLevels
  then show ?thesis using assms(1)
    by (simp add: options_inv_def options_step_def handleResetSeverityLevels_def config_ok_def options_config_def DEFAULT_SEVERITY_LEVELS_def
        color_ok_def enum_member_def SEVERITY_LEVELS_def SEVERITY_COLORS_def)
next
  case (ChangeSeverityLevel level color)
  then show ?thesis using assms
    by (auto simp: options_inv_def options_step_def handleChangeSeverityLevel_def config_ok_def options_config_def color_ok_def list_all_iff
        options_event_ok_def)
next
  case (ChangeSeverityFormat f)
  then show ?thesis using assms(1) by (simp add: options_inv_def options_step_def config_ok_def options_config_def)
next
  case (HoverColumn d h y height)
  then have d: "d < length (oo_workingColumns st)" using assms(2) by (simp add: options_event_ok_def)
  then have "mset (map fo_internalName (moved d h (oo_workingColumns st))) = mset (map fo_internalName (oo_workingColumns st))"
    by (simp add: moved_mset)
  moreover have "set (moved d h (oo_workingColumns st)) = set (oo_workingColumns st)" using moved_mset[OF d] by (metis set_mset_mset)
  ultimately show ?thesis using assms(1) HoverColumn
    by (simp add: options_inv_def options_step_def handleMoveColumn_def config_ok_def options_config_def list_all_iff)
next
  case (RenameColumn c name)
  then show ?thesis using update_inv[OF assms(1), of "c\<lparr>fo_displayName := Some name\<rparr>"] by (simp add: options_step_def)
next
  case (ToggleColumn c)
  then have "fo_displayName c \<noteq> None" using assms by (auto simp: options_event_ok_def options_inv_def config_ok_def options_config_def list_all_iff)
  then show ?thesis using update_inv[OF assms(1), of "c\<lparr>fo_visible := \<not> fo_visible c\<rparr>"] ToggleColumn by (simp add: options_step_def)
qed

interpretation options: invariant_steps options_step "options_inv names" options_event_ok for names
  by unfold_locales (rule options_step_inv)

lemma config_update:
  assumes "config_ok g" and "\<forall>cs. put cs = Inr ()"
  shows "updateLogConfigAsync g put w = dispatch_l (LSetConfig g) w"
proof -
  obtain cs where "logConfigUIToServer g = Inr cs" using log_config_roundtrip[OF assms(1)] by blast
  then show ?thesis using assms(2) by (simp add: updateLogConfigAsync_def)
qed

lemma config_parts:
  assumes "config_ok g" and "config_ok g'"
  shows "config_ok (g\<lparr>lg_severityFormat := lg_severityFormat g'\<rparr>)" "config_ok (g\<lparr>lg_severityLevelColors := lg_severityLevelColors g'\<rparr>)"
  using assms by (auto simp: config_ok_def)

lemma save_accepted:
  assumes "config_ok (ls_logConfig (lw_state w))" and "config_ok (options_config st)" and "\<forall>put\<in>set puts. \<forall>cs. put cs = Inr ()" and "length puts = 3"
  shows "ls_logConfig (lw_state (handleSave st puts w)) = options_config st"
proof -
  let ?g = "ls_logConfig (lw_state w)"
  let ?g1 = "?g\<lparr>lg_severityFormat := Some (oo_workingFormat st)\<rparr>"
  let ?g2 = "?g1\<lparr>lg_severityLevelColors := Some (oo_workingLevelColumns st)\<rparr>"
  have puts: "\<forall>cs. (puts ! 0) cs = Inr ()" "\<forall>cs. (puts ! 1) cs = Inr ()" "\<forall>cs. (puts ! 2) cs = Inr ()"
    using assms(3,4) by (simp_all add: nth_mem)
  have ok1: "config_ok ?g1" using config_parts(1)[OF assms(1,2)] by (simp add: options_config_def)
  have ok2: "config_ok ?g2" using config_parts(2)[OF ok1 assms(2)] by (simp add: options_config_def)
  have all: "?g2\<lparr>lg_tableColumns := oo_workingColumns st\<rparr> = options_config st" by (simp add: options_config_def)
  have stored: "ls_logConfig (lw_state (dispatch_l (LSetConfig g) w)) = g" for g w
    by (simp add: dispatch_simps logsReducer_def setConfigs_def)
  have w1: "handleUpdateSeverityFormat (oo_workingFormat st) (puts ! 0) w = dispatch_l (LSetConfig ?g1) w"
    unfolding handleUpdateSeverityFormat_def by (rule config_update[OF ok1 puts(1)])
  have w2: "handleUpdateSeverityLevels (oo_workingLevelColumns st) (puts ! 1) (dispatch_l (LSetConfig ?g1) w) =
      dispatch_l (LSetConfig ?g2) (dispatch_l (LSetConfig ?g1) w)"
    unfolding handleUpdateSeverityLevels_def stored by (rule config_update[OF ok2 puts(2)])
  show ?thesis
    unfolding handleSave_def w1 w2 handleUpdateColumns_def stored all using config_update[OF assms(2) puts(3)] by (simp add: stored)
qed

text \<open>
  C30: Saved options come back. However the options were edited, when the server accepts the three updates the page has
  what the overlay showed, no column is lost or doubled, and the columns that were sent last are read from the server, in the order
  and with the names, format and colors of the overlay.
\<close>

theorem saved_options_reload:
  assumes "config_ok (ls_logConfig (lw_state w))" and "run_ok options_event_ok options_step (open_options (ls_logConfig (lw_state w))) es"
    and "\<forall>put\<in>set puts. \<forall>cs. put cs = Inr ()" and "length puts = 3"
    and "st = run_store options_step (open_options (ls_logConfig (lw_state w))) es" and "w' = handleSave st puts w"
  shows "ls_logConfig (lw_state w') = options_config st \<and>
    mset (map fo_internalName (oo_workingColumns st)) = mset (map fo_internalName (lg_tableColumns (ls_logConfig (lw_state w)))) \<and>
    (\<exists>cs. logConfigUIToServer (ls_logConfig (lw_state w')) = Inr cs \<and> (\<forall>w. ls_logConfig (lw_state (getLogConfigAsync (Inr cs) w)) = options_config st))"
proof -
  have "options_inv (mset (map fo_internalName (lg_tableColumns (ls_logConfig (lw_state w))))) (open_options (ls_logConfig (lw_state w)))"
    using assms(1) by (auto simp: options_inv_def open_options_def options_config_def config_ok_def)
  from options.run_inv_from[OF assms(5) this assms(2)]
  have st: "config_ok (options_config st)"
    "mset (map fo_internalName (oo_workingColumns st)) = mset (map fo_internalName (lg_tableColumns (ls_logConfig (lw_state w))))"
    by (simp_all add: options_inv_def)
  obtain cs where "logConfigUIToServer (options_config st) = Inr cs" "logConfigServerToUI cs = Some (options_config st)"
    using log_config_roundtrip[OF st(1)] by blast
  then show ?thesis
    using save_accepted[OF assms(1) st(1) assms(3,4)] st(2) assms(6)
    by (simp add: getLogConfigAsync_def dispatch_simps logsReducer_def setConfigs_def)
qed

lemma saved_options_reload_witness:
  "let g = two_columns; w = initial_world\<lparr>lw_state := defaultState\<lparr>ls_logConfig := g\<rparr>\<rparr>;
       st = run_store options_step (open_options g) [HoverColumn 0 1 9 10, ChangeSeverityFormat FText]
   in lg_tableColumns (ls_logConfig (lw_state (handleSave st (replicate 3 (\<lambda>_. Inr ())) w))) = rev (lg_tableColumns g)"
proof -
  let ?w = "initial_world\<lparr>lw_state := defaultState\<lparr>ls_logConfig := two_columns\<rparr>\<rparr>"
  let ?es = "[HoverColumn 0 1 9 10, ChangeSeverityFormat FText]"
  have g: "ls_logConfig (lw_state ?w) = two_columns" by simp
  have "config_ok two_columns"
    by (simp add: config_ok_def two_columns_def color_ok_def SEVERITY_LEVELS_def SEVERITY_COLORS_def)
  moreover have "run_ok options_event_ok options_step (open_options two_columns) ?es"
    by (simp add: options_event_ok_def open_options_def two_columns_def)
  ultimately have "ls_logConfig (lw_state (handleSave (run_store options_step (open_options two_columns) ?es) (replicate 3 (\<lambda>_. Inr ())) ?w)) =
      options_config (run_store options_step (open_options two_columns) ?es)"
    by (intro saved_options_reload[of ?w ?es "replicate 3 (\<lambda>_. Inr ())", unfolded g, THEN conjunct1]) simp_all
  moreover have "oo_workingColumns (run_store options_step (open_options two_columns) ?es) = rev (lg_tableColumns two_columns)"
    by (simp add: options_step_def column_hover_def handleMoveColumn_def moved_def open_options_def two_columns_def)
  ultimately show ?thesis by (simp add: Let_def options_config_def)
qed

end
