(* ===== verification/Annotations.thy ===== *)
theory Annotations
  imports Store_Prelude
begin

text \<open>
  The annotations of graphs: \<open>ui/src/types/annotations.ts\<close>, the helpers of
  \<open>ui/src/shared/annotations/helpers.ts\<close>, the actions of \<open>ui/src/shared/actions/annotations.ts\<close> and the
  reducer \<open>ui/src/shared/reducers/annotations.ts\<close>. Times are integers; null is \<open>None\<close>.
\<close>

section \<open>Data\<close>

record annotation =
  an_id :: string
  an_startTime :: "int option"
  an_endTime :: "int option"
  an_text :: string
  an_type :: string
  an_self :: string

datatype annotation_mode = ADDING | EDITING

definition TEMP_ANNOTATION :: annotation where
  "TEMP_ANNOTATION = \<lparr>an_id = ''tempAnnotation'', an_startTime = None, an_endTime = None, an_text = ''Name Me'', an_type = [], an_self = []\<rparr>"

record annotation_state =
  as_mode :: "annotation_mode option"
  as_isTempHovering :: bool
  as_annotations :: "annotation list"

definition initial_annotations :: annotation_state where
  "initial_annotations = \<lparr>as_mode = None, as_isTempHovering = False, as_annotations = []\<rparr>"

datatype annotation_action =
    EditingAnnotation
  | DismissEditingAnnotation
  | AddingAnnotation
  | AddingAnnotationSuccess
  | DismissAddingAnnotation
  | MouseEnterTempAnnotation
  | MouseLeaveTempAnnotation
  | LoadAnnotations "annotation list"
  | UpdateAnnotation annotation
  | DeleteAnnotation annotation
  | AddAnnotation annotation

section \<open>Operations\<close>

definition visibleAnnotations :: "int \<times> int \<Rightarrow> annotation list \<Rightarrow> string \<Rightarrow> annotation list" where
  "visibleAnnotations xAxisRange annotations tempAnnotationID =
     (let (xStart, xEnd) = xAxisRange in
      if xStart = 0 \<and> xEnd = 0 then []
      else filter (\<lambda>a.
        if an_id a = tempAnnotationID then False
        else case (an_startTime a, an_endTime a) of
            (Some startTime, Some endTime) \<Rightarrow>
              if endTime = startTime then xStart \<le> startTime \<and> startTime \<le> xEnd
              else \<not> (endTime < xStart \<or> xEnd < startTime)
          | _ \<Rightarrow> False) annotations)"

definition annotationsReducer :: "annotation_state \<Rightarrow> annotation_action \<Rightarrow> annotation_state" where
  "annotationsReducer st action =
     (case action of
        EditingAnnotation \<Rightarrow> st\<lparr>as_mode := Some EDITING\<rparr>
      | DismissEditingAnnotation \<Rightarrow> st\<lparr>as_mode := None\<rparr>
      | AddingAnnotation \<Rightarrow>
          let annotations = filter (\<lambda>a. an_id a \<noteq> an_id TEMP_ANNOTATION) (as_annotations st)
          in st\<lparr>as_mode := Some ADDING, as_isTempHovering := True, as_annotations := annotations @ [TEMP_ANNOTATION]\<rparr>
      | AddingAnnotationSuccess \<Rightarrow> st\<lparr>as_isTempHovering := False, as_mode := None\<rparr>
      | DismissAddingAnnotation \<Rightarrow>
          let annotations = filter (\<lambda>a. an_id a \<noteq> an_id TEMP_ANNOTATION) (as_annotations st)
          in st\<lparr>as_isTempHovering := False, as_mode := None, as_annotations := annotations\<rparr>
      | MouseEnterTempAnnotation \<Rightarrow> st\<lparr>as_isTempHovering := True\<rparr>
      | MouseLeaveTempAnnotation \<Rightarrow> st\<lparr>as_isTempHovering := False\<rparr>
      | LoadAnnotations annotations \<Rightarrow> st\<lparr>as_annotations := annotations\<rparr>
      | UpdateAnnotation a \<Rightarrow> st\<lparr>as_annotations := map (\<lambda>x. if an_id x = an_id a then a else x) (as_annotations st)\<rparr>
      | DeleteAnnotation a \<Rightarrow> st\<lparr>as_annotations := filter (\<lambda>x. an_id x \<noteq> an_id a) (as_annotations st)\<rparr>
      | AddAnnotation a \<Rightarrow> st\<lparr>as_annotations := as_annotations st @ [a]\<rparr>)"

text \<open>The asynchronous actions: what is dispatched before and after the call. A call that fails
  rejects the promise and nothing more is dispatched.\<close>

definition addAnnotationAsync :: "annotation \<Rightarrow> annotation answer \<Rightarrow> annotation_action list" where
  "addAnnotationAsync annotation saved =
     [AddAnnotation annotation] @
     (case saved of Inl _ \<Rightarrow> [] | Inr savedAnnotation \<Rightarrow> [AddAnnotation savedAnnotation, DeleteAnnotation annotation])"

definition getAnnotationsAsync :: "annotation list answer \<Rightarrow> annotation_action list" where
  "getAnnotationsAsync a = (case a of Inl _ \<Rightarrow> [] | Inr annotations \<Rightarrow> [LoadAnnotations annotations])"

definition deleteAnnotationAsync :: "annotation \<Rightarrow> unit answer \<Rightarrow> annotation_action list" where
  "deleteAnnotationAsync annotation a = (case a of Inl _ \<Rightarrow> [] | Inr _ \<Rightarrow> [DeleteAnnotation annotation])"

definition updateAnnotationAsync :: "annotation \<Rightarrow> unit answer \<Rightarrow> annotation_action list" where
  "updateAnnotationAsync annotation a = (case a of Inl _ \<Rightarrow> [] | Inr _ \<Rightarrow> [UpdateAnnotation annotation])"

section \<open>Saving an annotation\<close>

lemma annotations_of [simp]:
  "as_annotations (annotationsReducer st (AddAnnotation a)) = as_annotations st @ [a]"
  "as_annotations (annotationsReducer st (DeleteAnnotation a)) = filter (\<lambda>x. an_id x \<noteq> an_id a) (as_annotations st)"
  by (simp_all add: annotationsReducer_def)

text \<open>
  Adding an annotation. It is shown under its temporary id at once. When the server has saved
  it, the saved one takes its place at the end of the list and every other annotation, even one added meanwhile, is
  untouched; when the call fails the unsaved one stays in the list. The id made for the call must be
  fresh, and the id the server gives must differ from it.
\<close>

theorem addAnnotation_saved:
  assumes "an_id a \<notin> an_id ` set (as_annotations st)" and "an_id a \<notin> an_id ` set others"
    and "\<And>s. saved = Inr s \<Longrightarrow> an_id s \<noteq> an_id a"
  shows "as_annotations (run_store annotationsReducer (annotationsReducer st (hd (addAnnotationAsync a saved)))
      (map AddAnnotation others @ tl (addAnnotationAsync a saved))) =
    as_annotations st @ (case saved of Inl _ \<Rightarrow> a # others | Inr s \<Rightarrow> others @ [s])"
proof -
  have run: "as_annotations (run_store annotationsReducer st' (map AddAnnotation bs)) = as_annotations st' @ bs" for st' bs
    by (induction bs arbitrary: st') simp_all
  have old: "filter (\<lambda>x. an_id x \<noteq> an_id a) (as_annotations st) = as_annotations st"
    "filter (\<lambda>x. an_id x \<noteq> an_id a) others = others"
    using assms(1,2) by (auto simp: filter_id_conv image_iff)
  show ?thesis
    using assms(3) by (cases saved) (simp_all add: addAnnotationAsync_def run_store_append run old)
qed

definition spike :: "string \<Rightarrow> annotation" where
  "spike i = \<lparr>an_id = i, an_startTime = Some 10, an_endTime = Some 20, an_text = ''spike'', an_type = [], an_self = []\<rparr>"

theorem addAnnotation_saved_witness:
  "as_annotations (run_store annotationsReducer (annotationsReducer initial_annotations (hd (addAnnotationAsync (spike ''u'') (Inr (spike ''7'')))))
     (map AddAnnotation [spike ''v''] @ tl (addAnnotationAsync (spike ''u'') (Inr (spike ''7''))))) = [spike ''v'', spike ''7'']"
  using addAnnotation_saved[of "spike ''u''" initial_annotations "[spike ''v'']" "Inr (spike ''7'')"]
  by (simp add: spike_def initial_annotations_def)

text \<open>
  The annotations drawn on a graph. For a range that is not \<open>[0, 0]\<close> and annotations that
  do not end before they start, these are, in order, the ones with both times set, other than the one being
  made, whose span meets the range.
\<close>

theorem visibleAnnotations_meet:
  assumes "x0 \<le> x1" and "\<not> (x0 = 0 \<and> x1 = 0)"
    and "\<forall>a\<in>set as. \<forall>s e. an_startTime a = Some s \<longrightarrow> an_endTime a = Some e \<longrightarrow> s \<le> e"
  shows "visibleAnnotations (x0, x1) as tid =
    filter (\<lambda>a. an_id a \<noteq> tid \<and> (\<exists>s e t. an_startTime a = Some s \<and> an_endTime a = Some e \<and> s \<le> t \<and> t \<le> e \<and> x0 \<le> t \<and> t \<le> x1)) as"
proof -
  have meet: "(\<exists>t. s \<le> t \<and> t \<le> e \<and> x0 \<le> t \<and> t \<le> x1) \<longleftrightarrow>
      (if e = s then x0 \<le> s \<and> s \<le> x1 else \<not> (e < x0 \<or> x1 < s))" if "s \<le> e" for s e :: int
    using that assms(1) by (auto intro!: exI[of _ "max s x0"])
  show ?thesis
    unfolding visibleAnnotations_def
    by (simp add: assms(2)) (rule filter_cong[OF refl], use assms(3) meet in \<open>auto split: option.split\<close>)
qed

theorem visibleAnnotations_meet_witness:
  "visibleAnnotations (15, 30) [spike ''a'', spike ''tempAnnotation''] ''tempAnnotation'' = [spike ''a'']"
proof -
  have "visibleAnnotations (15, 30) [spike ''a'', spike ''tempAnnotation''] ''tempAnnotation'' =
      filter (\<lambda>a. an_id a \<noteq> ''tempAnnotation'' \<and> (\<exists>s e t. an_startTime a = Some s \<and> an_endTime a = Some e \<and> s \<le> t \<and> t \<le> e \<and> 15 \<le> t \<and> t \<le> 30))
        [spike ''a'', spike ''tempAnnotation'']"
    by (rule visibleAnnotations_meet) (auto simp: spike_def)
  moreover have "\<exists>t\<ge>10. t \<le> 20 \<and> 15 \<le> t \<and> t \<le> (30::int)" by (rule exI[of _ 17]) simp
  ultimately show ?thesis by (simp add: spike_def)
qed

end
