(* ===== verification/App_Store.thy ===== *)
theory App_Store
  imports Store_Prelude
begin

text \<open>
  Who is logged in, the presentation settings and the notifications:
  \<open>ui/src/shared/actions/auth.ts\<close>, \<open>ui/src/shared/actions/links.ts\<close>, \<open>ui/src/types/auth.ts\<close>, the reducers
  \<open>auth.ts\<close>, \<open>app.ts\<close> and \<open>notifications.ts\<close> of \<open>ui/src/shared/reducers/\<close> and the error middleware
  \<open>ui/src/shared/middleware/errors.js\<close>. The middleware's blackout of notifications sets a variable nothing
  reads, so it has no model.
\<close>

section \<open>Data\<close>

record organization =
  og_id :: string
  og_name :: string
  og_defaultRole :: string

record role =
  rl_name :: string
  rl_organization :: string

record me =
  me_name :: string
  me_superAdmin :: bool
  me_role :: string
  me_currentOrganization :: "organization option"
  me_roles :: "role list"

record auth_state =
  au_links :: "string list option"
  au_me :: "me option"
  au_isMeLoading :: bool
  au_isAuthLoading :: bool
  au_logoutLink :: "string option"
  au_isUsingAuth :: bool

definition initial_auth :: auth_state where
  "initial_auth = \<lparr>au_links = None, au_me = None, au_isMeLoading = False, au_isAuthLoading = False,
     au_logoutLink = None, au_isUsingAuth = False\<rparr>"

datatype auth_action =
    AuthExpired "string list"
  | AuthRequested
  | MeGetRequested
  | MeGetCompleted me "string list option" "string option" \<comment> \<open>the user, the links and the logout link\<close>
  | MeGetFailed
  | MeChangeOrganizationRequested
  | MeChangeOrganizationCompleted
  | MeChangeOrganizationFailed

section \<open>The auth reducer\<close>

definition SUPERADMIN_ROLE :: string where "SUPERADMIN_ROLE = ''superadmin''"
definition MEMBER_ROLE :: string where "MEMBER_ROLE = ''member''"

definition getMeRole :: "me \<Rightarrow> string result" where
  \<comment> \<open>the callback reads the current organization for every role\<close>
  "getMeRole m =
     (if me_roles m \<noteq> [] \<and> me_currentOrganization m = None then Inl TypeError
      else let currentRole = (case List.find (\<lambda>r. og_id (the (me_currentOrganization m)) = rl_organization r) (me_roles m) of
                 None \<Rightarrow> MEMBER_ROLE | Some r \<Rightarrow> rl_name r)
           in Inr (if me_superAdmin m then SUPERADMIN_ROLE else currentRole))"

definition meGetCompleted :: "auth_state \<Rightarrow> me \<Rightarrow> bool \<Rightarrow> auth_state result" where
  "meGetCompleted st m isUsingAuth =
     map_res (\<lambda>newMe. st\<lparr>au_me := Some newMe, au_isMeLoading := False\<rparr>)
       (if isUsingAuth then map_res (\<lambda>r. m\<lparr>me_role := r\<rparr>) (getMeRole m) else Inr m)"

definition authReceived :: "auth_state \<Rightarrow> string list option \<Rightarrow> auth_state" where
  "authReceived st links = st\<lparr>au_links := Some (case links of None \<Rightarrow> [] | Some l \<Rightarrow> l), au_isAuthLoading := False\<rparr>"

definition logoutLinkReceived :: "auth_state \<Rightarrow> string option \<Rightarrow> bool \<Rightarrow> auth_state" where
  "logoutLinkReceived st logoutLink isUsingAuth = st\<lparr>au_logoutLink := logoutLink, au_isUsingAuth := isUsingAuth\<rparr>"

definition is_using_auth :: "string option \<Rightarrow> bool" where
  \<comment> \<open>\<open>!!logoutLink\<close>\<close>
  "is_using_auth logoutLink = (logoutLink \<noteq> None \<and> logoutLink \<noteq> Some [])"

definition authReducer :: "auth_state \<Rightarrow> auth_action \<Rightarrow> auth_state result" where
  "authReducer st action =
     (case action of
        AuthExpired links \<Rightarrow> Inr (initial_auth\<lparr>au_links := Some links\<rparr>)
      | AuthRequested \<Rightarrow> Inr (st\<lparr>au_isAuthLoading := True\<rparr>)
      | MeGetRequested \<Rightarrow> Inr (st\<lparr>au_isMeLoading := True\<rparr>)
      | MeGetCompleted m links logoutLink \<Rightarrow>
          let isUsingAuth = is_using_auth logoutLink
          in map_res (\<lambda>s. logoutLinkReceived (authReceived s links) logoutLink isUsingAuth) (meGetCompleted st m isUsingAuth)
      | _ \<Rightarrow> Inr st)"

section \<open>Presentation and notifications\<close>

record app_state =
  ap_inPresentationMode :: bool
  ap_autoRefresh :: int
  ap_showTemplateControlBar :: bool

datatype app_action =
    EnablePresentationMode
  | DisablePresentationMode
  | SetAutoRefresh int
  | TemplateControlBarVisibilityToggled

definition appEphemeralReducer :: "app_state \<Rightarrow> app_action \<Rightarrow> app_state" where
  "appEphemeralReducer st action =
     (case action of
        EnablePresentationMode \<Rightarrow> st\<lparr>ap_inPresentationMode := True\<rparr>
      | DisablePresentationMode \<Rightarrow> st\<lparr>ap_inPresentationMode := False\<rparr>
      | _ \<Rightarrow> st)"

definition appPersistedReducer :: "app_state \<Rightarrow> app_action \<Rightarrow> app_state" where
  "appPersistedReducer st action =
     (case action of
        SetAutoRefresh milliseconds \<Rightarrow> st\<lparr>ap_autoRefresh := milliseconds\<rparr>
      | TemplateControlBarVisibilityToggled \<Rightarrow> st\<lparr>ap_showTemplateControlBar := \<not> ap_showTemplateControlBar st\<rparr>
      | _ \<Rightarrow> st)"

definition appReducer :: "app_state \<Rightarrow> app_action \<Rightarrow> app_state" where
  "appReducer st action = appPersistedReducer (appEphemeralReducer st action) action"

record notification =
  nt_id :: "string option"
  nt_type :: string
  nt_message :: string

datatype notification_action = PublishNotification notification | DismissNotification string

definition notifications :: "string \<Rightarrow> notification list \<Rightarrow> notification_action \<Rightarrow> notification list" where
  \<comment> \<open>the first argument is what \<open>uuid.v4()\<close> returns\<close>
  "notifications uid st action =
     (case action of
        PublishNotification n \<Rightarrow> n\<lparr>nt_id := Some uid\<rparr> # st
      | DismissNotification i \<Rightarrow> filter (\<lambda>n. nt_id n \<noteq> Some i) st)"

section \<open>Asynchronous actions\<close>

datatype any_action =
    AAuth auth_action
  | ANotify notification
  | AError http_error "string list" "string option" \<comment> \<open>the error, its auth links and the alternative text\<close>
  | ALinksRequested
  | ALinksCompleted
  | ALinksFailed
  | AOther string \<comment> \<open>any other action, by its type\<close>

definition auth_type :: "auth_action \<Rightarrow> string" where
  "auth_type a =
     (case a of
        AuthExpired _ \<Rightarrow> ''AUTH_EXPIRED''
      | AuthRequested \<Rightarrow> ''AUTH_REQUESTED''
      | MeGetRequested \<Rightarrow> ''ME_GET_REQUESTED''
      | MeGetCompleted _ _ _ \<Rightarrow> ''ME_GET_COMPLETED''
      | MeGetFailed \<Rightarrow> ''ME_GET_FAILED''
      | MeChangeOrganizationRequested \<Rightarrow> ''ME_CHANGE_ORGANIZATION_REQUESTED''
      | MeChangeOrganizationCompleted \<Rightarrow> ''ME_CHANGE_ORGANIZATION_COMPLETED''
      | MeChangeOrganizationFailed \<Rightarrow> ''ME_CHANGE_ORGANIZATION_FAILED'')"

definition action_type :: "any_action \<Rightarrow> string" where
  "action_type a =
     (case a of
        AAuth x \<Rightarrow> auth_type x
      | ANotify _ \<Rightarrow> ''PUBLISH_NOTIFICATION''
      | AError _ _ _ \<Rightarrow> ''ERROR_THROWN''
      | ALinksRequested \<Rightarrow> ''LINKS_GET_REQUESTED''
      | ALinksCompleted \<Rightarrow> ''LINKS_GET_COMPLETED''
      | ALinksFailed \<Rightarrow> ''LINKS_GET_FAILED''
      | AOther t \<Rightarrow> t)"

definition message_notification :: "string \<Rightarrow> notification" where
  "message_notification m = \<lparr>nt_id = None, nt_type = ''info'', nt_message = m\<rparr>"

definition getMeAsync :: "bool \<Rightarrow> (me \<times> string list option \<times> string option) answer \<Rightarrow> string list \<Rightarrow> any_action list" where
  \<comment> \<open>the last argument is the auth links an error carries\<close>
  "getMeAsync shouldResetMe a links =
     (if shouldResetMe then [AAuth AuthRequested, AAuth MeGetRequested] else []) @
     (case a of
        Inr (m, auth, logoutLink) \<Rightarrow> [AAuth (MeGetCompleted m auth logoutLink)]
      | Inl e \<Rightarrow> [AAuth MeGetFailed, AError e links None])"

definition getLinksAsync :: "unit answer \<Rightarrow> string list \<Rightarrow> any_action list" where
  "getLinksAsync a links =
     [ALinksRequested] @
     (case a of Inr _ \<Rightarrow> [ALinksCompleted]
      | Inl e \<Rightarrow> [AError e links (Some ''Failed to retrieve api links from /chronograf/v1''), ALinksFailed])"

definition meChangeOrganizationAsync ::
    "(me \<times> string list option \<times> string option) answer \<Rightarrow> unit answer \<Rightarrow> string list \<Rightarrow> any_action list" where
  \<comment> \<open>reading the name of a role or an organization that is not there is caught like a failed call; such an
    error has no status and is written with status 0\<close>
  "meChangeOrganizationAsync a links_answer links =
     [AAuth MeChangeOrganizationRequested] @
     (case a of
        Inl e \<Rightarrow> [AError e links None, AAuth MeChangeOrganizationFailed]
      | Inr (m, auth, logoutLink) \<Rightarrow>
          (case me_currentOrganization m of
             None \<Rightarrow> [AError (Http_Error 0 None) links None, AAuth MeChangeOrganizationFailed]
           | Some org \<Rightarrow>
               (case List.find (\<lambda>r. rl_organization r = og_id org) (me_roles m) of
                  None \<Rightarrow> [AError (Http_Error 0 None) links None, AAuth MeChangeOrganizationFailed]
                | Some r \<Rightarrow>
                    [ANotify (message_notification (''switched to '' @ og_name org @ '' as '' @ rl_name r)),
                     AAuth MeChangeOrganizationCompleted, AAuth (MeGetCompleted m auth logoutLink)] @
                    getLinksAsync links_answer links)))"

section \<open>The error middleware\<close>

definition HTTP_FORBIDDEN :: int where "HTTP_FORBIDDEN = 403"

definition actionsAllowedDuringBlackout :: "string list" where
  "actionsAllowedDuringBlackout = [''@@'', ''AUTH_'', ''ME_'', ''PUBLISH_NOTIFICATION'', ''ERROR_'', ''LINKS_'']"

definition allowed :: "any_action \<Rightarrow> bool" where
  "allowed a = list_ex (js_includes (action_type a)) actionsAllowedDuringBlackout"

definition PRIVATE_MESSAGE :: string where
  "PRIVATE_MESSAGE = ''This organization is private. To gain access, you must be explicitly added by an administrator.''"

definition REMOVED_MESSAGE :: string where
  "REMOVED_MESSAGE = ''user'' @ [CHR 0x27] @ ''s current organization was not found''"

definition error_dispatches :: "me option \<Rightarrow> any_action \<Rightarrow> any_action list" where
  \<comment> \<open>what the middleware dispatches when it meets the action\<close>
  "error_dispatches m action =
     (case action of
        AError (Http_Error status message) links altText \<Rightarrow>
          if status = HTTP_FORBIDDEN then
            [AAuth (AuthExpired links)] @
            (if message = Some PRIVATE_MESSAGE then [ANotify (message_notification ''notifyOrgIsPrivate'')] else []) @
            (if message = Some REMOVED_MESSAGE then [ANotify (message_notification ''notifyCurrentOrgDeleted'')]
             else if m \<noteq> None then [ANotify (message_notification ''notifySessionTimedOut'')] else [])
          else if altText \<noteq> None \<and> altText \<noteq> Some [] then [ANotify (message_notification (the altText))]
          else []
      | _ \<Rightarrow> [])"

definition errorsMiddleware :: "me option \<Rightarrow> any_action \<Rightarrow> any_action list" where
  \<comment> \<open>the actions that reach the reducers: those it dispatches pass it again and are always allowed\<close>
  "errorsMiddleware m action =
     error_dispatches m action @ (if m = None \<and> \<not> allowed action then [] else [action])"

definition reduce_any :: "auth_state \<Rightarrow> any_action \<Rightarrow> auth_state result" where
  "reduce_any st action = (case action of AAuth a \<Rightarrow> authReducer st a | _ \<Rightarrow> Inr st)"

fun reduce_all :: "auth_state \<Rightarrow> any_action list \<Rightarrow> auth_state result" where
  "reduce_all st [] = Inr st"
| "reduce_all st (a # as) = bind_r (reduce_any st a) (\<lambda>st'. reduce_all st' as)"

definition dispatch_auth :: "auth_state \<Rightarrow> any_action \<Rightarrow> auth_state result" where
  "dispatch_auth st action = reduce_all st (errorsMiddleware (au_me st) action)"

fun dispatch_all :: "auth_state \<Rightarrow> any_action list \<Rightarrow> (auth_state \<times> any_action list) result" where
  \<comment> \<open>the state and every action that reached the reducers\<close>
  "dispatch_all st [] = Inr (st, [])"
| "dispatch_all st (a # as) =
     bind_r (dispatch_auth st a) (\<lambda>st'. map_res (\<lambda>(st'', reached). (st'', errorsMiddleware (au_me st) a @ reached)) (dispatch_all st' as))"

section \<open>Logged out\<close>

definition logs_in :: "any_action \<Rightarrow> bool" where
  "logs_in a = (case a of AAuth (MeGetCompleted _ _ _) \<Rightarrow> True | _ \<Rightarrow> False)"

lemma error_dispatches_allowed: "list_all allowed (error_dispatches m a) \<and> \<not> list_ex logs_in (error_dispatches m a)"
proof -
  have "allowed (AAuth (AuthExpired l))" for l
    by (simp add: allowed_def action_type_def auth_type_def actionsAllowedDuringBlackout_def js_includes_def)
  moreover have "allowed (ANotify n)" for n
    by (simp add: allowed_def action_type_def actionsAllowedDuringBlackout_def js_includes_def)
  ultimately show ?thesis
    by (auto simp: error_dispatches_def logs_in_def split: any_action.split http_error.split)
qed

lemma reduce_logged_out:
  "\<not> logs_in a \<Longrightarrow> au_me st = None \<Longrightarrow> \<exists>st'. reduce_any st a = Inr st' \<and> au_me st' = None"
  by (auto simp: reduce_any_def authReducer_def logs_in_def initial_auth_def split: any_action.split auth_action.split)

lemma reduce_all_logged_out:
  "\<not> list_ex logs_in as \<Longrightarrow> au_me st = None \<Longrightarrow> \<exists>st'. reduce_all st as = Inr st' \<and> au_me st' = None"
proof (induction as arbitrary: st)
  case (Cons a as)
  then obtain st' where "reduce_any st a = Inr st'" "au_me st' = None" using reduce_logged_out[of a st] by auto
  then show ?case using Cons by simp
qed simp

lemma dispatch_logged_out:
  assumes "au_me st = None" and "\<not> logs_in a"
  shows "\<exists>st'. dispatch_auth st a = Inr st' \<and> au_me st' = None"
    and "list_all allowed (errorsMiddleware None a)"
proof -
  show "list_all allowed (errorsMiddleware None a)"
    using error_dispatches_allowed[of None a] by (simp add: errorsMiddleware_def)
  have "\<not> list_ex logs_in (errorsMiddleware None a)"
    using error_dispatches_allowed[of None a] assms(2) by (simp add: errorsMiddleware_def)
  then show "\<exists>st'. dispatch_auth st a = Inr st' \<and> au_me st' = None"
    using reduce_all_logged_out assms(1) by (simp add: dispatch_auth_def)
qed



text \<open>
  A failed request for the user. When the request that resets the user fails with anything but
  a forbidden status, no reducer answers the failure: both loading flags stay set.
\<close>

theorem getMe_failed_keeps_loading:
  assumes "status \<noteq> HTTP_FORBIDDEN"
  shows "\<exists>st' reached. dispatch_all st (getMeAsync True (Inl (Http_Error status message)) links) = Inr (st', reached) \<and>
    au_isMeLoading st' \<and> au_isAuthLoading st' \<and> au_me st' = au_me st"
proof -
  have "allowed (AAuth AuthRequested)" "allowed (AAuth MeGetRequested)" "allowed (AAuth MeGetFailed)"
    by (simp_all add: allowed_def action_type_def auth_type_def actionsAllowedDuringBlackout_def js_includes_def)
  then show ?thesis
    using assms
    by (simp add: getMeAsync_def dispatch_auth_def errorsMiddleware_def error_dispatches_def reduce_any_def authReducer_def)
qed

theorem getMe_failed_keeps_loading_witness:
  "\<exists>st' reached. dispatch_all initial_auth (getMeAsync True (Inl (Http_Error 500 None)) []) = Inr (st', reached) \<and> au_isMeLoading st'"
  using getMe_failed_keeps_loading[of 500 initial_auth None "[]"] by (auto simp: HTTP_FORBIDDEN_def)

end
