(* ===== verification/Dashboard_Store.thy ===== *)
theory Dashboard_Store
  imports Dashboard_Types Query_Store Store_Prelude
begin

text \<open>
  The dashboards of the application: the actions of \<open>ui/src/dashboards/actions/index.ts\<close>, the reducers
  \<open>ui/src/dashboards/reducers/ui.ts\<close> and \<open>dashTimeV1.ts\<close>, where a new cell goes
  (\<open>ui/src/dashboards/utils/cellGetters.ts\<close>), the time ranges of the query string
  (\<open>ui/src/dashboards/utils/time.ts\<close>) and the asynchronous actions, as what they dispatch given the answers
  of their calls.
\<close>

section \<open>State and actions\<close>

record dashboard_ui =
  du_dashboards :: "dashboard list"
  du_timeRange :: time_range
  du_zoomedTimeRange :: time_range
  du_isEditMode :: bool
  du_queryID :: "string option" \<comment> \<open>\<open>cellQueryStatus\<close>\<close>
  du_status :: "string option"
  du_hoverTime :: string
  du_activeCellID :: string

definition nullTimeRange :: time_range where
  "nullTimeRange = \<lparr>tr_lower = None, tr_upper = Some None, tr_seconds = None, tr_format = None\<rparr>"

definition initial_ui :: dashboard_ui where
  "initial_ui = \<lparr>du_dashboards = [],
     du_timeRange = \<lparr>tr_lower = Some ''now() - 1h'', tr_upper = Some None, tr_seconds = None, tr_format = None\<rparr>,
     du_zoomedTimeRange = nullTimeRange, du_isEditMode = False, du_queryID = None, du_status = None,
     du_hoverTime = ''0'', du_activeCellID = []\<rparr>"

datatype dash_action =
    DLoadDashboards "dashboard list"
  | DLoadDashboard dashboard
  | DSetDashTimeV1 int time_range
  | DRetainRanges "int list"
  | DSetTimeRange time_range
  | DSetZoomedTimeRange time_range
  | DUpdateDashboard dashboard
  | DCreateDashboard dashboard
  | DDeleteDashboard dashboard
  | DDeleteDashboardFailed dashboard
  | DSyncCell dashboard dash_cell
  | DAddCell dashboard dash_cell
  | DDeleteCell dashboard dash_cell
  | DEditCellQueryStatus string string
  | DLocalSelected int string template_value
  | DUpdateTemplates "template list"
  | DSetHoverTime string
  | DSetActiveCell string

section \<open>The reducers\<close>

definition same_place :: "dash_cell \<Rightarrow> dash_cell \<Rightarrow> bool" where
  \<comment> \<open>\<open>c.x === cell.x && c.y === cell.y\<close>\<close>
  "same_place c d = (dc_x c = dc_x d \<and> dc_y c = dc_y d)"

definition put_dashboard :: "dashboard \<Rightarrow> dashboard list \<Rightarrow> dashboard list" where
  \<comment> \<open>\<open>map(d => (d.id === new.id ? new : d))\<close>\<close>
  "put_dashboard new ds = map (\<lambda>d. if da_id d = da_id new then new else d) ds"

definition select_local :: "string \<Rightarrow> template_value \<Rightarrow> template \<Rightarrow> template" where
  "select_local templateID newValue t =
     (if t_id t \<noteq> templateID then t
      else if t_type t = TText then t\<lparr>t_values := [newValue]\<rparr>
      else t\<lparr>t_values := map (\<lambda>v. v\<lparr>tv_localSelected := (tv_value v = tv_value newValue)\<rparr>) (t_values t)\<rparr>)"

definition update_template :: "template list \<Rightarrow> template \<Rightarrow> template" where
  "update_template updated t = (case List.find (\<lambda>u. t_id u = t_id t) updated of None \<Rightarrow> t | Some u \<Rightarrow> u)"

definition uiReducer :: "dashboard_ui \<Rightarrow> dash_action \<Rightarrow> dashboard_ui" where
  "uiReducer st action =
     (case action of
        DLoadDashboards dashboards \<Rightarrow> st\<lparr>du_dashboards := dashboards\<rparr>
      | DLoadDashboard dashboard \<Rightarrow> st\<lparr>du_dashboards := union_by da_id [dashboard] (du_dashboards st)\<rparr>
      | DSetTimeRange tRange \<Rightarrow> st\<lparr>du_timeRange := tRange\<rparr>
      | DSetZoomedTimeRange tRange \<Rightarrow> st\<lparr>du_zoomedTimeRange := tRange\<rparr>
      | DUpdateDashboard dashboard \<Rightarrow> st\<lparr>du_dashboards := put_dashboard dashboard (du_dashboards st)\<rparr>
      | DCreateDashboard dashboard \<Rightarrow> st\<lparr>du_dashboards := du_dashboards st @ [dashboard]\<rparr>
      | DDeleteDashboard dashboard \<Rightarrow> st\<lparr>du_dashboards := filter (\<lambda>d. da_id d \<noteq> da_id dashboard) (du_dashboards st)\<rparr>
      | DDeleteDashboardFailed dashboard \<Rightarrow> st\<lparr>du_dashboards := dashboard # du_dashboards st\<rparr>
      | DAddCell dashboard c \<Rightarrow>
          let newCells = c # da_cells dashboard
          in st\<lparr>du_dashboards := put_dashboard (dashboard\<lparr>da_cells := newCells\<rparr>) (du_dashboards st)\<rparr>
      | DDeleteCell dashboard c \<Rightarrow>
          let newCells = filter (\<lambda>x. \<not> same_place x c) (da_cells dashboard)
          in st\<lparr>du_dashboards := put_dashboard (dashboard\<lparr>da_cells := newCells\<rparr>) (du_dashboards st)\<rparr>
      | DSyncCell dashboard c \<Rightarrow>
          let newCells = map (\<lambda>x. if same_place x c then c else x) (da_cells dashboard)
          in st\<lparr>du_dashboards := put_dashboard (dashboard\<lparr>da_cells := newCells\<rparr>) (du_dashboards st)\<rparr>
      | DEditCellQueryStatus queryID status \<Rightarrow> st\<lparr>du_queryID := Some queryID, du_status := Some status\<rparr>
      | DLocalSelected dashboardID templateID newValue \<Rightarrow>
          st\<lparr>du_dashboards := map (\<lambda>d. if da_id d \<noteq> dashboardID then d
               else d\<lparr>da_templates := map (select_local templateID newValue) (da_templates d)\<rparr>) (du_dashboards st)\<rparr>
      | DUpdateTemplates updated \<Rightarrow>
          st\<lparr>du_dashboards := map (\<lambda>d. d\<lparr>da_templates := map (update_template updated) (da_templates d)\<rparr>) (du_dashboards st)\<rparr>
      | DSetHoverTime t \<Rightarrow> st\<lparr>du_hoverTime := t\<rparr>
      | DSetActiveCell i \<Rightarrow> st\<lparr>du_activeCellID := i\<rparr>
      | _ \<Rightarrow> st)"

definition dashTimeV1 :: "(int \<times> time_range) list \<Rightarrow> dash_action \<Rightarrow> (int \<times> time_range) list" where
  "dashTimeV1 ranges action =
     (case action of
        DDeleteDashboard dashboard \<Rightarrow> filter (\<lambda>r. fst r \<noteq> da_id dashboard) ranges
      | DRetainRanges dashboardIDs \<Rightarrow> filter (\<lambda>r. fst r \<in> set dashboardIDs) ranges
      | DSetDashTimeV1 dashboardID tRange \<Rightarrow> union_by fst [(dashboardID, tRange)] ranges
      | _ \<Rightarrow> ranges)"

section \<open>Where a new cell goes\<close>

definition count_value :: "nat js_obj \<times> nat \<times> int option \<Rightarrow> int \<Rightarrow> nat js_obj \<times> nat \<times> int option" where
  \<comment> \<open>the callback: \<open>distribution\<close>, \<open>mostCommonCount\<close> and \<open>mostCommonValue\<close>\<close>
  "count_value acc value =
     (let (distribution, mostCommonCount, mostCommonValue) = acc;
          n = (case obj_get distribution (int_str value) of None \<Rightarrow> 0 | Some k \<Rightarrow> k) + 1;
          distribution = obj_set distribution (int_str value) n
      in if n > mostCommonCount then (distribution, n, Some value)
         else (distribution, mostCommonCount, mostCommonValue))"

definition getMostCommonValue :: "int list \<Rightarrow> int option" where
  "getMostCommonValue values = snd (snd (foldl count_value ([], 0, None) values))"

definition numColumns :: int where "numColumns = 12"

fun max_of :: "int list \<Rightarrow> int result" where
  \<comment> \<open>\<open>reduce((a, b) => (a > b ? a : b))\<close>, which throws for an empty array\<close>
  "max_of [] = Inl TypeError"
| "max_of (x # xs) = Inr (foldl (\<lambda>a b. if a > b then a else b) x xs)"

definition getNextAvailablePosition :: "dash_cell list \<Rightarrow> int \<Rightarrow> (int \<times> int) result" where
  \<comment> \<open>of a dashboard with these cells, for a cell of the given width\<close>
  "getNextAvailablePosition cells w =
     bind_r (max_of (map dc_y cells)) (\<lambda>farthestY.
       let bottomCells = filter (\<lambda>c. dc_y c = farthestY) cells
       in bind_r (max_of (map dc_x bottomCells)) (\<lambda>farthestX.
          bind_r (deref (List.find (\<lambda>c. dc_x c = farthestX) bottomCells)) (\<lambda>lastCell.
            let availableSpace = numColumns - (dc_x lastCell + dc_w lastCell);
                newCellFits = (availableSpace \<ge> w)
            in Inr (if newCellFits then (dc_x lastCell + dc_w lastCell, farthestY)
                    else (0, dc_y lastCell + dc_h lastCell)))))"

definition getNewDashboardCell :: "dash_cell list \<Rightarrow> cell_type \<Rightarrow> dash_cell result" where
  "getNewDashboardCell cells cellType =
     (let typedCell = NEW_DEFAULT_DASHBOARD_CELL\<lparr>dc_type := cellType, dc_name := UNTITLED_GRAPH\<rparr>
      in if cells = [] then Inr typedCell
         else let w = the (getMostCommonValue (map dc_w cells));
                  h = the (getMostCommonValue (map dc_h cells));
                  newCell = typedCell\<lparr>dc_w := w, dc_h := h\<rparr>
              in map_res (\<lambda>(x, y). newCell\<lparr>dc_x := x, dc_y := y\<rparr>) (getNextAvailablePosition cells w))"

definition getClonedDashboardCell :: "dash_cell list \<Rightarrow> dash_cell \<Rightarrow> dash_cell result" where
  "getClonedDashboardCell cells cloneCell =
     map_res (\<lambda>(x, y). cloneCell\<lparr>dc_x := x, dc_y := y, dc_name := dc_name cloneCell @ '' (clone)''\<rparr>)
       (getNextAvailablePosition cells (dc_w cloneCell))"

section \<open>Time ranges of the query string\<close>

definition tr_upper_text :: "time_range \<Rightarrow> string option" where
  "tr_upper_text r = (case tr_upper r of None \<Rightarrow> None | Some u \<Rightarrow> u)"

definition range_option :: "time_range_option \<Rightarrow> time_range" where
  "range_option opt = \<lparr>tr_lower = Some (tro_lower opt), tr_upper = Some (tro_upper opt),
     tr_seconds = Some (int (tro_seconds opt)), tr_format = None\<rparr>"

definition validRelativeTimeRange :: "time_range \<Rightarrow> time_range" where
  "validRelativeTimeRange r =
     (case List.find (\<lambda>t. Some (tro_lower t) = tr_lower r) timeRanges of None \<Rightarrow> nullTimeRange | Some t \<Rightarrow> range_option t)"

definition validAbsoluteTimeRange :: "(string \<Rightarrow> int option) \<Rightarrow> time_range \<Rightarrow> time_range" where
  \<comment> \<open>\<open>moment\<close> of a text: its time, or \<open>None\<close> where it is not valid\<close>
  "validAbsoluteTimeRange moment r =
     (case (tr_lower r, tr_upper_text r) of
        (Some l, Some u) \<Rightarrow>
          if l = [] \<or> u = [] then nullTimeRange
          else (case moment l of
                  None \<Rightarrow> nullTimeRange
                | Some lt \<Rightarrow>
                    if u = ''now()'' then r
                    else (case moment u of None \<Rightarrow> nullTimeRange | Some ut \<Rightarrow> if lt < ut then r else nullTimeRange))
      | _ \<Rightarrow> nullTimeRange)"

definition validTimeRange :: "(string \<Rightarrow> int option) \<Rightarrow> time_range \<Rightarrow> time_range" where
  "validTimeRange moment r =
     (let validated = validRelativeTimeRange r
      in if truthy (tr_lower validated) then validated else validAbsoluteTimeRange moment r)"

record query_params =
  qp_lower :: "string option"
  qp_upper :: "string option"
  qp_zoomedLower :: "string option"
  qp_zoomedUpper :: "string option"

definition defaultTimeRange :: time_range where
  "defaultTimeRange = \<lparr>tr_lower = Some ''now() - 15m'', tr_upper = Some None, tr_seconds = Some 900, tr_format = Some ''influxql''\<rparr>"

datatype dash_dispatch =
    DD dash_action
  | DDNotify string
  | DDError http_error
  | DDThrown js_error
  | DDReplaceParams query_params
  | DDReplaceTempVars "string option js_obj"
  | DDRoute string

definition params_range :: "string option \<Rightarrow> string option \<Rightarrow> time_range" where
  "params_range l u = \<lparr>tr_lower = l, tr_upper = map_option Some u, tr_seconds = None, tr_format = None\<rparr>"

definition updateTimeRangeFromQueryParams ::
    "(string \<Rightarrow> int option) \<Rightarrow> query_params \<Rightarrow> (int \<times> time_range) list \<Rightarrow> int \<Rightarrow> dash_dispatch list" where
  "updateTimeRangeFromQueryParams moment qp ranges dashboardID =
     (let fromQueries = params_range (qp_lower qp) (qp_upper qp);
          validated = validTimeRange moment fromQueries;
          (validated, complaints) =
            (if truthy (tr_lower validated) then (validated, [])
             else ((case List.find (\<lambda>r. fst r = dashboardID) ranges of Some r \<Rightarrow> snd r | None \<Rightarrow> defaultTimeRange),
                   if truthy (qp_lower qp) \<or> truthy (qp_upper qp)
                   then [DDNotify ''notifyInvalidTimeRangeValueInURLQuery''] else []));
          zoomed = validAbsoluteTimeRange moment (params_range (qp_zoomedLower qp) (qp_zoomedUpper qp));
          zoomComplaints =
            (if \<not> truthy (tr_lower zoomed) \<and> (truthy (qp_zoomedLower qp) \<or> truthy (qp_zoomedUpper qp))
             then [DDNotify ''notifyInvalidZoomedTimeRangeValueInURLQuery''] else [])
      in complaints @ [DD (DSetDashTimeV1 dashboardID validated)] @ zoomComplaints @ [DD (DSetZoomedTimeRange zoomed)] @
         [DDReplaceParams \<lparr>qp_lower = tr_lower validated, qp_upper = tr_upper_text validated,
            qp_zoomedLower = tr_lower zoomed, qp_zoomedUpper = tr_upper_text zoomed\<rparr>])"

section \<open>Asynchronous actions\<close>

definition getDashboardsAsync :: "dashboard list answer \<Rightarrow> dash_dispatch list" where
  "getDashboardsAsync a = (case a of Inl e \<Rightarrow> [DDError e] | Inr ds \<Rightarrow> [DD (DLoadDashboards ds)])"

definition removeUnselectedTemplateValues :: "dashboard \<Rightarrow> template list" where
  "removeUnselectedTemplateValues d =
     map (\<lambda>t. if t_type t = TCSV \<or> t_type t = TMap then t
              else t\<lparr>t_values := (case List.find tv_selected (t_values t) of None \<Rightarrow> [] | Some v \<Rightarrow> [v])\<rparr>) (da_templates d)"

definition putDashboard :: "dashboard \<Rightarrow> (dashboard \<Rightarrow> dashboard answer) \<Rightarrow> dash_dispatch list" where
  \<comment> \<open>the server's answer depends on what is put\<close>
  "putDashboard d put =
     (case put (d\<lparr>da_templates := removeUnselectedTemplateValues d\<rparr>) of
        Inl e \<Rightarrow> [DDError e]
      | Inr saved \<Rightarrow> [DD (DUpdateDashboard (saved\<lparr>da_templates := da_templates d\<rparr>))])"

definition getDashboard :: "dashboard_ui \<Rightarrow> int \<Rightarrow> dashboard result" where
  "getDashboard st dashboardId =
     (case List.find (\<lambda>d. da_id d = dashboardId) (du_dashboards st) of
        None \<Rightarrow> Inl (Thrown ''Could not find dashboard'')
      | Some d \<Rightarrow> Inr d)"

definition updateDashboardCell :: "dashboard \<Rightarrow> dash_cell answer \<Rightarrow> dash_dispatch list" where
  "updateDashboardCell d a = (case a of Inl e \<Rightarrow> [DDError e] | Inr c \<Rightarrow> [DD (DSyncCell d c)])"

definition deleteDashboardAsync :: "dashboard \<Rightarrow> http_error option + unit \<Rightarrow> dash_dispatch list \<times> js_error option" where
  \<comment> \<open>what it dispatches, and what its promise is rejected with; \<open>None\<close> is a call without an answer
    (the server is not reached), whose error has no \<open>data\<close>\<close>
  "deleteDashboardAsync d a =
     (case a of
        Inr _ \<Rightarrow> ([DD (DDeleteDashboard d), DDNotify ''notifyDashboardDeleted''], None)
      | Inl (Some e) \<Rightarrow> ([DD (DDeleteDashboard d), DDError e, DD (DDeleteDashboardFailed d)], None)
      | Inl None \<Rightarrow> ([DD (DDeleteDashboard d)], Some TypeError))"

definition addDashboardCellAsync :: "dashboard \<Rightarrow> cell_type \<Rightarrow> (dash_cell \<Rightarrow> dash_cell answer) \<Rightarrow> dash_dispatch list" where
  "addDashboardCellAsync d cellType add =
     (case getNewDashboardCell (da_cells d) cellType of
        Inl e \<Rightarrow> [DDThrown e]
      | Inr c \<Rightarrow> (case add c of Inl e \<Rightarrow> [DDError e] | Inr saved \<Rightarrow> [DD (DAddCell d saved), DDNotify ''notifyCellAdded'']))"

definition cloneDashboardCellAsync :: "dashboard \<Rightarrow> dash_cell \<Rightarrow> (dash_cell \<Rightarrow> dash_cell answer) \<Rightarrow> dash_dispatch list" where
  "cloneDashboardCellAsync d cell add =
     (case getClonedDashboardCell (da_cells d) cell of
        Inl e \<Rightarrow> [DDThrown e]
      | Inr c \<Rightarrow> (case add c of Inl e \<Rightarrow> [DDError e] | Inr saved \<Rightarrow> [DD (DAddCell d saved), DDNotify ''notifyCellAdded'']))"

definition deleteDashboardCellAsync :: "dashboard \<Rightarrow> dash_cell \<Rightarrow> unit answer \<Rightarrow> dash_dispatch list" where
  "deleteDashboardCellAsync d c a =
     (case a of Inl e \<Rightarrow> [DDError e] | Inr _ \<Rightarrow> [DD (DDeleteCell d c), DDNotify ''notifyCellDeleted''])"

definition importDashboardAsync ::
    "dashboard \<Rightarrow> (dashboard \<Rightarrow> dashboard answer) \<Rightarrow> dashboard list answer \<Rightarrow> dash_dispatch list" where
  "importDashboardAsync d create get =
     (case create (d\<lparr>da_templates := removeUnselectedTemplateValues d\<rparr>) of
        Inl e \<Rightarrow> [DDNotify ''notifyDashboardImportFailed'', DDError e]
      | Inr saved \<Rightarrow>
          [DD (DCreateDashboard (saved\<lparr>da_templates := da_templates d\<rparr>))] @
          (case get of
             Inl e \<Rightarrow> [DDNotify ''notifyDashboardImportFailed'', DDError e]
           | Inr ds \<Rightarrow> [DD (DLoadDashboards ds), DDNotify ''notifyDashboardImported'']))"

definition invalid_selections :: "string js_obj \<Rightarrow> template list \<Rightarrow> dash_dispatch list" where
  \<comment> \<open>a notification per selection no variable offers\<close>
  "invalid_selections selections templates =
     map (\<lambda>_. DDNotify ''notifyInvalidQueryParam'')
       (filter (\<lambda>(key, v). \<not> list_ex (\<lambda>t. t_tempVar t = key \<and> list_ex (\<lambda>x. tv_value x = v) (t_values t)) templates)
         (obj_entries selections))"

definition dash_actions :: "dash_dispatch list \<Rightarrow> dash_action list" where
  \<comment> \<open>the actions among them that the dashboard reducers answer\<close>
  "dash_actions ds = List.map_filter (\<lambda>d. case d of DD a \<Rightarrow> Some a | _ \<Rightarrow> None) ds"

definition putDashboardByID :: "dashboard_ui \<Rightarrow> int \<Rightarrow> (dashboard \<Rightarrow> dashboard answer) \<Rightarrow> dash_dispatch list" where
  "putDashboardByID st dashboardID put =
     (case getDashboard st dashboardID of
        Inl e \<Rightarrow> [DDThrown e]
      | Inr d \<Rightarrow> (case put (d\<lparr>da_templates := removeUnselectedTemplateValues d\<rparr>) of Inl e \<Rightarrow> [DDError e] | Inr _ \<Rightarrow> []))"

definition updateTemplateQueryParams :: "dashboard_ui \<Rightarrow> int \<Rightarrow> dash_dispatch list result" where
  "updateTemplateQueryParams st dashboardId =
     map_res (\<lambda>d. [DDReplaceTempVars (templateSelectionsFromTemplates (da_templates d))]) (getDashboard st dashboardId)"

definition getDashboardWithTemplatesAsync ::
    "(string \<Rightarrow> int option) \<Rightarrow> dashboard answer \<Rightarrow> string js_obj \<Rightarrow> (template list \<Rightarrow> string js_obj \<Rightarrow> template list result) \<Rightarrow>
     query_params \<Rightarrow> (int \<times> time_range) list \<Rightarrow> dashboard_ui \<Rightarrow> int \<Rightarrow> dash_dispatch list result" where
  \<comment> \<open>\<open>hydrate\<close> is what \<open>hydrateTemplates\<close> resolves to or rejects with; \<open>Inl\<close> where the promise is rejected,
    without the actions dispatched before that\<close>
  "getDashboardWithTemplatesAsync moment a selections hydrate qp ranges st dashboardId =
     (case a of
        Inl _ \<Rightarrow> Inr [DDRoute ''dashboards'', DDNotify ''notifyDashboardNotFound'']
      | Inr d \<Rightarrow>
          bind_r (hydrate (da_templates d) selections) (\<lambda>templates.
            let loaded = d\<lparr>da_templates := templates\<rparr>
            in map_res (\<lambda>params. invalid_selections selections templates @ [DD (DLoadDashboard loaded)] @ params @
                   updateTimeRangeFromQueryParams moment qp ranges dashboardId)
                 (updateTemplateQueryParams (uiReducer st (DLoadDashboard loaded)) dashboardId)))"

definition rehydrateTemplatesAsync ::
    "(template list \<Rightarrow> template list result) \<Rightarrow> dashboard_ui \<Rightarrow> int \<Rightarrow> dash_dispatch list result" where
  "rehydrateTemplatesAsync hydrate st dashboardId =
     bind_r (getDashboard st dashboardId) (\<lambda>d.
     bind_r (hydrate (da_templates d)) (\<lambda>templates.
       map_res (\<lambda>params. DD (DUpdateTemplates templates) # params)
         (updateTemplateQueryParams (uiReducer st (DUpdateTemplates templates)) dashboardId)))"

section \<open>The list of dashboards is a map\<close>

definition map_update :: "(int \<Rightarrow> dashboard option) \<Rightarrow> dashboard \<Rightarrow> (int \<Rightarrow> dashboard option)" where
  "map_update m d = (if m (da_id d) = None then m else m(da_id d \<mapsto> d))"

fun ui_spec :: "(int \<Rightarrow> dashboard option) \<Rightarrow> dash_action \<Rightarrow> (int \<Rightarrow> dashboard option)" where
  "ui_spec m (DLoadDashboards ds) = entries_map da_id ds"
| "ui_spec m (DLoadDashboard d) = m(da_id d \<mapsto> d)"
| "ui_spec m (DCreateDashboard d) = m(da_id d \<mapsto> d)"
| "ui_spec m (DDeleteDashboardFailed d) = m(da_id d \<mapsto> d)"
| "ui_spec m (DUpdateDashboard d) = map_update m d"
| "ui_spec m (DDeleteDashboard d) = m(da_id d := None)"
| "ui_spec m (DAddCell d c) = map_update m (d\<lparr>da_cells := c # da_cells d\<rparr>)"
| "ui_spec m (DDeleteCell d c) =
     map_update m (d\<lparr>da_cells := filter (\<lambda>x. \<not> same_place x c) (da_cells d)\<rparr>)"
| "ui_spec m (DSyncCell d c) =
     map_update m (d\<lparr>da_cells := map (\<lambda>x. if same_place x c then c else x) (da_cells d)\<rparr>)"
| "ui_spec m (DLocalSelected i t v) =
     m(i := map_option (\<lambda>d. d\<lparr>da_templates := map (select_local t v) (da_templates d)\<rparr>) (m i))"
| "ui_spec m (DUpdateTemplates ts) =
     (\<lambda>k. map_option (\<lambda>d. d\<lparr>da_templates := map (update_template ts) (da_templates d)\<rparr>) (m k))"
| "ui_spec m _ = m"

definition ui_inv :: "dashboard_ui \<Rightarrow> bool" where
  "ui_inv st = distinct (map da_id (du_dashboards st))"

fun ui_action_ok :: "dashboard_ui \<Rightarrow> dash_action \<Rightarrow> bool" where
  "ui_action_ok st (DLoadDashboards ds) = distinct (map da_id ds)"
| "ui_action_ok st (DCreateDashboard d) = (da_id d \<notin> da_id ` set (du_dashboards st))"
| "ui_action_ok st (DDeleteDashboardFailed d) = (da_id d \<notin> da_id ` set (du_dashboards st))"
| "ui_action_ok st _ = True"

definition ui_map :: "dashboard_ui \<Rightarrow> int \<Rightarrow> dashboard option" where
  "ui_map st = entries_map da_id (du_dashboards st)"

interpretation put_dashboard: key_preserving da_id "\<lambda>d. if da_id d = da_id new then new else d" for new
  by unfold_locales simp

lemma ui_map_put: "entries_map da_id (put_dashboard d ds) =
    map_update (entries_map da_id ds) d"
  unfolding put_dashboard_def entries_map_replace map_update_def by (simp add: entries_map_None)

lemma ids_put: "map da_id (put_dashboard d ds) = map da_id ds"
  unfolding put_dashboard_def by (rule put_dashboard.map_keys)

lemma ids_mapped: "(\<And>d. da_id (f d) = da_id d) \<Longrightarrow> map da_id (map f ds) = map da_id ds"
  by simp

lemma ui_map_local: "entries_map da_id (map (\<lambda>d. if da_id d \<noteq> i then d else f d) ds) =
    (entries_map da_id ds)(i := map_option f (entries_map da_id ds i))" if "\<And>d. da_id (f d) = da_id d" for f i
  by (rule ext, induction ds) (auto simp: entries_map_Cons that)

lemma distinct_union_by: "distinct (map key (union_by key xs ys))"
  unfolding union_by_def by (rule distinct_uniq_by)

lemma ui_keeps: "ui_inv st \<Longrightarrow> ui_action_ok st a \<Longrightarrow> ui_inv (uiReducer st a)"
proof (cases a)
  case (DLocalSelected i t v)
  then show "ui_inv st \<Longrightarrow> ?thesis"
    by (simp add: uiReducer_def ui_inv_def o_def if_distrib cong: if_cong)
qed (simp_all add: uiReducer_def ui_inv_def Let_def ids_put distinct_union_by distinct_map_filter o_def)

lemma ui_refines: "ui_inv st \<Longrightarrow> ui_action_ok st a \<Longrightarrow> ui_map (uiReducer st a) = ui_spec (ui_map st) a"
proof (cases a)
  case (DLoadDashboard d)
  then show "ui_inv st \<Longrightarrow> ?thesis"
    by (simp add: uiReducer_def ui_inv_def ui_map_def union_by_single entries_map_Cons_map entries_map_remove)
next
  case (DUpdateTemplates ts)
  then show ?thesis
    by (simp add: uiReducer_def ui_map_def fun_eq_iff entries_map_map)
qed (simp_all add: uiReducer_def ui_map_def Let_def ui_map_put entries_map_snoc_fresh entries_map_Cons_map
      entries_map_remove ui_map_local)

interpretation ui: functional_refinement uiReducer ui_inv ui_action_ok ui_spec ui_map
  by unfold_locales (rule ui_keeps ui_refines; assumption)+

text \<open>
  C19: The dashboards of the store implement a map from ids to dashboards. For any sequence of actions in
  which a loaded list has distinct ids and a created or restored dashboard is new, looking dashboards
  up in the list that the reducer leaves gives what the map operations give, and the ids stay distinct;
  an update of a dashboard that is not there, or of one of its cells, changes nothing.
\<close>

theorem dashboards_implement_map:
  assumes "ui_inv st" and "run_ok ui_action_ok uiReducer st as"
  shows "ui_map (run_store uiReducer st as) = run_store ui_spec (ui_map st) as \<and> ui_inv (run_store uiReducer st as)"
  using ui.run_refines[OF assms] ui.run_inv[OF assms] by simp

section \<open>Deleting a dashboard\<close>

lemma delete_dispatches:
  "dash_actions (fst (deleteDashboardAsync d (Inr u))) = [DDeleteDashboard d]"
  "dash_actions (fst (deleteDashboardAsync d (Inl (Some e)))) = [DDeleteDashboard d, DDeleteDashboardFailed d]"
  "dash_actions (fst (deleteDashboardAsync d (Inl None))) = [DDeleteDashboard d]"
  by (simp_all add: deleteDashboardAsync_def dash_actions_def List.map_filter_simps)

lemma ui_map_delete: "ui_map (uiReducer st (DDeleteDashboard d)) = (ui_map st)(da_id d := None)"
  by (simp add: uiReducer_def ui_map_def entries_map_remove)

lemma ui_map_restore: "ui_map (uiReducer st (DDeleteDashboardFailed d)) = (ui_map st)(da_id d \<mapsto> d)"
  by (simp add: uiReducer_def ui_map_def entries_map_Cons_map)

text \<open>
  C20: Deleting a dashboard is optimistic: it leaves the store before the server is asked. When the
  server refuses, the dashboards are the same as before by id; when it agrees, exactly that
  dashboard is gone. When the server is not reached at all the error has no \<open>data\<close>, reading its message
  throws inside the handler, and the dashboard is gone from the store although nothing was deleted.
\<close>

theorem deleteDashboardAsync_outcomes:
  assumes "ui_map st (da_id d) = Some d"
  shows "ui_map (run_store uiReducer st (dash_actions (fst (deleteDashboardAsync d (Inl (Some e)))))) = ui_map st \<and>
    ui_map (run_store uiReducer st (dash_actions (fst (deleteDashboardAsync d (Inr ()))))) = (ui_map st)(da_id d := None) \<and>
    ui_map (run_store uiReducer st (dash_actions (fst (deleteDashboardAsync d (Inl None))))) = (ui_map st)(da_id d := None) \<and>
    snd (deleteDashboardAsync d (Inl None)) = Some TypeError"
proof -
  have "(ui_map st)(da_id d \<mapsto> d) = ui_map st"
    using assms by (auto simp: fun_eq_iff)
  then show ?thesis
    unfolding delete_dispatches by (simp add: ui_map_delete ui_map_restore) (simp add: deleteDashboardAsync_def)
qed

definition some_dashboard :: dashboard where
  "some_dashboard = \<lparr>da_id = 7, da_cells = [], da_templates = [], da_name = ''cpu'', da_organization = []\<rparr>"

lemma deleteDashboardAsync_outcomes_witness:
  "ui_map (run_store uiReducer (initial_ui\<lparr>du_dashboards := [some_dashboard]\<rparr>)
     (dash_actions (fst (deleteDashboardAsync some_dashboard (Inl None))))) =
   (ui_map (initial_ui\<lparr>du_dashboards := [some_dashboard]\<rparr>))(7 := None)"
proof -
  have id: "da_id some_dashboard = 7" by (simp add: some_dashboard_def)
  have "ui_map (initial_ui\<lparr>du_dashboards := [some_dashboard]\<rparr>) (da_id some_dashboard) = Some some_dashboard"
    by (simp add: ui_map_def entries_map_Cons)
  from deleteDashboardAsync_outcomes[OF this] show ?thesis unfolding id by blast
qed

lemma dashboards_implement_map_witness:
  "ui_map (run_store uiReducer initial_ui [DCreateDashboard some_dashboard, DLoadDashboard some_dashboard]) 7 = Some some_dashboard"
proof -
  have "ui_inv initial_ui" by (simp add: ui_inv_def initial_ui_def)
  moreover have "run_ok ui_action_ok uiReducer initial_ui [DCreateDashboard some_dashboard, DLoadDashboard some_dashboard]"
    by (simp add: initial_ui_def)
  ultimately have "ui_map (run_store uiReducer initial_ui [DCreateDashboard some_dashboard, DLoadDashboard some_dashboard]) =
      run_store ui_spec (ui_map initial_ui) [DCreateDashboard some_dashboard, DLoadDashboard some_dashboard]"
    using dashboards_implement_map by blast
  then show ?thesis by (simp add: some_dashboard_def)
qed

section \<open>Adding cells\<close>

lemma max_fold: "foldl (\<lambda>a b. if a > b then a else b) m xs \<in> set (m # xs) \<and>
    (\<forall>x\<in>set (m # xs). x \<le> foldl (\<lambda>a b. if a > b then a else b) (m::int) xs)"
proof (induction xs arbitrary: m)
  case (Cons y xs)
  show ?case using Cons[of "if m > y then m else y"] by (auto split: if_splits)
qed simp

lemma max_of_Inr: "max_of xs = Inr m \<Longrightarrow> m \<in> set xs \<and> (\<forall>x\<in>set xs. x \<le> m)"
  using max_fold by (cases xs) auto

lemma max_of_total: "xs \<noteq> [] \<Longrightarrow> \<exists>m. max_of xs = Inr m"
  by (cases xs) auto

text \<open>The position, read off the cell that ends the lowest row.\<close>

definition last_of_lowest_row :: "dash_cell list \<Rightarrow> dash_cell \<Rightarrow> bool" where
  "last_of_lowest_row cells l \<longleftrightarrow> l \<in> set cells \<and> (\<forall>c\<in>set cells. dc_y c \<le> dc_y l) \<and>
     (\<forall>c\<in>set cells. dc_y c = dc_y l \<longrightarrow> dc_x c \<le> dc_x l)"

lemma next_position:
  assumes "cells \<noteq> []"
  shows "\<exists>l. last_of_lowest_row cells l \<and> getNextAvailablePosition cells w =
    Inr (if numColumns - (dc_x l + dc_w l) \<ge> w then (dc_x l + dc_w l, dc_y l) else (0, dc_y l + dc_h l))"
proof -
  obtain fy where fy: "max_of (map dc_y cells) = Inr fy" using max_of_total assms by blast
  have fy_in: "fy \<in> dc_y ` set cells" and fy_max: "\<And>c. c \<in> set cells \<Longrightarrow> dc_y c \<le> fy"
    using max_of_Inr[OF fy] by auto
  let ?b = "filter (\<lambda>c. dc_y c = fy) cells"
  have "?b \<noteq> []" using fy_in by (auto simp: filter_empty_conv)
  then obtain fx where fx: "max_of (map dc_x ?b) = Inr fx" using max_of_total by blast
  have fx_in: "fx \<in> dc_x ` set ?b" and fx_max: "\<And>c. c \<in> set ?b \<Longrightarrow> dc_x c \<le> fx"
    using max_of_Inr[OF fx] by auto
  obtain l where l: "List.find (\<lambda>c. dc_x c = fx) ?b = Some l"
    using fx_in find_None[of "\<lambda>c. dc_x c = fx" ?b] by (cases "List.find (\<lambda>c. dc_x c = fx) ?b") auto
  then have m: "l \<in> set cells" "dc_y l = fy" "dc_x l = fx" by (auto dest: find_Some)
  then have "last_of_lowest_row cells l"
    using fy_max fx_max by (auto simp: last_of_lowest_row_def)
  then show ?thesis
    using fy fx l m by (auto simp: getNextAvailablePosition_def Let_def)
qed

definition cell_sized :: "dash_cell \<Rightarrow> bool" where
  "cell_sized c \<longleftrightarrow> 0 \<le> dc_x c \<and> 0 < dc_w c \<and> 0 < dc_h c"

lemma next_position_free:
  assumes "cells \<noteq> []" and "list_all cell_sized cells"
  shows "\<exists>x y. getNextAvailablePosition cells w = Inr (x, y) \<and> 0 \<le> x \<and> (x + w \<le> numColumns \<or> x = 0) \<and>
    list_all (\<lambda>c. (dc_x c, dc_y c) \<noteq> (x, y) \<and> dc_y c \<le> y) cells \<and>
    list_all (\<lambda>c. dc_y c = y \<longrightarrow> dc_x c < x) cells"
proof -
  obtain l where l: "last_of_lowest_row cells l" and p: "getNextAvailablePosition cells w =
      Inr (if numColumns - (dc_x l + dc_w l) \<ge> w then (dc_x l + dc_w l, dc_y l) else (0, dc_y l + dc_h l))"
    using next_position[OF assms(1)] by blast
  have sized: "\<And>c. c \<in> set cells \<Longrightarrow> 0 \<le> dc_x c \<and> 0 < dc_w c \<and> 0 < dc_h c"
    using assms(2) by (auto simp: list_all_iff cell_sized_def)
  have ml: "l \<in> set cells" and my: "\<And>c. c \<in> set cells \<Longrightarrow> dc_y c \<le> dc_y l"
    and mx: "\<And>c. c \<in> set cells \<Longrightarrow> dc_y c = dc_y l \<Longrightarrow> dc_x c \<le> dc_x l"
    using l by (auto simp: last_of_lowest_row_def)
  show ?thesis
  proof (cases "numColumns - (dc_x l + dc_w l) \<ge> w")
    case True
    then show ?thesis using p sized[OF ml] my mx by (fastforce simp: list_all_iff)
  next
    case False
    then show ?thesis using p sized[OF ml] my by (fastforce simp: list_all_iff)
  qed
qed

definition sized_cell :: "int \<Rightarrow> int \<Rightarrow> int \<Rightarrow> int \<Rightarrow> dash_cell" where
  "sized_cell x y w h = NEW_DEFAULT_DASHBOARD_CELL\<lparr>dc_x := x, dc_y := y, dc_w := w, dc_h := h\<rparr>"

lemma sized_cell_simps [simp]:
  "dc_x (sized_cell x y w h) = x" "dc_y (sized_cell x y w h) = y"
  "dc_w (sized_cell x y w h) = w" "dc_h (sized_cell x y w h) = h"
  by (simp_all add: sized_cell_def)

text \<open>The most common value, by the invariant of the fold over the values seen so far.\<close>

definition tallied :: "int list \<Rightarrow> nat js_obj \<times> nat \<times> int option \<Rightarrow> bool" where
  "tallied seen acc = (case acc of (distribution, n, best) \<Rightarrow>
     (\<forall>v. obj_get distribution (int_str v) = (if v \<in> set seen then Some (count_list seen v) else None)) \<and>
     (\<forall>v. count_list seen v \<le> n) \<and>
     (case best of None \<Rightarrow> seen = [] \<and> n = 0 | Some b \<Rightarrow> b \<in> set seen \<and> count_list seen b = n))"

lemma count_snoc: "count_list (xs @ [x]) v = count_list xs v + (if x = v then 1 else 0)"
  by (induction xs) auto

lemma tallied_step: "tallied seen acc \<Longrightarrow> tallied (seen @ [v]) (count_value acc v)"
proof -
  assume c: "tallied seen acc"
  obtain ob n best where acc: "acc = (ob, n, best)" by (cases acc)
  have get: "\<And>u. obj_get ob (int_str u) = (if u \<in> set seen then Some (count_list seen u) else None)"
    and le: "\<And>u. count_list seen u \<le> n" using c acc by (auto simp: tallied_def)
  have k: "(case obj_get ob (int_str v) of None \<Rightarrow> 0 | Some k \<Rightarrow> k) = count_list seen v"
    using get[of v] count_notin[of v seen] by auto
  have get': "\<And>u. obj_get (obj_set ob (int_str v) (count_list seen v + 1)) (int_str u) =
      (if u \<in> set (seen @ [v]) then Some (count_list (seen @ [v]) u) else None)"
    using get by (auto simp: obj_get_set count_snoc)
  show ?thesis
  proof (cases "count_list seen v + 1 > n")
    case True
    have "count_list (seen @ [v]) u \<le> count_list seen v + 1" for u
      using True le[of u] by (auto simp: count_snoc)
    then show ?thesis using True get' unfolding acc count_value_def
      by (simp add: k tallied_def count_snoc del: append.simps)
  next
    case False
    then obtain b where b: "best = Some b" using c acc by (cases best) (auto simp: tallied_def)
    then have "b \<in> set seen" "count_list seen b = n" using c acc by (auto simp: tallied_def)
    moreover have "b \<noteq> v" using False calculation by auto
    moreover have "count_list (seen @ [v]) u \<le> n" for u using False le[of u] by (auto simp: count_snoc)
    ultimately show ?thesis using False get' b unfolding acc count_value_def
      by (simp add: k tallied_def count_snoc)
  qed
qed

lemma tallied_all: "tallied vals (foldl count_value ([], 0, None) vals)"
proof (induction vals rule: rev_induct)
  case Nil
  then show ?case by (simp add: tallied_def)
next
  case (snoc v vs)
  then show ?case using tallied_step by simp
qed

definition most_common :: "int list \<Rightarrow> int \<Rightarrow> bool" where
  "most_common vals v \<longleftrightarrow> v \<in> set vals \<and> (\<forall>u\<in>set vals. count_list vals u \<le> count_list vals v)"

lemma common_value: "vals \<noteq> [] \<Longrightarrow> \<exists>v. getMostCommonValue vals = Some v \<and> most_common vals v"
  using tallied_all[of vals]
  by (auto simp: getMostCommonValue_def tallied_def most_common_def split: option.splits prod.splits)

lemma new_cell:
  assumes "da_cells d \<noteq> []" and "list_all cell_sized (da_cells d)"
  shows "\<exists>c. getNewDashboardCell (da_cells d) ty = Inr c \<and> dc_type c = ty \<and>
    most_common (map dc_w (da_cells d)) (dc_w c) \<and> most_common (map dc_h (da_cells d)) (dc_h c) \<and>
    0 \<le> dc_x c \<and> (dc_x c + dc_w c \<le> numColumns \<or> dc_x c = 0) \<and>
    list_all (\<lambda>x. \<not> same_place x c \<and> dc_y x \<le> dc_y c \<and> (dc_y x = dc_y c \<longrightarrow> dc_x x < dc_x c)) (da_cells d)"
proof -
  obtain w where w: "getMostCommonValue (map dc_w (da_cells d)) = Some w" "most_common (map dc_w (da_cells d)) w"
    using common_value assms(1) by blast
  obtain h where h: "getMostCommonValue (map dc_h (da_cells d)) = Some h" "most_common (map dc_h (da_cells d)) h"
    using common_value assms(1) by blast
  obtain x y where p: "getNextAvailablePosition (da_cells d) w = Inr (x, y)" "0 \<le> x" "x + w \<le> numColumns \<or> x = 0"
    "list_all (\<lambda>c. (dc_x c, dc_y c) \<noteq> (x, y) \<and> dc_y c \<le> y) (da_cells d)"
    "list_all (\<lambda>c. dc_y c = y \<longrightarrow> dc_x c < x) (da_cells d)"
    using next_position_free[OF assms] by blast
  then show ?thesis
    using w h assms(1) by (auto simp: getNewDashboardCell_def Let_def same_place_def list_all_iff)
qed

text \<open>
  A new cell on a dashboard whose cells have a size: one is made, of the asked type, as wide and as high
  as most of the cells are; it starts at no negative column, ends within the twelve columns or starts a
  row of its own; no cell has its corner (the reducers tell cells apart by their corners), no cell
  starts below it, and those of its own row start to its left.
\<close>

theorem new_cell_placed:
  assumes "da_cells d \<noteq> []" and "list_all cell_sized (da_cells d)"
  shows "\<exists>c. getNewDashboardCell (da_cells d) ty = Inr c \<and> dc_type c = ty \<and>
    most_common (map dc_w (da_cells d)) (dc_w c) \<and> most_common (map dc_h (da_cells d)) (dc_h c) \<and>
    0 \<le> dc_x c \<and> (dc_x c + dc_w c \<le> numColumns \<or> dc_x c = 0) \<and>
    list_all (\<lambda>x. \<not> same_place x c \<and> dc_y x \<le> dc_y c \<and> (dc_y x = dc_y c \<longrightarrow> dc_x x < dc_x c)) (da_cells d)"
  using assms by (rule new_cell)

lemma new_cell_placed_witness:
  "\<exists>c. getNewDashboardCell [sized_cell 0 0 4 4] CTable = Inr c \<and> dc_type c = CTable \<and> dc_w c = 4"
proof -
  let ?d = "some_dashboard\<lparr>da_cells := [sized_cell 0 0 4 4]\<rparr>"
  have "list_all cell_sized (da_cells ?d)" by (simp add: cell_sized_def)
  then show ?thesis
    using new_cell_placed[of ?d CTable] by (auto simp: most_common_def)
qed

definition overlap :: "int \<Rightarrow> int \<Rightarrow> int \<Rightarrow> int \<Rightarrow> dash_cell \<Rightarrow> bool" where
  \<comment> \<open>the rectangle at \<open>x\<close>, \<open>y\<close> of the given size and the cell share a unit of the grid\<close>
  "overlap x y w h c \<longleftrightarrow> x < dc_x c + dc_w c \<and> dc_x c < x + w \<and> y < dc_y c + dc_h c \<and> dc_y c < y + h"

text \<open>
  The place found for a new cell may be taken: only the last cell of the lowest row is looked at, so a
  tall cell of an earlier row that reaches down to that row is overlapped (an eight-high cell at the right,
  a four-high one below and to the left of it).
\<close>

theorem next_position_overlaps:
  "let cells = [sized_cell 8 0 4 8, sized_cell 4 4 4 4]
   in getNextAvailablePosition cells 4 = Inr (8, 4) \<and> overlap 8 4 4 4 (hd cells) \<and>
      \<not> overlap (dc_x (cells ! 0)) (dc_y (cells ! 0)) 4 8 (cells ! 1)"
  by (simp add: getNextAvailablePosition_def numColumns_def overlap_def)

text \<open>The cells that two adds dispatched with one dashboard leave, and an add followed by a delete.\<close>

lemma ui_map_add: "ui_map st (da_id d) = Some e \<Longrightarrow>
    ui_map (uiReducer st (DAddCell d c)) = (ui_map st)(da_id d \<mapsto> d\<lparr>da_cells := c # da_cells d\<rparr>)"
  by (simp add: uiReducer_def ui_map_def Let_def ui_map_put map_update_def)

lemma ui_map_delete_cell: "ui_map st (da_id d) = Some e \<Longrightarrow>
    ui_map (uiReducer st (DDeleteCell d c)) =
      (ui_map st)(da_id d \<mapsto> d\<lparr>da_cells := filter (\<lambda>x. \<not> same_place x c) (da_cells d)\<rparr>)"
  by (simp add: uiReducer_def ui_map_def Let_def ui_map_put map_update_def)

lemma dash_actions_Cons:
  "dash_actions (DD a # ds) = a # dash_actions ds" "dash_actions (DDNotify s # ds) = dash_actions ds"
  "dash_actions (DDReplaceParams q # ds) = dash_actions ds" "dash_actions [] = []"
  by (simp_all add: dash_actions_def List.map_filter_simps)

lemma add_dispatches:
  assumes "getNewDashboardCell (da_cells d) ty = Inr c"
  shows "dash_actions (addDashboardCellAsync d ty (\<lambda>c. Inr (c\<lparr>dc_i := i\<rparr>))) = [DAddCell d (c\<lparr>dc_i := i\<rparr>)]"
  by (simp add: addDashboardCellAsync_def assms dash_actions_Cons)

text \<open>
  Adding a cell and deleting it again. When the server saves the new cell under the id it gives it,
  the dashboard in the store has the cell in front of the others, and deleting that cell from it leaves
  every dashboard as it was before: the corner of a new cell is no other cell's, so the delete, which goes
  by corners, takes nothing else away.
\<close>

theorem add_delete_cell_roundtrip:
  assumes "ui_map st (da_id d) = Some d" and "da_cells d \<noteq> []" and "list_all cell_sized (da_cells d)"
  shows "\<exists>c. let added = run_store uiReducer st (dash_actions (addDashboardCellAsync d ty (\<lambda>c. Inr (c\<lparr>dc_i := i\<rparr>))));
                 d' = d\<lparr>da_cells := c # da_cells d\<rparr>
             in ui_map added (da_id d) = Some d' \<and> dc_i c = i \<and>
                ui_map (run_store uiReducer added (dash_actions (deleteDashboardCellAsync d' c (Inr ())))) = ui_map st"
proof -
  obtain c where c: "getNewDashboardCell (da_cells d) ty = Inr c"
    and place: "list_all (\<lambda>x. \<not> same_place x c \<and> dc_y x \<le> dc_y c \<and> (dc_y x = dc_y c \<longrightarrow> dc_x x < dc_x c)) (da_cells d)"
    using new_cell[OF assms(2,3)] by blast
  let ?c = "c\<lparr>dc_i := i\<rparr>" and ?d = "d\<lparr>da_cells := c\<lparr>dc_i := i\<rparr> # da_cells d\<rparr>"
  have added: "ui_map (uiReducer st (DAddCell d ?c)) = (ui_map st)(da_id d \<mapsto> ?d)"
    by (rule ui_map_add[OF assms(1)])
  have "filter (\<lambda>x. \<not> same_place x ?c) (da_cells ?d) = da_cells d"
    using place by (auto simp: same_place_def list_all_iff filter_id_conv)
  then have "ui_map (uiReducer (uiReducer st (DAddCell d ?c)) (DDeleteCell ?d ?c)) = (ui_map st)(da_id d \<mapsto> d)"
    by (subst ui_map_delete_cell) (simp_all add: added)
  moreover have "(ui_map st)(da_id d \<mapsto> d) = ui_map st" using assms(1) by (auto simp: fun_eq_iff)
  ultimately show ?thesis
    using added unfolding add_dispatches[OF c]
    by (intro exI[of _ ?c]) (simp add: deleteDashboardCellAsync_def dash_actions_Cons Let_def)
qed

lemma add_delete_cell_roundtrip_witness:
  "\<exists>c. ui_map (run_store uiReducer (initial_ui\<lparr>du_dashboards := [some_dashboard\<lparr>da_cells := [sized_cell 0 0 4 4]\<rparr>]\<rparr>)
      (dash_actions (addDashboardCellAsync (some_dashboard\<lparr>da_cells := [sized_cell 0 0 4 4]\<rparr>) CTable (\<lambda>c. Inr (c\<lparr>dc_i := ''n''\<rparr>)))))
     7 = Some (some_dashboard\<lparr>da_cells := [c, sized_cell 0 0 4 4]\<rparr>)"
proof -
  let ?d = "some_dashboard\<lparr>da_cells := [sized_cell 0 0 4 4]\<rparr>"
  have id: "da_id ?d = 7" by (simp add: some_dashboard_def)
  have "ui_map (initial_ui\<lparr>du_dashboards := [?d]\<rparr>) (da_id ?d) = Some ?d" by (simp add: ui_map_def entries_map_Cons)
  moreover have "da_cells ?d \<noteq> []" "list_all cell_sized (da_cells ?d)" by (simp_all add: cell_sized_def)
  ultimately show ?thesis
    using add_delete_cell_roundtrip[of _ ?d CTable "''n''"] unfolding id Let_def by fastforce
qed

text \<open>
  Two adds that start from the same dashboard: the second answer's action still carries the dashboard as
  it was when its call began, and the reducer takes the cells from there, so the cell of the first add
  is gone from the store, although the server has both.
\<close>

theorem concurrent_adds_lose_a_cell:
  assumes "ui_map st (da_id d) = Some d"
  shows "ui_map (run_store uiReducer st [DAddCell d c1, DAddCell d c2]) (da_id d) = Some (d\<lparr>da_cells := c2 # da_cells d\<rparr>)"
  by (simp add: ui_map_add[OF assms] ui_map_add[of "uiReducer st (DAddCell d c1)" d])

lemma concurrent_adds_lose_a_cell_witness:
  "ui_map (run_store uiReducer (initial_ui\<lparr>du_dashboards := [some_dashboard]\<rparr>)
     [DAddCell some_dashboard (sized_cell 0 0 4 4), DAddCell some_dashboard (sized_cell 4 0 4 4)]) 7 =
   Some (some_dashboard\<lparr>da_cells := [sized_cell 4 0 4 4]\<rparr>)"
proof -
  have id: "da_id some_dashboard = 7" "da_cells some_dashboard = []" by (simp_all add: some_dashboard_def)
  have "ui_map (initial_ui\<lparr>du_dashboards := [some_dashboard]\<rparr>) (da_id some_dashboard) = Some some_dashboard"
    by (simp add: ui_map_def entries_map_Cons)
  from concurrent_adds_lose_a_cell[OF this] show ?thesis unfolding id by simp
qed

section \<open>The time range and the query string\<close>

definition restorable :: "(string \<Rightarrow> int option) \<Rightarrow> time_range \<Rightarrow> bool" where
  \<comment> \<open>written to the query string, the range is read back\<close>
  "restorable moment r \<longleftrightarrow> truthy (tr_lower r) \<and>
     tr_lower (validTimeRange moment (params_range (tr_lower r) (tr_upper_text r))) = tr_lower r \<and>
     tr_upper_text (validTimeRange moment (params_range (tr_lower r) (tr_upper_text r))) = tr_upper_text r"

lemma params_range_simps [simp]:
  "tr_lower (params_range l u) = l" "tr_upper_text (params_range l u) = u"
  by (simp_all add: params_range_def tr_upper_text_def split: option.splits)

lemma nullTimeRange_simps [simp]: "tr_lower nullTimeRange = None" "tr_upper_text nullTimeRange = None"
  by (simp_all add: nullTimeRange_def tr_upper_text_def)

lemma range_option_simps [simp]: "tr_lower (range_option opt) = Some (tro_lower opt)" "tr_upper_text (range_option opt) = tro_upper opt"
  by (simp_all add: range_option_def tr_upper_text_def)

lemma timeRanges_lower: "t \<in> set timeRanges \<Longrightarrow> tro_lower t \<noteq> []"
  by (auto simp: timeRanges_def)

lemma absolute_valid: "validAbsoluteTimeRange moment r = r \<or> validAbsoluteTimeRange moment r = nullTimeRange"
  by (auto simp: validAbsoluteTimeRange_def split: option.splits)

lemma absolute_truthy: "truthy (tr_lower (validAbsoluteTimeRange moment r)) \<or> validAbsoluteTimeRange moment r = nullTimeRange"
  by (auto simp: validAbsoluteTimeRange_def truthy_def split: option.splits)

lemma absolute_no_lower [simp]: "validAbsoluteTimeRange moment (params_range None u) = nullTimeRange"
  by (simp add: validAbsoluteTimeRange_def)

lemma absolute_texts: "tr_lower r = tr_lower s \<Longrightarrow> tr_upper_text r = tr_upper_text s \<Longrightarrow>
    (validAbsoluteTimeRange moment r = nullTimeRange \<and> validAbsoluteTimeRange moment s = nullTimeRange) \<or>
    (validAbsoluteTimeRange moment r = r \<and> validAbsoluteTimeRange moment s = s)"
  by (auto simp: validAbsoluteTimeRange_def split: option.splits)

lemma valid_restorable:
  assumes "truthy (tr_lower (validTimeRange moment r))"
  shows "restorable moment (validTimeRange moment r)"
proof (cases "List.find (\<lambda>t. Some (tro_lower t) = tr_lower r) timeRanges")
  case (Some t)
  then have t: "t \<in> set timeRanges" "tr_lower r = Some (tro_lower t)" using find_Some by fastforce+
  then have "truthy (Some (tro_lower t))" using timeRanges_lower[OF t(1)] by (simp add: truthy_def)
  then show ?thesis
    using Some t(2) by (simp add: validTimeRange_def validRelativeTimeRange_def restorable_def)
next
  case None
  then have v: "validTimeRange moment r = validAbsoluteTimeRange moment r"
    by (simp add: validTimeRange_def validRelativeTimeRange_def truthy_def)
  then have r: "validAbsoluteTimeRange moment r = r"
    using assms absolute_valid[of moment r] by (auto simp: truthy_def)
  have "validTimeRange moment (params_range (tr_lower r) (tr_upper_text r)) =
      validAbsoluteTimeRange moment (params_range (tr_lower r) (tr_upper_text r))"
    using None by (simp add: validTimeRange_def validRelativeTimeRange_def truthy_def)
  then show ?thesis
    using absolute_texts[of "params_range (tr_lower r) (tr_upper_text r)" r moment] assms
    unfolding restorable_def v r by (auto simp: truthy_def)
qed

lemma default_restorable: "restorable moment defaultTimeRange"
  by (simp add: restorable_def defaultTimeRange_def validTimeRange_def validRelativeTimeRange_def timeRanges_def
      tr_upper_text_def truthy_def params_range_def range_option_def)

fun written_params :: "dash_dispatch list \<Rightarrow> query_params option" where
  "written_params [] = None"
| "written_params (DDReplaceParams q # ds) = Some q"
| "written_params (_ # ds) = written_params ds"

definition complaints :: "dash_dispatch list \<Rightarrow> string list" where
  "complaints ds = List.map_filter (\<lambda>d. case d of DDNotify s \<Rightarrow> Some s | _ \<Rightarrow> None) ds"

lemma written_params_append: "written_params (ds @ es) = (case written_params ds of None \<Rightarrow> written_params es | Some q \<Rightarrow> Some q)"
  by (induction ds rule: written_params.induct) auto

lemma complaints_simps:
  "complaints [] = []" "complaints (DDNotify s # ds) = s # complaints ds" "complaints (DD a # ds) = complaints ds"
  "complaints (DDReplaceParams q # ds) = complaints ds" "complaints (ds @ es) = complaints ds @ complaints es"
  by (simp_all add: complaints_def List.map_filter_def)

text \<open>What the pass over the query string chooses.\<close>

definition chosen_range :: "(string \<Rightarrow> int option) \<Rightarrow> query_params \<Rightarrow> (int \<times> time_range) list \<Rightarrow> int \<Rightarrow> time_range" where
  "chosen_range moment qp ranges i =
     (let v = validTimeRange moment (params_range (qp_lower qp) (qp_upper qp))
      in if truthy (tr_lower v) then v
         else (case List.find (\<lambda>r. fst r = i) ranges of Some r \<Rightarrow> snd r | None \<Rightarrow> defaultTimeRange))"

definition chosen_zoom :: "(string \<Rightarrow> int option) \<Rightarrow> query_params \<Rightarrow> time_range" where
  "chosen_zoom moment qp = validAbsoluteTimeRange moment (params_range (qp_zoomedLower qp) (qp_zoomedUpper qp))"

definition params_of :: "time_range \<Rightarrow> time_range \<Rightarrow> query_params" where
  "params_of r z = \<lparr>qp_lower = tr_lower r, qp_upper = tr_upper_text r, qp_zoomedLower = tr_lower z, qp_zoomedUpper = tr_upper_text z\<rparr>"

lemma range_pass:
  "dash_actions (updateTimeRangeFromQueryParams moment qp ranges i) =
     [DSetDashTimeV1 i (chosen_range moment qp ranges i), DSetZoomedTimeRange (chosen_zoom moment qp)]"
  "written_params (updateTimeRangeFromQueryParams moment qp ranges i) =
     Some (params_of (chosen_range moment qp ranges i) (chosen_zoom moment qp))"
  by (simp_all add: updateTimeRangeFromQueryParams_def chosen_range_def chosen_zoom_def params_of_def dash_actions_Cons Let_def)

lemma range_pass_complaints:
  "complaints (updateTimeRangeFromQueryParams moment qp ranges i) =
     (if truthy (tr_lower (validTimeRange moment (params_range (qp_lower qp) (qp_upper qp)))) then []
      else if truthy (qp_lower qp) \<or> truthy (qp_upper qp) then [''notifyInvalidTimeRangeValueInURLQuery''] else []) @
     (if \<not> truthy (tr_lower (chosen_zoom moment qp)) \<and> (truthy (qp_zoomedLower qp) \<or> truthy (qp_zoomedUpper qp))
      then [''notifyInvalidZoomedTimeRangeValueInURLQuery''] else [])"
  by (simp add: updateTimeRangeFromQueryParams_def chosen_zoom_def complaints_simps Let_def)

lemma chosen_restorable:
  assumes "\<forall>r\<in>set ranges. restorable moment (snd r)"
  shows "restorable moment (chosen_range moment qp ranges i)"
  using assms valid_restorable default_restorable find_Some[of "\<lambda>r. fst r = i" ranges]
  by (fastforce simp: chosen_range_def Let_def split: option.splits)

text \<open>
  Opening a dashboard settles its time range, whatever the query string says: the range stored for the dashboard
  and the query string written agree, and opening it again with that query string chooses the same
  bounds and zoom, writes the same string and complains of nothing, provided the ranges remembered before are
  ones that can be written and read back (the ones chosen here are).
\<close>

theorem query_range_settles:
  assumes "\<forall>r\<in>set ranges. restorable moment (snd r)"
    and "written_params (updateTimeRangeFromQueryParams moment qp ranges i) = Some qp'"
  shows "written_params (updateTimeRangeFromQueryParams moment qp' ranges' i) = Some qp' \<and>
    complaints (updateTimeRangeFromQueryParams moment qp' ranges' i) = [] \<and>
    (\<exists>r. r \<in> set (run_store dashTimeV1 ranges (dash_actions (updateTimeRangeFromQueryParams moment qp ranges i))) \<and>
       fst r = i \<and> restorable moment (snd r) \<and> tr_lower (snd r) = qp_lower qp' \<and> tr_upper_text (snd r) = qp_upper qp')"
proof -
  let ?r = "chosen_range moment qp ranges i" and ?z = "chosen_zoom moment qp"
  have qp': "qp' = params_of ?r ?z" using assms(2) by (simp add: range_pass)
  have r: "restorable moment ?r" by (rule chosen_restorable[OF assms(1)])
  then have v: "tr_lower (validTimeRange moment (params_range (qp_lower qp') (qp_upper qp'))) = tr_lower ?r"
      "tr_upper_text (validTimeRange moment (params_range (qp_lower qp') (qp_upper qp'))) = tr_upper_text ?r" "truthy (tr_lower ?r)"
    by (simp_all add: restorable_def qp' params_of_def)
  then have c: "tr_lower (chosen_range moment qp' ranges' i) = tr_lower ?r" "tr_upper_text (chosen_range moment qp' ranges' i) = tr_upper_text ?r"
    by (simp_all add: chosen_range_def Let_def)
  have z: "tr_lower (chosen_zoom moment qp') = tr_lower ?z \<and> tr_upper_text (chosen_zoom moment qp') = tr_upper_text ?z"
    using absolute_valid[of moment "params_range (qp_zoomedLower qp) (qp_zoomedUpper qp)"]
      absolute_texts[of "params_range (qp_zoomedLower qp') (qp_zoomedUpper qp')" ?z moment]
      absolute_valid[of moment "params_range (qp_zoomedLower qp') (qp_zoomedUpper qp')"]
    by (auto simp: chosen_zoom_def qp' params_of_def)
  have "written_params (updateTimeRangeFromQueryParams moment qp' ranges' i) = Some qp'"
    using c z by (simp add: range_pass qp' params_of_def)
  moreover have "complaints (updateTimeRangeFromQueryParams moment qp' ranges' i) = []"
    using v z absolute_truthy[of moment "params_range (qp_zoomedLower qp) (qp_zoomedUpper qp)"]
    by (auto simp: range_pass_complaints chosen_zoom_def qp' params_of_def truthy_def)
  moreover have "(i, ?r) \<in> set (run_store dashTimeV1 ranges (dash_actions (updateTimeRangeFromQueryParams moment qp ranges i)))"
    by (simp add: range_pass dashTimeV1_def union_by_def)
  ultimately show ?thesis using r by (force simp: qp' params_of_def)
qed

lemma query_range_settles_witness:
  "written_params (updateTimeRangeFromQueryParams (\<lambda>_. None)
     \<lparr>qp_lower = Some ''now() - 1h'', qp_upper = None, qp_zoomedLower = None, qp_zoomedUpper = None\<rparr> [] 7) =
   Some \<lparr>qp_lower = Some ''now() - 1h'', qp_upper = None, qp_zoomedLower = None, qp_zoomedUpper = None\<rparr> \<and>
   complaints (updateTimeRangeFromQueryParams (\<lambda>_. None)
     \<lparr>qp_lower = Some ''now() - 1h'', qp_upper = None, qp_zoomedLower = None, qp_zoomedUpper = None\<rparr> [] 7) = []"
proof -
  let ?q = "\<lparr>qp_lower = Some ''now() - 1h'', qp_upper = None, qp_zoomedLower = None, qp_zoomedUpper = None\<rparr>"
  have "chosen_range (\<lambda>_. None) ?q [] 7 = range_option (timeRanges ! 2)"
    by (simp add: chosen_range_def validTimeRange_def validRelativeTimeRange_def timeRanges_def truthy_def range_option_def params_range_def)
  then have w: "written_params (updateTimeRangeFromQueryParams (\<lambda>_. None) ?q [] 7) = Some ?q"
    by (simp add: range_pass params_of_def chosen_zoom_def timeRanges_def)
  then show ?thesis
    using query_range_settles[OF _ w, of "[]"] by simp
qed

end
