(* ===== verification/Table_Graph.thy ===== *)
theory Table_Graph
  imports Time_Series Dashboard_Types "HOL-Library.Multiset"
begin

text \<open>
  The table of a cell: the field options of its columns, and the passes that sort its rows, filter and order
  its columns, turn it and measure it (\<open>ui/src/dashboards/utils/tableGraph.ts\<close>). The log viewer uses the
  column passes too (\<open>ui/src/logs/utils/table.ts\<close>). A table is its rows, the labels first; an absent cell is
  \<open>None\<close>. Numbers are integers. The measuring of a text in a font is a parameter.
\<close>

type_synonym table = "ts_value option list list"

definition ASCENDING :: string where "ASCENDING = ''asc''"
definition DESCENDING :: string where "DESCENDING = ''desc''"
definition CELL_HORIZONTAL_PADDING :: int where "CELL_HORIZONTAL_PADDING = 30"

record sort_by =
  sb_field :: string
  sb_direction :: string

section \<open>Field options\<close>

definition new_field :: "string \<Rightarrow> field_option" where
  "new_field l = \<lparr>fo_internalName = l, fo_displayName = Some [], fo_visible = True\<rparr>"

definition computeFieldOptions :: "field_option list \<Rightarrow> label list \<Rightarrow> field_option list" where
  "computeFieldOptions existing sortedLabels =
     (let timeField = (case List.find (\<lambda>f. fo_internalName f = ''time'') existing of
            None \<Rightarrow> DEFAULT_TIME_FIELD | Some f \<Rightarrow> f);
          astNames = foldl (\<lambda>acc l. acc @ [new_field (la_label l)]) [timeField] sortedLabels;
          intersection = filter (\<lambda>f. list_ex (\<lambda>a. fo_internalName a = fo_internalName f) astNames) existing;
          newFields = filter (\<lambda>a. \<not> list_ex (\<lambda>f. fo_internalName f = fo_internalName a) existing) astNames
      in intersection @ newFields)"

section \<open>Sorting rows\<close>

definition at :: "'a option list \<Rightarrow> nat \<Rightarrow> 'a option" where
  \<comment> \<open>\<open>arr[i]\<close>\<close>
  "at row i = (if i < length row then row ! i else None)"

fun js_less :: "(string \<Rightarrow> int option) \<Rightarrow> ts_value \<Rightarrow> ts_value \<Rightarrow> bool" where
  \<comment> \<open>\<open>a < b\<close> on values that are not null; \<open>num\<close> is the number a text is compared as, if it is one\<close>
  "js_less num (VNum a) (VNum b) = (a < b)"
| "js_less num (VStr a) (VStr b) = (a < b)"
| "js_less num (VNum a) (VStr b) = (case num b of None \<Rightarrow> False | Some n \<Rightarrow> a < n)"
| "js_less num (VStr a) (VNum b) = (case num a of None \<Rightarrow> False | Some n \<Rightarrow> n < b)"
| "js_less num _ _ = False"

definition compareAscending :: "(string \<Rightarrow> int option) \<Rightarrow> ts_value option \<Rightarrow> ts_value option \<Rightarrow> int" where
  \<comment> \<open>the comparison of \<open>_.orderBy\<close>: null after every value, undefined last\<close>
  "compareAscending num a b =
     (if a = b then 0
      else case (a, b) of
        (None, _) \<Rightarrow> 1
      | (_, None) \<Rightarrow> -1
      | (Some x, Some y) \<Rightarrow>
          if x = VNull then 1 else if y = VNull then -1
          else if js_less num y x then 1 else if js_less num x y then -1 else 0)"

fun insert_by :: "('a \<Rightarrow> 'a \<Rightarrow> int) \<Rightarrow> 'a \<Rightarrow> 'a list \<Rightarrow> 'a list" where
  "insert_by cmp x [] = [x]"
| "insert_by cmp x (y # ys) = (if cmp x y \<le> 0 then x # y # ys else y # insert_by cmp x ys)"

definition order_by :: "('a \<Rightarrow> 'a \<Rightarrow> int) \<Rightarrow> 'a list \<Rightarrow> 'a list" where
  \<comment> \<open>the stable sort by a comparison\<close>
  "order_by cmp xs = foldr (insert_by cmp) xs []"

definition row_cmp :: "(string \<Rightarrow> int option) \<Rightarrow> nat option \<Rightarrow> string \<Rightarrow> ts_value option list \<Rightarrow> ts_value option list \<Rightarrow> int" where
  \<comment> \<open>no row has the property -1\<close>
  "row_cmp num sortIndex direction r s =
     (let key = (\<lambda>row. Option.bind sortIndex (at row));
          c = compareAscending num (key r) (key s)
      in if direction = DESCENDING then - c else c)"

definition text_cell :: "string \<Rightarrow> ts_value option" where
  "text_cell s = Some (VStr s)"

definition sortTableData :: "(string \<Rightarrow> int option) \<Rightarrow> table \<Rightarrow> sort_by \<Rightarrow> (table \<times> ts_value option list) result" where
  "sortTableData num data s =
     (case data of
        [] \<Rightarrow> Inl TypeError
      | header # dataValues \<Rightarrow>
          let sortIndex = find_index (\<lambda>l. l = text_cell (sb_field s)) header;
              sortedData = header # order_by (row_cmp num sortIndex (sb_direction s)) dataValues
          in Inr (sortedData, fastMap sortedData (\<lambda>r i rs. at r 0)))"

section \<open>Filtering and ordering columns\<close>

definition visible_column :: "field_option list \<Rightarrow> ts_value option \<Rightarrow> bool" where
  "visible_column fieldOptions col =
     (case List.find (\<lambda>f. text_cell (fo_internalName f) = col) fieldOptions of None \<Rightarrow> True | Some f \<Rightarrow> fo_visible f)"

definition filterTableColumns :: "table \<Rightarrow> field_option list \<Rightarrow> table result" where
  \<comment> \<open>the first row fills \<open>visibility\<close>\<close>
  "filterTableColumns data fieldOptions =
     (case data of
        [] \<Rightarrow> Inl TypeError
      | header # _ \<Rightarrow>
          let visibility = map (visible_column fieldOptions) header;
              filteredData = fastMap data (\<lambda>row i rows. fastFilter row (\<lambda>col j cols. j < length visibility \<and> visibility ! j))
          in Inr (if hd filteredData = [] then [[]] else filteredData))"

definition orderTableColumns :: "table \<Rightarrow> field_option list \<Rightarrow> table result" where
  "orderTableColumns data fieldOptions =
     (case data of
        [] \<Rightarrow> Inl TypeError
      | header # _ \<Rightarrow>
          let fieldsSortOrder = map (\<lambda>f. find_index (\<lambda>dataLabel. dataLabel = text_cell (fo_internalName f)) header) fieldOptions;
              filteredFieldSortOrder = List.map_filter (\<lambda>f. f) fieldsSortOrder;
              orderedData = fastMap data (\<lambda>row i rows. map (\<lambda>j.
                if j < length filteredFieldSortOrder then at row (filteredFieldSortOrder ! j) else None) [0..<length row])
          in Inr (if hd orderedData = [] then [[]] else orderedData))"

definition unzip :: "table \<Rightarrow> table" where
  "unzip rows = map (\<lambda>i. map (\<lambda>r. at r i) rows) [0..<foldl max 0 (map length rows)]"

record log_table =
  lt_columns :: "ts_value option list"
  lt_values :: table

definition applyChangesToTableData :: "log_table \<Rightarrow> field_option list \<Rightarrow> log_table result" where
  "applyChangesToTableData tableData tableColumns =
     bind_r (filterTableColumns (lt_columns tableData # lt_values tableData) tableColumns) (\<lambda>filteredData.
     map_res (\<lambda>orderedData. \<lparr>lt_columns = (case orderedData of [] \<Rightarrow> [] | h # _ \<Rightarrow> h), lt_values = drop 1 orderedData\<rparr>)
       (orderTableColumns filteredData tableColumns))"

section \<open>Measuring columns\<close>

record column_widths =
  cw_widths :: "int js_obj"
  cw_totalWidths :: int

definition cell_text :: "ts_value option \<Rightarrow> string" where
  "cell_text v = (case v of None \<Rightarrow> ''undefined'' | Some (VNum n) \<Rightarrow> int_str n | Some (VStr s) \<Rightarrow> s | Some VNull \<Rightarrow> ''null'')"

definition to_fixed :: "int \<Rightarrow> nat \<Rightarrow> string" where
  "to_fixed n digits = int_str n @ (if digits = 0 then [] else ''.'' @ replicate digits (CHR ''0''))"

datatype font = TimeFont | LabelFont | ValueFont

definition calculateTimeColumnWidth :: "(font \<Rightarrow> string \<Rightarrow> int) \<Rightarrow> string \<Rightarrow> int" where
  "calculateTimeColumnWidth textSize timeFormat =
     (let tf = js_replace_first timeFormat ''MMMM'' ''September'';
          tf = js_replace_first tf ''dddd'' ''Wednesday'';
          tf = js_replace_first tf ''A'' ''AM'';
          tf = js_replace_first tf ''h'' ''00'';
          tf = js_replace_first tf ''X'' ''1522286058''
      in textSize TimeFont tf + CELL_HORIZONTAL_PADDING)"

definition cell_width ::
    "(font \<Rightarrow> string \<Rightarrow> int) \<Rightarrow> ts_value option list \<Rightarrow> bool \<Rightarrow> field_option list \<Rightarrow> int \<Rightarrow> bool \<Rightarrow> decimal_places \<Rightarrow>
     nat \<Rightarrow> ts_value option \<Rightarrow> int" where
  "cell_width textSize topRow isTopRow fieldOptions timeFormatWidth verticalTimeAxis decimalPlaces c col =
     (let isLabel = ((verticalTimeAxis \<and> isTopRow) \<or> (\<not> verticalTimeAxis \<and> c = 0));
          foundField = (if isLabel then List.find (\<lambda>f. text_cell (fo_internalName f) = col) fieldOptions else None);
          colValue = (case foundField of
              Some f \<Rightarrow> if truthy (fo_displayName f) then the (fo_displayName f) else cell_text col
            | None \<Rightarrow> (case col of
                Some (VNum n) \<Rightarrow> if dp_isEnforced decimalPlaces then to_fixed n (dp_digits decimalPlaces) else cell_text col
              | _ \<Rightarrow> cell_text col));
          columnLabel = at topRow c;
          useTimeWidth = ((columnLabel = text_cell (fo_internalName DEFAULT_TIME_FIELD) \<and> verticalTimeAxis \<and> \<not> isTopRow) \<or>
            (\<not> verticalTimeAxis \<and> isTopRow \<and> at topRow 0 = text_cell (fo_internalName DEFAULT_TIME_FIELD) \<and> c \<noteq> 0))
      in if useTimeWidth then timeFormatWidth
         else textSize (if isLabel then LabelFont else ValueFont) colValue + CELL_HORIZONTAL_PADDING)"

definition put_width :: "bool \<Rightarrow> string \<Rightarrow> int \<Rightarrow> column_widths \<Rightarrow> column_widths" where
  \<comment> \<open>the copy made of the accumulator shares its \<open>widths\<close>\<close>
  "put_width isTopRow columnLabel currentWidth acc =
     (let maxWidth = (case obj_get (cw_widths acc) columnLabel of None \<Rightarrow> 0 | Some m \<Rightarrow> m)
      in if isTopRow \<or> currentWidth > maxWidth
         then \<lparr>cw_widths = obj_set (cw_widths acc) columnLabel currentWidth,
               cw_totalWidths = cw_totalWidths acc + (currentWidth - maxWidth)\<rparr>
         else acc)"

definition updateMaxWidths ::
    "(font \<Rightarrow> string \<Rightarrow> int) \<Rightarrow> ts_value option list \<Rightarrow> column_widths \<Rightarrow> ts_value option list \<Rightarrow> bool \<Rightarrow> field_option list \<Rightarrow>
     int \<Rightarrow> bool \<Rightarrow> decimal_places \<Rightarrow> column_widths" where
  "updateMaxWidths textSize row maxColumnWidths topRow isTopRow fieldOptions timeFormatWidth verticalTimeAxis decimalPlaces =
     fastReduce row (\<lambda>acc col c cols. put_width isTopRow (cell_text (at topRow c))
         (cell_width textSize topRow isTopRow fieldOptions timeFormatWidth verticalTimeAxis decimalPlaces c col) acc)
       maxColumnWidths"

definition calculateColumnWidths ::
    "(font \<Rightarrow> string \<Rightarrow> int) \<Rightarrow> table \<Rightarrow> field_option list \<Rightarrow> string \<Rightarrow> bool \<Rightarrow> decimal_places \<Rightarrow> column_widths" where
  "calculateColumnWidths textSize data fieldOptions timeFormat verticalTimeAxis decimalPlaces =
     (let timeFormatWidth = calculateTimeColumnWidth textSize (if timeFormat = [] then DEFAULT_TIME_FORMAT else timeFormat)
      in fastReduce data (\<lambda>acc row r rows. updateMaxWidths textSize row acc (hd data) (r = 0) fieldOptions timeFormatWidth
             verticalTimeAxis decimalPlaces)
           \<lparr>cw_widths = [], cw_totalWidths = 0\<rparr>)"

definition transformTableData ::
    "(font \<Rightarrow> string \<Rightarrow> int) \<Rightarrow> (string \<Rightarrow> int option) \<Rightarrow> table \<Rightarrow> sort_by \<Rightarrow> field_option list \<Rightarrow> table_options \<Rightarrow> string \<Rightarrow>
     decimal_places \<Rightarrow> (table \<times> ts_value option list \<times> column_widths) result" where
  "transformTableData textSize num data s fieldOptions tableOptions timeFormat decimalPlaces =
     bind_r (sortTableData num data s) (\<lambda>(sortedData, sortedTimeVals).
         bind_r (filterTableColumns sortedData fieldOptions) (\<lambda>filteredData.
         map_res (\<lambda>orderedData.
             let transformedData = (if to_verticalTimeAxis tableOptions then orderedData else unzip orderedData)
             in (transformedData, sortedTimeVals,
                 calculateColumnWidths textSize transformedData fieldOptions timeFormat (to_verticalTimeAxis tableOptions) decimalPlaces))
           (orderTableColumns filteredData fieldOptions)))"

section \<open>The sort\<close>

text \<open>
  What a stable sort needs of a comparison: on the values it is used on, it is total and transitive. The
  comparison of the code is not on texts mixed with numbers, so the interface has the values as a predicate.
\<close>

locale consistent_cmp =
  fixes cmp :: "'a \<Rightarrow> 'a \<Rightarrow> int" and ok :: "'a \<Rightarrow> bool"
  assumes total: "ok x \<Longrightarrow> ok y \<Longrightarrow> cmp x y \<le> 0 \<or> cmp y x \<le> 0"
    and trans: "ok x \<Longrightarrow> ok y \<Longrightarrow> ok z \<Longrightarrow> cmp x y \<le> 0 \<Longrightarrow> cmp y z \<le> 0 \<Longrightarrow> cmp x z \<le> 0"
begin

lemma insert_sorted:
  "ok x \<Longrightarrow> list_all ok ys \<Longrightarrow> sorted_wrt (\<lambda>a b. cmp a b \<le> 0) ys \<Longrightarrow> sorted_wrt (\<lambda>a b. cmp a b \<le> 0) (insert_by cmp x ys)"
proof (induction ys)
  case (Cons y ys)
  have set_ins: "set (insert_by cmp x ys) = insert x (set ys)" for ys
    by (induction ys) auto
  show ?case
  proof (cases "cmp x y \<le> 0")
    case True
    moreover have "cmp x z \<le> 0" if "z \<in> set ys" for z
      using that Cons.prems True trans[of x y z] by (auto simp: list_all_iff)
    ultimately show ?thesis using Cons.prems by simp
  next
    case False
    then have "cmp y x \<le> 0" using total Cons.prems by auto
    then show ?thesis using False Cons by (auto simp: set_ins)
  qed
qed simp

lemma order_by_sorted: "list_all ok xs \<Longrightarrow> sorted_wrt (\<lambda>a b. cmp a b \<le> 0) (order_by cmp xs)"
proof (induction xs)
  case (Cons x xs)
  have "list_all ok (foldr (insert_by cmp) xs [])" if "list_all ok xs" for xs
  proof -
    have "set (insert_by cmp x ys) = insert x (set ys)" for x ys by (induction ys) auto
    then have "set (foldr (insert_by cmp) xs []) = set xs" by (induction xs) auto
    with that show ?thesis by (simp add: list_all_iff)
  qed
  then show ?case using Cons by (simp add: order_by_def insert_sorted)
qed (simp add: order_by_def)

end

lemma mset_order_by: "mset (order_by cmp xs) = mset xs"
proof -
  have "mset (insert_by cmp x ys) = add_mset x (mset ys)" for x ys by (induction ys) auto
  then show ?thesis unfolding order_by_def by (induction xs) auto
qed

lemma order_by_stable:
  assumes "\<And>x y. key x = key y \<Longrightarrow> cmp x y \<le> 0"
  shows "filter (\<lambda>x. key x = v) (order_by cmp xs) = filter (\<lambda>x. key x = v) xs"
proof -
  have "filter (\<lambda>x. key x = v) (insert_by cmp x ys) = filter (\<lambda>x. key x = v) (x # ys)" for x ys
    using assms by (induction ys) auto
  then show ?thesis unfolding order_by_def by (induction xs) auto
qed

fun le_opt :: "ts_value option \<Rightarrow> ts_value option \<Rightarrow> bool" where
  \<comment> \<open>the order of the values of a column of one kind: null after them, absent last\<close>
  "le_opt _ None = True"
| "le_opt None (Some _) = False"
| "le_opt (Some x) (Some y) = (x \<le> y)"

fun of_kind :: "bool \<Rightarrow> ts_value option \<Rightarrow> bool" where
  \<comment> \<open>numbers, or texts; null and absent go with both\<close>
  "of_kind numbers (Some (VNum _)) = numbers"
| "of_kind numbers (Some (VStr _)) = (\<not> numbers)"
| "of_kind numbers _ = True"

lemma compare_of_kind:
  assumes "of_kind k a" and "of_kind k b"
  shows "compareAscending num a b \<le> 0 \<longleftrightarrow> le_opt a b" and "0 \<le> compareAscending num a b \<longleftrightarrow> le_opt b a"
  using assms by (cases "(k, a)" rule: of_kind.cases; cases "(k, b)" rule: of_kind.cases; auto simp: compareAscending_def)+

lemma le_opt_total: "le_opt a b \<or> le_opt b a"
  by (cases a; cases b) auto

lemma le_opt_trans: "le_opt a b \<Longrightarrow> le_opt b c \<Longrightarrow> le_opt a c"
  by (cases a; cases b; cases c) auto

definition key_of_row :: "nat option \<Rightarrow> ts_value option list \<Rightarrow> ts_value option" where
  "key_of_row sortIndex row = Option.bind sortIndex (at row)"

definition in_order :: "string \<Rightarrow> ts_value option \<Rightarrow> ts_value option \<Rightarrow> bool" where
  "in_order direction a b = (if direction = DESCENDING then le_opt b a else le_opt a b)"

lemma row_cmp_order:
  assumes "of_kind k (key_of_row i r)" and "of_kind k (key_of_row i s)"
  shows "row_cmp num i d r s \<le> 0 \<longleftrightarrow> in_order d (key_of_row i r) (key_of_row i s)"
  using compare_of_kind[OF assms] by (simp add: row_cmp_def in_order_def key_of_row_def)

interpretation rows: consistent_cmp "row_cmp num i d" "\<lambda>r. of_kind k (key_of_row i r)" for num i d k
proof unfold_locales
  fix x y z
  assume "of_kind k (key_of_row i x)" "of_kind k (key_of_row i y)"
  then show "row_cmp num i d x y \<le> 0 \<or> row_cmp num i d y x \<le> 0"
    using le_opt_total by (simp add: row_cmp_order in_order_def)
  assume "of_kind k (key_of_row i z)" and "row_cmp num i d x y \<le> 0" "row_cmp num i d y z \<le> 0"
  with \<open>of_kind k (key_of_row i x)\<close> \<open>of_kind k (key_of_row i y)\<close> show "row_cmp num i d x z \<le> 0"
    by (auto simp: row_cmp_order in_order_def intro: le_opt_trans)
qed

definition sort_index :: "ts_value option list \<Rightarrow> sort_by \<Rightarrow> nat option" where
  "sort_index header s = find_index (\<lambda>l. l = text_cell (sb_field s)) header"

definition sorted_rows :: "sort_by \<Rightarrow> nat option \<Rightarrow> table \<Rightarrow> table \<Rightarrow> bool" where
  \<comment> \<open>the rows, in the order of their keys, those of one key in the order they had\<close>
  "sorted_rows s i rs rs' \<longleftrightarrow> mset rs' = mset rs \<and>
     sorted_wrt (\<lambda>r r'. in_order (sb_direction s) (key_of_row i r) (key_of_row i r')) rs' \<and>
     (\<forall>v. filter (\<lambda>r. key_of_row i r = v) rs' = filter (\<lambda>r. key_of_row i r = v) rs)"

lemma sorted_wrt_weaken: "sorted_wrt P xs \<Longrightarrow> \<forall>x\<in>set xs. \<forall>y\<in>set xs. P x y \<longrightarrow> Q x y \<Longrightarrow> sorted_wrt Q xs"
  by (induction xs) auto

lemma sort_result:
  assumes "list_all (\<lambda>r. of_kind k (key_of_row (sort_index header s) r)) rs"
  shows "\<exists>rs'. sortTableData num (header # rs) s = Inr (header # rs', map (\<lambda>r. at r 0) (header # rs')) \<and>
    sorted_rows s (sort_index header s) rs rs'"
proof -
  let ?i = "sort_index header s" and ?d = "sb_direction s"
  let ?rs' = "order_by (row_cmp num ?i ?d) rs"
  have ms: "mset ?rs' = mset rs" by (rule mset_order_by)
  then have kinds: "\<forall>r\<in>set ?rs'. of_kind k (key_of_row ?i r)"
    using assms mset_eq_setD by (fastforce simp: list_all_iff)
  have "sorted_wrt (\<lambda>a b. row_cmp num ?i ?d a b \<le> 0) ?rs'"
    by (rule rows.order_by_sorted[OF assms])
  then have "sorted_wrt (\<lambda>r r'. in_order ?d (key_of_row ?i r) (key_of_row ?i r')) ?rs'"
    by (rule sorted_wrt_weaken) (use kinds row_cmp_order in blast)
  moreover have "filter (\<lambda>r. key_of_row ?i r = v) ?rs' = filter (\<lambda>r. key_of_row ?i r = v) rs" for v
    by (rule order_by_stable) (simp add: row_cmp_def key_of_row_def compareAscending_def)
  ultimately show ?thesis
    using ms by (intro exI[of _ ?rs']) (simp add: sortTableData_def sorted_rows_def sort_index_def fastMap_map Let_def)
qed

section \<open>The columns\<close>

text \<open>Positions of the columns kept, in terms of the first row.\<close>

definition pick :: "nat list \<Rightarrow> 'a option list \<Rightarrow> 'a option list" where
  "pick ns row = map (at row) ns"

definition kept :: "field_option list \<Rightarrow> ts_value option list \<Rightarrow> nat list" where
  "kept fieldOptions header = filter (\<lambda>j. visible_column fieldOptions (header ! j)) [0..<length header]"

definition places :: "field_option list \<Rightarrow> ts_value option list \<Rightarrow> nat list" where
  "places fieldOptions header =
     List.map_filter (\<lambda>f. find_index (\<lambda>l. l = text_cell (fo_internalName f)) header) fieldOptions"

lemma fastFilter_index: "fastFilter xs (\<lambda>x j s. P j) = map ((!) xs) (filter P [0..<length xs])"
proof -
  have *: "fast_filter_loop (\<lambda>x j s. P j) subject n r ys = r @ map ((!) ys) (filter (\<lambda>j. P (n + j)) [0..<length ys])"
    for subject n r ys
  proof (induction ys arbitrary: n r)
    case (Cons y ys)
    have "[0..<length (y # ys)] = 0 # map Suc [0..<length ys]" by (simp add: upt_conv_Cons map_Suc_upt del: upt_Suc)
    then show ?case using Cons by (simp add: filter_map o_def del: upt_Suc)
  qed simp
  show ?thesis using *[of xs 0 "[]" xs] by (simp add: fastFilter_def)
qed

lemma filter_columns:
  assumes "\<forall>row\<in>set rs. length row = length header"
  shows "filterTableColumns (header # rs) fieldOptions =
    Inr (if kept fieldOptions header = [] then [[]] else map (pick (kept fieldOptions header)) (header # rs))"
proof -
  let ?v = "map (visible_column fieldOptions) header"
  have row: "fastFilter row (\<lambda>col j cols. j < length ?v \<and> ?v ! j) = pick (kept fieldOptions header) row"
    if "length row = length header" for row
  proof -
    have "filter (\<lambda>j. j < length ?v \<and> ?v ! j) [0..<length row] = kept fieldOptions header"
      using that by (auto simp: kept_def intro!: filter_cong)
    then show ?thesis
      unfolding fastFilter_index pick_def using that by (auto simp: at_def kept_def intro!: map_cong)
  qed
  have rows: "fastMap (header # rs) (\<lambda>row i rows. fastFilter row (\<lambda>col j cols. j < length ?v \<and> ?v ! j)) =
      map (pick (kept fieldOptions header)) (header # rs)"
    unfolding fastMap_map by (rule map_cong[OF refl]) (use assms row in auto)
  show ?thesis
    unfolding filterTableColumns_def Let_def list.case rows by (simp add: pick_def)
qed

lemma map_nths: "map (\<lambda>j. if j < length p then f (p ! j) else d) [0..<length p] = map f p"
  by (rule nth_equalityI) simp_all

lemma order_columns:
  assumes "\<forall>row\<in>set rs. length row = length header" and "length (places fieldOptions header) = length header"
  shows "orderTableColumns (header # rs) fieldOptions =
    Inr (if header = [] then [[]] else map (pick (places fieldOptions header)) (header # rs))"
proof -
  let ?p = "places fieldOptions header"
  have p: "List.map_filter (\<lambda>f. f) (map (\<lambda>f. find_index (\<lambda>l. l = text_cell (fo_internalName f)) header) fieldOptions) = ?p"
    unfolding places_def by (induction fieldOptions) (simp_all add: List.map_filter_simps split: option.split)
  have row: "map (\<lambda>j. if j < length ?p then at row (?p ! j) else None) [0..<length row] = pick ?p row"
    if "length row = length header" for row
    unfolding that assms(2)[symmetric] pick_def by (rule map_nths)
  have rows: "fastMap (header # rs) (\<lambda>row i rows. map (\<lambda>j. if j < length ?p then at row (?p ! j) else None) [0..<length row]) =
      map (pick ?p) (header # rs)"
    unfolding fastMap_map by (rule map_cong[OF refl]) (use assms row in auto)
  show ?thesis
    unfolding orderTableColumns_def Let_def list.case p rows using assms(2) by (auto simp: pick_def)
qed

lemma find_unique:
  "distinct (map key xs) \<Longrightarrow> x \<in> set xs \<Longrightarrow> List.find (\<lambda>y. key y = key x) xs = Some x"
  by (induction xs) (auto simp: image_iff)

lemma text_cell_inject [simp]: "text_cell a = text_cell b \<longleftrightarrow> a = b"
  by (simp add: text_cell_def)

definition shown_names :: "field_option list \<Rightarrow> string list \<Rightarrow> string list" where
  \<comment> \<open>the names of the visible options that are columns, in the order of the options\<close>
  "shown_names fieldOptions labels =
     map fo_internalName (filter (\<lambda>f. fo_visible f \<and> fo_internalName f \<in> set labels) fieldOptions)"

definition options_cover :: "field_option list \<Rightarrow> string list \<Rightarrow> bool" where
  "options_cover fieldOptions labels \<longleftrightarrow>
     distinct (map fo_internalName fieldOptions) \<and> set labels \<subseteq> fo_internalName ` set fieldOptions"

lemma visible_by_name:
  assumes "distinct (map fo_internalName opts)" and "f \<in> set opts"
  shows "visible_column opts (text_cell (fo_internalName f)) = fo_visible f"
  using find_unique[OF assms] by (simp add: visible_column_def)

lemma kept_header:
  assumes "options_cover opts labels"
  shows "set (pick (kept opts (map text_cell labels)) (map text_cell labels)) = text_cell ` set (shown_names opts labels)"
proof -
  have d: "distinct (map fo_internalName opts)" and c: "set labels \<subseteq> fo_internalName ` set opts"
    using assms by (auto simp: options_cover_def)
  have "set (pick (kept opts (map text_cell labels)) (map text_cell labels)) =
      {text_cell l | l. l \<in> set labels \<and> visible_column opts (text_cell l)}"
    by (auto simp: pick_def kept_def at_def in_set_conv_nth image_iff)
  also have "\<dots> = text_cell ` set (shown_names opts labels)"
    using c visible_by_name[OF d] by (fastforce simp: shown_names_def image_iff)
  finally show ?thesis .
qed

lemma shown_distinct: "options_cover opts labels \<Longrightarrow> distinct (shown_names opts labels)"
  by (simp add: shown_names_def options_cover_def distinct_map_filter)

lemma kept_distinct: "distinct labels \<Longrightarrow> distinct (pick (kept opts (map text_cell labels)) (map text_cell labels))"
proof -
  assume d: "distinct labels"
  have "inj_on (at (map text_cell labels)) (set (kept opts (map text_cell labels)))"
    using d by (auto simp: inj_on_def kept_def at_def distinct_conv_nth)
  then show ?thesis by (simp add: pick_def distinct_map kept_def)
qed

lemma map_filter_filter: "List.map_filter g xs = map (\<lambda>x. the (g x)) (filter (\<lambda>x. g x \<noteq> None) xs)"
  by (induction xs) (auto simp: List.map_filter_simps split: option.split)

lemma places_shown:
  assumes "options_cover opts labels" and "set header = text_cell ` set (shown_names opts labels)"
  shows "places opts header = map (\<lambda>n. the (find_index (\<lambda>l. l = text_cell n) header)) (shown_names opts labels)"
proof -
  have d: "distinct (map fo_internalName opts)" using assms(1) by (simp add: options_cover_def)
  have "find_index (\<lambda>l. l = text_cell (fo_internalName f)) header \<noteq> None \<longleftrightarrow> fo_visible f \<and> fo_internalName f \<in> set labels"
    if f: "f \<in> set opts" for f
  proof -
    have "find_index (\<lambda>l. l = text_cell (fo_internalName f)) header \<noteq> None \<longleftrightarrow> fo_internalName f \<in> set (shown_names opts labels)"
      using assms(2) by (auto simp: find_index_None)
    also have "\<dots> \<longleftrightarrow> fo_visible f \<and> fo_internalName f \<in> set labels"
      using d f by (auto simp: shown_names_def distinct_map dest: inj_onD)
    finally show ?thesis .
  qed
  then show ?thesis
    unfolding places_def map_filter_filter shown_names_def by (simp cong: filter_cong)
qed

lemma pick_pick: "\<forall>i\<in>set is. i < length ns \<Longrightarrow> pick is (pick ns row) = pick (map ((!) ns) is) row"
  by (simp add: pick_def at_def)

lemma length_pick [simp]: "length (pick ns row) = length ns"
  by (simp add: pick_def)

lemma columns_result:
  assumes cover: "options_cover opts labels" and "distinct labels" and "\<forall>row\<in>set rs. length row = length labels"
  shows "\<exists>ns. pick ns (map text_cell labels) = map text_cell (shown_names opts labels) \<and>
    bind_r (filterTableColumns (map text_cell labels # rs) opts) (\<lambda>d. orderTableColumns d opts) =
      Inr (if shown_names opts labels = [] then [[]] else map (pick ns) (map text_cell labels # rs))"
proof -
  define header where "header = map text_cell labels"
  define K where "K = kept opts header"
  define P where "P = places opts (pick K header)"
  have len: "\<forall>row\<in>set rs. length row = length header" using assms(3) by (simp add: header_def)
  have set_H: "set (pick K header) = text_cell ` set (shown_names opts labels)"
    unfolding K_def header_def by (rule kept_header[OF cover])
  have P: "P = map (\<lambda>n. the (find_index (\<lambda>l. l = text_cell n) (pick K header))) (shown_names opts labels)"
    unfolding P_def by (rule places_shown[OF cover set_H])
  have found: "\<exists>i. find_index (\<lambda>l. l = text_cell n) (pick K header) = Some i \<and> i < length K \<and> pick K header ! i = text_cell n"
    if "n \<in> set (shown_names opts labels)" for n
  proof -
    have "find_index (\<lambda>l. l = text_cell n) (pick K header) \<noteq> None"
      using that set_H by (auto simp: find_index_None)
    then obtain i where i: "find_index (\<lambda>l. l = text_cell n) (pick K header) = Some i" by blast
    from find_index_Some[OF i] i show ?thesis by auto
  qed
  have inj: "inj text_cell" by (auto simp: inj_def)
  have "length P = card (set (shown_names opts labels))"
    unfolding P using shown_distinct[OF cover] by (simp add: distinct_card)
  also have "\<dots> = card (set (pick K header))"
    unfolding set_H by (rule card_image[symmetric]) (rule inj_on_subset[OF inj subset_UNIV])
  also have "\<dots> = length K"
    using distinct_card[OF kept_distinct[OF assms(2)], of opts] by (simp add: K_def header_def)
  finally have length_P: "length P = length K" .
  have bound: "\<forall>i\<in>set P. i < length K" unfolding P using found by fastforce
  have shown_K: "K = [] \<longleftrightarrow> shown_names opts labels = []"
    using length_P P by auto
  have "pick (map ((!) K) P) header = pick P (pick K header)"
    by (rule pick_pick[OF bound, symmetric])
  also have "\<dots> = map text_cell (shown_names opts labels)"
  proof -
    have "at (pick K header) (the (find_index (\<lambda>l. l = text_cell n) (pick K header))) = text_cell n"
      if "n \<in> set (shown_names opts labels)" for n
      using found[OF that] by (auto simp: at_def)
    then have "map (at (pick K header)) P = map text_cell (shown_names opts labels)" unfolding P by simp
    then show ?thesis by (simp only: pick_def[of P])
  qed
  finally have heads: "pick (map ((!) K) P) header = map text_cell (shown_names opts labels)" .
  have filtered: "filterTableColumns (header # rs) opts = Inr (if K = [] then [[]] else map (pick K) (header # rs))"
    unfolding K_def by (rule filter_columns[OF len])
  have rows: "map (pick P) (map (pick K) (header # rs)) = map (pick (map ((!) K) P)) (header # rs)"
    by (simp only: map_map o_def pick_pick[OF bound])
  have "bind_r (filterTableColumns (header # rs) opts) (\<lambda>d. orderTableColumns d opts) =
      Inr (if shown_names opts labels = [] then [[]] else map (pick (map ((!) K) P)) (header # rs))"
  proof (cases "K = []")
    case True
    have "orderTableColumns ([] # []) opts = Inr [[]]"
      by (simp add: orderTableColumns_def fastMap_map)
    then show ?thesis unfolding filtered using True shown_K by simp
  next
    case False
    have "orderTableColumns (pick K header # map (pick K) rs) opts =
        Inr (if pick K header = [] then [[]] else map (pick P) (pick K header # map (pick K) rs))"
      unfolding P_def by (rule order_columns) (use length_P in \<open>simp_all add: P_def\<close>)
    moreover have "pick K header \<noteq> []" using False by (simp add: pick_def)
    ultimately show ?thesis unfolding filtered using False shown_K rows by simp
  qed
  then show ?thesis using heads unfolding header_def by blast
qed

section \<open>The options of a table's columns\<close>

definition time_option :: "field_option list \<Rightarrow> field_option" where
  "time_option existing =
     (case List.find (\<lambda>f. fo_internalName f = ''time'') existing of None \<Rightarrow> DEFAULT_TIME_FIELD | Some f \<Rightarrow> f)"

definition ast_names :: "field_option list \<Rightarrow> label list \<Rightarrow> field_option list" where
  "ast_names existing ls = time_option existing # map (\<lambda>l. new_field (la_label l)) ls"

lemma time_option_name [simp]: "fo_internalName (time_option existing) = ''time''"
proof (cases "List.find (\<lambda>f. fo_internalName f = ''time'') existing")
  case (Some f)
  then show ?thesis using find_Some[OF Some] unfolding time_option_def Some by (simp only: option.case)
qed (simp add: time_option_def DEFAULT_TIME_FIELD_def)

lemma time_option_new: "''time'' \<notin> fo_internalName ` set existing \<Longrightarrow> fo_visible (time_option existing)"
proof (cases "List.find (\<lambda>f. fo_internalName f = ''time'') existing")
  case (Some f)
  then show "''time'' \<notin> fo_internalName ` set existing \<Longrightarrow> ?thesis" using find_Some[OF Some] by (metis imageI)
qed (simp add: time_option_def DEFAULT_TIME_FIELD_def)

lemma names_ast: "map fo_internalName (ast_names existing ls) = ''time'' # map la_label ls"
  by (simp add: ast_names_def new_field_def o_def)

lemma set_names_ast: "fo_internalName ` set (ast_names existing ls) = set (''time'' # map la_label ls)"
  by (simp only: names_ast[symmetric, where existing = existing] set_map)

lemma compute_options:
  "computeFieldOptions existing ls =
     filter (\<lambda>f. fo_internalName f \<in> set (''time'' # map la_label ls)) existing @
     filter (\<lambda>a. fo_internalName a \<notin> fo_internalName ` set existing) (ast_names existing ls)"
proof -
  have fold: "foldl (\<lambda>acc l. acc @ [new_field (la_label l)]) init ls = init @ map (\<lambda>l. new_field (la_label l)) ls" for init
    by (induction ls arbitrary: init) simp_all
  have ast: "foldl (\<lambda>acc l. acc @ [new_field (la_label l)])
      [case List.find (\<lambda>f. fo_internalName f = ''time'') existing of None \<Rightarrow> DEFAULT_TIME_FIELD | Some f \<Rightarrow> f] ls = ast_names existing ls"
    unfolding fold ast_names_def time_option_def by (simp only: append_Cons append_Nil)
  have 1: "list_ex (\<lambda>a. fo_internalName a = n) xs \<longleftrightarrow> n \<in> fo_internalName ` set xs" for n and xs :: "field_option list"
    by (auto simp: list_ex_iff)
  have 2: "list_ex (\<lambda>f. fo_internalName f = n) xs \<longleftrightarrow> n \<in> fo_internalName ` set xs" for n and xs :: "field_option list"
    by (rule 1)
  show ?thesis
    unfolding computeFieldOptions_def Let_def ast 1 set_names_ast by (rule refl)
qed

lemma filter_names: "map key (filter (\<lambda>x. P (key x)) xs) = filter P (map key xs)"
  by (induction xs) auto

lemma compute_cover:
  assumes "distinct (map fo_internalName existing)" and "distinct (''time'' # map la_label ls)"
  shows "options_cover (computeFieldOptions existing ls) (''time'' # map la_label ls)"
proof -
  let ?N = "''time'' # map la_label ls"
  have names: "map fo_internalName (computeFieldOptions existing ls) =
      filter (\<lambda>n. n \<in> set ?N) (map fo_internalName existing) @ filter (\<lambda>n. n \<notin> fo_internalName ` set existing) ?N"
    unfolding compute_options map_append names_ast[symmetric, where existing = existing]
      filter_names[of fo_internalName "\<lambda>n. n \<in> set (map fo_internalName (ast_names existing ls))"]
      filter_names[of fo_internalName "\<lambda>n. n \<notin> fo_internalName ` set existing"] by (rule refl)
  have "distinct (map fo_internalName (computeFieldOptions existing ls))"
    unfolding names using assms by auto
  moreover have "set ?N \<subseteq> set (map fo_internalName (computeFieldOptions existing ls))"
    unfolding names by auto
  ultimately show ?thesis by (simp add: options_cover_def)
qed

text \<open>
  The field options of a table follow its columns. Options made for the labels of a query result have one
  entry per column and for the time, keep the settings and the order of those that were there and
  add the new ones visible at the end; doing it again for the same labels changes nothing.
\<close>

theorem computeFieldOptions_settles:
  assumes "distinct (map fo_internalName existing)" and "distinct (''time'' # map la_label ls)"
  shows "let opts = computeFieldOptions existing ls
    in distinct (map fo_internalName opts) \<and> set (map fo_internalName opts) = set (''time'' # map la_label ls) \<and>
       (\<exists>new. opts = filter (\<lambda>f. fo_internalName f \<in> set (''time'' # map la_label ls)) existing @ new \<and> list_all fo_visible new) \<and>
       computeFieldOptions opts ls = opts"
proof -
  let ?N = "''time'' # map la_label ls" and ?opts = "computeFieldOptions existing ls"
  let ?new = "filter (\<lambda>a. fo_internalName a \<notin> fo_internalName ` set existing) (ast_names existing ls)"
  have cover: "options_cover ?opts ?N" by (rule compute_cover[OF assms])
  have names: "set (map fo_internalName ?opts) = set ?N"
  proof -
    have "fo_internalName f \<in> set ?N" if "f \<in> set ?opts" for f
      using that set_names_ast[of existing ls] unfolding compute_options set_append set_filter by blast
    then have "set (map fo_internalName ?opts) \<subseteq> set ?N" unfolding set_map by blast
    then show ?thesis using cover unfolding options_cover_def set_map by blast
  qed
  have "computeFieldOptions ?opts ls = ?opts"
  proof -
    have "filter (\<lambda>f. fo_internalName f \<in> set ?N) ?opts = ?opts"
      using names unfolding filter_id_conv set_map by blast
    moreover have "filter (\<lambda>a. fo_internalName a \<notin> fo_internalName ` set ?opts) (ast_names ?opts ls) = []"
      using names set_names_ast[of ?opts ls] unfolding filter_empty_conv set_map by blast
    ultimately show ?thesis unfolding compute_options[of ?opts ls] by (simp only: append_Nil2)
  qed
  moreover have "list_all fo_visible ?new"
    using time_option_new[of existing] by (auto simp: list_all_iff ast_names_def new_field_def)
  moreover have "distinct (map fo_internalName ?opts)" using cover by (simp only: options_cover_def)
  ultimately show ?thesis
    unfolding Let_def using names compute_options[of existing ls] by blast
qed

lemma computeFieldOptions_settles_witness:
  "computeFieldOptions (computeFieldOptions [new_field ''old'', (new_field ''a'')\<lparr>fo_visible := False\<rparr>]
      [\<lparr>la_label = ''b'', la_seriesIndex = 0, la_responseIndex = 0\<rparr>, \<lparr>la_label = ''a'', la_seriesIndex = 0, la_responseIndex = 1\<rparr>])
      [\<lparr>la_label = ''b'', la_seriesIndex = 0, la_responseIndex = 0\<rparr>, \<lparr>la_label = ''a'', la_seriesIndex = 0, la_responseIndex = 1\<rparr>] =
    [(new_field ''a'')\<lparr>fo_visible := False\<rparr>, DEFAULT_TIME_FIELD, new_field ''b'']"
proof -
  let ?e = "[new_field ''old'', (new_field ''a'')\<lparr>fo_visible := False\<rparr>]"
  let ?l = "[\<lparr>la_label = ''b'', la_seriesIndex = 0, la_responseIndex = 0\<rparr>, \<lparr>la_label = ''a'', la_seriesIndex = 0, la_responseIndex = 1\<rparr>]"
  have "distinct (map fo_internalName ?e)" "distinct (''time'' # map la_label ?l)" by (simp_all add: new_field_def)
  from computeFieldOptions_settles[OF this]
  have "computeFieldOptions (computeFieldOptions ?e ?l) ?l = computeFieldOptions ?e ?l" unfolding Let_def by blast
  also have "\<dots> = [(new_field ''a'')\<lparr>fo_visible := False\<rparr>, DEFAULT_TIME_FIELD, new_field ''b'']"
    by (simp add: computeFieldOptions_def new_field_def DEFAULT_TIME_FIELD_def)
  finally show ?thesis .
qed

text \<open>
  What a table shows. For a table with distinct column names and full rows, options made for its columns, and a
  sort column of numbers or of texts (nulls and gaps allowed): the rows are those of the data, sorted by the
  chosen column in the chosen direction, ties in their old order; of every row exactly the visible columns
  are shown, in the order of the options, each under its own name; the times returned are those of the sorted rows.
\<close>

theorem table_shows_columns:
  assumes "distinct (map fo_internalName existing)" and "distinct (''time'' # map la_label ls)"
    and rows: "\<forall>row\<in>set rs. length row = length (''time'' # map la_label ls)"
    and kind: "list_all (\<lambda>r. of_kind k (key_of_row (sort_index (map text_cell (''time'' # map la_label ls)) s) r)) rs"
  shows "let labels = ''time'' # map la_label ls; opts = computeFieldOptions existing ls; header = map text_cell labels
    in \<exists>rs' ns widths. sorted_rows s (sort_index header s) rs rs' \<and> pick ns header = map text_cell (shown_names opts labels) \<and>
       transformTableData textSize num (header # rs) s opts tableOptions timeFormat decimalPlaces =
         Inr (let shown = (if shown_names opts labels = [] then [[]] else map (pick ns) (header # rs'))
              in if to_verticalTimeAxis tableOptions then shown else unzip shown,
              map (\<lambda>r. at r 0) (header # rs'), widths)"
proof -
  let ?labels = "''time'' # map la_label ls" and ?opts = "computeFieldOptions existing ls"
  let ?header = "map text_cell ?labels"
  obtain rs' where rs': "sortTableData num (?header # rs) s = Inr (?header # rs', map (\<lambda>r. at r 0) (?header # rs'))"
    and sorted: "sorted_rows s (sort_index ?header s) rs rs'"
    using sort_result[OF kind] by blast
  have "set rs' = set rs" using sorted by (auto simp: sorted_rows_def dest: mset_eq_setD)
  then have len: "\<forall>row\<in>set rs'. length row = length ?labels" using rows by simp
  obtain ns where ns: "pick ns ?header = map text_cell (shown_names ?opts ?labels)"
    and cols: "bind_r (filterTableColumns (?header # rs') ?opts) (\<lambda>d. orderTableColumns d ?opts) =
      Inr (if shown_names ?opts ?labels = [] then [[]] else map (pick ns) (?header # rs'))"
    using columns_result[OF compute_cover[OF assms(1,2)] assms(2) len] by blast
  obtain d where d: "filterTableColumns (?header # rs') ?opts = Inr d"
    and o: "orderTableColumns d ?opts = Inr (if shown_names ?opts ?labels = [] then [[]] else map (pick ns) (?header # rs'))"
    using cols unfolding bind_r_Inr_iff by blast
  let ?t = "let shown = (if shown_names ?opts ?labels = [] then [[]] else map (pick ns) (?header # rs'))
            in if to_verticalTimeAxis tableOptions then shown else unzip shown"
  have "transformTableData textSize num (?header # rs) s ?opts tableOptions timeFormat decimalPlaces =
      Inr (?t, map (\<lambda>r. at r 0) (?header # rs'),
        calculateColumnWidths textSize ?t ?opts timeFormat (to_verticalTimeAxis tableOptions) decimalPlaces)"
    unfolding transformTableData_def rs' bind_r_simps prod.case d o map_res_simps Let_def by (rule refl)
  then show ?thesis unfolding Let_def using sorted ns by blast
qed

lemma table_shows_columns_witness:
  "\<exists>rs' ns widths. sorted_rows \<lparr>sb_field = ''time'', sb_direction = ASCENDING\<rparr> (Some 0)
       [[Some (VNum 5), Some (VNum 7)], [Some (VNum 3), None]] rs' \<and>
     pick ns [text_cell ''time'', text_cell ''a''] = [text_cell ''time'', text_cell ''a''] \<and>
     transformTableData (\<lambda>_ s. int (length s)) (\<lambda>_. None)
       ([text_cell ''time'', text_cell ''a''] # [[Some (VNum 5), Some (VNum 7)], [Some (VNum 3), None]])
       \<lparr>sb_field = ''time'', sb_direction = ASCENDING\<rparr>
       (computeFieldOptions [] [\<lparr>la_label = ''a'', la_seriesIndex = 0, la_responseIndex = 0\<rparr>])
       DEFAULT_TABLE_OPTIONS [] DEFAULT_DECIMAL_PLACES =
       Inr (map (pick ns) ([text_cell ''time'', text_cell ''a''] # rs'),
         map (\<lambda>r. at r 0) ([text_cell ''time'', text_cell ''a''] # rs'), widths)"
proof -
  let ?l = "[\<lparr>la_label = ''a'', la_seriesIndex = 0, la_responseIndex = 0\<rparr>]"
  let ?s = "\<lparr>sb_field = ''time'', sb_direction = ASCENDING\<rparr>"
  let ?rs = "[[Some (VNum 5), Some (VNum 7)], [Some (VNum 3), None]]"
  have l: "''time'' # map la_label ?l = [''time'', ''a'']" by simp
  have i: "sort_index (map text_cell [''time'', ''a'']) ?s = Some 0" by (simp add: sort_index_def)
  have o: "shown_names (computeFieldOptions [] ?l) [''time'', ''a''] = [''time'', ''a'']"
    by (simp add: shown_names_def computeFieldOptions_def new_field_def DEFAULT_TIME_FIELD_def)
  have v: "to_verticalTimeAxis DEFAULT_TABLE_OPTIONS" by (simp add: DEFAULT_TABLE_OPTIONS_def)
  have k: "list_all (\<lambda>r. of_kind True (key_of_row (sort_index (map text_cell (''time'' # map la_label ?l)) ?s) r)) ?rs"
    unfolding l i by (simp add: key_of_row_def at_def)
  show ?thesis
    using table_shows_columns[of "[]" ?l ?rs True ?s "\<lambda>_ s. int (length s)" "\<lambda>_. None" DEFAULT_TABLE_OPTIONS "[]" DEFAULT_DECIMAL_PLACES, OF _ _ _ k]
    unfolding Let_def l i o using v by simp
qed

text \<open>
  Two columns of one name, as two queries of the same field give them: each option of that name is looked up by
  name and finds the first, so the table shows the first column twice and the second not at all.
\<close>

lemma same_name_shows_first_twice:
  "let ls = [\<lparr>la_label = ''cpu.usage'', la_seriesIndex = 0, la_responseIndex = 0\<rparr>, \<lparr>la_label = ''cpu.usage'', la_seriesIndex = 0, la_responseIndex = 1\<rparr>]
   in bind_r (filterTableColumns [map text_cell [''time'', ''cpu.usage'', ''cpu.usage''], [Some (VNum 0), Some (VNum 10), Some (VNum 20)]]
         (computeFieldOptions [] ls)) (\<lambda>d. orderTableColumns d (computeFieldOptions [] ls)) =
      Inr [map text_cell [''time'', ''cpu.usage'', ''cpu.usage''], [Some (VNum 0), Some (VNum 10), Some (VNum 10)]]"
  by code_simp

section \<open>The widths of the columns\<close>

definition width_of :: "column_widths \<Rightarrow> string \<Rightarrow> int" where
  "width_of cw l = (case obj_get (cw_widths cw) l of None \<Rightarrow> 0 | Some m \<Rightarrow> m)"

definition widths_ok :: "column_widths \<Rightarrow> bool" where
  "widths_ok cw \<longleftrightarrow> obj_ok (cw_widths cw) \<and> cw_totalWidths cw = sum_list (map snd (cw_widths cw))"

lemma sum_obj_set: "obj_ok ob \<Longrightarrow> sum_list (map snd (obj_set ob k v)) =
    sum_list (map snd ob) - (case obj_get ob k of None \<Rightarrow> 0 | Some w \<Rightarrow> w) + (v::int)"
proof (induction ob k v rule: obj_set.induct)
  case (2 j w ob k v)
  then show ?case by (auto simp: obj_ok_def)
qed simp

lemma put_width_ok: "widths_ok cw \<Longrightarrow> widths_ok (put_width isTop l n cw)"
  by (simp add: widths_ok_def put_width_def Let_def sum_obj_set)

lemma put_width_grows: "width_of cw m \<le> width_of (put_width False l n cw) m \<and> n \<le> width_of (put_width False l n cw) l"
  by (auto simp: put_width_def Let_def width_of_def obj_get_set)

definition row_widths :: "bool \<Rightarrow> (nat \<Rightarrow> string) \<Rightarrow> (nat \<Rightarrow> ts_value option \<Rightarrow> int) \<Rightarrow> column_widths \<Rightarrow> (nat \<times> ts_value option) list \<Rightarrow> column_widths" where
  "row_widths isTop l f cw ps = foldl (\<lambda>acc (c, col). put_width isTop (l c) (f c col) acc) cw ps"

lemma row_widths_ok: "widths_ok cw \<Longrightarrow> widths_ok (row_widths isTop l f cw ps)"
  unfolding row_widths_def by (induction ps arbitrary: cw) (auto simp: put_width_ok)

lemma row_widths_grow: "width_of cw m \<le> width_of (row_widths False l f cw ps) m"
proof (induction ps arbitrary: cw)
  case (Cons p ps)
  have "width_of cw m \<le> width_of (put_width False (l (fst p)) (f (fst p) (snd p)) cw) m" using put_width_grows by blast
  also have "\<dots> \<le> width_of (row_widths False l f (put_width False (l (fst p)) (f (fst p) (snd p)) cw) ps) m" by (rule Cons)
  finally show ?case by (simp add: row_widths_def case_prod_beta)
qed (simp add: row_widths_def)

lemma row_widths_cover: "(c, col) \<in> set ps \<Longrightarrow> f c col \<le> width_of (row_widths False l f cw ps) (l c)"
proof (induction ps arbitrary: cw)
  case (Cons p ps)
  have step: "row_widths False l f cw (p # ps) = row_widths False l f (put_width False (l (fst p)) (f (fst p) (snd p)) cw) ps"
    by (simp add: row_widths_def case_prod_beta)
  show ?case
  proof (cases "p = (c, col)")
    case True
    then have "f c col \<le> width_of (put_width False (l c) (f c col) cw) (l c)" using put_width_grows by blast
    also have "\<dots> \<le> width_of (row_widths False l f (put_width False (l c) (f c col) cw) ps) (l c)" by (rule row_widths_grow)
    finally show ?thesis unfolding step using True by simp
  next
    case False
    then show ?thesis unfolding step using Cons by auto
  qed
qed simp

lemma updateMaxWidths_row:
  "updateMaxWidths textSize row cw topRow isTop opts w vertical dp =
     row_widths isTop (\<lambda>c. cell_text (at topRow c)) (cell_width textSize topRow isTop opts w vertical dp) cw (enumerate 0 row)"
  unfolding updateMaxWidths_def fastReduce_def row_widths_def
  by (subst fast_reduce_loop_index[of "\<lambda>acc col c. put_width isTop (cell_text (at topRow c))
        (cell_width textSize topRow isTop opts w vertical dp c col) acc"]) (rule refl)

definition body_widths ::
    "(font \<Rightarrow> string \<Rightarrow> int) \<Rightarrow> ts_value option list \<Rightarrow> field_option list \<Rightarrow> int \<Rightarrow> bool \<Rightarrow> decimal_places \<Rightarrow> column_widths \<Rightarrow> table \<Rightarrow> column_widths" where
  "body_widths textSize topRow opts w vertical dp cw rows =
     foldl (\<lambda>acc row. updateMaxWidths textSize row acc topRow False opts w vertical dp) cw rows"

lemma widths_fold:
  "calculateColumnWidths textSize (topRow # rows) opts timeFormat vertical dp =
     (let w = calculateTimeColumnWidth textSize (if timeFormat = [] then DEFAULT_TIME_FORMAT else timeFormat)
      in body_widths textSize topRow opts w vertical dp
           (updateMaxWidths textSize topRow \<lparr>cw_widths = [], cw_totalWidths = 0\<rparr> topRow True opts w vertical dp) rows)"
proof -
  have body: "foldl (\<lambda>acc (r, row). updateMaxWidths textSize row acc topRow (r = 0) opts w vertical dp) cw (enumerate (Suc n) rows) =
      body_widths textSize topRow opts w vertical dp cw rows" for w cw n
    unfolding body_widths_def by (induction rows arbitrary: cw n) simp_all
  show ?thesis
    unfolding calculateColumnWidths_def fastReduce_def Let_def list.sel
    by (subst fast_reduce_loop_index[of "\<lambda>acc row r. updateMaxWidths textSize row acc topRow (r = 0) opts
          (calculateTimeColumnWidth textSize (if timeFormat = [] then DEFAULT_TIME_FORMAT else timeFormat)) vertical dp"])
      (simp add: body)
qed

lemma body_grows: "width_of cw m \<le> width_of (body_widths textSize topRow opts w vertical dp cw rows) m"
proof (induction rows arbitrary: cw)
  case (Cons row rows)
  have "width_of cw m \<le> width_of (updateMaxWidths textSize row cw topRow False opts w vertical dp) m"
    unfolding updateMaxWidths_row by (rule row_widths_grow)
  also have "\<dots> \<le> width_of (body_widths textSize topRow opts w vertical dp (updateMaxWidths textSize row cw topRow False opts w vertical dp) rows) m"
    by (rule Cons)
  finally show ?case by (simp add: body_widths_def)
qed (simp add: body_widths_def)

lemma body_covers:
  assumes "row \<in> set rows" and "c < length row"
  shows "cell_width textSize topRow False opts w vertical dp c (row ! c) \<le>
    width_of (body_widths textSize topRow opts w vertical dp cw rows) (cell_text (at topRow c))"
  using assms(1)
proof (induction rows arbitrary: cw)
  case (Cons r rows)
  have step: "body_widths textSize topRow opts w vertical dp cw (r # rows) =
      body_widths textSize topRow opts w vertical dp (updateMaxWidths textSize r cw topRow False opts w vertical dp) rows"
    by (simp add: body_widths_def)
  show ?case
  proof (cases "row = r")
    case True
    have "(c, row ! c) \<in> set (enumerate 0 row)" using assms(2) by (simp add: in_set_enumerate_eq)
    from row_widths_cover[OF this] True
    have "cell_width textSize topRow False opts w vertical dp c (row ! c) \<le>
        width_of (updateMaxWidths textSize r cw topRow False opts w vertical dp) (cell_text (at topRow c))"
      unfolding updateMaxWidths_row by blast
    then show ?thesis unfolding step using body_grows order_trans by blast
  next
    case False
    then show ?thesis unfolding step using Cons by simp
  qed
qed simp

lemma body_ok: "widths_ok cw \<Longrightarrow> widths_ok (body_widths textSize topRow opts w vertical dp cw rows)"
  unfolding body_widths_def by (induction rows arbitrary: cw) (auto simp: updateMaxWidths_row row_widths_ok)

text \<open>
  The widths of a table. Whatever texts measure, the total width is the sum of the widths of the columns, and no
  column is narrower than a cell below its label.
\<close>

theorem column_widths_fit:
  "let cw = calculateColumnWidths textSize (topRow # rows) opts timeFormat vertical dp;
       w = calculateTimeColumnWidth textSize (if timeFormat = [] then DEFAULT_TIME_FORMAT else timeFormat)
   in cw_totalWidths cw = sum_list (map snd (cw_widths cw)) \<and>
      (\<forall>row\<in>set rows. \<forall>c<length row.
         cell_width textSize topRow False opts w vertical dp c (row ! c) \<le> width_of cw (cell_text (at topRow c)))"
proof -
  have "widths_ok \<lparr>cw_widths = [], cw_totalWidths = 0\<rparr>" by (simp add: widths_ok_def)
  then have "widths_ok (calculateColumnWidths textSize (topRow # rows) opts timeFormat vertical dp)"
    unfolding widths_fold Let_def by (intro body_ok) (simp add: updateMaxWidths_row row_widths_ok)
  then show ?thesis
    unfolding widths_ok_def Let_def widths_fold[unfolded Let_def] using body_covers by blast
qed

lemma column_widths_fit_witness:
  "let cw = calculateColumnWidths (\<lambda>_ s. 8 * int (length s)) [[text_cell ''time'', text_cell ''a''], [Some (VNum 5), Some (VNum 1234567)]]
         [] ''HH:mm'' True DEFAULT_DECIMAL_PLACES
   in cw_totalWidths cw = sum_list (map snd (cw_widths cw)) \<and> 110 \<le> width_of cw ''a''"
proof -
  let ?s = "\<lambda>_ s. 8 * int (length s)"
  have c: "cell_width ?s [text_cell ''time'', text_cell ''a''] False [] w True DEFAULT_DECIMAL_PLACES 1 (Some (VNum 1234567)) = 110" for w
    by (simp add: cell_width_def at_def text_cell_def DEFAULT_TIME_FIELD_def DEFAULT_DECIMAL_PLACES_def to_fixed_def
        CELL_HORIZONTAL_PADDING_def int_str_def nat_str.simps)
  have l: "cell_text (at [text_cell ''time'', text_cell ''a''] 1) = ''a''" by (simp add: at_def text_cell_def cell_text_def)
  show ?thesis
    using column_widths_fit[of ?s "[text_cell ''time'', text_cell ''a'']" "[[Some (VNum 5), Some (VNum 1234567)]]" "[]" "''HH:mm''" True
        DEFAULT_DECIMAL_PLACES] c l unfolding Let_def by force
qed

section \<open>The table of the log viewer\<close>

lemma log_table_columns:
  assumes "options_cover columns labels" and "distinct labels" and "\<forall>row\<in>set rs. length row = length labels"
    and "shown_names columns labels \<noteq> []"
  shows "\<exists>ns. pick ns (map text_cell labels) = map text_cell (shown_names columns labels) \<and>
    applyChangesToTableData \<lparr>lt_columns = map text_cell labels, lt_values = rs\<rparr> columns =
      Inr \<lparr>lt_columns = map text_cell (shown_names columns labels), lt_values = map (pick ns) rs\<rparr>"
proof -
  obtain ns where ns: "pick ns (map text_cell labels) = map text_cell (shown_names columns labels)"
    and cols: "bind_r (filterTableColumns (map text_cell labels # rs) columns) (\<lambda>d. orderTableColumns d columns) =
      Inr (map (pick ns) (map text_cell labels # rs))"
    using columns_result[OF assms(1-3)] assms(4) by auto
  then show ?thesis by (auto simp: applyChangesToTableData_def bind_r_Inr_iff)
qed

end
