(* ===== verification/Cell_Editor.thy ===== *)
theory Cell_Editor
  imports Dashboard_Types Store_Prelude
begin

text \<open>
  The editor of a cell: its store (\<open>ui/src/dashboards/reducers/cellEditorOverlay.ts\<close>, with the actions of
  \<open>ui/src/dashboards/actions/cellEditorOverlay.ts\<close>), the colors it accepts (\<open>ui/src/shared/constants/thresholds.ts\<close>,
  \<open>graphColorPalettes.ts\<close>), the colors it saves (\<open>ui/src/dashboards/constants/cellEditor.ts\<close>) and the color a
  value is shown in (\<open>ui/src/shared/constants/colorOperations.ts\<close>). Values of colors are integers; \<open>num\<close> is the
  number \<open>Number\<close> makes of a text. A saved cell has its values as texts.
\<close>

section \<open>Colors\<close>

definition COLOR_TYPE_MIN :: string where "COLOR_TYPE_MIN = ''min''"
definition COLOR_TYPE_MAX :: string where "COLOR_TYPE_MAX = ''max''"
definition COLOR_TYPE_THRESHOLD :: string where "COLOR_TYPE_THRESHOLD = ''threshold''"
definition THRESHOLD_TYPE_TEXT :: string where "THRESHOLD_TYPE_TEXT = ''text''"
definition THRESHOLD_TYPE_BG :: string where "THRESHOLD_TYPE_BG = ''background''"
definition THRESHOLD_TYPE_BASE :: string where "THRESHOLD_TYPE_BASE = ''base''"
definition COLOR_TYPE_SCALE :: string where "COLOR_TYPE_SCALE = ''scale''"
definition MIN_THRESHOLDS :: nat where "MIN_THRESHOLDS = 2"

lemmas color_types = COLOR_TYPE_MIN_def COLOR_TYPE_MAX_def COLOR_TYPE_THRESHOLD_def THRESHOLD_TYPE_TEXT_def
  THRESHOLD_TYPE_BG_def THRESHOLD_TYPE_BASE_def COLOR_TYPE_SCALE_def

definition THRESHOLD_COLORS :: "(string \<times> string) list" where
  \<comment> \<open>hex and name\<close>
  "THRESHOLD_COLORS = [(''#BF3D5E'', ''ruby''), (''#DC4E58'', ''fire''), (''#F95F53'', ''curacao''), (''#F48D38'', ''tiger''),
     (''#FFB94A'', ''pineapple''), (''#FFD255'', ''thunder''), (''#7CE490'', ''honeydew''), (''#4ED8A0'', ''rainforest''),
     (''#32B08C'', ''viridian''), (''#4591ED'', ''ocean''), (''#22ADF6'', ''pool''), (''#00C9FF'', ''laser''),
     (''#513CC6'', ''planet''), (''#7A65F2'', ''star''), (''#9394FF'', ''comet''), (''#383846'', ''pepper''),
     (''#545667'', ''graphite''), (''#ffffff'', ''white''), (''#292933'', ''castle'')]"

definition DEFAULT_GAUGE_COLORS :: "int color list" where
  "DEFAULT_GAUGE_COLORS =
     [\<lparr>co_type = COLOR_TYPE_MIN, co_hex = fst (THRESHOLD_COLORS ! 11), co_id = ''0'', co_name = snd (THRESHOLD_COLORS ! 11), co_value = 0\<rparr>,
      \<lparr>co_type = COLOR_TYPE_MAX, co_hex = fst (THRESHOLD_COLORS ! 14), co_id = ''1'', co_name = snd (THRESHOLD_COLORS ! 14), co_value = 100\<rparr>]"

definition DEFAULT_THRESHOLDS_LIST_COLORS :: "int color list" where
  \<comment> \<open>the number written -999999999999999999 is the double -10^18\<close>
  "DEFAULT_THRESHOLDS_LIST_COLORS =
     [\<lparr>co_type = THRESHOLD_TYPE_TEXT, co_hex = fst (THRESHOLD_COLORS ! 11), co_id = THRESHOLD_TYPE_BASE,
       co_name = snd (THRESHOLD_COLORS ! 11), co_value = - (10 ^ 18)\<rparr>]"

definition line_color :: "string \<Rightarrow> string \<Rightarrow> string color" where
  "line_color h i = \<lparr>co_type = COLOR_TYPE_SCALE, co_hex = h, co_id = i, co_name = ''Nineteen Eighty Four'', co_value = ''0''\<rparr>"

definition DEFAULT_LINE_COLORS :: "string \<times> string \<times> string \<Rightarrow> string color list" where
  \<comment> \<open>with the ids that \<open>uuid.v4()\<close> made when the module was loaded\<close>
  "DEFAULT_LINE_COLORS uids = (case uids of (i, j, k) \<Rightarrow>
     [line_color ''#31C0F6'' i, line_color ''#A500A5'' j, line_color ''#FF7E27'' k])"

definition numbered :: "(string \<Rightarrow> int) \<Rightarrow> string \<Rightarrow> string color \<Rightarrow> int color" where
  \<comment> \<open>\<open>{...color, value: Number(color.value), type}\<close>\<close>
  "numbered num ty c = \<lparr>co_type = ty, co_hex = co_hex c, co_id = co_id c, co_name = co_name c, co_value = num (co_value c)\<rparr>"

definition count_types :: "string list \<Rightarrow> string color list \<Rightarrow> nat option" where
  \<comment> \<open>the \<open>reduce\<close>: a color of another type makes the count undefined, and NaN from then on\<close>
  "count_types types colors =
     foldl (\<lambda>acc c. if co_type c \<in> set types then map_option Suc acc else None) (Some 0) colors"

definition validateThresholdsListColors :: "(string \<Rightarrow> int) \<Rightarrow> string color list \<Rightarrow> string \<Rightarrow> int color list" where
  "validateThresholdsListColors num colors ty =
     (if colors = [] then DEFAULT_THRESHOLDS_LIST_COLORS
      else if count_types [THRESHOLD_TYPE_BASE, THRESHOLD_TYPE_TEXT, THRESHOLD_TYPE_BG] colors \<noteq> Some (length colors)
      then DEFAULT_THRESHOLDS_LIST_COLORS
      else let containsBaseColor = list_ex (\<lambda>c. co_id c = THRESHOLD_TYPE_BASE) colors;
               formattedColors = map (numbered num ty) colors
           in if containsBaseColor then formattedColors else formattedColors @ [hd DEFAULT_THRESHOLDS_LIST_COLORS])"

definition getThresholdsListType :: "string color list \<Rightarrow> string" where
  "getThresholdsListType colors =
     (case colors of
        [] \<Rightarrow> THRESHOLD_TYPE_TEXT
      | c # _ \<Rightarrow> if co_type c \<in> {THRESHOLD_TYPE_TEXT, THRESHOLD_TYPE_BG} then co_type c else THRESHOLD_TYPE_TEXT)"

definition validateGaugeColors :: "(string \<Rightarrow> int) \<Rightarrow> string color list \<Rightarrow> int color list" where
  "validateGaugeColors num colors =
     (if length colors < MIN_THRESHOLDS then DEFAULT_GAUGE_COLORS
      else if count_types [COLOR_TYPE_MIN, COLOR_TYPE_MAX, COLOR_TYPE_THRESHOLD] colors \<noteq> Some (length colors)
      then DEFAULT_GAUGE_COLORS
      else let formattedColors = map (numbered num COLOR_TYPE_THRESHOLD) (sort_key (\<lambda>c. num (co_value c)) colors);
               formattedColors = formattedColors[0 := (formattedColors ! 0)\<lparr>co_type := COLOR_TYPE_MIN\<rparr>];
               lst = length formattedColors - 1
           in formattedColors[lst := (formattedColors ! lst)\<lparr>co_type := COLOR_TYPE_MAX\<rparr>])"

definition validateLineColors :: "string color list \<Rightarrow> string color list \<Rightarrow> nat \<Rightarrow> string color list" where
  "validateLineColors defaults colors numSeries =
     (let multipleSeriesButOneColor = (numSeries > 1 \<and> length colors < 2)
      in if colors = [] \<or> multipleSeriesButOneColor then defaults
         else if length (filter (\<lambda>c. co_type c = COLOR_TYPE_SCALE) colors) = length colors then colors else defaults)"

definition stringifyColorValues :: "int color list \<Rightarrow> string color list" where
  "stringifyColorValues colors =
     map (\<lambda>c. \<lparr>co_type = co_type c, co_hex = co_hex c, co_id = co_id c, co_name = co_name c, co_value = int_str (co_value c)\<rparr>) colors"

section \<open>The store of the editor\<close>

record editor =
  ed_cell :: "dash_cell option"
  ed_thresholdsListType :: string
  ed_thresholdsListColors :: "int color list"
  ed_gaugeColors :: "int color list"
  ed_lineColors :: "string color list"

definition initial_editor :: "string color list \<Rightarrow> editor" where
  "initial_editor defaults = \<lparr>ed_cell = None, ed_thresholdsListType = THRESHOLD_TYPE_TEXT,
     ed_thresholdsListColors = DEFAULT_THRESHOLDS_LIST_COLORS, ed_gaugeColors = DEFAULT_GAUGE_COLORS, ed_lineColors = defaults\<rparr>"

datatype editor_action =
    ShowCellEditorOverlay dash_cell
  | HideCellEditorOverlay
  | ChangeCellType cell_type
  | RenameCell string
  | UpdateThresholdsListColors "int color list"
  | UpdateThresholdsListType string
  | UpdateGaugeColors "int color list"
  | UpdateAxes axes
  | UpdateTableOptions table_options
  | UpdateLineColors "string color list"
  | ChangeTimeFormat string
  | ChangeDecimalPlaces decimal_places
  | UpdateFieldOptions "field_option list"

definition initializeOptions :: "cell_type \<Rightarrow> table_options" where
  "initializeOptions cellType = DEFAULT_TABLE_OPTIONS"

definition edit_cell :: "(dash_cell \<Rightarrow> dash_cell) \<Rightarrow> editor \<Rightarrow> editor" where
  \<comment> \<open>\<open>{...state.cell, ...}\<close>; the editor is on the page only while it has a cell, so the object that the spread of null
    would make is left out\<close>
  "edit_cell f st = st\<lparr>ed_cell := map_option f (ed_cell st)\<rparr>"

definition editorReducer :: "(string \<Rightarrow> int) \<Rightarrow> string color list \<Rightarrow> editor \<Rightarrow> editor_action \<Rightarrow> editor" where
  "editorReducer num defaults st action =
     (case action of
        ShowCellEditorOverlay c \<Rightarrow>
          let colors = dc_colors c;
              thresholdsListType = getThresholdsListType colors;
              thresholdsListColors = validateThresholdsListColors num colors thresholdsListType;
              gaugeColors = validateGaugeColors num colors;
              tableOptions = (case dc_tableOptions c of None \<Rightarrow> initializeOptions CTable | Some x \<Rightarrow> x);
              lineColors = validateLineColors defaults colors 0
          in st\<lparr>ed_cell := Some (c\<lparr>dc_tableOptions := Some tableOptions\<rparr>), ed_thresholdsListType := thresholdsListType,
                ed_thresholdsListColors := thresholdsListColors, ed_gaugeColors := gaugeColors, ed_lineColors := lineColors\<rparr>
      | HideCellEditorOverlay \<Rightarrow> st\<lparr>ed_cell := None\<rparr>
      | ChangeCellType cellType \<Rightarrow> edit_cell (\<lambda>c. c\<lparr>dc_type := cellType\<rparr>) st
      | RenameCell cellName \<Rightarrow> edit_cell (\<lambda>c. c\<lparr>dc_name := cellName\<rparr>) st
      | UpdateThresholdsListColors thresholdsListColors \<Rightarrow> st\<lparr>ed_thresholdsListColors := thresholdsListColors\<rparr>
      | UpdateThresholdsListType thresholdsListType \<Rightarrow>
          st\<lparr>ed_thresholdsListType := thresholdsListType,
             ed_thresholdsListColors := map (\<lambda>c. c\<lparr>co_type := thresholdsListType\<rparr>) (ed_thresholdsListColors st)\<rparr>
      | UpdateGaugeColors gaugeColors \<Rightarrow> st\<lparr>ed_gaugeColors := gaugeColors\<rparr>
      | UpdateAxes axs \<Rightarrow> edit_cell (\<lambda>c. c\<lparr>dc_axes := Some axs\<rparr>) st
      | UpdateTableOptions tableOptions \<Rightarrow> edit_cell (\<lambda>c. c\<lparr>dc_tableOptions := Some tableOptions\<rparr>) st
      | ChangeTimeFormat timeFormat \<Rightarrow> edit_cell (\<lambda>c. c\<lparr>dc_timeFormat := timeFormat\<rparr>) st
      | ChangeDecimalPlaces decimalPlaces \<Rightarrow> edit_cell (\<lambda>c. c\<lparr>dc_decimalPlaces := decimalPlaces\<rparr>) st
      | UpdateFieldOptions fieldOptions \<Rightarrow> edit_cell (\<lambda>c. c\<lparr>dc_fieldOptions := fieldOptions\<rparr>) st
      | UpdateLineColors lineColors \<Rightarrow> st\<lparr>ed_lineColors := lineColors\<rparr>)"

definition getCellTypeColors :: "cell_type \<Rightarrow> editor \<Rightarrow> string color list" where
  "getCellTypeColors cellType st =
     (case cellType of
        CGauge \<Rightarrow> stringifyColorValues (ed_gaugeColors st)
      | CSingleStat \<Rightarrow> stringifyColorValues (ed_thresholdsListColors st)
      | CTable \<Rightarrow> stringifyColorValues (ed_thresholdsListColors st)
      | CBar \<Rightarrow> ed_lineColors st \<comment> \<open>whose values are texts\<close>
      | CLine \<Rightarrow> ed_lineColors st
      | CLinePlusSingleStat \<Rightarrow> ed_lineColors st
      | CStacked \<Rightarrow> ed_lineColors st
      | CStepPlot \<Rightarrow> ed_lineColors st
      | _ \<Rightarrow> [])"

section \<open>The color of a value\<close>

datatype last_value = LNum int | LText string | LNull | LUndefined

definition falsy_value :: "last_value \<Rightarrow> bool" where
  "falsy_value v = (case v of LNum n \<Rightarrow> n = 0 | LText s \<Rightarrow> s = [] | _ \<Rightarrow> True)"

definition last_number :: "(string \<Rightarrow> int) \<Rightarrow> last_value \<Rightarrow> int" where
  \<comment> \<open>\<open>Number(lastValue) || 0\<close>\<close>
  "last_number num v = (case v of LNum n \<Rightarrow> n | LText s \<Rightarrow> num s | _ \<Rightarrow> 0)"

definition getLegibleTextColor :: "(string \<Rightarrow> int \<times> int \<times> int) \<Rightarrow> string \<Rightarrow> string" where
  \<comment> \<open>\<open>rgb\<close> is the library's reading of a hex color; the average is compared with 128\<close>
  "getLegibleTextColor rgb bgColorHex =
     (case rgb bgColorHex of (red, green, blue) \<Rightarrow> if red + green + blue > 3 * 128 then ''#292933'' else ''#ffffff'')"

definition findNearestCrossedThreshold :: "(string \<Rightarrow> int) \<Rightarrow> string color list \<Rightarrow> int \<Rightarrow> string color option" where
  "findNearestCrossedThreshold num colors lastValue =
     (let crossed = filter (\<lambda>c. lastValue \<ge> num (co_value c)) (sort_key (\<lambda>c. num (co_value c)) colors)
      in if crossed = [] then None else Some (last crossed))"

record coloring =
  cg_bgColor :: "string option"
  cg_textColor :: string

definition mark_base :: "string color list \<Rightarrow> string color list" where
  \<comment> \<open>\<open>find\<close> with the assignment \<open>color.id = THRESHOLD_TYPE_BASE\<close>, whose value is truthy: it stops at the first\<close>
  "mark_base colors = (case colors of [] \<Rightarrow> [] | c # cs \<Rightarrow> c\<lparr>co_id := THRESHOLD_TYPE_BASE\<rparr> # cs)"

definition generateThresholdsListHexs ::
    "(string \<Rightarrow> int) \<Rightarrow> (string \<Rightarrow> int \<times> int \<times> int) \<Rightarrow> string color list \<Rightarrow> last_value \<Rightarrow> cell_type \<Rightarrow>
     coloring result \<times> string color list" where
  \<comment> \<open>the coloring, and the colors it was given as it leaves them\<close>
  "generateThresholdsListHexs num rgb colors lastValue cellType =
     (let defaultText = (if cellType = CTable then ''#BEC2CC'' else fst (THRESHOLD_COLORS ! 11));
          lastValueNumber = last_number num lastValue
      in case mark_base colors of
           [] \<Rightarrow> (Inr \<lparr>cg_bgColor = None, cg_textColor = defaultText\<rparr>, colors)
         | baseColor # rest \<Rightarrow>
             let colors = baseColor # rest;
                 plain = \<lparr>cg_bgColor = None, cg_textColor = co_hex baseColor\<rparr>;
                 shouldColorizeText = list_ex (\<lambda>c. co_type c = THRESHOLD_TYPE_TEXT) colors;
                 nearest = findNearestCrossedThreshold num colors lastValueNumber
             in (if falsy_value lastValue then Inr plain
                 else if cellType = CLinePlusSingleStat then Inr plain
                 else if shouldColorizeText \<and> length colors = 1 then Inr plain
                 else if shouldColorizeText \<and> length colors > 1
                 then map_res (\<lambda>c. \<lparr>cg_bgColor = None, cg_textColor = co_hex c\<rparr>) (deref nearest)
                 else if length colors = 1
                 then Inr \<lparr>cg_bgColor = Some (co_hex baseColor), cg_textColor = getLegibleTextColor rgb (co_hex baseColor)\<rparr>
                 else let bgColor = (case nearest of None \<Rightarrow> co_hex baseColor | Some c \<Rightarrow> co_hex c)
                      in Inr \<lparr>cg_bgColor = Some bgColor, cg_textColor = getLegibleTextColor rgb bgColor\<rparr>,
                 colors))"

section \<open>Saving and opening again\<close>

definition finish_gauge :: "int color list \<Rightarrow> int color list" where
  "finish_gauge F =
     (let G = F[0 := (F ! 0)\<lparr>co_type := COLOR_TYPE_MIN\<rparr>]
      in G[length F - 1 := (G ! (length F - 1))\<lparr>co_type := COLOR_TYPE_MAX\<rparr>])"

definition gauge_ok :: "int color list \<Rightarrow> bool" where
  "gauge_ok F \<longleftrightarrow> 2 \<le> length F \<and> sorted (map co_value F) \<and> list_all (\<lambda>c. co_type c = COLOR_TYPE_THRESHOLD) F"

lemma count_types_all: "count_types types cs = Some (length cs) \<longleftrightarrow> list_all (\<lambda>c. co_type c \<in> set types) cs"
proof -
  have none: "foldl (\<lambda>acc c. if co_type c \<in> set types then map_option Suc acc else None) None cs = None" for cs
    by (induction cs) auto
  have some: "foldl (\<lambda>acc c. if co_type c \<in> set types then map_option Suc acc else None) (Some n) cs =
      (if list_all (\<lambda>c. co_type c \<in> set types) cs then Some (n + length cs) else None)" for n cs
    by (induction cs arbitrary: n) (auto simp: none)
  show ?thesis unfolding count_types_def some by simp
qed

lemma numbered_simps [simp]:
  "co_type (numbered num ty c) = ty" "co_value (numbered num ty c) = num (co_value c)"
  "co_hex (numbered num ty c) = co_hex c" "co_id (numbered num ty c) = co_id c"
  by (simp_all add: numbered_def)

lemma numbered_stringify:
  assumes "\<forall>v. num (int_str v) = v"
  shows "map (numbered num ty) (stringifyColorValues cs) = map (\<lambda>c. c\<lparr>co_type := ty\<rparr>) cs"
  using assms by (simp add: stringifyColorValues_def numbered_def)

lemma sort_key_sorted: "sorted (map f xs) \<Longrightarrow> sort_key f xs = xs"
  by (induction xs) (auto simp: insort_is_Cons)

lemma gauge_shape: "\<exists>F. gauge_ok F \<and> validateGaugeColors num colors = finish_gauge F"
proof (cases "length colors < MIN_THRESHOLDS \<or> count_types [COLOR_TYPE_MIN, COLOR_TYPE_MAX, COLOR_TYPE_THRESHOLD] colors \<noteq> Some (length colors)")
  case True
  then have "validateGaugeColors num colors = finish_gauge (map (\<lambda>c. c\<lparr>co_type := COLOR_TYPE_THRESHOLD\<rparr>) DEFAULT_GAUGE_COLORS)"
    by (auto simp: validateGaugeColors_def finish_gauge_def DEFAULT_GAUGE_COLORS_def)
  moreover have "gauge_ok (map (\<lambda>c. c\<lparr>co_type := COLOR_TYPE_THRESHOLD\<rparr>) DEFAULT_GAUGE_COLORS)"
    by (simp add: gauge_ok_def DEFAULT_GAUGE_COLORS_def)
  ultimately show ?thesis by blast
next
  case False
  let ?F = "map (numbered num COLOR_TYPE_THRESHOLD) (sort_key (\<lambda>c. num (co_value c)) colors)"
  have "validateGaugeColors num colors = finish_gauge ?F"
    using False by (simp add: validateGaugeColors_def finish_gauge_def Let_def)
  moreover have "gauge_ok ?F"
    using False by (simp add: gauge_ok_def MIN_THRESHOLDS_def o_def list_all_iff)
  ultimately show ?thesis by blast
qed

lemma finish_types:
  assumes "gauge_ok F"
  shows "map (\<lambda>c. c\<lparr>co_type := COLOR_TYPE_THRESHOLD\<rparr>) (finish_gauge F) = F"
proof -
  have "map (\<lambda>c. c\<lparr>co_type := COLOR_TYPE_THRESHOLD\<rparr>) F = F"
    using assms by (auto simp: gauge_ok_def list_all_iff intro!: map_idI)
  moreover have "(F ! i)\<lparr>co_type := COLOR_TYPE_THRESHOLD\<rparr> = F ! i" if "i < length F" for i
    using that assms by (auto simp: gauge_ok_def list_all_length)
  moreover have "0 < length F" "length F - Suc 0 < length F" "length F - Suc 0 \<noteq> 0"
    using assms by (auto simp: gauge_ok_def)
  ultimately show ?thesis
    by (simp add: finish_gauge_def map_update Let_def)
qed

lemma finish_facts:
  assumes "gauge_ok F"
  shows "length (finish_gauge F) = length F" and "map co_value (finish_gauge F) = map co_value F"
    and "co_type (hd (finish_gauge F)) = COLOR_TYPE_MIN" and "co_type (last (finish_gauge F)) = COLOR_TYPE_MAX"
    and "list_all (\<lambda>c. co_type c \<in> {COLOR_TYPE_MIN, COLOR_TYPE_MAX, COLOR_TYPE_THRESHOLD}) (finish_gauge F)"
proof -
  have two: "2 \<le> length F" using assms by (simp add: gauge_ok_def)
  then have ne: "F \<noteq> []" by auto
  show l: "length (finish_gauge F) = length F" by (simp add: finish_gauge_def Let_def)
  have "map co_value (map (\<lambda>c. c\<lparr>co_type := COLOR_TYPE_THRESHOLD\<rparr>) (finish_gauge F)) = map co_value F"
    by (simp only: finish_types[OF assms])
  then show "map co_value (finish_gauge F) = map co_value F" by (simp add: o_def)
  show "co_type (hd (finish_gauge F)) = COLOR_TYPE_MIN"
    using two ne l by (subst hd_conv_nth) (auto simp: finish_gauge_def Let_def nth_list_update)
  show "co_type (last (finish_gauge F)) = COLOR_TYPE_MAX"
    using two ne l by (subst last_conv_nth) (auto simp: finish_gauge_def Let_def)
  show "list_all (\<lambda>c. co_type c \<in> {COLOR_TYPE_MIN, COLOR_TYPE_MAX, COLOR_TYPE_THRESHOLD}) (finish_gauge F)"
    using assms two ne by (auto simp: list_all_length finish_gauge_def Let_def nth_list_update gauge_ok_def)
qed

lemma gauge_again:
  assumes "gauge_ok F" and num: "\<forall>v. num (int_str v) = v"
  shows "validateGaugeColors num (stringifyColorValues (finish_gauge F)) = finish_gauge F"
proof -
  let ?S = "stringifyColorValues (finish_gauge F)"
  have len: "length ?S = length F" using finish_facts(1)[OF assms(1)] by (simp add: stringifyColorValues_def)
  have types: "count_types [COLOR_TYPE_MIN, COLOR_TYPE_MAX, COLOR_TYPE_THRESHOLD] ?S = Some (length ?S)"
    using finish_facts(5)[OF assms(1)] unfolding count_types_all by (simp add: stringifyColorValues_def list_all_iff)
  have "map (\<lambda>c. num (co_value c)) ?S = map co_value (finish_gauge F)"
    using num by (simp add: stringifyColorValues_def)
  then have "sort_key (\<lambda>c. num (co_value c)) ?S = ?S"
    using finish_facts(2)[OF assms(1)] assms(1) by (simp add: sort_key_sorted gauge_ok_def)
  then have "map (numbered num COLOR_TYPE_THRESHOLD) (sort_key (\<lambda>c. num (co_value c)) ?S) = F"
    using finish_types[OF assms(1)] by (simp add: numbered_stringify[OF num])
  then show ?thesis
    using len types assms(1) by (simp add: validateGaugeColors_def MIN_THRESHOLDS_def gauge_ok_def finish_gauge_def Let_def)
qed

definition uniform :: "string color list \<Rightarrow> bool" where
  \<comment> \<open>colors of a text, or well typed ones with a base color\<close>
  "uniform colors \<longleftrightarrow> getThresholdsListType colors = THRESHOLD_TYPE_TEXT \<or>
     (list_ex (\<lambda>c. co_id c = THRESHOLD_TYPE_BASE) colors \<and>
      list_all (\<lambda>c. co_type c \<in> {THRESHOLD_TYPE_BASE, THRESHOLD_TYPE_TEXT, THRESHOLD_TYPE_BG}) colors)"

lemma list_type_cases: "getThresholdsListType colors = THRESHOLD_TYPE_TEXT \<or> getThresholdsListType colors = THRESHOLD_TYPE_BG"
  by (auto simp: getThresholdsListType_def split: list.split)

lemma thresholds_shape:
  assumes "uniform colors"
  shows "let ty = getThresholdsListType colors; T = validateThresholdsListColors num colors ty
    in T \<noteq> [] \<and> list_all (\<lambda>c. co_type c = ty) T \<and> list_ex (\<lambda>c. co_id c = THRESHOLD_TYPE_BASE) T"
proof -
  have d: "co_type (hd DEFAULT_THRESHOLDS_LIST_COLORS) = THRESHOLD_TYPE_TEXT" "co_id (hd DEFAULT_THRESHOLDS_LIST_COLORS) = THRESHOLD_TYPE_BASE"
      "DEFAULT_THRESHOLDS_LIST_COLORS = [hd DEFAULT_THRESHOLDS_LIST_COLORS]"
    by (simp_all add: DEFAULT_THRESHOLDS_LIST_COLORS_def)
  let ?ty = "getThresholdsListType colors"
  let ?ok = "list_all (\<lambda>c. co_type c \<in> set [THRESHOLD_TYPE_BASE, THRESHOLD_TYPE_TEXT, THRESHOLD_TYPE_BG]) colors"
  show ?thesis
  proof (cases "colors = [] \<or> \<not> ?ok")
    case True
    then have "?ty = THRESHOLD_TYPE_TEXT"
      using assms by (auto simp: uniform_def)
    moreover have "validateThresholdsListColors num colors ?ty = [hd DEFAULT_THRESHOLDS_LIST_COLORS]"
      using True d(3) unfolding validateThresholdsListColors_def count_types_all by auto
    ultimately show ?thesis using d(1,2) by simp
  next
    case False
    then show ?thesis
      using assms d(1,2) unfolding validateThresholdsListColors_def count_types_all uniform_def
      by (auto simp: Let_def list_all_iff list_ex_iff)
  qed
qed

lemma thresholds_again:
  assumes num: "\<forall>v. num (int_str v) = v" and ty: "ty = THRESHOLD_TYPE_TEXT \<or> ty = THRESHOLD_TYPE_BG"
    and T: "T \<noteq> []" "list_all (\<lambda>c. co_type c = ty) T" "list_ex (\<lambda>c. co_id c = THRESHOLD_TYPE_BASE) T"
  shows "getThresholdsListType (stringifyColorValues T) = ty"
    and "validateThresholdsListColors num (stringifyColorValues T) ty = T"
proof -
  have s: "stringifyColorValues T \<noteq> []" "list_all (\<lambda>c. co_type c = ty) (stringifyColorValues T)"
    "list_ex (\<lambda>c. co_id c = THRESHOLD_TYPE_BASE) (stringifyColorValues T)"
    using T by (auto simp: stringifyColorValues_def list_all_iff list_ex_iff)
  then show "getThresholdsListType (stringifyColorValues T) = ty"
    using ty by (auto simp: getThresholdsListType_def split: list.split)
  have "count_types [THRESHOLD_TYPE_BASE, THRESHOLD_TYPE_TEXT, THRESHOLD_TYPE_BG] (stringifyColorValues T) = Some (length (stringifyColorValues T))"
    unfolding count_types_all using s(2) ty by (auto simp: list_all_iff)
  moreover have "map (\<lambda>c. c\<lparr>co_type := ty\<rparr>) T = T" using T(2) by (auto simp: list_all_iff intro!: map_idI)
  ultimately show "validateThresholdsListColors num (stringifyColorValues T) ty = T"
    using s(1,3) numbered_stringify[OF num, of ty T] by (simp add: validateThresholdsListColors_def Let_def)
qed

lemma lines_again:
  "validateLineColors (DEFAULT_LINE_COLORS uids) (validateLineColors (DEFAULT_LINE_COLORS uids) colors 0) 0 =
     validateLineColors (DEFAULT_LINE_COLORS uids) colors 0"
  by (auto simp: validateLineColors_def DEFAULT_LINE_COLORS_def line_color_def split: prod.split)

lemma opened:
  "ed_gaugeColors (editorReducer num defaults st (ShowCellEditorOverlay c)) = validateGaugeColors num (dc_colors c)"
  "ed_thresholdsListType (editorReducer num defaults st (ShowCellEditorOverlay c)) = getThresholdsListType (dc_colors c)"
  "ed_thresholdsListColors (editorReducer num defaults st (ShowCellEditorOverlay c)) =
     validateThresholdsListColors num (dc_colors c) (getThresholdsListType (dc_colors c))"
  "ed_lineColors (editorReducer num defaults st (ShowCellEditorOverlay c)) = validateLineColors defaults (dc_colors c) 0"
  by (simp_all add: editorReducer_def Let_def)

text \<open>
  Opening a cell in the editor, saving it as it is and opening it again. Whatever colors the cell had, the colors
  saved for its type are a fixed point: the gauge colors are at least two, sorted, from one minimum to
  one maximum; thresholds, when they have one type, keep it and have a base color; lines keep their scale. So
  the editor shows the same colors the second time, and saves the same.
\<close>

theorem editor_colors_settle:
  assumes num: "\<forall>v. num (int_str v) = v" and "cellType \<in> {CSingleStat, CTable} \<Longrightarrow> uniform (dc_colors c)"
  shows "let open_cell = (\<lambda>c. editorReducer num (DEFAULT_LINE_COLORS uids) st (ShowCellEditorOverlay c));
             saved = c\<lparr>dc_colors := getCellTypeColors cellType (open_cell c)\<rparr>
    in getCellTypeColors cellType (open_cell saved) = getCellTypeColors cellType (open_cell c)"
proof -
  obtain F where F: "gauge_ok F" "validateGaugeColors num (dc_colors c) = finish_gauge F"
    using gauge_shape by blast
  have thresholds: "validateThresholdsListColors num (stringifyColorValues T) (getThresholdsListType (stringifyColorValues T)) = T"
    if "uniform (dc_colors c)" and T: "T = validateThresholdsListColors num (dc_colors c) (getThresholdsListType (dc_colors c))" for T
    using thresholds_shape[OF that(1), of num] thresholds_again[OF num list_type_cases, of T "dc_colors c"] T
    by (simp add: Let_def)
  show ?thesis
    using assms(2) thresholds gauge_again[OF F(1) num] lines_again[of uids "dc_colors c"]
    by (cases cellType) (simp_all add: getCellTypeColors_def opened F(2) Let_def)
qed

definition read_int :: "string \<Rightarrow> int" where
  \<comment> \<open>\<open>Number\<close> of a text that is an integer\<close>
  "read_int s = (if s \<noteq> [] \<and> hd s = CHR ''-'' then - int (str_nat (tl s)) else int (str_nat s))"

lemma read_int_str: "read_int (int_str v) = v"
proof -
  have "hd (nat_str n) \<noteq> CHR ''-''" for n
    using nat_str_digits[of n] nat_str_not_Nil[of n] by (cases "nat_str n") (auto simp: is_digit_def)
  then show ?thesis by (simp add: int_str_def read_int_def str_nat_nat_str)
qed

lemma editor_colors_settle_witness:
  "let open_cell = (\<lambda>c. editorReducer read_int (DEFAULT_LINE_COLORS (''a'', ''b'', ''c'')) (initial_editor []) (ShowCellEditorOverlay c));
       c = NEW_DEFAULT_DASHBOARD_CELL\<lparr>dc_colors := [line_color ''#000000'' ''x'', (line_color ''#ffffff'' ''y'')\<lparr>co_type := COLOR_TYPE_MIN\<rparr>]\<rparr>;
       saved = c\<lparr>dc_colors := getCellTypeColors CTable (open_cell c)\<rparr>
   in getCellTypeColors CTable (open_cell saved) = getCellTypeColors CTable (open_cell c)"
proof -
  let ?c = "NEW_DEFAULT_DASHBOARD_CELL\<lparr>dc_colors := [line_color ''#000000'' ''x'', (line_color ''#ffffff'' ''y'')\<lparr>co_type := COLOR_TYPE_MIN\<rparr>]\<rparr>"
  have "\<forall>v. read_int (int_str v) = v" by (simp add: read_int_str)
  moreover have "uniform (dc_colors ?c)"
    by (simp add: uniform_def getThresholdsListType_def line_color_def color_types)
  ultimately show ?thesis using editor_colors_settle[of read_int CTable ?c] unfolding Let_def by blast
qed

section \<open>Which color a value gets\<close>

lemma last_greatest: "sorted (map f xs) \<Longrightarrow> x \<in> set xs \<Longrightarrow> f x \<le> f (last xs)"
  by (induction xs rule: rev_induct) (auto simp: sorted_append)

lemma nearest_crossed:
  "case findNearestCrossedThreshold num colors n of
     None \<Rightarrow> \<forall>c\<in>set colors. n < num (co_value c)
   | Some c \<Rightarrow> c \<in> set colors \<and> num (co_value c) \<le> n \<and> (\<forall>d\<in>set colors. num (co_value d) \<le> n \<longrightarrow> num (co_value d) \<le> num (co_value c))"
proof -
  let ?v = "\<lambda>c. num (co_value c)"
  let ?xs = "filter (\<lambda>c. n \<ge> ?v c) (sort_key ?v colors)"
  have "sorted (map ?v ?xs)" by (rule sorted_filter) simp
  then have max: "?v d \<le> ?v (last ?xs)" if "d \<in> set ?xs" for d
    using last_greatest[of ?v ?xs d] that by simp
  have mem: "set ?xs = {c \<in> set colors. ?v c \<le> n}" by auto
  show ?thesis
  proof (cases "?xs = []")
    case True
    then have "{c \<in> set colors. ?v c \<le> n} = {}" using mem by simp
    then show ?thesis using True by (auto simp: findNearestCrossedThreshold_def Let_def not_le)
  next
    case False
    then have "last ?xs \<in> set ?xs" by (rule last_in_set)
    then show ?thesis using False max mem by (simp add: findNearestCrossedThreshold_def Let_def)
  qed
qed

text \<open>
  The color of a value. A value other than zero, in a cell with several colors for its text, is shown in the color of
  the highest threshold that it reaches, and one below all of them throws (a base color, which is lower than any value,
  prevents that); with colors for the background it is the background that has that color, or the first
  color below all.
\<close>

theorem value_color:
  assumes "1 < length colors" and "n \<noteq> 0" and "cellType \<noteq> CLinePlusSingleStat"
  shows "let reached = (\<lambda>c. c \<in> set (mark_base colors) \<and> num (co_value c) \<le> n \<and>
             (\<forall>d\<in>set (mark_base colors). num (co_value d) \<le> n \<longrightarrow> num (co_value d) \<le> num (co_value c)));
         none = (\<forall>c\<in>set colors. n < num (co_value c))
    in case fst (generateThresholdsListHexs num rgb colors (LNum n) cellType) of
         Inl e \<Rightarrow> list_ex (\<lambda>c. co_type c = THRESHOLD_TYPE_TEXT) colors \<and> none
       | Inr g \<Rightarrow>
           if list_ex (\<lambda>c. co_type c = THRESHOLD_TYPE_TEXT) colors
           then cg_bgColor g = None \<and> (\<exists>c. reached c \<and> cg_textColor g = co_hex c)
           else (\<exists>c. (reached c \<or> none \<and> c = hd colors) \<and> cg_bgColor g = Some (co_hex c) \<and>
                 cg_textColor g = getLegibleTextColor rgb (co_hex c))"
proof -
  obtain c cs where colors: "colors = c # cs" and cs: "cs \<noteq> []" using assms(1) by (cases colors) auto
  let ?m = "mark_base colors"
  have m: "?m = c\<lparr>co_id := THRESHOLD_TYPE_BASE\<rparr> # cs" by (simp add: mark_base_def colors)
  have none: "(\<forall>c\<in>set ?m. n < num (co_value c)) \<longleftrightarrow> (\<forall>c\<in>set colors. n < num (co_value c))" unfolding m by (simp add: colors)
  have types: "list_ex (\<lambda>c. co_type c = THRESHOLD_TYPE_TEXT) ?m = list_ex (\<lambda>c. co_type c = THRESHOLD_TYPE_TEXT) colors"
    unfolding m by (simp add: colors)
  note near = nearest_crossed[where num = num and colors = ?m and n = n]
  have result: "fst (generateThresholdsListHexs num rgb colors (LNum n) cellType) =
      (if list_ex (\<lambda>c. co_type c = THRESHOLD_TYPE_TEXT) colors
       then map_res (\<lambda>c. \<lparr>cg_bgColor = None, cg_textColor = co_hex c\<rparr>) (deref (findNearestCrossedThreshold num ?m n))
       else let bgColor = (case findNearestCrossedThreshold num ?m n of None \<Rightarrow> co_hex c | Some c \<Rightarrow> co_hex c)
            in Inr \<lparr>cg_bgColor = Some bgColor, cg_textColor = getLegibleTextColor rgb bgColor\<rparr>)"
    unfolding generateThresholdsListHexs_def m types[unfolded m, symmetric]
    using assms(2,3) cs by (simp add: falsy_value_def last_number_def Let_def split: option.split)
  show ?thesis
  proof (cases "findNearestCrossedThreshold num ?m n")
    case None
    then show ?thesis using near none unfolding result Let_def by (auto simp: colors)
  next
    case (Some d)
    then show ?thesis using near unfolding result Let_def by auto
  qed
qed

definition sample_colors :: "string color list" where
  "sample_colors =
     [\<lparr>co_type = THRESHOLD_TYPE_TEXT, co_hex = ''#00ff00'', co_id = ''t'', co_name = ''green'', co_value = ''-5''\<rparr>,
      \<lparr>co_type = THRESHOLD_TYPE_TEXT, co_hex = ''#ff0000'', co_id = ''u'', co_name = ''red'', co_value = ''10''\<rparr>,
      \<lparr>co_type = THRESHOLD_TYPE_TEXT, co_hex = ''#0000ff'', co_id = ''base'', co_name = ''blue'', co_value = ''-1000''\<rparr>]"

lemma value_color_witness:
  "let reached = (\<lambda>c. c \<in> set (mark_base sample_colors) \<and> read_int (co_value c) \<le> 7 \<and>
         (\<forall>d\<in>set (mark_base sample_colors). read_int (co_value d) \<le> 7 \<longrightarrow> read_int (co_value d) \<le> read_int (co_value c)));
       none = (\<forall>c\<in>set sample_colors. 7 < read_int (co_value c))
   in case fst (generateThresholdsListHexs read_int (\<lambda>_. (0, 0, 0)) sample_colors (LNum 7) CSingleStat) of
        Inl e \<Rightarrow> list_ex (\<lambda>c. co_type c = THRESHOLD_TYPE_TEXT) sample_colors \<and> none
      | Inr g \<Rightarrow>
          if list_ex (\<lambda>c. co_type c = THRESHOLD_TYPE_TEXT) sample_colors
          then cg_bgColor g = None \<and> (\<exists>c. reached c \<and> cg_textColor g = co_hex c)
          else (\<exists>c. (reached c \<or> none \<and> c = hd sample_colors) \<and> cg_bgColor g = Some (co_hex c) \<and>
                cg_textColor g = getLegibleTextColor (\<lambda>_. (0, 0, 0)) (co_hex c))"
  by (rule value_color) (simp_all add: sample_colors_def)

text \<open>
  The value zero is falsy, so it is shown in the color of the first threshold of the list, whatever
  thresholds it reaches.
\<close>

lemma zero_gets_first_color:
  assumes "colors \<noteq> []"
  shows "fst (generateThresholdsListHexs num rgb colors (LNum 0) cellType) =
    Inr \<lparr>cg_bgColor = None, cg_textColor = co_hex (hd colors)\<rparr>"
  using assms by (cases colors) (simp_all add: generateThresholdsListHexs_def mark_base_def falsy_value_def Let_def)

text \<open>
  The search for the base color assigns where it means to compare: the first color of the list is taken for the
  base, and its id is overwritten in the caller's list.
\<close>

lemma first_color_becomes_base:
  "snd (generateThresholdsListHexs num rgb (c # cs) lastValue cellType) = c\<lparr>co_id := THRESHOLD_TYPE_BASE\<rparr> # cs"
  by (simp add: generateThresholdsListHexs_def mark_base_def Let_def)

lemma base_color_is_not_searched:
  "fst (generateThresholdsListHexs num rgb sample_colors LNull CSingleStat) =
     Inr \<lparr>cg_bgColor = None, cg_textColor = ''#00ff00''\<rparr>"
  by (simp add: generateThresholdsListHexs_def mark_base_def sample_colors_def falsy_value_def Let_def)

text \<open>
  A list of background colors without a base color gets one whose type is text, so that the next reader
  of the list colors the text, not the background.
\<close>

lemma base_of_background_is_text:
  assumes "list_all (\<lambda>c. co_type c = THRESHOLD_TYPE_BG \<and> co_id c \<noteq> THRESHOLD_TYPE_BASE) colors" and "colors \<noteq> []"
  shows "getThresholdsListType colors = THRESHOLD_TYPE_BG"
    and "co_type (last (validateThresholdsListColors num colors THRESHOLD_TYPE_BG)) = THRESHOLD_TYPE_TEXT"
proof -
  show "getThresholdsListType colors = THRESHOLD_TYPE_BG"
    using assms by (cases colors) (auto simp: getThresholdsListType_def)
  have "list_all (\<lambda>c. co_type c \<in> set [THRESHOLD_TYPE_BASE, THRESHOLD_TYPE_TEXT, THRESHOLD_TYPE_BG]) colors"
    "\<not> list_ex (\<lambda>c. co_id c = THRESHOLD_TYPE_BASE) colors"
    using assms(1) by (auto simp: list_all_iff list_ex_iff)
  then show "co_type (last (validateThresholdsListColors num colors THRESHOLD_TYPE_BG)) = THRESHOLD_TYPE_TEXT"
    using assms(2) unfolding validateThresholdsListColors_def count_types_all
    by (simp add: Let_def DEFAULT_THRESHOLDS_LIST_COLORS_def)
qed

end
