(* ===== verification/Dashboard_Import.thy ===== *)
theory Dashboard_Import
  imports Dashboard_Types Sources
begin

text \<open>
  Exporting a dashboard to a file and importing it into another Chronograf: the sources of an imported
  file and their mapping to the sources at hand (\<open>ui/src/dashboards/utils/importDashboardMappings.ts\<close>), the two
  overlays of the import and the handlers of the dashboards page
  (\<open>components/ImportDashboardOverlay.tsx\<close>, \<open>components/import_dashboard_mappings/ImportDashboardMappings.tsx\<close>,
  \<open>containers/DashboardsPage.tsx\<close> under \<open>ui/src/dashboards\<close>), and the links of the dashboard and host switchers
  (\<open>dashboards/utils/dashboardSwitcherLinks.ts\<close>, \<open>hosts/utils/hostsSwitcherLinks.ts\<close>). What \<open>JSON.parse\<close> makes of
  a file is a parameter.
\<close>

section \<open>Data\<close>

record linked_source = source +
  so_self :: string \<comment> \<open>\<open>links.self\<close>\<close>

record source_info =
  si_name :: string
  si_id :: string
  si_link :: string

record imported_source =
  is_name :: string
  is_link :: string

record cell_info =
  ci_id :: string
  ci_name :: string

type_synonym imported_sources = "imported_source js_obj"
type_synonym source_mappings = "source_info js_obj"
type_synonym sources_cells = "cell_info list js_obj"

definition DYNAMIC_SOURCE :: string where "DYNAMIC_SOURCE = ''dynamic''"

definition DYNAMIC_SOURCE_INFO :: source_info where
  "DYNAMIC_SOURCE_INFO = \<lparr>si_name = ''Dynamic Source'', si_id = DYNAMIC_SOURCE, si_link = []\<rparr>"

section \<open>Mapping the sources of an import\<close>

fun source_id_match :: "string \<Rightarrow> string option" where
  \<comment> \<open>the capture group of the first match of \<open>sources\/(\d+)\<close>\<close>
  "source_id_match [] = None"
| "source_id_match (c # cs) =
     (if prefix ''sources/'' (c # cs) \<and> takeWhile is_digit (drop 8 (c # cs)) \<noteq> []
      then Some (takeWhile is_digit (drop 8 (c # cs))) else source_id_match cs)"

definition getSourceIDFromLink :: "string \<Rightarrow> string result" where
  \<comment> \<open>\<open>matcher.exec(sourceLink)[1]\<close>\<close>
  "getSourceIDFromLink sourceLink = deref (source_id_match sourceLink)"

definition getSourceInfo :: "linked_source \<Rightarrow> source_info" where
  "getSourceInfo s = \<lparr>si_name = so_name s, si_id = so_id s, si_link = so_self s\<rparr>"

definition find_key :: "('v \<Rightarrow> bool) \<Rightarrow> 'v js_obj \<Rightarrow> string option" where
  "find_key P ob = map_option fst (List.find (\<lambda>(k, v). P v) (obj_entries ob))"

definition imported_source_id :: "imported_sources \<Rightarrow> string \<Rightarrow> string result" where
  \<comment> \<open>the id of the source in the file, or the one in the link\<close>
  "imported_source_id importedSources sourceLink =
     (case find_key (\<lambda>s. is_link s = sourceLink) importedSources of
        None \<Rightarrow> getSourceIDFromLink sourceLink
      | Some k \<Rightarrow> if k = [] then getSourceIDFromLink sourceLink else Inr k)"

definition query_source :: "cell_query \<Rightarrow> string" where
  \<comment> \<open>\<open>getDeep(query, 'source', '')\<close>; null and the empty text are falsy alike\<close>
  "query_source q = (case cq_source q of None \<Rightarrow> [] | Some s \<Rightarrow> s)"

definition map_cell_source ::
    "linked_source \<Rightarrow> imported_sources \<Rightarrow> sources_cells \<times> source_mappings \<times> cell_info list \<Rightarrow> dash_cell \<Rightarrow>
     (sources_cells \<times> source_mappings \<times> cell_info list) result" where
  \<comment> \<open>the reducer of \<open>createSourceMappings\<close>\<close>
  "map_cell_source src importedSources acc c =
     (case acc of (sourcesCells, sourceMappings, cellsWithNoSource) \<Rightarrow>
        let cellInfo = \<lparr>ci_id = dc_i c, ci_name = dc_name c\<rparr>
        in case dc_queries c of
             [] \<Rightarrow> Inr acc
           | query # _ \<Rightarrow>
               if query_source query = [] then Inr (sourcesCells, sourceMappings, cellsWithNoSource @ [cellInfo])
               else bind_r (imported_source_id importedSources (query_source query)) (\<lambda>importedSourceID.
                 let known = (case obj_get sourcesCells importedSourceID of None \<Rightarrow> [] | Some cs \<Rightarrow> cs)
                 in Inr (obj_set sourcesCells importedSourceID (known @ [cellInfo]),
                         obj_set sourceMappings importedSourceID (getSourceInfo src), cellsWithNoSource)))"



definition createSourceMappings ::
    "linked_source \<Rightarrow> dash_cell list \<Rightarrow> imported_sources \<Rightarrow> (sources_cells \<times> source_mappings) result" where
  "createSourceMappings src cells importedSources =
     map_res (\<lambda>(sourcesCells, sourceMappings, cellsWithNoSource).
         if cellsWithNoSource \<noteq> []
         then (obj_set sourcesCells DYNAMIC_SOURCE cellsWithNoSource, obj_set sourceMappings DYNAMIC_SOURCE DYNAMIC_SOURCE_INFO)
         else (sourcesCells, sourceMappings))
       (fold_r (map_cell_source src importedSources) ([], [], []) cells)"

definition mapQueriesInCell :: "source_mappings \<Rightarrow> dash_cell \<Rightarrow> string \<Rightarrow> dash_cell result" where
  "mapQueriesInCell sourceMappings c sourceID =
     map_res (\<lambda>info. c\<lparr>dc_queries := map (\<lambda>q. q\<lparr>cq_source := Some (si_link info)\<rparr>) (dc_queries c)\<rparr>)
       (deref (obj_get sourceMappings sourceID))"

definition map_cell :: "source_mappings \<Rightarrow> imported_sources \<Rightarrow> dash_cell \<Rightarrow> dash_cell result" where
  \<comment> \<open>the callback of \<open>mapCells\<close>\<close>
  "map_cell sourceMappings importedSources c =
     (case dc_queries c of
        [] \<Rightarrow> Inr c
      | query # _ \<Rightarrow>
          if query_source query = [] then mapQueriesInCell sourceMappings c DYNAMIC_SOURCE
          else bind_r (imported_source_id importedSources (query_source query)) (mapQueriesInCell sourceMappings c))"

definition mapCells :: "dash_cell list \<Rightarrow> source_mappings \<Rightarrow> imported_sources \<Rightarrow> dash_cell list result" where
  "mapCells cells sourceMappings importedSources = map_r (map_cell sourceMappings importedSources) cells"

section \<open>The overlays\<close>

record mappings_state =
  ms_sourcesCells :: sources_cells
  ms_sourceMappings :: source_mappings

definition mount_mappings :: "dash_cell list \<Rightarrow> linked_source \<Rightarrow> imported_sources \<Rightarrow> mappings_state result" where
  \<comment> \<open>the constructor and \<open>componentDidMount\<close>\<close>
  "mount_mappings cells src importedSources =
     (if cells = [] then Inr \<lparr>ms_sourcesCells = [], ms_sourceMappings = []\<rparr>
      else map_res (\<lambda>(sc, sm). \<lparr>ms_sourcesCells = sc, ms_sourceMappings = sm\<rparr>) (createSourceMappings src cells importedSources))"

definition mapping_rows :: "imported_sources \<Rightarrow> mappings_state \<Rightarrow> (string \<times> string) list" where
  \<comment> \<open>\<open>tableBody\<close>: the label and the key of every row\<close>
  "mapping_rows importedSources st =
     map (\<lambda>i. ((case obj_get importedSources i of None \<Rightarrow> ''Source'' | Some s \<Rightarrow> is_name s) @ '' ('' @ i @ '')'', i))
       (filter (\<lambda>i. i \<noteq> DYNAMIC_SOURCE) (obj_keys (ms_sourcesCells st)))
     @ (if obj_get (ms_sourcesCells st) DYNAMIC_SOURCE \<noteq> None then [(''Dynamic Source'', DYNAMIC_SOURCE)] else [])"

definition getSelected :: "linked_source list \<Rightarrow> mappings_state \<Rightarrow> string \<Rightarrow> string result" where
  "getSelected sources st importedSourceID =
     (case obj_get (ms_sourceMappings st) importedSourceID of
        Some info \<Rightarrow> Inr (si_name info)
      | None \<Rightarrow> (case sources of [] \<Rightarrow> Inl TypeError | s # _ \<Rightarrow> Inr (so_name s)))"

definition getSourceItems :: "linked_source list \<Rightarrow> string \<Rightarrow> (string \<times> source_info) list" where
  "getSourceItems sources importedSourceID =
     map (\<lambda>s. (importedSourceID, getSourceInfo s)) sources @ [(importedSourceID, DYNAMIC_SOURCE_INFO)]"

definition handleChooseDropdown :: "mappings_state \<Rightarrow> string \<times> source_info \<Rightarrow> mappings_state" where
  "handleChooseDropdown st item = st\<lparr>ms_sourceMappings := obj_set (ms_sourceMappings st) (fst item) (snd item)\<rparr>"

definition submit_mappings :: "dash_cell list \<Rightarrow> imported_sources \<Rightarrow> mappings_state \<Rightarrow> dash_cell list result" where
  "submit_mappings cells importedSources st = mapCells cells (ms_sourceMappings st) importedSources"

datatype import_step = IMPORT | MAPPING

record import_overlay =
  io_cells :: "dash_cell list"
  io_dashboard :: "dashboard option"
  io_importedSources :: imported_sources
  io_step :: import_step

definition initial_import :: import_overlay where
  "initial_import = \<lparr>io_cells = [], io_dashboard = None, io_importedSources = [], io_step = IMPORT\<rparr>"

record dashboard_file =
  df_dashboard :: "dashboard option"
  df_sources :: "imported_sources option" \<comment> \<open>\<open>meta.sources\<close>\<close>

definition json_name :: "string \<Rightarrow> bool" where
  \<comment> \<open>a match of the expression made from \<open>.json$\<close>: any character, then \<open>json\<close>, at the end\<close>
  "json_name fileName = (suffix ''json'' fileName \<and> length fileName > 4 \<and> fileName ! (length fileName - 5) \<notin> {CHR 0x0A, CHR 0x0D})"

definition handleContinueImport ::
    "(string \<Rightarrow> string + dashboard_file) \<Rightarrow> import_overlay \<Rightarrow> string \<Rightarrow> string \<Rightarrow> import_overlay \<times> (string \<times> string) option" where
  \<comment> \<open>the next state, and the name and the message of \<open>notifyDashboardImportFailed\<close>\<close>
  "handleContinueImport parse st uploadContent fileName =
     (if \<not> json_name fileName then (st, Some (fileName, ''Please import a JSON file''))
      else case parse uploadContent of
             Inl e \<Rightarrow> (st, Some (fileName, e))
           | Inr file \<Rightarrow>
               (case df_dashboard file of
                  None \<Rightarrow> (st, Some (fileName, ''No dashboard found in file''))
                | Some d \<Rightarrow>
                    (st\<lparr>io_cells := da_cells d, io_dashboard := Some d,
                        io_importedSources := (case df_sources file of None \<Rightarrow> [] | Some s \<Rightarrow> s), io_step := MAPPING\<rparr>, None)))"

definition handleUploadDashboard :: "import_overlay \<Rightarrow> dash_cell list \<Rightarrow> dashboard option" where
  "handleUploadDashboard st cells = map_option (\<lambda>d. d\<lparr>da_cells := cells\<rparr>) (io_dashboard st)"

section \<open>The dashboards page\<close>

definition file_sources :: "linked_source list \<Rightarrow> imported_sources" where
  \<comment> \<open>the \<open>reduce\<close> of \<open>modifyDashboardForDownload\<close>\<close>
  "file_sources sources = foldl (\<lambda>acc s. obj_set acc (so_id s) \<lparr>is_name = so_name s, is_link = so_self s\<rparr>) [] sources"

definition modifyDashboardForDownload :: "linked_source list \<Rightarrow> dashboard \<Rightarrow> dashboard_file" where
  "modifyDashboardForDownload sources d = \<lparr>df_dashboard = Some d, df_sources = Some (file_sources sources)\<rparr>"

definition with_cell_defaults :: "dash_cell \<Rightarrow> dash_cell" where
  \<comment> \<open>\<open>{...NEW_DEFAULT_DASHBOARD_CELL, ...c}\<close>: the default of a property that may be absent\<close>
  "with_cell_defaults c = c\<lparr>dc_tableOptions := or_else (dc_tableOptions c) (dc_tableOptions NEW_DEFAULT_DASHBOARD_CELL)\<rparr>"

definition handleImportDashboard :: "dashboard \<Rightarrow> dashboard" where
  \<comment> \<open>the dashboard handed to \<open>importDashboardAsync\<close>\<close>
  "handleImportDashboard d = d\<lparr>da_cells := map with_cell_defaults (da_cells d)\<rparr>"

section \<open>Switcher links\<close>

record switcher_link =
  sl_key :: string
  sl_text :: string
  sl_to :: string

record switcher_links =
  sw_links :: "switcher_link list"
  sw_active :: "switcher_link option"

definition EMPTY_LINKS :: switcher_links where "EMPTY_LINKS = \<lparr>sw_links = [], sw_active = None\<rparr>"

definition linksFromDashboards :: "dashboard list \<Rightarrow> source \<Rightarrow> switcher_links" where
  "linksFromDashboards dashboards s =
     \<lparr>sw_links = map (\<lambda>d. \<lparr>sl_key = int_str (da_id d), sl_text = da_name d,
        sl_to = ''/sources/'' @ so_id s @ ''/dashboards/'' @ int_str (da_id d)\<rparr>) dashboards,
      sw_active = None\<rparr>"

definition updateActiveDashboardLink :: "switcher_links \<Rightarrow> dashboard option \<Rightarrow> switcher_links" where
  "updateActiveDashboardLink ls d =
     (case d of
        None \<Rightarrow> ls\<lparr>sw_active := None\<rparr>
      | Some d \<Rightarrow> ls\<lparr>sw_active := List.find (\<lambda>l. sl_key l = int_str (da_id d)) (sw_links ls)\<rparr>)"

definition updateActiveDashboardLinkName :: "switcher_links \<Rightarrow> dashboard \<Rightarrow> switcher_links" where
  \<comment> \<open>the callback of \<open>map\<close> leaves the last renamed link in \<open>active\<close>\<close>
  "updateActiveDashboardLinkName ls d =
     (let same = (\<lambda>l. sl_key l = int_str (da_id d));
          rename = (\<lambda>l. l\<lparr>sl_text := da_name d\<rparr>)
      in \<lparr>sw_links = map (\<lambda>l. if same l then rename l else l) (sw_links ls),
          sw_active = foldl (\<lambda>active l. if same l then Some (rename l) else active) (sw_active ls) (sw_links ls)\<rparr>)"

definition updateDashboardLinks :: "switcher_links \<Rightarrow> dashboard option \<Rightarrow> switcher_links result" where
  "updateDashboardLinks ls activeDashboard =
     (case sw_active ls of
        None \<Rightarrow> Inr (updateActiveDashboardLink ls activeDashboard)
      | Some active \<Rightarrow> map_res (\<lambda>d.
          if sl_key active \<noteq> int_str (da_id d) then updateActiveDashboardLink ls (Some d)
          else updateActiveDashboardLinkName ls d) (deref activeDashboard))"

definition linksFromHosts :: "string js_obj \<Rightarrow> source \<Rightarrow> switcher_links" where
  \<comment> \<open>a host is its name\<close>
  "linksFromHosts hostNames s =
     \<lparr>sw_links = map (\<lambda>h. \<lparr>sl_key = h, sl_text = h, sl_to = ''/sources/'' @ so_id s @ ''/hosts/'' @ h\<rparr>) (obj_values hostNames),
      sw_active = None\<rparr>"

definition updateActiveHostLink :: "switcher_links \<Rightarrow> string \<Rightarrow> switcher_links" where
  "updateActiveHostLink hostLinks host = hostLinks\<lparr>sw_active := List.find (\<lambda>l. sl_key l = host) (sw_links hostLinks)\<rparr>"

section \<open>What an import maps\<close>

definition dynamic :: "dash_cell \<Rightarrow> bool" where
  "dynamic c \<longleftrightarrow> dc_queries c \<noteq> [] \<and> query_source (hd (dc_queries c)) = []"

definition named_source :: "imported_sources \<Rightarrow> dash_cell \<Rightarrow> string option" where
  "named_source imp c =
     (if dc_queries c = [] \<or> dynamic c then None
      else case imported_source_id imp (query_source (hd (dc_queries c))) of Inl e \<Rightarrow> None | Inr k \<Rightarrow> Some k)"

definition source_of_cell :: "imported_sources \<Rightarrow> dash_cell \<Rightarrow> string option" where
  \<comment> \<open>the key of the row that decides about a cell\<close>
  "source_of_cell imp c = (if dynamic c then Some DYNAMIC_SOURCE else named_source imp c)"

definition unmappable :: "imported_sources \<Rightarrow> dash_cell \<Rightarrow> bool" where
  \<comment> \<open>the link of its first query is not in the file and has no id\<close>
  "unmappable imp c \<longleftrightarrow> dc_queries c \<noteq> [] \<and> \<not> dynamic c \<and> named_source imp c = None"

definition info_of :: "dash_cell \<Rightarrow> cell_info" where
  "info_of c = \<lparr>ci_id = dc_i c, ci_name = dc_name c\<rparr>"

definition cells_of :: "sources_cells \<Rightarrow> string \<Rightarrow> cell_info list" where
  "cells_of sc k = (case obj_get sc k of None \<Rightarrow> [] | Some cs \<Rightarrow> cs)"

definition with_source :: "string \<Rightarrow> dash_cell \<Rightarrow> dash_cell" where
  "with_source l c = c\<lparr>dc_queries := map (\<lambda>q. q\<lparr>cq_source := Some l\<rparr>) (dc_queries c)\<rparr>"

lemma imported_source_id_error: "imported_source_id imp l = Inl e \<Longrightarrow> e = TypeError"
  by (auto simp: imported_source_id_def getSourceIDFromLink_def deref_def split: option.splits if_splits)

lemma map_cell_source_cases:
  "map_cell_source src imp (sc, sm, ns) c =
     (if unmappable imp c then Inl TypeError
      else if dynamic c then Inr (sc, sm, ns @ [info_of c])
      else case named_source imp c of
             None \<Rightarrow> Inr (sc, sm, ns)
           | Some k \<Rightarrow> Inr (obj_set sc k (cells_of sc k @ [info_of c]), obj_set sm k (getSourceInfo src), ns))"
proof (cases "dc_queries c")
  case Nil
  then show ?thesis by (simp add: map_cell_source_def unmappable_def dynamic_def named_source_def Let_def)
next
  case (Cons q qs)
  then show ?thesis
    by (cases "imported_source_id imp (query_source q)")
      (auto simp: map_cell_source_def unmappable_def dynamic_def named_source_def info_of_def cells_of_def Let_def
        dest: imported_source_id_error)
qed

lemma cells_of_set: "cells_of (obj_set sc k v) j = (if j = k then v else cells_of sc j)"
  by (simp add: cells_of_def obj_get_set)

lemma fold_sources:
  "fold_r (map_cell_source src imp) (sc, sm, ns) cells = Inr (sc', sm', ns') \<Longrightarrow>
     (\<forall>c\<in>set cells. \<not> unmappable imp c) \<and> ns' = ns @ map info_of (filter dynamic cells) \<and>
     (\<forall>k. cells_of sc' k = cells_of sc k @ map info_of (filter (\<lambda>c. named_source imp c = Some k) cells)) \<and>
     (\<forall>k. obj_get sm' k = (if \<exists>c\<in>set cells. named_source imp c = Some k then Some (getSourceInfo src) else obj_get sm k)) \<and>
     ((\<forall>k. obj_get sc k \<noteq> Some []) \<longrightarrow> (\<forall>k. obj_get sc' k \<noteq> Some []))"
proof (induction cells arbitrary: sc sm ns)
  case (Cons c cells)
  have dyn: "dynamic c \<Longrightarrow> named_source imp c = None" by (simp add: named_source_def)
  show ?case
  proof (cases "named_source imp c")
    case None
    show ?thesis
    proof (cases "dynamic c")
      case True
      then have run: "fold_r (map_cell_source src imp) (sc, sm, ns @ [info_of c]) cells = Inr (sc', sm', ns')"
        using Cons.prems by (auto simp: map_cell_source_cases split: if_splits)
      show ?thesis using Cons.IH[OF run] True None by (auto simp: unmappable_def)
    next
      case False
      then have ok: "\<not> unmappable imp c" and run: "fold_r (map_cell_source src imp) (sc, sm, ns) cells = Inr (sc', sm', ns')"
        using Cons.prems None by (auto simp: map_cell_source_cases split: if_splits)
      show ?thesis using Cons.IH[OF run] False None ok by simp
    qed
  next
    case (Some k)
    then have "\<not> dynamic c" "\<not> unmappable imp c" using dyn by (auto simp: unmappable_def)
    then have run: "fold_r (map_cell_source src imp)
        (obj_set sc k (cells_of sc k @ [info_of c]), obj_set sm k (getSourceInfo src), ns) cells = Inr (sc', sm', ns')"
      using Cons.prems Some by (simp add: map_cell_source_cases)
    show ?thesis
      using Cons.IH[OF run] Some \<open>\<not> dynamic c\<close> \<open>\<not> unmappable imp c\<close> by (auto simp: cells_of_set obj_get_set)
  qed
qed simp

lemma fold_sources_error:
  "fold_r (map_cell_source src imp) acc cells = Inl e \<Longrightarrow> e = TypeError \<and> (\<exists>c\<in>set cells. unmappable imp c)"
proof (induction cells arbitrary: acc)
  case (Cons c cells)
  show ?case
  proof (cases "unmappable imp c")
    case True
    then show ?thesis using Cons.prems by (cases acc) (simp add: map_cell_source_cases)
  next
    case False
    then have "\<forall>e. map_cell_source src imp acc c \<noteq> Inl e"
      by (cases acc) (auto simp: map_cell_source_cases split: option.split)
    then obtain acc' where "map_cell_source src imp acc c = Inr acc'" by (cases "map_cell_source src imp acc c") auto
    then show ?thesis using Cons by auto
  qed
qed simp

lemma source_id_digits: "source_id_match s = Some k \<Longrightarrow> k \<noteq> [] \<and> list_all is_digit k"
  by (induction s) (auto simp: list_all_iff dest: set_takeWhileD split: if_splits)

lemma find_key_present: "find_key P ob = Some k \<Longrightarrow> obj_get ob k = Some (the (obj_get ob k)) \<and> P (the (obj_get ob k))"
  by (auto simp: find_key_def obj_entries_eq dest!: find_Some intro!: obj_get_present)

lemma named_not_dynamic:
  assumes "obj_get imp DYNAMIC_SOURCE = None"
  shows "named_source imp c \<noteq> Some DYNAMIC_SOURCE"
proof
  assume "named_source imp c = Some DYNAMIC_SOURCE"
  then have "imported_source_id imp (query_source (hd (dc_queries c))) = Inr DYNAMIC_SOURCE"
    by (auto simp: named_source_def split: if_splits sum.splits)
  then show False
    using assms find_key_present[of _ imp DYNAMIC_SOURCE] source_id_digits[of _ DYNAMIC_SOURCE]
    by (auto simp: imported_source_id_def getSourceIDFromLink_def deref_Inr_iff DYNAMIC_SOURCE_def is_digit_def
        split: option.splits if_splits)
qed

definition maps_all :: "imported_sources \<Rightarrow> dash_cell list \<Rightarrow> mappings_state \<Rightarrow> bool" where
  \<comment> \<open>every cell has its row and the row has a source\<close>
  "maps_all imp cells st \<longleftrightarrow> (\<forall>c\<in>set cells. \<not> unmappable imp c \<and>
     (\<forall>k. source_of_cell imp c = Some k \<longrightarrow> obj_get (ms_sourceMappings st) k \<noteq> None))"

lemma mounted:
  assumes "mount_mappings cells src imp = Inr st"
  shows "maps_all imp cells st"
    and "obj_get imp DYNAMIC_SOURCE = None \<Longrightarrow>
      cells_of (ms_sourcesCells st) k = map info_of (filter (\<lambda>c. source_of_cell imp c = Some k) cells)"
    and "obj_get (ms_sourcesCells st) k \<noteq> Some []"
    and "c \<in> set cells \<Longrightarrow> dynamic c \<Longrightarrow> obj_get (ms_sourceMappings st) DYNAMIC_SOURCE = Some DYNAMIC_SOURCE_INFO"
proof -
  obtain sc sm ns where fold: "fold_r (map_cell_source src imp) ([], [], []) cells = Inr (sc, sm, ns)"
    and st: "st = (if ns \<noteq> [] then \<lparr>ms_sourcesCells = obj_set sc DYNAMIC_SOURCE ns,
        ms_sourceMappings = obj_set sm DYNAMIC_SOURCE DYNAMIC_SOURCE_INFO\<rparr>
      else \<lparr>ms_sourcesCells = sc, ms_sourceMappings = sm\<rparr>)"
    using assms by (cases "cells = []") (auto simp: mount_mappings_def createSourceMappings_def map_res_Inr_iff split: if_splits)
  note f = fold_sources[OF fold, simplified]
  show "maps_all imp cells st"
    using f unfolding maps_all_def st source_of_cell_def by (auto simp: obj_get_set filter_empty_conv)
  show "obj_get (ms_sourcesCells st) k \<noteq> Some []"
    using f unfolding st by (auto simp: obj_get_set)
  show "c \<in> set cells \<Longrightarrow> dynamic c \<Longrightarrow> obj_get (ms_sourceMappings st) DYNAMIC_SOURCE = Some DYNAMIC_SOURCE_INFO"
    using f unfolding st by (auto simp: obj_get_set filter_empty_conv)
  show "cells_of (ms_sourcesCells st) k = map info_of (filter (\<lambda>c. source_of_cell imp c = Some k) cells)"
    if no: "obj_get imp DYNAMIC_SOURCE = None"
  proof -
    have not_dyn: "named_source imp c \<noteq> Some DYNAMIC_SOURCE" for c using named_not_dynamic[OF no] .
    then have "source_of_cell imp c = Some k \<longleftrightarrow> (if k = DYNAMIC_SOURCE then dynamic c else named_source imp c = Some k)" for c
      using not_dyn[of c] by (auto simp: source_of_cell_def) (simp_all add: named_source_def)
    then have split: "filter (\<lambda>c. source_of_cell imp c = Some k) cells =
        (if k = DYNAMIC_SOURCE then filter dynamic cells else filter (\<lambda>c. named_source imp c = Some k) cells)"
      by simp
    have sc: "cells_of sc j = map info_of (filter (\<lambda>c. named_source imp c = Some j) cells)" for j
      using f by (simp add: cells_of_def)
    then have "cells_of sc DYNAMIC_SOURCE = []" using not_dyn by simp
    then show ?thesis
      using f sc[of k] unfolding st split by (simp add: cells_of_set)
  qed
qed

lemma choose_keeps: "obj_get (ms_sourceMappings st) k \<noteq> None \<Longrightarrow>
    obj_get (ms_sourceMappings (foldl handleChooseDropdown st items)) k \<noteq> None"
  by (induction items arbitrary: st) (auto simp: handleChooseDropdown_def obj_get_set)

lemma maps_all_choose: "maps_all imp cells st \<Longrightarrow> maps_all imp cells (foldl handleChooseDropdown st items)"
  using choose_keeps by (fastforce simp: maps_all_def)

definition mapped_cell :: "imported_sources \<Rightarrow> mappings_state \<Rightarrow> dash_cell \<Rightarrow> dash_cell" where
  \<comment> \<open>all queries of a cell with queries go to the source chosen for its row\<close>
  "mapped_cell imp st c =
     (case source_of_cell imp c of
        None \<Rightarrow> c
      | Some k \<Rightarrow> with_source (case obj_get (ms_sourceMappings st) k of None \<Rightarrow> [] | Some info \<Rightarrow> si_link info) c)"

lemma map_cell_mapped:
  assumes "maps_all imp cells st" and "c \<in> set cells"
  shows "map_cell (ms_sourceMappings st) imp c = Inr (mapped_cell imp st c)"
proof (cases "dc_queries c")
  case Nil
  then show ?thesis
    by (simp add: map_cell_def mapped_cell_def source_of_cell_def dynamic_def named_source_def)
next
  case (Cons q qs)
  have ok: "\<not> unmappable imp c" "\<And>k. source_of_cell imp c = Some k \<Longrightarrow> obj_get (ms_sourceMappings st) k \<noteq> None"
    using assms by (auto simp: maps_all_def)
  show ?thesis
  proof (cases "query_source q = []")
    case True
    then have "source_of_cell imp c = Some DYNAMIC_SOURCE" using Cons by (simp add: source_of_cell_def dynamic_def)
    then show ?thesis
      using ok(2) True Cons by (auto simp: map_cell_def mapped_cell_def mapQueriesInCell_def with_source_def)
  next
    case False
    then have "source_of_cell imp c = named_source imp c" "named_source imp c \<noteq> None"
      using ok(1) Cons by (auto simp: source_of_cell_def dynamic_def unmappable_def)
    then obtain k where "imported_source_id imp (query_source q) = Inr k" "source_of_cell imp c = Some k"
      using Cons by (auto simp: named_source_def split: sum.splits if_splits)
    then show ?thesis
      using ok(2) False Cons by (auto simp: map_cell_def mapped_cell_def mapQueriesInCell_def with_source_def)
  qed
qed

lemma mapCells_mapped: "maps_all imp cells st \<Longrightarrow> mapCells cells (ms_sourceMappings st) imp = Inr (map (mapped_cell imp st) cells)"
  unfolding mapCells_def by (rule map_r_pure) (rule map_cell_mapped)

lemma row_keys: "snd ` set (mapping_rows imp st) = fst ` set (ms_sourcesCells st)"
proof -
  have "snd ` set (mapping_rows imp st) = (fst ` set (ms_sourcesCells st) - {DYNAMIC_SOURCE}) \<union>
      (if obj_get (ms_sourcesCells st) DYNAMIC_SOURCE \<noteq> None then {DYNAMIC_SOURCE} else {})"
    unfolding mapping_rows_def set_append image_Un set_map image_image snd_conv set_filter set_obj_keys by auto
  then show ?thesis using obj_get_None_iff[of "ms_sourcesCells st" DYNAMIC_SOURCE] by auto
qed

text \<open>
  Importing never loses a cell. Once the overlay has made its rows, every cell with a query is listed in exactly
  the row that decides about it, in the order of the file; whatever is then chosen in the rows, submitting does not throw and
  sends every query of such a cell to the source its row shows, and a cell without queries stays as it is.
\<close>

theorem import_maps_every_cell:
  assumes "mount_mappings cells src imp = Inr st" and "obj_get imp DYNAMIC_SOURCE = None"
  shows "submit_mappings cells imp (foldl handleChooseDropdown st items) =
      Inr (map (mapped_cell imp (foldl handleChooseDropdown st items)) cells) \<and>
    (\<forall>k. cells_of (ms_sourcesCells st) k = map info_of (filter (\<lambda>c. source_of_cell imp c = Some k) cells)) \<and>
    (\<forall>c\<in>set cells. dc_queries c \<noteq> [] \<longrightarrow>
       (\<exists>k. source_of_cell imp c = Some k \<and> k \<in> snd ` set (mapping_rows imp st)))"
proof -
  note all = mounted(1)[OF assms(1)] and rows = mounted(2)[OF assms]
  have "\<exists>k. source_of_cell imp c = Some k \<and> k \<in> snd ` set (mapping_rows imp st)"
    if c: "c \<in> set cells" "dc_queries c \<noteq> []" for c
  proof -
    have "\<not> unmappable imp c" using all c(1) by (simp add: maps_all_def)
    then have "source_of_cell imp c \<noteq> None"
      using c(2) by (auto simp: source_of_cell_def unmappable_def)
    then obtain k where k: "source_of_cell imp c = Some k" by blast
    then have "info_of c \<in> set (cells_of (ms_sourcesCells st) k)" using rows[of k] c(1) by auto
    then have "obj_get (ms_sourcesCells st) k \<noteq> None"
      by (cases "obj_get (ms_sourcesCells st) k") (simp_all add: cells_of_def)
    then have "k \<in> snd ` set (mapping_rows imp st)" using obj_get_None_iff[of "ms_sourcesCells st" k] row_keys by simp
    then show ?thesis using k by blast
  qed
  then show ?thesis
    unfolding submit_mappings_def using mapCells_mapped[OF maps_all_choose[OF all]] rows by simp
qed

definition sample_query :: "string option \<Rightarrow> cell_query" where
  "sample_query s = \<lparr>cq_query = ''q'', cq_queryConfig = None, cq_source = s, cq_wheres = None, cq_groupbys = None, cq_text = None\<rparr>"

definition sample_cell :: "string \<Rightarrow> string option \<Rightarrow> dash_cell" where
  "sample_cell i s = NEW_DEFAULT_DASHBOARD_CELL\<lparr>dc_i := i, dc_queries := [sample_query s]\<rparr>"

definition sample_source :: "string \<Rightarrow> string \<Rightarrow> linked_source" where
  "sample_source i l = \<lparr>so_id = i, so_name = ''s'' @ i, so_type = ''influx'', so_url = [], so_default = False, so_telegraf = [],
     so_organization = [], so_defaultRP = [], so_proxy = None, so_services_link = [], so_kapacitors = None, so_self = l\<rparr>"

lemma import_maps_every_cell_witness:
  "let cells = [sample_cell ''a'' (Some ''/sources/7''), sample_cell ''b'' None];
       st = \<lparr>ms_sourcesCells = [(''7'', [info_of (hd cells)]), (DYNAMIC_SOURCE, [info_of (cells ! 1)])],
             ms_sourceMappings = [(''7'', getSourceInfo (sample_source ''1'' ''/sources/1'')), (DYNAMIC_SOURCE, DYNAMIC_SOURCE_INFO)]\<rparr>;
       chosen = foldl handleChooseDropdown st [(''7'', getSourceInfo (sample_source ''2'' ''/sources/2''))]
   in submit_mappings cells [] chosen = Inr (map (mapped_cell [] chosen) cells) \<and>
      (\<forall>k. cells_of (ms_sourcesCells st) k = map info_of (filter (\<lambda>c. source_of_cell [] c = Some k) cells)) \<and>
      (\<forall>c\<in>set cells. dc_queries c \<noteq> [] \<longrightarrow>
         (\<exists>k. source_of_cell [] c = Some k \<and> k \<in> snd ` set (mapping_rows [] st)))"
proof -
  have "mount_mappings [sample_cell ''a'' (Some ''/sources/7''), sample_cell ''b'' None] (sample_source ''1'' ''/sources/1'') [] =
    Inr \<lparr>ms_sourcesCells = [(''7'', [info_of (sample_cell ''a'' (Some ''/sources/7''))]),
          (DYNAMIC_SOURCE, [info_of (sample_cell ''b'' None)])],
         ms_sourceMappings = [(''7'', getSourceInfo (sample_source ''1'' ''/sources/1'')), (DYNAMIC_SOURCE, DYNAMIC_SOURCE_INFO)]\<rparr>"
    by (simp add: mount_mappings_def createSourceMappings_def map_cell_source_def sample_cell_def sample_query_def query_source_def
        imported_source_id_def find_key_def obj_entries_eq obj_keys_def getSourceIDFromLink_def is_digit_def info_of_def
        DYNAMIC_SOURCE_def NEW_DEFAULT_DASHBOARD_CELL_def Let_def)
  from import_maps_every_cell[OF this obj_get_simps(1), of "[(''7'', getSourceInfo (sample_source ''2'' ''/sources/2''))]"]
  show ?thesis by (simp add: Let_def)
qed

lemma mount_total:
  assumes "\<forall>c\<in>set cells. \<not> unmappable imp c"
  shows "\<exists>st. mount_mappings cells src imp = Inr st"
proof (cases "fold_r (map_cell_source src imp) ([], [], []) cells")
  case (Inl e)
  then show ?thesis using fold_sources_error[OF Inl] assms by blast
next
  case (Inr r)
  then show ?thesis by (simp add: mount_mappings_def createSourceMappings_def)
qed

text \<open>
  Without an id in the link of a source that the file does not describe, opening the overlay throws: the
  capture group of a match that is not there is read before the test for it.
\<close>

lemma mount_throws:
  assumes "c \<in> set cells" and "unmappable imp c"
  shows "mount_mappings cells src imp = Inl TypeError"
proof -
  have "\<exists>e. mount_mappings cells src imp = Inl e"
    using mounted(1)[of cells src imp] assms by (cases "mount_mappings cells src imp") (auto simp: maps_all_def)
  moreover have "cells \<noteq> []" using assms(1) by auto
  ultimately show ?thesis
    by (cases "fold_r (map_cell_source src imp) ([], [], []) cells")
      (auto simp: mount_mappings_def createSourceMappings_def dest: fold_sources_error)
qed

section \<open>Exporting and importing\<close>

definition source_list_ok :: "linked_source list \<Rightarrow> bool" where
  "source_list_ok sources \<longleftrightarrow> distinct (map so_id sources) \<and> distinct (map so_self sources) \<and>
     (\<forall>s\<in>set sources. so_id s \<notin> {[], DYNAMIC_SOURCE} \<and> so_self s \<noteq> [])"

definition at_home :: "linked_source list \<Rightarrow> dash_cell \<Rightarrow> bool" where
  \<comment> \<open>its queries have one source, which is dynamic or of the list\<close>
  "at_home sources c \<longleftrightarrow> (\<exists>l \<in> insert [] (so_self ` set sources). \<forall>q\<in>set (dc_queries c). cq_source q = Some l)"

lemma file_sources_eq:
  "file_sources sources = obj_of_list [] (map (\<lambda>s. (so_id s, \<lparr>is_name = so_name s, is_link = so_self s\<rparr>)) sources)"
  by (simp add: file_sources_def obj_of_list_def foldl_map)

lemma file_sources_get:
  assumes "source_list_ok sources"
  shows "obj_get (file_sources sources) k =
    map_option (\<lambda>s. \<lparr>is_name = so_name s, is_link = so_self s\<rparr>) (List.find (\<lambda>s. so_id s = k) sources)"
proof -
  have "map_of (map (\<lambda>s. (so_id s, f s)) xs) k = map_option f (List.find (\<lambda>s. so_id s = k) xs)"
    for f :: "linked_source \<Rightarrow> imported_source" and xs
    by (induction xs) auto
  moreover have "distinct (map fst (map (\<lambda>s. (so_id s, \<lparr>is_name = so_name s, is_link = so_self s\<rparr>)) sources))"
    using assms by (simp add: source_list_ok_def o_def)
  ultimately show ?thesis
    unfolding file_sources_eq by (simp add: obj_get_of_list split: option.split)
qed

lemma find_exported:
  assumes "source_list_ok sources" and s: "s \<in> set sources"
  shows "imported_source_id (file_sources sources) (so_self s) = Inr (so_id s)"
proof -
  let ?P = "\<lambda>i. is_link i = so_self s"
  have ids: "inj_on so_id (set sources)" "inj_on so_self (set sources)"
    using assms(1) by (auto simp: source_list_ok_def distinct_map)
  have find: "List.find (\<lambda>t. so_id t = so_id s) sources = Some s"
    using find_Some[of "\<lambda>t. so_id t = so_id s" sources] find_None[of "\<lambda>t. so_id t = so_id s" sources] s ids(1)
    by (cases "List.find (\<lambda>t. so_id t = so_id s) sources") (auto dest: inj_onD)
  have g: "obj_get (file_sources sources) (so_id s) = Some \<lparr>is_name = so_name s, is_link = so_self s\<rparr>"
    using file_sources_get[OF assms(1)] find by simp
  then have "so_id s \<in> set (obj_keys (file_sources sources))" unfolding set_obj_keys by (rule obj_get_in_keys)
  then have "\<not> (\<forall>x\<in>set (obj_entries (file_sources sources)). \<not> (case x of (k, v) \<Rightarrow> ?P v))"
    using g unfolding obj_entries_eq set_map ball_simps by (intro bexI[of _ "so_id s"]) simp_all
  then have "find_key ?P (file_sources sources) \<noteq> None"
    unfolding find_key_def option.map_disc_iff find_None .
  then obtain k where k: "find_key ?P (file_sources sources) = Some k" by blast
  obtain v where v: "obj_get (file_sources sources) k = Some v" "?P v" using find_key_present[OF k] by blast
  obtain t where t: "List.find (\<lambda>t. so_id t = k) sources = Some t" "so_self t = so_self s"
    using v file_sources_get[OF assms(1), of k] by (cases "List.find (\<lambda>t. so_id t = k) sources") auto
  have "t = s" using find_Some[OF t(1)] t(2) s ids(2) by (simp add: inj_on_eq_iff)
  then have "k = so_id s" using find_Some[OF t(1)] by simp
  moreover have "so_id s \<noteq> []" using assms by (auto simp: source_list_ok_def)
  ultimately show ?thesis using k by (simp add: imported_source_id_def)
qed

definition choices_at_home :: "linked_source list \<Rightarrow> mappings_state \<Rightarrow> (string \<times> source_info) list" where
  \<comment> \<open>in the row of a source of the list, that source is chosen\<close>
  "choices_at_home sources st =
     map (\<lambda>s. (so_id s, getSourceInfo s)) (filter (\<lambda>s. obj_get (ms_sourcesCells st) (so_id s) \<noteq> None) sources)"

lemma choose_get:
  assumes "distinct (map fst items)"
  shows "obj_get (ms_sourceMappings (foldl handleChooseDropdown st items)) k =
    (case map_of items k of Some v \<Rightarrow> Some v | None \<Rightarrow> obj_get (ms_sourceMappings st) k)"
proof -
  have "ms_sourceMappings (foldl handleChooseDropdown st items) = obj_of_list (ms_sourceMappings st) items"
    by (induction items arbitrary: st) (auto simp: handleChooseDropdown_def)
  then show ?thesis using obj_get_of_list[OF assms] by simp
qed

lemma at_home_source:
  assumes "source_list_ok sources" and "at_home sources c" and "dc_queries c \<noteq> []"
  shows "(dynamic c \<and> with_source [] c = c) \<or>
    (\<exists>s\<in>set sources. \<not> dynamic c \<and> named_source (file_sources sources) c = Some (so_id s) \<and> with_source (so_self s) c = c)"
proof -
  obtain l where l: "l \<in> insert [] (so_self ` set sources)" "\<forall>q\<in>set (dc_queries c). cq_source q = Some l"
    using assms(2) by (auto simp: at_home_def)
  have "map (\<lambda>q. q\<lparr>cq_source := Some l\<rparr>) (dc_queries c) = dc_queries c"
    using l(2) by (intro map_idI) (auto intro: cell_query.equality)
  then have same: "with_source l c = c" by (simp add: with_source_def)
  have hd: "query_source (hd (dc_queries c)) = l" using l(2) assms(3) by (simp add: query_source_def)
  show ?thesis
  proof (cases "l = []")
    case True
    then show ?thesis using same hd assms(3) by (simp add: dynamic_def)
  next
    case False
    then obtain s where s: "s \<in> set sources" "l = so_self s" using l(1) by auto
    then show ?thesis
      using same hd False assms(3) find_exported[OF assms(1) s(1)] by (auto simp: dynamic_def named_source_def)
  qed
qed



section \<open>The switchers\<close>

text \<open>
  The active link of the switcher is always one of its links: choosing a dashboard that is not active makes its link active,
  and showing the active one again renames it in both places.
\<close>

definition links_ok :: "switcher_links \<Rightarrow> bool" where
  "links_ok ls \<longleftrightarrow> (\<forall>l. sw_active ls = Some l \<longrightarrow> l \<in> set (sw_links ls))"

lemma renamed_active:
  "foldl (\<lambda>active l. if P l then Some (f l) else active) a ls =
     (if filter P ls = [] then a else Some (f (last (filter P ls))))"
  by (induction ls arbitrary: a) auto

lemma updateDashboardLinks_ok:
  assumes "links_ok ls" and "updateDashboardLinks ls d = Inr ls'"
  shows "links_ok ls' \<and> map sl_key (sw_links ls') = map sl_key (sw_links ls) \<and>
    (\<forall>x l. d = Some x \<longrightarrow> sw_active ls' = Some l \<longrightarrow> sl_key l = int_str (da_id x))"
proof (cases "sw_active ls")
  case None
  then show ?thesis
    using assms(2) by (auto simp: updateDashboardLinks_def updateActiveDashboardLink_def links_ok_def
        split: option.splits dest: find_Some)
next
  case (Some active)
  then obtain x where x: "d = Some x" using assms(2) by (cases d) (auto simp: updateDashboardLinks_def)
  show ?thesis
  proof (cases "sl_key active = int_str (da_id x)")
    case False
    then show ?thesis
      using assms(2) Some x
      by (auto simp: updateDashboardLinks_def updateActiveDashboardLink_def links_ok_def dest: find_Some)
  next
    case True
    let ?P = "\<lambda>l. sl_key l = int_str (da_id x)"
    have "active \<in> set (filter ?P (sw_links ls))" using assms(1) Some True by (simp add: links_ok_def)
    then have ne: "filter ?P (sw_links ls) \<noteq> []" by (auto simp: filter_empty_conv)
    then have "last (filter ?P (sw_links ls)) \<in> set (filter ?P (sw_links ls))" by (rule last_in_set)
    then show ?thesis
      using assms(2) Some x True ne
      by (auto simp: updateDashboardLinks_def updateActiveDashboardLinkName_def links_ok_def renamed_active Let_def)
  qed
qed

lemma linksFromDashboards_ok: "links_ok (linksFromDashboards ds s) \<and> links_ok EMPTY_LINKS"
  by (simp add: linksFromDashboards_def EMPTY_LINKS_def links_ok_def)

end
