(* ===== verification/Threesizer.thy ===== *)
theory Threesizer
  imports Store_Prelude Complex_Main
begin

text \<open>
  The container of resizable divisions (\<open>ui/src/shared/components/threesizer/Threesizer.tsx\<close> and the parts of
  \<open>Division.tsx\<close> that decide about sizes), with the constants of \<open>ui/src/shared/constants/index.ts\<close>. A
  handler sets the state and \<open>componentDidUpdate\<close> follows it, so an event is one step. Sizes and
  positions are rational numbers, where the code has doubles. The rectangle of the container is an argument.
\<close>

section \<open>State\<close>

definition HANDLE_VERTICAL :: string where "HANDLE_VERTICAL = ''vertical''"
definition HANDLE_HORIZONTAL :: string where "HANDLE_HORIZONTAL = ''horizontal''"
definition HANDLE_NONE :: string where "HANDLE_NONE = ''none''"
definition HANDLE_PIXELS :: rat where "HANDLE_PIXELS = 20"
definition MAX_SIZE :: rat where "MAX_SIZE = 1"
definition MIN_SIZE :: rat where "MIN_SIZE = 0"

record division_props =
  pr_handleDisplay :: "string option"
  pr_handlePixels :: "rat option"
  pr_size :: "rat option"

record division =
  dv_id :: string
  dv_size :: rat
  dv_handleDisplay :: "string option"
  dv_handlePixels :: rat

record drag_event =
  dg_percentX :: rat
  dg_percentY :: rat
  dg_mouseX :: "rat option"
  dg_mouseY :: "rat option"

record sizer =
  sz_activeHandleID :: string \<comment> \<open>null and the empty text are falsy alike\<close>
  sz_divisions :: "division list"
  sz_dragEvent :: drag_event

record rectangle =
  re_top :: rat
  re_left :: rat
  re_width :: rat
  re_height :: rat

definition initialDragEvent :: drag_event where
  "initialDragEvent = \<lparr>dg_percentX = 0, dg_percentY = 0, dg_mouseX = None, dg_mouseY = None\<rparr>"

definition or_default :: "rat option \<Rightarrow> rat \<Rightarrow> rat" where
  \<comment> \<open>\<open>a || b\<close> on numbers\<close>
  "or_default a b = (case a of None \<Rightarrow> b | Some x \<Rightarrow> if x = 0 then b else x)"

definition initialDivisions :: "string list \<Rightarrow> division_props list \<Rightarrow> division list" where
  \<comment> \<open>with the ids of \<open>uuid.v4()\<close>\<close>
  "initialDivisions uids divisions =
     map (\<lambda>(i, d). \<lparr>dv_id = i, dv_size = or_default (pr_size d) (1 / of_nat (length divisions)),
         dv_handleDisplay = pr_handleDisplay d, dv_handlePixels = or_default (pr_handlePixels d) HANDLE_PIXELS\<rparr>)
       (zip uids divisions)"

definition initial_sizer :: "string list \<Rightarrow> division_props list \<Rightarrow> sizer" where
  "initial_sizer uids divisions = \<lparr>sz_activeHandleID = [], sz_divisions = initialDivisions uids divisions, sz_dragEvent = initialDragEvent\<rparr>"

section \<open>Moving a handle\<close>

definition enforceMax :: "rat \<Rightarrow> rat" where
  "enforceMax n = (if n > MAX_SIZE then MAX_SIZE else n)"

definition enforceMin :: "rat \<Rightarrow> rat" where
  "enforceMin n = (if n < MIN_SIZE then MIN_SIZE else n)"

definition grow :: "rat \<Rightarrow> division \<Rightarrow> division" where
  \<comment> \<open>\<open>taller\<close> and \<open>fatter\<close>\<close>
  "grow p d = d\<lparr>dv_size := enforceMax (dv_size d + p)\<rparr>"

definition shrink :: "rat \<Rightarrow> division \<Rightarrow> division" where
  \<comment> \<open>\<open>shorter\<close> and \<open>thinner\<close>\<close>
  "shrink p d = d\<lparr>dv_size := enforceMin (dv_size d - p)\<rparr>"

definition map_with_index :: "(nat \<Rightarrow> 'a \<Rightarrow> 'b) \<Rightarrow> 'a list \<Rightarrow> 'b list" where
  "map_with_index f xs = map (\<lambda>i. f i (xs ! i)) [0..<length xs]"

definition up_or_left :: "rat \<Rightarrow> nat option \<Rightarrow> division list \<Rightarrow> division list" where
  \<comment> \<open>\<open>up\<close> and \<open>left\<close>; the position -1 is \<open>None\<close>, and 0 is falsy\<close>
  "up_or_left p activePosition divisions =
     map_with_index (\<lambda>i d.
       if activePosition = Some 0 then d
       else let before = (activePosition = Some (i + 1)); current = (activePosition = Some i)
            in if i = 0 \<and> \<not> before
               then (if 1 < length divisions \<and> dv_size (divisions ! 1) = 0 then shrink p d else d)
               else if before then shrink p d
               else if current then grow p d
               else d) divisions"

definition down_or_right :: "rat \<Rightarrow> nat option \<Rightarrow> division list \<Rightarrow> division list" where
  \<comment> \<open>\<open>down\<close> and \<open>right\<close>; no division is before the first\<close>
  "down_or_right p activePosition divisions =
     map_with_index (\<lambda>i d.
       if activePosition = Some (i + 1) then grow p d
       else if activePosition = Some i then shrink p d
       else if i > 0 \<and> activePosition = Some (i - 1)
       then (if dv_size (divisions ! (i - 1)) = 0 then shrink p d else d)
       else d) divisions"

definition pixelsToPercent :: "rat option \<Rightarrow> rat option \<Rightarrow> rat \<Rightarrow> rat" where
  \<comment> \<open>\<open>pixelsToPercentX\<close> and \<open>pixelsToPercentY\<close>, of the extent of the container\<close>
  "pixelsToPercent startValue endValue extent =
     (case (startValue, endValue) of
        (Some a, Some b) \<Rightarrow> if a = 0 \<or> b = 0 then 0 else \<bar>a - b\<bar> / extent
      | _ \<Rightarrow> 0)"

definition mousePosWithinContainer :: "rectangle \<Rightarrow> rat \<times> rat \<Rightarrow> drag_event" where
  "mousePosWithinContainer r e =
     (case e of (pageX, pageY) \<Rightarrow>
        let mouseX = pageX - re_left r; mouseY = pageY - re_top r
        in \<lparr>dg_percentX = mouseX / re_width r, dg_percentY = mouseY / re_height r,
            dg_mouseX = Some mouseX, dg_mouseY = Some mouseY\<rparr>)"

definition active_position :: "sizer \<Rightarrow> nat option" where
  "active_position st = find_index (\<lambda>d. dv_id d = sz_activeHandleID st) (sz_divisions st)"

definition componentDidUpdate :: "string \<Rightarrow> rectangle \<Rightarrow> sizer \<Rightarrow> sizer \<Rightarrow> sizer" where
  \<comment> \<open>from the previous to the current state\<close>
  "componentDidUpdate orientation r prevState st =
     (let dragEvent = sz_dragEvent st; prevDrag = sz_dragEvent prevState
      in if dragEvent = prevDrag then st
         else let percentChangeX = pixelsToPercent (dg_mouseX prevDrag) (dg_mouseX dragEvent) (re_width r);
                  percentChangeY = pixelsToPercent (dg_mouseY prevDrag) (dg_mouseY dragEvent) (re_height r);
                  move = (\<lambda>f. st\<lparr>sz_divisions := f (active_position st) (sz_divisions st)\<rparr>)
              in if orientation = HANDLE_VERTICAL
                 then (if dg_percentX dragEvent < dg_percentX prevDrag
                       then move (up_or_left percentChangeX) else move (down_or_right percentChangeX))
                 else (if dg_percentY dragEvent < dg_percentY prevDrag
                       then move (up_or_left percentChangeY) else move (down_or_right percentChangeY)))"

section \<open>Events\<close>

datatype sizer_event =
    StartDrag string "rat \<times> rat"
  | Drag "rat \<times> rat"
  | StopDrag
  | DoubleClick string
  | Maximize string
  | Minimize string

definition has_id :: "string \<Rightarrow> sizer \<Rightarrow> bool" where
  "has_id i st = list_ex (\<lambda>d. dv_id d = i) (sz_divisions st)"

definition all_to :: "string \<Rightarrow> sizer \<Rightarrow> sizer" where
  "all_to i st = st\<lparr>sz_divisions := map (\<lambda>d. if dv_id d \<noteq> i then d\<lparr>dv_size := 0\<rparr> else d\<lparr>dv_size := 1\<rparr>) (sz_divisions st)\<rparr>"

definition equalize :: "sizer \<Rightarrow> sizer" where
  "equalize st = st\<lparr>sz_divisions := map (\<lambda>d. d\<lparr>dv_size := 1 / of_nat (length (sz_divisions st))\<rparr>) (sz_divisions st)\<rparr>"

definition handleDoubleClick :: "string \<Rightarrow> sizer \<Rightarrow> sizer" where
  "handleDoubleClick i st =
     (case List.find (\<lambda>d. dv_id d = i) (sz_divisions st) of
        None \<Rightarrow> st
      | Some clickedDiv \<Rightarrow> if dv_size clickedDiv = 1 then equalize st else all_to i st)"

definition handleMaximize :: "string \<Rightarrow> sizer \<Rightarrow> sizer" where
  "handleMaximize i st = (if has_id i st then all_to i st else st)"

definition handleMinimize :: "string \<Rightarrow> sizer \<Rightarrow> sizer" where
  "handleMinimize i st =
     (if \<not> has_id i st then st
      else let numDivisions = length (sz_divisions st);
               n = (if numDivisions \<le> 1 then 1 else 1 / of_nat (numDivisions - 1))
           in st\<lparr>sz_divisions := map (\<lambda>d. if dv_id d \<noteq> i then d\<lparr>dv_size := n\<rparr> else d\<lparr>dv_size := 0\<rparr>) (sz_divisions st)\<rparr>)"

definition draggable :: "string \<Rightarrow> sizer \<Rightarrow> bool" where
  \<comment> \<open>every division but the first; what \<open>Division.drag\<close> checks\<close>
  "draggable i st = (case find_index (\<lambda>d. dv_id d = i) (sz_divisions st) of None \<Rightarrow> False | Some n \<Rightarrow> n > 0)"

definition sizer_step :: "string \<Rightarrow> rectangle \<Rightarrow> sizer \<Rightarrow> sizer_event \<Rightarrow> sizer" where
  "sizer_step orientation r st ev =
     (let st' = (case ev of
          StartDrag i e \<Rightarrow> if draggable i st then st\<lparr>sz_activeHandleID := i, sz_dragEvent := mousePosWithinContainer r e\<rparr> else st
        | Drag e \<Rightarrow> if sz_activeHandleID st = [] then st else st\<lparr>sz_dragEvent := mousePosWithinContainer r e\<rparr>
        | StopDrag \<Rightarrow> st\<lparr>sz_activeHandleID := [], sz_dragEvent := initialDragEvent\<rparr>
        | DoubleClick i \<Rightarrow> handleDoubleClick i st
        | Maximize i \<Rightarrow> handleMaximize i st
        | Minimize i \<Rightarrow> handleMinimize i st)
      in componentDidUpdate orientation r st st')"

section \<open>What is drawn\<close>

definition shown_pixels :: "division \<Rightarrow> rat" where
  \<comment> \<open>\<open>handlePixels\<close> of \<open>Division\<close>\<close>
  "shown_pixels d = (if dv_handleDisplay d = Some HANDLE_NONE then 0 else dv_handlePixels d)"

definition offset :: "division list \<Rightarrow> rat" where
  "offset divisions = foldl (\<lambda>acc d. if dv_handleDisplay d = Some HANDLE_NONE then acc else acc + dv_handlePixels d) 0 divisions"

definition extent_of :: "rat \<Rightarrow> division list \<Rightarrow> division \<Rightarrow> rat" where
  \<comment> \<open>the pixels of \<open>calc((100% - offset) * size + handlePixels)\<close> in a container of so many\<close>
  "extent_of pixels divisions d = (pixels - offset divisions) * dv_size d + shown_pixels d"

section \<open>What an event does to the sizes\<close>

definition sizes_ok :: "division list \<Rightarrow> bool" where
  "sizes_ok ds \<longleftrightarrow> (\<forall>d\<in>set ds. 0 \<le> dv_size d \<and> dv_size d \<le> 1)"

definition full_size :: "division list \<Rightarrow> rat" where
  "full_size ds = sum_list (map dv_size ds)"

definition sizer_ok :: "sizer \<Rightarrow> bool" where
  "sizer_ok st \<longleftrightarrow> distinct (map dv_id (sz_divisions st)) \<and> sizes_ok (sz_divisions st) \<and>
     (sz_activeHandleID st = [] \<or> draggable (sz_activeHandleID st) st)"

inductive resize :: "division list \<Rightarrow> division list \<Rightarrow> bool" for ds where
  stay: "resize ds ds"
| up: "0 < k \<Longrightarrow> k < length ds \<Longrightarrow> 0 \<le> p \<Longrightarrow> resize ds (up_or_left p (Some k) ds)"
| down: "0 < k \<Longrightarrow> k < length ds \<Longrightarrow> 0 \<le> p \<Longrightarrow> resize ds (down_or_right p (Some k) ds)"
| alone: "i \<in> dv_id ` set ds \<Longrightarrow> resize ds (map (\<lambda>d. if dv_id d \<noteq> i then d\<lparr>dv_size := 0\<rparr> else d\<lparr>dv_size := 1\<rparr>) ds)"
| equal: "ds \<noteq> [] \<Longrightarrow> resize ds (map (\<lambda>d. d\<lparr>dv_size := 1 / of_nat (length ds)\<rparr>) ds)"
| away: "i \<in> dv_id ` set ds \<Longrightarrow> n = (if length ds \<le> 1 then 1 else 1 / of_nat (length ds - 1)) \<Longrightarrow>
    resize ds (map (\<lambda>d. if dv_id d \<noteq> i then d\<lparr>dv_size := n\<rparr> else d\<lparr>dv_size := 0\<rparr>) ds)"

lemma map_with_index_key: "(\<And>i d. key (f i d) = key d) \<Longrightarrow> map key (map_with_index f xs) = map key xs"
  by (rule nth_equalityI) (simp_all add: map_with_index_def)

lemma set_map_with_index: "y \<in> set (map_with_index f xs) \<longleftrightarrow> (\<exists>i<length xs. y = f i (xs ! i))"
  by (auto simp: map_with_index_def)

lemma map_with_index_same: "(\<And>i. i < length xs \<Longrightarrow> f i (xs ! i) = xs ! i) \<Longrightarrow> map_with_index f xs = xs"
  by (rule nth_equalityI) (simp_all add: map_with_index_def)

lemma length_map_with_index [simp]: "length (map_with_index f xs) = length xs"
  by (simp add: map_with_index_def)

lemma moved_fields [simp]:
  "dv_id (grow p d) = dv_id d" "dv_id (shrink p d) = dv_id d"
  "dv_handleDisplay (grow p d) = dv_handleDisplay d" "dv_handleDisplay (shrink p d) = dv_handleDisplay d"
  "dv_handlePixels (grow p d) = dv_handlePixels d" "dv_handlePixels (shrink p d) = dv_handlePixels d"
  by (simp_all add: grow_def shrink_def)

lemma moved_bounds:
  assumes "0 \<le> p" and "0 \<le> dv_size d" and "dv_size d \<le> 1"
  shows "0 \<le> dv_size (grow p d) \<and> dv_size (grow p d) \<le> 1" and "0 \<le> dv_size (shrink p d) \<and> dv_size (shrink p d) \<le> 1"
  using assms by (auto simp: grow_def shrink_def enforceMax_def enforceMin_def MAX_SIZE_def MIN_SIZE_def)

lemma resize_keeps:
  assumes "resize ds ds'"
  shows "map (\<lambda>d. (dv_id d, dv_handleDisplay d, dv_handlePixels d)) ds' = map (\<lambda>d. (dv_id d, dv_handleDisplay d, dv_handlePixels d)) ds"
  using assms by cases (auto simp: up_or_left_def down_or_right_def Let_def intro!: map_with_index_key)

lemma resize_bounds:
  assumes "resize ds ds'" and "sizes_ok ds"
  shows "sizes_ok ds'"
  using assms
proof cases
  case (up k p)
  then show ?thesis
    using assms(2) moved_bounds[of p] by (auto simp: sizes_ok_def up_or_left_def set_map_with_index Let_def)
next
  case (down k p)
  then show ?thesis
    using assms(2) moved_bounds[of p] by (auto simp: sizes_ok_def down_or_right_def set_map_with_index)
qed (use assms(2) in \<open>auto simp: sizes_ok_def field_simps Suc_le_eq\<close>)

lemma still:
  assumes "sizes_ok ds"
  shows "up_or_left 0 k ds = ds" and "down_or_right 0 k ds = ds"
proof -
  have d: "grow 0 (ds ! i) = ds ! i" "shrink 0 (ds ! i) = ds ! i" if "i < length ds" for i
  proof -
    have "0 \<le> dv_size (ds ! i)" "dv_size (ds ! i) \<le> 1" using assms nth_mem[OF that] by (auto simp: sizes_ok_def)
    then show "grow 0 (ds ! i) = ds ! i" "shrink 0 (ds ! i) = ds ! i"
      by (simp_all add: grow_def shrink_def enforceMax_def enforceMin_def MAX_SIZE_def MIN_SIZE_def)
  qed
  show "up_or_left 0 k ds = ds" unfolding up_or_left_def by (rule map_with_index_same) (simp only: Let_def d if_cancel)
  show "down_or_right 0 k ds = ds" unfolding down_or_right_def by (rule map_with_index_same) (simp only: d if_cancel)
qed

lemma percent_pos: "0 < e \<Longrightarrow> 0 \<le> pixelsToPercent a b e"
  by (auto simp: pixelsToPercent_def split: option.split)

lemma percent_start [simp]: "pixelsToPercent None b e = 0" "pixelsToPercent a None e = 0"
  by (auto simp: pixelsToPercent_def split: option.split)

lemma did_update_resize:
  assumes r: "0 < re_width r" "0 < re_height r" and ok: "sizes_ok (sz_divisions st')"
    and handle: "active_position st' = Some k \<and> 0 < k \<or> sz_dragEvent st' = sz_dragEvent st \<or> sz_dragEvent st' = initialDragEvent"
  shows "resize (sz_divisions st') (sz_divisions (componentDidUpdate orientation r st st'))"
    and "sz_activeHandleID (componentDidUpdate orientation r st st') = sz_activeHandleID st'"
proof -
  have pos: "active_position st' = Some k \<Longrightarrow> k < length (sz_divisions st')"
    by (auto simp: active_position_def dest: find_index_Some)
  show "resize (sz_divisions st') (sz_divisions (componentDidUpdate orientation r st st'))"
    using handle pos ok percent_pos[OF r(1)] percent_pos[OF r(2)]
    by (auto simp: componentDidUpdate_def Let_def initialDragEvent_def still resize.stay intro!: resize.up resize.down)
  show "sz_activeHandleID (componentDidUpdate orientation r st st') = sz_activeHandleID st'"
    by (simp add: componentDidUpdate_def Let_def)
qed

lemma has_id_iff: "has_id i st \<longleftrightarrow> i \<in> dv_id ` set (sz_divisions st)"
  by (auto simp: has_id_def list_ex_iff)

lemma double_click_resize: "resize (sz_divisions st) (sz_divisions (handleDoubleClick i st))"
  by (auto simp: handleDoubleClick_def equalize_def all_to_def image_iff split: option.split dest!: find_Some
      intro!: resize.stay resize.equal resize.alone)

lemma maximize_resize: "resize (sz_divisions st) (sz_divisions (handleMaximize i st))"
  by (simp add: handleMaximize_def all_to_def has_id_iff resize.stay resize.alone)

lemma minimize_resize: "resize (sz_divisions st) (sz_divisions (handleMinimize i st))"
  by (simp add: handleMinimize_def has_id_iff resize.stay resize.away Let_def)

lemma find_index_map: "find_index P (map f xs) = find_index (\<lambda>x. P (f x)) xs"
  by (induction xs) auto

lemma draggable_ids: "map dv_id (sz_divisions st') = map dv_id (sz_divisions st) \<Longrightarrow> draggable i st' = draggable i st"
proof -
  have "find_index (\<lambda>d. dv_id d = i) xs = find_index (\<lambda>j. j = i) (map dv_id xs)" for xs :: "division list"
    by (simp add: find_index_map)
  moreover assume "map dv_id (sz_divisions st') = map dv_id (sz_divisions st)"
  ultimately show ?thesis by (simp add: draggable_def)
qed

lemma resize_ids: "resize ds ds' \<Longrightarrow> map dv_id ds' = map dv_id ds"
  using resize_keeps[of ds ds'] by (metis (no_types, lifting) comp_apply fst_conv list.map_comp list.map_cong0)

lemma sizer_step_keeps:
  assumes ok: "sizer_ok st" and r: "0 < re_width r" "0 < re_height r"
  shows "resize (sz_divisions st) (sz_divisions (sizer_step orientation r st ev))"
    and "sizer_ok (sizer_step orientation r st ev)"
proof -
  let ?st = "sizer_step orientation r st ev"
  have ds: "sizes_ok (sz_divisions st)" using ok by (simp add: sizer_ok_def)
  have handle: "\<exists>k>0. active_position s = Some k" if "draggable (sz_activeHandleID s) s" for s
    using that by (auto simp: draggable_def active_position_def split: option.splits)
  have moved: "resize (sz_divisions st) (sz_divisions ?st) \<and> (sz_activeHandleID ?st = [] \<or> draggable (sz_activeHandleID ?st) st)"
  proof (cases ev)
    case (StartDrag i e)
    show ?thesis
    proof (cases "draggable i st")
      case True
      let ?s = "st\<lparr>sz_activeHandleID := i, sz_dragEvent := mousePosWithinContainer r e\<rparr>"
      have "draggable i ?s" using True by (simp add: draggable_def)
      then obtain k where "0 < k" "active_position ?s = Some k" using handle[of ?s] by auto
      then show ?thesis
        using did_update_resize[OF r, where st' = ?s and k = k and st = st and orientation = orientation] ds True StartDrag by (simp add: sizer_step_def Let_def)
    next
      case False
      then show ?thesis
        using StartDrag ok by (simp add: sizer_step_def componentDidUpdate_def resize.stay sizer_ok_def)
    qed
  next
    case (Drag e)
    show ?thesis
    proof (cases "sz_activeHandleID st = []")
      case True
      then show ?thesis using Drag by (simp add: sizer_step_def componentDidUpdate_def resize.stay)
    next
      case False
      let ?s = "st\<lparr>sz_dragEvent := mousePosWithinContainer r e\<rparr>"
      have "draggable (sz_activeHandleID st) st" using ok False by (simp add: sizer_ok_def)
      then have "draggable (sz_activeHandleID ?s) ?s" by (simp add: draggable_def)
      then obtain k where "0 < k" "active_position ?s = Some k" using handle[of ?s] by auto
      then show ?thesis
        using did_update_resize[OF r, where st' = ?s and k = k and st = st and orientation = orientation] ds False Drag \<open>draggable (sz_activeHandleID st) st\<close>
        by (simp add: sizer_step_def Let_def)
    qed
  next
    case StopDrag
    let ?s = "st\<lparr>sz_activeHandleID := [], sz_dragEvent := initialDragEvent\<rparr>"
    show ?thesis
      using did_update_resize[OF r, where st' = ?s and st = st and orientation = orientation] ds StopDrag by (simp add: sizer_step_def Let_def)
  qed (use ok double_click_resize maximize_resize minimize_resize in
      \<open>auto simp: sizer_step_def componentDidUpdate_def sizer_ok_def handleDoubleClick_def handleMaximize_def handleMinimize_def
        all_to_def equalize_def Let_def split: option.splits\<close>)
  then show "resize (sz_divisions st) (sz_divisions ?st)" by blast
  then show "sizer_ok ?st"
    using moved ok resize_bounds[of "sz_divisions st" "sz_divisions ?st"] resize_ids[of "sz_divisions st" "sz_divisions ?st"]
      draggable_ids[of ?st st]
    by (simp add: sizer_ok_def)
qed

section \<open>Filling the container\<close>

lemma offset_sum: "offset ds = sum_list (map shown_pixels ds)"
proof -
  have "foldl (\<lambda>acc d. if dv_handleDisplay d = Some HANDLE_NONE then acc else acc + dv_handlePixels d) a ds =
      a + sum_list (map shown_pixels ds)" for a
    by (induction ds arbitrary: a) (auto simp: shown_pixels_def)
  then show ?thesis by (simp add: offset_def)
qed

lemma extents_sum: "sum_list (map (extent_of pixels ds) ds) = (pixels - offset ds) * full_size ds + offset ds"
proof -
  have "sum_list (map (\<lambda>d. a * dv_size d + shown_pixels d) xs) = a * full_size xs + sum_list (map shown_pixels xs)" for a xs
    by (induction xs) (auto simp: full_size_def field_simps)
  then show ?thesis by (simp add: extent_of_def[abs_def] offset_sum)
qed

lemma sizes_except:
  assumes "distinct (map dv_id ds)" and "i \<in> dv_id ` set ds"
  shows "full_size (map (\<lambda>d. if dv_id d \<noteq> i then d\<lparr>dv_size := m\<rparr> else d\<lparr>dv_size := n\<rparr>) ds) = n + m * of_nat (length ds - 1)"
  using assms
proof (induction ds)
  case (Cons d ds)
  show ?case
  proof (cases "dv_id d = i")
    case True
    then have "\<forall>e\<in>set ds. dv_id e \<noteq> i" using Cons.prems(1) by (auto simp: image_iff)
    then have "map (dv_size \<circ> (\<lambda>d. if dv_id d \<noteq> i then d\<lparr>dv_size := m\<rparr> else d\<lparr>dv_size := n\<rparr>)) ds = replicate (length ds) m"
      by (auto simp: map_replicate_const[symmetric])
    then have "sum_list (map (dv_size \<circ> (\<lambda>d. if dv_id d \<noteq> i then d\<lparr>dv_size := m\<rparr> else d\<lparr>dv_size := n\<rparr>)) ds) = m * of_nat (length ds)"
      by (simp only: sum_list_replicate mult.commute)
    then show ?thesis using True by (simp add: full_size_def)
  next
    case False
    then have "i \<in> dv_id ` set ds" using Cons.prems(2) by auto
    moreover from this have "ds \<noteq> []" by auto
    ultimately show ?thesis
      using Cons.IH Cons.prems(1) False by (cases ds) (auto simp: full_size_def field_simps)
  qed
qed simp

lemma resize_two:
  assumes "resize ds ds'" and "length ds = 2" and "distinct (map dv_id ds)" and "sizes_ok ds" and "full_size ds = 1"
  shows "full_size ds' = 1"
proof -
  obtain a b where ds: "ds = [a, b]" using assms(2) by (auto simp: numeral_2_eq_2 length_Suc_conv)
  have ab: "0 \<le> dv_size a" "dv_size a \<le> 1" "0 \<le> dv_size b" "dv_size b \<le> 1" "dv_size b = 1 - dv_size a"
    using assms(4,5) by (simp_all add: ds sizes_ok_def full_size_def)
  show ?thesis
    using assms(1)
  proof cases
    case (up k p)
    then have "k = 1" using ds by simp
    then show ?thesis
      using up(3) ab unfolding up(1) ds
      by (simp add: up_or_left_def map_with_index_def full_size_def grow_def shrink_def enforceMax_def enforceMin_def
          MAX_SIZE_def MIN_SIZE_def Let_def)
  next
    case (down k p)
    then have "k = 1" using ds by simp
    then show ?thesis
      using down(3) ab unfolding down(1) ds
      by (simp add: down_or_right_def map_with_index_def full_size_def grow_def shrink_def enforceMax_def enforceMin_def
          MAX_SIZE_def MIN_SIZE_def)
  next
    case (alone i)
    then show ?thesis using sizes_except[OF assms(3) alone(2), of 0 1] by simp
  next
    case (away i n)
    then show ?thesis using sizes_except[OF assms(3) away(2), of n 0] assms(2) by simp
  qed (use assms(2,5) ds in \<open>simp_all add: full_size_def\<close>)
qed

definition two_divisions :: "string list \<Rightarrow> division_props list \<Rightarrow> bool" where
  \<comment> \<open>their sizes are left to the container, or given and make up the whole\<close>
  "two_divisions uids ds \<longleftrightarrow> length uids = 2 \<and> length ds = 2 \<and> distinct uids \<and>
     (map pr_size ds = [None, None] \<or> (\<exists>x. 0 < x \<and> x < 1 \<and> map pr_size ds = [Some x, Some (1 - x)]))"

lemma initial_two:
  assumes "two_divisions uids ds"
  shows "sizer_ok (initial_sizer uids ds) \<and> full_size (sz_divisions (initial_sizer uids ds)) = 1 \<and>
    length (sz_divisions (initial_sizer uids ds)) = 2"
proof -
  obtain i j c d where "uids = [i, j]" "ds = [c, d]" "i \<noteq> j"
    using assms by (auto simp: two_divisions_def numeral_2_eq_2 length_Suc_conv)
  then show ?thesis
    using assms by (auto simp: two_divisions_def sizer_ok_def sizes_ok_def full_size_def initial_sizer_def
        initialDivisions_def or_default_def)
qed

text \<open>
  Two divisions fill their container, whatever is done to them. After any sequence of drags, double clicks,
  maximizing and minimizing, each size lies between none and all, and the pixels of the two divisions with
  their handles make up exactly the container.
\<close>

theorem two_divisions_fill:
  assumes "two_divisions uids ds" and "0 < re_width r" and "0 < re_height r"
  shows "let st = run_store (sizer_step orientation r) (initial_sizer uids ds) evs
    in length (sz_divisions st) = 2 \<and> sizes_ok (sz_divisions st) \<and>
       sum_list (map (extent_of pixels (sz_divisions st)) (sz_divisions st)) = pixels"
proof -
  have "sizer_ok (run_store (sizer_step orientation r) st evs) \<and> full_size (sz_divisions (run_store (sizer_step orientation r) st evs)) = 1 \<and>
      length (sz_divisions (run_store (sizer_step orientation r) st evs)) = 2"
    if "sizer_ok st \<and> full_size (sz_divisions st) = 1 \<and> length (sz_divisions st) = 2" for st
    using that
  proof (induction evs arbitrary: st)
    case (Cons ev evs)
    note step = sizer_step_keeps[OF _ assms(2,3), of st orientation ev]
    have "length (sz_divisions (sizer_step orientation r st ev)) = 2"
      using step(1) resize_ids Cons.prems by (metis length_map)
    then show ?case
      using Cons step resize_two[OF step(1)] by (simp add: sizer_ok_def)
  qed simp
  from this[OF initial_two[OF assms(1)]] show ?thesis by (simp add: Let_def extents_sum sizer_ok_def)
qed

definition sample_props :: division_props where
  "sample_props = \<lparr>pr_handleDisplay = None, pr_handlePixels = None, pr_size = None\<rparr>"

lemma two_divisions_fill_witness:
  "let st = run_store (sizer_step HANDLE_VERTICAL \<lparr>re_top = 0, re_left = 0, re_width = 100, re_height = 50\<rparr>)
       (initial_sizer [''a'', ''b''] [sample_props, sample_props]) [StartDrag ''b'' (50, 10), Drag (90, 10), StopDrag, DoubleClick ''a'']
   in length (sz_divisions st) = 2 \<and> sizes_ok (sz_divisions st) \<and>
      sum_list (map (extent_of 300 (sz_divisions st)) (sz_divisions st)) = 300"
  by (rule two_divisions_fill) (simp_all add: two_divisions_def sample_props_def)

text \<open>
  Any number of divisions. After any sequence of events the divisions are the ones the container was made with, in their order,
  no size is negative or more than all, and a handle is held only of a division that has one before it; maximizing or (of
  two or more) minimizing a division makes them fill the container again.
\<close>

theorem sizer_run:
  assumes "distinct uids" and "length uids = length ds" and "\<forall>d\<in>set ds. \<forall>x. pr_size d = Some x \<longrightarrow> 0 \<le> x \<and> x \<le> 1"
    and r: "0 < re_width r" "0 < re_height r"
  shows "let st = run_store (sizer_step orientation r) (initial_sizer uids ds) evs; fills = (\<lambda>st. full_size (sz_divisions st) = 1)
    in map dv_id (sz_divisions st) = uids \<and> sizes_ok (sz_divisions st) \<and>
       (sz_activeHandleID st = [] \<or> draggable (sz_activeHandleID st) st) \<and>
       (\<forall>i\<in>set uids. fills (sizer_step orientation r st (Maximize i)) \<and>
          (2 \<le> length uids \<longrightarrow> fills (sizer_step orientation r st (Minimize i))))"
proof -
  have "d \<in> set ds \<Longrightarrow> (1::rat) / of_nat (length ds) \<le> 1" for d using length_pos_if_in_set[of d ds] by (simp add: Suc_le_eq)
  then have init: "sizer_ok (initial_sizer uids ds)" "map dv_id (sz_divisions (initial_sizer uids ds)) = uids"
    using assms(1-3)
    by (auto simp: sizer_ok_def initial_sizer_def initialDivisions_def sizes_ok_def or_default_def o_def case_prod_unfold
        dest!: set_zip_rightD split: option.split)
  have run: "sizer_ok (run_store (sizer_step orientation r) st evs) \<and>
      map dv_id (sz_divisions (run_store (sizer_step orientation r) st evs)) = map dv_id (sz_divisions st)" if "sizer_ok st" for st
    using that
  proof (induction evs arbitrary: st)
    case (Cons ev evs)
    note step = sizer_step_keeps[OF Cons.prems r, of orientation ev]
    show ?case using Cons.IH[OF step(2)] resize_ids[OF step(1)] by simp
  qed simp
  let ?st = "run_store (sizer_step orientation r) (initial_sizer uids ds) evs"
  have ids: "map dv_id (sz_divisions ?st) = uids" and ok: "sizer_ok ?st" using run[OF init(1)] init(2) by simp_all
  have fills: "full_size (sz_divisions (sizer_step orientation r ?st (Maximize i))) = 1 \<and>
      (2 \<le> length uids \<longrightarrow> full_size (sz_divisions (sizer_step orientation r ?st (Minimize i))) = 1)" if "i \<in> set uids" for i
  proof -
    have "i \<in> dv_id ` set (sz_divisions ?st)" using that ids by (metis list.set_map)
    moreover have "length (sz_divisions ?st) = length uids" using ids by (metis length_map)
    moreover have "distinct (map dv_id (sz_divisions ?st))" using ok by (simp add: sizer_ok_def)
    ultimately show ?thesis
      using sizes_except[of "sz_divisions ?st" i]
      by (simp add: sizer_step_def componentDidUpdate_def handleMaximize_def handleMinimize_def all_to_def has_id_iff Let_def)
  qed
  then show ?thesis using ids ok by (simp add: Let_def sizer_ok_def)
qed

lemma sizer_run_witness:
  "let r = \<lparr>re_top = 0, re_left = 0, re_width = 100, re_height = 50\<rparr>;
       st = run_store (sizer_step HANDLE_VERTICAL r) (initial_sizer [''a'', ''b'', ''c''] [sample_props, sample_props, sample_props])
         [StartDrag ''b'' (50, 10), Drag (90, 10)];
       fills = (\<lambda>st. full_size (sz_divisions st) = 1)
   in map dv_id (sz_divisions st) = [''a'', ''b'', ''c''] \<and> sizes_ok (sz_divisions st) \<and>
      (sz_activeHandleID st = [] \<or> draggable (sz_activeHandleID st) st) \<and>
      (\<forall>i\<in>set [''a'', ''b'', ''c'']. fills (sizer_step HANDLE_VERTICAL r st (Maximize i)) \<and>
         (2 \<le> length [''a'', ''b'', ''c''] \<longrightarrow> fills (sizer_step HANDLE_VERTICAL r st (Minimize i))))"
  using sizer_run[of "[''a'', ''b'', ''c'']" "[sample_props, sample_props, sample_props]"
      "\<lparr>re_top = 0, re_left = 0, re_width = 100, re_height = 50\<rparr>" HANDLE_VERTICAL "[StartDrag ''b'' (50, 10), Drag (90, 10)]"]
  by (simp add: Let_def sample_props_def)

text \<open>
  With three divisions a drag can make them more than the container: the division before the handle stops at nothing,
  and the one after it goes on growing. And minimizing the only division hides it, although the code means
  to keep it at its full size.
\<close>

lemma three_divisions_overflow:
  "full_size (sz_divisions (run_store (sizer_step HANDLE_VERTICAL \<lparr>re_top = 0, re_left = 0, re_width = 100, re_height = 50\<rparr>)
     (initial_sizer [''a'', ''b'', ''c''] [sample_props, sample_props, sample_props])
     [StartDrag ''b'' (50, 10), Drag (10, 10)])) = 16 / 15"
  by (simp add: initial_sizer_def initialDivisions_def or_default_def sample_props_def sizer_step_def draggable_def componentDidUpdate_def
      active_position_def mousePosWithinContainer_def initialDragEvent_def pixelsToPercent_def HANDLE_VERTICAL_def up_or_left_def
      down_or_right_def map_with_index_def full_size_def grow_def shrink_def enforceMax_def enforceMin_def MAX_SIZE_def MIN_SIZE_def Let_def)

lemma only_division_minimized:
  "sz_divisions (handleMinimize i (initial_sizer [i] [d])) = [(hd (initialDivisions [i] [d]))\<lparr>dv_size := 0\<rparr>]"
  by (simp add: handleMinimize_def initial_sizer_def initialDivisions_def has_id_def Let_def)

end
