(* ===== verification/Flux_Ast.thy ===== *)
theory Flux_Ast
  imports Js_Prelude
begin

text \<open>
  Reading the syntax tree of a Flux script, which the server makes: the walker (\<open>ui/src/flux/ast/walker.ts\<close>) that
  flattens it to statements, functions, arguments and the tokens of a predicate, and \<open>bodyNodes\<close>
  (\<open>ui/src/flux/helpers/index.ts\<close>), which adds ids and the arguments that the suggestions know. Numbers are
  integers. \<open>uid\<close> is the id that \<open>uuid.v4()\<close> made for the node at a path of the result.
\<close>

section \<open>Values and trees\<close>

datatype flux_value =
    FStr string
  | FBool bool
  | FNum int
  | FList "flux_value list"
  | FObj "string option js_obj"
  | FUndef

definition truthy :: "flux_value \<Rightarrow> bool" where
  "truthy v = (case v of FStr s \<Rightarrow> s \<noteq> [] | FBool b \<Rightarrow> b | FNum n \<Rightarrow> n \<noteq> 0 | FUndef \<Rightarrow> False | _ \<Rightarrow> True)"

record prop_value =
  pv_type :: string
  pv_properties :: "(string \<times> string option) list" \<comment> \<open>the name of the key and of the value\<close>
  pv_elements :: "flux_value list"
  pv_value :: flux_value
  pv_source :: "string option" \<comment> \<open>\<open>location.source\<close>\<close>

type_synonym node_arg = "(string \<times> prop_value) list"
  \<comment> \<open>the properties of an argument\<close>

datatype node = Node
  (n_type: string)
  (n_source: string) \<comment> \<open>\<open>location.source\<close>\<close>
  (n_name: "string option")
  (n_value: flux_value)
  (n_operator: "string option")
  (n_left: "node option")
  (n_right: "node option")
  (n_object: "(string option \<times> string) option") \<comment> \<open>name and type\<close>
  (n_property: "(string option \<times> string \<times> flux_value) option") \<comment> \<open>name, type and value\<close>
  (n_call: "(string \<times> node_arg list option) option") \<comment> \<open>name of the callee, and arguments\<close>
  (n_argument: "node option")
  (n_callee: "string option")
  (n_arguments: "node_arg list option")

record declarator =
  dc_id_name :: string
  dc_init :: node
  dc_init_params :: "(string \<times> string) list" \<comment> \<open>source of the key, and type\<close>
  dc_init_body :: "node option"

record statement =
  st_type :: string
  st_source :: string
  st_expression :: "node option"
  st_declarations :: "declarator list"

section \<open>The tokens of a predicate\<close>

record token =
  tk_source :: string
  tk_type :: string
  tk_object :: "(string option \<times> string) option"
  tk_property :: "(flux_value \<times> string) option"

definition simple_token :: "string \<Rightarrow> string \<Rightarrow> token" where
  "simple_token source type = \<lparr>tk_source = source, tk_type = type, tk_object = None, tk_property = None\<rparr>"

definition hasParen :: "string option \<Rightarrow> node option \<Rightarrow> bool result" where
  \<comment> \<open>from the operator of the parent\<close>
  "hasParen operator child =
     (case operator of
        None \<Rightarrow> Inr False
      | Some p \<Rightarrow>
          if p \<noteq> [] \<and> toLowerCase p = ''and''
          then bind_r (deref child) (\<lambda>c.
            if n_type c = ''LogicalExpression''
            then map_res (\<lambda>q. toLowerCase q = ''or'') (deref (n_operator c)) else Inr False)
          else Inr False)"

fun inOrder :: "node \<Rightarrow> bool \<Rightarrow> token list result" where
  "inOrder (Node type source name val operator left right object property call argument callee arguments) paren =
     bind_r (hasParen operator left) (\<lambda>isLeftParen.
     bind_r (case left of None \<Rightarrow> Inr [] | Some l \<Rightarrow> inOrder l isLeftParen) (\<lambda>lefts.
     bind_r (if type = ''MemberExpression'' \<or> type = ''ObjectExpression''
             then bind_r (deref property) (\<lambda>(pname, ptype, pvalue).
                  bind_r (deref object) (\<lambda>ob.
                    let n = (case pname of None \<Rightarrow> pvalue | Some x \<Rightarrow> if x = [] then pvalue else FStr x)
                    in Inr [\<lparr>tk_source = source, tk_type = type, tk_object = Some ob, tk_property = Some (n, ptype)\<rparr>]))
             else Inr []) (\<lambda>members.
     bind_r (hasParen operator right) (\<lambda>isRightParen.
     bind_r (case right of None \<Rightarrow> Inr [] | Some r \<Rightarrow> inOrder r isRightParen) (\<lambda>rights.
       Inr ((if paren then [simple_token ''('' ''OpenParen''] else []) @ lefts @ members
            @ (case operator of None \<Rightarrow> [] | Some p \<Rightarrow> if p = [] then [] else [simple_token p ''Operator''])
            @ (case name of None \<Rightarrow> [] | Some x \<Rightarrow> if x = [] then [] else [simple_token source type])
            @ (if truthy val then [simple_token source type] else [])
            @ rights @ (if paren then [simple_token '')'' ''CloseParen''] else [])))))))"

definition inOrderExpression :: "node option \<Rightarrow> token list result" where
  \<comment> \<open>of the body of the first expression\<close>
  "inOrderExpression tree = (case tree of None \<Rightarrow> Inr [] | Some t \<Rightarrow> inOrder t False)"

section \<open>The functions of an expression\<close>

record arg =
  ar_key :: string
  ar_value :: flux_value
  ar_type :: "string option"

record flux_func =
  fn_name :: string
  fn_args :: "arg list"
  fn_source :: string
  fn_id :: string

fun walk :: "node option \<Rightarrow> (string \<times> node_arg list option \<times> string) list result" where
  "walk None = Inr []"
| "walk (Some (Node type source name val operator left right object property call argument callee arguments)) =
     (case call of
        Some (n, args) \<Rightarrow> map_res (\<lambda>ns. ns @ [(n, args, source)]) (walk argument)
      | None \<Rightarrow>
          if type = ''Identifier'' then Inr [(opt_str name, None, source)]
          else map_res (\<lambda>n. [(n, arguments, source)]) (deref callee))"

definition constructObject :: "prop_value \<Rightarrow> flux_value" where
  "constructObject v = FObj (foldl (\<lambda>acc (k, x). obj_set acc k x) [] (pv_properties v))"

definition constructArray :: "prop_value \<Rightarrow> flux_value" where
  "constructArray v = FList (pv_elements v)"

definition getProperties :: "node_arg \<Rightarrow> arg list" where
  "getProperties props =
     map (\<lambda>(key, v). \<lparr>ar_key = key,
       ar_value =
         (if pv_type v = ''ObjectExpression'' then constructObject v
          else if pv_type v = ''ArrayExpression'' then constructArray v
          else case pv_value v of
                 FUndef \<Rightarrow> FStr (case pv_source v of None \<Rightarrow> [] | Some s \<Rightarrow> s)
               | x \<Rightarrow> x),
       ar_type = None\<rparr>) props"

definition reduceArgs :: "node_arg list option \<Rightarrow> arg list" where
  "reduceArgs args = (case args of None \<Rightarrow> [] | Some as \<Rightarrow> foldl (\<lambda>acc a. acc @ getProperties a) [] as)"

definition buildFuncNodes :: "(string \<times> node_arg list option \<times> string) list \<Rightarrow> flux_func list" where
  \<comment> \<open>without an id yet\<close>
  "buildFuncNodes nodes = map (\<lambda>(n, args, source). \<lparr>fn_name = n, fn_args = reduceArgs args, fn_source = source, fn_id = []\<rparr>) nodes"

section \<open>Statements\<close>

record flux_decl =
  fd_name :: string
  fd_type :: string
  fd_value :: flux_value
  fd_source :: "string option"
  fd_funcs :: "flux_func list option"
  fd_params :: "(string \<times> string) list"
  fd_body :: "token list"
  fd_id :: string

record body =
  bd_id :: string
  bd_type :: string
  bd_source :: string
  bd_funcs :: "flux_func list option"
  bd_declarations :: "flux_decl list"

definition expression :: "node option \<Rightarrow> string \<Rightarrow> (string \<times> string \<times> flux_func list) result" where
  \<comment> \<open>type, source and functions; \<open>expression.type\<close> throws when there is none\<close>
  "expression e source =
     bind_r (walk e) (\<lambda>nodes. map_res (\<lambda>x. (n_type x, source, buildFuncNodes nodes)) (deref e))"

definition flat_declaration :: "string \<Rightarrow> declarator \<Rightarrow> flux_decl result" where
  \<comment> \<open>the callback of \<open>variable\<close>, from the source of the statement\<close>
  "flat_declaration source d =
     (let init = dc_init d; type = n_type init;
          base = \<lparr>fd_name = dc_id_name d, fd_type = type, fd_value = FUndef, fd_source = None, fd_funcs = None,
                  fd_params = [], fd_body = [], fd_id = []\<rparr>
      in if type = ''ArrowFunctionExpression''
         then map_res (\<lambda>ts. base\<lparr>fd_params := dc_init_params d, fd_body := ts, fd_source := Some (n_source init)\<rparr>)
           (inOrderExpression (dc_init_body d))
         else if js_includes type ''Expression''
         then map_res (\<lambda>(_, s, funcs). base\<lparr>fd_source := Some s, fd_funcs := Some funcs\<rparr>) (expression (Some init) source)
         else Inr (base\<lparr>fd_value := n_value init\<rparr>))"

definition flat_body :: "statement \<Rightarrow> body option result" where
  \<comment> \<open>the callback of \<open>body\<close>; a statement of another type is undefined\<close>
  "flat_body b =
     (if js_includes (st_type b) ''Expression''
      then map_res (\<lambda>(ty, s, funcs). Some \<lparr>bd_id = [], bd_type = ty, bd_source = s, bd_funcs = Some funcs, bd_declarations = []\<rparr>)
        (expression (st_expression b) (st_source b))
      else if js_includes (st_type b) ''Variable''
      then map_res (\<lambda>ds. Some \<lparr>bd_id = [], bd_type = st_type b, bd_source = st_source b, bd_funcs = None, bd_declarations = ds\<rparr>)
        (map_r (flat_declaration (st_source b)) (st_declarations b))
      else Inr None)"

record suggestion =
  sg_name :: string
  sg_params :: "string js_obj"

definition functions_of :: "(nat list \<Rightarrow> string) \<Rightarrow> nat list \<Rightarrow> flux_func list \<Rightarrow> suggestion list \<Rightarrow> flux_func list" where
  "functions_of uid path funcs suggestions =
     map (\<lambda>(k, f).
       let f = f\<lparr>fn_id := uid (path @ [k])\<rparr>
       in case List.find (\<lambda>s. sg_name s = fn_name f) suggestions of
            None \<Rightarrow> f
          | Some s \<Rightarrow>
              f\<lparr>fn_args := map (\<lambda>(key, type).
                  \<lparr>ar_key = key,
                   ar_value = (case List.find (\<lambda>a. ar_key a = key) (fn_args f) of
                       None \<Rightarrow> FStr []
                     | Some a \<Rightarrow> (case ar_value a of FUndef \<Rightarrow> FStr [] | v \<Rightarrow> v)),
                   ar_type = Some type\<rparr>) (obj_entries (sg_params s))\<rparr>)
       (enumerate 0 funcs)"

definition with_ids :: "(nat list \<Rightarrow> string) \<Rightarrow> suggestion list \<Rightarrow> nat \<times> body option \<Rightarrow> body result" where
  \<comment> \<open>the callback of \<open>bodyNodes\<close>\<close>
  "with_ids uid suggestions ib =
     (case ib of (i, b) \<Rightarrow>
        bind_r (deref b) (\<lambda>b.
          if js_includes (bd_type b) ''Variable''
          then Inr (b\<lparr>bd_id := uid [i], bd_declarations := map (\<lambda>(j, d).
                 d\<lparr>fd_id := uid [i, Suc j], fd_funcs := map_option (\<lambda>fs. functions_of uid [i, Suc j] fs suggestions) (fd_funcs d)\<rparr>)
               (enumerate 0 (bd_declarations b))\<rparr>)
          else map_res (\<lambda>fs. b\<lparr>bd_id := uid [i], bd_funcs := Some (functions_of uid [i, 0] fs suggestions), bd_declarations := []\<rparr>)
            (deref (bd_funcs b))))"

definition bodyNodes :: "(nat list \<Rightarrow> string) \<Rightarrow> statement list \<Rightarrow> suggestion list \<Rightarrow> body list result" where
  "bodyNodes uid ast suggestions =
     bind_r (map_r flat_body ast) (\<lambda>bs. map_r (with_ids uid suggestions) (enumerate 0 bs))"

section \<open>Pipelines\<close>

definition plain_node :: "string \<Rightarrow> string \<Rightarrow> node" where
  "plain_node type source = Node type source None FUndef None None None None None None None None None"

definition call_node :: "string \<times> node_arg list \<times> string \<Rightarrow> node" where
  \<comment> \<open>\<open>f(args)\<close>\<close>
  "call_node c = (case c of (n, args, source) \<Rightarrow>
     Node ''CallExpression'' source None FUndef None None None None None None None (Some n) (Some args))"

definition pipe_node :: "node \<Rightarrow> string \<times> node_arg list \<times> string \<Rightarrow> node" where
  \<comment> \<open>\<open>e |> f(args)\<close>\<close>
  "pipe_node e c = (case c of (n, args, source) \<Rightarrow>
     Node ''PipeExpression'' source None FUndef None None None None None (Some (n, Some args)) (Some e) None None)"

definition pipeline :: "string \<times> node_arg list \<times> string \<Rightarrow> (string \<times> node_arg list \<times> string) list \<Rightarrow> node" where
  "pipeline c cs = foldl pipe_node (call_node c) cs"

lemma walk_pipeline: "walk (Some (pipeline c cs)) = Inr (map (\<lambda>(n, args, source). (n, Some args, source)) (c # cs))"
proof (induction cs rule: rev_induct)
  case Nil
  then show ?case by (simp add: pipeline_def call_node_def split: prod.split)
next
  case (snoc x xs)
  then show ?case by (cases x) (simp add: pipeline_def pipe_node_def)
qed

definition written_func :: "(nat list \<Rightarrow> string) \<Rightarrow> nat list \<Rightarrow> suggestion list \<Rightarrow> nat \<times> string \<times> node_arg list \<times> string \<Rightarrow> flux_func" where
  \<comment> \<open>the function of a call: with the arguments the suggestion has, if there is one, and as written otherwise\<close>
  "written_func uid path suggestions c = (case c of (k, n, args, source) \<Rightarrow>
     let written = concat (map getProperties args);
         value_of = (\<lambda>key. case List.find (\<lambda>a. ar_key a = key) written of None \<Rightarrow> FStr []
             | Some a \<Rightarrow> if ar_value a = FUndef then FStr [] else ar_value a)
     in \<lparr>fn_name = n,
         fn_args = (case List.find (\<lambda>s. sg_name s = n) suggestions of
             None \<Rightarrow> written
           | Some s \<Rightarrow> map (\<lambda>(key, type). \<lparr>ar_key = key, ar_value = value_of key, ar_type = Some type\<rparr>) (obj_entries (sg_params s))),
         fn_source = source, fn_id = uid (path @ [k])\<rparr>)"

lemma reduceArgs_concat: "reduceArgs (Some as) = concat (map getProperties as)"
proof -
  have "foldl (\<lambda>acc a. acc @ getProperties a) acc as = acc @ concat (map getProperties as)" for acc
    by (induction as arbitrary: acc) auto
  then show ?thesis by (simp add: reduceArgs_def)
qed

lemma functions_of_calls:
  "functions_of uid path (buildFuncNodes (map (\<lambda>(n, args, source). (n, Some args, source)) cs)) suggestions =
     map (written_func uid path suggestions) (enumerate 0 cs)"
proof -
  have "map (\<lambda>(k, f). g k f) (enumerate m (map h xs)) = map (\<lambda>(k, x). g k (h x)) (enumerate m xs)" for g h m xs
    by (induction xs arbitrary: m) auto
  note unmap = this
  show ?thesis
    unfolding functions_of_def buildFuncNodes_def map_map comp_def unmap
    by (auto simp: written_func_def reduceArgs_concat Let_def split: option.split flux_value.split prod.split)
qed

text \<open>
  A pipeline is read as its functions from left to right. For the script of one pipeline the page gets one statement whose
  functions are the calls in the order they are written, each with its own id; a function the suggestions know has exactly the
  parameters of the suggestion, with the value written or the empty text, and any other has its arguments as written.
\<close>

theorem bodyNodes_pipeline:
  assumes "js_includes (st_type st) ''Expression''" and "st_expression st = Some (pipeline c cs)"
  shows "bodyNodes uid [st] suggestions =
    Inr [\<lparr>bd_id = uid [0], bd_type = n_type (pipeline c cs), bd_source = st_source st,
          bd_funcs = Some (map (written_func uid [0, 0] suggestions) (enumerate 0 (c # cs))), bd_declarations = []\<rparr>]"
proof -
  have "n_type (pipeline c cs) = (if cs = [] then ''CallExpression'' else ''PipeExpression'')"
    by (cases cs rule: rev_cases) (simp_all add: pipeline_def call_node_def pipe_node_def split: prod.split)
  then have "\<not> js_includes (n_type (pipeline c cs)) ''Variable''" by (simp add: js_includes_def)
  moreover have "expression (st_expression st) (st_source st) =
      Inr (n_type (pipeline c cs), st_source st, buildFuncNodes (map (\<lambda>(n, args, source). (n, Some args, source)) (c # cs)))"
    unfolding expression_def assms(2) walk_pipeline by simp
  ultimately show ?thesis
    unfolding bodyNodes_def using assms(1)
    by (simp add: flat_body_def with_ids_def functions_of_calls enumerate_simps(2) del: list.map(2))
qed

lemma bodyNodes_pipeline_witness:
  "let c = (''from'', [[(''db'', \<lparr>pv_type = ''StringLiteral'', pv_properties = [], pv_elements = [], pv_value = FStr ''telegraf'',
         pv_source = None\<rparr>)]], ''from(db: ''); r = (''range'', [], ''|> range()'');
       st = \<lparr>st_type = ''ExpressionStatement'', st_source = ''s'', st_expression = Some (pipeline c [r]), st_declarations = []\<rparr>;
       known = [\<lparr>sg_name = ''range'', sg_params = [(''start'', ''time''), (''stop'', ''time'')]\<rparr>]
   in bodyNodes (map char_of) [st] known =
     Inr [\<lparr>bd_id = map char_of [0::nat], bd_type = n_type (pipeline c [r]), bd_source = st_source st,
           bd_funcs = Some (map (written_func (map char_of) [0, 0] known) (enumerate 0 [c, r])), bd_declarations = []\<rparr>]"
  unfolding Let_def by (rule bodyNodes_pipeline) (simp_all add: js_includes_def)

section \<open>Predicates\<close>

datatype predicate =
    Compare "string option \<times> string" "string \<times> string" string "string \<times> string \<times> flux_value"
    \<comment> \<open>the object, the name and type of the property, the operator, and the type, source and value of the literal\<close>
  | Conj string predicate predicate \<comment> \<open>the operator as written\<close>
  | Disj string predicate predicate

fun predicate_node :: "predicate \<Rightarrow> node" where
  "predicate_node (Compare ob (pn, pt) operator (lt, ls, lv)) =
     Node ''BinaryExpression'' [] None FUndef (Some operator)
       (Some (Node ''MemberExpression'' pn None FUndef None None None (Some ob) (Some (Some pn, pt, FUndef)) None None None None))
       (Some (Node lt ls None lv None None None None None None None None None)) None None None None None None"
| "predicate_node (Conj operator x y) =
     Node ''LogicalExpression'' [] None FUndef (Some operator) (Some (predicate_node x)) (Some (predicate_node y)) None None None None None None"
| "predicate_node (Disj operator x y) =
     Node ''LogicalExpression'' [] None FUndef (Some operator) (Some (predicate_node x)) (Some (predicate_node y)) None None None None None None"

fun predicate_ok :: "predicate \<Rightarrow> bool" where
  \<comment> \<open>operators are what they are called, and a literal is no falsy value\<close>
  "predicate_ok (Compare ob (pn, pt) operator (lt, ls, lv)) \<longleftrightarrow>
     pn \<noteq> [] \<and> operator \<noteq> [] \<and> toLowerCase operator \<notin> {''and'', ''or''} \<and>
     lt \<notin> {''MemberExpression'', ''ObjectExpression'', ''LogicalExpression''} \<and> truthy lv"
| "predicate_ok (Conj operator x y) \<longleftrightarrow> toLowerCase operator = ''and'' \<and> predicate_ok x \<and> predicate_ok y"
| "predicate_ok (Disj operator x y) \<longleftrightarrow> toLowerCase operator = ''or'' \<and> predicate_ok x \<and> predicate_ok y"

fun compare_tokens :: "predicate \<Rightarrow> token list" where
  "compare_tokens (Compare ob (pn, pt) operator (lt, ls, lv)) =
     [\<lparr>tk_source = pn, tk_type = ''MemberExpression'', tk_object = Some ob, tk_property = Some (FStr pn, pt)\<rparr>,
      simple_token operator ''Operator'', simple_token ls lt]"
| "compare_tokens _ = []"

fun holds :: "(token list \<Rightarrow> bool) \<Rightarrow> predicate \<Rightarrow> bool" where
  \<comment> \<open>the meaning of a predicate, from the meaning of a comparison\<close>
  "holds val (Conj operator x y) \<longleftrightarrow> holds val x \<and> holds val y"
| "holds val (Disj operator x y) \<longleftrightarrow> holds val x \<or> holds val y"
| "holds val c \<longleftrightarrow> val (compare_tokens c)"

fun read_tokens :: "(token list \<Rightarrow> bool) \<Rightarrow> token list \<Rightarrow> (bool \<times> bool) list \<Rightarrow> bool option" where
  \<comment> \<open>reading from left to right, with \<open>and\<close> before \<open>or\<close>: for each open parenthesis what holds already, and what the
    conjunction under way amounts to\<close>
  "read_tokens val [] st = (case st of [(o', a)] \<Rightarrow> Some (o' \<or> a) | _ \<Rightarrow> None)"
| "read_tokens val (t # ts) st =
     (if tk_type t = ''OpenParen'' then read_tokens val ts ((False, True) # st)
      else if tk_type t = ''CloseParen''
      then (case st of (o1, a1) # (o2, a2) # st' \<Rightarrow> read_tokens val ts ((o2, a2 \<and> (o1 \<or> a1)) # st') | _ \<Rightarrow> None)
      else if tk_type t = ''Operator'' \<and> toLowerCase (tk_source t) = ''and'' then read_tokens val ts st
      else if tk_type t = ''Operator'' \<and> toLowerCase (tk_source t) = ''or''
      then (case st of (o1, a1) # st' \<Rightarrow> read_tokens val ts ((o1 \<or> a1, True) # st') | _ \<Rightarrow> None)
      else (case ts of
              p # l # ts' \<Rightarrow> (case st of (o1, a1) # st' \<Rightarrow> read_tokens val ts' ((o1, a1 \<and> val [t, p, l]) # st') | _ \<Rightarrow> None)
            | _ \<Rightarrow> None))"

definition is_disj :: "predicate \<Rightarrow> bool" where
  "is_disj e = (case e of Disj _ _ _ \<Rightarrow> True | _ \<Rightarrow> False)"

fun predicate_tokens :: "predicate \<Rightarrow> bool \<Rightarrow> token list" where
  "predicate_tokens (Conj operator x y) paren =
     (if paren then [simple_token ''('' ''OpenParen''] else []) @ predicate_tokens x (is_disj x)
     @ [simple_token operator ''Operator''] @ predicate_tokens y (is_disj y)
     @ (if paren then [simple_token '')'' ''CloseParen''] else [])"
| "predicate_tokens (Disj operator x y) paren =
     (if paren then [simple_token ''('' ''OpenParen''] else []) @ predicate_tokens x False
     @ [simple_token operator ''Operator''] @ predicate_tokens y False
     @ (if paren then [simple_token '')'' ''CloseParen''] else [])"
| "predicate_tokens c paren =
     (if paren then [simple_token ''('' ''OpenParen''] else []) @ compare_tokens c
     @ (if paren then [simple_token '')'' ''CloseParen''] else [])"

lemma has_paren_child:
  assumes "predicate_ok e" and "toLowerCase operator = ''and''"
  shows "hasParen (Some operator) (Some (predicate_node e)) = Inr (is_disj e)"
proof -
  have "operator \<noteq> []" using assms(2) by (auto simp: toLowerCase_def)
  then show ?thesis
    using assms by (cases e rule: predicate_node.cases) (auto simp: hasParen_def is_disj_def)
qed

lemma has_paren_other: "toLowerCase operator \<noteq> ''and'' \<Longrightarrow> hasParen (Some operator) child = Inr False"
  by (simp add: hasParen_def)

lemma in_order_predicate: "predicate_ok e \<Longrightarrow> inOrder (predicate_node e) paren = Inr (predicate_tokens e paren)"
proof (induction e arbitrary: paren)
  case (Compare ob p operator l)
  obtain pn pt where p: "p = (pn, pt)" by (cases p)
  obtain lt ls lv where l: "l = (lt, ls, lv)" by (cases l)
  show ?case using Compare by (simp add: p l has_paren_other hasParen_def[of None] truthy_def[of FUndef])
next
  case (Conj operator x y)
  then have "operator \<noteq> []" by (auto simp: toLowerCase_def)
  then show ?case using Conj by (simp add: has_paren_child truthy_def[of FUndef])
next
  case (Disj operator x y)
  then have "operator \<noteq> []" by (auto simp: toLowerCase_def)
  then show ?case using Disj by (simp add: has_paren_other truthy_def[of FUndef])
qed

lemma simple_token_fields [simp]: "tk_type (simple_token s t) = t" "tk_source (simple_token s t) = s"
  by (simp_all add: simple_token_def)

definition reads :: "(token list \<Rightarrow> bool) \<Rightarrow> predicate \<Rightarrow> bool" where
  "reads val e \<longleftrightarrow> (\<forall>rest p q st.
     (\<exists>p' q'. read_tokens val (predicate_tokens e False @ rest) ((p, True) # st) = read_tokens val rest ((p', q') # st) \<and>
        (p' \<or> q') = (p \<or> holds val e)) \<and>
     (\<not> is_disj e \<longrightarrow>
        read_tokens val (predicate_tokens e False @ rest) ((p, q) # st) = read_tokens val rest ((p, q \<and> holds val e) # st)))"

lemma reads_direct:
  assumes "\<not> is_disj e"
    and "\<And>rest p q st. read_tokens val (predicate_tokens e False @ rest) ((p, q) # st) = read_tokens val rest ((p, q \<and> holds val e) # st)"
  shows "reads val e"
  unfolding reads_def using assms(2)[of _ _ True] assms(2) by auto

lemma tokens_paren: "predicate_tokens e True = simple_token ''('' ''OpenParen'' # predicate_tokens e False @ [simple_token '')'' ''CloseParen'']"
  by (cases e) simp_all

lemma reads_child:
  assumes "reads val e"
  shows "read_tokens val (predicate_tokens e (is_disj e) @ rest) ((p, q) # st) = read_tokens val rest ((p, q \<and> holds val e) # st)"
proof (cases "is_disj e")
  case True
  obtain p' q' where
    "read_tokens val (predicate_tokens e False @ simple_token '')'' ''CloseParen'' # rest) ((False, True) # (p, q) # st) =
       read_tokens val (simple_token '')'' ''CloseParen'' # rest) ((p', q') # (p, q) # st)" "(p' \<or> q') = holds val e"
    using assms unfolding reads_def by (metis (no_types, lifting))
  then show ?thesis using True by (simp add: tokens_paren)
next
  case False
  then show ?thesis using assms unfolding reads_def by simp
qed

lemma read_predicate: "predicate_ok e \<Longrightarrow> reads val e"
proof (induction e)
  case (Compare ob p operator l)
  obtain pn pt where p: "p = (pn, pt)" by (cases p)
  obtain lt ls lv where l: "l = (lt, ls, lv)" by (cases l)
  show ?case
    by (rule reads_direct) (simp_all add: p l is_disj_def)
next
  case (Conj operator x y)
  then have "reads val x" "reads val y" "toLowerCase operator = ''and''" by simp_all
  then show ?case
    by (intro reads_direct) (simp_all add: is_disj_def[of "Conj _ _ _"] reads_child conj_assoc)
next
  case (Disj operator x y)
  then have x: "reads val x" and y: "reads val y" and "toLowerCase operator = ''or''" by simp_all
  have "\<exists>p' q'. read_tokens val (predicate_tokens (Disj operator x y) False @ rest) ((p, True) # st) =
      read_tokens val rest ((p', q') # st) \<and> (p' \<or> q') = (p \<or> holds val x \<or> holds val y)" for rest p st
  proof -
    obtain p1 q1 where 1: "read_tokens val (predicate_tokens x False @ simple_token operator ''Operator'' # predicate_tokens y False @ rest) ((p, True) # st) =
        read_tokens val (simple_token operator ''Operator'' # predicate_tokens y False @ rest) ((p1, q1) # st)" "(p1 \<or> q1) = (p \<or> holds val x)"
      using x unfolding reads_def by (metis (no_types, lifting))
    obtain p2 q2 where 2: "read_tokens val (predicate_tokens y False @ rest) ((p1 \<or> q1, True) # st) = read_tokens val rest ((p2, q2) # st)"
        "(p2 \<or> q2) = ((p1 \<or> q1) \<or> holds val y)"
      using y unfolding reads_def by (metis (no_types, lifting))
    have "read_tokens val (predicate_tokens (Disj operator x y) False @ rest) ((p, True) # st) = read_tokens val rest ((p2, q2) # st)"
      using 1(1) 2(1) \<open>toLowerCase operator = ''or''\<close> by simp
    then show ?thesis using 1(2) 2(2) by blast
  qed
  then show ?case unfolding reads_def by (simp add: is_disj_def)
qed


definition sample_compare :: "string \<Rightarrow> flux_value \<Rightarrow> predicate" where
  "sample_compare n v = Compare (Some ''r'', ''Identifier'') (n, ''Identifier'') ''=='' (''StringLiteral'', ''lit'', v)"


text \<open>
  A literal that is falsy, such as false, is left out of the tokens: the comparison loses its right side.
\<close>

lemma falsy_literal_is_lost:
  "inOrderExpression (Some (predicate_node (sample_compare ''a'' (FBool False)))) =
     Inr (butlast (compare_tokens (sample_compare ''a'' (FBool False))))"
  by (simp add: inOrderExpression_def sample_compare_def hasParen_def toLowerCase_def lower_char_def truthy_def)

text \<open>A statement that is neither a call nor an identifier cannot be walked.\<close>

lemma walk_literal:
  "n_call e = None \<Longrightarrow> n_callee e = None \<Longrightarrow> n_type e \<noteq> ''Identifier'' \<Longrightarrow> expression (Some e) source = Inl TypeError"
  by (cases e) (simp add: expression_def)

end
