(* ===== verification/Flux_Builder.thy ===== *)
theory Flux_Builder
  imports Flux_Ast Store_Prelude
begin

text \<open>
  The builder of Flux scripts (\<open>ui/src/flux/containers/FluxPage.tsx\<close>): writing a script from the statements and
  functions on the page, and every change of it, which is a new script that the server reads again. The script
  is in the store (\<open>ui/src/flux/reducers/script.ts\<close>). The answers of the server are arguments.
\<close>

definition NL :: string where "NL = [CHR 0x0A]"
definition pipe_separator :: string where "pipe_separator = [CHR 0x0A, CHR 0x09] @ ''|> ''"

definition NEW_FROM :: string where
  "NEW_FROM = ''from(db: '' @ [CHR 0x22] @ ''pick a db'' @ [CHR 0x22] @ '')'' @ pipe_separator @
     ''filter(fn: (r) => r.tag == '' @ [CHR 0x22] @ ''value'' @ [CHR 0x22] @ '')'' @ pipe_separator @ ''range(start: -1m)''"

definition NEW_JOIN :: string where
  "NEW_JOIN = ''join(tables:{fil:fil, tele:tele}, on:['' @ [CHR 0x22] @ ''host'' @ [CHR 0x22] @ ''], fn:(tables) => tables.fil['' @
     [CHR 0x22] @ ''_value'' @ [CHR 0x22] @ ''] + tables.tele['' @ [CHR 0x22] @ ''_value'' @ [CHR 0x22] @ ''])''"

definition ARG_STRING :: string where "ARG_STRING = ''string''"
definition ARG_ARRAY :: string where "ARG_ARRAY = ''array''"
definition ARG_OBJECT :: string where "ARG_OBJECT = ''object''"

section \<open>Writing a script\<close>

definition quote :: "string \<Rightarrow> string" where
  "quote s = [CHR 0x22] @ s @ [CHR 0x22]"

fun value_str :: "flux_value \<Rightarrow> string" where
  \<comment> \<open>\<open>${value}\<close>; an array joins its elements, in which undefined is empty\<close>
  "value_str (FStr s) = s"
| "value_str (FBool b) = (if b then ''true'' else ''false'')"
| "value_str (FNum n) = int_str n"
| "value_str (FList vs) = js_join '','' (map (\<lambda>v. if v = FUndef then [] else value_str v) vs)"
| "value_str (FObj ob) = ''[object Object]''"
| "value_str FUndef = ''undefined''"

definition object_entries :: "flux_value \<Rightarrow> (string \<times> string) list" where
  \<comment> \<open>what \<open>_.map(value, (v, k) => ...)\<close> visits\<close>
  "object_entries v =
     (case v of
        FObj ob \<Rightarrow> map (\<lambda>(k, x). (k, opt_str x)) (obj_entries ob)
      | FStr s \<Rightarrow> map (\<lambda>(i, c). (nat_str i, [c])) (enumerate 0 s)
      | FList vs \<Rightarrow> map (\<lambda>(i, x). (nat_str i, value_str x)) (enumerate 0 vs)
      | _ \<Rightarrow> [])"

definition argsToScript :: "arg list \<Rightarrow> string" where
  "argsToScript args =
     (let withValues = filter (\<lambda>a. truthy (ar_value a) \<or> ar_value a = FBool False) args
      in js_join '', '' (map (\<lambda>a.
           ar_key a @ '': '' @
           (if ar_type a = Some ARG_STRING then quote (value_str (ar_value a))
            else if ar_type a = Some ARG_ARRAY then ''['' @ quote (value_str (ar_value a)) @ '']''
            else if ar_type a = Some ARG_OBJECT
            then ''{'' @ js_join '','' (map (\<lambda>(k, v). k @ '':'' @ v) (object_entries (ar_value a))) @ ''}''
            else value_str (ar_value a))) withValues))"

definition funcsToScript :: "flux_func list \<Rightarrow> string" where
  "funcsToScript funcs = js_join pipe_separator (map (\<lambda>f. fn_name f @ ''('' @ argsToScript (fn_args f) @ '')'') funcs)"

definition body_script :: "body \<Rightarrow> string result" where
  \<comment> \<open>what the callback of \<open>getBodyToScript\<close> adds\<close>
  "body_script b =
     (case bd_declarations b of
        d # _ \<Rightarrow>
          (case fd_funcs d of
             None \<Rightarrow> Inr (bd_source b)
           | Some fs \<Rightarrow> Inr (fd_name d @ '' = '' @ funcsToScript fs @ NL @ NL))
      | [] \<Rightarrow> map_res (\<lambda>fs. funcsToScript fs @ NL @ NL) (deref (bd_funcs b)))"

definition getBodyToScript :: "body list \<Rightarrow> string result" where
  "getBodyToScript bodies = map_res concat (map_r body_script bodies)"

definition formatSource :: "string \<Rightarrow> string" where
  "formatSource source = (if js_includes source (NL @ NL) then source else source @ NL @ NL)"

definition formatLastSource :: "string \<Rightarrow> bool \<Rightarrow> string" where
  "formatLastSource source isLast = (if isLast then source else source @ NL @ NL)"

definition funcsToSource :: "flux_func list \<Rightarrow> string" where
  "funcsToSource funcs =
     (case funcs of [] \<Rightarrow> [] | f # fs \<Rightarrow> foldl (\<lambda>acc g. acc @ NL @ [CHR 0x09] @ fn_source g) (fn_source f) fs)"

section \<open>Changing an argument\<close>

definition editFuncArgs :: "flux_func list \<Rightarrow> string \<Rightarrow> string \<Rightarrow> flux_value \<Rightarrow> flux_func list" where
  "editFuncArgs funcs funcID key val =
     map (\<lambda>f. if fn_id f \<noteq> funcID then f
       else f\<lparr>fn_args := map (\<lambda>a. if ar_key a = key then a\<lparr>ar_value := val\<rparr> else a) (fn_args f)\<rparr>) funcs"

definition handleChangeArg :: "string \<Rightarrow> flux_value \<Rightarrow> string \<Rightarrow> string \<Rightarrow> string \<Rightarrow> body list \<Rightarrow> body list result" where
  "handleChangeArg key val funcID declarationID bodyID bodies =
     map_r (\<lambda>b.
       if bd_id b \<noteq> bodyID then Inr b
       else if declarationID \<noteq> []
       then map_res (\<lambda>ds. b\<lparr>bd_declarations := ds\<rparr>) (map_r (\<lambda>d.
              if fd_id d \<noteq> declarationID then Inr d
              else map_res (\<lambda>fs. d\<lparr>fd_funcs := Some (editFuncArgs fs funcID key val)\<rparr>) (deref (fd_funcs d))) (bd_declarations b))
       else map_res (\<lambda>fs. b\<lparr>bd_funcs := Some (editFuncArgs fs funcID key val)\<rparr>) (deref (bd_funcs b))) bodies"

section \<open>Adding and deleting\<close>

definition handleAppendFrom :: "string \<Rightarrow> string" where
  \<comment> \<open>the script that is sent\<close>
  "handleAppendFrom script =
     (if js_trim script = [] then NEW_FROM else js_trim script @ NL @ NL @ NEW_FROM @ NL @ NL)"

definition handleAppendJoin :: "string \<Rightarrow> string" where
  "handleAppendJoin script = js_trim script @ NL @ NL @ NEW_JOIN @ NL @ NL"

definition appendFunc :: "flux_func list option \<Rightarrow> string \<Rightarrow> string result" where
  "appendFunc funcs name = map_res (\<lambda>fs. funcsToScript fs @ pipe_separator @ name @ ''()'' @ NL @ NL) (deref funcs)"

definition edit_script :: "string \<Rightarrow> string \<Rightarrow> (flux_func list option \<Rightarrow> string result) \<Rightarrow> body list \<Rightarrow> string result" where
  \<comment> \<open>the \<open>reduce\<close> of \<open>handleAddNode\<close> and \<open>handleToggleYield\<close>, from what is written for the functions\<close>
  "edit_script bodyID declarationID write bodies =
     map_res concat (map_r (\<lambda>b.
       if bd_id b = bodyID
       then (case List.find (\<lambda>d. fd_id d = declarationID) (bd_declarations b) of
               Some d \<Rightarrow> map_res (\<lambda>s. fd_name d @ '' = '' @ s) (write (fd_funcs d))
             | None \<Rightarrow> write (bd_funcs b))
       else Inr (formatSource (bd_source b))) bodies)"

definition handleAddNode :: "string \<Rightarrow> string \<Rightarrow> string \<Rightarrow> body list \<Rightarrow> string result" where
  "handleAddNode name bodyID declarationID bodies = edit_script bodyID declarationID (\<lambda>fs. appendFunc fs name) bodies"

definition handleDeleteBody :: "string \<Rightarrow> body list \<Rightarrow> string result" where
  "handleDeleteBody bodyID bodies = getBodyToScript (filter (\<lambda>b. bd_id b \<noteq> bodyID) bodies)"

definition handleDeleteFuncNode :: "string \<Rightarrow> string \<Rightarrow> string \<Rightarrow> string \<Rightarrow> body list \<Rightarrow> string result" where
  \<comment> \<open>\<open>join\<close> writes nothing for the undefined of a declaration that is not there\<close>
  "handleDeleteFuncNode funcID declarationID bodyID yieldNodeID bodies =
     map_res concat (map_r (\<lambda>(i, b).
       let keep = filter (\<lambda>f. fn_id f \<noteq> funcID \<and> fn_id f \<noteq> yieldNodeID);
           isLast = (i = length bodies - 1)
       in if bd_id b \<noteq> bodyID then Inr (formatSource (bd_source b))
          else if declarationID \<noteq> []
          then (case List.find (\<lambda>d. fd_id d = declarationID) (bd_declarations b) of
                  None \<Rightarrow> Inr []
                | Some d \<Rightarrow> map_res (\<lambda>fs. fd_name d @ '' = '' @ formatLastSource (funcsToSource (keep fs)) isLast) (deref (fd_funcs d)))
          else map_res (\<lambda>fs. formatLastSource (funcsToSource (keep fs)) isLast) (deref (bd_funcs b))) (enumerate 0 bodies))"

section \<open>Yields\<close>

fun yield_number :: "string \<Rightarrow> nat option" where
  \<comment> \<open>the number after the first match of \<open>results_(\d+)\<close>\<close>
  "yield_number [] = None"
| "yield_number (c # cs) =
     (if prefix ''results_'' (c # cs) \<and> takeWhile is_digit (drop 8 (c # cs)) \<noteq> []
      then Some (str_nat (takeWhile is_digit (drop 8 (c # cs)))) else yield_number cs)"

definition body_funcs :: "body \<Rightarrow> flux_func list result" where
  \<comment> \<open>all functions of a statement\<close>
  "body_funcs b =
     (if bd_declarations b \<noteq> []
      then Inr (concat (map (\<lambda>d. case fd_funcs d of None \<Rightarrow> [] | Some fs \<Rightarrow> fs) (bd_declarations b)))
      else deref (bd_funcs b))"

definition yield_max :: "int \<Rightarrow> flux_func \<Rightarrow> int result" where
  \<comment> \<open>the reducer over the yields; the first argument of a yield is its name\<close>
  "yield_max m y =
     (case fn_args y of
        [] \<Rightarrow> Inr m
      | a # _ \<Rightarrow>
          if \<not> truthy (ar_value a) then Inr m
          else (case ar_value a of
                  FStr s \<Rightarrow> Inr (max (case yield_number s of None \<Rightarrow> -1 | Some n \<Rightarrow> int n) m)
                | _ \<Rightarrow> Inl TypeError))"

fun fold_res :: "('b \<Rightarrow> 'a \<Rightarrow> 'b result) \<Rightarrow> 'b \<Rightarrow> 'a list \<Rightarrow> 'b result" where
  "fold_res f acc [] = Inr acc"
| "fold_res f acc (x # xs) = bind_r (f acc x) (\<lambda>acc'. fold_res f acc' xs)"

definition getNextYieldName :: "body list \<Rightarrow> string result" where
  "getNextYieldName bodies =
     map_res (\<lambda>m. ''results_'' @ int_str (m + 1))
       (fold_res (\<lambda>scriptMax b. bind_r (body_funcs b) (\<lambda>funcs.
            map_res (\<lambda>bodyMax. max scriptMax bodyMax)
              (fold_res yield_max scriptMax (filter (\<lambda>f. fn_name f = ''yield'') funcs)))) (-1) bodies)"

definition removeYieldFunc :: "flux_func list \<Rightarrow> flux_func \<Rightarrow> string" where
  "removeYieldFunc funcs funcAfterNode = funcsToScript (filter (\<lambda>f. fn_id f \<noteq> fn_id funcAfterNode) funcs) @ NL @ NL"

definition insertYieldFunc :: "body list \<Rightarrow> flux_func list \<Rightarrow> nat \<Rightarrow> string result" where
  "insertYieldFunc bodies funcs index =
     map_res (\<lambda>name.
         let funcsBeforeScript = funcsToScript (take (index + 1) funcs);
             funcsAfterScript = funcsToScript (drop (index + 1) funcs);
             yieldScript = ''yield(name: '' @ quote name @ '')''
         in if funcsAfterScript \<noteq> []
            then funcsBeforeScript @ pipe_separator @ yieldScript @ pipe_separator @ funcsAfterScript @ NL @ NL
            else funcsBeforeScript @ pipe_separator @ yieldScript @ NL @ NL)
       (getNextYieldName bodies)"

definition addOrRemoveYieldFunc :: "body list \<Rightarrow> nat \<Rightarrow> flux_func list option \<Rightarrow> string result" where
  "addOrRemoveYieldFunc bodies funcNodeIndex funcs =
     bind_r (deref funcs) (\<lambda>funcs.
       if funcNodeIndex + 1 < length funcs \<and> fn_name (funcs ! (funcNodeIndex + 1)) = ''yield''
       then Inr (removeYieldFunc funcs (funcs ! (funcNodeIndex + 1)))
       else insertYieldFunc bodies funcs funcNodeIndex)"

definition handleToggleYield :: "string \<Rightarrow> string \<Rightarrow> nat \<Rightarrow> body list \<Rightarrow> string result" where
  "handleToggleYield bodyID declarationID funcNodeIndex bodies =
     edit_script bodyID declarationID (addOrRemoveYieldFunc bodies funcNodeIndex) bodies"

definition getFuncs :: "body \<Rightarrow> string option \<Rightarrow> flux_func list" where
  "getFuncs b declarationID =
     (case List.find (\<lambda>d. Some (fd_id d) = declarationID) (bd_declarations b) of
        Some d \<Rightarrow> (case fd_funcs d of None \<Rightarrow> [] | Some fs \<Rightarrow> fs)
      | None \<Rightarrow> (case bd_funcs b of None \<Rightarrow> [] | Some fs \<Rightarrow> fs))"

definition without_yields :: "flux_func list \<Rightarrow> flux_func list" where
  "without_yields funcs = filter (\<lambda>f. fn_name f \<noteq> ''yield'') funcs"

definition removeYieldFuncFromBody :: "body \<Rightarrow> body" where
  "removeYieldFuncFromBody b =
     (let declarationID = (case bd_declarations b of [] \<Rightarrow> None | d # _ \<Rightarrow> Some (fd_id d));
          funcs = getFuncs b declarationID
      in if funcs = [] then b
         else case bd_declarations b of
                d # _ \<Rightarrow> if fd_id d \<noteq> [] then b\<lparr>bd_declarations := [d\<lparr>fd_funcs := Some (without_yields funcs)\<rparr>]\<rparr>
                          else b\<lparr>bd_funcs := Some (without_yields funcs)\<rparr>
              | [] \<Rightarrow> b\<lparr>bd_funcs := Some (without_yields funcs)\<rparr>)"

definition nameless :: flux_decl where
  \<comment> \<open>\<open>{...undefined}\<close>, whose name is written \<open>undefined\<close>\<close>
  "nameless = \<lparr>fd_name = ''undefined'', fd_type = [], fd_value = FUndef, fd_source = None, fd_funcs = None, fd_params = [],
     fd_body = [], fd_id = []\<rparr>"

definition prepBodyForYield :: "body \<Rightarrow> string \<Rightarrow> nat \<Rightarrow> body result" where
  "prepBodyForYield b declarationID yieldNodeIndex =
     (let funcs = getFuncs b (Some declarationID)
      in map_res (\<lambda>yieldNode.
           let funcsForBody = without_yields (take yieldNodeIndex funcs) @ [yieldNode]
           in if declarationID \<noteq> []
              then (let d = (case List.find (\<lambda>d. fd_id d = declarationID) (bd_declarations b) of None \<Rightarrow> nameless | Some d \<Rightarrow> d)
                    in b\<lparr>bd_declarations := [d\<lparr>fd_funcs := Some funcsForBody\<rparr>]\<rparr>)
              else b\<lparr>bd_funcs := Some funcsForBody\<rparr>)
         (deref (if yieldNodeIndex < length funcs then Some (funcs ! yieldNodeIndex) else None)))"

definition with_last_yield :: "string \<Rightarrow> string" where
  \<comment> \<open>\<open>script.replace(/\n{2}$/, '\n\t|> last()\n\t|> yield()$&')\<close>\<close>
  "with_last_yield script =
     (if suffix (NL @ NL) script
      then take (length script - 2) script @ pipe_separator @ ''last()'' @ pipe_separator @ ''yield()'' @ NL @ NL
      else script)"

definition script_bodies :: "string \<Rightarrow> string \<Rightarrow> nat \<Rightarrow> body list \<Rightarrow> body list result" where
  \<comment> \<open>\<open>bodiesForScript\<close>\<close>
  "script_bodies bodyID declarationID funcNodeIndex bodies =
     bind_r (deref (find_index (\<lambda>b. bd_id b = bodyID) bodies)) (\<lambda>bodyIndex.
       map_res (\<lambda>b. map removeYieldFuncFromBody (take bodyIndex bodies) @ [b])
         (prepBodyForYield (bodies ! bodyIndex) declarationID funcNodeIndex))"

definition handleScriptUpToYield :: "string \<Rightarrow> string \<Rightarrow> nat \<Rightarrow> bool \<Rightarrow> body list \<Rightarrow> string result" where
  "handleScriptUpToYield bodyID declarationID funcNodeIndex isYieldable bodies =
     bind_r (script_bodies bodyID declarationID funcNodeIndex bodies) (\<lambda>bs.
       map_res (\<lambda>script. if isYieldable then script else with_last_yield script) (getBodyToScript bs))"

section \<open>The page\<close>

record flux_status =
  fs_type :: string
  fs_text :: string

record 'd flux_page =
  fp_body :: "body list"
  fp_status :: flux_status
  fp_suggestions :: "suggestion list"
  fp_data :: "'d list"
  fp_script :: string \<comment> \<open>in the store\<close>

definition initial_page :: "string \<Rightarrow> 'd flux_page" where
  "initial_page script = \<lparr>fp_body = [], fp_status = \<lparr>fs_type = ''none'', fs_text = []\<rparr>, fp_suggestions = [], fp_data = [], fp_script = script\<rparr>"

definition scriptReducer :: "string \<Rightarrow> string \<Rightarrow> string" where
  \<comment> \<open>of the action UPDATE_SCRIPT with a script\<close>
  "scriptReducer st script = script"

definition parseError :: "(string \<Rightarrow> string option) \<Rightarrow> string option \<Rightarrow> flux_status result" where
  \<comment> \<open>of the data of an answer; \<open>parse\<close> gives the message of a JSON text. An exception of the page has no data\<close>
  "parseError parse dat =
     bind_r (deref dat) (\<lambda>s.
       map_res (\<lambda>m. \<lparr>fs_type = ''error'', fs_text = m\<rparr>) (deref (parse (take (length s - 5) s))))"

definition parse_failed :: "(string \<Rightarrow> string option) \<Rightarrow> 'd flux_page \<Rightarrow> string option \<Rightarrow> 'd flux_page \<times> bool" where
  \<comment> \<open>the catch of the handlers: the next state, and whether the promise is rejected\<close>
  "parse_failed parse st dat =
     (case parseError parse dat of Inl e \<Rightarrow> (st, True) | Inr s \<Rightarrow> (st\<lparr>fp_status := s\<rparr>, False))"

definition getASTResponse ::
    "(nat list \<Rightarrow> string) \<Rightarrow> (string \<Rightarrow> string option) \<Rightarrow> (string option + statement list) \<Rightarrow> string \<Rightarrow> bool \<Rightarrow>
     'd flux_page \<Rightarrow> 'd flux_page \<times> bool" where
  \<comment> \<open>for the answer to \<open>getAST\<close>\<close>
  "getASTResponse uid parse ans script update st =
     (if script = [] then (st\<lparr>fp_script := scriptReducer (fp_script st) script, fp_body := []\<rparr>, False)
      else case ans of
             Inl dat \<Rightarrow> parse_failed parse st dat
           | Inr ast \<Rightarrow>
               let st' = (if update then st\<lparr>fp_script := scriptReducer (fp_script st) script\<rparr> else st)
               in (case bodyNodes uid ast (fp_suggestions st') of
                     Inl e \<Rightarrow> parse_failed parse st' None
                   | Inr bodies \<Rightarrow> (st'\<lparr>fp_body := bodies, fp_status := \<lparr>fs_type = ''success'', fs_text = []\<rparr>\<rparr>, False)))"

definition handleValidate ::
    "(nat list \<Rightarrow> string) \<Rightarrow> (string \<Rightarrow> string option) \<Rightarrow> (string option + statement list) \<Rightarrow> 'd flux_page \<Rightarrow> 'd flux_page \<times> bool" where
  "handleValidate uid parse ans st =
     (case ans of
        Inl dat \<Rightarrow> parse_failed parse st dat
      | Inr ast \<Rightarrow>
          (case bodyNodes uid ast (fp_suggestions st) of
             Inl e \<Rightarrow> parse_failed parse st None
           | Inr bodies \<Rightarrow> (st\<lparr>fp_body := bodies, fp_status := \<lparr>fs_type = ''success'', fs_text = []\<rparr>\<rparr>, False)))"

definition getTimeSeries ::
    "(nat list \<Rightarrow> string) \<Rightarrow> (string \<Rightarrow> string option) \<Rightarrow> (string option + statement list) \<Rightarrow> 'd list option \<Rightarrow>
     (string option + statement list) \<Rightarrow> 'd flux_page \<Rightarrow> 'd flux_page \<times> bool" where
  \<comment> \<open>for the answers to the check, the query (whose failure is \<open>None\<close>) and the last reading of the script\<close>
  "getTimeSeries uid parse ans tables ans' st =
     (if fp_script st = [] then (st, False)
      else case ans of
             Inl dat \<Rightarrow> parse_failed parse st dat
           | Inr ast \<Rightarrow>
               getASTResponse uid parse ans' (fp_script st) True
                 (st\<lparr>fp_data := (case tables of None \<Rightarrow> [] | Some ts \<Rightarrow> ts)\<rparr>))"

section \<open>Fresh names for yields\<close>

definition yield_arg :: "flux_func \<Rightarrow> flux_value option" where
  "yield_arg f = (if fn_name f = ''yield'' then map_option ar_value (case fn_args f of [] \<Rightarrow> None | a # _ \<Rightarrow> Some a) else None)"

definition readable :: "body \<Rightarrow> bool" where
  \<comment> \<open>it has functions, and the names of its yields are texts or missing\<close>
  "readable b \<longleftrightarrow> (bd_declarations b \<noteq> [] \<or> bd_funcs b \<noteq> None) \<and>
     (\<forall>fs. body_funcs b = Inr fs \<longrightarrow> (\<forall>f\<in>set fs. \<forall>v. yield_arg f = Some v \<longrightarrow> truthy v \<longrightarrow> (\<exists>s. v = FStr s)))"

lemma yield_number_name: "yield_number (''results_'' @ nat_str k) = Some k"
proof -
  have digits: "takeWhile is_digit (nat_str k) = nat_str k"
    using nat_str_digits[of k] unfolding takeWhile_eq_all_conv by (simp add: list_all_iff)
  show ?thesis by (simp add: digits str_nat_nat_str)
qed

definition numbered_below :: "int \<Rightarrow> flux_func \<Rightarrow> bool" where
  "numbered_below m f \<longleftrightarrow> (\<forall>s n. yield_arg f = Some (FStr s) \<longrightarrow> yield_number s = Some n \<longrightarrow> int n \<le> m)"

lemma numbered_mono: "numbered_below m f \<Longrightarrow> m \<le> m' \<Longrightarrow> numbered_below m' f"
  unfolding numbered_below_def by (meson order_trans)

lemma yield_max_result:
  assumes "fn_name f = ''yield''" and "\<forall>v. yield_arg f = Some v \<longrightarrow> truthy v \<longrightarrow> (\<exists>s. v = FStr s)"
  shows "\<exists>m'. yield_max m f = Inr m' \<and> m \<le> m' \<and> numbered_below m' f"
proof (cases "fn_args f")
  case Nil
  then show ?thesis by (simp add: yield_max_def numbered_below_def yield_arg_def)
next
  case (Cons a as)
  then have v: "yield_arg f = Some (ar_value a)" using assms(1) by (simp add: yield_arg_def)
  show ?thesis
  proof (cases "truthy (ar_value a)")
    case True
    then obtain s where s: "ar_value a = FStr s" using assms(2) v by blast
    then show ?thesis using Cons True v by (auto simp: yield_max_def numbered_below_def split: option.split)
  next
    case False
    then have "ar_value a = FStr s \<Longrightarrow> s = []" for s by (simp add: truthy_def)
    then show ?thesis using Cons False v by (auto simp: yield_max_def numbered_below_def)
  qed
qed

lemma yield_fold_result:
  assumes "\<forall>f\<in>set fs. fn_name f = ''yield'' \<and> (\<forall>v. yield_arg f = Some v \<longrightarrow> truthy v \<longrightarrow> (\<exists>s. v = FStr s))"
  shows "\<exists>m'. fold_res yield_max m fs = Inr m' \<and> m \<le> m' \<and> (\<forall>f\<in>set fs. numbered_below m' f)"
  using assms
proof (induction fs arbitrary: m)
  case (Cons f fs)
  obtain m1 where 1: "yield_max m f = Inr m1" "m \<le> m1" "numbered_below m1 f"
    using yield_max_result[of f m] Cons.prems by auto
  obtain m2 where "fold_res yield_max m1 fs = Inr m2" "m1 \<le> m2" "\<forall>f\<in>set fs. numbered_below m2 f"
    using Cons by (meson list.set_intros(2))
  then show ?case using 1 numbered_mono[of m1 f m2] by auto
qed simp

lemma bodies_fold_result:
  assumes "\<forall>b\<in>set bodies. readable b"
  shows "\<exists>m'. fold_res (\<lambda>scriptMax b. bind_r (body_funcs b) (\<lambda>funcs. map_res (\<lambda>bodyMax. max scriptMax bodyMax)
        (fold_res yield_max scriptMax (filter (\<lambda>f. fn_name f = ''yield'') funcs)))) m bodies = Inr m' \<and> m \<le> m' \<and>
      (\<forall>b\<in>set bodies. \<forall>fs. body_funcs b = Inr fs \<longrightarrow> (\<forall>f\<in>set fs. numbered_below m' f))"
  using assms
proof (induction bodies arbitrary: m)
  case (Cons b bodies)
  have "readable b" using Cons.prems by simp
  then obtain fs where fs: "body_funcs b = Inr fs"
    by (cases "bd_declarations b = []"; cases "bd_funcs b") (auto simp: body_funcs_def readable_def)
  have "\<forall>f\<in>set fs. \<forall>v. yield_arg f = Some v \<longrightarrow> truthy v \<longrightarrow> (\<exists>s. v = FStr s)"
    using \<open>readable b\<close> fs by (simp add: readable_def)
  then obtain m1 where 1: "fold_res yield_max m (filter (\<lambda>f. fn_name f = ''yield'') fs) = Inr m1" "m \<le> m1"
      "\<forall>f\<in>set (filter (\<lambda>f. fn_name f = ''yield'') fs). numbered_below m1 f"
    using yield_fold_result[of "filter (\<lambda>f. fn_name f = ''yield'') fs" m] by auto
  have other: "numbered_below k f" if "fn_name f \<noteq> ''yield''" for k f using that by (simp add: numbered_below_def yield_arg_def)
  obtain m2 where 2: "fold_res (\<lambda>scriptMax b. bind_r (body_funcs b) (\<lambda>funcs. map_res (\<lambda>bodyMax. max scriptMax bodyMax)
        (fold_res yield_max scriptMax (filter (\<lambda>f. fn_name f = ''yield'') funcs)))) m1 bodies = Inr m2" "m1 \<le> m2"
      "\<forall>b\<in>set bodies. \<forall>fs. body_funcs b = Inr fs \<longrightarrow> (\<forall>f\<in>set fs. numbered_below m2 f)"
    using Cons.IH[of m1] Cons.prems by auto
  have "numbered_below m2 f" if "f \<in> set fs" for f
    using 1(3) other[of f m2] numbered_mono[OF _ 2(2), of f] that by (cases "fn_name f = ''yield''") simp_all
  then show ?case using fs 1 2 by (auto simp: max_def)
qed simp

text \<open>
  A new yield gets a name of its own. When the names of the yields on the page are texts, the next name is found, and no yield on the
  page has it, so that its result is not taken for another.
\<close>

theorem yield_name_fresh:
  assumes "\<forall>b\<in>set bodies. readable b"
  shows "\<exists>n. getNextYieldName bodies = Inr n \<and>
    (\<forall>b\<in>set bodies. \<forall>fs. body_funcs b = Inr fs \<longrightarrow> (\<forall>f\<in>set fs. yield_arg f \<noteq> Some (FStr n)))"
proof -
  obtain m where m: "fold_res (\<lambda>scriptMax b. bind_r (body_funcs b) (\<lambda>funcs. map_res (\<lambda>bodyMax. max scriptMax bodyMax)
        (fold_res yield_max scriptMax (filter (\<lambda>f. fn_name f = ''yield'') funcs)))) (-1) bodies = Inr m" "-1 \<le> m"
      "\<forall>b\<in>set bodies. \<forall>fs. body_funcs b = Inr fs \<longrightarrow> (\<forall>f\<in>set fs. numbered_below m f)"
    using bodies_fold_result[OF assms] by blast
  define n where "n = ''results_'' @ int_str (m + 1)"
  have "n = ''results_'' @ nat_str (nat (m + 1))" using m(2) by (simp add: n_def int_str_def)
  then have "yield_number n = Some (nat (m + 1))" using yield_number_name by simp
  then have "\<not> (yield_arg f = Some (FStr n) \<and> numbered_below m f)" for f
    using m(2) by (auto simp: numbered_below_def)
  then show ?thesis using m(1,3) unfolding getNextYieldName_def n_def by auto
qed

definition sample_func :: "string \<Rightarrow> string \<Rightarrow> flux_func" where
  "sample_func n i = \<lparr>fn_name = n, fn_args = [\<lparr>ar_key = ''name'', ar_value = FStr ''results_4'', ar_type = Some ''string''\<rparr>],
     fn_source = n, fn_id = i\<rparr>"

definition sample_body :: "string \<Rightarrow> flux_func list \<Rightarrow> body" where
  "sample_body i fs = \<lparr>bd_id = i, bd_type = ''PipeExpression'', bd_source = i, bd_funcs = Some fs, bd_declarations = []\<rparr>"

lemma yield_name_fresh_witness:
  "\<exists>n. getNextYieldName [sample_body ''b'' [sample_func ''from'' ''1'', sample_func ''yield'' ''2'']] = Inr n \<and>
    (\<forall>b\<in>set [sample_body ''b'' [sample_func ''from'' ''1'', sample_func ''yield'' ''2'']]. \<forall>fs. body_funcs b = Inr fs \<longrightarrow>
       (\<forall>f\<in>set fs. yield_arg f \<noteq> Some (FStr n)))"
  by (rule yield_name_fresh) (simp add: readable_def sample_body_def sample_func_def body_funcs_def yield_arg_def)

section \<open>Toggling a yield\<close>

definition yield_node :: "string \<Rightarrow> flux_func" where
  "yield_node n = \<lparr>fn_name = ''yield'', fn_args = [\<lparr>ar_key = ''name'', ar_value = FStr n, ar_type = Some ARG_STRING\<rparr>],
     fn_source = [], fn_id = []\<rparr>"

lemma js_join_append: "xs \<noteq> [] \<Longrightarrow> ys \<noteq> [] \<Longrightarrow> js_join sep (xs @ ys) = js_join sep xs @ sep @ js_join sep ys"
proof (induction xs)
  case (Cons x xs)
  then show ?case by (cases xs) (simp_all add: js_join_Cons)
qed simp

lemma funcs_script_append: "fs \<noteq> [] \<Longrightarrow> gs \<noteq> [] \<Longrightarrow> funcsToScript (fs @ gs) = funcsToScript fs @ pipe_separator @ funcsToScript gs"
  by (simp add: funcsToScript_def js_join_append)

lemma funcs_script_empty: "funcsToScript fs = [] \<longleftrightarrow> fs = []"
proof (cases fs)
  case (Cons f gs)
  then show ?thesis by (cases gs) (simp_all add: funcsToScript_def)
qed (simp add: funcsToScript_def)

lemma yield_node_script: "n \<noteq> [] \<Longrightarrow> funcsToScript [yield_node n] = ''yield(name: '' @ quote n @ '')''"
  by (simp add: funcsToScript_def yield_node_def argsToScript_def truthy_def)

lemma next_name_not_empty: "getNextYieldName bodies = Inr n \<Longrightarrow> n \<noteq> []"
  by (auto simp: getNextYieldName_def map_res_Inr_iff)

lemma insert_yield_script:
  assumes "i < length funcs" and "getNextYieldName bodies = Inr n"
  shows "insertYieldFunc bodies funcs i = Inr (funcsToScript (take (i + 1) funcs @ yield_node n # drop (i + 1) funcs) @ NL @ NL)"
proof -
  have ne: "take (i + 1) funcs \<noteq> []" using assms(1) by auto
  have y: "funcsToScript [yield_node n] = ''yield(name: '' @ quote n @ '')''"
    using next_name_not_empty[OF assms(2)] by (rule yield_node_script)
  show ?thesis
  proof (cases "drop (i + 1) funcs = []")
    case True
    then show ?thesis
      using assms(2) funcs_script_append[OF ne, of "[yield_node n]"] y by (simp add: insertYieldFunc_def funcs_script_empty Let_def)
  next
    case False
    have "funcsToScript (yield_node n # drop (i + 1) funcs) = funcsToScript [yield_node n] @ pipe_separator @ funcsToScript (drop (i + 1) funcs)"
      using funcs_script_append[of "[yield_node n]" "drop (i + 1) funcs"] False by simp
    then show ?thesis
      using assms(2) funcs_script_append[OF ne, of "yield_node n # drop (i + 1) funcs"] False y
      by (simp add: insertYieldFunc_def funcs_script_empty Let_def)
  qed
qed

text \<open>
  Toggling a yield. Where no yield follows a function, the new script is the one of the functions with a yield of the next name put
  behind it; and where one follows, the new script is the one of the functions without it. So toggling twice, with the
  yield read back under an id of its own, writes the script of the functions as they were.
\<close>

theorem toggle_yield:
  assumes i: "i < length funcs" and "i + 1 < length funcs \<Longrightarrow> fn_name (funcs ! (i + 1)) \<noteq> ''yield''"
    and "\<forall>b\<in>set bodies. readable b" and y: "fn_name y = ''yield''" "fn_id y \<notin> fn_id ` set funcs"
  shows "(\<exists>n. getNextYieldName bodies = Inr n \<and>
      addOrRemoveYieldFunc bodies i (Some funcs) =
        Inr (funcsToScript (take (i + 1) funcs @ yield_node n # drop (i + 1) funcs) @ NL @ NL)) \<and>
    addOrRemoveYieldFunc bodies' i (Some (take (i + 1) funcs @ y # drop (i + 1) funcs)) = Inr (funcsToScript funcs @ NL @ NL)"
proof -
  obtain n where n: "getNextYieldName bodies = Inr n"
    using bodies_fold_result[OF assms(3), of "-1"] by (auto simp: getNextYieldName_def)
  then have "addOrRemoveYieldFunc bodies i (Some funcs) = Inr (funcsToScript (take (i + 1) funcs @ yield_node n # drop (i + 1) funcs) @ NL @ NL)"
    using assms(1,2) insert_yield_script[OF i n] by (auto simp: addOrRemoveYieldFunc_def)
  moreover have "addOrRemoveYieldFunc bodies' i (Some (take (i + 1) funcs @ y # drop (i + 1) funcs)) = Inr (funcsToScript funcs @ NL @ NL)"
  proof -
    let ?fs = "take (i + 1) funcs @ y # drop (i + 1) funcs"
    have ids: "fn_id f \<noteq> fn_id y" if "f \<in> set (take (i + 1) funcs) \<or> f \<in> set (drop (i + 1) funcs)" for f
      using that y(2) by (metis image_eqI in_set_dropD in_set_takeD)
    then have "filter (\<lambda>f. fn_id f \<noteq> fn_id y) (take (i + 1) funcs) = take (i + 1) funcs"
        "filter (\<lambda>f. fn_id f \<noteq> fn_id y) (drop (i + 1) funcs) = drop (i + 1) funcs"
      unfolding filter_id_conv by blast+
    then have rest: "filter (\<lambda>f. fn_id f \<noteq> fn_id y) ?fs = funcs"
      unfolding filter_append filter.simps by (simp only: simp_thms if_False append_take_drop_id)
    have at: "?fs ! (i + 1) = y" using i by (simp add: nth_append)
    have len: "i + 1 < length ?fs" using i by simp
    show ?thesis
      unfolding addOrRemoveYieldFunc_def removeYieldFunc_def deref_simps bind_r_simps at rest
      using len y(1) by (simp only: simp_thms if_True)
  qed
  ultimately show ?thesis using n by blast
qed

lemma toggle_yield_witness:
  "let funcs = [sample_func ''from'' ''1'', sample_func ''range'' ''2'']; bodies = [sample_body ''b'' funcs]
   in (\<exists>n. getNextYieldName bodies = Inr n \<and>
      addOrRemoveYieldFunc bodies 0 (Some funcs) = Inr (funcsToScript (take (0 + 1) funcs @ yield_node n # drop (0 + 1) funcs) @ NL @ NL)) \<and>
    addOrRemoveYieldFunc [] 0 (Some (take (0 + 1) funcs @ sample_func ''yield'' ''3'' # drop (0 + 1) funcs)) = Inr (funcsToScript funcs @ NL @ NL)"
  unfolding Let_def
  by (rule toggle_yield) (simp_all add: readable_def sample_body_def sample_func_def body_funcs_def yield_arg_def)

section \<open>The script up to a yield\<close>

definition written_funcs :: "body \<Rightarrow> flux_func list" where
  \<comment> \<open>the functions that \<open>getBodyToScript\<close> writes for a statement\<close>
  "written_funcs b =
     (case bd_declarations b of
        d # _ \<Rightarrow> (case fd_funcs d of None \<Rightarrow> [] | Some fs \<Rightarrow> fs)
      | [] \<Rightarrow> (case bd_funcs b of None \<Rightarrow> [] | Some fs \<Rightarrow> fs))"

definition with_decl_ids :: "body \<Rightarrow> bool" where
  "with_decl_ids b \<longleftrightarrow> (\<forall>d\<in>set (bd_declarations b). fd_id d \<noteq> [])"

lemma no_yields: "filter (\<lambda>f. fn_name f = ''yield'') (without_yields fs) = []"
  by (simp add: without_yields_def filter_empty_conv)

lemma removed_yields:
  assumes "with_decl_ids b"
  shows "written_funcs (removeYieldFuncFromBody b) = without_yields (written_funcs b)"
proof (cases "bd_declarations b")
  case Nil
  then show ?thesis
    by (auto simp: removeYieldFuncFromBody_def written_funcs_def getFuncs_def without_yields_def Let_def split: option.split)
next
  case (Cons d ds)
  then have "fd_id d \<noteq> []" using assms by (simp add: with_decl_ids_def)
  then show ?thesis
    using Cons
    by (auto simp: removeYieldFuncFromBody_def written_funcs_def getFuncs_def without_yields_def Let_def split: option.split)
qed

lemma prepared_yield:
  assumes "with_decl_ids b" and "declarationID = [] \<Longrightarrow> bd_declarations b = []" and "prepBodyForYield b declarationID k = Inr b'"
  shows "k < length (getFuncs b (Some declarationID)) \<and> bd_id b' = bd_id b \<and>
    written_funcs b' = without_yields (take k (getFuncs b (Some declarationID))) @ [getFuncs b (Some declarationID) ! k]"
  using assms(2,3)
  by (auto simp: prepBodyForYield_def written_funcs_def deref_def map_res_Inr_iff Let_def split: if_splits)

text \<open>
  The script that shows the result of one function yields once. It consists of the statements before, without their yields, and
  of the statement of the function up to it, without the yields in between; and when the
  function is no yield itself, the script ends by yielding its last rows. So of all the functions that the script writes only the very
  last can be a yield.
\<close>

theorem script_up_to_yield:
  assumes "\<forall>b\<in>set bodies. with_decl_ids b" and "script_bodies bodyID declarationID k bodies = Inr bs"
    and "\<forall>b\<in>set bodies. bd_id b = bodyID \<longrightarrow> declarationID = [] \<longrightarrow> bd_declarations b = []"
  shows "(\<exists>i b. find_index (\<lambda>b. bd_id b = bodyID) bodies = Some i \<and> length bs = i + 1 \<and> b = bodies ! i \<and>
      k < length (getFuncs b (Some declarationID)) \<and>
      concat (map written_funcs bs) =
        concat (map (\<lambda>b. without_yields (written_funcs b)) (take i bodies)) @
        without_yields (take k (getFuncs b (Some declarationID))) @ [getFuncs b (Some declarationID) ! k]) \<and>
    (\<forall>f\<in>set (butlast (concat (map written_funcs bs))). fn_name f \<noteq> ''yield'')"
proof -
  obtain i b' where i: "find_index (\<lambda>b. bd_id b = bodyID) bodies = Some i"
    and b': "prepBodyForYield (bodies ! i) declarationID k = Inr b'" and bs: "bs = map removeYieldFuncFromBody (take i bodies) @ [b']"
    using assms(2) by (auto simp: script_bodies_def bind_r_Inr_iff map_res_Inr_iff deref_Inr_iff)
  let ?b = "bodies ! i"
  have at: "i < length bodies" "bd_id ?b = bodyID" using find_index_Some[OF i] by simp_all
  then have "?b \<in> set bodies" by simp
  then have prep: "k < length (getFuncs ?b (Some declarationID))"
      "written_funcs b' = without_yields (take k (getFuncs ?b (Some declarationID))) @ [getFuncs ?b (Some declarationID) ! k]"
    using prepared_yield[OF _ _ b'] assms(1,3) at(2) by blast+
  have before: "map written_funcs (map removeYieldFuncFromBody (take i bodies)) = map (\<lambda>b. without_yields (written_funcs b)) (take i bodies)"
    using assms(1) removed_yields by (auto dest: in_set_takeD)
  have all: "concat (map written_funcs bs) = concat (map (\<lambda>b. without_yields (written_funcs b)) (take i bodies)) @
      without_yields (take k (getFuncs ?b (Some declarationID))) @ [getFuncs ?b (Some declarationID) ! k]"
    unfolding bs map_append before by (simp add: prep(2))
  have "\<forall>f\<in>set (butlast (concat (map written_funcs bs))). fn_name f \<noteq> ''yield''"
    unfolding all append_assoc[symmetric] butlast_snoc by (auto simp: without_yields_def)
  then show ?thesis using i at prep(1) all bs by auto
qed

lemma script_up_to_yield_witness:
  "let bodies = [sample_body ''a'' [sample_func ''from'' ''1'', sample_func ''yield'' ''2''],
         sample_body ''b'' [sample_func ''from'' ''3'', sample_func ''yield'' ''4'', sample_func ''range'' ''5'']];
       bs = [sample_body ''a'' [sample_func ''from'' ''1''], sample_body ''b'' [sample_func ''from'' ''3'', sample_func ''range'' ''5'']]
   in (\<exists>i b. find_index (\<lambda>b. bd_id b = ''b'') bodies = Some i \<and> length bs = i + 1 \<and> b = bodies ! i \<and>
      2 < length (getFuncs b (Some [])) \<and>
      concat (map written_funcs bs) =
        concat (map (\<lambda>b. without_yields (written_funcs b)) (take i bodies)) @
        without_yields (take 2 (getFuncs b (Some []))) @ [getFuncs b (Some []) ! 2]) \<and>
    (\<forall>f\<in>set (butlast (concat (map written_funcs bs))). fn_name f \<noteq> ''yield'')"
proof -
  let ?bodies = "[sample_body ''a'' [sample_func ''from'' ''1'', sample_func ''yield'' ''2''],
      sample_body ''b'' [sample_func ''from'' ''3'', sample_func ''yield'' ''4'', sample_func ''range'' ''5'']]"
  have ids: "\<forall>b\<in>set ?bodies. with_decl_ids b" by (simp add: with_decl_ids_def sample_body_def)
  have bs: "script_bodies ''b'' [] 2 ?bodies =
      Inr [sample_body ''a'' [sample_func ''from'' ''1''], sample_body ''b'' [sample_func ''from'' ''3'', sample_func ''range'' ''5'']]"
    by (simp add: sample_body_def sample_func_def script_bodies_def prepBodyForYield_def getFuncs_def
      removeYieldFuncFromBody_def without_yields_def Let_def)
  have none: "\<forall>b\<in>set ?bodies. bd_id b = ''b'' \<longrightarrow> ([] :: string) = [] \<longrightarrow> bd_declarations b = []" by (simp add: sample_body_def)
  from script_up_to_yield[OF ids bs none] show ?thesis unfolding Let_def .
qed

section \<open>Changing an argument\<close>

text \<open>A change of an argument leaves every id, name and source as it is, and the last of two changes of one argument counts.\<close>

lemma editFuncArgs_twice: "editFuncArgs (editFuncArgs fs i key v) i key w = editFuncArgs fs i key w"
  by (auto simp: editFuncArgs_def)

lemma editFuncArgs_value:
  assumes "f \<in> set (editFuncArgs fs i key v)" and "a \<in> set (fn_args f)" and "fn_id f = i" and "ar_key a = key"
  shows "ar_value a = v"
proof -
  obtain g where g: "g \<in> set fs" "f = (if fn_id g \<noteq> i then g
      else g\<lparr>fn_args := map (\<lambda>a. if ar_key a = key then a\<lparr>ar_value := v\<rparr> else a) (fn_args g)\<rparr>)"
    using assms(1) by (auto simp: editFuncArgs_def)
  then have "fn_id g = i" using assms(3) by (cases "fn_id g = i") simp_all
  then have "a \<in> (\<lambda>a. if ar_key a = key then a\<lparr>ar_value := v\<rparr> else a) ` set (fn_args g)" using g(2) assms(2) by simp
  then obtain c where "a = (if ar_key c = key then c\<lparr>ar_value := v\<rparr> else c)" by (elim imageE)
  then show ?thesis using assms(4) by (cases "ar_key c = key") simp_all
qed

lemma editFuncArgs_frame:
  "map (\<lambda>f. (fn_id f, fn_name f, fn_source f, map (\<lambda>a. (ar_key a, ar_type a)) (fn_args f))) (editFuncArgs fs i key v) =
     map (\<lambda>f. (fn_id f, fn_name f, fn_source f, map (\<lambda>a. (ar_key a, ar_type a)) (fn_args f))) fs"
  by (auto simp: editFuncArgs_def)

section \<open>What goes wrong\<close>

text \<open>
  A script that the server reads but that has a statement which is no call, such as \<open>1 + 1\<close>: the page throws while it reads the tree, and
  the handler of that exception throws itself, as it expects the data of an answer. The script is stored and no status is shown.
\<close>

lemma unreadable_statement:
  assumes "js_includes (st_type stm) ''Expression''" and "st_expression stm = Some e" and "n_call e = None" and "n_callee e = None"
    and "n_type e \<noteq> ''Identifier''" and "script \<noteq> []"
  shows "getASTResponse uid parse (Inr (stm # sts)) script True st = (st\<lparr>fp_script := script\<rparr>, True)"
proof -
  have "flat_body stm = Inl TypeError" using assms walk_literal[OF assms(3-5)] by (simp add: flat_body_def)
  then show ?thesis using assms(6) by (simp add: getASTResponse_def bodyNodes_def parse_failed_def parseError_def scriptReducer_def Let_def)
qed

text \<open>
  The source of a literal has no line ends. Deleting a later statement writes such a source without them, and the next
  statement follows on the same line.
\<close>

definition literal_body :: "string \<Rightarrow> string \<Rightarrow> body" where
  "literal_body i source = \<lparr>bd_id = i, bd_type = ''VariableDeclaration'', bd_source = source, bd_funcs = None,
     bd_declarations = [nameless\<lparr>fd_id := i @ ''d''\<rparr>]\<rparr>"

lemma deleting_joins_lines:
  "handleDeleteBody ''c'' [literal_body ''a'' ''x = 1'', sample_body ''b'' [(sample_func ''from'' ''1'')\<lparr>fn_args := []\<rparr>], sample_body ''c'' []] =
     Inr (''x = 1from()'' @ NL @ NL)"
  by (simp add: handleDeleteBody_def literal_body_def sample_body_def sample_func_def getBodyToScript_def body_script_def nameless_def
      funcsToScript_def argsToScript_def)

end
