(* ===== verification/Flux_Filter.thy ===== *)
theory Flux_Filter
  imports Flux_Builder
begin

text \<open>
  The filter of a Flux script as a choice of tag values (\<open>ui/src/flux/components/FilterTagList.tsx\<close>): the flattened
  predicate (\<^theory_text>\<open>Flux_Ast\<close>) is read as a clause, which gives each tag key its conditions, a click changes the clause,
  and the clause is written as the new text of the filter. Keys that every object has are left out.
\<close>

section \<open>Clauses\<close>

record condition =
  fc_key :: string
  fc_operator :: string
  fc_value :: string

type_synonym flux_clause = "condition list js_obj"

definition conditions :: "string \<Rightarrow> flux_clause \<Rightarrow> condition list" where
  "conditions key clause = (case obj_get clause key of None \<Rightarrow> [] | Some cs \<Rightarrow> cs)"

definition operator_of :: "string \<Rightarrow> flux_clause \<Rightarrow> string" where
  "operator_of key clause = (case conditions key clause of [] \<Rightarrow> ''=='' | c # _ \<Rightarrow> fc_operator c)"

definition validateClause :: "flux_clause \<Rightarrow> bool" where
  "validateClause clause =
     list_all (\<lambda>cs. list_all (\<lambda>c. fc_operator (hd cs) = fc_operator c) cs) (obj_values clause)"

definition group_conditions :: "condition list \<Rightarrow> flux_clause" where
  \<comment> \<open>\<open>_.groupBy(conditions, condition => condition.key)\<close>\<close>
  "group_conditions cs = foldl (\<lambda>acc c. obj_set acc (fc_key c) (conditions (fc_key c) acc @ [c])) [] cs"

definition constructClause :: "condition list \<Rightarrow> flux_clause \<times> bool" where
  "constructClause cs = (if validateClause (group_conditions cs) then (group_conditions cs, True) else ([], False))"

definition supportedOperator :: "string \<Rightarrow> bool" where
  "supportedOperator operator \<longleftrightarrow> operator = ''=='' \<or> operator = ''!=''"

definition property_name :: "token \<Rightarrow> string" where
  \<comment> \<open>as the key of an object; a token of a member always has a property\<close>
  "property_name t = (case tk_property t of None \<Rightarrow> [] | Some (n, _) \<Rightarrow> value_str n)"

definition conditionExtractable :: "token list \<Rightarrow> bool" where
  "conditionExtractable nodes =
     (case nodes of
        a # b # c # _ \<Rightarrow>
          tk_type a = ''MemberExpression'' \<and> tk_type b = ''Operator'' \<and> supportedOperator (tk_source b) \<and> tk_type c = ''StringLiteral''
      | _ \<Rightarrow> False)"

definition noConditions :: "token list \<Rightarrow> condition list \<Rightarrow> bool" where
  "noConditions nodes cs \<longleftrightarrow>
     cs = [] \<and> length nodes = 1 \<and> tk_type (hd nodes) = ''BooleanLiteral'' \<and> tk_source (hd nodes) = ''true''"

definition token_condition :: "token \<Rightarrow> token \<Rightarrow> token \<Rightarrow> condition" where
  \<comment> \<open>the condition of \<open>extractCondition\<close>\<close>
  "token_condition keyNode operatorNode valueNode =
     \<lparr>fc_key = property_name keyNode, fc_operator = tk_source operatorNode,
      fc_value = filter (\<lambda>ch. ch \<noteq> CHR 0x22) (tk_source valueNode)\<rparr>"

function (sequential) reduceNodesToClause :: "token list \<Rightarrow> condition list \<Rightarrow> flux_clause \<times> bool" where
  "reduceNodesToClause [] cs = constructClause cs"
| "reduceNodesToClause (n # nodes) cs =
     (if noConditions (n # nodes) cs then ([], True)
      else if tk_type n \<in> {''OpenParen'', ''CloseParen'', ''Operator''} then reduceNodesToClause nodes cs
      else if conditionExtractable (n # nodes)
      then reduceNodesToClause (drop 2 nodes) (cs @ [token_condition n (nodes ! 0) (nodes ! 1)])
      else ([], False))"
  by pat_completeness auto
termination by (relation "measure (\<lambda>(nodes, _). length nodes)") auto

section \<open>Changing a clause\<close>

definition clause_of :: "token list \<Rightarrow> flux_clause" where
  "clause_of nodes = fst (reduceNodesToClause nodes [])"

definition clauseIsParseable :: "token list \<Rightarrow> bool" where
  "clauseIsParseable nodes = snd (reduceNodesToClause nodes [])"

definition addCondition :: "flux_clause \<Rightarrow> condition \<Rightarrow> flux_clause" where
  "addCondition clause c = obj_set clause (fc_key c) (conditions (fc_key c) clause @ [c])"

definition removeCondition :: "flux_clause \<Rightarrow> condition \<Rightarrow> flux_clause" where
  "removeCondition clause c = obj_set clause (fc_key c) (filter (\<lambda>x. x \<noteq> c) (conditions (fc_key c) clause))"

definition subclause :: "flux_clause \<Rightarrow> string \<times> condition list \<Rightarrow> string" where
  \<comment> \<open>the callback that writes the conditions of a tag\<close>
  "subclause clause = (\<lambda>(key, cs).
     let joiner = (if operator_of key clause = ''=='' then '' OR '' else '' AND '')
     in ''('' @ js_join joiner (map (\<lambda>c. ''r.'' @ key @ '' '' @ fc_operator c @ '' '' @ quote (fc_value c)) cs) @ '')'')"

definition buildFilterString :: "flux_clause \<Rightarrow> string" where
  "buildFilterString clause =
     (let funcBody = js_join '' AND '' (map (subclause clause) (filter (\<lambda>(key, cs). cs \<noteq> []) (obj_entries clause)))
      in if funcBody \<noteq> [] then ''(r) => '' @ funcBody else ''() => true'')"

definition handleChangeValue :: "token list \<Rightarrow> string \<Rightarrow> string \<Rightarrow> bool \<Rightarrow> string" where
  \<comment> \<open>the text handed to \<open>updateFilterString\<close>\<close>
  "handleChangeValue nodes key val selected =
     (let clause = clause_of nodes;
          c = \<lparr>fc_key = key, fc_operator = operator_of key clause, fc_value = val\<rparr>
      in buildFilterString (if selected then addCondition clause c else removeCondition clause c))"

definition handleSetEquality :: "token list \<Rightarrow> string \<Rightarrow> bool \<Rightarrow> string" where
  "handleSetEquality nodes key equal =
     (let clause = clause_of nodes; operator = (if equal then ''=='' else ''!='')
      in buildFilterString (obj_set clause key (map (\<lambda>c. c\<lparr>fc_operator := operator\<rparr>) (conditions key clause))))"

definition updateFilterString :: "string \<Rightarrow> string \<Rightarrow> string \<Rightarrow> string \<Rightarrow> body list \<Rightarrow> body list result" where
  \<comment> \<open>the argument \<open>fn\<close> of the function is changed on the page\<close>
  "updateFilterString newFilterString funcID declarationID bodyID bodies =
     handleChangeArg ''fn'' (FStr newFilterString) funcID declarationID bodyID bodies"

section \<open>What a written filter means\<close>

definition tag_name_char :: "char \<Rightarrow> bool" where
  "tag_name_char c = (let n = (of_char c :: nat)
     in is_digit c \<or> c = CHR ''_'' \<or> 97 \<le> n \<and> n \<le> 122 \<or> 65 \<le> n \<and> n \<le> 90)"

definition key_ok :: "string \<Rightarrow> bool" where
  \<comment> \<open>a name\<close>
  "key_ok k \<longleftrightarrow> k \<noteq> [] \<and> \<not> is_digit (hd k) \<and> list_all tag_name_char k"

definition value_ok :: "string \<Rightarrow> bool" where
  "value_ok v \<longleftrightarrow> v \<noteq> [] \<and> CHR 0x22 \<notin> set v"

definition tag_compare :: "string \<Rightarrow> string \<Rightarrow> string \<Rightarrow> predicate" where
  "tag_compare k operator v =
     Compare (Some ''r'', ''Identifier'') (k, ''Identifier'') operator (''StringLiteral'', quote v, FStr v)"

inductive reads_as :: "nat \<Rightarrow> string \<Rightarrow> predicate \<Rightarrow> bool" where
  \<comment> \<open>the grammar of the predicates written here: comparisons and parentheses, chains of and, chains of or\<close>
  compare: "key_ok k \<Longrightarrow> value_ok v \<Longrightarrow> supportedOperator operator \<Longrightarrow>
     reads_as 0 (''r.'' @ k @ '' '' @ operator @ '' '' @ quote v) (tag_compare k operator v)"
| parens: "reads_as 2 s e \<Longrightarrow> reads_as 0 (''('' @ s @ '')'') e"
| atom: "reads_as 0 s e \<Longrightarrow> reads_as 1 s e"
| conj: "reads_as 1 s x \<Longrightarrow> reads_as 0 t y \<Longrightarrow> reads_as 1 (s @ '' AND '' @ t) (Conj ''AND'' x y)"
| chain: "reads_as 1 s e \<Longrightarrow> reads_as 2 s e"
| disj: "reads_as 2 s x \<Longrightarrow> reads_as 1 t y \<Longrightarrow> reads_as 2 (s @ '' OR '' @ t) (Disj ''OR'' x y)"

definition filter_reads :: "string \<Rightarrow> predicate option \<Rightarrow> bool" where
  \<comment> \<open>the text of a filter; without a predicate it admits everything\<close>
  "filter_reads s p = (case p of None \<Rightarrow> s = ''() => true'' | Some e \<Rightarrow> \<exists>t. s = ''(r) => '' @ t \<and> reads_as 2 t e)"

definition filter_node :: "predicate option \<Rightarrow> node" where
  "filter_node p = (case p of
     None \<Rightarrow> Node ''BooleanLiteral'' ''true'' None (FBool True) None None None None None None None None None
   | Some e \<Rightarrow> predicate_node e)"

definition row_holds :: "(string \<Rightarrow> string) \<Rightarrow> token list \<Rightarrow> bool" where
  \<comment> \<open>a comparison on the tags of a row\<close>
  "row_holds row ts =
     (let same = (row (property_name (ts ! 0)) = filter (\<lambda>ch. ch \<noteq> CHR 0x22) (tk_source (ts ! 2)))
      in if tk_source (ts ! 1) = ''=='' then same else \<not> same)"

definition filter_holds :: "(string \<Rightarrow> string) \<Rightarrow> predicate option \<Rightarrow> bool" where
  "filter_holds row p = (case p of None \<Rightarrow> True | Some e \<Rightarrow> holds (row_holds row) e)"

definition allows :: "string \<Rightarrow> string set \<Rightarrow> string \<Rightarrow> bool" where
  \<comment> \<open>what chosen values mean for a value of the tag: none chosen is no condition\<close>
  "allows operator vs x \<longleftrightarrow> vs = {} \<or> (if operator = ''=='' then x \<in> vs else x \<notin> vs)"

definition chosen :: "string \<Rightarrow> flux_clause \<Rightarrow> string set" where
  "chosen k clause = fc_value ` set (conditions k clause)"

definition group_ok :: "string \<Rightarrow> condition list \<Rightarrow> bool" where
  "group_ok k cs \<longleftrightarrow> key_ok k \<and>
     (\<forall>c\<in>set cs. fc_key c = k \<and> fc_operator c = fc_operator (hd cs) \<and> supportedOperator (fc_operator c) \<and> value_ok (fc_value c))"

definition clause_ok :: "flux_clause \<Rightarrow> bool" where
  "clause_ok clause \<longleftrightarrow> obj_ok clause \<and> (\<forall>(k, cs)\<in>set clause. group_ok k cs)"

fun conds :: "predicate \<Rightarrow> condition list" where
  \<comment> \<open>the comparisons of a predicate from left to right\<close>
  "conds (Compare ob (pn, pt) operator (lt, ls, lv)) =
     [\<lparr>fc_key = pn, fc_operator = operator, fc_value = filter (\<lambda>ch. ch \<noteq> CHR 0x22) ls\<rparr>]"
| "conds (Conj operator x y) = conds x @ conds y"
| "conds (Disj operator x y) = conds x @ conds y"

fun tag_predicate :: "predicate \<Rightarrow> bool" where
  \<comment> \<open>comparisons of tags with texts\<close>
  "tag_predicate (Compare ob (pn, pt) operator (lt, ls, lv)) \<longleftrightarrow> supportedOperator operator \<and> lt = ''StringLiteral''"
| "tag_predicate (Conj operator x y) \<longleftrightarrow> tag_predicate x \<and> tag_predicate y"
| "tag_predicate (Disj operator x y) \<longleftrightarrow> tag_predicate x \<and> tag_predicate y"

section \<open>Reading a written filter\<close>

lemma reduce_tokens:
  "tag_predicate e \<Longrightarrow> reduceNodesToClause (predicate_tokens e b @ rest) cs = reduceNodesToClause rest (cs @ conds e)"
proof (induction e arbitrary: b rest cs)
  case (Compare ob p operator l)
  obtain pn pt where p: "p = (pn, pt)" by (cases p)
  obtain lt ls lv where l: "l = (lt, ls, lv)" by (cases l)
  show ?case
    using Compare
    by (simp add: p l noConditions_def conditionExtractable_def token_condition_def property_name_def simple_token_def)
qed (simp_all add: noConditions_def simple_token_def)

lemma reads_as_predicate: "reads_as n s e \<Longrightarrow> tag_predicate e \<and> predicate_ok e"
  by (induction rule: reads_as.induct)
    (auto simp: tag_compare_def key_ok_def value_ok_def supportedOperator_def toLowerCase_def lower_char_def truthy_def char_of_def bit_0 bit_Suc)

lemma unquoted: "value_ok v \<Longrightarrow> filter (\<lambda>ch. ch \<noteq> CHR 0x22) (quote v) = v"
  by (auto simp: value_ok_def quote_def intro!: filter_True)

lemma tag_compare_conds: "value_ok v \<Longrightarrow> conds (tag_compare k operator v) = [\<lparr>fc_key = k, fc_operator = operator, fc_value = v\<rparr>]"
  by (simp add: tag_compare_def unquoted)

lemma tag_compare_holds:
  "value_ok v \<Longrightarrow> holds (row_holds row) (tag_compare k operator v) \<longleftrightarrow> (if operator = ''=='' then row k = v else row k \<noteq> v)"
  by (simp add: tag_compare_def row_holds_def property_name_def simple_token_def unquoted Let_def)

lemma js_join_snoc: "xs \<noteq> [] \<Longrightarrow> js_join sep (xs @ [x]) = js_join sep xs @ sep @ x"
  by (induction sep xs rule: js_join.induct) auto

lemma conj_chain:
  assumes "xs \<noteq> []" and "\<forall>x\<in>set xs. reads_as 0 (f x) (g x)"
  obtains e where "reads_as 1 (js_join '' AND '' (map f xs)) e" and "conds e = concat (map (\<lambda>x. conds (g x)) xs)"
    and "\<And>val. holds val e \<longleftrightarrow> (\<forall>x\<in>set xs. holds val (g x))"
proof -
  have "\<exists>e. reads_as 1 (js_join '' AND '' (map f xs)) e \<and> conds e = concat (map (\<lambda>x. conds (g x)) xs) \<and>
      (\<forall>val. holds val e \<longleftrightarrow> (\<forall>x\<in>set xs. holds val (g x)))"
    using assms
  proof (induction xs rule: rev_nonempty_induct)
    case (single x)
    then show ?case using reads_as.atom by (intro exI[of _ "g x"]) auto
  next
    case (snoc x xs)
    then obtain e where e: "reads_as 1 (js_join '' AND '' (map f xs)) e" "conds e = concat (map (\<lambda>x. conds (g x)) xs)"
      "\<forall>val. holds val e \<longleftrightarrow> (\<forall>x\<in>set xs. holds val (g x))" by auto
    have "reads_as 1 (js_join '' AND '' (map f xs) @ '' AND '' @ f x) (Conj ''AND'' e (g x))"
      using e(1) snoc.prems by (intro reads_as.conj) auto
    then show ?case using e snoc.hyps by (intro exI[of _ "Conj ''AND'' e (g x)"]) (auto simp: js_join_snoc)
  qed
  then show ?thesis using that by blast
qed

lemma disj_chain:
  assumes "xs \<noteq> []" and "\<forall>x\<in>set xs. reads_as 0 (f x) (g x)"
  obtains e where "reads_as 2 (js_join '' OR '' (map f xs)) e" and "conds e = concat (map (\<lambda>x. conds (g x)) xs)"
    and "\<And>val. holds val e \<longleftrightarrow> (\<exists>x\<in>set xs. holds val (g x))"
proof -
  have "\<exists>e. reads_as 2 (js_join '' OR '' (map f xs)) e \<and> conds e = concat (map (\<lambda>x. conds (g x)) xs) \<and>
      (\<forall>val. holds val e \<longleftrightarrow> (\<exists>x\<in>set xs. holds val (g x)))"
    using assms
  proof (induction xs rule: rev_nonempty_induct)
    case (single x)
    then show ?case using reads_as.atom reads_as.chain by (intro exI[of _ "g x"]) auto
  next
    case (snoc x xs)
    then obtain e where e: "reads_as 2 (js_join '' OR '' (map f xs)) e" "conds e = concat (map (\<lambda>x. conds (g x)) xs)"
      "\<forall>val. holds val e \<longleftrightarrow> (\<exists>x\<in>set xs. holds val (g x))" by auto
    have "reads_as 2 (js_join '' OR '' (map f xs) @ '' OR '' @ f x) (Disj ''OR'' e (g x))"
      using e(1) snoc.prems by (intro reads_as.disj reads_as.atom) auto
    then show ?case using e snoc.hyps by (intro exI[of _ "Disj ''OR'' e (g x)"]) (auto simp: js_join_snoc)
  qed
  then show ?thesis using that by blast
qed


lemma obj_set_fresh: "k \<notin> fst ` set ob \<Longrightarrow> obj_set ob k v = ob @ [(k, v)]"
  by (induction ob k v rule: obj_set.induct) auto

lemma obj_set_last: "k \<notin> fst ` set ob \<Longrightarrow> obj_set (ob @ [(k, w)]) k v = ob @ [(k, v)]"
  by (induction ob k v rule: obj_set.induct) auto

lemma obj_get_last: "k \<notin> fst ` set ob \<Longrightarrow> obj_get (ob @ [(k, w)]) k = Some w"
  by (induction ob) auto

lemma plain_entries:
  assumes "obj_ok ob" and "\<forall>k\<in>fst ` set ob. \<not> is_index k"
  shows "obj_entries ob = ob"
proof -
  have keys: "obj_keys ob = map fst ob" using assms(2) by (auto simp: obj_keys_def Let_def filter_id_conv filter_empty_conv)
  have "the (obj_get ob k) = v" if "(k, v) \<in> set ob" for k v using that assms(1) by (simp add: obj_ok_def obj_get_def)
  then have "map (\<lambda>k. (k, the (obj_get ob k))) (map fst ob) = ob" by (auto intro!: map_idI)
  then show ?thesis by (simp add: obj_entries_eq keys)
qed

lemma group_fold:
  assumes "k \<notin> fst ` set acc" and "\<forall>c\<in>set cs. fc_key c = k" and "cs \<noteq> []"
  shows "foldl (\<lambda>acc c. obj_set acc (fc_key c) (conditions (fc_key c) acc @ [c])) acc cs = acc @ [(k, cs)]"
  using assms(3,2)
proof (induction cs rule: rev_nonempty_induct)
  case (single c)
  then show ?case using assms(1) by (simp add: obj_set_fresh conditions_def obj_get_None_iff[THEN iffD2])
next
  case (snoc c cs)
  then show ?case using assms(1) by (simp add: conditions_def obj_get_last obj_set_last)
qed

lemma group_clause:
  assumes "obj_ok ob" and "\<forall>(k, cs)\<in>set ob. cs \<noteq> [] \<and> (\<forall>c\<in>set cs. fc_key c = k)"
  shows "group_conditions (concat (map snd ob)) = ob"
  using assms
proof (induction ob rule: rev_induct)
  case (snoc e ob)
  obtain k cs where e: "e = (k, cs)" by (cases e)
  have "k \<notin> fst ` set ob" using snoc.prems(1) unfolding e obj_ok_def by auto
  moreover have "group_conditions (concat (map snd ob)) = ob" using snoc by (auto simp: obj_ok_def)
  ultimately show ?case using snoc.prems(2) unfolding e by (simp add: group_conditions_def group_fold)
qed (simp add: group_conditions_def)

lemma valid_clause:
  assumes "\<forall>(k, cs)\<in>set ob. \<forall>c\<in>set cs. fc_operator c = fc_operator (hd cs)"
  shows "validateClause ob"
proof -
  have "\<exists>k. (k, the (obj_get ob k)) \<in> set ob \<and> cs = the (obj_get ob k)" if "cs \<in> set (obj_values ob)" for cs
    using that unfolding obj_values_eq by (auto simp: obj_get_def dest: map_of_SomeD) (metis map_of_SomeD option.sel weak_map_of_SomeI)
  moreover have "fc_operator (hd cs) = fc_operator c" if "(k, cs) \<in> set ob" "c \<in> set cs" for k cs c
    using that assms by fastforce
  ultimately show ?thesis unfolding validateClause_def list_all_iff by blast
qed

lemma name_no_index: "key_ok k \<Longrightarrow> \<not> is_index k"
  by (cases k) (auto simp: key_ok_def is_index_def)


text \<open>One tag of a clause is written as a group in parentheses.\<close>

definition group_text :: "string \<times> condition list \<Rightarrow> string" where
  "group_text = (\<lambda>(k, cs). ''('' @ js_join (if fc_operator (hd cs) = ''=='' then '' OR '' else '' AND '')
     (map (\<lambda>c. ''r.'' @ k @ '' '' @ fc_operator c @ '' '' @ quote (fc_value c)) cs) @ '')'')"

lemma group_reads:
  assumes "group_ok k cs" and "cs \<noteq> []"
  obtains e where "reads_as 0 (group_text (k, cs)) e" and "conds e = cs"
    and "\<And>row. holds (row_holds row) e \<longleftrightarrow> allows (fc_operator (hd cs)) (fc_value ` set cs) (row k)"
proof -
  define tree :: "condition \<Rightarrow> predicate" where "tree c = tag_compare k (fc_operator c) (fc_value c)" for c
  have one: "\<forall>c\<in>set cs. reads_as 0 (''r.'' @ k @ '' '' @ fc_operator c @ '' '' @ quote (fc_value c)) (tree c)"
    using assms(1) unfolding group_ok_def tree_def by (intro ballI reads_as.compare) blast+
  have "map (\<lambda>c. conds (tree c)) cs = map (\<lambda>c. [c]) cs"
    using assms(1) by (auto simp: group_ok_def tree_def tag_compare_conds)
  then have "concat (map (\<lambda>c. conds (tree c)) cs) = concat (map (\<lambda>c. [c]) cs)" by (rule arg_cong)
  then have all: "concat (map (\<lambda>c. conds (tree c)) cs) = cs" by simp
  have row: "holds (row_holds row) (tree c) \<longleftrightarrow> (if fc_operator (hd cs) = ''=='' then row k = fc_value c else row k \<noteq> fc_value c)"
    if "c \<in> set cs" for row c
    using assms(1) that by (auto simp: group_ok_def tree_def tag_compare_holds)
  show ?thesis
  proof (cases "fc_operator (hd cs) = ''==''")
    case True
    obtain e where "reads_as 2 (js_join '' OR '' (map (\<lambda>c. ''r.'' @ k @ '' '' @ fc_operator c @ '' '' @ quote (fc_value c)) cs)) e"
      "conds e = concat (map (\<lambda>c. conds (tree c)) cs)" "\<And>val. holds val e \<longleftrightarrow> (\<exists>c\<in>set cs. holds val (tree c))"
      using disj_chain[OF assms(2) one] by blast
    then show ?thesis using True all row assms(2)
      by (intro that[of e]) (auto simp: group_text_def allows_def intro: reads_as.parens[simplified])
  next
    case False
    obtain e where "reads_as 1 (js_join '' AND '' (map (\<lambda>c. ''r.'' @ k @ '' '' @ fc_operator c @ '' '' @ quote (fc_value c)) cs)) e"
      "conds e = concat (map (\<lambda>c. conds (tree c)) cs)" "\<And>val. holds val e \<longleftrightarrow> (\<forall>c\<in>set cs. holds val (tree c))"
      using conj_chain[OF assms(2) one] by blast
    then show ?thesis using False all row assms(2) reads_as.chain
      by (intro that[of e]) (auto simp: group_text_def allows_def intro: reads_as.parens[simplified])
  qed
qed

lemma group_text_not_empty: "group_text g \<noteq> []"
  by (cases g) (simp add: group_text_def)

lemma join_not_empty: "xs \<noteq> [] \<Longrightarrow> \<forall>x\<in>set xs. x \<noteq> [] \<Longrightarrow> js_join sep xs \<noteq> []"
  by (induction sep xs rule: js_join.induct) auto

lemma clause_entries: "clause_ok clause \<Longrightarrow> obj_entries clause = clause"
  using name_no_index by (intro plain_entries) (fastforce simp: clause_ok_def group_ok_def)+

lemma clause_conditions: "clause_ok clause \<Longrightarrow> (k, cs) \<in> set clause \<Longrightarrow> conditions k clause = cs"
  by (simp add: clause_ok_def obj_ok_def conditions_def obj_get_def)

lemma written_groups:
  assumes "clause_ok clause"
  shows "buildFilterString clause =
    (let gs = filter (\<lambda>(k, cs). cs \<noteq> []) clause in if gs = [] then ''() => true'' else ''(r) => '' @ js_join '' AND '' (map group_text gs))"
proof -
  let ?gs = "filter (\<lambda>(k, cs). cs \<noteq> []) clause"
  have "subclause clause g = group_text g" if member: "g \<in> set ?gs" for g
  proof -
    obtain k cs' where "g = (k, cs')" by (cases g)
    then have "g = (k, cs')" "cs' \<noteq> []" "g \<in> set clause" using member by auto
    then obtain c cs where g: "g = (k, c # cs)" "(k, c # cs) \<in> set clause" by (metis list.exhaust)
    show ?thesis using clause_conditions[OF assms g(2)] by (simp add: g(1) group_text_def subclause_def operator_of_def Let_def)
  qed
  then have same: "map (subclause clause) ?gs = map group_text ?gs" by (rule map_cong[OF refl])
  have "?gs \<noteq> [] \<Longrightarrow> js_join '' AND '' (map group_text ?gs) \<noteq> []"
    by (rule join_not_empty) (auto simp: group_text_not_empty)
  then show ?thesis unfolding buildFilterString_def clause_entries[OF assms] Let_def same by (cases "?gs = []") simp_all
qed

lemma allowed_everywhere:
  assumes "clause_ok clause"
  shows "(\<forall>k. allows (operator_of k clause) (chosen k clause) (row k)) \<longleftrightarrow>
    (\<forall>(k, cs)\<in>set (filter (\<lambda>(k, cs). cs \<noteq> []) clause). allows (fc_operator (hd cs)) (fc_value ` set cs) (row k))" (is "_ \<longleftrightarrow> ?groups")
proof -
  have entry: "operator_of k clause = fc_operator (hd cs) \<and> chosen k clause = fc_value ` set cs" if "(k, cs) \<in> set clause" "cs \<noteq> []" for k cs
    using clause_conditions[OF assms that(1)] that(2) by (cases cs) (simp_all add: operator_of_def chosen_def)
  have present: "conditions k clause = [] \<or> (k, conditions k clause) \<in> set clause" for k
    by (cases "obj_get clause k") (auto simp: conditions_def obj_get_def dest: map_of_SomeD)
  have "allows (operator_of k clause) (chosen k clause) (row k)" if ?groups for k
  proof (cases "conditions k clause = []")
    case True
    then show ?thesis by (simp add: chosen_def allows_def)
  next
    case False
    then show ?thesis using that present[of k] entry[of k "conditions k clause"] by auto
  qed
  moreover have ?groups if "\<forall>k. allows (operator_of k clause) (chosen k clause) (row k)"
  proof (rule ballI, rule case_prodI2)
    fix g k cs
    assume "g \<in> set (filter (\<lambda>(k, cs). cs \<noteq> []) clause)" and "g = (k, cs)"
    then have "(k, cs) \<in> set clause" "cs \<noteq> []" by auto
    then show "allows (fc_operator (hd cs)) (fc_value ` set cs) (row k)" using that entry[of k cs] by metis
  qed
  ultimately show ?thesis by blast
qed

lemma clause_reads:
  assumes "clause_ok clause"
  obtains p where "filter_reads (buildFilterString clause) p"
    and "\<And>row. filter_holds row p \<longleftrightarrow> (\<forall>k. allows (operator_of k clause) (chosen k clause) (row k))"
    and "\<exists>ts. inOrderExpression (Some (filter_node p)) = Inr ts \<and> reduceNodesToClause ts [] = (filter (\<lambda>(k, cs). cs \<noteq> []) clause, True)"
proof -
  define gs where "gs = filter (\<lambda>(k, cs). cs \<noteq> []) clause"
  have groups: "\<And>k cs. (k, cs) \<in> set gs \<Longrightarrow> group_ok k cs \<and> cs \<noteq> []" using assms by (auto simp: gs_def clause_ok_def)
  have written: "buildFilterString clause = (if gs = [] then ''() => true'' else ''(r) => '' @ js_join '' AND '' (map group_text gs))"
    unfolding gs_def written_groups[OF assms] Let_def ..
  note everywhere = allowed_everywhere[OF assms, folded gs_def]
  show ?thesis
  proof (cases "gs = []")
    case True
    have "inOrderExpression (Some (filter_node None)) = Inr [simple_token ''true'' ''BooleanLiteral'']"
      by (simp add: inOrderExpression_def filter_node_def hasParen_def truthy_def)
    then show ?thesis
      using that[of None] written True everywhere
      by (simp add: filter_reads_def filter_holds_def noConditions_def gs_def[symmetric])
  next
    case False
    have "\<exists>e. reads_as 0 (group_text g) e \<and> conds e = snd g \<and>
      (\<forall>row. holds (row_holds row) e \<longleftrightarrow> allows (fc_operator (hd (snd g))) (fc_value ` set (snd g)) (row (fst g)))"
      if member: "g \<in> set gs" for g
      using groups[of "fst g" "snd g"] member group_reads[of "fst g" "snd g"] by (metis prod.collapse)
    then obtain tree where tree: "\<forall>g\<in>set gs. reads_as 0 (group_text g) (tree g) \<and> conds (tree g) = snd g \<and>
      (\<forall>row. holds (row_holds row) (tree g) \<longleftrightarrow> allows (fc_operator (hd (snd g))) (fc_value ` set (snd g)) (row (fst g)))"
      by metis
    obtain e where e: "reads_as 1 (js_join '' AND '' (map group_text gs)) e" "conds e = concat (map (\<lambda>g. conds (tree g)) gs)"
        "\<And>val. holds val e \<longleftrightarrow> (\<forall>g\<in>set gs. holds val (tree g))"
      using conj_chain[OF False, of group_text tree] tree by blast
    have groups_of: "map (\<lambda>g. conds (tree g)) gs = map snd gs" using tree by simp
    have "obj_ok gs" using assms unfolding gs_def clause_ok_def obj_ok_def by (simp add: distinct_map_filter)
    moreover have "\<forall>(k, cs)\<in>set gs. cs \<noteq> [] \<and> (\<forall>c\<in>set cs. fc_key c = k)" using groups by (fastforce simp: group_ok_def)
    ultimately have "group_conditions (conds e) = gs" unfolding e(2) groups_of by (rule group_clause)
    moreover have "validateClause gs" using groups by (intro valid_clause) (auto simp: group_ok_def)
    ultimately have "reduceNodesToClause [] (conds e) = (gs, True)" by (simp add: constructClause_def)
    moreover have "tag_predicate e" "predicate_ok e" using reads_as_predicate[OF e(1)] by simp_all
    ultimately have "inOrderExpression (Some (filter_node (Some e))) = Inr (predicate_tokens e False) \<and>
        reduceNodesToClause (predicate_tokens e False) [] = (gs, True)"
      using reduce_tokens[of e False "[]" "[]"] in_order_predicate by (simp add: filter_node_def inOrderExpression_def)
    moreover have "filter_reads (buildFilterString clause) (Some e)" using written False e(1) reads_as.chain by (simp add: filter_reads_def)
    moreover have "filter_holds row (Some e) \<longleftrightarrow> (\<forall>k. allows (operator_of k clause) (chosen k clause) (row k))" for row
      unfolding everywhere filter_holds_def using e(3) tree by (simp add: case_prod_unfold)
    ultimately show ?thesis using that[of "Some e"] by (simp add: gs_def)
  qed
qed



definition sample_clause :: flux_clause where
  "sample_clause =
     [(''host'', [\<lparr>fc_key = ''host'', fc_operator = ''=='', fc_value = ''a b''\<rparr>, \<lparr>fc_key = ''host'', fc_operator = ''=='', fc_value = ''c''\<rparr>]),
      (''os'', []), (''cpu'', [\<lparr>fc_key = ''cpu'', fc_operator = ''!='', fc_value = ''1''\<rparr>])]"

lemma sample_clause_ok: "clause_ok sample_clause"
  by (simp add: clause_ok_def obj_ok_def sample_clause_def group_ok_def key_ok_def tag_name_char_def is_digit_def value_ok_def
      supportedOperator_def Let_def)


lemma clause_ok_set:
  assumes "clause_ok clause" and "group_ok k cs"
  shows "clause_ok (obj_set clause k cs)"
proof -
  have "set (obj_set ob k cs) \<subseteq> insert (k, cs) (set ob)" for ob :: flux_clause
    by (induction ob k cs rule: obj_set.induct) auto
  then show ?thesis using assms unfolding clause_ok_def by fastforce
qed

lemma conditions_set: "conditions j (obj_set clause k cs) = (if j = k then cs else conditions j clause)"
  by (simp add: conditions_def obj_get_set)

lemma stored_group:
  assumes "clause_ok clause" and "key_ok k"
  shows "group_ok k (conditions k clause)"
  using assms by (cases "obj_get clause k") (auto simp: conditions_def obj_get_def clause_ok_def group_ok_def dest!: map_of_SomeD)



definition host_tokens :: "token list" where
  \<comment> \<open>of \<open>r.host == "a"\<close>\<close>
  "host_tokens = compare_tokens (tag_compare ''host'' ''=='' ''a'')"


text \<open>
  The comparison of a tag is switched for all its values: the new clause has the same values, and the chosen operator for that tag.
\<close>

lemma set_equality:
  assumes "reduceNodesToClause nodes [] = (clause, True)" and "clause_ok clause" and "key_ok key"
  shows "\<exists>clause'. handleSetEquality nodes key equal = buildFilterString clause' \<and> clause_ok clause' \<and> (\<forall>k. chosen k clause' = chosen k clause) \<and>
    (\<forall>k. chosen k clause \<noteq> {} \<longrightarrow> operator_of k clause' = (if k = key then (if equal then ''=='' else ''!='') else operator_of k clause))"
proof -
  let ?operator = "if equal then ''=='' else ''!=''"
  let ?cs = "map (\<lambda>c. c\<lparr>fc_operator := ?operator\<rparr>) (conditions key clause)"
  have "group_ok key ?cs"
    using stored_group[OF assms(2,3)] by (cases "conditions key clause") (auto simp: group_ok_def supportedOperator_def)
  then have "clause_ok (obj_set clause key ?cs)" by (rule clause_ok_set[OF assms(2)])
  moreover have "chosen k (obj_set clause key ?cs) = chosen k clause" for k
    by (auto simp: chosen_def conditions_set image_image)
  moreover have "operator_of k (obj_set clause key ?cs) = (if k = key then ?operator else operator_of k clause)" if "chosen k clause \<noteq> {}" for k
    using that by (cases "conditions key clause") (auto simp: operator_of_def chosen_def conditions_set)
  ultimately show ?thesis
    using assms(1) by (intro exI[of _ "obj_set clause key ?cs"]) (simp add: handleSetEquality_def clause_of_def Let_def)
qed

text \<open>
  The operators between the comparisons are skipped when tokens are read, so an \<open>or\<close> between two tags counts as an
  \<open>and\<close>: the page offers to edit such a filter, and the first click changes what it means.
\<close>

lemma or_becomes_and:
  assumes "tag_predicate x" "tag_predicate y"
  shows "reduceNodesToClause (predicate_tokens (Disj operator x y) b) [] = reduceNodesToClause (predicate_tokens (Conj operator x y) b) []"
  using reduce_tokens[of "Disj operator x y" b "[]" "[]"] reduce_tokens[of "Conj operator x y" b "[]" "[]"] assms by simp

text \<open>A tag value that is empty has no token, and the filter with it cannot be edited any more.\<close>

lemma empty_value_not_read:
  "inOrderExpression (Some (predicate_node (tag_compare k ''=='' []))) = Inr ts \<Longrightarrow> k \<noteq> [] \<Longrightarrow> \<not> clauseIsParseable ts"
  by (auto simp: tag_compare_def inOrderExpression_def hasParen_def toLowerCase_def lower_char_def truthy_def clauseIsParseable_def
      noConditions_def conditionExtractable_def)

end
