(* ===== verification/Flux_Schema.thy ===== *)
theory Flux_Schema
  imports Flux_Builder Temp_Graph
begin

text \<open>
  What the schema explorer and the filter of the Flux pages ask for: the scripts of \<open>ui/src/shared/apis/flux/metaQueries.ts\<close>, and the
  list of the values of one tag, in the filter (\<open>ui/src/flux/components/FilterTagListItem.tsx\<close>) and in the
  explorer (\<open>TagListItem.tsx\<close>), which differ in when they ask. The requests under way are part of the state and an answer is
  an event, so every order of answers is a run.
\<close>

section \<open>Scripts\<close>

record schema_filter =
  sf_key :: string
  sf_value :: string

definition measurements_script :: "string \<Rightarrow> string" where
  "measurements_script db =
     NL @ ''    from(db:'' @ quote db @ '') '' @
     NL @ ''        |> range(start:-24h) '' @
     NL @ ''        |> group(by:['' @ quote ''_measurement'' @ '']) '' @
     NL @ ''        |> distinct(column:'' @ quote ''_measurement'' @ '') '' @
     NL @ ''        |> group()'' @
     NL @ ''    ''"

definition tagsetFilter :: "schema_filter list \<Rightarrow> string" where
  "tagsetFilter fs =
     (if fs = [] then []
      else ''|> filter(fn: (r) => '' @ js_join '' and '' (map (\<lambda>f. ''r.'' @ sf_key f @ '' == '' @ quote (sf_value f)) fs) @ '' )'')"

definition tagKeys_script :: "string \<Rightarrow> schema_filter list \<Rightarrow> string" where
  "tagKeys_script db fs =
     (let tagKeyFilter = (if fs = [] then []
            else ''|> filter(fn: (r) => '' @ js_join '' and '' (map (\<lambda>f. ''r._value != '' @ quote (sf_key f)) fs) @ '' )'')
      in NL @ ''    from(db: '' @ quote db @ '')'' @
         NL @ ''      |> range(start: -24h)'' @
         NL @ ''      '' @ tagsetFilter fs @
         NL @ ''     '' @ [CHR 0x09] @ ''|> group(none: true)'' @
         NL @ ''      |> keys(except:['' @ quote ''_time'' @ '', '' @ quote ''_value'' @ '', '' @ quote ''_start'' @ '', '' @ quote ''_stop'' @ ''])'' @
         NL @ ''      |> map(fn: (r) => r._value)'' @
         NL @ ''      '' @ tagKeyFilter @
         NL @ ''    '')"

definition tagValues_script :: "string \<Rightarrow> string \<Rightarrow> nat \<Rightarrow> schema_filter list \<Rightarrow> string \<Rightarrow> bool \<Rightarrow> string" where
  "tagValues_script db tagKey limit fs searchTerm count =
     (let regexFilter = (if searchTerm = [] then [] else ''|> filter(fn: (r) => r.'' @ tagKey @ '' =~ /'' @ searchTerm @ ''/)'');
          limitFunc = (if count then [] else ''|> limit(n:'' @ nat_str limit @ '')'');
          countFunc = (if count then ''|> count()'' else [])
      in NL @ ''    from(db:'' @ quote db @ '')'' @
         NL @ ''      |> range(start:-1h)'' @
         NL @ ''      '' @ regexFilter @
         NL @ ''      '' @ tagsetFilter fs @
         NL @ ''      |> group(by:['' @ quote tagKey @ ''])'' @
         NL @ ''      |> distinct(column:'' @ quote tagKey @ '')'' @
         NL @ ''      |> group(by:['' @ quote ''_stop'' @ '','' @ quote ''_start'' @ ''])'' @
         NL @ ''      '' @ limitFunc @
         NL @ ''      '' @ countFunc @
         NL @ ''  '')"

definition tagsFromMeasurement_script :: "string \<Rightarrow> string \<Rightarrow> string" where
  "tagsFromMeasurement_script db measurement =
     NL @ ''    from(db:'' @ quote db @ '') '' @
     NL @ ''      |> range(start:-24h) '' @
     NL @ ''      |> filter(fn:(r) => r._measurement == '' @ quote measurement @ '') '' @
     NL @ ''      |> group() '' @
     NL @ ''      |> keys(except:['' @ quote ''_time'' @ '','' @ quote ''_value'' @ '','' @ quote ''_start'' @ '','' @ quote ''_stop'' @ ''])'' @
     NL @ ''  ''"

definition sent_script :: "string \<Rightarrow> string" where
  \<comment> \<open>\<open>garbage\<close>: what \<open>proxy\<close> puts into the address\<close>
  "sent_script script = filter (\<lambda>c. \<not> is_space c) script"

section \<open>The values of a tag\<close>

definition TAG_VALUES_LIMIT :: nat where "TAG_VALUES_LIMIT = 10"

datatype request_kind = AllValues | SearchValues | MoreValues | CountValues

record tag_request =
  tr_kind :: request_kind
  tr_term :: string
  tr_limit :: nat

record tag_item =
  ti_isOpen :: bool
  ti_loadingAll :: remote_data_state
  ti_loadingSearch :: remote_data_state
  ti_loadingMore :: remote_data_state
  ti_tagValues :: "string list"
  ti_searchTerm :: string
  ti_limit :: nat
  ti_count :: "int option"
  ti_debounced :: bool \<comment> \<open>the debounced search is due\<close>
  ti_requests :: "tag_request list" \<comment> \<open>under way, in the order they were sent\<close>

definition initial_item :: tag_item where
  "initial_item = \<lparr>ti_isOpen = False, ti_loadingAll = NotStarted, ti_loadingSearch = NotStarted, ti_loadingMore = NotStarted,
     ti_tagValues = [], ti_searchTerm = [], ti_limit = TAG_VALUES_LIMIT, ti_count = None, ti_debounced = False, ti_requests = []\<rparr>"

definition request :: "request_kind \<Rightarrow> tag_item \<Rightarrow> tag_item" where
  \<comment> \<open>a call of \<open>fetchTagValues\<close>\<close>
  "request kind st = st\<lparr>ti_requests := ti_requests st @ [\<lparr>tr_kind = kind, tr_term = ti_searchTerm st, tr_limit = ti_limit st\<rparr>]\<rparr>"

definition searchTagValues :: "tag_item \<Rightarrow> tag_item" where
  \<comment> \<open>up to its \<open>await\<close>, like the next three\<close>
  "searchTagValues st = request SearchValues st"

definition getAllTagValues :: "tag_item \<Rightarrow> tag_item" where
  "getAllTagValues st = request AllValues (st\<lparr>ti_loadingAll := Loading\<rparr>)"

definition getMoreTagValues :: "tag_item \<Rightarrow> tag_item" where
  "getMoreTagValues st = request MoreValues (st\<lparr>ti_loadingMore := Loading\<rparr>)"

definition getCount :: "tag_item \<Rightarrow> tag_item" where
  "getCount st = request CountValues st"

definition onSearch :: "string \<Rightarrow> tag_item \<Rightarrow> tag_item" where
  "onSearch searchTerm st = st\<lparr>ti_searchTerm := searchTerm, ti_loadingSearch := Loading, ti_debounced := True\<rparr>"

definition debounced_search :: "tag_item \<Rightarrow> tag_item" where
  "debounced_search st = (if ti_debounced st then getCount (searchTagValues (st\<lparr>ti_debounced := False\<rparr>)) else st)"

definition handleLoadMoreValues :: "tag_item \<Rightarrow> tag_item" where
  "handleLoadMoreValues st = getMoreTagValues (st\<lparr>ti_limit := ti_limit st + TAG_VALUES_LIMIT\<rparr>)"

definition filter_isFetchable :: "tag_item \<Rightarrow> bool" where
  \<comment> \<open>of the filter\<close>
  "filter_isFetchable st \<longleftrightarrow> \<not> ti_isOpen st \<and> (ti_loadingAll st = NotStarted \<or> ti_loadingAll st \<noteq> Errored)"

definition schema_isFetchable :: "tag_item \<Rightarrow> bool" where
  \<comment> \<open>of the explorer\<close>
  "schema_isFetchable st \<longleftrightarrow> \<not> ti_isOpen st \<and> (ti_loadingAll st = NotStarted \<or> ti_loadingAll st = Errored)"

definition handleClick :: "(tag_item \<Rightarrow> bool) \<Rightarrow> tag_item \<Rightarrow> tag_item" where
  "handleClick isFetchable st =
     (let st' = (if isFetchable st then getAllTagValues (getCount st) else st) in st'\<lparr>ti_isOpen := \<not> ti_isOpen st\<rparr>)"

definition receive :: "(string \<Rightarrow> int) \<Rightarrow> request_kind \<Rightarrow> string list option \<Rightarrow> tag_item \<Rightarrow> tag_item" where
  \<comment> \<open>what follows the \<open>await\<close>, for the parsed values of the answer, or none when the call or the parsing failed; the
    first argument is \<open>Number\<close>\<close>
  "receive num kind ans st =
     (case (kind, ans) of
        (AllValues, Some vs) \<Rightarrow> st\<lparr>ti_tagValues := vs, ti_loadingAll := Done\<rparr>
      | (AllValues, None) \<Rightarrow> st\<lparr>ti_loadingAll := Errored\<rparr>
      | (SearchValues, Some vs) \<Rightarrow> st\<lparr>ti_tagValues := vs, ti_loadingSearch := Done\<rparr>
      | (SearchValues, None) \<Rightarrow> st\<lparr>ti_loadingSearch := Errored\<rparr>
      | (MoreValues, Some vs) \<Rightarrow> st\<lparr>ti_tagValues := vs, ti_loadingMore := Done\<rparr>
      | (MoreValues, None) \<Rightarrow> st\<lparr>ti_loadingMore := Errored\<rparr>
      | (CountValues, Some [parsed]) \<Rightarrow> st\<lparr>ti_count := Some (num parsed)\<rparr>
      | (CountValues, _) \<Rightarrow> st)"

definition loadMoreCount :: "tag_item \<Rightarrow> int" where
  "loadMoreCount st =
     min \<bar>(case ti_count st of None \<Rightarrow> 0 | Some c \<Rightarrow> c) - int (ti_limit st)\<bar> (int TAG_VALUES_LIMIT)"

definition shouldShowMoreValues :: "tag_item \<Rightarrow> bool" where
  "shouldShowMoreValues st \<longleftrightarrow> int (ti_limit st) < (case ti_count st of None \<Rightarrow> 0 | Some c \<Rightarrow> c)"

datatype item_event =
    Click
  | Type string
  | Debounced
  | LoadMore
  | Answer nat "string list option" \<comment> \<open>to the request at a position\<close>

definition tag_item_step :: "(string \<Rightarrow> int) \<Rightarrow> (tag_item \<Rightarrow> bool) \<Rightarrow> tag_item \<Rightarrow> item_event \<Rightarrow> tag_item" where
  "tag_item_step num isFetchable st e =
     (case e of
        Click \<Rightarrow> handleClick isFetchable st
      | Type s \<Rightarrow> onSearch s st
      | Debounced \<Rightarrow> debounced_search st
      | LoadMore \<Rightarrow> handleLoadMoreValues st
      | Answer i ans \<Rightarrow>
          if i < length (ti_requests st)
          then receive num (tr_kind (ti_requests st ! i)) ans
            (st\<lparr>ti_requests := take i (ti_requests st) @ drop (Suc i) (ti_requests st)\<rparr>)
          else st)"

definition filter_item_step :: "(string \<Rightarrow> int) \<Rightarrow> tag_item \<Rightarrow> item_event \<Rightarrow> tag_item" where
  "filter_item_step num = tag_item_step num filter_isFetchable"

definition schema_item_step :: "(string \<Rightarrow> int) \<Rightarrow> tag_item \<Rightarrow> item_event \<Rightarrow> tag_item" where
  "schema_item_step num = tag_item_step num schema_isFetchable"

lemmas item_defs = tag_item_step_def handleClick_def onSearch_def debounced_search_def handleLoadMoreValues_def getMoreTagValues_def
  getAllTagValues_def getCount_def searchTagValues_def request_def

section \<open>The values shown are those asked for\<close>

definition value_requests :: "tag_item \<Rightarrow> tag_request list" where
  "value_requests st = filter (\<lambda>r. tr_kind r \<noteq> CountValues) (ti_requests st)"

definition answers_ordered :: "(string \<Rightarrow> nat \<Rightarrow> string list) \<Rightarrow> tag_item \<Rightarrow> item_event \<Rightarrow> bool" where
  \<comment> \<open>answers come in the order of the requests, and to a request for values the server answers with them\<close>
  "answers_ordered srv st e =
     (case e of
        Answer i ans \<Rightarrow> i = 0 \<and> (\<forall>r. ti_requests st \<noteq> [] \<longrightarrow> r = hd (ti_requests st) \<longrightarrow> tr_kind r \<noteq> CountValues \<longrightarrow> ans = Some (srv (tr_term r) (tr_limit r)))
      | _ \<Rightarrow> True)"

definition up_to_date :: "(string \<Rightarrow> nat \<Rightarrow> string list) \<Rightarrow> tag_item \<Rightarrow> bool" where
  \<comment> \<open>unless a search is due, the last request under way is for what the page shows it searches, or its values are shown\<close>
  "up_to_date srv st \<longleftrightarrow> ti_debounced st \<or>
     (if value_requests st = [] then ti_tagValues st = srv (ti_searchTerm st) (ti_limit st) \<or> ti_tagValues st = [] \<and> ti_loadingAll st = NotStarted
      else tr_term (last (value_requests st)) = ti_searchTerm st \<and> tr_limit (last (value_requests st)) = ti_limit st)"


lemma value_requests_simps [simp]:
  "value_requests (st\<lparr>ti_isOpen := b\<rparr>) = value_requests st"
  "value_requests (request kind st) = value_requests st @
     (if kind = CountValues then [] else [\<lparr>tr_kind = kind, tr_term = ti_searchTerm st, tr_limit = ti_limit st\<rparr>])"
  by (simp_all add: value_requests_def request_def)

lemma receive_fields [simp]:
  "ti_requests (receive num kind ans st) = ti_requests st" "ti_searchTerm (receive num kind ans st) = ti_searchTerm st"
  "ti_limit (receive num kind ans st) = ti_limit st" "ti_debounced (receive num kind ans st) = ti_debounced st"
  by (auto simp: receive_def split: request_kind.splits option.splits list.splits)

lemma receive_values:
  "kind \<noteq> CountValues \<Longrightarrow> ti_tagValues (receive num kind (Some vs) st) = vs"
  "ti_tagValues (receive num CountValues ans st) = ti_tagValues st"
  "ti_loadingAll (receive num CountValues ans st) = ti_loadingAll st"
  by (auto simp: receive_def split: request_kind.splits option.splits list.splits)

lemma answer_up_to_date:
  assumes "up_to_date srv st" and "answers_ordered srv st (Answer i ans)"
  shows "up_to_date srv (tag_item_step num isFetchable st (Answer i ans))"
proof (cases "ti_requests st")
  case Nil
  then show ?thesis using assms(1) by (simp add: tag_item_step_def)
next
  case (Cons r rs)
  have i: "i = 0" and srv: "tr_kind r \<noteq> CountValues \<Longrightarrow> ans = Some (srv (tr_term r) (tr_limit r))"
    using assms(2) Cons by (simp_all add: answers_ordered_def)
  let ?st = "receive num (tr_kind r) ans (st\<lparr>ti_requests := rs\<rparr>)"
  have step: "tag_item_step num isFetchable st (Answer i ans) = ?st" by (simp add: tag_item_step_def i Cons)
  have rest: "value_requests st = (if tr_kind r = CountValues then value_requests ?st else r # value_requests ?st)"
    by (simp add: value_requests_def Cons)
  show ?thesis
  proof (cases "tr_kind r = CountValues")
    case True
    then have "value_requests ?st = value_requests st" using rest by simp
    then show ?thesis using assms(1) True unfolding step up_to_date_def by (auto simp: receive_values)
  next
    case False
    then show ?thesis using assms(1) rest srv unfolding step up_to_date_def by (auto simp: receive_values)
  qed
qed

lemma step_up_to_date:
  assumes "up_to_date srv st" and "answers_ordered srv st e"
  shows "up_to_date srv (tag_item_step num isFetchable st e)"
proof (cases e)
  case (Answer i ans)
  then show ?thesis using answer_up_to_date assms by blast
next
  case Click
  then show ?thesis using assms(1)
    by (auto simp: tag_item_step_def handleClick_def getAllTagValues_def getCount_def Let_def up_to_date_def)
      (simp_all add: request_def)
qed (use assms(1) in \<open>auto simp: item_defs up_to_date_def value_requests_def\<close>)

interpretation tag_values: invariant_steps "tag_item_step num isFetchable" "up_to_date srv" "answers_ordered srv" for num isFetchable srv
  by unfold_locales (rule step_up_to_date)

text \<open>
  C29: The values shown for a tag are the ones asked for, when answers come in order. However the reader opens the tag, types and
  loads more, in the filter as in the explorer: once no search is due and no request for values is under
  way, the values are those of the server for the search term and the limit on the page, unless none were asked for yet.
\<close>

theorem tag_values_settle:
  assumes "run_ok (answers_ordered srv) (tag_item_step num isFetchable) initial_item es"
    and "st = run_store (tag_item_step num isFetchable) initial_item es"
    and "\<not> ti_debounced st" and "value_requests st = []"
  shows "ti_tagValues st = srv (ti_searchTerm st) (ti_limit st) \<or> ti_tagValues st = [] \<and> ti_loadingAll st = NotStarted"
proof -
  have "up_to_date srv initial_item" by (simp add: up_to_date_def initial_item_def value_requests_def)
  then have "up_to_date srv st" using tag_values.run_inv_from assms(1,2) by blast
  then show ?thesis using assms(3,4) unfolding up_to_date_def by simp
qed

definition sample_values :: "string \<Rightarrow> nat \<Rightarrow> string list" where
  "sample_values s n = [s @ ''1'', s @ ''2'']"

lemma tag_values_settle_witness:
  "ti_tagValues (run_store (tag_item_step (\<lambda>_. 0) schema_isFetchable) initial_item
      [Click, Answer 0 None, Answer 0 (Some [''1'', ''2'']), Type ''x'', Debounced, Answer 0 (Some [''x1'', ''x2'']), LoadMore,
       Answer 0 None, Answer 0 (Some [''x1'', ''x2''])]) = [''x1'', ''x2'']"
  using tag_values_settle[where srv = sample_values and num = "\<lambda>_. 0" and isFetchable = schema_isFetchable
      and es = "[Click, Answer 0 None, Answer 0 (Some [''1'', ''2'']), Type ''x'', Debounced, Answer 0 (Some [''x1'', ''x2'']), LoadMore,
       Answer 0 None, Answer 0 (Some [''x1'', ''x2''])]", OF _ refl]
  by (simp add: item_defs initial_item_def schema_isFetchable_def answers_ordered_def receive_def value_requests_def sample_values_def Let_def)

text \<open>
  Nothing guards against answers that come in another order: the values of an earlier search term then replace those of the one
  that is shown.
\<close>

lemma stale_tag_values:
  "let st = run_store (filter_item_step (\<lambda>_. 0)) initial_item
       [Type ''a'', Debounced, Type ''b'', Debounced, Answer 2 (Some [''b1'']), Answer 0 (Some [''a1''])]
   in ti_searchTerm st = ''b'' \<and> ti_tagValues st = [''a1''] \<and> ti_loadingSearch st = Done \<and> value_requests st = []"
  by (simp add: filter_item_step_def item_defs initial_item_def receive_def value_requests_def Let_def)

text \<open>
  The filter asks again whenever a tag is opened, but never after a failure; the explorer asks only after a failure.
\<close>

lemma failed_never_retried:
  assumes "ti_loadingAll st = Errored"
  shows "ti_requests (filter_item_step num st Click) = ti_requests st" and "ti_loadingAll (filter_item_step num st Click) = Errored"
  using assms by (simp_all add: filter_item_step_def tag_item_step_def handleClick_def filter_isFetchable_def Let_def)

lemma explorer_retries:
  assumes "ti_loadingAll st = Errored" and "\<not> ti_isOpen st"
  shows "value_requests (schema_item_step num st Click) = value_requests st @ [\<lparr>tr_kind = AllValues, tr_term = ti_searchTerm st, tr_limit = ti_limit st\<rparr>]"
  using assms
  by (simp add: schema_item_step_def tag_item_step_def handleClick_def schema_isFetchable_def getAllTagValues_def getCount_def Let_def)
    (simp add: request_def value_requests_def)

text \<open>Without its white space a filter on two tags is no predicate any more: the \<open>and\<close> is joined with what follows.\<close>

lemma and_is_glued:
  "sent_script (tagsetFilter [\<lparr>sf_key = ''a'', sf_value = ''1''\<rparr>, \<lparr>sf_key = ''b'', sf_value = ''2 3''\<rparr>]) =
     ''|>filter(fn:(r)=>r.a=='' @ quote ''1'' @ ''andr.b=='' @ quote ''23'' @ '')''"
  by (simp add: sent_script_def tagsetFilter_def quote_def is_space_def)

end
