(* ===== verification/Query_Editor.thy ===== *)
theory Query_Editor
  imports Temp_Vars Store_Prelude
begin

text \<open>
  The editor of a query text (\<open>ui/src/dashboards/components/InfluxQLEditor.tsx\<close>) and the completion of template variables in it
  (\<open>ReactCodeMirror.tsx\<close>, the end of \<open>ui/src/tempVars/constants/index.ts\<close>). After every event React asks \<open>editor_from_props\<close>, so
  that is part of a step. The mask character of the code stands for a colon that belongs to a whole mention; in a masked
  text it is \<open>None\<close>. A name of a variable has no dollar sign, which \<open>replace\<close> would read as a pattern.
\<close>

section \<open>Masks\<close>

type_synonym masked = "char option list"

definition word_char :: "char \<Rightarrow> bool" where
  \<comment> \<open>\<open>[\w-]\<close>\<close>
  "word_char c = (let n = (of_char c :: nat)
     in is_digit c \<or> c = CHR ''_'' \<or> c = CHR ''-'' \<or> 97 \<le> n \<and> n \<le> 122 \<or> 65 \<le> n \<and> n \<le> 90)"

function (sequential) applyMasks :: "string \<Rightarrow> masked" where
  "applyMasks [] = []"
| "applyMasks (c # s) =
     (if c = CHR '':'' \<and> prefix '':'' (dropWhile word_char s)
      then None # map Some (takeWhile word_char s) @ None # applyMasks (drop 1 (dropWhile word_char s))
      else Some c # applyMasks s)"
  by pat_completeness auto
termination
  by (relation "measure length") (auto simp: less_Suc_eq_le intro!: le_trans[OF diff_le_self length_dropWhile_le])

function (sequential) matches_incomplete :: "masked \<Rightarrow> masked list" where
  \<comment> \<open>all matches of \<open>:[\w-]*\<close>\<close>
  "matches_incomplete [] = []"
| "matches_incomplete (c # s) =
     (if c = Some (CHR '':'')
      then (c # takeWhile (\<lambda>x. x \<noteq> None \<and> word_char (the x)) s)
        # matches_incomplete (dropWhile (\<lambda>x. x \<noteq> None \<and> word_char (the x)) s)
      else matches_incomplete s)"
  by pat_completeness auto
termination by (relation "measure length") (auto simp: less_Suc_eq_le intro: length_dropWhile_le)

function (sequential) insertTempVar :: "masked \<Rightarrow> string \<Rightarrow> masked" where
  "insertTempVar [] tempVar = []"
| "insertTempVar (c # s) tempVar =
     (if c = Some (CHR '':'')
      then map Some tempVar @ insertTempVar (dropWhile (\<lambda>x. x \<noteq> None \<and> word_char (the x)) s) tempVar
      else c # insertTempVar s tempVar)"
  by pat_completeness auto
termination by (relation "measure (\<lambda>(s, _). length s)") (auto simp: less_Suc_eq_le intro: length_dropWhile_le)

definition unMask :: "masked \<Rightarrow> string" where
  "unMask s = map (\<lambda>x. case x of None \<Rightarrow> CHR '':'' | Some c \<Rightarrow> c) s"

section \<open>The editor\<close>

record query_editor =
  ed_focused :: bool
  ed_editedQueryText :: string
  ed_templatingQueryText :: string
  ed_isTemplating :: bool
  ed_selectedTemplate :: string \<comment> \<open>its \<open>tempVar\<close>\<close>
  ed_isShowingTemplateValues :: bool
  ed_filteredTemplates :: "template list"
  ed_isSubmitted :: bool
  ed_query :: string \<comment> \<open>a property, like the next\<close>
  ed_templates :: "template list"
  ed_updates :: "string list" \<comment> \<open>the texts \<open>onUpdate\<close> was called with\<close>

definition first_var :: "template list \<Rightarrow> string" where
  "first_var ts = (case ts of [] \<Rightarrow> [] | t # _ \<Rightarrow> t_tempVar t)"

definition initial_query_editor :: "string \<Rightarrow> template list \<Rightarrow> query_editor" where
  "initial_query_editor query templates =
     \<lparr>ed_focused = False, ed_editedQueryText = query, ed_templatingQueryText = query, ed_isTemplating = False,
      ed_selectedTemplate = first_var templates, ed_isShowingTemplateValues = False, ed_filteredTemplates = templates,
      ed_isSubmitted = True, ed_query = query, ed_templates = templates, ed_updates = []\<rparr>"

definition editor_from_props :: "query_editor \<Rightarrow> query_editor" where
  "editor_from_props st =
     (if ed_isSubmitted st \<and> \<not> ed_isShowingTemplateValues st \<and> js_trim (ed_editedQueryText st) \<noteq> js_trim (ed_query st)
      then st\<lparr>ed_focused := False, ed_isTemplating := False, ed_isShowingTemplateValues := False,
              ed_selectedTemplate := first_var (ed_templates st), ed_filteredTemplates := ed_templates st,
              ed_templatingQueryText := ed_query st, ed_editedQueryText := ed_query st\<rparr>
      else st)"

definition handleTemplateSelection :: "string \<Rightarrow> string \<Rightarrow> query_editor \<Rightarrow> query_editor" where
  "handleTemplateSelection selectedTemplate templatingQueryText st =
     st\<lparr>ed_selectedTemplate := selectedTemplate, ed_templatingQueryText := templatingQueryText, ed_editedQueryText := templatingQueryText\<rparr>"

definition handleTemplateReplace :: "string \<Rightarrow> bool \<Rightarrow> query_editor \<Rightarrow> query_editor" where
  \<comment> \<open>without the new selection of the editor\<close>
  "handleTemplateReplace tempVar replaceWholeTemplate st =
     (let newTempVar = (if replaceWholeTemplate then tempVar else butlast tempVar);
          masked = applyMasks (ed_templatingQueryText st)
      in handleTemplateSelection tempVar (unMask (insertTempVar masked newTempVar)) st)"

definition filterTemplates :: "string \<Rightarrow> query_editor \<Rightarrow> template list" where
  "filterTemplates matchText st =
     filter (\<lambda>t. js_includes (toLowerCase (t_tempVar t)) (toLowerCase (drop 1 matchText))) (ed_templates st)"

definition selectMatchingTemplate :: "template list \<Rightarrow> string \<Rightarrow> query_editor \<Rightarrow> string" where
  "selectMatchingTemplate filteredTemplates defaultVar st =
     (case List.find (\<lambda>t. t_tempVar t = ed_selectedTemplate st) filteredTemplates of
        Some found \<Rightarrow> t_tempVar found
      | None \<Rightarrow> (case filteredTemplates of [] \<Rightarrow> defaultVar | t # _ \<Rightarrow> t_tempVar t))"

definition handleChange :: "string \<Rightarrow> query_editor \<Rightarrow> query_editor" where
  "handleChange val st =
     (let isSubmitted = (js_trim val = js_trim (ed_query st)) in
      if val = ed_editedQueryText st \<or> ed_isShowingTemplateValues st then st
      else (case matches_incomplete (applyMasks val) of
              matched # _ \<Rightarrow>
                if ed_templates st \<noteq> []
                then (let filteredTemplates = filterTemplates (unMask matched) st
                      in st\<lparr>ed_isTemplating := True, ed_templatingQueryText := val,
                            ed_selectedTemplate := selectMatchingTemplate filteredTemplates (unMask matched @ '':'') st,
                            ed_filteredTemplates := filteredTemplates, ed_editedQueryText := val, ed_isSubmitted := isSubmitted\<rparr>)
                else st\<lparr>ed_isTemplating := False, ed_editedQueryText := val, ed_isSubmitted := isSubmitted\<rparr>
            | [] \<Rightarrow> st\<lparr>ed_isTemplating := False, ed_editedQueryText := val, ed_isSubmitted := isSubmitted\<rparr>))"

definition isDisabled :: "query_editor \<Rightarrow> bool" where
  "isDisabled st \<longleftrightarrow> ed_isTemplating st \<or> ed_isShowingTemplateValues st"

definition handleUpdate :: "query_editor \<Rightarrow> query_editor" where
  \<comment> \<open>what is awaited is the object around the promise and no promise itself, so the state is set before anything else
    happens, and \<open>cancel\<close> has nothing to stop\<close>
  "handleUpdate st =
     (if \<not> isDisabled st \<and> \<not> ed_isSubmitted st
      then st\<lparr>ed_updates := ed_updates st @ [ed_editedQueryText st], ed_isSubmitted := True\<rparr> else st)"

definition closeDrawer :: "query_editor \<Rightarrow> query_editor" where
  "closeDrawer st = st\<lparr>ed_isTemplating := False, ed_selectedTemplate := first_var (ed_templates st)\<rparr>"

definition findTempVar :: "bool \<Rightarrow> query_editor \<Rightarrow> string option" where
  \<comment> \<open>the next one, or the previous\<close>
  "findTempVar forward st =
     (let templates = ed_filteredTemplates st
      in if templates = [] then None
         else Some (t_tempVar (templates !
           (case find_index (\<lambda>t. t_tempVar t = ed_selectedTemplate st) templates of
              None \<Rightarrow> 0
            | Some i \<Rightarrow> if forward then (i + 1) mod length templates else (i + length templates - 1) mod length templates))))"

datatype editor_key = Tab | ArrowRight | ArrowDown | ArrowLeft | ArrowUp | Enter | Escape | OtherKey

definition handleTemplatingKeys :: "editor_key \<Rightarrow> query_editor \<Rightarrow> query_editor" where
  "handleTemplatingKeys k st =
     (let move = (\<lambda>forward. case findTempVar forward st of None \<Rightarrow> st | Some v \<Rightarrow> handleTemplateReplace v False st)
      in if \<not> ed_isTemplating st then st
         else case k of
                Tab \<Rightarrow> move True | ArrowRight \<Rightarrow> move True | ArrowDown \<Rightarrow> move True
              | ArrowLeft \<Rightarrow> move False | ArrowUp \<Rightarrow> move False
              | Enter \<Rightarrow> handleTemplateReplace (ed_selectedTemplate st) True st
              | _ \<Rightarrow> st)"

definition handleKeyDownEditor :: "editor_key \<Rightarrow> query_editor \<Rightarrow> query_editor" where
  "handleKeyDownEditor k st =
     (if ed_isTemplating st then (if k = Enter \<or> k = Escape then closeDrawer st else st)
      else if k = Escape then st\<lparr>ed_isTemplating := False\<rparr>
      else if k = Enter then handleUpdate st else st)"

definition handleClickTempVar :: "template \<Rightarrow> query_editor \<Rightarrow> query_editor" where
  "handleClickTempVar t st = closeDrawer (handleTemplateReplace (t_tempVar t) True st)"

definition handleMouseOverTempVar :: "template \<Rightarrow> query_editor \<Rightarrow> query_editor" where
  "handleMouseOverTempVar t st = handleTemplateReplace (t_tempVar t) False st"

datatype editor_event =
    Change string
  | BeforeChange string
  | Focus
  | Submit \<comment> \<open>the button, and when the focus is lost\<close>
  | CloseDrawer
  | Key editor_key
  | ClickVar template
  | HoverVar template
  | ShowTemplateValues
  | HideTemplateValues
  | NewProps string "template list"

definition editor_step :: "query_editor \<Rightarrow> editor_event \<Rightarrow> query_editor" where
  "editor_step st e =
     editor_from_props
       (case e of
          Change s \<Rightarrow> handleChange s st
        | BeforeChange s \<Rightarrow> st\<lparr>ed_templatingQueryText := s\<rparr>
        | Focus \<Rightarrow> st\<lparr>ed_focused := True\<rparr>
        | Submit \<Rightarrow> handleUpdate st
        | CloseDrawer \<Rightarrow> st\<lparr>ed_isTemplating := False\<rparr>
        | Key k \<Rightarrow> handleKeyDownEditor k (handleTemplatingKeys k st)
        | ClickVar t \<Rightarrow> handleClickTempVar t st
        | HoverVar t \<Rightarrow> handleMouseOverTempVar t st
        | ShowTemplateValues \<Rightarrow> st\<lparr>ed_isShowingTemplateValues := True\<rparr>
        | HideTemplateValues \<Rightarrow> st\<lparr>ed_isShowingTemplateValues := False, ed_focused := True\<rparr>
        | NewProps query templates \<Rightarrow> st\<lparr>ed_query := query, ed_templates := templates\<rparr>)"

section \<open>Completing a variable\<close>

definition complete :: "string \<Rightarrow> bool" where
  \<comment> \<open>every colon belongs to a whole mention\<close>
  "complete s \<longleftrightarrow> Some (CHR '':'') \<notin> set (applyMasks s)"

lemma colon_no_word [simp]: "\<not> word_char (CHR '':'')"
  by (simp add: word_char_def is_digit_def)

lemma unMask_simps [simp]: "unMask [] = []" "unMask (Some c # s) = c # unMask s" "unMask (None # s) = CHR '':'' # unMask s"
  "unMask (s @ s') = unMask s @ unMask s'" "unMask (map Some t) = t"
  by (simp_all add: unMask_def comp_def)

lemma whole_mention:
  assumes "prefix '':'' (dropWhile word_char s)"
  obtains w t where "s = w @ CHR '':'' # t" "\<forall>c\<in>set w. word_char c" "takeWhile word_char s = w" "dropWhile word_char s = CHR '':'' # t"
proof -
  obtain t where t: "dropWhile word_char s = CHR '':'' # t" using assms by (auto simp: prefix_def)
  have s: "s = takeWhile word_char s @ CHR '':'' # t" unfolding t[symmetric] by simp
  show ?thesis
    by (rule that[of "takeWhile word_char s" t]) (use s t set_takeWhileD[of _ word_char s] in blast)+
qed

lemma unMask_applyMasks: "unMask (applyMasks s) = s"
proof (induction s rule: applyMasks.induct)
  case (2 c s)
  show ?case
  proof (cases "c = CHR '':'' \<and> prefix '':'' (dropWhile word_char s)")
    case True
    then obtain w t where "s = w @ CHR '':'' # t" "takeWhile word_char s = w" "dropWhile word_char s = CHR '':'' # t"
      using whole_mention by blast
    then show ?thesis using 2(1) True by simp
  next
    case False
    then show ?thesis using 2(2) by auto
  qed
qed simp

lemma applyMasks_append:
  assumes "complete a"
  shows "applyMasks (a @ s) = applyMasks a @ applyMasks s"
  using assms
proof (induction a rule: applyMasks.induct)
  case (2 c a)
  show ?case
  proof (cases "c = CHR '':''")
    case True
    then have p: "prefix '':'' (dropWhile word_char a)" using 2(3) by (auto simp: complete_def split: if_splits)
    then obtain w t where a: "a = w @ CHR '':'' # t" "\<forall>c\<in>set w. word_char c" "takeWhile word_char a = w" "dropWhile word_char a = CHR '':'' # t"
      by (rule whole_mention)
    have later: "takeWhile word_char (a @ s) = w" "dropWhile word_char (a @ s) = CHR '':'' # t @ s" using a(1,2) by simp_all
    have "complete t" using 2(3) True a(3,4) by (simp add: complete_def)
    then have "applyMasks (t @ s) = applyMasks t @ applyMasks s" using 2(1) True a(4) by simp
    then show ?thesis using True a(3,4) later by simp
  next
    case False
    then have "complete a" using 2(3) by (auto simp: complete_def)
    then show ?thesis using 2(2) False by simp
  qed
qed simp

lemma insert_append: "Some (CHR '':'') \<notin> set a \<Longrightarrow> insertTempVar (a @ s) v = a @ insertTempVar s v"
  by (induction a) auto

lemma insert_complete: "Some (CHR '':'') \<notin> set a \<Longrightarrow> insertTempVar a v = a"
  using insert_append[of a "[]" v] by simp


text \<open>
  Completing a mention changes that mention only. When the one incomplete mention of a query is replaced, by a click on a variable
  or the Enter key, the text becomes the text before it, the name of the variable and the text behind it.
\<close>

theorem mention_completed:
  assumes "complete a" and "complete b" and "\<forall>c\<in>set w. word_char c"
    and "b = [] \<or> hd b \<noteq> CHR '':'' \<and> \<not> word_char (hd b)"
    and "ed_templatingQueryText st = a @ CHR '':'' # w @ b"
  shows "ed_editedQueryText (handleClickTempVar t st) = a @ t_tempVar t @ b \<and>
    (ed_isTemplating st \<longrightarrow> ed_editedQueryText (handleTemplatingKeys Enter st) = a @ ed_selectedTemplate st @ b)"
proof -
  have rest: "dropWhile word_char (w @ b) = b" "takeWhile word_char (w @ b) = w"
    using assms(3,4) by (cases b; simp)+
  have word: "complete w" "applyMasks w = map Some w"
  proof -
    have "applyMasks w = map Some w \<and> CHR '':'' \<notin> set w" using assms(3) by (induction w) auto
    then show "complete w" "applyMasks w = map Some w" by (auto simp: complete_def)
  qed
  have "\<not> prefix '':'' b" using assms(4) by (cases b) auto
  then have masked: "applyMasks (a @ CHR '':'' # w @ b) = applyMasks a @ Some (CHR '':'') # map Some w @ applyMasks b"
    using rest word by (simp add: applyMasks_append[OF assms(1)] applyMasks_append[OF word(1)])
  have behind: "dropWhile (\<lambda>x. x \<noteq> None \<and> word_char (the x)) (map Some w @ applyMasks b) = applyMasks b"
  proof (cases b)
    case (Cons c s)
    then have "applyMasks b = Some c # applyMasks s" using assms(4) by simp
    then show ?thesis using assms(3,4) Cons by (subst dropWhile_append2) auto
  qed (use assms(3) in auto)
  have "unMask (insertTempVar (applyMasks (a @ CHR '':'' # w @ b)) v) = a @ v @ b" for v
    using assms(1,2) behind by (simp add: masked complete_def insert_append insert_complete unMask_applyMasks)
  then show ?thesis
    by (simp_all add: handleClickTempVar_def closeDrawer_def handleTemplateReplace_def handleTemplateSelection_def handleTemplatingKeys_def assms(5) Let_def)
qed


definition sample_editor :: "string \<Rightarrow> query_editor" where
  "sample_editor s = (initial_query_editor ''SELECT'' [])\<lparr>ed_templatingQueryText := s, ed_editedQueryText := s, ed_isSubmitted := False, ed_isTemplating := True,
     ed_selectedTemplate := '':cpu:''\<rparr>"

lemma mention_completed_witness:
  "ed_editedQueryText (handleTemplatingKeys Enter (sample_editor '':db: x :c y'')) = '':db: x :cpu: y''"
  using mention_completed[of "'':db: x ''" "'' y''" "''c''" "sample_editor '':db: x :c y''"]
  by (simp add: complete_def sample_editor_def initial_query_editor_def word_char_def is_digit_def Let_def)

text \<open>
  Every colon that is no part of a whole mention is taken for one that is incomplete, and all are replaced at once: choosing a
  variable in a query with a time destroys the time.
\<close>

lemma times_are_replaced:
  "ed_editedQueryText (handleTemplatingKeys Enter (sample_editor ''t > 10:20 AND x = :c'')) = ''t > 10:cpu: AND x = :cpu:''"
  by (simp add: handleTemplatingKeys_def handleTemplateReplace_def handleTemplateSelection_def sample_editor_def initial_query_editor_def word_char_def
      is_digit_def Let_def)

text \<open>
  A submitted text is taken back at once. The state says submitted before the owner of the query has changed it, so the old query
  is put in the place of the text, and when the update fails the text is gone.
\<close>

lemma submit_reverts:
  assumes "\<not> isDisabled st" and "\<not> ed_isSubmitted st" and "js_trim (ed_editedQueryText st) \<noteq> js_trim (ed_query st)"
  shows "ed_updates (editor_step st Submit) = ed_updates st @ [ed_editedQueryText st]"
    and "ed_editedQueryText (editor_step st Submit) = ed_query st" and "ed_templatingQueryText (editor_step st Submit) = ed_query st"
  using assms by (auto simp: editor_step_def handleUpdate_def isDisabled_def editor_from_props_def)

section \<open>What the editor shows\<close>

definition editor_inv :: "query_editor \<Rightarrow> bool" where
  "editor_inv st \<longleftrightarrow> (ed_isSubmitted st \<and> \<not> ed_isShowingTemplateValues st \<longrightarrow> js_trim (ed_editedQueryText st) = js_trim (ed_query st))"

lemma derived_inv: "editor_inv (editor_from_props st)"
  by (auto simp: editor_inv_def editor_from_props_def)

interpretation query_editor: invariant_steps editor_step editor_inv "\<lambda>_ _. True"
  by unfold_locales (auto simp: editor_step_def intro: derived_inv)

lemma editor_run_inv: "editor_inv (run_store editor_step (initial_query_editor query templates) es)"
  by (rule query_editor.run_inv) (simp_all add: editor_inv_def initial_query_editor_def)

text \<open>Walking through the variables on offer forward and back returns to the same one.\<close>

lemma find_there_and_back:
  assumes "distinct (map t_tempVar (ed_filteredTemplates st))" and "ed_selectedTemplate st \<in> t_tempVar ` set (ed_filteredTemplates st)"
    and "findTempVar True st = Some v"
  shows "findTempVar False (st\<lparr>ed_selectedTemplate := v\<rparr>) = Some (ed_selectedTemplate st)"
proof -
  let ?ts = "ed_filteredTemplates st"
  have unique: "find_index (\<lambda>t. t_tempVar t = t_tempVar (?ts ! k)) ?ts = Some k" if k: "k < length ?ts" for k
  proof -
    obtain j where j: "find_index (\<lambda>t. t_tempVar t = t_tempVar (?ts ! k)) ?ts = Some j"
      using find_index_None[of "\<lambda>t. t_tempVar t = t_tempVar (?ts ! k)" ?ts] nth_mem[OF k] by (metis option.exhaust)
    have "j = k" using find_index_Some[OF j] k assms(1) by (simp add: distinct_conv_nth) metis
    then show ?thesis using j by simp
  qed
  obtain i where i: "i < length ?ts" "t_tempVar (?ts ! i) = ed_selectedTemplate st" using assms(2) by (auto simp: in_set_conv_nth)
  have next': "(i + 1) mod length ?ts < length ?ts" using i(1) by (intro mod_less_divisor) auto
  have v: "v = t_tempVar (?ts ! ((i + 1) mod length ?ts))"
    using assms(3) unique[OF i(1)] i by (auto simp: findTempVar_def Let_def split: if_splits)
  have returned: "((i + 1) mod length ?ts + length ?ts - 1) mod length ?ts = i"
  proof (cases "i + 1 = length ?ts")
    case False
    then show ?thesis using i(1) by simp
  qed (use i(1) in auto)
  show ?thesis using unique[OF next'] returned i by (auto simp: findTempVar_def v Let_def)
qed

end
