(* ===== verification/Auto_Refresh.thy ===== *)
theory Auto_Refresh
  imports Temp_Graph Temp_Replace Store_Prelude
begin

text \<open>
  Fetching the data of a graph: the timer that all graphs share (\<open>ui/src/utils/AutoRefresh.ts\<close>), the request for one query
  and its status (\<open>ui/src/shared/apis/query.ts\<close>, \<open>ui/src/shared/actions/timeSeries.ts\<close>), and the component that fetches whenever its
  properties change or the timer ticks (\<open>ui/src/shared/components/time_series/TimeSeries.tsx\<close>). The fetches under way are part of
  its state, so an answer may come in any order.
\<close>

section \<open>The timer\<close>

record 'f auto_refresh =
  ar_subscribers :: "'f list"
  ar_intervalID :: "nat option"
  ar_timers :: "(nat \<times> nat) list" \<comment> \<open>of the browser: the intervals that tick, with their milliseconds\<close>
  ar_next :: nat \<comment> \<open>the next id the browser gives\<close>

definition initial_refresh :: "'f auto_refresh" where
  "initial_refresh = \<lparr>ar_subscribers = [], ar_intervalID = None, ar_timers = [], ar_next = 1\<rparr>"

definition subscribe :: "'f \<Rightarrow> 'f auto_refresh \<Rightarrow> 'f auto_refresh" where
  "subscribe f st = st\<lparr>ar_subscribers := ar_subscribers st @ [f]\<rparr>"

definition unsubscribe :: "'f \<Rightarrow> 'f auto_refresh \<Rightarrow> 'f auto_refresh" where
  "unsubscribe f st = st\<lparr>ar_subscribers := filter (\<lambda>g. g \<noteq> f) (ar_subscribers st)\<rparr>"

definition clear_interval :: "'f auto_refresh \<Rightarrow> 'f auto_refresh" where
  "clear_interval st =
     (case ar_intervalID st of
        None \<Rightarrow> st
      | Some i \<Rightarrow> st\<lparr>ar_timers := filter (\<lambda>(j, ms). j \<noteq> i) (ar_timers st), ar_intervalID := None\<rparr>)"

definition poll :: "nat \<Rightarrow> 'f auto_refresh \<Rightarrow> 'f auto_refresh" where
  "poll refreshMs st =
     (let st' = clear_interval st
      in if refreshMs = 0 then st'
         else st'\<lparr>ar_timers := ar_timers st' @ [(ar_next st', refreshMs)], ar_intervalID := Some (ar_next st'), ar_next := ar_next st' + 1\<rparr>)"

definition stopPolling :: "'f auto_refresh \<Rightarrow> 'f auto_refresh" where
  "stopPolling st = clear_interval st"

definition refresh_calls :: "'f auto_refresh \<Rightarrow> 'f list" where
  \<comment> \<open>the calls of a tick, in order\<close>
  "refresh_calls st = ar_subscribers st"

datatype 'f refresh_event = Subscribe 'f | Unsubscribe 'f | Poll nat | StopPolling

definition refresh_step :: "'f auto_refresh \<Rightarrow> 'f refresh_event \<Rightarrow> 'f auto_refresh" where
  "refresh_step st e =
     (case e of Subscribe f \<Rightarrow> subscribe f st | Unsubscribe f \<Rightarrow> unsubscribe f st | Poll ms \<Rightarrow> poll ms st | StopPolling \<Rightarrow> stopPolling st)"

section \<open>One query\<close>

record ts_query =
  tq_id :: string
  tq_text :: string

record 's fetch_result =
  rr_error :: "string option"
  rr_series :: "'s list option"

datatype fetch_status_value = Status_Loading | Status_Warn string | Status_Success string | Status_Error string

definition handleSuccess :: "'s fetch_result list \<Rightarrow> fetch_status_value" where
  \<comment> \<open>the status; the data is handed on. An empty text of an error is falsy\<close>
  "handleSuccess results =
     (let error = (case results of [] \<Rightarrow> None | r # _ \<Rightarrow> rr_error r);
          series = (case results of [] \<Rightarrow> None | r # _ \<Rightarrow> rr_series r)
      in case error of
           Some (c # cs) \<Rightarrow> Status_Warn (c # cs)
         | _ \<Rightarrow> if series = None then Status_Warn ''Your query is syntactically correct but returned no results''
                else Status_Success ''Success!'')"

record fetch_error =
  fe_data_message :: "string option" \<comment> \<open>the message of the answer's data\<close>
  fe_message :: "string option"

definition handleError :: "fetch_error \<Rightarrow> fetch_status_value" where
  "handleError error =
     Status_Error (case fe_data_message error of
        Some (c # cs) \<Rightarrow> c # cs
      | _ \<Rightarrow> (case fe_message error of Some m \<Rightarrow> m | None \<Rightarrow> ''Could not retrieve data''))"

definition analysis_duration :: "int option list \<Rightarrow> int" where
  \<comment> \<open>of the answer to \<open>analyzeQueries\<close>\<close>
  "analysis_duration analysis = (case analysis of Some ms # _ \<Rightarrow> ms | _ \<Rightarrow> DEFAULT_DURATION_MS)"

definition replace_query :: "string \<Rightarrow> template list \<Rightarrow> nat \<Rightarrow> int option list option \<Rightarrow> string option result option" where
  \<comment> \<open>\<open>replace\<close>, for the answer to \<open>analyzeQueries\<close>, where \<open>None\<close> is a failure: the text, or none when the call failed, or
    an exception; the outer \<open>None\<close> is a replacement that does not end\<close>
  "replace_query query templates resolution analysis =
     map_option (map_res (\<lambda>q. map_option (\<lambda>a. replaceInterval q (int (resolution div 3)) (analysis_duration a)) analysis))
       (templateReplace query templates)"

definition handleQueryFetchStatus :: "fetch_error + 's fetch_result list \<Rightarrow> fetch_status_value list \<times> 's fetch_result list option" where
  \<comment> \<open>for the answer of the proxy: the statuses in order, and the data unless it throws\<close>
  "handleQueryFetchStatus ans =
     (case ans of
        Inr results \<Rightarrow> ([Status_Loading, handleSuccess results], Some results)
      | Inl e \<Rightarrow> ([Status_Loading, handleError e], None))"

definition fetch_all :: "'d option list \<Rightarrow> 'd list option" where
  \<comment> \<open>\<open>Promise.all\<close> of the queries: all data, or rejected\<close>
  "fetch_all ds = (if None \<in> set ds then None else Some (map the ds))"

section \<open>The component\<close>

record 'o series_props =
  sp_source :: 'o
  sp_queries :: "ts_query list"
  sp_inView :: bool
  sp_templates :: "template list"
  sp_range :: "string option \<times> string option" \<comment> \<open>lower and upper\<close>

record ('o, 'd) graph_series =
  ts_props :: "'o series_props"
  ts_timeRange :: "string option \<times> string option"
  ts_loading :: remote_data_state
  ts_isFirstFetch :: bool
  ts_timeSeries :: "'d list"
  ts_fetches :: "'o series_props list" \<comment> \<open>under way, with the properties they were started with\<close>

definition series_from_props :: "('o, 'd) graph_series \<Rightarrow> ('o, 'd) graph_series" where
  "series_from_props st =
     (if ts_timeRange st \<noteq> sp_range (ts_props st) then st\<lparr>ts_isFirstFetch := True, ts_timeRange := sp_range (ts_props st)\<rparr> else st)"

definition executeQueries :: "'d list \<Rightarrow> ('o, 'd) graph_series \<Rightarrow> ('o, 'd) graph_series" where
  \<comment> \<open>up to the \<open>await\<close> of the answer; the first argument is \<open>DEFAULT_TIME_SERIES\<close>\<close>
  "executeQueries deflt st =
     (if \<not> sp_inView (ts_props st) then st
      else if sp_queries (ts_props st) = [] then st\<lparr>ts_timeSeries := deflt\<rparr>
      else st\<lparr>ts_loading := Loading, ts_fetches := ts_fetches st @ [ts_props st]\<rparr>)"

definition fetched :: "'d list option \<Rightarrow> ('o, 'd) graph_series \<Rightarrow> ('o, 'd) graph_series" where
  \<comment> \<open>the rest of \<open>executeQueries\<close>, for the data or the rejection\<close>
  "fetched ans st =
     (case ans of
        Some ds \<Rightarrow> st\<lparr>ts_timeSeries := ds, ts_loading := Done, ts_isFirstFetch := False\<rparr>
      | None \<Rightarrow> st\<lparr>ts_timeSeries := [], ts_loading := Errored, ts_isFirstFetch := False\<rparr>)"

definition queryDifference :: "ts_query list \<Rightarrow> ts_query list \<Rightarrow> string list" where
  "queryDifference left right =
     (let l = map tq_text left; r = map tq_text right
      in filter (\<lambda>x. x \<notin> set l \<inter> set r) (uniq_by (\<lambda>x. x) (l @ r)))"

definition isPropsDifferent :: "'o series_props \<Rightarrow> 'o series_props \<Rightarrow> bool" where
  "isPropsDifferent p q \<longleftrightarrow>
     sp_inView p \<noteq> sp_inView q \<or> queryDifference (sp_queries p) (sp_queries q) \<noteq> [] \<or> sp_templates p \<noteq> sp_templates q \<or> sp_source p \<noteq> sp_source q"

definition mount_series :: "'d list \<Rightarrow> 'o series_props \<Rightarrow> ('o, 'd) graph_series" where
  "mount_series deflt p =
     executeQueries deflt \<lparr>ts_props = p, ts_timeRange = sp_range p, ts_loading = NotStarted, ts_isFirstFetch = True, ts_timeSeries = deflt, ts_fetches = []\<rparr>"

datatype ('o, 'd) series_event = Props "'o series_props" | Tick | Fetched nat "'d list option"

definition series_step :: "'d list \<Rightarrow> ('o, 'd) graph_series \<Rightarrow> ('o, 'd) series_event \<Rightarrow> ('o, 'd) graph_series" where
  "series_step deflt st e =
     (case e of
        Props p \<Rightarrow>
          let st' = series_from_props (st\<lparr>ts_props := p\<rparr>)
          in if isPropsDifferent p (ts_props st) then executeQueries deflt st' else st'
      | Tick \<Rightarrow> executeQueries deflt st
      | Fetched i ans \<Rightarrow>
          if i < length (ts_fetches st)
          then fetched ans (st\<lparr>ts_fetches := take i (ts_fetches st) @ drop (Suc i) (ts_fetches st)\<rparr>) else st)"


section \<open>The timer ticks once\<close>

fun last_poll :: "nat \<Rightarrow> 'f refresh_event list \<Rightarrow> nat" where
  \<comment> \<open>the milliseconds asked for last; 0 is no refresh\<close>
  "last_poll ms [] = ms"
| "last_poll ms (Poll n # es) = last_poll n es"
| "last_poll ms (StopPolling # es) = last_poll 0 es"
| "last_poll ms (_ # es) = last_poll ms es"

fun subscribed :: "'f list \<Rightarrow> 'f refresh_event list \<Rightarrow> 'f list" where
  "subscribed fs [] = fs"
| "subscribed fs (Subscribe f # es) = subscribed (fs @ [f]) es"
| "subscribed fs (Unsubscribe f # es) = subscribed (removeAll f fs) es"
| "subscribed fs (_ # es) = subscribed fs es"

definition the_timer :: "nat \<Rightarrow> 'f auto_refresh \<Rightarrow> bool" where
  "the_timer ms st \<longleftrightarrow>
     (if ms = 0 then ar_timers st = [] \<and> ar_intervalID st = None else \<exists>i. ar_timers st = [(i, ms)] \<and> ar_intervalID st = Some i)"

lemma refresh_step_simps [simp]:
  "refresh_step st (Subscribe f) = subscribe f st" "refresh_step st (Unsubscribe f) = unsubscribe f st"
  "refresh_step st (Poll n) = poll n st" "refresh_step st StopPolling = stopPolling st"
  by (simp_all add: refresh_step_def)

lemma subscription [simp]:
  "the_timer ms (subscribe f st) = the_timer ms st" "the_timer ms (unsubscribe f st) = the_timer ms st"
  "ar_subscribers (subscribe f st) = ar_subscribers st @ [f]" "ar_subscribers (unsubscribe f st) = removeAll f (ar_subscribers st)"
  by (auto simp: subscribe_def unsubscribe_def the_timer_def removeAll_filter_not_eq intro: filter_cong)

lemma cleared: "the_timer ms st \<Longrightarrow> ar_timers (clear_interval st) = [] \<and> ar_intervalID (clear_interval st) = None"
  by (auto simp: the_timer_def clear_interval_def split: if_splits)

lemma the_timer_poll: "the_timer ms st \<Longrightarrow> the_timer n (poll n st)"
  using cleared[of ms st] by (auto simp: poll_def the_timer_def Let_def)

lemma subscribers_kept [simp]: "ar_subscribers (clear_interval st) = ar_subscribers st" "ar_subscribers (poll n st) = ar_subscribers st"
  by (simp_all add: clear_interval_def poll_def Let_def split: option.splits)

text \<open>
  C26: There is one timer. However often graphs subscribe and the interval is chosen, at most one interval ticks; it has the milliseconds
  chosen last, none ticks after the refresh is stopped or chosen to be none, and a tick calls exactly the
  graphs that are subscribed, in the order in which they came.
\<close>

theorem one_timer:
  "let st = run_store refresh_step initial_refresh es
   in (if last_poll 0 es = 0 then ar_timers st = [] else \<exists>i. ar_timers st = [(i, last_poll 0 es)]) \<and> refresh_calls st = subscribed [] es"
proof -
  have "the_timer (last_poll ms es) (run_store refresh_step st es) \<and> ar_subscribers (run_store refresh_step st es) = subscribed (ar_subscribers st) es"
    if "the_timer ms st" for ms st
    using that
  proof (induction es arbitrary: ms st)
    case (Cons e es)
    show ?case
    proof (cases e)
      case (Subscribe f)
      then show ?thesis using Cons.IH[of ms "subscribe f st"] Cons.prems by simp
    next
      case (Unsubscribe f)
      then show ?thesis using Cons.IH[of ms "unsubscribe f st"] Cons.prems by simp
    next
      case (Poll n)
      then show ?thesis using Cons.IH[OF the_timer_poll[OF Cons.prems, of n]] by simp
    next
      case StopPolling
      have "the_timer 0 (stopPolling st)" using cleared[OF Cons.prems] by (simp add: the_timer_def stopPolling_def)
      moreover have "ar_subscribers (stopPolling st) = ar_subscribers st" by (simp add: stopPolling_def)
      ultimately show ?thesis using Cons.IH[of 0 "stopPolling st"] StopPolling by simp
    qed
  qed simp
  from this[of 0 initial_refresh] show ?thesis
    by (auto simp: the_timer_def initial_refresh_def refresh_calls_def Let_def split: if_splits)
qed

section \<open>The data shown\<close>

lemma queryDifference_none: "queryDifference qs rs = [] \<longleftrightarrow> tq_text ` set qs = tq_text ` set rs"
proof -
  have "set (uniq_by (\<lambda>x. x) xs) = set xs" for xs :: "string list" using keys_uniq_by[of "\<lambda>x. x" xs] by simp
  then show ?thesis unfolding queryDifference_def Let_def by (auto simp: filter_empty_conv)
qed

definition same_request :: "'o series_props \<Rightarrow> 'o series_props \<Rightarrow> bool" where
  \<comment> \<open>nothing that a fetch is started for differs\<close>
  "same_request p q \<longleftrightarrow> sp_source p = sp_source q \<and> sp_templates p = sp_templates q \<and> tq_text ` set (sp_queries p) = tq_text ` set (sp_queries q)"

definition answers_in_order :: "('o series_props \<Rightarrow> 'd list) \<Rightarrow> ('o, 'd) graph_series \<Rightarrow> ('o, 'd) series_event \<Rightarrow> bool" where
  "answers_in_order srv st e =
     (case e of Fetched i ans \<Rightarrow> i = 0 \<and> (ts_fetches st \<noteq> [] \<longrightarrow> ans = Some (srv (hd (ts_fetches st)))) | _ \<Rightarrow> True)"

definition shows_current :: "('o series_props \<Rightarrow> 'd list) \<Rightarrow> ('o, 'd) graph_series \<Rightarrow> bool" where
  "shows_current srv st \<longleftrightarrow> (sp_inView (ts_props st) \<and> sp_queries (ts_props st) \<noteq> [] \<longrightarrow>
     (if ts_fetches st = [] then \<exists>p. same_request p (ts_props st) \<and> ts_timeSeries st = srv p
      else same_request (last (ts_fetches st)) (ts_props st)))"

lemma same_request_refl: "same_request p p"
  by (simp add: same_request_def)

lemma derived_fields [simp]:
  "ts_props (series_from_props st) = ts_props st" "ts_fetches (series_from_props st) = ts_fetches st"
  "ts_timeSeries (series_from_props st) = ts_timeSeries st"
  by (simp_all add: series_from_props_def)

lemma execute_current:
  "shows_current srv st \<or> sp_inView (ts_props st) \<Longrightarrow> shows_current srv (executeQueries deflt st)"
  by (auto simp: shows_current_def executeQueries_def same_request_refl)

lemma series_step_current:
  assumes "shows_current srv st" and "answers_in_order srv st e"
  shows "shows_current srv (series_step deflt st e)"
proof (cases e)
  case (Props p)
  let ?st = "series_from_props (st\<lparr>ts_props := p\<rparr>)"
  show ?thesis
  proof (cases "isPropsDifferent p (ts_props st)")
    case True
    have "shows_current srv (executeQueries deflt ?st)"
    proof (cases "sp_inView p")
      case False
      then show ?thesis by (intro execute_current) (simp add: shows_current_def)
    qed (intro execute_current, simp)
    then show ?thesis using True Props by (simp add: series_step_def Let_def)
  next
    case False
    then have "sp_inView p = sp_inView (ts_props st)" "same_request (ts_props st) p"
      by (auto simp: isPropsDifferent_def queryDifference_none same_request_def)
    then have "shows_current srv ?st" using assms(1) by (fastforce simp: shows_current_def same_request_def)
    then show ?thesis using False Props by (simp add: series_step_def Let_def)
  qed
next
  case Tick
  then show ?thesis using execute_current[OF disjI1[OF assms(1)]] by (simp add: series_step_def)
next
  case (Fetched i ans)
  show ?thesis
  proof (cases "ts_fetches st")
    case Nil
    then show ?thesis using Fetched assms(1) by (simp add: series_step_def)
  next
    case (Cons p ps)
    then have "i = 0" "ans = Some (srv p)" using assms(2) Fetched by (simp_all add: answers_in_order_def)
    then show ?thesis using assms(1) Fetched Cons by (auto simp: series_step_def fetched_def shows_current_def)
  qed
qed

interpretation shown: invariant_steps "series_step deflt" "shows_current srv" "answers_in_order srv" for deflt srv
  by unfold_locales (rule series_step_current)


definition sample_series_props :: "string \<Rightarrow> string list \<Rightarrow> string series_props" where
  "sample_series_props source texts = \<lparr>sp_source = source, sp_queries = map (\<lambda>t. \<lparr>tq_id = ''q'', tq_text = t\<rparr>) texts, sp_inView = True,
     sp_templates = [], sp_range = (None, None)\<rparr>"


text \<open>
  Nothing guards the order of the answers: the data of queries that were replaced can take the place of the data of the current
  ones. And a graph whose queries were all taken away still shows the answer to them when it comes.
\<close>

lemma stale_series:
  "ts_timeSeries (run_store (series_step []) (mount_series [] (sample_series_props ''s'' [''a'']))
     [Props (sample_series_props ''s'' [''b'']), Fetched 1 (Some [''b'']), Fetched 0 (Some [''a''])]) = [''a'']"
  by (simp add: sample_series_props_def mount_series_def series_step_def executeQueries_def fetched_def series_from_props_def isPropsDifferent_def
      queryDifference_def Let_def)

lemma emptied_graph_shows_data:
  "ts_timeSeries (run_store (series_step []) (mount_series [] (sample_series_props ''s'' [''a''])) [Props (sample_series_props ''s'' []), Fetched 0 (Some [''a''])]) = [''a'']"
  by (simp add: sample_series_props_def mount_series_def series_step_def executeQueries_def fetched_def series_from_props_def isPropsDifferent_def
      queryDifference_def Let_def)

text \<open>Every fetch of a query says loading first and then exactly how it ended: with an error exactly if it throws.\<close>

lemma fetch_status:
  "\<exists>s. fst (handleQueryFetchStatus ans) = [Status_Loading, s] \<and> s \<noteq> Status_Loading \<and>
     ((\<exists>m. s = Status_Error m) \<longleftrightarrow> snd (handleQueryFetchStatus ans) = None)"
  by (auto simp: handleQueryFetchStatus_def handleSuccess_def handleError_def Let_def split: sum.splits option.splits list.splits)

end
