(* ===== verification/Cell_Overlay.thy ===== *)
theory Cell_Overlay
  imports Dashboard_Types
begin

text \<open>
  The overlay in which a cell of a dashboard is edited (\<open>ui/src/dashboards/components/CellEditorOverlay.tsx\<close>): the working drafts of its
  queries, the transitions of \<^theory_text>\<open>Query_Config\<close> on them, and the queries that are saved. A source object is known by its id,
  and \<open>link_of\<close> is its \<open>links.self\<close>; the ids of \<open>uuid.v4()\<close> are arguments. The legend is only handed on.
\<close>

section \<open>State\<close>

record overlay_query =
  \<comment> \<open>a query of the cell, as it is opened and saved; a text may be null\<close>
  oq_query :: "string option"
  oq_queryConfig :: "query_config option"
  oq_source :: "string option"

record overlay_props =
  op_queries :: "overlay_query list" \<comment> \<open>of the cell\<close>
  op_source :: string
  op_sources :: "string list"
  op_templates :: "template list"

record overlay =
  ov_queriesWorkingDraft :: "query_config list"
  ov_activeQueryIndex :: nat
  ov_isStaticLegend :: bool
  ov_selectedSource :: "string option"
  ov_selectedService :: "string option"

definition initialSource :: "(string \<Rightarrow> string) \<Rightarrow> overlay_props \<Rightarrow> string option" where
  "initialSource link_of p =
     (case (case op_queries p of [] \<Rightarrow> None | q # _ \<Rightarrow> oq_source q) of
        Some (c # cs) \<Rightarrow> List.find (\<lambda>s. link_of s = c # cs) (op_sources p)
      | _ \<Rightarrow> Some (op_source p))"

definition createWorkingDraft :: "string option \<Rightarrow> string \<Rightarrow> overlay_query \<Rightarrow> query_config" where
  "createWorkingDraft source uid q = (spread (oq_queryConfig q))\<lparr>qc_id := Some uid, qc_source := source\<rparr>"

definition createWorkingDrafts :: "string option \<Rightarrow> string list \<Rightarrow> overlay_query list \<Rightarrow> query_config list" where
  "createWorkingDrafts source uids queries = map (\<lambda>(u, q). createWorkingDraft source u q) (zip uids queries)"

definition queries_or_one :: "overlay_query list \<Rightarrow> overlay_query list" where
  \<comment> \<open>always have at least one query\<close>
  "queries_or_one queries = (if queries = [] then [\<lparr>oq_query = None, oq_queryConfig = None, oq_source = None\<rparr>] else queries)"

definition open_overlay :: "(string \<Rightarrow> string) \<Rightarrow> string list \<Rightarrow> overlay_props \<Rightarrow> bool \<Rightarrow> overlay" where
  "open_overlay link_of uids p isStaticLegend =
     \<lparr>ov_queriesWorkingDraft = createWorkingDrafts (initialSource link_of p) uids (queries_or_one (op_queries p)),
      ov_activeQueryIndex = 0, ov_isStaticLegend = isStaticLegend, ov_selectedSource = None, ov_selectedService = None\<rparr>"

section \<open>Editing\<close>

datatype overlay_transition =
    T_editRawText "string option"
  | T_chooseNamespace namespace
  | T_chooseMeasurement string
  | T_toggleKapaField field
  | T_addInitialField field "group_by option"
  | T_toggleField field
  | T_groupByTime "string option"
  | T_fill "string option"
  | T_toggleTagAcceptance
  | T_removeFuncs "field list option"
  | T_applyFuncsToField apply_args "group_by option"
  | T_updateRawQuery "string option"
  | T_groupByTag string
  | T_chooseTag tag
  | T_timeShift time_shift

definition queryTransition :: "overlay_transition \<Rightarrow> query_config option \<Rightarrow> query_config result" where
  "queryTransition a q =
     (case a of
        T_editRawText t \<Rightarrow> Inr (editRawText q t)
      | T_chooseNamespace ns \<Rightarrow> chooseNamespace q ns False
      | T_chooseMeasurement m \<Rightarrow> chooseMeasurement q m False
      | T_toggleKapaField f \<Rightarrow> toggleKapaField q f
      | T_addInitialField f g \<Rightarrow> Inr (addInitialField q f g)
      | T_toggleField f \<Rightarrow> toggleField q f
      | T_groupByTime t \<Rightarrow> groupByTime q t
      | T_fill v \<Rightarrow> Inr (fill q v)
      | T_toggleTagAcceptance \<Rightarrow> toggleTagAcceptance q
      | T_removeFuncs fs \<Rightarrow> removeFuncs q fs
      | T_applyFuncsToField args g \<Rightarrow> applyFuncsToField q args g
      | T_updateRawQuery t \<Rightarrow> Inr (updateRawQuery q t)
      | T_groupByTag k \<Rightarrow> groupByTag q k
      | T_chooseTag tg \<Rightarrow> chooseTag q tg
      | T_timeShift s \<Rightarrow> Inr (timeShift q s))"

definition nextSource :: "query_config \<Rightarrow> query_config \<Rightarrow> string option" where
  "nextSource prevQuery nextQuery = (if qc_source nextQuery \<noteq> None then qc_source nextQuery else qc_source prevQuery)"

definition queryStateReducer :: "overlay_transition \<Rightarrow> string \<Rightarrow> overlay \<Rightarrow> overlay result" where
  "queryStateReducer a queryID st =
     (let queryWorkingDraft = List.find (\<lambda>q. qc_id q = Some queryID) (ov_queriesWorkingDraft st)
      in bind_r (queryTransition a queryWorkingDraft) (\<lambda>nextQuery.
           map_res (\<lambda>draft. st\<lparr>ov_queriesWorkingDraft := map (\<lambda>q.
               if qc_id q = qc_id draft then nextQuery\<lparr>qc_source := nextSource q nextQuery\<rparr> else q) (ov_queriesWorkingDraft st)\<rparr>)
             (deref queryWorkingDraft)))"

definition handleChangeService :: "string option \<Rightarrow> string option \<Rightarrow> overlay \<Rightarrow> overlay" where
  "handleChangeService selectedService selectedSource st =
     st\<lparr>ov_selectedService := selectedService, ov_selectedSource := selectedSource,
        ov_queriesWorkingDraft := map (\<lambda>q. q\<lparr>qc_source := selectedSource\<rparr>) (ov_queriesWorkingDraft st)\<rparr>"

definition handleAddQuery :: "(string \<Rightarrow> string) \<Rightarrow> overlay_props \<Rightarrow> string \<Rightarrow> overlay \<Rightarrow> overlay" where
  "handleAddQuery link_of p uid st =
     st\<lparr>ov_queriesWorkingDraft := ov_queriesWorkingDraft st @ [(defaultQueryConfig (Some uid) False)\<lparr>qc_source := initialSource link_of p\<rparr>],
        ov_activeQueryIndex := length (ov_queriesWorkingDraft st)\<rparr>"

definition handleDeleteQuery :: "nat \<Rightarrow> overlay \<Rightarrow> overlay" where
  "handleDeleteQuery index st =
     st\<lparr>ov_queriesWorkingDraft := map snd (filter (\<lambda>(i, q). i \<noteq> index) (enumerate 0 (ov_queriesWorkingDraft st)))\<rparr>"

definition PREDEFINED_TEMP_VARS :: "string list" where
  "PREDEFINED_TEMP_VARS = [TEMP_VAR_INTERVAL, TEMP_VAR_DASHBOARD_TIME, TEMP_VAR_UPPER_DASHBOARD_TIME]"

definition findUserDefinedTempVarsInQuery :: "string option \<Rightarrow> template list \<Rightarrow> template list" where
  "findUserDefinedTempVarsInQuery query templates =
     filter (\<lambda>t. truthy query \<and> t_tempVar t \<notin> set PREDEFINED_TEMP_VARS \<and> js_includes (the query) (t_tempVar t)) templates"

definition active_draft :: "overlay \<Rightarrow> nat" where
  "active_draft st = (if ov_activeQueryIndex st < length (ov_queriesWorkingDraft st) then ov_activeQueryIndex st else 0)"

definition getActiveQuery :: "overlay_props \<Rightarrow> overlay \<Rightarrow> overlay \<times> query_config option" where
  \<comment> \<open>a mark is set in the draft itself, which is part of the state\<close>
  "getActiveQuery p st =
     (let drafts = ov_queriesWorkingDraft st; i = active_draft st
      in if drafts = [] then (st, None)
         else if findUserDefinedTempVarsInQuery (qc_rawText (drafts ! i)) (op_templates p) \<noteq> []
         then (let q = (drafts ! i)\<lparr>qc_isQuerySupportedByExplorer := Some False\<rparr>
               in (st\<lparr>ov_queriesWorkingDraft := drafts[i := q]\<rparr>, Some q))
         else (st, Some (drafts ! i)))"

definition loading_status :: query_status where
  "loading_status = \<lparr>qs_loading = Some True, qs_error = None, qs_warn = None, qs_success = None\<rparr>"

definition config_texts :: "string \<Rightarrow> template list \<Rightarrow> int option \<Rightarrow> (string \<times> string) result option" where
  \<comment> \<open>the two texts that \<open>getConfig\<close> sends, for the duration of the first answer\<close>
  "config_texts query templates durationMs =
     map_option (map_res (\<lambda>q. (q, replaceInterval q DEFAULT_PIXELS (case durationMs of None \<Rightarrow> DEFAULT_DURATION_MS | Some ms \<Rightarrow> ms))))
       (templateReplace query templates)"

definition handleEditRawText :: "overlay_props \<Rightarrow> string \<Rightarrow> string \<Rightarrow> query_config option \<Rightarrow> overlay \<Rightarrow> overlay" where
  \<comment> \<open>for the configuration that \<open>getConfig\<close> returns; a failure is only written to the console\<close>
  "handleEditRawText p queryID s config st =
     (let isUsingUserDefinedTempVars = (findUserDefinedTempVarsInQuery (Some s) (op_templates p) \<noteq> [])
      in case config of
           None \<Rightarrow> st
         | Some queryConfig \<Rightarrow>
             st\<lparr>ov_queriesWorkingDraft := map (\<lambda>q.
               if qc_id q \<noteq> Some queryID then q
               else if isUsingUserDefinedTempVars
               then q\<lparr>qc_rawText := Some s, qc_status := Some loading_status, qc_isQuerySupportedByExplorer := Some False\<rparr>
               else queryConfig\<lparr>qc_status := Some loading_status, qc_rawText := Some s, qc_range := qc_range q, qc_groupBy := qc_groupBy q,
                      qc_source := qc_source q, qc_isQuerySupportedByExplorer := Some True\<rparr>) (ov_queriesWorkingDraft st)\<rparr>)"

definition componentWillReceiveProps ::
    "string option \<times> query_status option \<Rightarrow> string option \<times> query_status option \<Rightarrow> bool \<Rightarrow> overlay \<Rightarrow> overlay" where
  \<comment> \<open>the status of the old and the new properties, and whether the new one is another object\<close>
  "componentWillReceiveProps old new another st =
     (if snd new \<noteq> None \<and> truthy (fst new) \<and> (fst new \<noteq> fst old \<or> another)
      then st\<lparr>ov_queriesWorkingDraft := map (\<lambda>q. if qc_id q = fst old then q\<lparr>qc_status := snd new\<rparr> else q) (ov_queriesWorkingDraft st)\<rparr>
      else st)"

section \<open>Saving\<close>

definition save_query :: "(string option \<Rightarrow> bool) \<Rightarrow> (string \<Rightarrow> string) \<Rightarrow> query_config \<Rightarrow> overlay_query result" where
  "save_query is_date link_of q =
     (let timeRange = (case qc_range q of Some r \<Rightarrow> bounds_of_range r | None \<Rightarrow> \<lparr>b_lower = Some TEMP_VAR_DASHBOARD_TIME, b_upper = None\<rparr>)
      in map_res (\<lambda>s. \<lparr>oq_query = s, oq_queryConfig = Some q, oq_source = map_option link_of (qc_source q)\<rparr>)
           (if truthy (qc_rawText q) then Inr (qc_rawText q) else buildQuery is_date TYPE_QUERY_CONFIG timeRange q None))"

definition saved_queries :: "(string option \<Rightarrow> bool) \<Rightarrow> (string \<Rightarrow> string) \<Rightarrow> overlay \<Rightarrow> overlay_query list result" where
  \<comment> \<open>the queries of the cell that \<open>handleSaveCell\<close> saves\<close>
  "saved_queries is_date link_of st = map_r (save_query is_date link_of) (ov_queriesWorkingDraft st)"

definition savable :: "query_config \<Rightarrow> bool result" where
  "savable q =
     bind_r (if truthy (qc_measurement q) \<and> truthy (qc_database q) then map_res (\<lambda>fs. fs \<noteq> []) (deref (qc_fields q)) else Inr False)
       (\<lambda>built. Inr (built \<or> truthy (qc_rawText q)))"

fun every_r :: "('a \<Rightarrow> bool result) \<Rightarrow> 'a list \<Rightarrow> bool result" where
  "every_r f [] = Inr True"
| "every_r f (x # xs) = bind_r (f x) (\<lambda>b. if b then every_r f xs else Inr False)"

definition isSaveable :: "overlay \<Rightarrow> bool result" where
  "isSaveable st = every_r savable (ov_queriesWorkingDraft st)"

definition overlay_source :: "(string \<Rightarrow> string) \<Rightarrow> overlay_props \<Rightarrow> overlay \<Rightarrow> string" where
  \<comment> \<open>the source the page shows\<close>
  "overlay_source link_of p st =
     (case ov_selectedSource st of
        Some s \<Rightarrow> s
      | None \<Rightarrow>
          (case (case ov_queriesWorkingDraft st of [] \<Rightarrow> None | q # _ \<Rightarrow> qc_source q) of
             None \<Rightarrow> op_source p
           | Some qs \<Rightarrow> (case List.find (\<lambda>s. link_of s = link_of qs) (op_sources p) of Some s \<Rightarrow> s | None \<Rightarrow> op_source p)))"


section \<open>Events\<close>

datatype overlay_event =
    Transition overlay_transition string
  | ChangeService "string option" "string option"
  | AddQuery string
  | DeleteQuery nat
  | SetActiveQuery nat
  | ToggleLegend bool
  | ShowActiveQuery
  | RawTextAnswer string string "query_config option"
  | Status "string option \<times> query_status option" "string option \<times> query_status option" bool

definition overlay_step :: "(string \<Rightarrow> string) \<Rightarrow> overlay_props \<Rightarrow> overlay \<Rightarrow> overlay_event \<Rightarrow> overlay result" where
  "overlay_step link_of p st e =
     (case e of
        Transition a i \<Rightarrow> queryStateReducer a i st
      | ChangeService service source \<Rightarrow> Inr (handleChangeService service source st)
      | AddQuery uid \<Rightarrow> Inr (handleAddQuery link_of p uid st)
      | DeleteQuery i \<Rightarrow> Inr (handleDeleteQuery i st)
      | SetActiveQuery i \<Rightarrow> Inr (st\<lparr>ov_activeQueryIndex := i\<rparr>)
      | ToggleLegend b \<Rightarrow> Inr (st\<lparr>ov_isStaticLegend := b\<rparr>)
      | ShowActiveQuery \<Rightarrow> Inr (fst (getActiveQuery p st))
      | RawTextAnswer i s config \<Rightarrow> Inr (handleEditRawText p i s config st)
      | Status old new another \<Rightarrow> Inr (componentWillReceiveProps old new another st))"

definition draft_ids :: "overlay \<Rightarrow> string option list" where
  "draft_ids st = map qc_id (ov_queriesWorkingDraft st)"

definition overlay_event_ok :: "overlay \<Rightarrow> overlay_event \<Rightarrow> bool" where
  \<comment> \<open>new ids are new, and the server returns a configuration under the id it was asked for\<close>
  "overlay_event_ok st e =
     (case e of
        AddQuery uid \<Rightarrow> Some uid \<notin> set (draft_ids st)
      | RawTextAnswer i s (Some config) \<Rightarrow> qc_id config = Some i
      | _ \<Rightarrow> True)"

inductive overlay_reaches :: "(string \<Rightarrow> string) \<Rightarrow> overlay_props \<Rightarrow> overlay \<Rightarrow> bool" for link_of p where
  opened: "distinct uids \<Longrightarrow> overlay_reaches link_of p (open_overlay link_of uids p legend)"
| stepped: "overlay_reaches link_of p st \<Longrightarrow> overlay_event_ok st e \<Longrightarrow> overlay_step link_of p st e = Inr st' \<Longrightarrow> overlay_reaches link_of p st'"

lemma transition_id: "queryTransition a (Some q) = Inr q' \<Longrightarrow> qc_id q' = qc_id q"
proof -
  have "keeps_id q (queryTransition a (Some q))"
    by (cases a) (simp_all add: queryTransition_def pure_ids default_ids groupBy_ids removeFuncs_id toggleKapaField_id groupByTag_id
        applyFuncsToField_id chooseTag_id toggleField_id)
  then show "queryTransition a (Some q) = Inr q' \<Longrightarrow> qc_id q' = qc_id q" by (simp add: keeps_id_def)
qed

lemma reduced:
  assumes "queryStateReducer a i st = Inr st'"
  obtains q q' where "List.find (\<lambda>q. qc_id q = Some i) (ov_queriesWorkingDraft st) = Some q" "queryTransition a (Some q) = Inr q'"
    "st' = st\<lparr>ov_queriesWorkingDraft := map (\<lambda>x. if qc_id x = Some i then q'\<lparr>qc_source := nextSource x q'\<rparr> else x) (ov_queriesWorkingDraft st)\<rparr>"
proof (cases "List.find (\<lambda>q. qc_id q = Some i) (ov_queriesWorkingDraft st)")
  case None
  then show ?thesis using assms by (simp add: queryStateReducer_def bind_r_Inr_iff)
next
  case (Some q)
  then have i: "qc_id q = Some i" using find_Some by fastforce
  show ?thesis
  proof (cases "queryTransition a (Some q)")
    case (Inl e)
    then show ?thesis using assms Some by (simp add: queryStateReducer_def)
  next
    case (Inr q')
    then show ?thesis using that[OF Some Inr] assms Some i by (simp add: queryStateReducer_def)
  qed
qed

lemma deleted_drafts: "\<exists>keep. ov_queriesWorkingDraft (handleDeleteQuery index st) = nths (ov_queriesWorkingDraft st) keep"
proof -
  have "map snd (filter (\<lambda>(i, q). i \<noteq> index) (enumerate n qs)) = nths qs {i. i + n \<noteq> index}" for n and qs :: "query_config list"
  proof (induction qs arbitrary: n)
    case (Cons q qs)
    have "nths (q # qs) {i. i + n \<noteq> index} = (if n \<noteq> index then [q] else []) @ nths qs {i. i + Suc n \<noteq> index}"
      by (simp add: nths_Cons)
    then show ?case using Cons[of "Suc n"] by auto
  qed simp
  from this[of 0] show ?thesis by (auto simp: handleDeleteQuery_def)
qed

lemma draft_ids_step:
  assumes "overlay_step link_of p st e = Inr st'" and "overlay_event_ok st e"
  shows "(\<exists>uid. e = AddQuery uid \<and> draft_ids st' = draft_ids st @ [Some uid]) \<or> (\<exists>keep. draft_ids st' = nths (draft_ids st) keep)"
proof -
  have same: "\<exists>keep. draft_ids st' = nths (draft_ids st) keep" if "draft_ids st' = draft_ids st"
    using that nths_all[of "draft_ids st" UNIV] by (intro exI[of _ UNIV]) simp
  show ?thesis
  proof (cases e)
    case (Transition a i)
    then have step: "queryStateReducer a i st = Inr st'" using assms(1) by (simp add: overlay_step_def)
    obtain q q' where q: "List.find (\<lambda>q. qc_id q = Some i) (ov_queriesWorkingDraft st) = Some q" "queryTransition a (Some q) = Inr q'"
      "st' = st\<lparr>ov_queriesWorkingDraft := map (\<lambda>x. if qc_id x = Some i then q'\<lparr>qc_source := nextSource x q'\<rparr> else x) (ov_queriesWorkingDraft st)\<rparr>"
      using step by (rule reduced)
    have "qc_id q' = Some i" using transition_id[OF q(2)] find_Some[OF q(1)] by simp
    then have "draft_ids st' = draft_ids st" using q(3) by (simp add: draft_ids_def)
    then show ?thesis using same by blast
  next
    case (DeleteQuery i)
    obtain keep where "ov_queriesWorkingDraft (handleDeleteQuery i st) = nths (ov_queriesWorkingDraft st) keep" using deleted_drafts by blast
    then have "draft_ids st' = nths (draft_ids st) keep" using assms(1) DeleteQuery by (auto simp: overlay_step_def draft_ids_def nths_map)
    then show ?thesis by blast
  next
    case ShowActiveQuery
    then have "draft_ids st' = draft_ids st" using assms(1)
      by (auto simp: overlay_step_def getActiveQuery_def draft_ids_def active_draft_def map_update list_update_same_conv Let_def split: if_splits)
    then show ?thesis using same by blast
  next
    case (RawTextAnswer i s config)
    then have "draft_ids st' = draft_ids st" using assms
      by (auto simp: overlay_step_def handleEditRawText_def draft_ids_def overlay_event_ok_def Let_def split: option.splits)
    then show ?thesis using same by blast
  next
    case (Status old new another)
    then have "draft_ids st' = draft_ids st" using assms(1) by (auto simp: overlay_step_def componentWillReceiveProps_def draft_ids_def)
    then show ?thesis using same by blast
  next
    case (ChangeService service source)
    then have "draft_ids st' = draft_ids st" using assms(1) by (auto simp: overlay_step_def handleChangeService_def draft_ids_def)
    then show ?thesis using same by blast
  next
    case (AddQuery uid)
    then show ?thesis using assms(1) by (auto simp: overlay_step_def handleAddQuery_def draft_ids_def defaultQueryConfig_def Let_def)
  next
    case (SetActiveQuery i)
    then have "draft_ids st' = draft_ids st" using assms(1) by (auto simp: overlay_step_def draft_ids_def)
    then show ?thesis using same by blast
  next
    case (ToggleLegend legend)
    then have "draft_ids st' = draft_ids st" using assms(1) by (auto simp: overlay_step_def draft_ids_def)
    then show ?thesis using same by blast
  qed
qed

lemma draft_ids_distinct:
  "overlay_reaches link_of p st \<Longrightarrow> distinct (draft_ids st) \<and> None \<notin> set (draft_ids st)"
proof (induction rule: overlay_reaches.induct)
  case (opened uids legend)
  have "map (\<lambda>(u, q). qc_id (createWorkingDraft source u q)) (zip us qs) = map Some (take (length qs) us)" for source us qs
    by (induction us qs rule: list_induct2') (simp_all add: createWorkingDraft_def)
  then have "draft_ids (open_overlay link_of uids p legend) = map Some (take (length (queries_or_one (op_queries p))) uids)"
    by (simp add: draft_ids_def open_overlay_def createWorkingDrafts_def case_prod_unfold comp_def)
  then show ?case using opened by (auto simp: distinct_map)
next
  case (stepped st e st')
  show ?case
    using draft_ids_step[OF stepped(3,2)] stepped(2,4) by (auto simp: overlay_event_ok_def distinct_nthsI dest: in_set_nthsD)
qed


text \<open>
  C23: An edit reaches one draft. However the cell was edited before, no two drafts have the same id, and a transition on an id that
  does not throw changes exactly the draft with that id, by the transition, which keeps its source unless it sets one.
\<close>

theorem overlay_edits:
  assumes "overlay_reaches link_of p st" and "queryStateReducer a i st = Inr st'"
  shows "distinct (draft_ids st) \<and>
    (\<exists>n < length (ov_queriesWorkingDraft st). \<exists>q'. draft_ids st ! n = Some i \<and>
       queryTransition a (Some (ov_queriesWorkingDraft st ! n)) = Inr q' \<and>
       ov_queriesWorkingDraft st' = (ov_queriesWorkingDraft st)[n := q'\<lparr>qc_source := nextSource (ov_queriesWorkingDraft st ! n) q'\<rparr>])"
proof -
  have ids: "distinct (draft_ids st)" using draft_ids_distinct[OF assms(1)] by simp
  obtain q q' where q: "List.find (\<lambda>q. qc_id q = Some i) (ov_queriesWorkingDraft st) = Some q" "queryTransition a (Some q) = Inr q'"
    "st' = st\<lparr>ov_queriesWorkingDraft := map (\<lambda>x. if qc_id x = Some i then q'\<lparr>qc_source := nextSource x q'\<rparr> else x) (ov_queriesWorkingDraft st)\<rparr>"
    using assms(2) by (rule reduced)
  obtain n where n: "n < length (ov_queriesWorkingDraft st)" "ov_queriesWorkingDraft st ! n = q" "qc_id q = Some i"
    using find_Some[OF q(1)] by (auto simp: in_set_conv_nth)
  have other: "qc_id (ov_queriesWorkingDraft st ! m) \<noteq> Some i" if "m < length (ov_queriesWorkingDraft st)" "m \<noteq> n" for m
    using that n ids by (metis draft_ids_def length_map nth_eq_iff_index_eq nth_map)
  have "ov_queriesWorkingDraft st' = (ov_queriesWorkingDraft st)[n := q'\<lparr>qc_source := nextSource q q'\<rparr>]"
    unfolding q(3) by (rule nth_equalityI) (use n other in \<open>auto simp: nth_list_update\<close>)
  then show ?thesis using ids n q(2) by (auto simp: draft_ids_def)
qed

lemma savable_text:
  assumes "savable q = Inr True" and "save_query is_date link_of q = Inr r"
  shows "truthy (oq_query r)"
proof (cases "truthy (qc_rawText q)")
  case True
  then show ?thesis using assms(2) by (auto simp: save_query_def)
next
  case False
  then have built: "truthy (qc_measurement q)" "truthy (qc_database q)" "qc_fields q \<noteq> None" "qc_fields q \<noteq> Some []"
    using assms(1) by (auto simp: savable_def bind_r_Inr_iff map_res_Inr_iff deref_Inr_iff split: if_splits)
  then obtain s where select: "buildSelect q [] = Some (''SELECT '' @ s)" by (simp add: buildSelect_def)
  obtain s' where s': "oq_query r = s'" "buildInfluxQLQuery (case qc_range q of Some r \<Rightarrow> bounds_of_range r
      | None \<Rightarrow> \<lparr>b_lower = Some TEMP_VAR_DASHBOARD_TIME, b_upper = None\<rparr>) q [] = Inr s'"
    using assms(2) False by (auto simp: save_query_def buildQuery_def map_res_Inr_iff Let_def)
  then show ?thesis
    unfolding buildInfluxQLQuery_def Let_def select by (auto simp: bind_r_Inr_iff map_res_Inr_iff truthy_def)
qed

lemma list_all2_set2_elem: "list_all2 P xs ys \<Longrightarrow> y \<in> set ys \<Longrightarrow> \<exists>x\<in>set xs. P x y"
  by (induction rule: list_all2_induct) auto

lemma every_r_True: "every_r f xs = Inr True \<Longrightarrow> \<forall>x\<in>set xs. f x = Inr True"
  by (induction xs) (auto simp: bind_r_Inr_iff split: if_splits)

text \<open>
  What may be saved has a text. When the button to save is enabled and saving does not throw, no query of the saved cell is without one.
\<close>

theorem savable_has_text:
  assumes "isSaveable st = Inr True" and "saved_queries is_date link_of st = Inr qs"
  shows "\<forall>r\<in>set qs. truthy (oq_query r)"
proof
  fix r
  assume "r \<in> set qs"
  moreover have "list_all2 (\<lambda>q r. save_query is_date link_of q = Inr r) (ov_queriesWorkingDraft st) qs"
    using assms(2) unfolding saved_queries_def map_r_Inr_iff .
  ultimately obtain q where "q \<in> set (ov_queriesWorkingDraft st)" "save_query is_date link_of q = Inr r"
    by (blast dest: list_all2_set2_elem)
  then show "truthy (oq_query r)" using savable_text every_r_True assms(1) unfolding isSaveable_def by blast
qed


definition sample_draft :: query_config where
  "sample_draft = (defaultQueryConfig (Some ''1'') False)\<lparr>qc_database := Some ''db'', qc_measurement := Some ''cpu'',
     qc_fields := Some [Field ''usage'' ''field'' None None], qc_source := Some ''5''\<rparr>"

definition sample_overlay :: "query_config list \<Rightarrow> overlay" where
  "sample_overlay drafts = \<lparr>ov_queriesWorkingDraft = drafts, ov_activeQueryIndex = 0, ov_isStaticLegend = False,
     ov_selectedSource = None, ov_selectedService = None\<rparr>"

definition sample_text :: string where
  "sample_text = ''SELECT '' @ quoted (CHR 0x22) ''usage'' @ '' FROM '' @ qualified_measurement ''db'' None ''cpu'' @ '' WHERE time > :dashboardTime:''"

lemma sample_saved:
  "saved_queries (\<lambda>_. False) link_of (sample_overlay [sample_draft]) =
     Inr [\<lparr>oq_query = Some sample_text, oq_queryConfig = Some sample_draft, oq_source = Some (link_of ''5'')\<rparr>]"
  by (simp add: saved_queries_def sample_overlay_def save_query_def sample_draft_def defaultQueryConfig_def empty_object_def truthy_def buildQuery_def
      buildInfluxQLQuery_def buildSelect_def buildFields.simps buildWhereClause_def time_clauses_def tag_clauses_def quoteIfTimestamp_def quote_time_def
      buildGroupBy_def buildGroupByTime_def buildGroupByTags_def TYPE_QUERY_CONFIG_def sample_text_def TEMP_VAR_DASHBOARD_TIME_def
      js_includes_def obj_entries_def obj_keys_def map_filter_def Let_def opt_str_def)

lemma savable_has_text_witness:
  "truthy (Some sample_text)"
  using savable_has_text[OF _ sample_saved]
  by (simp add: isSaveable_def sample_overlay_def savable_def sample_draft_def defaultQueryConfig_def empty_object_def truthy_def Let_def)

definition sample_overlay_props :: overlay_props where
  "sample_overlay_props = \<lparr>op_queries = [\<lparr>oq_query = None, oq_queryConfig = Some sample_draft, oq_source = Some ''/5''\<rparr>], op_source = ''7'',
     op_sources = [''7'', ''5''], op_templates = []\<rparr>"

definition sample_link :: "string \<Rightarrow> string" where
  "sample_link s = ''/'' @ s"

lemma overlay_edits_witness:
  "let st = open_overlay sample_link [''u''] sample_overlay_props False
   in distinct (draft_ids st) \<and>
    (\<exists>n < length (ov_queriesWorkingDraft st). \<exists>q'. draft_ids st ! n = Some ''u'' \<and>
       queryTransition (T_fill (Some ''0'')) (Some (ov_queriesWorkingDraft st ! n)) = Inr q' \<and>
       [(sample_draft\<lparr>qc_id := Some ''u'', qc_fill := Some ''0''\<rparr>)] =
         (ov_queriesWorkingDraft st)[n := q'\<lparr>qc_source := nextSource (ov_queriesWorkingDraft st ! n) q'\<rparr>])"
proof -
  let ?st = "open_overlay sample_link [''u''] sample_overlay_props False"
  have opened: "ov_queriesWorkingDraft ?st = [sample_draft\<lparr>qc_id := Some ''u''\<rparr>]"
    by (simp add: open_overlay_def createWorkingDrafts_def createWorkingDraft_def queries_or_one_def sample_overlay_props_def initialSource_def
        spread_def sample_draft_def sample_link_def)
  have step: "queryStateReducer (T_fill (Some ''0'')) ''u'' ?st = Inr (?st\<lparr>ov_queriesWorkingDraft := [sample_draft\<lparr>qc_id := Some ''u'', qc_fill := Some ''0''\<rparr>]\<rparr>)"
    unfolding queryStateReducer_def opened
    by (simp add: queryTransition_def fill_def spread_def nextSource_def sample_draft_def defaultQueryConfig_def empty_object_def)
  have "overlay_reaches sample_link sample_overlay_props ?st" by (rule overlay_reaches.opened) simp
  from overlay_edits[OF this step] show ?thesis unfolding Let_def by simp
qed

definition without_id :: "query_config option \<Rightarrow> query_config option" where
  "without_id q = map_option (\<lambda>c. c\<lparr>qc_id := None\<rparr>) q"

lemma save_query_id:
  assumes "save_query is_date link_of q = Inr r"
  shows "save_query is_date link_of (q\<lparr>qc_id := u\<rparr>) = Inr (r\<lparr>oq_queryConfig := Some (q\<lparr>qc_id := u\<rparr>)\<rparr>)"
proof -
  have "buildSelect (q\<lparr>qc_id := u\<rparr>) [] = buildSelect q []" by (cases q) (simp add: buildSelect_def)
  moreover have "buildInfluxQLQuery r (q\<lparr>qc_id := u\<rparr>) [] = buildInfluxQLQuery r q []" for r
    using calculation by (cases q) (simp add: buildInfluxQLQuery_def cong: if_cong option.case_cong)
  ultimately show ?thesis using assms by (auto simp: save_query_def buildQuery_def map_res_Inr_iff Let_def TYPE_QUERY_CONFIG_def)
qed



text \<open>
  A new query gets the source the cell was opened with and not the one that was chosen since, so the queries of the cell run on
  different sources; when the cell is opened again, all are moved to the source of the first.
\<close>

lemma added_query_keeps_old_source:
  "qc_source (last (ov_queriesWorkingDraft (handleAddQuery link_of p uid (handleChangeService service source st)))) = initialSource link_of p"
  by (simp add: handleAddQuery_def)

text \<open>
  A status that arrives is stored in the draft the last status was for, and the first status in none.
\<close>

lemma status_of_other_query:
  assumes "a \<noteq> b"
  shows "map qc_status (ov_queriesWorkingDraft (componentWillReceiveProps (Some a, old) (Some b, Some status) another
      (sample_overlay [sample_draft\<lparr>qc_id := Some a\<rparr>, sample_draft\<lparr>qc_id := Some b\<rparr>]))) =
    (if b = [] then [None, None] else [Some status, None])"
  using assms by (auto simp: componentWillReceiveProps_def sample_overlay_def truthy_def sample_draft_def defaultQueryConfig_def empty_object_def Let_def)

end
