(* ===== verification/Flux_Results.thy ===== *)
theory Flux_Results
  imports Js_Prelude "HOL-Library.List_Lexorder" "HOL-Library.Char_ord" "HOL-Library.Multiset"
begin

text \<open>
  The answers of a Flux query: cutting the text of an answer into tables (\<open>ui/src/shared/parsing/flux/response.ts\<close>), a column of
  values (\<open>values.ts\<close>) and the rows of a graph (\<open>dygraph.ts\<close>). What the CSV parser makes of a text is the
  parameter \<open>csv\<close>, the number of a text \<open>num\<close>; the date made from a time stays that time.
\<close>

section \<open>Tables\<close>

record flux_table =
  ft_id :: string
  ft_name :: string
  ft_data :: "string list list"
  ft_groupKey :: "string js_obj"

definition group_rows :: "nat option \<Rightarrow> string list list \<Rightarrow> string list list js_obj" where
  \<comment> \<open>\<open>_.groupBy\<close> by the column of the table id\<close>
  "group_rows i rows = foldl (\<lambda>acc row.
     let k = opt_str (at_index row i) in obj_set acc k ((case obj_get acc k of None \<Rightarrow> [] | Some rs \<Rightarrow> rs) @ [row])) [] rows"

definition table_of_rows :: "(nat \<Rightarrow> string) \<Rightarrow> string list \<Rightarrow> string list \<Rightarrow> nat \<times> string list list \<Rightarrow> flux_table" where
  \<comment> \<open>the last callback of \<open>parseTables\<close>, from the header and the row of the groups\<close>
  "table_of_rows uid headerRow groupRow it = (case it of (i, tableData) \<Rightarrow>
     let groupKeyIndices = filter (\<lambda>j. groupRow ! j = ''true'') [0..<length groupRow];
         dataRow = (case tableData of [] \<Rightarrow> [] | r # _ \<Rightarrow> r);
         groupKey = foldl (\<lambda>acc j. obj_set acc (opt_str (at_index headerRow (Some j)))
             (case at_index dataRow (Some j) of None \<Rightarrow> [] | Some v \<Rightarrow> v)) [] groupKeyIndices;
         name = js_join '' '' (map (\<lambda>(k, v). k @ ''='' @ v) (filter (\<lambda>(k, v). k \<notin> {''_start'', ''_stop''}) (obj_entries groupKey)))
     in \<lparr>ft_id = uid i, ft_name = name, ft_data = headerRow # tableData, ft_groupKey = groupKey\<rparr>)"

definition newline :: string where "newline = [CHR 0x0A]"

definition parseTables :: "(nat \<Rightarrow> string) \<Rightarrow> (string \<Rightarrow> string list list) \<Rightarrow> string \<Rightarrow> flux_table list result" where
  "parseTables uid csv responseChunk =
     (let lines = js_split responseChunk newline;
          annotationLines = js_join newline (filter (prefix ''#'') lines);
          nonAnnotationLines = js_join newline (filter (\<lambda>l. \<not> prefix ''#'' l) lines)
      in if annotationLines = [] then Inl (Thrown ''Unable to extract annotation data'')
         else if nonAnnotationLines = [] then Inr []
         else let nonAnnotationData = csv nonAnnotationLines; annotationData = csv annotationLines
              in case nonAnnotationData of
                   [] \<Rightarrow> Inl TypeError
                 | headerRow # rows \<Rightarrow>
                     let tableColIndex = find_index (\<lambda>h. h = ''table'') headerRow;
                         tablesData = obj_values (group_rows tableColIndex rows)
                     in map_res (\<lambda>groupRow. map (table_of_rows uid headerRow groupRow) (enumerate 0 tablesData))
                          (deref (List.find (\<lambda>row. at_index row (Some 0) = Some ''#group'') annotationData)))"

text \<open>
  \<open>split(/\n\s*\n/)\<close>: a separator starts at a line end and reaches to the last line end of the white space that follows.
\<close>

definition after_blank_lines :: "string \<Rightarrow> string option" where
  \<comment> \<open>what follows the separator, if the text behind a line end completes one\<close>
  "after_blank_lines s =
     (let ws = takeWhile is_space s
      in if CHR 0x0A \<in> set ws then Some (rev (takeWhile (\<lambda>c. c \<noteq> CHR 0x0A) (rev ws)) @ dropWhile is_space s) else None)"

lemma takeWhile_shorter: "x \<in> set xs \<Longrightarrow> \<not> P x \<Longrightarrow> length (takeWhile P xs) < length xs"
  by (induction xs) auto

lemma after_blank_lines_length:
  assumes "after_blank_lines s = Some t"
  shows "length t < length s"
proof -
  let ?ws = "takeWhile is_space s"
  have "CHR 0x0A \<in> set ?ws" and t: "t = rev (takeWhile (\<lambda>c. c \<noteq> CHR 0x0A) (rev ?ws)) @ dropWhile is_space s"
    using assms by (auto simp: after_blank_lines_def Let_def split: if_splits)
  then have "length (takeWhile (\<lambda>c. c \<noteq> CHR 0x0A) (rev ?ws)) < length ?ws"
    using takeWhile_shorter[of "CHR 0x0A" "rev ?ws"] by simp
  moreover have "length ?ws + length (dropWhile is_space s) = length s"
    by (metis length_append takeWhile_dropWhile_id)
  ultimately show ?thesis by (simp add: t)
qed

function split_chunks :: "string \<Rightarrow> string \<Rightarrow> string list" where
  \<comment> \<open>with the chunk read so far\<close>
  "split_chunks acc [] = [acc]"
| "split_chunks acc (c # cs) =
     (if c = CHR 0x0A
      then (case after_blank_lines cs of
              None \<Rightarrow> split_chunks (acc @ [c]) cs
            | Some rest \<Rightarrow> acc # split_chunks [] rest)
      else split_chunks (acc @ [c]) cs)"
  by pat_completeness auto
termination by (relation "measure (\<lambda>(acc, s). length s)") (auto dest: after_blank_lines_length)

fun concat_r :: "'a list result list \<Rightarrow> 'a list result" where
  "concat_r [] = Inr []"
| "concat_r (r # rs) = bind_r r (\<lambda>xs. map_res (\<lambda>ys. xs @ ys) (concat_r rs))"

definition parseResponse :: "(nat \<Rightarrow> nat \<Rightarrow> string) \<Rightarrow> (string \<Rightarrow> string list list) \<Rightarrow> string \<Rightarrow> flux_table list result" where
  "parseResponse uid csv response =
     (let trimmedResponse = js_trim response
      in if trimmedResponse = [] then Inr []
         else concat_r (map (\<lambda>(i, chunk). parseTables (uid i) csv chunk) (enumerate 0 (split_chunks [] trimmedResponse))))"

definition parseResponseError :: "string \<Rightarrow> (string \<Rightarrow> string list list) \<Rightarrow> string \<Rightarrow> flux_table list" where
  "parseResponseError uid csv response = [\<lparr>ft_id = uid, ft_name = ''Error'', ft_data = csv (js_trim response), ft_groupKey = []\<rparr>]"

section \<open>Values and graphs\<close>

definition table_values :: "flux_table \<Rightarrow> string option list result" where
  \<comment> \<open>what the reducer of \<open>parseValuesColumn\<close> adds; a short row has no value\<close>
  "table_values t =
     (case ft_data t of
        [] \<Rightarrow> Inl TypeError
      | header # rows \<Rightarrow>
          (case find_index (\<lambda>h. h = ''_value'') header of
             None \<Rightarrow> Inr []
           | Some i \<Rightarrow> Inr (map (\<lambda>row. at_index row (Some i)) rows)))"

definition parseValuesColumn ::
    "(nat \<Rightarrow> nat \<Rightarrow> string) \<Rightarrow> (string \<Rightarrow> string list list) \<Rightarrow> (string \<Rightarrow> string) \<Rightarrow> string \<Rightarrow> string list result" where
  \<comment> \<open>\<open>lower\<close> is \<open>toLocaleLowerCase\<close>, which a missing value does not have\<close>
  "parseValuesColumn uid csv lower resp =
     bind_r (parseResponse uid csv resp) (\<lambda>results.
     bind_r (concat_r (map table_values results)) (\<lambda>tags.
     map_res (\<lambda>ts. sort_key lower ts) (map_r deref tags)))"

definition time_values :: "nat \<Rightarrow> 'n option list js_obj \<Rightarrow> flux_table \<Rightarrow> 'n option list js_obj result" where
  \<comment> \<open>the first loop of \<open>fluxTablesToDygraph\<close>: every time gets an empty row\<close>
  "time_values n acc t =
     (case ft_data t of
        [] \<Rightarrow> Inl TypeError
      | header # rows \<Rightarrow>
          let timeColIndex = find_index (\<lambda>c. c = ''_time'') header
          in Inr (foldl (\<lambda>acc row. obj_set acc (opt_str (at_index row timeColIndex)) (replicate n None)) acc rows))"

definition put_value :: "nat \<Rightarrow> string \<Rightarrow> 'n \<Rightarrow> 'n option list js_obj \<Rightarrow> 'n option list js_obj" where
  \<comment> \<open>\<open>valuesForTime[time][i] = +value\<close>, of a time that has a row\<close>
  "put_value i time v acc = (case obj_get acc time of None \<Rightarrow> acc | Some vs \<Rightarrow> obj_set acc time (vs[i := Some v]))"

definition fill_values :: "(string option \<Rightarrow> 'n) \<Rightarrow> 'n option list js_obj \<Rightarrow> nat \<times> flux_table \<Rightarrow> 'n option list js_obj result" where
  "fill_values num acc it = (case it of (i, t) \<Rightarrow>
     (case ft_data t of
        [] \<Rightarrow> Inl TypeError
      | header # rows \<Rightarrow>
          let timeColIndex = find_index (\<lambda>c. c = ''_time'') header;
              valueColIndex = find_index (\<lambda>c. c = ''_value'') header
          in Inr (foldl (\<lambda>acc row. put_value i (opt_str (at_index row timeColIndex)) (num (at_index row valueColIndex)) acc) acc rows)))"

fun fold_tables :: "('b \<Rightarrow> 'a \<Rightarrow> 'b result) \<Rightarrow> 'b \<Rightarrow> 'a list \<Rightarrow> 'b result" where
  "fold_tables f acc [] = Inr acc"
| "fold_tables f acc (x # xs) = bind_r (f acc x) (\<lambda>acc'. fold_tables f acc' xs)"

definition fluxTablesToDygraph :: "(string option \<Rightarrow> 'n) \<Rightarrow> flux_table list \<Rightarrow> (string \<times> 'n option list) list result" where
  "fluxTablesToDygraph num tables =
     bind_r (fold_tables (time_values (length tables)) [] tables) (\<lambda>empty.
     map_res (\<lambda>valuesForTime. sort_key fst (obj_entries valuesForTime))
       (fold_tables (fill_values num) empty (enumerate 0 tables)))"

section \<open>The rows of a graph\<close>

definition rows_of :: "flux_table \<Rightarrow> string list list" where
  "rows_of t = tl (ft_data t)"

definition cell_of :: "string \<Rightarrow> flux_table \<Rightarrow> string list \<Rightarrow> string option" where
  "cell_of column t row = at_index row (find_index (\<lambda>c. c = column) (hd (ft_data t)))"

definition row_time :: "flux_table \<Rightarrow> string list \<Rightarrow> string" where
  "row_time t row = opt_str (cell_of ''_time'' t row)"

definition last_value :: "(string option \<Rightarrow> 'n) \<Rightarrow> flux_table \<Rightarrow> string \<Rightarrow> 'n option" where
  \<comment> \<open>the value of the last row of a table with a time\<close>
  "last_value num t time =
     (case filter (\<lambda>r. row_time t r = time) (rows_of t) of
        [] \<Rightarrow> None | r # rs \<Rightarrow> Some (num (cell_of ''_value'' t (last (r # rs)))))"

lemma flux_value_snoc:
  "last_value num (t\<lparr>ft_data := h # (rs @ [r])\<rparr>) time =
     (if row_time (t\<lparr>ft_data := [h]\<rparr>) r = time then Some (num (cell_of ''_value'' (t\<lparr>ft_data := [h]\<rparr>) r))
      else last_value num (t\<lparr>ft_data := h # rs\<rparr>) time)"
  by (auto simp: last_value_def rows_of_def row_time_def cell_of_def split: list.split)

lemma time_rows:
  "obj_get (foldl (\<lambda>acc row. obj_set acc (f row) v) acc rows) k = (if k \<in> f ` set rows then Some v else obj_get acc k)"
  by (induction rows arbitrary: acc) (auto simp: obj_get_set)

lemma time_rows_ok: "obj_ok acc \<Longrightarrow> obj_ok (foldl (\<lambda>acc row. obj_set acc (f row) v) acc rows)"
  by (induction rows arbitrary: acc) auto

lemma empty_rows:
  assumes "\<forall>t\<in>set ts. ft_data t \<noteq> []"
  shows "\<exists>E. fold_tables (time_values n) acc ts = Inr E \<and> (obj_ok acc \<longrightarrow> obj_ok E) \<and>
    (\<forall>k. obj_get E k = (if \<exists>t\<in>set ts. k \<in> row_time t ` set (rows_of t) then Some (replicate n None) else obj_get acc k))"
  using assms
proof (induction ts arbitrary: acc)
  case (Cons t ts)
  then obtain h rs where t: "ft_data t = h # rs" by (cases "ft_data t") auto
  let ?acc = "foldl (\<lambda>acc row. obj_set acc (row_time t row) (replicate n None)) acc rs"
  have step: "time_values n acc t = Inr ?acc"
    by (simp add: time_values_def t row_time_def cell_of_def Let_def)
  obtain E where E: "fold_tables (time_values n) ?acc ts = Inr E" "obj_ok ?acc \<longrightarrow> obj_ok E"
    "\<forall>k. obj_get E k = (if \<exists>t\<in>set ts. k \<in> row_time t ` set (rows_of t) then Some (replicate n None) else obj_get ?acc k)"
    using Cons.IH[of ?acc] Cons.prems by auto
  have "rows_of t = rs" by (simp add: rows_of_def t)
  then show ?case using step E time_rows_ok[of acc "row_time t" "replicate n None" rs] by (auto simp: time_rows)
qed simp

lemma put_value_get:
  "obj_get (put_value i time v acc) k = (if k = time then map_option (\<lambda>vs. vs[i := Some v]) (obj_get acc k) else obj_get acc k)"
  by (auto simp: put_value_def obj_get_set split: option.split)

lemma put_value_ok: "obj_ok acc \<Longrightarrow> obj_ok (put_value i time v acc)"
  by (simp add: put_value_def split: option.split)

definition column :: "(string option \<Rightarrow> 'n) \<Rightarrow> string \<Rightarrow> 'n option list \<Rightarrow> nat \<times> flux_table \<Rightarrow> 'n option list" where
  "column num k vs it = (case last_value num (snd it) k of None \<Rightarrow> vs | Some v \<Rightarrow> vs[fst it := Some v])"

lemma fill_table:
  assumes "ft_data t \<noteq> []"
  shows "\<exists>F. fill_values num acc (i, t) = Inr F \<and> (obj_ok acc \<longrightarrow> obj_ok F) \<and>
    (\<forall>k. obj_get F k = map_option (\<lambda>vs. column num k vs (i, t)) (obj_get acc k))"
proof -
  obtain h rs where t: "ft_data t = h # rs" using assms by (cases "ft_data t") auto
  let ?F = "\<lambda>rs. foldl (\<lambda>acc row. put_value i (row_time t row) (num (cell_of ''_value'' t row)) acc) acc rs"
  have "(obj_ok acc \<longrightarrow> obj_ok (?F rs)) \<and> (\<forall>k. obj_get (?F rs) k =
      map_option (\<lambda>vs. column num k vs (i, t\<lparr>ft_data := h # rs\<rparr>)) (obj_get acc k))" for rs
  proof (induction rs rule: rev_induct)
    case Nil
    show ?case by (simp add: column_def last_value_def rows_of_def option.map_ident)
  next
    case (snoc r rs)
    have "row_time (t\<lparr>ft_data := [h]\<rparr>) r = row_time t r" "cell_of ''_value'' (t\<lparr>ft_data := [h]\<rparr>) r = cell_of ''_value'' t r"
      by (simp_all add: row_time_def cell_of_def t)
    then have "map_option (\<lambda>vs. column num k vs (i, t\<lparr>ft_data := h # (rs @ [r])\<rparr>)) x =
        (if k = row_time t r then map_option (\<lambda>vs. vs[i := Some (num (cell_of ''_value'' t r))])
             (map_option (\<lambda>vs. column num k vs (i, t\<lparr>ft_data := h # rs\<rparr>)) x)
         else map_option (\<lambda>vs. column num k vs (i, t\<lparr>ft_data := h # rs\<rparr>)) x)" for k x
      using flux_value_snoc[where num = num and t = t and h = h and rs = rs and r = r and time = k]
      by (cases x) (auto simp: column_def split: option.split)
    then show ?case using snoc by (simp add: put_value_get put_value_ok)
  qed
  note fold = this[of rs]
  have same: "t\<lparr>ft_data := h # rs\<rparr> = t" using t by (cases t) simp
  show ?thesis
    using fold[unfolded same] by (simp add: fill_values_def t row_time_def cell_of_def Let_def)
qed

lemma filled_rows:
  assumes "\<forall>t\<in>set ts. ft_data t \<noteq> []"
  shows "\<exists>F. fold_tables (fill_values num) acc (enumerate m ts) = Inr F \<and> (obj_ok acc \<longrightarrow> obj_ok F) \<and>
    (\<forall>k. obj_get F k = map_option (\<lambda>vs. foldl (column num k) vs (enumerate m ts)) (obj_get acc k))"
  using assms
proof (induction ts arbitrary: acc m)
  case Nil
  then show ?case by (simp add: option.map_ident)
next
  case (Cons t ts)
  obtain A where A: "fill_values num acc (m, t) = Inr A" "obj_ok acc \<longrightarrow> obj_ok A"
    "\<forall>k. obj_get A k = map_option (\<lambda>vs. column num k vs (m, t)) (obj_get acc k)"
    using fill_table[of t num acc m] Cons.prems by auto
  obtain F where "fold_tables (fill_values num) A (enumerate (Suc m) ts) = Inr F" "obj_ok A \<longrightarrow> obj_ok F"
    "\<forall>k. obj_get F k = map_option (\<lambda>vs. foldl (column num k) vs (enumerate (Suc m) ts)) (obj_get A k)"
    using Cons.IH[of A "Suc m"] Cons.prems by auto
  then show ?case using A by (auto simp: option.map_comp o_def)
qed

lemma column_length [simp]: "length (column num k vs it) = length vs"
  by (simp add: column_def split: option.split)

lemma columns_nth:
  "length (foldl (column num k) vs (enumerate 0 ts)) = length vs \<and>
   (length ts \<le> length vs \<longrightarrow> (\<forall>i<length vs. foldl (column num k) vs (enumerate 0 ts) ! i =
      (if i < length ts then case last_value num (ts ! i) k of None \<Rightarrow> vs ! i | Some v \<Rightarrow> Some v else vs ! i)))"
proof (induction ts rule: rev_induct)
  case (snoc t ts)
  then show ?case
    by (auto simp: enumerate_append_eq column_def nth_list_update nth_append less_Suc_eq split: option.split)
qed simp

text \<open>
  The rows of a Flux graph. For tables with a header there is one row for each time that some table has, in ascending order; it has one
  column for each table, with the value of the table's last row of that time, and null where the table
  has none.
\<close>

theorem flux_graph_rows:
  fixes num :: "string option \<Rightarrow> 'n"
  assumes "\<forall>t\<in>set tables. ft_data t \<noteq> []"
  shows "\<exists>rs. fluxTablesToDygraph num tables = Inr rs \<and> sorted (map fst rs) \<and> distinct (map fst rs) \<and>
    fst ` set rs = (\<Union>t\<in>set tables. row_time t ` set (rows_of t)) \<and>
    (\<forall>(time, vs)\<in>set rs. vs = map (\<lambda>t. last_value num t time) tables)"
proof -
  let ?n = "length tables"
  obtain E :: "'n option list js_obj" where E: "fold_tables (time_values ?n) [] tables = Inr E" "obj_ok E"
    "\<forall>k. obj_get E k = (if \<exists>t\<in>set tables. k \<in> row_time t ` set (rows_of t) then Some (replicate ?n None) else None)"
    using empty_rows[OF assms, of ?n "[]", unfolded obj_get_simps(1)] by auto
  obtain F where F: "fold_tables (fill_values num) E (enumerate 0 tables) = Inr F" "obj_ok E \<longrightarrow> obj_ok F"
    "\<forall>k. obj_get F k = map_option (\<lambda>vs. foldl (column num k) vs (enumerate 0 tables)) (obj_get E k)"
    using filled_rows[OF assms, of num E 0] by blast
  have ok: "obj_ok F" using E(2) F(2) by simp
  define rs where "rs = sort_key fst (obj_entries F)"
  have run: "fluxTablesToDygraph num tables = Inr rs" by (simp add: fluxTablesToDygraph_def E(1) F(1) rs_def)
  have "mset (map fst rs) = mset (obj_keys F)" unfolding rs_def mset_map mset_sort by (simp flip: mset_map add: keys_obj_entries)
  then have d: "distinct (map fst rs)" using distinct_obj_keys[OF ok] mset_eq_imp_distinct_iff by blast
  have mem: "(time, vs) \<in> set rs \<longleftrightarrow> obj_get F time = Some vs" for time vs
  proof -
    have "distinct (map fst (obj_entries F))" using distinct_obj_keys[OF ok] by (simp add: keys_obj_entries)
    then show ?thesis unfolding rs_def set_sort using map_of_obj_entries[of F time] map_of_eq_Some_iff by metis
  qed
  have keys: "fst ` set rs = {k. obj_get F k \<noteq> None}" using mem by force
  have times: "fst ` set rs = (\<Union>t\<in>set tables. row_time t ` set (rows_of t))"
    unfolding keys using F(3) E(3) by auto
  have "vs = map (\<lambda>t. last_value num t time) tables" if "(time, vs) \<in> set rs" for time vs
  proof -
    have "vs = foldl (column num time) (replicate ?n None) (enumerate 0 tables)"
      using that mem F(3) E(3) by (auto split: if_splits)
    then show ?thesis
      using columns_nth[of num time "replicate ?n None" tables] by (auto intro!: nth_equalityI split: option.split)
  qed
  then show ?thesis using run d times by (auto simp: rs_def)
qed

definition sample_table :: "string list list \<Rightarrow> flux_table" where
  "sample_table rows = \<lparr>ft_id = [], ft_name = [], ft_data = [''_time'', ''_value''] # rows, ft_groupKey = []\<rparr>"

lemma flux_graph_rows_witness:
  "\<exists>rs. fluxTablesToDygraph id [sample_table [[''2018-06-02'', ''1''], [''2018-06-01'', ''2'']], sample_table [[''2018-06-01'', ''3'']]] = Inr rs \<and>
    sorted (map fst rs) \<and> distinct (map fst rs) \<and>
    fst ` set rs = (\<Union>t\<in>set [sample_table [[''2018-06-02'', ''1''], [''2018-06-01'', ''2'']], sample_table [[''2018-06-01'', ''3'']]].
      row_time t ` set (rows_of t)) \<and>
    (\<forall>(time, vs)\<in>set rs. vs = map (\<lambda>t. last_value id t time)
       [sample_table [[''2018-06-02'', ''1''], [''2018-06-01'', ''2'']], sample_table [[''2018-06-01'', ''3'']]])"
  by (rule flux_graph_rows) (simp add: sample_table_def)

section \<open>The rows of an answer\<close>

definition table_key :: "string list \<Rightarrow> string list \<Rightarrow> string" where
  \<comment> \<open>the table a row belongs to, under a header\<close>
  "table_key header row = opt_str (at_index row (find_index (\<lambda>h. h = ''table'') header))"

lemma group_rows_get:
  "obj_ok (group_rows i rows) \<and> obj_get (group_rows i rows) k =
     (case filter (\<lambda>r. opt_str (at_index r i) = k) rows of [] \<Rightarrow> None | r # rs \<Rightarrow> Some (r # rs))"
proof (induction rows rule: rev_induct)
  case Nil
  then show ?case by (simp add: group_rows_def)
next
  case (snoc row rows)
  have "group_rows i (rows @ [row]) = obj_set (group_rows i rows) (opt_str (at_index row i))
      ((case obj_get (group_rows i rows) (opt_str (at_index row i)) of None \<Rightarrow> [] | Some rs \<Rightarrow> rs) @ [row])"
    by (simp add: group_rows_def Let_def)
  then show ?case using snoc by (auto simp: obj_get_set split: list.split)
qed

lemma filter_mset_parts:
  "a \<notin> A \<Longrightarrow> filter_mset (\<lambda>r. f r = a) M + filter_mset (\<lambda>r. f r \<in> A) M = filter_mset (\<lambda>r. f r = a \<or> f r \<in> A) M"
  by (induction M) auto

lemma mset_groups: "distinct ks \<Longrightarrow> mset (concat (map (\<lambda>k. filter (\<lambda>r. f r = k) rows) ks)) = filter_mset (\<lambda>r. f r \<in> set ks) (mset rows)"
  by (induction ks) (simp_all add: filter_mset_parts)

lemma grouped_rows:
  fixes i :: "nat option" and rows :: "string list list"
  defines "key \<equiv> \<lambda>r. opt_str (at_index r i)" and "G \<equiv> group_rows i rows"
  shows "obj_values G = map (\<lambda>k. filter (\<lambda>r. key r = k) rows) (obj_keys G)"
    and "set (obj_keys G) = key ` set rows" and "distinct (obj_keys G)"
proof -
  have get: "obj_get G k = (case filter (\<lambda>r. key r = k) rows of [] \<Rightarrow> None | r # rs \<Rightarrow> Some (r # rs))" for k
    using group_rows_get[of i rows k] by (simp add: G_def key_def)
  have ok: "obj_ok G" using group_rows_get[of i rows] by (simp add: G_def)
  show d: "distinct (obj_keys G)" by (rule distinct_obj_keys[OF ok])
  have "k \<in> set (obj_keys G) \<longleftrightarrow> filter (\<lambda>r. key r = k) rows \<noteq> []" for k
    using get[of k] obj_get_None_iff[of G k] by (auto split: list.splits)
  then show "set (obj_keys G) = key ` set rows" unfolding set_eq_iff filter_empty_conv image_iff by metis
  show "obj_values G = map (\<lambda>k. filter (\<lambda>r. key r = k) rows) (obj_keys G)"
    unfolding obj_values_eq
  proof (rule map_cong[OF refl])
    fix k assume "k \<in> set (obj_keys G)"
    then have "obj_get G k \<noteq> None" using obj_get_present[of k G] by (metis option.discI)
    then show "the (obj_get G k) = filter (\<lambda>r. key r = k) rows" using get[of k] by (simp split: list.splits)
  qed
qed

text \<open>
  No row of an answer is lost or doubled. When a chunk is cut into tables, each table has the header and all the rows of one
  table id, in their order; no two tables have the same id, and together they have every row of the chunk once.
\<close>

theorem parseTables_rows:
  assumes "parseTables uid csv chunk = Inr ts" and "csv (js_join newline (filter (\<lambda>l. \<not> prefix ''#'' l) (js_split chunk newline))) = header # rows"
    and "js_join newline (filter (\<lambda>l. \<not> prefix ''#'' l) (js_split chunk newline)) \<noteq> []"
  shows "mset (concat (map rows_of ts)) = mset rows \<and>
    (\<exists>ks. distinct ks \<and> set ks = table_key header ` set rows \<and>
       map ft_data ts = map (\<lambda>k. header # filter (\<lambda>r. table_key header r = k) rows) ks)"
proof -
  let ?i = "find_index (\<lambda>h. h = ''table'') header"
  let ?G = "group_rows ?i rows"
  obtain g where ts: "ts = map (table_of_rows uid header g) (enumerate 0 (obj_values ?G))"
    using assms by (auto simp: parseTables_def map_res_Inr_iff Let_def split: if_splits)
  have fields: "ft_data (table_of_rows uid header g x) = header # snd x" for x by (simp add: table_of_rows_def Let_def split: prod.split)
  have "map ft_data ts = map (\<lambda>rs. header # rs) (map snd (enumerate 0 (obj_values ?G)))"
    unfolding ts map_map comp_def fields ..
  then have tables: "map ft_data ts = map (\<lambda>k. header # filter (\<lambda>r. table_key header r = k) rows) (obj_keys ?G)"
    by (simp add: grouped_rows(1) table_key_def)
  have "map rows_of ts = map tl (map ft_data ts)" by (simp add: rows_of_def[abs_def])
  then have "map rows_of ts = map (\<lambda>k. filter (\<lambda>r. table_key header r = k) rows) (obj_keys ?G)" by (simp add: tables)
  then have "mset (concat (map rows_of ts)) = filter_mset (\<lambda>r. table_key header r \<in> set (obj_keys ?G)) (mset rows)"
    using mset_groups[OF grouped_rows(3)] by simp
  also have "\<dots> = mset rows"
    using grouped_rows(2)[of ?i rows] by (intro filter_mset_eq_conv[THEN iffD2]) (auto simp: table_key_def)
  finally have "mset (concat (map rows_of ts)) = mset rows" .
  moreover have "set (obj_keys ?G) = table_key header ` set rows" using grouped_rows(2) by (simp add: table_key_def)
  ultimately show ?thesis using tables grouped_rows(3) by blast
qed

lemma parseTables_rows_witness:
  "let chunk = ''#'' @ newline @ ''x''; header = [[], ''table'']; rows = [[[], ''1''], [[], ''0''], [[], ''1'']];
       csv = (\<lambda>s. if prefix ''#'' s then [[''#group'', ''false'']] else header # rows);
       ts = map (table_of_rows (\<lambda>_. []) header [''#group'', ''false'']) [(0, [[[], ''0'']]), (1, [[[], ''1''], [[], ''1'']])]
   in mset (concat (map rows_of ts)) = mset rows \<and>
      (\<exists>ks. distinct ks \<and> set ks = table_key header ` set rows \<and>
         map ft_data ts = map (\<lambda>k. header # filter (\<lambda>r. table_key header r = k) rows) ks)"
proof -
  let ?chunk = "''#'' @ newline @ ''x''" and ?header = "[[], ''table'']" and ?rows = "[[[], ''1''], [[], ''0''], [[], ''1'']] :: string list list"
  let ?csv = "\<lambda>s. if prefix ''#'' s then [[''#group'', ''false'']] else ?header # ?rows"
  let ?ts = "map (table_of_rows (\<lambda>_. []) ?header [''#group'', ''false'']) [(0, [[[], ''0'']]), (1, [[[], ''1''], [[], ''1'']])]"
  have lines: "js_split ?chunk newline = [''#'', ''x'']"
    by (simp add: js_split_def newline_def split_ne.simps)
  have ne: "js_join newline (filter (\<lambda>l. \<not> prefix ''#'' l) (js_split ?chunk newline)) = ''x''" unfolding lines by simp
  have ann: "js_join newline (filter (prefix ''#'') (js_split ?chunk newline)) = ''#''" unfolding lines by simp
  have grouped: "obj_values (group_rows (Some 1) ?rows) = [[[[], ''0'']], [[[], ''1''], [[], ''1'']]]"
    by (simp add: group_rows_def at_index_def opt_str_def obj_values_eq obj_keys_def is_index_def is_digit_def str_nat_def Let_def)
  have "parseTables (\<lambda>_. []) ?csv ?chunk = Inr ?ts"
    unfolding parseTables_def Let_def ne ann using grouped by (simp add: at_index_def)
  from parseTables_rows[OF this, of ?header ?rows] show ?thesis unfolding ne Let_def by simp
qed

end
