(* ===== verification/Rule_Graph.thy ===== *)
theory Rule_Graph
  imports Js_Prelude Complex_Main
begin

text \<open>
  The graph of an alert rule: the range of its value axis (\<open>ui/src/shared/parsing/getRangeForDygraph.ts\<close>) and what is painted
  under it to show where the rule alerts (\<open>ui/src/kapacitor/helpers/ruleGraphUnderlay.ts\<close>). Numbers are rational, where the code has
  doubles and \<open>BigNumber\<close>; \<open>num\<close> is the finite number of a text, if it has one.
\<close>

section \<open>The range of the axis\<close>

datatype bound = Text_Bound string | Num_Bound rat

record rule_values =
  rv_value :: "string option"
  rv_rangeValue :: "string option"
  rv_operator :: string

definition ADD_FACTOR :: rat where "ADD_FACTOR = 11 / 10"
definition SUB_FACTOR :: rat where "SUB_FACTOR = 9 / 10"

definition considerEmpty :: "(string \<Rightarrow> rat option) \<Rightarrow> bound option \<Rightarrow> rat option \<Rightarrow> rat option" where
  \<comment> \<open>after \<open>checkNumeric\<close>, which makes a text that is no number null; the empty text and 0 are falsy\<close>
  "considerEmpty num userNumber n =
     (case userNumber of
        None \<Rightarrow> n
      | Some (Num_Bound b) \<Rightarrow> if b = 0 then n else Some b
      | Some (Text_Bound s) \<Rightarrow> if s = [] then n else (case num s of None \<Rightarrow> n | Some b \<Rightarrow> Some b))"

definition pad :: "(string \<Rightarrow> rat option) \<Rightarrow> string \<Rightarrow> string option \<Rightarrow> rat option" where
  "pad num operator v =
     (case v of
        None \<Rightarrow> None
      | Some s \<Rightarrow>
          if s = [] then None
          else map_option (\<lambda>x.
            if operator = ''less than'' then (if x < 0 then x * ADD_FACTOR else x * SUB_FACTOR)
            else (if x < 0 then x * SUB_FACTOR else x * ADD_FACTOR)) (num s))"

definition widen :: "rat option \<times> rat option \<Rightarrow> rat option \<Rightarrow> rat option \<times> rat option" where
  \<comment> \<open>the body of the loop over the values of a row\<close>
  "widen mm val = (case mm of (mn, mx) \<Rightarrow>
     let mx = (if mx = None then val else mx); mn = (if mn = None then val else mn)
     in case val of
          None \<Rightarrow> (mn, mx)
        | Some v \<Rightarrow> (map_option (\<lambda>m. min m v) mn, map_option (\<lambda>m. max m v) mx))"

definition or_zero :: "rat option \<Rightarrow> rat" where
  \<comment> \<open>null as a number\<close>
  "or_zero x = (case x of None \<Rightarrow> 0 | Some v \<Rightarrow> v)"

definition getRange ::
    "(string \<Rightarrow> rat option) \<Rightarrow> rat option list list \<Rightarrow> bound option \<times> bound option \<Rightarrow> rule_values option \<Rightarrow>
     rat option \<times> rat option" where
  \<comment> \<open>a row is its values, behind the time\<close>
  "getRange num timeSeries userSelectedRange ruleValues =
     (let rv = (case ruleValues of None \<Rightarrow> \<lparr>rv_value = None, rv_rangeValue = None, rv_operator = []\<rparr> | Some r \<Rightarrow> r);
          points = timeSeries @ [[pad num (rv_operator rv) (rv_value rv)], [pad num (rv_operator rv) (rv_rangeValue rv)]];
          (calcMin, calcMax) = foldl (\<lambda>acc series. foldl widen acc series) (None, None) points;
          mn = considerEmpty num (fst userSelectedRange) calcMin;
          mx = considerEmpty num (snd userSelectedRange) calcMax
      in if mn = mx \<and> or_zero mn > 0 then (Some 0, mx)
         else if mn = mx \<and> or_zero mn < 0 then (mn, Some 0)
         else if or_zero mn > or_zero mx then (mn, Some (or_zero mn + 1))
         else (mn, mx))"

definition coerceToNum :: "(string \<Rightarrow> rat option) \<Rightarrow> string option \<Rightarrow> rat option" where
  "coerceToNum num s = (case s of None \<Rightarrow> None | Some x \<Rightarrow> if x = [] then None else num x)"

definition getStackedRange :: "(string \<Rightarrow> rat option) \<Rightarrow> string option \<times> string option \<Rightarrow> rat option \<times> rat option" where
  "getStackedRange num bounds = (coerceToNum num (fst bounds), coerceToNum num (snd bounds))"

lemma widen_fold:
  "foldl widen (mn, mx) vs = (case List.map_filter id vs of
      [] \<Rightarrow> (mn, mx)
    | n # ns \<Rightarrow> (Some (foldl min (case mn of None \<Rightarrow> n | Some m \<Rightarrow> min m n) ns), Some (foldl max (case mx of None \<Rightarrow> n | Some m \<Rightarrow> max m n) ns)))"
proof (induction vs arbitrary: mn mx)
  case (Cons v vs)
  show ?case
  proof (cases v)
    case None
    then show ?thesis using Cons by (simp add: widen_def List.map_filter_simps)
  next
    case (Some x)
    have "widen (mn, mx) v = (Some (case mn of None \<Rightarrow> x | Some m \<Rightarrow> min m x), Some (case mx of None \<Rightarrow> x | Some m \<Rightarrow> max m x))"
      by (simp add: widen_def Some Let_def split: option.split)
    then show ?thesis using Cons Some by (auto simp: List.map_filter_simps split: list.split)
  qed
qed (simp add: List.map_filter_simps)

lemma foldl_min: "foldl min (m :: rat) ns \<le> m \<and> (\<forall>n\<in>set ns. foldl min m ns \<le> n)"
proof (induction ns arbitrary: m)
  case (Cons n ns)
  then show ?case using Cons[of "min m n"] by (auto intro: order_trans)
qed simp

lemma foldl_max: "m \<le> foldl max (m :: rat) ns \<and> (\<forall>n\<in>set ns. n \<le> foldl max m ns)"
proof (induction ns arbitrary: m)
  case (Cons n ns)
  have "max m n \<le> foldl max (max m n) ns" "\<forall>k\<in>set ns. k \<le> foldl max (max m n) ns" using Cons[of "max m n"] by blast+
  then show ?case using max.cobounded1[of m n] max.cobounded2[of n m] by (auto simp del: max.bounded_iff intro: order_trans)
qed simp

definition axis_points :: "(string \<Rightarrow> rat option) \<Rightarrow> rat option list list \<Rightarrow> rule_values option \<Rightarrow> rat list" where
  \<comment> \<open>the numbers the axis is made for: the values, and the padded values of the rule\<close>
  "axis_points num timeSeries ruleValues =
     List.map_filter id (concat timeSeries @
       (case ruleValues of None \<Rightarrow> [] | Some r \<Rightarrow> [pad num (rv_operator r) (rv_value r), pad num (rv_operator r) (rv_rangeValue r)]))"

lemma concat_fold: "foldl (\<lambda>acc series. foldl f acc series) a xss = foldl f a (concat xss)"
  by (induction xss arbitrary: a) auto

lemma axis_range:
  "foldl (\<lambda>acc series. foldl widen acc series) (None, None)
     (timeSeries @ [[pad num (rv_operator rv) (rv_value rv)], [pad num (rv_operator rv) (rv_rangeValue rv)]]) =
   (case axis_points num timeSeries (Some rv) of [] \<Rightarrow> (None, None) | n # ns \<Rightarrow> (Some (foldl min n ns), Some (foldl max n ns)))"
proof -
  have "concat (timeSeries @ [[a], [b]]) = concat timeSeries @ [a, b]" for a b by simp
  then show ?thesis unfolding concat_fold widen_fold axis_points_def by (simp split: list.split)
qed

lemma axis_points_none:
  "axis_points num ts (Some \<lparr>rv_value = None, rv_rangeValue = None, rv_operator = []\<rparr>) = axis_points num ts None"
  by (simp add: axis_points_def pad_def List.map_filter_def)

text \<open>
  The axis shows everything. Its ends are never the wrong way round; an end that the user gave is kept, unless both ends would be one
  point or the wrong way round; and without an end given by the user every value of the series, and each value of the rule with
  a tenth to spare, lies within them.
\<close>

theorem getRange_shows:
  assumes "getRange num timeSeries (uMin, uMax) ruleValues = (lo, hi)"
  shows "or_zero lo \<le> or_zero hi \<and>
    (uMin = None \<longrightarrow> uMax = None \<longrightarrow>
       (\<forall>v\<in>set (axis_points num timeSeries ruleValues). lo \<noteq> None \<and> hi \<noteq> None \<and> or_zero lo \<le> v \<and> v \<le> or_zero hi)) \<and>
    (\<forall>a b. considerEmpty num uMin None = Some a \<longrightarrow> considerEmpty num uMax None = Some b \<longrightarrow> a < b \<longrightarrow> lo = Some a \<and> hi = Some b)"
proof -
  let ?rv = "case ruleValues of None \<Rightarrow> \<lparr>rv_value = None, rv_rangeValue = None, rv_operator = []\<rparr> | Some r \<Rightarrow> r"
  have points: "axis_points num timeSeries (Some ?rv) = axis_points num timeSeries ruleValues"
    using axis_points_none[of num timeSeries] by (cases ruleValues) simp_all
  define calc where "calc = (case axis_points num timeSeries ruleValues of [] \<Rightarrow> (None, None)
      | n # ns \<Rightarrow> (Some (foldl min n ns), Some (foldl max n ns)))"
  have range: "getRange num timeSeries (uMin, uMax) ruleValues =
      (let mn = considerEmpty num uMin (fst calc); mx = considerEmpty num uMax (snd calc)
       in if mn = mx \<and> or_zero mn > 0 then (Some 0, mx)
          else if mn = mx \<and> or_zero mn < 0 then (mn, Some 0)
          else if or_zero mn > or_zero mx then (mn, Some (or_zero mn + 1)) else (mn, mx))"
    unfolding getRange_def Let_def axis_range points calc_def[symmetric] by (simp add: case_prod_unfold)
  have order: "or_zero lo \<le> or_zero hi"
    using assms unfolding range Let_def by (auto simp: or_zero_def split: if_splits option.splits)
  have user: "considerEmpty num u None = Some a \<Longrightarrow> considerEmpty num u c = Some a" for u a c
    by (auto simp: considerEmpty_def split: option.splits bound.splits if_splits)
  have given: "lo = Some a \<and> hi = Some b" if "considerEmpty num uMin None = Some a" "considerEmpty num uMax None = Some b" "a < b" for a b
    using assms that(3) unfolding range Let_def by (simp add: user[OF that(1)] user[OF that(2)] or_zero_def)
  have "lo \<noteq> None \<and> hi \<noteq> None \<and> or_zero lo \<le> v \<and> v \<le> or_zero hi"
    if none: "uMin = None" "uMax = None" and v: "v \<in> set (axis_points num timeSeries ruleValues)" for v
  proof -
    obtain n ns where ns: "axis_points num timeSeries ruleValues = n # ns" using v by (cases "axis_points num timeSeries ruleValues") auto
    then have "calc = (Some (foldl min n ns), Some (foldl max n ns))" by (simp add: calc_def)
    moreover have "foldl min n ns \<le> v \<and> v \<le> foldl max n ns" using v ns foldl_min[of n ns] foldl_max[of n ns] by auto
    ultimately obtain a b where calc: "calc = (Some a, Some b)" and v: "a \<le> v" "v \<le> b" by blast
    have none_given: "considerEmpty num None c = c" for c by (simp add: considerEmpty_def)
    have "(lo, hi) = (if a = b \<and> a > 0 then (Some 0, Some b) else if a = b \<and> a < 0 then (Some a, Some 0) else (Some a, Some b))"
      using assms[unfolded range Let_def calc fst_conv snd_conv, unfolded none none_given] v by (auto simp: or_zero_def split: if_splits)
    then show ?thesis using v by (simp add: or_zero_def split: if_splits)
  qed
  then show ?thesis using order given by blast
qed

lemma getRange_shows_witness:
  "let points = axis_points (\<lambda>s. if s = ''3'' then Some 3 else None) [[Some 1, None], [Some (-2), Some 5]]
         (Some \<lparr>rv_value = Some ''3'', rv_rangeValue = None, rv_operator = ''greater than''\<rparr>)
   in or_zero (Some (-2)) \<le> or_zero (Some 5) \<and>
     ((None :: bound option) = None \<longrightarrow> (None :: bound option) = None \<longrightarrow>
        (\<forall>v\<in>set points. Some (-2) \<noteq> (None :: rat option) \<and> Some 5 \<noteq> (None :: rat option) \<and> or_zero (Some (-2)) \<le> v \<and> v \<le> or_zero (Some 5))) \<and>
     (\<forall>a b. considerEmpty (\<lambda>s. if s = ''3'' then Some 3 else None) None None = Some a \<longrightarrow>
        considerEmpty (\<lambda>s. if s = ''3'' then Some 3 else None) None None = Some b \<longrightarrow> a < b \<longrightarrow> Some (-2) = Some a \<and> Some 5 = Some b)"
proof -
  have "getRange (\<lambda>s. if s = ''3'' then Some 3 else None) [[Some 1, None], [Some (-2), Some 5]] (None, None)
      (Some \<lparr>rv_value = Some ''3'', rv_rangeValue = None, rv_operator = ''greater than''\<rparr>) = (Some (-2), Some 5)"
    by (simp add: getRange_def widen_def pad_def considerEmpty_def or_zero_def ADD_FACTOR_def Let_def)
  from getRange_shows[OF this] show ?thesis unfolding Let_def .
qed

section \<open>What is painted under the graph\<close>

datatype threshold_operator =
    EqualTo | LessThan | GreaterThan | NotEqualTo | InsideRange | OutsideRange | EqualToOrGreaterThan | EqualToOrLessThan

definition HIGHLIGHT :: string where "HIGHLIGHT = ''rgba(78, 216, 160, 0.3)''"
definition BACKGROUND :: string where "BACKGROUND = ''rgba(41, 41, 51, 1)''"

record area =
  ae_x :: rat
  ae_y :: rat
  ae_w :: rat
  ae_h :: rat

record alert_rule =
  \<comment> \<open>of a rule that has a value: null and undefined are left out\<close>
  al_trigger :: string
  al_operator :: threshold_operator
  al_value :: string
  al_rangeValue :: "string option"

type_synonym area_fill = "string \<times> area"
  \<comment> \<open>the style and the rectangle of a \<open>fillRect\<close>\<close>

definition getFillColor :: "threshold_operator \<Rightarrow> string" where
  "getFillColor operator = (if operator = OutsideRange then BACKGROUND else if operator = NotEqualTo then BACKGROUND else HIGHLIGHT)"

definition to_number :: "(string \<Rightarrow> rat option) \<Rightarrow> string option \<Rightarrow> rat option" where
  \<comment> \<open>\<open>+v\<close>: null and the empty text are 0\<close>
  "to_number num v = (case v of None \<Rightarrow> Some 0 | Some s \<Rightarrow> if s = [] then Some 0 else num s)"

definition underlayCallback ::
    "(string \<Rightarrow> rat option) \<Rightarrow> alert_rule \<Rightarrow> area \<Rightarrow> rat \<times> rat \<Rightarrow> (rat \<Rightarrow> rat) \<Rightarrow> area_fill list" where
  \<comment> \<open>the rectangles in the order they are painted, from the range of the axis and \<open>toDomYCoord\<close>; a rectangle of a number
    that is none paints nothing. The second case of \<open>LessThan\<close> is never reached\<close>
  "underlayCallback num rule ar axis domY =
     (if al_trigger rule \<noteq> ''threshold'' \<or> al_value rule = [] then []
      else case to_number num (Some (al_value rule)) of
             None \<Rightarrow> []
           | Some v \<Rightarrow>
               let whole = (HIGHLIGHT, ar);
                   width = (1 / 100) * (snd axis - fst axis);
                   between = map_option (\<lambda>r. (min v r, max v r)) (to_number num (al_rangeValue rule));
                   (before, zone) = (case al_operator rule of
                       EqualToOrGreaterThan \<Rightarrow> ([], Some (v, snd axis))
                     | GreaterThan \<Rightarrow> ([], Some (v, snd axis))
                     | EqualToOrLessThan \<Rightarrow> ([], Some (fst axis, v))
                     | LessThan \<Rightarrow> ([], Some (fst axis, v))
                     | NotEqualTo \<Rightarrow> ([whole], Some (v - width, v + width))
                     | OutsideRange \<Rightarrow> ([whole], between)
                     | InsideRange \<Rightarrow> ([], between)
                     | EqualTo \<Rightarrow> ([], Some (0, 0)))
               in before @ (case zone of
                    None \<Rightarrow> []
                  | Some (highlightStart, highlightEnd) \<Rightarrow>
                      let bottom = domY highlightStart; top' = domY highlightEnd
                      in [(getFillColor (al_operator rule), \<lparr>ae_x = ae_x ar, ae_y = top', ae_w = ae_w ar, ae_h = bottom - top'\<rparr>)]))"

definition covers :: "rat \<Rightarrow> area \<Rightarrow> bool" where
  \<comment> \<open>a height may be negative\<close>
  "covers y r \<longleftrightarrow> min (ae_y r) (ae_y r + ae_h r) \<le> y \<and> y \<le> max (ae_y r) (ae_y r + ae_h r)"

definition shade :: "rat \<Rightarrow> area_fill list \<Rightarrow> string option" where
  \<comment> \<open>the style painted last at a height\<close>
  "shade y fills = (case filter (\<lambda>(s, r). covers y r) (rev fills) of [] \<Rightarrow> None | (s, r) # _ \<Rightarrow> Some s)"

fun alert_zone :: "threshold_operator \<Rightarrow> rat \<Rightarrow> rat \<Rightarrow> rat \<Rightarrow> rat \<Rightarrow> bool" where
  \<comment> \<open>the values the rule alerts for, from the width of a line, the value and the second value\<close>
  "alert_zone GreaterThan w v r y \<longleftrightarrow> v \<le> y"
| "alert_zone EqualToOrGreaterThan w v r y \<longleftrightarrow> v \<le> y"
| "alert_zone LessThan w v r y \<longleftrightarrow> y \<le> v"
| "alert_zone EqualToOrLessThan w v r y \<longleftrightarrow> y \<le> v"
| "alert_zone EqualTo w v r y \<longleftrightarrow> \<bar>y - v\<bar> \<le> w"
| "alert_zone NotEqualTo w v r y \<longleftrightarrow> w < \<bar>y - v\<bar>"
| "alert_zone InsideRange w v r y \<longleftrightarrow> min v r \<le> y \<and> y \<le> max v r"
| "alert_zone OutsideRange w v r y \<longleftrightarrow> y < min v r \<or> max v r < y"

lemma covers_band:
  assumes "\<And>a b. domY a < domY b \<longleftrightarrow> b < (a :: rat)"
  shows "covers (domY y) \<lparr>ae_x = x, ae_y = domY b, ae_w = w, ae_h = domY a - domY b\<rparr> \<longleftrightarrow> min a b \<le> y \<and> y \<le> max a b"
proof -
  have le: "domY a \<le> domY b \<longleftrightarrow> b \<le> a" for a b using assms[of b a] by (metis linorder_not_less)
  show ?thesis using le by (auto simp: covers_def min_def max_def)
qed

text \<open>
  The highlight under the graph is where the rule alerts. For a threshold rule with numbers, on an axis that is painted from the top down, a
  value strictly within the axis is highlighted exactly if the rule alerts for it; for a rule of equality the code
  has no case, so the statement leaves it out.
\<close>

theorem underlay_highlights:
  assumes down: "\<And>a b. domY a < domY b \<longleftrightarrow> b < (a :: rat)"
    and area: "\<And>y. lo < y \<Longrightarrow> y < hi \<Longrightarrow> covers (domY y) ar"
    and rule: "al_trigger rule = ''threshold''" "al_value rule \<noteq> []" "num (al_value rule) = Some v"
      "to_number num (al_rangeValue rule) = Some r" "al_operator rule \<noteq> EqualTo"
    and y: "lo < y" "y < hi"
  shows "shade (domY y) (underlayCallback num rule ar (lo, hi) domY) = Some HIGHLIGHT \<longleftrightarrow>
    alert_zone (al_operator rule) ((1 / 100) * (hi - lo)) v r y"
proof -
  have colors: "HIGHLIGHT \<noteq> BACKGROUND" by (simp add: HIGHLIGHT_def BACKGROUND_def)
  have val: "to_number num (Some (al_value rule)) = Some v" "al_value rule \<noteq> []" using rule(2-3) by (simp_all add: to_number_def)
  have width: "0 < (1 / 100) * (hi - lo)" using y by simp
  note band = covers_band[where domY = domY, OF down]
  show ?thesis
  proof (cases "al_operator rule = NotEqualTo")
    case True
    define w where "w = (1 / 100) * (hi - lo)"
    have "underlayCallback num rule ar (lo, hi) domY =
        [(HIGHLIGHT, ar), (BACKGROUND, \<lparr>ae_x = ae_x ar, ae_y = domY (v + w), ae_w = ae_w ar, ae_h = domY (v - w) - domY (v + w)\<rparr>)]"
      using rule(1) val True unfolding underlayCallback_def w_def by (simp add: Let_def getFillColor_def)
    moreover have "min (v - w) (v + w) \<le> y \<and> y \<le> max (v - w) (v + w) \<longleftrightarrow> \<not> w < \<bar>y - v\<bar>"
      using width unfolding w_def[symmetric] by (auto simp: min_def max_def abs_if)
    ultimately show ?thesis
      using area[OF y] colors True unfolding w_def[symmetric] by (simp add: shade_def band)
  next
    case False
    then show ?thesis
      using rule(1,4,5) val y area[OF y] colors
      by (cases "al_operator rule")
        (auto simp: underlayCallback_def shade_def band getFillColor_def Let_def min_def max_def)
  qed
qed

lemma underlay_highlights_witness:
  "shade (- 5) (underlayCallback (\<lambda>s. if s = ''3'' then Some 3 else None)
      \<lparr>al_trigger = ''threshold'', al_operator = NotEqualTo, al_value = ''3'', al_rangeValue = None\<rparr>
      \<lparr>ae_x = 0, ae_y = - 10, ae_w = 1, ae_h = 10\<rparr> (0, 10) (\<lambda>y. - y)) = Some HIGHLIGHT"
  using underlay_highlights[where domY = "\<lambda>y. - y" and lo = 0 and hi = 10 and y = 5 and v = 3 and r = 0
      and ar = "\<lparr>ae_x = 0, ae_y = - 10, ae_w = 1, ae_h = 10\<rparr>" and num = "\<lambda>s. if s = ''3'' then Some 3 else None"
      and rule = "\<lparr>al_trigger = ''threshold'', al_operator = NotEqualTo, al_value = ''3'', al_rangeValue = None\<rparr>"]
  by (simp add: covers_def to_number_def)

lemma equality_is_not_highlighted:
  \<comment> \<open>a rule of equality has no case: only the line of 0 is painted\<close>
  assumes down: "\<And>a b. domY a < domY b \<longleftrightarrow> b < (a :: rat)" and "al_operator rule = EqualTo" "y \<noteq> 0"
  shows "shade (domY y) (underlayCallback num rule ar axis domY) = None"
  using assms(2,3) covers_band[where domY = domY, OF down, of y "ae_x ar" 0 "ae_w ar" 0]
  by (auto simp: underlayCallback_def shade_def Let_def split: option.splits)

end
