(* ===== verification/Alert_Rules.thy ===== *)
theory Alert_Rules
  imports InfluxQL Store_Prelude
begin

text \<open>
  The rules for alerts of Kapacitor: their store (\<open>ui/src/kapacitor/reducers/rules.js\<close>) with its actions
  (\<open>ui/src/kapacitor/actions/view/index.js\<close>), the handlers an alert is sent to, read from the configuration
  (\<open>ui/src/shared/parsing/parseHandlersFromConfig.js\<close>) and from a rule (\<open>parseHandlersFromRule.js\<close>), the section of the page that edits them
  (\<open>ui/src/kapacitor/components/RuleHandlers.tsx\<close>), and the page of a rule (\<open>KapacitorRule.tsx\<close>). Handlers are objects whose fields
  depend on their type, so they are dictionaries here as they are in the code.
\<close>

section \<open>Handlers\<close>

datatype handler_value =
    HStr string | HBool bool | HList "string list" | HHeaders "(string \<times> string option) list" | HNum int

type_synonym handler = "handler_value js_obj"

definition h_str :: "handler \<Rightarrow> string \<Rightarrow> string" where
  \<comment> \<open>a field that is a text\<close>
  "h_str h k = (case obj_get h k of Some (HStr s) \<Rightarrow> s | _ \<Rightarrow> ''undefined'')"

definition h_type :: "handler \<Rightarrow> string" where
  "h_type h = h_str h ''type''"

definition h_enabled :: "handler \<Rightarrow> bool" where
  "h_enabled h = (case obj_get h ''enabled'' of
     None \<Rightarrow> False | Some (HBool b) \<Rightarrow> b | Some (HStr s) \<Rightarrow> s \<noteq> [] | Some (HNum n) \<Rightarrow> n \<noteq> 0 | Some _ \<Rightarrow> True)"

definition HANDLERS_TO_RULE_THEM_ALL :: "string list js_obj" where
  "HANDLERS_TO_RULE_THEM_ALL =
     [(''alerta'', [''resource'', ''event'', ''environment'', ''group'', ''value'', ''origin'', ''service'']),
      (''hipChat'', [''room'']),
      (''kafka'', [''id'', ''cluster'', ''kafka-topic'', ''template'']),
      (''opsGenie'', [''teams'', ''recipients'']),
      (''opsGenie2'', [''teams'', ''recipients'']),
      (''pagerDuty'', []),
      (''pagerDuty2'', []),
      (''pushover'', [''device'', ''title'', ''sound'', ''url'', ''urlTitle'']),
      (''sensu'', [''source'', ''handlers'']),
      (''slack'', [''channel'', ''username'', ''iconEmoji'', ''workspace'']),
      (''email'', [''to'']),
      (''talk'', []),
      (''telegram'', [''chatId'', ''parseMode'', ''disableWebPagePreview'', ''disableNotification'']),
      (''victorOps'', [''routingKey'']),
      (''post'', [''url'', ''headers'', ''captureResponse'']),
      (''tcp'', [''address'']),
      (''exec'', [''command'']),
      (''log'', [''filePath''])]"

definition rule_fields :: "string \<Rightarrow> string list" where
  "rule_fields t = (case obj_get HANDLERS_TO_RULE_THEM_ALL t of None \<Rightarrow> [] | Some ks \<Rightarrow> ks)"

definition obj_pick :: "'v js_obj \<Rightarrow> string list \<Rightarrow> 'v js_obj" where
  \<comment> \<open>\<open>_.pick\<close>\<close>
  "obj_pick ob ks = List.map_filter (\<lambda>k. map_option (Pair k) (obj_get ob k)) ks"

section \<open>The alert nodes of a rule\<close>

definition with_headers :: "handler \<Rightarrow> handler" where
  "with_headers h =
     (if h_type h = ''post''
      then obj_set h ''headers'' (HHeaders [(h_str h ''headerKey'', case obj_get h ''headerValue'' of Some (HStr v) \<Rightarrow> Some v | _ \<Rightarrow> None)])
      else h)"

definition throws_on :: "handler \<Rightarrow> bool" where
  \<comment> \<open>the length of a command that is not there\<close>
  "throws_on h \<longleftrightarrow> h_enabled h \<and> h_type h = ''exec'' \<and> obj_get h ''command'' = None"

definition is_blank :: "handler \<Rightarrow> bool" where
  \<comment> \<open>a handler that is not filled in\<close>
  "is_blank h \<longleftrightarrow>
     h_type h = ''post'' \<and> obj_get h ''url'' = Some (HStr []) \<or>
     h_type h = ''log'' \<and> obj_get h ''filePath'' = Some (HStr []) \<or>
     h_type h = ''tcp'' \<and> obj_get h ''address'' = Some (HStr []) \<or>
     h_type h = ''exec'' \<and> (obj_get h ''command'' = Some (HList []) \<or> obj_get h ''command'' = Some (HStr []))"

definition picked :: "handler \<Rightarrow> handler" where
  "picked h = obj_pick (with_headers h) (rule_fields (h_type h))"

definition alert_step :: "handler list js_obj \<Rightarrow> handler \<Rightarrow> handler list js_obj" where
  "alert_step alertNodesByType h =
     (if h_enabled h \<and> \<not> is_blank h
      then (let existing = (case obj_get alertNodesByType (h_type h) of None \<Rightarrow> [] | Some hs \<Rightarrow> hs)
            in obj_set alertNodesByType (h_type h) (existing @ [picked h]))
      else alertNodesByType)"

definition alert_nodes :: "handler list \<Rightarrow> handler list js_obj result" where
  "alert_nodes alerts = (if \<exists>h\<in>set alerts. throws_on h then Inl TypeError else Inr (foldl alert_step [] alerts))"

section \<open>Handlers of a rule\<close>

definition obj_assign :: "'v js_obj \<Rightarrow> 'v js_obj \<Rightarrow> 'v js_obj" where
  \<comment> \<open>\<open>{...a, ...b}\<close>\<close>
  "obj_assign a b = obj_of_list a b"

definition split_headers :: "handler \<Rightarrow> handler" where
  \<comment> \<open>the headers of a post become their first key and value\<close>
  "split_headers opts =
     (let first = (case obj_get opts ''headers'' of Some (HHeaders (p # _)) \<Rightarrow> Some p | _ \<Rightarrow> None);
          o1 = (case first of None \<Rightarrow> obj_del opts ''headerKey'' | Some (k, _) \<Rightarrow> obj_set opts ''headerKey'' (HStr k));
          o2 = (case first of Some (_, Some v) \<Rightarrow> obj_set o1 ''headerValue'' (HStr v) | _ \<Rightarrow> obj_del o1 ''headerValue'')
      in obj_del o2 ''headers'')"

definition handler_alias :: "string \<Rightarrow> nat \<Rightarrow> string" where
  "handler_alias t n = t @ ''-'' @ nat_str n"

definition parse_handler :: "handler list \<Rightarrow> string \<Rightarrow> nat \<Rightarrow> handler \<Rightarrow> handler" where
  "parse_handler handlersFromConfig alertKind count alertOptions =
     (let thisAlertFromConfig = (case List.find (\<lambda>h. obj_get h ''type'' = Some (HStr alertKind)) handlersFromConfig of None \<Rightarrow> [] | Some h \<Rightarrow> h);
          alertOptions = (if alertKind = ''post'' then split_headers alertOptions else alertOptions)
      in obj_set (obj_set (obj_assign (obj_assign [(''enabled'', HBool True)] thisAlertFromConfig) alertOptions)
           ''alias'' (HStr (handler_alias alertKind count))) ''type'' (HStr alertKind))"

definition kind_handlers :: "handler list \<Rightarrow> string \<times> handler list \<Rightarrow> handler list" where
  "kind_handlers handlersFromConfig = (\<lambda>(alertKind, v). map (\<lambda>(i, opts). parse_handler handlersFromConfig alertKind (Suc i) opts) (enumerate 0 v))"

record rule_handlers =
  rh_selectedHandler :: "handler option"
  rh_handlersOnThisAlert :: "handler list"
  rh_handlersOfKind :: "nat js_obj"

definition parseHandlersFromRule :: "handler list js_obj \<Rightarrow> handler list \<Rightarrow> rule_handlers" where
  \<comment> \<open>of the alert nodes of a rule; a kind is counted once its first handler is met\<close>
  "parseHandlersFromRule alertNodes handlersFromConfig =
     (let handlersFromRule = filter (\<lambda>(k, v). obj_get HANDLERS_TO_RULE_THEM_ALL k \<noteq> None) (obj_entries alertNodes);
          handlersOnThisAlert = concat (map (kind_handlers handlersFromConfig) handlersFromRule)
      in \<lparr>rh_selectedHandler = (case handlersOnThisAlert of [] \<Rightarrow> None | h # _ \<Rightarrow> Some h),
          rh_handlersOnThisAlert = handlersOnThisAlert,
          rh_handlersOfKind = map (\<lambda>(k, v). (k, length v)) (filter (\<lambda>(k, v). v \<noteq> []) handlersFromRule)\<rparr>)"

definition workspace_name :: "handler \<Rightarrow> string" where
  "workspace_name h = (case obj_get h ''workspace'' of Some (HStr (c # s)) \<Rightarrow> c # s | _ \<Rightarrow> ''default'')"

definition cluster_name :: "handler \<Rightarrow> string" where
  "cluster_name h = opt_str (case obj_get h ''cluster'' of Some (HStr s) \<Rightarrow> Some s | _ \<Rightarrow> None)"

definition parseAlertNodeList :: "handler list js_obj \<Rightarrow> string" where
  "parseAlertNodeList alertNodes =
     (let nodeList = concat (map (\<lambda>(k, v).
            if obj_get HANDLERS_TO_RULE_THEM_ALL k = None \<or> v = [] then []
            else if k = ''slack'' then map (\<lambda>a. k @ '' ('' @ workspace_name a @ '')'') (uniq_by workspace_name v)
            else if k = ''kafka'' then map (\<lambda>a. k @ '' ('' @ cluster_name a @ '')'') (uniq_by cluster_name v)
            else [k]) (obj_entries alertNodes))
      in js_join '', '' (uniq_by (\<lambda>x. x) nodeList))"

section \<open>Handlers of the configuration\<close>

definition MAP_KEYS_FROM_CONFIG :: "string js_obj" where
  "MAP_KEYS_FROM_CONFIG =
     [(''hipchat'', ''hipChat''), (''opsgenie'', ''opsGenie''), (''opsgenie2'', ''opsGenie2''), (''pagerduty'', ''pagerDuty''),
      (''pagerduty2'', ''pagerDuty2''), (''smtp'', ''email''), (''victorops'', ''victorOps'')]"

definition ALERTS_FROM_CONFIG :: "string list js_obj" where
  "ALERTS_FROM_CONFIG =
     [(''alerta'', [''environment'', ''origin'', ''token'']),
      (''hipChat'', [''url'', ''room'', ''token'']),
      (''kafka'', [''id'']),
      (''opsGenie'', [''api-key'', ''teams'', ''recipients'']),
      (''opsGenie2'', [''api-key'', ''teams'', ''recipients'']),
      (''pagerDuty'', [''service-key'']),
      (''pagerDuty2'', [''routing-key'']),
      (''pushover'', [''token'', ''user-key'']),
      (''sensu'', [''addr'', ''source'']),
      (''slack'', [''url'', ''channel'', ''workspace'']),
      (''email'', [''from'', ''host'', ''password'', ''port'', ''username'']),
      (''talk'', [''url'', ''author_name'']),
      (''telegram'', [''token'', ''chat-id'', ''parse-mode'', ''disable-web-page-preview'', ''disable-notification'']),
      (''victorOps'', [''api-key'', ''routing-key''])]"

definition MAP_FIELD_KEYS_FROM_CONFIG :: "string js_obj js_obj" where
  "MAP_FIELD_KEYS_FROM_CONFIG =
     [(''alerta'', []), (''hipChat'', []), (''opsGenie'', []), (''opsGenie2'', []),
      (''pagerDuty'', [(''service-key'', ''serviceKey'')]),
      (''pagerDuty2'', [(''routing-key'', ''routingKey'')]),
      (''pushover'', [(''user-key'', ''userKey'')]),
      (''sensu'', []), (''slack'', []), (''email'', []), (''talk'', []),
      (''telegram'', [(''chat-id'', ''chatId''), (''parse-mode'', ''parseMode''), (''disable-web-page-preview'', ''disableWebPagePreview''),
         (''disable-notification'', ''disableNotification'')]),
      (''victorOps'', [(''routing-key'', ''routingKey'')])]"

definition renamed_key :: "string js_obj option \<Rightarrow> string \<Rightarrow> string" where
  \<comment> \<open>\<open>_.get(names, k, k)\<close>\<close>
  "renamed_key names k = (case names of None \<Rightarrow> k | Some ns \<Rightarrow> (case obj_get ns k of None \<Rightarrow> k | Some k' \<Rightarrow> k'))"

definition parseHandlersFromConfig :: "handler list js_obj \<Rightarrow> handler list" where
  \<comment> \<open>the options of the elements of every section; the keys \<open>_.mapKeys\<close> renames afterwards are indices, which stay\<close>
  "parseHandlersFromConfig sections =
     (let allHandlers = concat (map (\<lambda>(k, options). map (\<lambda>opt. obj_assign [(''type'', HStr (renamed_key (Some MAP_KEYS_FROM_CONFIG) k))] opt) options)
            (obj_entries sections));
          allowedHandlers = filter (\<lambda>h. obj_get ALERTS_FROM_CONFIG (h_type h) \<noteq> None) allHandlers;
          pickedHandlers = map (\<lambda>h. obj_pick h ([''type'', ''enabled''] @ the (obj_get ALERTS_FROM_CONFIG (h_type h)))) allowedHandlers
      in map (\<lambda>h. obj_of_list [] (map (\<lambda>(k, v). (renamed_key (obj_get MAP_FIELD_KEYS_FROM_CONFIG (h_type h)) k, v)) (obj_entries h))) pickedHandlers)"

section \<open>The section of the handlers\<close>

definition DEFAULT_HANDLERS :: "handler list" where
  "DEFAULT_HANDLERS =
     [[(''type'', HStr ''post''), (''enabled'', HBool True), (''url'', HStr []), (''headers'', HHeaders []), (''headerKey'', HStr []), (''headerValue'', HStr [])],
      [(''type'', HStr ''tcp''), (''enabled'', HBool True), (''address'', HStr [])],
      [(''type'', HStr ''exec''), (''enabled'', HBool True), (''command'', HList [])],
      [(''type'', HStr ''log''), (''enabled'', HBool True), (''filePath'', HStr [])]]"

definition getNickname :: "handler \<Rightarrow> string option" where
  "getNickname h =
     (if h_type h = ''slack'' then Some (workspace_name h)
      else if h_type h = ''kafka'' then
        (case obj_get h ''id'' of Some (HStr (c # s)) \<Rightarrow> Some (c # s) | _ \<Rightarrow> (case obj_get h ''cluster'' of Some (HStr s) \<Rightarrow> Some s | _ \<Rightarrow> None))
      else None)"

definition addNicknameText :: "handler \<Rightarrow> handler" where
  "addNicknameText h =
     obj_set h ''text'' (HStr (if truthy (getNickname h) then h_type h @ '' ('' @ the (getNickname h) @ '')'' else h_type h))"

definition handler_items :: "handler list \<Rightarrow> handler list" where
  \<comment> \<open>the items of the menu, of which those that are not enabled come last\<close>
  "handler_items handlersFromConfig =
     (let mappedHandlers = map addNicknameText (DEFAULT_HANDLERS @ handlersFromConfig);
          separator = [(''type'', HStr []), (''enabled'', HBool True), (''text'', HStr ''SEPARATOR'')]
      in filter h_enabled mappedHandlers @ [separator] @ filter (\<lambda>e. obj_get e ''enabled'' = Some (HBool False)) mappedHandlers)"

definition h_alias :: "handler \<Rightarrow> handler_value option" where
  "h_alias h = obj_get h ''alias''"

definition handleChooseHandler :: "handler \<Rightarrow> rule_handlers \<Rightarrow> rule_handlers" where
  "handleChooseHandler ep st = st\<lparr>rh_selectedHandler := Some ep\<rparr>"

definition kind_count :: "nat js_obj \<Rightarrow> string \<Rightarrow> nat" where
  "kind_count handlersOfKind t = (case obj_get handlersOfKind t of None \<Rightarrow> 0 | Some n \<Rightarrow> n)"

definition handleAddHandler :: "handler \<Rightarrow> rule_handlers \<Rightarrow> rule_handlers" where
  "handleAddHandler selectedItem st =
     (let newItemNumbering = kind_count (rh_handlersOfKind st) (h_type selectedItem) + 1;
          newItemName = handler_alias (h_type selectedItem) newItemNumbering;
          newEndpoint = obj_set selectedItem ''alias'' (HStr newItemName);
          newEndpoint = (if h_type newEndpoint = ''kafka''
             then (case obj_get newEndpoint ''id'' of None \<Rightarrow> obj_del newEndpoint ''cluster'' | Some i \<Rightarrow> obj_set newEndpoint ''cluster'' i) else newEndpoint)
      in st\<lparr>rh_handlersOnThisAlert := rh_handlersOnThisAlert st @ [newEndpoint],
            rh_handlersOfKind := obj_set (rh_handlersOfKind st) (h_type selectedItem) newItemNumbering,
            rh_selectedHandler := Some newEndpoint\<rparr>)"

definition handleRemoveHandler :: "handler \<Rightarrow> rule_handlers \<Rightarrow> rule_handlers result" where
  "handleRemoveHandler removedHandler st =
     map_res (\<lambda>selectedHandler.
       let removedIndex = find_index (\<lambda>h. h_alias h = h_alias removedHandler) (rh_handlersOnThisAlert st);
           remainingHandlers = filter (\<lambda>h. h_alias h \<noteq> h_alias removedHandler) (rh_handlersOnThisAlert st);
           st1 = (if h_alias selectedHandler = h_alias removedHandler
                  then st\<lparr>rh_selectedHandler :=
                    (let selectedIndex = (case removedIndex of None \<Rightarrow> 0 | Some i \<Rightarrow> if i > 0 then i - 1 else 0)
                     in if remainingHandlers \<noteq> [] then Some (remainingHandlers ! selectedIndex) else None)\<rparr>
                  else st)
       in st1\<lparr>rh_handlersOnThisAlert := remainingHandlers\<rparr>) (deref (rh_selectedHandler st))"

datatype handler_input = Checkbox | Words string | Plain string

definition modified :: "handler \<Rightarrow> string \<Rightarrow> handler_input \<Rightarrow> handler" where
  "modified selectedHandler fieldName i =
     obj_set selectedHandler fieldName
       (case i of
          Checkbox \<Rightarrow> HBool (\<not> (case obj_get selectedHandler fieldName of
             None \<Rightarrow> False | Some (HBool b) \<Rightarrow> b | Some (HStr s) \<Rightarrow> s \<noteq> [] | Some (HNum n) \<Rightarrow> n \<noteq> 0 | Some _ \<Rightarrow> True))
        | Words s \<Rightarrow> HList (js_split s '' '')
        | Plain s \<Rightarrow> HStr s)"

definition handleModifyHandler :: "handler \<Rightarrow> string \<Rightarrow> handler_input \<Rightarrow> rule_handlers \<Rightarrow> rule_handlers" where
  \<comment> \<open>without a handler of the alias, the list keeps its entries\<close>
  "handleModifyHandler selectedHandler fieldName i st =
     (let modifiedHandler = modified selectedHandler fieldName i;
          handlers = (case find_index (\<lambda>h. h_alias h = h_alias modifiedHandler) (rh_handlersOnThisAlert st) of
             None \<Rightarrow> rh_handlersOnThisAlert st | Some m \<Rightarrow> (rh_handlersOnThisAlert st)[m := modifiedHandler])
      in st\<lparr>rh_selectedHandler := Some modifiedHandler, rh_handlersOnThisAlert := handlers\<rparr>)"

section \<open>Rules\<close>

record alert_rule =
  \<comment> \<open>an action on a rule that is not there makes an object with some of the fields only\<close>
  ar_id :: "string option"
  ar_queryID :: "string option"
  ar_trigger :: "string option"
  ar_values :: "string js_obj option"
  ar_message :: "string option"
  ar_details :: "string option"
  ar_alertNodes :: "handler list js_obj option"
  ar_every :: "string option"
  ar_name :: "string option"
  ar_status :: "string option"

definition no_rule :: alert_rule where
  "no_rule = \<lparr>ar_id = None, ar_queryID = None, ar_trigger = None, ar_values = None, ar_message = None, ar_details = None,
     ar_alertNodes = None, ar_every = None, ar_name = None, ar_status = None\<rparr>"

definition DEFAULT_RULE_ID :: string where "DEFAULT_RULE_ID = ''DEFAULT_RULE_ID''"

definition defaultRuleConfigs :: "string js_obj js_obj" where
  "defaultRuleConfigs =
     [(''deadman'', [(''period'', ''10m'')]),
      (''relative'', [(''change'', ''change''), (''shift'', ''1m''), (''operator'', ''greater than''), (''value'', [])]),
      (''threshold'', [(''operator'', ''greater than''), (''value'', []), (''rangeValue'', []), (''relation'', ''once''), (''percentile'', ''90'')])]"

datatype rules_action =
    LoadDefaultRule string
  | LoadRules "alert_rule list"
  | LoadRule alert_rule
  | ChooseTrigger string string
  | AddEvery string string
  | RemoveEvery string
  | UpdateRuleValues string string "string js_obj"
  | UpdateMessage string string
  | UpdateAlertNodes string "handler list"
  | UpdateRuleName string string
  | DeleteRuleSuccess string
  | UpdateDetails string string
  | UpdateRuleStatusSuccess string string

definition on_rule :: "alert_rule js_obj \<Rightarrow> string \<Rightarrow> (alert_rule \<Rightarrow> alert_rule) \<Rightarrow> alert_rule js_obj" where
  "on_rule st ruleID f = obj_set st ruleID (f (case obj_get st ruleID of None \<Rightarrow> no_rule | Some r \<Rightarrow> r))"

definition rules_reducer :: "alert_rule js_obj \<Rightarrow> rules_action \<Rightarrow> alert_rule js_obj result" where
  "rules_reducer st action =
     (case action of
        LoadDefaultRule queryID \<Rightarrow>
          Inr (obj_set st DEFAULT_RULE_ID
            (no_rule\<lparr>ar_id := Some DEFAULT_RULE_ID, ar_queryID := Some queryID, ar_trigger := Some ''threshold'',
               ar_values := obj_get defaultRuleConfigs ''threshold'', ar_message := Some [], ar_alertNodes := Some [], ar_name := Some ''Untitled Rule''\<rparr>))
      | LoadRules theRules \<Rightarrow> Inr (obj_of_list [] (map (\<lambda>r. (opt_str (ar_id r), r)) theRules))
      | LoadRule r \<Rightarrow> Inr (obj_set st (opt_str (ar_id r)) r)
      | ChooseTrigger ruleID trigger \<Rightarrow>
          Inr (on_rule st ruleID (\<lambda>r. r\<lparr>ar_trigger := Some (toLowerCase trigger), ar_values := obj_get defaultRuleConfigs (toLowerCase trigger)\<rparr>))
      | AddEvery ruleID frequency \<Rightarrow> Inr (on_rule st ruleID (\<lambda>r. r\<lparr>ar_every := Some frequency\<rparr>))
      | RemoveEvery ruleID \<Rightarrow> Inr (on_rule st ruleID (\<lambda>r. r\<lparr>ar_every := None\<rparr>))
      | UpdateRuleValues ruleID trigger vs \<Rightarrow>
          Inr (on_rule st ruleID (\<lambda>r. r\<lparr>ar_trigger := Some (toLowerCase trigger), ar_values := Some vs\<rparr>))
      | UpdateMessage ruleID message \<Rightarrow> Inr (on_rule st ruleID (\<lambda>r. r\<lparr>ar_message := Some message\<rparr>))
      | UpdateAlertNodes ruleID alerts \<Rightarrow>
          map_res (\<lambda>alertNodesByType. on_rule st ruleID (\<lambda>r. r\<lparr>ar_alertNodes := Some alertNodesByType\<rparr>)) (alert_nodes alerts)
      | UpdateRuleName ruleID nm \<Rightarrow> Inr (on_rule st ruleID (\<lambda>r. r\<lparr>ar_name := Some nm\<rparr>))
      | DeleteRuleSuccess ruleID \<Rightarrow> Inr (obj_del st ruleID)
      | UpdateDetails ruleID details \<Rightarrow> Inr (on_rule st ruleID (\<lambda>r. r\<lparr>ar_details := Some details\<rparr>))
      | UpdateRuleStatusSuccess ruleID status \<Rightarrow> Inr (on_rule st ruleID (\<lambda>r. r\<lparr>ar_status := Some status\<rparr>)))"

datatype rule_dispatch =
    DoRule rules_action
  | LoadRuleQuery \<comment> \<open>the query of the rule, for the store of queries\<close>
  | AddRuleQuery string
  | NotifyRule string
  | RuleError

definition fetchRule :: "unit answer \<Rightarrow> (alert_rule \<times> string option) answer \<Rightarrow> rule_dispatch list" where
  \<comment> \<open>a rule, with the id of its query; a failure, and a rule without a query, are rejections nobody handles\<close>
  "fetchRule kapacitor ans =
     (case (kapacitor, ans) of
        (Inr _, Inr (r, Some queryID)) \<Rightarrow> [DoRule (LoadRule (r\<lparr>ar_queryID := Some queryID\<rparr>)), LoadRuleQuery]
      | _ \<Rightarrow> [])"

definition getRule :: "(alert_rule \<times> string option) answer \<Rightarrow> rule_dispatch list" where
  "getRule ans =
     (case ans of
        Inl _ \<Rightarrow> []
      | Inr (r, q) \<Rightarrow> DoRule (LoadRule (r\<lparr>ar_queryID := q\<rparr>)) # (if q = None then [] else [LoadRuleQuery]))"

definition loadDefaultRule :: "string \<Rightarrow> rule_dispatch list" where
  "loadDefaultRule queryID = [DoRule (LoadDefaultRule queryID), AddRuleQuery queryID]"

definition fetchRules :: "alert_rule list answer \<Rightarrow> rule_dispatch list" where
  "fetchRules ans = (case ans of Inr rs \<Rightarrow> [DoRule (LoadRules rs)] | Inl _ \<Rightarrow> [RuleError])"

definition deleteRule :: "alert_rule \<Rightarrow> unit answer \<Rightarrow> rule_dispatch list" where
  "deleteRule r ans =
     (case ans of Inr _ \<Rightarrow> [DoRule (DeleteRuleSuccess (opt_str (ar_id r))), NotifyRule ''deleted''] | Inl _ \<Rightarrow> [NotifyRule ''deleteFailed''])"

definition updateRuleStatus :: "alert_rule \<Rightarrow> string \<Rightarrow> unit answer \<Rightarrow> rule_dispatch list" where
  "updateRuleStatus r status ans = (case ans of Inr _ \<Rightarrow> [NotifyRule ''statusUpdated''] | Inl _ \<Rightarrow> [NotifyRule ''statusUpdateFailed''])"

definition handleRuleStatus :: "alert_rule \<Rightarrow> unit answer \<Rightarrow> rule_dispatch list" where
  \<comment> \<open>of the page of the rules: the answer comes after the status has been changed\<close>
  "handleRuleStatus r ans =
     (let status = (if ar_status r = Some ''enabled'' then ''disabled'' else ''enabled'')
      in DoRule (UpdateRuleStatusSuccess (opt_str (ar_id r)) status) # updateRuleStatus r status ans)"

section \<open>The page of a rule\<close>

definition tabs :: "string list" where
  "tabs = [''Threshold'', ''Relative'', ''Deadman'']"

definition handleChooseTrigger :: "alert_rule \<Rightarrow> nat \<Rightarrow> rules_action list" where
  "handleChooseTrigger r triggerIndex =
     (if Some (tabs ! triggerIndex) = ar_trigger r then [] else [ChooseTrigger (opt_str (ar_id r)) (tabs ! triggerIndex)])"

definition value_of :: "alert_rule \<Rightarrow> string \<Rightarrow> string option" where
  "value_of r k = (case ar_values r of None \<Rightarrow> None | Some vs \<Rightarrow> obj_get vs k)"

definition deadmanValidation :: "query_config \<Rightarrow> string" where
  "deadmanValidation q = (if \<not> truthy (qc_database q) \<or> \<not> truthy (qc_measurement q) then ''alertRuleDeadmanInvalid'' else [])"

definition validationError :: "alert_rule \<Rightarrow> query_config \<Rightarrow> string result" where
  "validationError r q =
     (if ar_trigger r = Some ''deadman'' then Inr (deadmanValidation q)
      else bind_r (buildInfluxQLQuery \<lparr>b_lower = Some [], b_upper = None\<rparr> q []) (\<lambda>influxql.
        if \<not> truthy influxql then Inr ''alertRuleRequiresQuery''
        else map_res (\<lambda>vs. if \<not> truthy (obj_get vs ''value'') then ''alertRuleRequiresConditionValue'' else []) (deref (ar_values r))))"

definition rangeRule :: "(string option \<Rightarrow> 'n :: linorder option) \<Rightarrow> ('n option \<Rightarrow> string) \<Rightarrow> string js_obj \<Rightarrow> string js_obj" where
  \<comment> \<open>on the values of a rule; \<open>num\<close> is \<open>Number\<close>, where None is NaN, and \<open>str\<close> its text\<close>
  "rangeRule num str vs =
     (if obj_get vs ''operator'' = Some ''inside range'' \<or> obj_get vs ''operator'' = Some ''outside range''
      then (let a = num (obj_get vs ''value''); b = num (obj_get vs ''rangeValue'');
                mn = (case (a, b) of (Some x, Some y) \<Rightarrow> Some (min x y) | _ \<Rightarrow> None);
                mx = (case (a, b) of (Some x, Some y) \<Rightarrow> Some (max x y) | _ \<Rightarrow> None)
            in obj_set (obj_set vs ''value'' (str mn)) ''rangeValue'' (str mx))
      else vs)"

datatype rule_request =
    PostRule alert_rule "query_config option"
  | PutRule alert_rule "query_config option"

definition sent_rule :: "(string option \<Rightarrow> 'n :: linorder option) \<Rightarrow> ('n option \<Rightarrow> string) \<Rightarrow> alert_rule \<Rightarrow> alert_rule result" where
  \<comment> \<open>the values are changed where they are, so this is also the rule of the store afterwards\<close>
  "sent_rule num str r = map_res (\<lambda>vs. r\<lparr>ar_values := Some (rangeRule num str vs)\<rparr>) (deref (ar_values r))"

definition rule_query :: "query_config js_obj \<Rightarrow> alert_rule \<Rightarrow> query_config option" where
  "rule_query queryConfigs r = obj_get queryConfigs (opt_str (ar_queryID r))"

definition handleCreate_rule ::
  "(string option \<Rightarrow> 'n :: linorder option) \<Rightarrow> ('n option \<Rightarrow> string) \<Rightarrow> query_config js_obj \<Rightarrow> alert_rule \<Rightarrow> (rule_request \<times> alert_rule) result" where
  \<comment> \<open>the request, and the rule of the store\<close>
  "handleCreate_rule num str queryConfigs r =
     map_res (\<lambda>r'. (PostRule (r'\<lparr>ar_queryID := None\<rparr>) (rule_query queryConfigs r), r')) (sent_rule num str r)"

definition handleEdit_rule ::
  "(string option \<Rightarrow> 'n :: linorder option) \<Rightarrow> ('n option \<Rightarrow> string) \<Rightarrow> query_config js_obj \<Rightarrow> alert_rule \<Rightarrow> (rule_request \<times> alert_rule) result" where
  "handleEdit_rule num str queryConfigs r = map_res (\<lambda>r'. (PutRule r' (rule_query queryConfigs r), r')) (sent_rule num str r)"

definition handleSave_rule ::
  "(string option \<Rightarrow> 'n :: linorder option) \<Rightarrow> ('n option \<Rightarrow> string) \<Rightarrow> query_config js_obj \<Rightarrow> alert_rule \<Rightarrow> (rule_request \<times> alert_rule) result" where
  "handleSave_rule num str queryConfigs r =
     (if ar_id r = Some DEFAULT_RULE_ID then handleCreate_rule num str queryConfigs r else handleEdit_rule num str queryConfigs r)"

definition handleSaveToConfig ::
  "(string option \<Rightarrow> 'n :: linorder option) \<Rightarrow> ('n option \<Rightarrow> string) \<Rightarrow> query_config js_obj \<Rightarrow> alert_rule \<Rightarrow> query_config \<Rightarrow>
     (rule_request \<times> alert_rule) option result" where
  \<comment> \<open>with an error, the page is left and nothing is saved\<close>
  "handleSaveToConfig num str queryConfigs r q =
     bind_r (validationError r q) (\<lambda>err.
       if err \<noteq> [] then Inr None else map_res Some (handleSave_rule num str queryConfigs r))"

definition handleRuleTypeDropdownChange :: "alert_rule \<Rightarrow> string \<Rightarrow> string \<Rightarrow> rules_action" where
  "handleRuleTypeDropdownChange r ty tx =
     UpdateRuleValues (opt_str (ar_id r)) (opt_str (ar_trigger r)) (obj_set (case ar_values r of None \<Rightarrow> [] | Some vs \<Rightarrow> vs) ty tx)"

definition handleRuleTypeInputChange :: "alert_rule \<Rightarrow> string \<Rightarrow> string option \<Rightarrow> rules_action" where
  \<comment> \<open>of the texts of the two fields, the second of which need not be there\<close>
  "handleRuleTypeInputChange r lower upper =
     UpdateRuleValues (opt_str (ar_id r)) (opt_str (ar_trigger r))
       (obj_set (obj_set (case ar_values r of None \<Rightarrow> [] | Some vs \<Rightarrow> vs) ''value'' lower) ''rangeValue'' (case upper of None \<Rightarrow> [] | Some u \<Rightarrow> u))"

definition handleDeadmanChange :: "alert_rule \<Rightarrow> string \<Rightarrow> rules_action" where
  "handleDeadmanChange r tx = UpdateRuleValues (opt_str (ar_id r)) (opt_str (ar_trigger r)) [(''period'', tx)]"

definition handleAddEvery :: "alert_rule \<Rightarrow> string \<Rightarrow> rules_action" where
  "handleAddEvery r frequency = AddEvery (opt_str (ar_id r)) frequency"

definition handleRemoveEvery :: "alert_rule \<Rightarrow> rules_action" where
  "handleRemoveEvery r = RemoveEvery (opt_str (ar_id r))"

section \<open>Editing the handlers of a rule\<close>

datatype handlers_event =
    ChooseHandler nat
  | AddHandler nat \<comment> \<open>an item of the menu\<close>
  | RemoveHandler nat
  | ModifyHandler string handler_input \<comment> \<open>a field of the handler selected\<close>

record handlers_page =
  hp_state :: rule_handlers
  hp_saved :: "handler list js_obj option" \<comment> \<open>the alert nodes put into the rule, if any have been\<close>

definition handleUpdateAllAlerts :: "rule_handlers \<Rightarrow> handlers_page result" where
  "handleUpdateAllAlerts st = map_res (\<lambda>nodes. \<lparr>hp_state = st, hp_saved = Some nodes\<rparr>) (alert_nodes (rh_handlersOnThisAlert st))"

definition handlers_event :: "handler list \<Rightarrow> handlers_event \<Rightarrow> handlers_page \<Rightarrow> handlers_page result" where
  "handlers_event cfg ev pg =
     (let st = hp_state pg; hs = rh_handlersOnThisAlert st
      in case ev of
           ChooseHandler i \<Rightarrow> Inr (if i < length hs then pg\<lparr>hp_state := handleChooseHandler (addNicknameText (hs ! i)) st\<rparr> else pg)
         | AddHandler i \<Rightarrow> (if i < length (handler_items cfg) \<and> h_type (handler_items cfg ! i) \<noteq> []
              then handleUpdateAllAlerts (handleAddHandler (handler_items cfg ! i) st) else Inr pg)
         | RemoveHandler i \<Rightarrow> (if i < length hs
              then bind_r (handleRemoveHandler (addNicknameText (hs ! i)) st) handleUpdateAllAlerts else Inr pg)
         | ModifyHandler fieldName inp \<Rightarrow> (case rh_selectedHandler st of
              None \<Rightarrow> Inr pg | Some h \<Rightarrow> handleUpdateAllAlerts (handleModifyHandler h fieldName inp st)))"

definition handlers_step :: "handler list \<Rightarrow> handlers_page result \<Rightarrow> handlers_event \<Rightarrow> handlers_page result" where
  "handlers_step cfg r ev = bind_r r (handlers_event cfg ev)"

definition handlers_open :: "handler list \<Rightarrow> handler list js_obj \<Rightarrow> handlers_page" where
  "handlers_open cfg nodes = \<lparr>hp_state = parseHandlersFromRule nodes cfg, hp_saved = None\<rparr>"

section \<open>Reading back the alert nodes\<close>

lemma obj_get_pick: "obj_get (obj_pick ob ks) k = (if k \<in> set ks then obj_get ob k else None)"
  by (induction ks) (auto simp: obj_pick_def List.map_filter_simps split: option.splits)

lemma obj_pick_cong: "(\<And>k. k \<in> set ks \<Longrightarrow> obj_get a k = obj_get b k) \<Longrightarrow> obj_pick a ks = obj_pick b ks"
  unfolding obj_pick_def List.map_filter_def by (simp cong: map_cong filter_cong)

lemma keys_pick: "k \<in> fst ` set (obj_pick ob ks) \<Longrightarrow> k \<in> set ks"
  using obj_get_pick[of ob ks k] obj_get_None_iff[of "obj_pick ob ks" k] by (auto split: if_splits)

lemma map_fst_pick: "map fst (obj_pick ob ks) = filter (\<lambda>k. obj_get ob k \<noteq> None) ks"
  by (induction ks) (auto simp: obj_pick_def List.map_filter_simps split: option.split)

lemma obj_ok_pick: "distinct ks \<Longrightarrow> obj_ok (obj_pick ob ks)"
  by (simp add: obj_ok_def map_fst_pick)

lemma obj_get_assign: "obj_ok b \<Longrightarrow> obj_get (obj_assign a b) k = (case obj_get b k of None \<Rightarrow> obj_get a k | Some v \<Rightarrow> Some v)"
  unfolding obj_assign_def obj_ok_def by (simp add: obj_get_of_list obj_get_def[symmetric] split: option.split)

lemma obj_set_new: "k \<notin> fst ` set ob \<Longrightarrow> obj_set ob k v = ob @ [(k, v)]"
  by (induction ob k v rule: obj_set.induct) auto

lemma obj_set_end: "k \<notin> fst ` set ob \<Longrightarrow> obj_set (ob @ [(k, w)]) k v = ob @ [(k, v)]"
  by (induction ob k v rule: obj_set.induct) auto

lemma obj_get_end: "k \<notin> fst ` set ob \<Longrightarrow> obj_get (ob @ [(k, w)]) k = Some w"
  by (induction ob) auto

lemma obj_entries_plain:
  assumes "obj_ok ob" and "\<And>k. k \<in> fst ` set ob \<Longrightarrow> \<not> is_index k"
  shows "obj_entries ob = ob"
proof -
  have "filter is_index (map fst ob) = []" "filter (\<lambda>k. \<not> is_index k) (map fst ob) = map fst ob"
    using assms(2) by (auto simp: filter_empty_conv filter_id_conv)
  then have "obj_keys ob = map fst ob" by (simp add: obj_keys_def Let_def)
  moreover have "map (\<lambda>k. (k, the (obj_get ob k))) (map fst ob) = ob"
    using assms(1) by (auto simp: obj_ok_def obj_get_def intro!: map_idI)
  ultimately show ?thesis by (simp add: obj_entries_eq)
qed

definition rule_type :: "string \<Rightarrow> bool" where
  "rule_type t \<longleftrightarrow> obj_get HANDLERS_TO_RULE_THEM_ALL t \<noteq> None"

lemma rule_fields_plain: "distinct (rule_fields t) \<and> ''alias'' \<notin> set (rule_fields t) \<and> ''type'' \<notin> set (rule_fields t) \<and>
    ''enabled'' \<notin> set (rule_fields t) \<and> ''headerKey'' \<notin> set (rule_fields t) \<and> ''headerValue'' \<notin> set (rule_fields t) \<and>
    (''headers'' \<in> set (rule_fields t) \<longrightarrow> t = ''post'')"
proof -
  have "\<forall>p\<in>set HANDLERS_TO_RULE_THEM_ALL. distinct (snd p) \<and> ''alias'' \<notin> set (snd p) \<and> ''type'' \<notin> set (snd p) \<and>
      ''enabled'' \<notin> set (snd p) \<and> ''headerKey'' \<notin> set (snd p) \<and> ''headerValue'' \<notin> set (snd p) \<and> (''headers'' \<in> set (snd p) \<longrightarrow> fst p = ''post'')"
    unfolding HANDLERS_TO_RULE_THEM_ALL_def by simp
  then show ?thesis
    unfolding rule_fields_def by (cases "obj_get HANDLERS_TO_RULE_THEM_ALL t") (auto simp: obj_get_def dest!: map_of_SomeD)
qed

lemma rule_type_plain: "rule_type t \<Longrightarrow> \<not> is_index t"
proof -
  have "\<forall>p\<in>set HANDLERS_TO_RULE_THEM_ALL. \<not> is_index (fst p)"
    unfolding HANDLERS_TO_RULE_THEM_ALL_def by (simp add: is_index_def is_digit_def)
  then show "rule_type t \<Longrightarrow> \<not> is_index t" by (auto simp: rule_type_def obj_get_def dest!: map_of_SomeD)
qed

lemma rule_fields_of:
  "rule_fields ''post'' = [''url'', ''headers'', ''captureResponse'']" "rule_fields ''tcp'' = [''address'']"
  "rule_fields ''exec'' = [''command'']" "rule_fields ''log'' = [''filePath'']"
  by (simp_all add: rule_fields_def HANDLERS_TO_RULE_THEM_ALL_def)

definition fits_config :: "handler list \<Rightarrow> string \<Rightarrow> handler \<Rightarrow> bool" where
  \<comment> \<open>the configuration of the type is enabled and adds no field of the rule that the handler does not have; there is none for the handlers that are
    not configured\<close>
  "fits_config cfg t v \<longleftrightarrow>
     (case List.find (\<lambda>h. obj_get h ''type'' = Some (HStr t)) cfg of
        None \<Rightarrow> True
      | Some c \<Rightarrow> t \<notin> {''post'', ''tcp'', ''exec'', ''log''} \<and> obj_ok c \<and> obj_get c ''enabled'' = Some (HBool True) \<and>
          (\<forall>k\<in>set (rule_fields t). obj_get c k \<noteq> None \<longrightarrow> obj_get v k \<noteq> None))"

lemma get_picked: "obj_get (picked h) k = (if k \<in> set (rule_fields (h_type h)) then obj_get (with_headers h) k else None)"
  by (simp add: picked_def obj_get_pick)

lemma with_headers_get: "k \<noteq> ''headers'' \<Longrightarrow> obj_get (with_headers h) k = obj_get h k"
  by (simp add: with_headers_def obj_get_set)

lemma parse_handler_get:
  assumes v: "obj_ok v" and fits: "fits_config cfg t v" and t: "t \<noteq> ''post''" and k: "k \<in> set (rule_fields t)"
  shows "obj_get (parse_handler cfg t n v) k = obj_get v k"
proof -
  have plain: "k \<noteq> ''alias''" "k \<noteq> ''type''" "k \<noteq> ''enabled''" using k rule_fields_plain[of t] by auto
  show ?thesis
  proof (cases "List.find (\<lambda>h. obj_get h ''type'' = Some (HStr t)) cfg")
    case None
    then show ?thesis using t plain v by (simp add: parse_handler_def obj_get_set obj_get_assign[of "[]"] obj_get_assign split: option.split)
  next
    case (Some c)
    then have "obj_ok c" "obj_get c k \<noteq> None \<longrightarrow> obj_get v k \<noteq> None" using fits k by (simp_all add: fits_config_def)
    then show ?thesis using Some t plain v by (auto simp: parse_handler_def obj_get_set obj_get_assign split: option.split)
  qed
qed

lemma parse_handler_type: "h_type (parse_handler cfg t n v) = t"
  by (simp add: parse_handler_def h_type_def h_str_def obj_get_set Let_def)

lemma parse_handler_alias: "h_alias (parse_handler cfg t n v) = Some (HStr (handler_alias t n))"
  by (simp add: parse_handler_def h_alias_def obj_get_set Let_def)

lemma split_headers_ok: "obj_ok v \<Longrightarrow> obj_ok (split_headers v)"
  by (simp add: split_headers_def Let_def split: option.split prod.split list.split)

lemma split_headers_get: "k \<notin> {''headers'', ''headerKey'', ''headerValue''} \<Longrightarrow> obj_get (split_headers v) k = obj_get v k"
  by (simp add: split_headers_def Let_def obj_get_set obj_get_del split: option.split prod.split list.split)

lemma split_headers_post:
  assumes "obj_get v ''headers'' = Some (HHeaders [(k, w)])"
  shows "obj_get (split_headers v) ''headerKey'' = Some (HStr k)"
    and "obj_get (split_headers v) ''headerValue'' = map_option HStr w"
  using assms by (simp_all add: split_headers_def Let_def obj_get_set obj_get_del split: option.split)

lemma fits_unconfigured:
  "fits_config cfg t v \<Longrightarrow> t \<in> {''post'', ''tcp'', ''exec'', ''log''} \<Longrightarrow> List.find (\<lambda>h. obj_get h ''type'' = Some (HStr t)) cfg = None"
  by (cases "List.find (\<lambda>h. obj_get h ''type'' = Some (HStr t)) cfg") (simp_all add: fits_config_def)

lemma parse_post_get:
  assumes v: "obj_ok v" and fits: "fits_config cfg ''post'' v" and k: "k \<notin> {''alias'', ''type'', ''enabled''}"
  shows "obj_get (parse_handler cfg ''post'' n v) k = obj_get (split_headers v) k"
  using fits_unconfigured[OF fits] k split_headers_ok[OF v]
  by (auto simp: parse_handler_def obj_get_set obj_get_assign split: option.split)

lemma picked_ok: "obj_ok (picked h)"
  using rule_fields_plain[of "h_type h"] by (simp add: picked_def obj_ok_pick)

lemma picked_enabled: "obj_get (picked h) ''enabled'' = None"
  using rule_fields_plain[of "h_type h"] by (simp add: get_picked)

lemma picked_again:
  assumes t: "h_type h = t" and fits: "fits_config cfg t (picked h)"
  shows "picked (parse_handler cfg t n (picked h)) = picked h"
proof -
  let ?v = "picked h" and ?h = "parse_handler cfg t n (picked h)"
  have "obj_get (with_headers ?h) k = obj_get (with_headers h) k" if k: "k \<in> set (rule_fields t)" for k
  proof (cases "t = ''post''")
    case False
    then have "with_headers ?h = ?h" by (simp add: with_headers_def parse_handler_type)
    then show ?thesis using parse_handler_get[OF picked_ok fits False k] k t by (simp add: get_picked)
  next
    case post: True
    have plain: "k \<notin> {''alias'', ''type'', ''enabled''}" and keys: "k \<noteq> ''headerKey''" "k \<noteq> ''headerValue''"
      using k rule_fields_plain[of t] by auto
    show ?thesis
    proof (cases "k = ''headers''")
      case False
      then have "obj_get (with_headers ?h) k = obj_get ?h k" by (rule with_headers_get)
      also have "\<dots> = obj_get ?v k"
        unfolding post parse_post_get[OF picked_ok fits[unfolded post] plain] by (rule split_headers_get) (use False keys in simp)
      finally show ?thesis using k t by (simp add: get_picked)
    next
      case True
      obtain x w where v: "obj_get (with_headers h) ''headers'' = Some (HHeaders [(x, w)])"
        using t post unfolding with_headers_def by (simp add: obj_get_set)
      then have v': "obj_get ?v ''headers'' = Some (HHeaders [(x, w)])" using t post by (simp add: get_picked rule_fields_of)
      have "obj_get ?h ''headerKey'' = Some (HStr x)" "obj_get ?h ''headerValue'' = map_option HStr w"
        unfolding post using parse_post_get[OF picked_ok fits[unfolded post]] split_headers_post[OF v'] by simp_all
      then have "obj_get (with_headers ?h) ''headers'' = Some (HHeaders [(x, w)])"
        using post by (cases w) (simp_all add: with_headers_def parse_handler_type obj_get_set h_str_def)
      then show ?thesis using v True by simp
    qed
  qed
  then have "obj_pick (with_headers ?h) (rule_fields t) = obj_pick (with_headers h) (rule_fields t)" by (rule obj_pick_cong)
  then show ?thesis unfolding picked_def[of ?h] parse_handler_type unfolding picked_def[of h] t by simp
qed

lemma parse_kept:
  \<comment> \<open>a field that tells whether a handler is filled in is read back\<close>
  assumes t: "h_type h = t" and fits: "fits_config cfg t (picked h)" and k: "k \<in> set (rule_fields t)" "k \<noteq> ''headers''"
  shows "obj_get (parse_handler cfg t n (picked h)) k = obj_get h k"
proof -
  have "obj_get (with_headers (parse_handler cfg t n (picked h))) k = obj_get (with_headers h) k"
    using picked_again[OF t fits, of n] get_picked[of "parse_handler cfg t n (picked h)" k] get_picked[of h k] k t
    by (simp add: parse_handler_type)
  then show ?thesis using k by (simp add: with_headers_get)
qed

lemma parse_enabled:
  assumes "fits_config cfg t (picked h)"
  shows "h_enabled (parse_handler cfg t n (picked h))"
proof -
  have en: "obj_get (split_headers (picked h)) ''enabled'' = None" by (simp add: split_headers_get picked_enabled)
  show ?thesis
  proof (cases "List.find (\<lambda>h. obj_get h ''type'' = Some (HStr t)) cfg")
    case None
    then show ?thesis
      by (simp add: parse_handler_def h_enabled_def obj_get_set obj_get_assign picked_ok split_headers_ok en picked_enabled split: option.split)
  next
    case (Some c)
    then have "obj_ok c" "obj_get c ''enabled'' = Some (HBool True)" using assms by (simp_all add: fits_config_def)
    then show ?thesis using Some
      by (simp add: parse_handler_def h_enabled_def obj_get_set obj_get_assign picked_ok split_headers_ok en picked_enabled)
  qed
qed

lemma parse_blank:
  assumes t: "h_type h = t" and fits: "fits_config cfg t (picked h)"
  shows "is_blank (parse_handler cfg t n (picked h)) = is_blank h"
  using parse_kept[OF t fits, of "''url''" n] parse_kept[OF t fits, of "''filePath''" n] parse_kept[OF t fits, of "''address''" n]
    parse_kept[OF t fits, of "''command''" n] t
  unfolding is_blank_def parse_handler_type by (auto simp: rule_fields_of)

lemma parse_throws:
  assumes t: "h_type h = t" and fits: "fits_config cfg t (picked h)" and h: "h_enabled h" "\<not> throws_on h"
  shows "\<not> throws_on (parse_handler cfg t n (picked h))"
  using parse_kept[OF t fits, of "''command''" n] t h unfolding throws_on_def parse_handler_type by (auto simp: rule_fields_of)

definition read_from :: "handler list \<Rightarrow> string \<Rightarrow> handler \<Rightarrow> bool" where
  \<comment> \<open>the options are those of a handler that is saved\<close>
  "read_from hs t v \<longleftrightarrow> (\<exists>h\<in>set hs. h_type h = t \<and> v = picked h \<and> h_enabled h \<and> \<not> is_blank h \<and> \<not> throws_on h)"

definition nodes_of :: "handler list \<Rightarrow> handler list js_obj \<Rightarrow> bool" where
  "nodes_of hs nodes \<longleftrightarrow> obj_ok nodes \<and> (\<forall>(t, vs)\<in>set nodes. vs \<noteq> [] \<and> (\<forall>v\<in>set vs. read_from hs t v))"

lemma nodes_of_set:
  assumes "nodes_of hs nodes" and "vs \<noteq> []" and "\<forall>v\<in>set vs. read_from hs t v"
  shows "nodes_of hs (obj_set nodes t vs)"
proof -
  have "set (obj_set nodes t vs) \<subseteq> insert (t, vs) (set nodes)" by (induction nodes t vs rule: obj_set.induct) auto
  then show ?thesis using assms unfolding nodes_of_def by fastforce
qed

lemma nodes_of_get: "nodes_of hs nodes \<Longrightarrow> obj_get nodes t = Some vs \<Longrightarrow> \<forall>v\<in>set vs. read_from hs t v"
  by (auto simp: nodes_of_def obj_get_def dest!: map_of_SomeD)

lemma nodes_of_step:
  assumes "nodes_of hs nodes" and h: "h \<in> set hs" "\<not> throws_on h"
  shows "nodes_of hs (alert_step nodes h)"
proof (cases "h_enabled h \<and> \<not> is_blank h")
  case True
  let ?vs = "(case obj_get nodes (h_type h) of None \<Rightarrow> [] | Some hs \<Rightarrow> hs) @ [picked h]"
  have "read_from hs (h_type h) (picked h)" using True h by (auto simp: read_from_def)
  then have "\<forall>v\<in>set ?vs. read_from hs (h_type h) v" using nodes_of_get[OF assms(1), of "h_type h"] by (cases "obj_get nodes (h_type h)") auto
  then have "nodes_of hs (obj_set nodes (h_type h) ?vs)" by (intro nodes_of_set assms(1)) auto
  then show ?thesis using True by (simp add: alert_step_def Let_def)
qed (use assms in \<open>auto simp: alert_step_def\<close>)

lemma nodes_of_fold:
  "nodes_of hs nodes \<Longrightarrow> set gs \<subseteq> set hs \<Longrightarrow> \<forall>h\<in>set gs. \<not> throws_on h \<Longrightarrow> nodes_of hs (foldl alert_step nodes gs)"
  by (induction gs arbitrary: nodes) (auto simp: nodes_of_step)

lemma alert_nodes_of: "alert_nodes hs = Inr nodes \<Longrightarrow> nodes_of hs nodes"
  using nodes_of_fold[of hs "[]" hs] by (auto simp: alert_nodes_def nodes_of_def split: if_splits)

lemma step_read_back:
  assumes r: "read_from hs t v" and fits: "fits_config cfg t v"
  shows "\<not> throws_on (parse_handler cfg t n v)"
    and "alert_step acc (parse_handler cfg t n v) = obj_set acc t ((case obj_get acc t of None \<Rightarrow> [] | Some hs \<Rightarrow> hs) @ [v])"
proof -
  obtain h where h: "h_type h = t" "v = picked h" "h_enabled h" "\<not> is_blank h" "\<not> throws_on h" using r by (auto simp: read_from_def)
  have fits': "fits_config cfg t (picked h)" using fits h(2) by simp
  show "\<not> throws_on (parse_handler cfg t n v)" using parse_throws[OF h(1) fits' h(3,5)] h(2) by simp
  show "alert_step acc (parse_handler cfg t n v) = obj_set acc t ((case obj_get acc t of None \<Rightarrow> [] | Some hs \<Rightarrow> hs) @ [v])"
    using parse_enabled[OF fits'] parse_blank[OF h(1) fits'] picked_again[OF h(1) fits'] h
    by (simp add: alert_step_def parse_handler_type Let_def)
qed

lemma kind_read_back_more:
  assumes "t \<notin> fst ` set acc"
  shows "\<forall>v\<in>set vs. read_from hs t v \<and> fits_config cfg t v \<Longrightarrow>
    foldl alert_step (acc @ [(t, pre)]) (map (\<lambda>(i, opts). parse_handler cfg t (Suc i) opts) (enumerate i vs)) = acc @ [(t, pre @ vs)]"
proof (induction vs arbitrary: pre i)
  case (Cons v vs)
  have "alert_step (acc @ [(t, pre)]) (parse_handler cfg t (Suc i) v) = acc @ [(t, pre @ [v])]"
    using Cons.prems step_read_back(2)[of hs t v cfg "acc @ [(t, pre)]" "Suc i"] obj_get_end[OF assms] obj_set_end[OF assms] by simp
  then show ?case using Cons by simp
qed simp

lemma kind_read_back:
  assumes t: "t \<notin> fst ` set acc" and vs: "vs \<noteq> []" "\<forall>v\<in>set vs. read_from hs t v \<and> fits_config cfg t v"
  shows "foldl alert_step acc (kind_handlers cfg (t, vs)) = acc @ [(t, vs)]"
proof -
  obtain v ws where v: "vs = v # ws" using vs(1) by (cases vs) auto
  have none: "obj_get acc t = None" using t by (simp add: obj_get_None_iff)
  then have "alert_step acc (parse_handler cfg t (Suc 0) v) = acc @ [(t, [v])]"
    using vs v step_read_back(2)[of hs t v cfg acc "Suc 0"] none obj_set_new[OF t] by simp
  then show ?thesis using kind_read_back_more[OF t, of ws hs cfg "[v]" "Suc 0"] vs v by (simp add: kind_handlers_def)
qed

lemma kinds_read_back:
  "distinct (map fst (acc @ ns)) \<Longrightarrow> \<forall>(t, vs)\<in>set ns. vs \<noteq> [] \<and> (\<forall>v\<in>set vs. read_from hs t v \<and> fits_config cfg t v) \<Longrightarrow>
    foldl alert_step acc (concat (map (kind_handlers cfg) ns)) = acc @ ns"
proof (induction ns arbitrary: acc)
  case (Cons n ns)
  obtain t vs where n: "n = (t, vs)" by (cases n)
  have "foldl alert_step acc (kind_handlers cfg (t, vs)) = acc @ [(t, vs)]"
    using Cons.prems n by (intro kind_read_back[where hs = hs]) auto
  then show ?case using Cons.IH[of "acc @ [(t, vs)]"] Cons.prems n by simp
qed simp

lemma kinds_mem:
  assumes "h \<in> set (concat (map (kind_handlers cfg) ns))"
  shows "\<exists>t vs i v. (t, vs) \<in> set ns \<and> i < length vs \<and> v \<in> set vs \<and> h = parse_handler cfg t (Suc i) v"
proof -
  obtain t vs where t: "(t, vs) \<in> set ns" "h \<in> set (kind_handlers cfg (t, vs))" using assms by auto
  then obtain i v where "(i, v) \<in> set (enumerate 0 vs)" "h = parse_handler cfg t (Suc i) v" by (auto simp: kind_handlers_def)
  then have "i < length vs" "v \<in> set vs" "h = parse_handler cfg t (Suc i) v" by (auto simp: in_set_enumerate_eq)
  then show ?thesis using t(1) by blast
qed

lemma kinds_no_throw:
  assumes "\<forall>(t, vs)\<in>set ns. \<forall>v\<in>set vs. read_from hs t v \<and> fits_config cfg t v" and "h \<in> set (concat (map (kind_handlers cfg) ns))"
  shows "\<not> throws_on h"
proof -
  obtain t vs i v where m: "(t, vs) \<in> set ns" "v \<in> set vs" "h = parse_handler cfg t (Suc i) v" using kinds_mem[OF assms(2)] by blast
  then show ?thesis using assms(1) step_read_back(1) by blast
qed



section \<open>The handlers keep their names\<close>

definition plain_type :: "string \<Rightarrow> bool" where
  "plain_type t \<longleftrightarrow> CHR ''-'' \<notin> set t"

lemma handler_alias_inj:
  assumes "plain_type t" and "plain_type u"
  shows "handler_alias t n = handler_alias u m \<longleftrightarrow> t = u \<and> n = m"
proof
  assume eq: "handler_alias t n = handler_alias u m"
  have "takeWhile (\<lambda>c. c \<noteq> CHR ''-'') (handler_alias w k) = w" if "plain_type w" for w k
    using that by (auto simp: handler_alias_def plain_type_def takeWhile_append takeWhile_eq_all_conv)
  then have "t = u" using assms eq by metis
  then have "nat_str n = nat_str m" using eq by (simp add: handler_alias_def)
  then show "t = u \<and> n = m" using \<open>t = u\<close> str_nat_nat_str by metis
qed simp

lemma rule_type_plain_type: "rule_type t \<Longrightarrow> plain_type t"
proof -
  have "\<forall>p\<in>set HANDLERS_TO_RULE_THEM_ALL. plain_type (fst p)"
    unfolding HANDLERS_TO_RULE_THEM_ALL_def by (simp add: plain_type_def)
  then show "rule_type t \<Longrightarrow> plain_type t" by (auto simp: rule_type_def obj_get_def dest!: map_of_SomeD)
qed

definition numbered :: "nat js_obj \<Rightarrow> handler \<Rightarrow> bool" where
  \<comment> \<open>a handler has one of the names given to its type so far, and can be saved\<close>
  "numbered counts h \<longleftrightarrow> plain_type (h_type h) \<and> \<not> throws_on h \<and>
     (\<exists>n\<le>kind_count counts (h_type h). h_alias h = Some (HStr (handler_alias (h_type h) n)))"

definition handlers_ok :: "rule_handlers \<Rightarrow> bool" where
  "handlers_ok st \<longleftrightarrow>
     distinct (map h_alias (rh_handlersOnThisAlert st)) \<and>
     (\<forall>h\<in>set (rh_handlersOnThisAlert st). numbered (rh_handlersOfKind st) h) \<and>
     (case rh_selectedHandler st of
        None \<Rightarrow> rh_handlersOnThisAlert st = []
      | Some h \<Rightarrow> numbered (rh_handlersOfKind st) h \<and> h_alias h \<in> set (map h_alias (rh_handlersOnThisAlert st)))"

definition page_handlers_ok :: "handlers_page result \<Rightarrow> bool" where
  "page_handlers_ok r \<longleftrightarrow>
     (\<exists>pg. r = Inr pg \<and> handlers_ok (hp_state pg) \<and>
        (\<forall>nodes. hp_saved pg = Some nodes \<longrightarrow> alert_nodes (rh_handlersOnThisAlert (hp_state pg)) = Inr nodes))"

lemma h_fields_set:
  "k \<noteq> ''type'' \<Longrightarrow> h_type (obj_set h k v) = h_type h"
  "k \<noteq> ''alias'' \<Longrightarrow> h_alias (obj_set h k v) = h_alias h"
  "h_alias (obj_set h ''alias'' v) = Some v"
  by (simp_all add: h_type_def h_str_def h_alias_def obj_get_set)

lemma h_fields_text [simp]:
  "h_type (addNicknameText h) = h_type h" "h_alias (addNicknameText h) = h_alias h" "throws_on (addNicknameText h) = throws_on h"
  by (simp_all add: addNicknameText_def h_fields_set throws_on_def h_enabled_def obj_get_set)

lemma numbered_text [simp]: "numbered counts (addNicknameText h) = numbered counts h"
  by (simp add: numbered_def)

lemma handlers_ok_saved: "handlers_ok st \<Longrightarrow> \<exists>pg. handleUpdateAllAlerts st = Inr pg \<and> hp_state pg = st \<and>
    (\<forall>nodes. hp_saved pg = Some nodes \<longrightarrow> alert_nodes (rh_handlersOnThisAlert st) = Inr nodes)"
  by (auto simp: handlers_ok_def numbered_def handleUpdateAllAlerts_def alert_nodes_def)

lemma update_page_ok: "handlers_ok st \<Longrightarrow> page_handlers_ok (handleUpdateAllAlerts st)"
  using handlers_ok_saved[of st] by (auto simp: page_handlers_ok_def)

lemma choose_ok: "handlers_ok st \<Longrightarrow> h \<in> set (rh_handlersOnThisAlert st) \<Longrightarrow> handlers_ok (handleChooseHandler (addNicknameText h) st)"
  by (auto simp: handlers_ok_def handleChooseHandler_def)

lemma kind_count_set: "kind_count (obj_set counts t n) u = (if u = t then n else kind_count counts u)"
  by (simp add: kind_count_def obj_get_set)

lemma numbered_more:
  assumes "numbered counts h" and "kind_count counts t < n"
  shows "numbered (obj_set counts t n) h"
proof -
  obtain m where "m \<le> kind_count counts (h_type h)" "h_alias h = Some (HStr (handler_alias (h_type h) m))"
    using assms(1) by (auto simp: numbered_def)
  moreover have "kind_count counts (h_type h) \<le> kind_count (obj_set counts t n) (h_type h)" using assms(2) by (simp add: kind_count_set)
  ultimately show ?thesis using assms(1) unfolding numbered_def by (meson le_trans)
qed

lemma numbered_new:
  assumes "numbered counts h" and "plain_type t" and "kind_count counts t < n"
  shows "h_alias h \<noteq> Some (HStr (handler_alias t n))"
  using assms by (auto simp: numbered_def handler_alias_inj)

definition new_endpoint :: "handler \<Rightarrow> nat \<Rightarrow> handler" where
  "new_endpoint item n =
     (let e = obj_set item ''alias'' (HStr (handler_alias (h_type item) n))
      in if h_type e = ''kafka'' then (case obj_get e ''id'' of None \<Rightarrow> obj_del e ''cluster'' | Some i \<Rightarrow> obj_set e ''cluster'' i) else e)"

lemma new_endpoint_fields:
  "h_type (new_endpoint item n) = h_type item" "h_alias (new_endpoint item n) = Some (HStr (handler_alias (h_type item) n))"
  "throws_on (new_endpoint item n) = throws_on item"
  by (simp_all add: new_endpoint_def Let_def h_fields_set throws_on_def h_enabled_def h_type_def h_str_def h_alias_def obj_get_set obj_get_del
      split: option.split)

lemma add_ok:
  assumes ok: "handlers_ok st" and item: "plain_type (h_type item)" "\<not> throws_on item"
  shows "handlers_ok (handleAddHandler item st)"
proof -
  let ?t = "h_type item"
  let ?n = "kind_count (rh_handlersOfKind st) ?t + 1"
  let ?e = "new_endpoint item ?n" and ?counts = "obj_set (rh_handlersOfKind st) (h_type item) (kind_count (rh_handlersOfKind st) (h_type item) + 1)"
  have add: "handleAddHandler item st = st\<lparr>rh_handlersOnThisAlert := rh_handlersOnThisAlert st @ [?e],
      rh_handlersOfKind := ?counts, rh_selectedHandler := Some ?e\<rparr>"
    by (simp only: handleAddHandler_def new_endpoint_def Let_def)
  have e: "numbered ?counts ?e"
    using item by (auto simp: numbered_def new_endpoint_fields kind_count_set)
  have "numbered ?counts h \<and> h_alias h \<noteq> h_alias ?e" if "h \<in> set (rh_handlersOnThisAlert st)" for h
    using ok that item numbered_more[of "rh_handlersOfKind st" h ?t ?n] numbered_new[of "rh_handlersOfKind st" h ?t ?n]
    by (simp add: handlers_ok_def new_endpoint_fields)
  then show ?thesis unfolding add using ok e by (fastforce simp: handlers_ok_def)
qed

lemma find_index_before: "find_index P xs = Some i \<Longrightarrow> i \<le> length (filter (\<lambda>x. \<not> P x) xs)"
  by (induction xs arbitrary: i) (auto split: if_splits)

lemma remove_ok:
  assumes ok: "handlers_ok st" and h: "h \<in> set (rh_handlersOnThisAlert st)"
  shows "\<exists>st'. handleRemoveHandler (addNicknameText h) st = Inr st' \<and> handlers_ok st'"
proof -
  let ?hs = "rh_handlersOnThisAlert st"
  let ?rest = "filter (\<lambda>x. h_alias x \<noteq> h_alias h) ?hs"
  obtain s where s: "rh_selectedHandler st = Some s" "numbered (rh_handlersOfKind st) s" "h_alias s \<in> set (map h_alias ?hs)"
    using ok h by (cases "rh_selectedHandler st") (auto simp: handlers_ok_def)
  have rest: "distinct (map h_alias ?rest)" "\<forall>x\<in>set ?rest. numbered (rh_handlersOfKind st) x"
    using ok by (auto simp: handlers_ok_def distinct_map inj_on_def)
  let ?i = "case find_index (\<lambda>x. h_alias x = h_alias h) ?hs of None \<Rightarrow> 0 | Some i \<Rightarrow> if i > 0 then i - 1 else 0"
  show ?thesis
  proof (cases "h_alias s = h_alias h")
    case False
    then show ?thesis using s rest by (auto simp: handleRemoveHandler_def handlers_ok_def Let_def)
  next
    case True
    have inside: "?i < length ?rest" if "?rest \<noteq> []"
      using that find_index_before[of "\<lambda>x. h_alias x = h_alias h" ?hs] by (cases "find_index (\<lambda>x. h_alias x = h_alias h) ?hs") fastforce+
    show ?thesis
    proof (cases "?rest = []")
      case False
      then have "?rest ! ?i \<in> set ?rest" by (intro nth_mem inside)
      then have "handlers_ok (st\<lparr>rh_selectedHandler := Some (?rest ! ?i), rh_handlersOnThisAlert := ?rest\<rparr>)"
        using rest by (simp add: handlers_ok_def)
      then show ?thesis using s True False by (simp add: handleRemoveHandler_def Let_def)
    qed (use s True rest in \<open>simp add: handleRemoveHandler_def handlers_ok_def Let_def\<close>)
  qed
qed

lemma throws_modified: "\<not> throws_on h \<Longrightarrow> fieldName \<noteq> ''type'' \<Longrightarrow> fieldName \<noteq> ''enabled'' \<Longrightarrow> \<not> throws_on (modified h fieldName inp)"
  by (simp add: modified_def throws_on_def h_fields_set h_enabled_def obj_get_set)

lemma modify_ok:
  assumes ok: "handlers_ok st" and sel: "rh_selectedHandler st = Some h" and f: "fieldName \<notin> {''type'', ''alias'', ''enabled''}"
  shows "handlers_ok (handleModifyHandler h fieldName inp st)"
proof -
  let ?m = "modified h fieldName inp" and ?hs = "rh_handlersOnThisAlert st"
  have m: "h_type ?m = h_type h" "h_alias ?m = h_alias h" using f by (simp_all add: modified_def h_fields_set)
  have nums: "numbered (rh_handlersOfKind st) ?m" and known: "h_alias h \<in> set (map h_alias ?hs)"
    using ok sel f m throws_modified[of h fieldName inp] by (simp_all add: handlers_ok_def numbered_def)
  obtain i where i: "find_index (\<lambda>x. h_alias x = h_alias ?m) ?hs = Some i"
    using known m find_index_None[of "\<lambda>x. h_alias x = h_alias h" ?hs] by fastforce
  note found = find_index_Some[OF i]
  have aliases: "map h_alias (?hs[i := ?m]) = map h_alias ?hs" using found by (metis list_update_id map_update nth_map)
  have "set (?hs[i := ?m]) \<subseteq> insert ?m (set ?hs)" by (rule set_update_subset_insert)
  then have "\<forall>x\<in>set (?hs[i := ?m]). numbered (rh_handlersOfKind st) x" using ok nums by (auto simp: handlers_ok_def)
  moreover have "h_alias ?m \<in> set (map h_alias (?hs[i := ?m]))" unfolding aliases m(2) by (rule known)
  moreover have "distinct (map h_alias (?hs[i := ?m]))" unfolding aliases using ok by (simp add: handlers_ok_def)
  moreover have "handleModifyHandler h fieldName inp st = st\<lparr>rh_selectedHandler := Some ?m, rh_handlersOnThisAlert := ?hs[i := ?m]\<rparr>"
    by (simp add: handleModifyHandler_def Let_def i)
  ultimately show ?thesis using nums unfolding handlers_ok_def by simp
qed

lemma obj_get_of_list_last:
  "obj_get (obj_of_list init ps) k = (case map_of (rev ps) k of Some v \<Rightarrow> Some v | None \<Rightarrow> obj_get init k)"
proof (induction ps arbitrary: init)
  case (Cons p ps)
  then show ?case by (cases p) (auto simp: obj_get_set map_of_append map_add_def split: option.splits)
qed simp

lemma obj_get_unique:
  assumes "(k, v) \<in> set ps" and "\<And>w. (k, w) \<in> set ps \<Longrightarrow> w = v"
  shows "obj_get (obj_of_list [] ps) k = Some v"
proof -
  have "k \<in> fst ` set (rev ps)" using assms(1) by force
  then obtain w where w: "map_of (rev ps) k = Some w" by (metis map_of_eq_None_iff not_None_eq)
  then have "w = v" using assms(2) by (auto dest!: map_of_SomeD)
  then show ?thesis using w by (simp add: obj_get_of_list_last)
qed

definition config_type :: "string \<Rightarrow> bool" where
  "config_type t \<longleftrightarrow> obj_get ALERTS_FROM_CONFIG t \<noteq> None"

lemma config_type_plain: "config_type t \<Longrightarrow> plain_type t \<and> t \<noteq> ''exec'' \<and> t \<noteq> ''undefined''"
proof -
  have "\<forall>p\<in>set ALERTS_FROM_CONFIG. plain_type (fst p) \<and> fst p \<noteq> ''exec'' \<and> fst p \<noteq> ''undefined''"
    unfolding ALERTS_FROM_CONFIG_def by (simp add: plain_type_def)
  then show "config_type t \<Longrightarrow> ?thesis" by (auto simp: config_type_def obj_get_def dest!: map_of_SomeD)
qed

lemma renamed_type: "renamed_key (obj_get MAP_FIELD_KEYS_FROM_CONFIG t) k = ''type'' \<longleftrightarrow> k = ''type''"
proof -
  have names: "\<forall>p\<in>set MAP_FIELD_KEYS_FROM_CONFIG. \<forall>q\<in>set (snd p). fst q \<noteq> ''type'' \<and> snd q \<noteq> ''type''"
    unfolding MAP_FIELD_KEYS_FROM_CONFIG_def by simp
  show ?thesis
  proof (cases "obj_get MAP_FIELD_KEYS_FROM_CONFIG t")
    case (Some ns)
    then have ns: "\<forall>q\<in>set ns. fst q \<noteq> ''type'' \<and> snd q \<noteq> ''type''" using names by (force simp: obj_get_def dest!: map_of_SomeD)
    show ?thesis
    proof (cases "obj_get ns k")
      case (Some k')
      then have "(k, k') \<in> set ns" by (simp add: obj_get_def map_of_SomeD)
      then show ?thesis using \<open>obj_get MAP_FIELD_KEYS_FROM_CONFIG t = Some ns\<close> Some ns by (auto simp: renamed_key_def)
    qed (use Some in \<open>simp add: renamed_key_def\<close>)
  qed (simp add: renamed_key_def)
qed

lemma parsed_type:
  assumes "h \<in> set (parseHandlersFromConfig sections)"
  shows "config_type (h_type h)"
proof -
  obtain a where a: "config_type (h_type a)"
    "h = obj_of_list [] (map (\<lambda>(k, v). (renamed_key (obj_get MAP_FIELD_KEYS_FROM_CONFIG (h_type (obj_pick a ([''type'', ''enabled''] @ the (obj_get ALERTS_FROM_CONFIG (h_type a)))))) k, v))
       (obj_entries (obj_pick a ([''type'', ''enabled''] @ the (obj_get ALERTS_FROM_CONFIG (h_type a))))))"
    using assms by (auto simp: parseHandlersFromConfig_def Let_def config_type_def)
  let ?p = "obj_pick a ([''type'', ''enabled''] @ the (obj_get ALERTS_FROM_CONFIG (h_type a)))"
  let ?ps = "map (\<lambda>(k, v). (renamed_key (obj_get MAP_FIELD_KEYS_FROM_CONFIG (h_type ?p)) k, v)) (obj_entries ?p)"
  have "h_type a \<noteq> ''undefined''" using config_type_plain[OF a(1)] by simp
  then have "obj_get a ''type'' = Some (HStr (h_type a))" by (auto simp: h_type_def h_str_def split: option.splits handler_value.splits)
  then have p: "obj_get ?p ''type'' = Some (HStr (h_type a))" by (simp add: obj_get_pick)
  have "(''type'', HStr (h_type a)) \<in> set (obj_entries ?p)"
    using p obj_get_in_keys[OF p] by (force simp: obj_entries_eq)
  then have "(''type'', HStr (h_type a)) \<in> set ?ps" using renamed_type[of "h_type ?p" "''type''"] by force
  moreover have "w = HStr (h_type a)" if w: "(''type'', w) \<in> set ?ps" for w
  proof -
    obtain k where k: "(k, w) \<in> set (obj_entries ?p)" "''type'' = renamed_key (obj_get MAP_FIELD_KEYS_FROM_CONFIG (h_type ?p)) k" using w by auto
    then have "k = ''type''" using renamed_type[of "h_type ?p" k] by metis
    then have "w = the (obj_get ?p ''type'')" using k(1) unfolding obj_entries_eq by auto
    then show ?thesis using p by simp
  qed
  ultimately have "obj_get h ''type'' = Some (HStr (h_type a))" unfolding a(2) by (rule obj_get_unique)
  then have "h_type h = h_type a" by (simp add: h_type_def h_str_def)
  then show ?thesis using a(1) by simp
qed

lemma item_ok:
  assumes item: "item \<in> set (handler_items (parseHandlersFromConfig sections))"
  shows "plain_type (h_type item) \<and> \<not> throws_on item"
proof -
  have default: "plain_type (h_type h) \<and> \<not> throws_on h" if "h \<in> set DEFAULT_HANDLERS" for h
    using that by (auto simp: DEFAULT_HANDLERS_def plain_type_def throws_on_def h_type_def h_str_def)
  have config: "plain_type (h_type h) \<and> \<not> throws_on h" if "h \<in> set (parseHandlersFromConfig sections)" for h
    using config_type_plain[OF parsed_type[OF that]] by (simp add: throws_on_def)
  have sep: "plain_type (h_type [(''type'', HStr []), (''enabled'', HBool True), (''text'', HStr ''SEPARATOR'')]) \<and>
      \<not> throws_on [(''type'', HStr []), (''enabled'', HBool True), (''text'', HStr ''SEPARATOR'')]"
    by (simp add: plain_type_def throws_on_def h_type_def h_str_def)
  have "item \<in> addNicknameText ` (set DEFAULT_HANDLERS \<union> set (parseHandlersFromConfig sections)) \<or>
      item = [(''type'', HStr []), (''enabled'', HBool True), (''text'', HStr ''SEPARATOR'')]"
    using item unfolding handler_items_def Let_def set_append set_filter set_map list.set by blast
  then show ?thesis using default config sep by (elim disjE imageE UnE) simp_all
qed

definition handlers_event_ok :: "handlers_page result \<Rightarrow> handlers_event \<Rightarrow> bool" where
  \<comment> \<open>no form of a handler has a field for its type, its name or whether it is enabled\<close>
  "handlers_event_ok r ev = (case ev of ModifyHandler fieldName _ \<Rightarrow> fieldName \<notin> {''type'', ''alias'', ''enabled''} | _ \<Rightarrow> True)"

lemma event_keeps:
  assumes ok: "page_handlers_ok (Inr pg)" and ev: "handlers_event_ok (Inr pg) ev"
  shows "page_handlers_ok (handlers_event (parseHandlersFromConfig sections) ev pg)"
proof -
  let ?items = "handler_items (parseHandlersFromConfig sections)"
  have st: "handlers_ok (hp_state pg)" using ok by (simp add: page_handlers_ok_def)
  show ?thesis
  proof (cases ev)
    case (ChooseHandler i)
    then show ?thesis using ok choose_ok[OF st, of "rh_handlersOnThisAlert (hp_state pg) ! i"]
      by (simp add: handlers_event_def page_handlers_ok_def Let_def) (simp add: handleChooseHandler_def)
  next
    case (AddHandler i)
    have "i < length ?items \<Longrightarrow> handlers_ok (handleAddHandler (?items ! i) (hp_state pg))"
      using item_ok[of "?items ! i" sections] by (intro add_ok[OF st]) simp_all
    then show ?thesis using ok AddHandler by (simp add: handlers_event_def update_page_ok Let_def)
  next
    case (RemoveHandler i)
    show ?thesis
    proof (cases "i < length (rh_handlersOnThisAlert (hp_state pg))")
      case True
      then obtain st' where "handleRemoveHandler (addNicknameText (rh_handlersOnThisAlert (hp_state pg) ! i)) (hp_state pg) = Inr st'" "handlers_ok st'"
        using remove_ok[OF st nth_mem[OF True]] by blast
      then show ?thesis using RemoveHandler True by (simp add: handlers_event_def update_page_ok Let_def)
    qed (use RemoveHandler ok in \<open>simp add: handlers_event_def Let_def\<close>)
  next
    case (ModifyHandler f inp)
    then show ?thesis using ok ev modify_ok[OF st, of _ f inp]
      by (cases "rh_selectedHandler (hp_state pg)") (simp_all add: handlers_event_def handlers_event_ok_def update_page_ok Let_def)
  qed
qed

lemma handlers_step_keeps:
  "page_handlers_ok r \<Longrightarrow> handlers_event_ok r ev \<Longrightarrow> page_handlers_ok (handlers_step (parseHandlersFromConfig sections) r ev)"
  using event_keeps by (auto simp: handlers_step_def page_handlers_ok_def)

interpretation handler_edits: invariant_steps "handlers_step (parseHandlersFromConfig sections)" page_handlers_ok handlers_event_ok for sections
  by unfold_locales (rule handlers_step_keeps)

definition commands_given :: "handler list js_obj \<Rightarrow> bool" where
  \<comment> \<open>the commands of a rule are there\<close>
  "commands_given nodes \<longleftrightarrow>
     (\<forall>(k, vs)\<in>set nodes. \<forall>v\<in>set vs. k = ''exec'' \<longrightarrow> obj_ok v \<and> obj_get v ''command'' \<noteq> None)"

lemma kind_aliases:
  "map h_alias (kind_handlers cfg (t, vs)) = map (\<lambda>i. Some (HStr (handler_alias t (Suc i)))) [0..<length vs]"
  by (rule nth_equalityI) (simp_all add: kind_handlers_def parse_handler_alias nth_enumerate_eq)

lemma rule_aliases:
  "distinct (map fst fr) \<Longrightarrow> \<forall>(t, vs)\<in>set fr. plain_type t \<Longrightarrow> distinct (map h_alias (concat (map (kind_handlers cfg) fr)))"
proof (induction fr)
  case (Cons p fr)
  obtain t vs where p: "p = (t, vs)" by (cases p)
  have t: "plain_type t" using Cons.prems p by simp
  have head: "distinct (map h_alias (kind_handlers cfg (t, vs)))"
    using t by (simp add: kind_aliases distinct_map inj_on_def handler_alias_inj)
  have apart: "a \<notin> set (map h_alias (kind_handlers cfg (t, vs)))" if a: "a \<in> set (map h_alias (concat (map (kind_handlers cfg) fr)))" for a
  proof -
    obtain u us where u: "(u, us) \<in> set fr" "a \<in> set (map h_alias (kind_handlers cfg (u, us)))"
      using a by auto
    then have "plain_type u" "u \<noteq> t" using Cons.prems p by (force, force)
    then show ?thesis using u(2) t unfolding kind_aliases by (auto simp: handler_alias_inj)
  qed
  then show ?case using head Cons p by (auto simp del: map_map)
qed simp

lemma command_there:
  assumes "t = ''exec'' \<Longrightarrow> obj_ok v \<and> obj_get v ''command'' \<noteq> None"
  shows "\<not> (h_enabled (parse_handler cfg t n v) \<and> t = ''exec'' \<and> obj_get (parse_handler cfg t n v) ''command'' = None)"
  using assms by (auto simp: parse_handler_def obj_get_set obj_get_assign)

lemma handlers_ok_opened:
  "\<forall>h\<in>set hs. numbered counts h \<Longrightarrow> distinct (map h_alias hs) \<Longrightarrow>
    handlers_ok \<lparr>rh_selectedHandler = (case hs of [] \<Rightarrow> None | h # _ \<Rightarrow> Some h), rh_handlersOnThisAlert = hs, rh_handlersOfKind = counts\<rparr>"
  by (cases hs) (simp_all add: handlers_ok_def)

lemma open_ok:
  assumes nodes: "obj_ok nodes" "commands_given nodes"
  shows "handlers_ok (parseHandlersFromRule nodes cfg)"
proof -
  let ?fr = "filter (\<lambda>(k, v). obj_get HANDLERS_TO_RULE_THEM_ALL k \<noteq> None) (obj_entries nodes)"
  let ?hs = "concat (map (kind_handlers cfg) ?fr)"
  let ?counts = "map (\<lambda>(k, v). (k, length v)) (filter (\<lambda>(k, v). v \<noteq> []) ?fr)"
  have types: "plain_type t" if "(t, vs) \<in> set ?fr" for t vs using that rule_type_plain_type[of t] by (auto simp: rule_type_def)
  have keys: "distinct (map fst ?fr)"
    by (rule distinct_map_filter) (simp add: keys_obj_entries distinct_obj_keys nodes)
  have counted: "kind_count ?counts t = length vs" if "(t, vs) \<in> set ?fr" "vs \<noteq> []" for t vs
  proof -
    have "map fst ?counts = map fst (filter (\<lambda>(k, v). v \<noteq> []) ?fr)" by (simp add: case_prod_unfold)
    then have "distinct (map fst ?counts)" by (simp only: distinct_map_filter[OF keys])
    moreover have "(t, length vs) \<in> set ?counts" using that by force
    ultimately show ?thesis by (simp add: kind_count_def obj_get_def)
  qed
  have "numbered ?counts h" if h: "h \<in> set ?hs" for h
  proof -
    obtain t vs i v where m: "(t, vs) \<in> set ?fr" "i < length vs" "h = parse_handler cfg t (Suc i) v" and v: "v \<in> set vs"
      using kinds_mem[OF h] by blast
    then have i: "i < length vs" "v \<in> set vs" "vs \<noteq> []" by auto
    have "(t, vs) \<in> set nodes"
    proof -
      have "obj_get nodes t = Some vs" using m(1) obj_get_present[of t nodes] by (auto simp: obj_entries_eq)
      then show ?thesis by (simp add: obj_get_def map_of_SomeD)
    qed
    then have "t = ''exec'' \<Longrightarrow> obj_ok v \<and> obj_get v ''command'' \<noteq> None" using nodes(2) i(2) by (auto simp: commands_given_def)
    then have "\<not> throws_on h" unfolding m(3) throws_on_def parse_handler_type by (rule command_there)
    moreover have "Suc i \<le> kind_count ?counts t" using counted[OF m(1) i(3)] i(1) by simp
    ultimately show ?thesis unfolding numbered_def m(3) parse_handler_type parse_handler_alias using types[OF m(1)] by blast
  qed
  then have nums: "\<forall>h\<in>set ?hs. numbered ?counts h" by blast
  have aliases: "distinct (map h_alias ?hs)" by (rule rule_aliases[OF keys]) (use types in blast)
  show ?thesis unfolding parseHandlersFromRule_def Let_def by (rule handlers_ok_opened[OF nums aliases])
qed

text \<open>
  C37: The handlers of a rule. However the handlers of a rule are chosen, added, removed and changed, nothing is thrown, no two of them have the same
  name, the one selected is among those of the rule unless there are none, and the alert nodes put into the rule are those of the handlers shown.
\<close>
theorem handlers_edited:
  assumes nodes: "obj_ok nodes" "commands_given nodes"
    and evs: "run_ok handlers_event_ok (handlers_step (parseHandlersFromConfig sections)) (Inr (handlers_open (parseHandlersFromConfig sections) nodes)) evs"
  shows "\<exists>pg. run_store (handlers_step (parseHandlersFromConfig sections)) (Inr (handlers_open (parseHandlersFromConfig sections) nodes)) evs = Inr pg \<and>
    distinct (map h_alias (rh_handlersOnThisAlert (hp_state pg))) \<and>
    (case rh_selectedHandler (hp_state pg) of
       None \<Rightarrow> rh_handlersOnThisAlert (hp_state pg) = []
     | Some h \<Rightarrow> h_alias h \<in> set (map h_alias (rh_handlersOnThisAlert (hp_state pg)))) \<and>
    (\<forall>saved. hp_saved pg = Some saved \<longrightarrow> alert_nodes (rh_handlersOnThisAlert (hp_state pg)) = Inr saved)"
proof -
  have "page_handlers_ok (Inr (handlers_open (parseHandlersFromConfig sections) nodes))"
    using open_ok[OF nodes] by (simp add: page_handlers_ok_def handlers_open_def)
  from handler_edits.run_inv[OF this evs] show ?thesis
    by (auto simp: page_handlers_ok_def handlers_ok_def split: option.splits)
qed

theorem handlers_edited_witness:
  "let sections = [(''slack'', [[(''enabled'', HBool True), (''url'', HStr ''http://s'')]])];
       cfg = parseHandlersFromConfig sections;
       nodes = [(''tcp'', [[(''address'', HStr ''a:1'')], [(''address'', HStr ''a:2'')]])];
       r = run_store (handlers_step cfg) (Inr (handlers_open cfg nodes))
         [RemoveHandler 0, AddHandler 1, ModifyHandler ''address'' (Plain ''a:3''), ChooseHandler 0]
   in \<exists>pg. r = Inr pg \<and> distinct (map h_alias (rh_handlersOnThisAlert (hp_state pg))) \<and>
        (case rh_selectedHandler (hp_state pg) of
           None \<Rightarrow> rh_handlersOnThisAlert (hp_state pg) = []
         | Some h \<Rightarrow> h_alias h \<in> set (map h_alias (rh_handlersOnThisAlert (hp_state pg)))) \<and>
        (\<forall>saved. hp_saved pg = Some saved \<longrightarrow> alert_nodes (rh_handlersOnThisAlert (hp_state pg)) = Inr saved)"
  unfolding Let_def by (rule handlers_edited) (code_simp, code_simp, simp add: handlers_event_ok_def)

theorem handlers_edited_names:
  \<comment> \<open>a number is not given again: of two handlers the first is removed, and the next one is the third\<close>
  "map_res (\<lambda>pg. map h_alias (rh_handlersOnThisAlert (hp_state pg)))
     (run_store (handlers_step []) (Inr (handlers_open [] [(''tcp'', [[(''address'', HStr ''a:1'')], [(''address'', HStr ''a:2'')]])]))
        [RemoveHandler 0, AddHandler 1, ModifyHandler ''address'' (Plain ''a:3''), ChooseHandler 0]) =
   Inr [Some (HStr ''tcp-2''), Some (HStr ''tcp-3'')]"
  by code_simp

end
