(* ===== verification/Tickscript.thy ===== *)
theory Tickscript
  imports Alert_Rules "HOL-Library.Multiset"
begin

text \<open>
  The editor of TICKscripts (\<open>ui/src/kapacitor/containers/TickscriptPage.tsx\<close>): the task that is edited, saving it, and the stream of logs of
  Kapacitor, which arrives in chunks that need not end where a record does. \<open>JSON.parse\<close> is a parameter.
\<close>

section \<open>The task\<close>

record task =
  tk_id :: string
  tk_name :: string
  tk_status :: string
  tk_tickscript :: string
  tk_dbrps :: "(string \<times> string) list"
  tk_type :: string

record 'log tick_page =
  tp_kapacitor :: "string option" \<comment> \<open>the kapacitor's id, when one has been set\<close>
  tp_task :: task
  tp_consoleMessage :: string
  tp_isEditingID :: bool
  tp_logs :: "'log list"
  tp_areLogsVisible :: bool
  tp_areLogsEnabled :: bool
  tp_failStr :: string
  tp_unsavedChanges :: bool

definition tick_start :: "'log tick_page" where
  "tick_start =
     \<lparr>tp_kapacitor = Some [],
      tp_task = \<lparr>tk_id = [], tk_name = [], tk_status = ''enabled'', tk_tickscript = [], tk_dbrps = [], tk_type = ''stream''\<rparr>,
      tp_consoleMessage = [], tp_isEditingID = True, tp_logs = [], tp_areLogsVisible = False, tp_areLogsEnabled = False, tp_failStr = [],
      tp_unsavedChanges = False\<rparr>"

definition isEditing :: "string \<Rightarrow> bool" where
  "isEditing ruleID \<longleftrightarrow> ruleID \<noteq> [] \<and> ruleID \<noteq> ''new''"

definition edit_task :: "(task \<Rightarrow> task) \<Rightarrow> 'log tick_page \<Rightarrow> 'log tick_page" where
  "edit_task f st = st\<lparr>tp_task := f (tp_task st), tp_unsavedChanges := True\<rparr>"

definition handleChangeScript :: "string \<Rightarrow> 'log tick_page \<Rightarrow> 'log tick_page" where
  "handleChangeScript s = edit_task (\<lambda>t. t\<lparr>tk_tickscript := s\<rparr>)"

definition handleSelectDbrps :: "(string \<times> string) list \<Rightarrow> 'log tick_page \<Rightarrow> 'log tick_page" where
  "handleSelectDbrps dbrps = edit_task (\<lambda>t. t\<lparr>tk_dbrps := dbrps\<rparr>)"

definition handleChangeType :: "string \<Rightarrow> 'log tick_page \<Rightarrow> 'log tick_page" where
  "handleChangeType ty = edit_task (\<lambda>t. t\<lparr>tk_type := ty\<rparr>)"

definition handleChangeID :: "string \<Rightarrow> 'log tick_page \<Rightarrow> 'log tick_page" where
  "handleChangeID i = edit_task (\<lambda>t. t\<lparr>tk_id := i\<rparr>)"

definition handleToggleLogsVisibility :: "'log tick_page \<Rightarrow> 'log tick_page" where
  "handleToggleLogsVisibility st = st\<lparr>tp_areLogsVisible := \<not> tp_areLogsVisible st\<rparr>"

record task_response =
  tr_id :: "string option"
  tr_code :: "nat option"
  tr_message :: "string option"

datatype task_answer =
    Accepted "task_response option" \<comment> \<open>with the data of the answer\<close>
  | Refused "task_response option" \<comment> \<open>with the data of the error\<close>
  | Failed_Empty \<comment> \<open>an error without a value\<close>

definition createTask :: "task_answer \<Rightarrow> rule_dispatch list \<times> task_response option" where
  \<comment> \<open>of \<open>ui/src/kapacitor/actions/view/index.js\<close>: what is dispatched and what the caller gets\<close>
  "createTask ans =
     (case ans of Accepted data \<Rightarrow> ([NotifyRule ''tickscriptCreated''], data) | Refused data \<Rightarrow> ([], data) | Failed_Empty \<Rightarrow> ([RuleError], None))"

definition updateTask :: "task_answer \<Rightarrow> rule_dispatch list \<times> task_response option" where
  "updateTask ans =
     (case ans of Accepted data \<Rightarrow> ([NotifyRule ''tickscriptUpdated''], data) | Refused data \<Rightarrow> ([], data) | Failed_Empty \<Rightarrow> ([RuleError], None))"

definition persist :: "string \<Rightarrow> task_answer \<Rightarrow> rule_dispatch list \<times> task_response option" where
  "persist ruleID ans = (if isEditing ruleID then updateTask ans else createTask ans)"

definition handleSave_task :: "string \<Rightarrow> task_response option \<Rightarrow> 'log tick_page \<Rightarrow> ('log tick_page \<times> string option) result" where
  \<comment> \<open>what follows the answer: the page, and the path the browser goes to\<close>
  "handleSave_task sourceID response st =
     map_res (\<lambda>r.
       let code = (case tr_code r of None \<Rightarrow> 0 | Some c \<Rightarrow> c);
           wrong = st\<lparr>tp_unsavedChanges := True, tp_consoleMessage := opt_str (tr_message r)\<rparr>
       in if code = 422 then (wrong, None)
          else (if code \<noteq> 0 then wrong else st\<lparr>tp_unsavedChanges := False, tp_consoleMessage := []\<rparr>,
            Some (''/sources/'' @ sourceID @ ''/tickscript/'' @ opt_str (tr_id r)))) (deref response)"

definition open_task :: "string \<Rightarrow> task list \<Rightarrow> 'log tick_page \<Rightarrow> 'log tick_page result" where
  \<comment> \<open>of \<open>componentDidMount\<close>, when the rules have been fetched\<close>
  "open_task ruleID rules st =
     (if isEditing ruleID
      then map_res (\<lambda>t. st\<lparr>tp_task := t\<rparr>) (deref (List.find (\<lambda>r. tk_id r = ruleID) rules))
      else Inr st)"

text \<open>An error other than 422 sends the browser to a script that is not there, and an error without data throws.\<close>

lemma failed_save_leaves:
  "map_res snd (handleSave_task ''1'' (Some \<lparr>tr_id = None, tr_code = Some 500, tr_message = Some ''no''\<rparr>) tick_start) =
     Inr (Some ''/sources/1/tickscript/undefined'')"
  "handleSave_task ''1'' (snd (persist ''new'' Failed_Empty)) tick_start = Inl TypeError"
  by (simp_all add: handleSave_task_def persist_def createTask_def isEditing_def opt_str_def Let_def)

section \<open>The logs\<close>

definition new_line :: char where "new_line = CHR 0x0A"

definition json_list :: "string \<Rightarrow> string" where
  \<comment> \<open>\<open>[${objStr.split('}{').join('},{')}]\<close>\<close>
  "json_list s = ''['' @ js_join ''},{'' (js_split s ''}{'') @ '']''"

fun log_lines :: "(string \<Rightarrow> 'log list option) \<Rightarrow> 'log list \<Rightarrow> string \<Rightarrow> string list \<Rightarrow> 'log list \<times> string" where
  \<comment> \<open>the loop over the lines of a chunk, up to the first that is no JSON\<close>
  "log_lines parse logs failStr [] = (logs, failStr)"
| "log_lines parse logs failStr (l # ls) =
     (case parse (json_list (failStr @ l)) of
        None \<Rightarrow> (logs, failStr @ l)
      | Some new \<Rightarrow> log_lines parse (logs @ new) [] ls)"

definition read_chunk :: "(string \<Rightarrow> 'log list option) \<Rightarrow> string \<Rightarrow> 'log tick_page \<Rightarrow> 'log tick_page" where
  "read_chunk parse chunk st =
     (let (logs, failStr) = log_lines parse [] (tp_failStr st) (js_split chunk [new_line])
      in st\<lparr>tp_logs := logs @ tp_logs st, tp_failStr := failStr\<rparr>)"

fun read_stream :: "(string \<Rightarrow> 'log list option) \<Rightarrow> 'log tick_page \<Rightarrow> (string \<times> bool) list \<Rightarrow> 'log tick_page" where
  \<comment> \<open>the reads of a stream: a chunk, and whether it was the last\<close>
  "read_stream parse st [] = st"
| "read_stream parse st ((chunk, ended) # reads) =
     (if tp_areLogsEnabled st
      then (let st' = read_chunk parse chunk st in if ended then st' else read_stream parse st' reads)
      else st)"

definition minor_version :: "string \<Rightarrow> nat option" where
  \<comment> \<open>\<open>parseInt(version.split('.')[1], 10)\<close>\<close>
  "minor_version version =
     (case js_split version ''.'' of
        _ # m # _ \<Rightarrow> (let ds = takeWhile is_digit (dropWhile is_space m) in if ds = [] then None else Some (str_nat ds))
      | _ \<Rightarrow> None)"

definition fetchChunkedLogs :: "'log \<Rightarrow> string option \<Rightarrow> 'log tick_page \<Rightarrow> 'log tick_page" where
  \<comment> \<open>up to the stream, for the version of the Kapacitor\<close>
  "fetchChunkedLogs session version st =
     (if truthy version \<and> (case minor_version (the version) of None \<Rightarrow> False | Some n \<Rightarrow> n < 4)
      then st\<lparr>tp_areLogsEnabled := False\<rparr>
      else if tp_logs st = [] then st\<lparr>tp_areLogsEnabled := True, tp_logs := [session]\<rparr> else st)"

section \<open>Every record is shown once\<close>

definition lines_text :: "string list \<Rightarrow> string" where
  "lines_text ls = concat (map (\<lambda>l. l @ [new_line]) ls)"

definition log_of :: "(string \<Rightarrow> 'log list option) \<Rightarrow> string \<Rightarrow> 'log list" where
  "log_of parse l = (case parse (json_list l) of None \<Rightarrow> [] | Some xs \<Rightarrow> xs)"

definition json_line :: "(string \<Rightarrow> 'log list option) \<Rightarrow> string \<Rightarrow> bool" where
  \<comment> \<open>a line that is JSON, but whose beginnings are not\<close>
  "json_line parse l \<longleftrightarrow> new_line \<notin> set l \<and> parse (json_list l) \<noteq> None \<and>
     (\<forall>q\<in>set (prefixes l). q \<noteq> [] \<longrightarrow> q \<noteq> l \<longrightarrow> parse (json_list q) = None)"

lemma first_line:
  assumes "new_line \<notin> set a" and "new_line \<notin> set l" and "a @ new_line # b = l @ new_line # c"
  shows "a = l \<and> b = c"
  using assms
proof (induction a arbitrary: l)
  case Nil
  then show ?case by (cases l) auto
next
  case (Cons x a)
  then show ?case by (cases l) auto
qed

lemma line_prefix:
  assumes "new_line \<notin> set a" and "a @ b = l @ new_line # c"
  shows "\<exists>d. l = a @ d \<and> b = d @ new_line # c"
  using assms
proof (induction a arbitrary: l)
  case (Cons x a)
  then show ?case by (cases l) auto
qed simp

definition waiting :: "string \<Rightarrow> string list \<Rightarrow> bool" where
  \<comment> \<open>what is left of a chunk is a beginning of the next line\<close>
  "waiting failStr ls \<longleftrightarrow> failStr = [] \<or> (\<exists>l ls'. ls = l # ls' \<and> failStr \<in> set (prefixes l) \<and> failStr \<noteq> l)"

lemma lines_text_simps [simp]: "lines_text [] = []" "lines_text (l # ls) = l @ new_line # lines_text ls"
  by (simp_all add: lines_text_def)

lemma waiting_line:
  \<comment> \<open>the text up to the first line break is the next line, or a beginning of it\<close>
  assumes "waiting f ls" and "f @ a @ b = lines_text ls" and "new_line \<notin> set a" and "\<forall>l\<in>set ls. new_line \<notin> set l"
  shows "new_line \<notin> set (f @ a)"
proof -
  have "new_line \<notin> set f"
  proof (cases "f = []")
    case False
    then obtain l ls' where l: "ls = l # ls'" "prefix f l" using assms(1) by (auto simp: waiting_def)
    then show ?thesis using assms(4) set_mono_prefix[OF l(2)] by auto
  qed simp
  then show ?thesis using assms(3) by simp
qed

lemma chunk_lines:
  assumes parse: "parse ''[]'' = Some []"
  shows "\<forall>l\<in>set ls. json_line parse l \<Longrightarrow> waiting f ls \<Longrightarrow> f @ c @ rest = lines_text ls \<Longrightarrow>
    \<exists>logs f' ls'. log_lines parse acc f (js_split c [new_line]) = (acc @ logs, f') \<and> (\<forall>l\<in>set ls'. json_line parse l) \<and> waiting f' ls' \<and>
      f' @ rest = lines_text ls' \<and> logs @ concat (map (log_of parse) ls') = concat (map (log_of parse) ls)"
proof (induction "length c" arbitrary: c f ls acc rule: less_induct)
  case less
  have plain: "\<forall>l\<in>set ls. new_line \<notin> set l" using less.prems(1) by (auto simp: json_line_def)
  have empty: "parse (json_list []) = Some []" using parse by (simp add: json_list_def js_split_def split_ne.simps)
  show ?case
  proof (cases "new_line \<in> set c")
    case False
    note fc = waiting_line[OF less.prems(2,3) False plain]
    have split: "js_split c [new_line] = [c]" by (rule js_split_char_absent[OF False])
    show ?thesis
    proof (cases "f @ c = []")
      case True
      then show ?thesis using less.prems(1,3) empty split by (intro exI[of _ "[]"] exI[of _ ls]) (simp add: waiting_def)
    next
      case nonempty: False
      then obtain l ls2 where ls: "ls = l # ls2" using less.prems(3) by (cases ls) auto
      obtain d where d: "l = (f @ c) @ d" "rest = d @ new_line # lines_text ls2"
        using line_prefix[OF fc, of rest l "lines_text ls2"] less.prems(3) ls by auto
      have l: "json_line parse l" using less.prems(1) ls by simp
      show ?thesis
      proof (cases "d = []")
        case True
        then obtain xs where xs: "parse (json_list (f @ c)) = Some xs" using l d by (auto simp: json_line_def)
        have "json_line parse []" using empty by (simp add: json_line_def)
        then show ?thesis using xs split d True ls less.prems(1)
          by (intro exI[of _ xs] exI[of _ "[]"] exI[of _ "[] # ls2"]) (simp add: waiting_def log_of_def empty)
      next
        case False
        then have "parse (json_list (f @ c)) = None" using l d nonempty by (simp add: json_line_def)
        moreover have "waiting (f @ c) ls" using d False ls by (simp add: waiting_def)
        ultimately show ?thesis using split less.prems(1,3)
          by (intro exI[of _ "[]"] exI[of _ "f @ c"] exI[of _ ls]) simp
      qed
    qed
  next
    case True
    then obtain a b where ab: "c = a @ new_line # b" "new_line \<notin> set a" by (meson split_list_first)
    have fa: "new_line \<notin> set (f @ a)" using waiting_line[OF less.prems(2) _ ab(2) plain, of "new_line # b @ rest"] less.prems(3) ab(1) by simp
    then obtain l ls2 where ls: "ls = l # ls2" using less.prems(3) ab(1) by (cases ls) auto
    have l: "json_line parse l" "new_line \<notin> set l" using less.prems(1) ls plain by simp_all
    have eq: "f @ a = l" "b @ rest = lines_text ls2"
      using first_line[OF fa l(2), of "b @ rest" "lines_text ls2"] less.prems(3) ls ab(1) by simp_all
    obtain xs where xs: "parse (json_list (f @ a)) = Some xs" "log_of parse l = xs" using l(1) eq(1) by (auto simp: json_line_def log_of_def)
    have "length b < length c" "\<forall>l\<in>set ls2. json_line parse l" "waiting [] ls2" "[] @ b @ rest = lines_text ls2"
      using ab(1) less.prems(1) ls eq(2) by (simp_all add: waiting_def)
    from less.hyps[OF this, of "acc @ xs"] obtain logs f' ls' where
      IH: "log_lines parse (acc @ xs) [] (js_split b [new_line]) = ((acc @ xs) @ logs, f')" "\<forall>l\<in>set ls'. json_line parse l" "waiting f' ls'"
        "f' @ rest = lines_text ls'" "logs @ concat (map (log_of parse) ls') = concat (map (log_of parse) ls2)"
      by blast
    have "log_lines parse acc f (js_split c [new_line]) = (acc @ (xs @ logs), f')"
      using IH(1) xs(1) ab by (simp add: js_split_char_append)
    then show ?thesis using IH(2-5) xs(2) ls by (intro exI[of _ "xs @ logs"] exI[of _ f'] exI[of _ ls']) simp
  qed
qed

definition stream_ok :: "(string \<Rightarrow> 'log list option) \<Rightarrow> 'log multiset \<Rightarrow> string \<Rightarrow> 'log tick_page \<Rightarrow> bool" where
  \<comment> \<open>the rest of the stream ends the line under way, and with what is shown it has all the records\<close>
  "stream_ok parse recs rest st \<longleftrightarrow>
     (\<exists>ls. (\<forall>l\<in>set ls. json_line parse l) \<and> waiting (tp_failStr st) ls \<and> tp_failStr st @ rest = lines_text ls \<and>
        mset (tp_logs st) + mset (concat (map (log_of parse) ls)) = recs)"

lemma chunk_ok:
  assumes parse: "parse ''[]'' = Some []" and ok: "stream_ok parse recs (c @ rest) st"
  shows "stream_ok parse recs rest (read_chunk parse c st)"
proof -
  obtain ls where ls: "\<forall>l\<in>set ls. json_line parse l" "waiting (tp_failStr st) ls" "tp_failStr st @ c @ rest = lines_text ls"
    "mset (tp_logs st) + mset (concat (map (log_of parse) ls)) = recs"
    using ok by (auto simp: stream_ok_def)
  from chunk_lines[OF parse ls(1-3), of "[]"] obtain logs f' ls' where
    "log_lines parse [] (tp_failStr st) (js_split c [new_line]) = (logs, f')" "\<forall>l\<in>set ls'. json_line parse l" "waiting f' ls'"
      "f' @ rest = lines_text ls'" and all: "logs @ concat (map (log_of parse) ls') = concat (map (log_of parse) ls)"
    by auto
  moreover have "mset logs + mset (concat (map (log_of parse) ls')) = mset (concat (map (log_of parse) ls))"
    using arg_cong[OF all, of mset] by simp
  ultimately show ?thesis using ls(4) unfolding stream_ok_def read_chunk_def
    by (intro exI[of _ ls']) (auto simp: ac_simps)
qed

lemma stream_read:
  assumes parse: "parse ''[]'' = Some []"
  shows "stream_ok parse recs (concat cs) st \<Longrightarrow> tp_areLogsEnabled st \<Longrightarrow>
    stream_ok parse recs [] (read_stream parse st (map (\<lambda>c. (c, False)) cs @ [([], True)]))"
proof (induction cs arbitrary: st)
  case Nil
  then show ?case using chunk_ok[of parse recs "[]" "[]" st] parse by simp
next
  case (Cons c cs)
  have "tp_areLogsEnabled (read_chunk parse c st) = tp_areLogsEnabled st" by (simp add: read_chunk_def split: prod.split)
  then show ?case using Cons chunk_ok[of parse recs c "concat cs" st] parse by simp
qed

lemma stream_done: "stream_ok parse recs [] st \<Longrightarrow> mset (tp_logs st) = recs \<and> tp_failStr st = []"
proof -
  assume "stream_ok parse recs [] st"
  then obtain ls where ls: "\<forall>l\<in>set ls. json_line parse l" "waiting (tp_failStr st) ls" "tp_failStr st = lines_text ls"
    "mset (tp_logs st) + mset (concat (map (log_of parse) ls)) = recs"
    by (auto simp: stream_ok_def)
  have "ls = []"
  proof (cases ls)
    case (Cons l ls2)
    then have "new_line \<in> set (tp_failStr st)" using ls(3) by simp
    moreover have "new_line \<notin> set l" using ls(1) Cons by (simp add: json_line_def)
    moreover have "set (tp_failStr st) \<subseteq> set l" using ls(2) Cons calculation(1) set_mono_prefix[of "tp_failStr st" l] by (auto simp: waiting_def)
    ultimately show ?thesis by auto
  qed
  then show ?thesis using ls(3,4) by simp
qed

text \<open>
  C39: The log of a script. However the stream of records, one on a line, is cut into chunks, after its end every record has been shown exactly once and
  nothing is left over, when the records are JSON and their beginnings are not.
\<close>
theorem logs_shown_once:
  assumes "parse ''[]'' = Some []" and "\<forall>l\<in>set ls. json_line parse l" and "concat chunks = lines_text ls"
    and "tp_areLogsEnabled st" and "tp_failStr st = []"
  shows "let st' = read_stream parse st (map (\<lambda>c. (c, False)) chunks @ [([], True)])
    in mset (tp_logs st') = mset (tp_logs st) + mset (concat (map (log_of parse) ls)) \<and> tp_failStr st' = []"
proof -
  have "stream_ok parse (mset (tp_logs st) + mset (concat (map (log_of parse) ls))) (concat chunks) st"
    using assms unfolding stream_ok_def by (intro exI[of _ ls]) (simp add: waiting_def)
  from stream_done[OF stream_read[OF assms(1) this assms(4)]] show ?thesis by (simp add: Let_def)
qed

definition sample_json :: "string \<Rightarrow> string list option" where
  \<comment> \<open>a list of at most one record, a text between braces\<close>
  "sample_json s =
     (if s = ''[]'' then Some []
      else if 3 < length s \<and> s ! 1 = CHR ''{'' \<and> last (butlast s) = CHR ''}'' then Some [butlast (tl s)] else None)"

theorem logs_shown_once_witness:
  "let st' = read_stream sample_json (tick_start\<lparr>tp_areLogsEnabled := True\<rparr>)
       (map (\<lambda>c. (c, False)) [''{a'', ''}'' @ [new_line] @ ''{b}'', [new_line]] @ [([], True)])
   in tp_logs st' = [''{a}'', ''{b}''] \<and> mset (tp_logs st') = {#''{a}'', ''{b}''#} \<and> tp_failStr st' = []"
proof -
  have 1: "sample_json ''[]'' = Some []" by code_simp
  have 2: "\<forall>l\<in>set [''{a}'', ''{b}'']. json_line sample_json l" by code_simp
  have 3: "concat [''{a'', ''}'' @ [new_line] @ ''{b}'', [new_line]] = lines_text [''{a}'', ''{b}'']" by code_simp
  have 4: "tp_logs (read_stream sample_json (tick_start\<lparr>tp_areLogsEnabled := True\<rparr>)
       (map (\<lambda>c. (c, False)) [''{a'', ''}'' @ [new_line] @ ''{b}'', [new_line]] @ [([], True)])) = [''{a}'', ''{b}'']"
    by code_simp
  show ?thesis
    using logs_shown_once[OF 1 2 3, of "tick_start\<lparr>tp_areLogsEnabled := True\<rparr>"] 4
    by (simp add: Let_def tick_start_def)
qed

end
