(* ===== verification/Kapacitor_Config.thy ===== *)
theory Kapacitor_Config
  imports Alert_Rules
begin

text \<open>
  The page of a Kapacitor (\<open>ui/src/kapacitor/containers/KapacitorPage.tsx\<close>) and the tabs that configure where alerts can be sent
  (\<open>ui/src/kapacitor/components/AlertTabs.tsx\<close>), with the forms of \<open>components/config\<close> and the calls of \<open>ui/src/shared/apis/index.ts\<close> they make.
  The options of a configuration depend on its section, so they are dictionaries, as are the handlers of a rule.
\<close>

section \<open>The connection\<close>

record kapacitor_conn =
  ka_id :: string
  ka_name :: string
  ka_url :: string
  ka_username :: string
  ka_password :: string
  ka_active :: bool
  ka_insecureSkipVerify :: bool
  ka_self :: string \<comment> \<open>its link\<close>

record kapacitor_page =
  kp_kapacitor :: kapacitor_conn
  kp_exists :: bool

definition getActiveKapacitor :: "kapacitor_conn list \<Rightarrow> kapacitor_conn option" where
  "getActiveKapacitor ks = (case List.find ka_active ks of Some k \<Rightarrow> Some k | None \<Rightarrow> at_index ks (Some 0))"

definition defaultKapacitor :: "string \<Rightarrow> kapacitor_conn" where
  \<comment> \<open>with the protocol and the host of the source and the port of Kapacitor\<close>
  "defaultKapacitor url =
     \<lparr>ka_id = ''undefined'', ka_name = ''My Kapacitor'', ka_url = url, ka_username = [], ka_password = [], ka_active = False,
      ka_insecureSkipVerify = False, ka_self = []\<rparr>"

definition kapacitor_start :: "string \<Rightarrow> kapacitor_page" where
  "kapacitor_start url = \<lparr>kp_kapacitor = defaultKapacitor url, kp_exists = False\<rparr>"

definition handleCheckboxChange :: "bool \<Rightarrow> kapacitor_page \<Rightarrow> kapacitor_page" where
  "handleCheckboxChange checked st = st\<lparr>kp_kapacitor := (kp_kapacitor st)\<lparr>ka_insecureSkipVerify := checked\<rparr>\<rparr>"

datatype kapacitor_field = NameField | UsernameField | PasswordField

definition handleInputChange_kapacitor :: "kapacitor_field \<Rightarrow> string \<Rightarrow> kapacitor_page \<Rightarrow> kapacitor_page" where
  "handleInputChange_kapacitor f val st =
     st\<lparr>kp_kapacitor := (case f of
          NameField \<Rightarrow> (kp_kapacitor st)\<lparr>ka_name := val\<rparr>
        | UsernameField \<Rightarrow> (kp_kapacitor st)\<lparr>ka_username := val\<rparr>
        | PasswordField \<Rightarrow> (kp_kapacitor st)\<lparr>ka_password := val\<rparr>)\<rparr>"

definition handleChangeUrl :: "string \<Rightarrow> kapacitor_page \<Rightarrow> kapacitor_page" where
  "handleChangeUrl val st = st\<lparr>kp_kapacitor := (kp_kapacitor st)\<lparr>ka_url := val\<rparr>\<rparr>"

definition handleResetToDefaults :: "string \<Rightarrow> kapacitor_page \<Rightarrow> kapacitor_page" where
  "handleResetToDefaults url st = st\<lparr>kp_kapacitor := defaultKapacitor url\<rparr>"

datatype kapacitor_request =
    PostKapacitor kapacitor_conn \<comment> \<open>to the kapacitors of the source\<close>
  | PatchKapacitor string kapacitor_conn \<comment> \<open>to a link\<close>

datatype page_note = Note string | Go string

definition handleSubmit_kapacitor :: "kapacitor_conn list \<Rightarrow> string option \<Rightarrow> kapacitor_page \<Rightarrow> kapacitor_page \<times> page_note list \<times> kapacitor_request option" where
  \<comment> \<open>up to the call, for the kapacitors of the source and the id in the address; the name is trimmed where it is\<close>
  "handleSubmit_kapacitor kapacitors i st =
     (let k = (kp_kapacitor st)\<lparr>ka_name := js_trim (ka_name (kp_kapacitor st))\<rparr>;
          st' = st\<lparr>kp_kapacitor := k\<rparr>;
          isNameTaken = list_ex (\<lambda>x. ka_name x = ka_name k) kapacitors
      in if \<not> truthy i \<and> isNameTaken then (st', [Note ''kapacitorNameAlreadyTaken''], None)
         else if truthy i then (st', [], Some (PatchKapacitor (ka_self k) k))
         else (st', [], Some (PostKapacitor k)))"

definition submitted :: "string \<Rightarrow> kapacitor_request \<Rightarrow> kapacitor_conn answer \<Rightarrow> kapacitor_page \<Rightarrow> kapacitor_page \<times> page_note list" where
  \<comment> \<open>for the answer; the connection is checked at the same time\<close>
  "submitted sourceID r ans st =
     (case (r, ans) of
        (PatchKapacitor _ _, Inr data) \<Rightarrow> (st\<lparr>kp_kapacitor := data\<rparr>, [Note ''kapacitorUpdated''])
      | (PatchKapacitor _ _, Inl _) \<Rightarrow> (st, [Note ''kapacitorUpdateFailed''])
      | (PostKapacitor _, Inr data) \<Rightarrow>
          (st\<lparr>kp_kapacitor := data\<rparr>, [Go (''/sources/'' @ sourceID @ ''/kapacitors/'' @ ka_id data @ ''/edit''), Note ''kapacitorCreated''])
      | (PostKapacitor _, Inl _) \<Rightarrow> (st, [Note ''kapacitorCreateFailed'']))"

definition checkKapacitorConnection :: "unit answer \<Rightarrow> kapacitor_page \<Rightarrow> kapacitor_page \<times> page_note list" where
  "checkKapacitorConnection ping st =
     (case ping of Inr _ \<Rightarrow> (st\<lparr>kp_exists := True\<rparr>, []) | Inl _ \<Rightarrow> (st\<lparr>kp_exists := False\<rparr>, [Note ''kapacitorConnectionFailed'']))"

text \<open>After a reset the link is empty too, and an update of the Kapacitor that is edited goes to no address.\<close>

lemma reset_loses_link:
  "snd (snd (handleSubmit_kapacitor ks (Some (c # i)) (handleResetToDefaults url st))) = Some (PatchKapacitor [] (defaultKapacitor url))"
  by (simp add: handleSubmit_kapacitor_def handleResetToDefaults_def defaultKapacitor_def js_trim_def is_space_def truthy_def Let_def)

section \<open>The configuration\<close>

record conf_element =
  ce_options :: handler
  ce_redacted :: "string list option"

type_synonym conf_sections = "conf_element list option js_obj" \<comment> \<open>the elements of each section\<close>

definition getSectionElements :: "conf_sections \<Rightarrow> string \<Rightarrow> conf_element list option" where
  "getSectionElements sections section = (case obj_get sections section of None \<Rightarrow> None | Some es \<Rightarrow> es)"

definition getSectionElement :: "conf_sections \<Rightarrow> string \<Rightarrow> conf_element option" where
  "getSectionElement sections section = (case getSectionElements sections section of Some (e # _) \<Rightarrow> Some e | _ \<Rightarrow> None)"

definition getProperty :: "conf_sections \<Rightarrow> string \<Rightarrow> string \<Rightarrow> handler_value option" where
  "getProperty sections section property = (case getSectionElement sections section of None \<Rightarrow> None | Some e \<Rightarrow> obj_get (ce_options e) property)"

definition truthy_value :: "handler_value option \<Rightarrow> bool" where
  "truthy_value v = (case v of None \<Rightarrow> False | Some (HBool b) \<Rightarrow> b | Some (HStr s) \<Rightarrow> s \<noteq> [] | Some (HNum n) \<Rightarrow> n \<noteq> 0 | Some _ \<Rightarrow> True)"

definition getConfigEnabled :: "conf_sections \<Rightarrow> string \<Rightarrow> bool" where
  "getConfigEnabled sections section =
     (if section = ''slack'' \<or> section = ''kafka''
      then filter (\<lambda>e. truthy_value (obj_get (ce_options e) ''enabled''))
             (case getSectionElements sections section of None \<Rightarrow> [] | Some es \<Rightarrow> es) \<noteq> []
      else truthy_value (getProperty sections section ''enabled''))"

definition getSpecificConfigEnabled :: "conf_sections \<Rightarrow> string \<Rightarrow> string \<Rightarrow> bool result" where
  "getSpecificConfigEnabled sections section specificConfig =
     map_res (\<lambda>es. case List.find (\<lambda>e. obj_get (ce_options e) ''workspace'' = Some (HStr specificConfig)) es of
         None \<Rightarrow> False | Some e \<Rightarrow> truthy_value (obj_get (ce_options e) ''enabled''))
       (deref (getSectionElements sections section))"

definition isMultipleConfigsSupported :: "conf_sections \<Rightarrow> bool" where
  "isMultipleConfigsSupported sections \<longleftrightarrow> obj_get sections ''pagerduty2'' \<noteq> None \<and> obj_get sections ''opsgenie2'' \<noteq> None"

definition SupportedServices :: "string list" where
  "SupportedServices =
     [''alerta'', ''hipchat'', ''kafka'', ''opsgenie'', ''opsgenie2'', ''pagerduty'', ''pagerduty2'', ''pushover'', ''sensu'', ''slack'', ''smtp'',
      ''talk'', ''telegram'', ''victorops'']"

definition isSupportedService :: "string list option \<Rightarrow> conf_sections \<Rightarrow> string \<Rightarrow> bool result" where
  \<comment> \<open>of the names of the services the Kapacitor has, when they are known\<close>
  "isSupportedService services sections serviceType =
     map_res (\<lambda>ss. serviceType \<in> set ss \<and> serviceType \<in> set SupportedServices \<and> obj_get sections serviceType \<noteq> None) (deref services)"

definition shown_tabs :: "string list option \<Rightarrow> conf_sections \<Rightarrow> string list result" where
  \<comment> \<open>the sections that have a tab, in their order\<close>
  "shown_tabs services sections =
     map_res (\<lambda>flags. map fst (filter snd (zip (obj_keys sections) flags))) (map_r (isSupportedService services sections) (obj_keys sections))"

definition getInitialIndex :: "string \<Rightarrow> nat" where
  \<comment> \<open>the keys of a list are its positions\<close>
  "getInitialIndex hash =
     (case find_index (\<lambda>k. k = js_replace_first hash ''#'' []) (map nat_str [0..<length SupportedServices]) of None \<Rightarrow> 0 | Some i \<Rightarrow> i)"

definition without_secrets :: "string list option \<Rightarrow> handler \<Rightarrow> handler" where
  \<comment> \<open>a secret whose input still says that there is a value is left out\<close>
  "without_secrets redacted properties =
     foldl (\<lambda>clean badProp. if obj_get properties badProp = Some (HStr ''true'') then obj_del clean badProp else clean)
       (obj_assign [(''enabled'', HBool True)] properties) (case redacted of None \<Rightarrow> [] | Some ks \<Rightarrow> ks)"

definition sanitizeProperties :: "conf_sections \<Rightarrow> string \<Rightarrow> handler \<Rightarrow> handler result" where
  "sanitizeProperties sections section properties =
     map_res (\<lambda>e. without_secrets (ce_redacted e) properties) (deref (getSectionElement sections section))"

datatype config_request =
    AddConfig string handler
  | UpdateConfig string handler string
  | RemoveConfig string string

definition handleSaveConfig :: "conf_sections \<Rightarrow> string \<Rightarrow> handler \<Rightarrow> bool \<Rightarrow> string option \<Rightarrow> config_request option result" where
  \<comment> \<open>up to the call\<close>
  "handleSaveConfig sections section properties isNewConfigInSection specificConfig =
     (if section = [] then Inr None
      else map_res (\<lambda>propsToSend.
        Some (if isNewConfigInSection then AddConfig section propsToSend
              else UpdateConfig section propsToSend (case specificConfig of None \<Rightarrow> [] | Some c \<Rightarrow> c)))
        (sanitizeProperties sections section properties))"

definition config_path :: "config_request \<Rightarrow> string" where
  "config_path r =
     (case r of
        AddConfig section _ \<Rightarrow> ''/kapacitor/v1/config/'' @ section @ ''/''
      | UpdateConfig section _ config \<Rightarrow> ''/kapacitor/v1/config/'' @ section @ ''/'' @ config
      | RemoveConfig section _ \<Rightarrow> ''/kapacitor/v1/config/'' @ section)"

definition config_saved :: "(string option + unit) \<Rightarrow> bool \<times> string list" where
  \<comment> \<open>for the answer, or the error in the data of the refusal: whether it is saved, and the words of the notification\<close>
  "config_saved ans =
     (case ans of
        Inr _ \<Rightarrow> (True, [])
      | Inl err \<Rightarrow> (if truthy err then (False, [last (js_split (the err) '': '')]) else (False, [''Cannot save configuration''])))"

definition delete_error :: "string \<Rightarrow> string" where
  "delete_error err = js_join '': '' (drop 2 (js_split err '': ''))"

definition test_body :: "string \<Rightarrow> handler option \<Rightarrow> handler \<Rightarrow> handler" where
  \<comment> \<open>what a test alert is sent with: the options of the section, or for slack those of the form\<close>
  "test_body outputName options specificConfigOptions =
     (case options of Some os \<Rightarrow> os | None \<Rightarrow> if outputName = ''slack'' then specificConfigOptions else [])"

definition kafka_test_options :: "conf_sections \<Rightarrow> handler" where
  \<comment> \<open>the options every test of a Kafka configuration is sent with\<close>
  "kafka_test_options sections = (case getProperty sections ''kafka'' ''id'' of None \<Rightarrow> [] | Some i \<Rightarrow> [(''cluster'', i)])"

section \<open>The forms\<close>

record conf_form =
  cf_inputs :: handler
  cf_testEnabled :: bool
  cf_enabled :: bool

definition open_form :: "bool \<Rightarrow> handler \<Rightarrow> handler \<Rightarrow> conf_form" where
  \<comment> \<open>of whether the section is enabled, its options, and what the inputs show\<close>
  "open_form enabled options inputs =
     \<lparr>cf_inputs = inputs, cf_testEnabled = enabled, cf_enabled = truthy_value (obj_get options ''enabled'')\<rparr>"

definition disableTest :: "conf_form \<Rightarrow> conf_form" where
  "disableTest f = f\<lparr>cf_testEnabled := False\<rparr>"

definition handleEnabledChange :: "bool \<Rightarrow> conf_form \<Rightarrow> conf_form" where
  "handleEnabledChange checked f = disableTest (f\<lparr>cf_enabled := checked\<rparr>)"

definition form_saved :: "bool \<Rightarrow> conf_form \<Rightarrow> conf_form" where
  \<comment> \<open>for the outcome of saving\<close>
  "form_saved success f = (if success then f\<lparr>cf_testEnabled := True\<rparr> else f)"

definition input_of :: "conf_form \<Rightarrow> string \<Rightarrow> handler_value" where
  "input_of f k = (case obj_get (cf_inputs f) k of None \<Rightarrow> HStr [] | Some v \<Rightarrow> v)"

definition form_properties :: "string list \<Rightarrow> conf_form \<Rightarrow> handler" where
  "form_properties ks f = map (\<lambda>k. (k, input_of f k)) ks @ [(''enabled'', HBool (cf_enabled f))]"

definition AlertaConfig :: "conf_form \<Rightarrow> handler" where
  "AlertaConfig = form_properties [''environment'', ''origin'', ''token'', ''url'']"

definition hipchat_url :: "string \<Rightarrow> string" where
  "hipchat_url subdomain = ''https://'' @ subdomain @ ''.hipchat.com/v2/room''"

definition hipchat_subdomain :: "string \<Rightarrow> string" where
  "hipchat_subdomain url = js_replace_first (js_replace_first url ''https://'' []) ''.hipchat.com/v2/room'' []"

definition HipChatConfig :: "conf_form \<Rightarrow> handler" where
  "HipChatConfig f =
     [(''room'', input_of f ''room''), (''url'', HStr (hipchat_url (case input_of f ''url'' of HStr s \<Rightarrow> s | _ \<Rightarrow> []))), (''token'', input_of f ''token''),
      (''enabled'', HBool (cf_enabled f))]"

definition OpsGenieConfig :: "conf_form \<Rightarrow> handler" where
  "OpsGenieConfig = form_properties [''api-key'', ''teams'', ''recipients'']"

definition PagerDutyConfig :: "conf_form \<Rightarrow> handler" where
  "PagerDutyConfig = form_properties [''service-key'', ''url'']"

definition PagerDuty2Config :: "conf_form \<Rightarrow> handler" where
  "PagerDuty2Config = form_properties [''routing-key'', ''url'']"

definition PushoverConfig :: "conf_form \<Rightarrow> handler" where
  "PushoverConfig = form_properties [''token'', ''url'', ''user-key'']"

definition SensuConfig :: "conf_form \<Rightarrow> handler" where
  "SensuConfig = form_properties [''source'', ''addr'']"

definition SMTPConfig :: "conf_form \<Rightarrow> handler" where
  "SMTPConfig f =
     [(''host'', input_of f ''host''), (''port'', input_of f ''port''), (''from'', input_of f ''from''),
      (''to'', HList (case input_of f ''to'' of HStr (c # s) \<Rightarrow> [c # s] | _ \<Rightarrow> [])),
      (''username'', input_of f ''username''), (''password'', input_of f ''password''), (''enabled'', HBool (cf_enabled f))]"

definition TalkConfig :: "conf_form \<Rightarrow> handler" where
  "TalkConfig = form_properties [''url'', ''author_name'']"

definition TelegramConfig :: "bool \<Rightarrow> bool \<Rightarrow> conf_form \<Rightarrow> handler" where
  \<comment> \<open>with which of the two modes is checked; without one there is no mode\<close>
  "TelegramConfig html markdown f =
     [(''chat-id'', input_of f ''chat-id''), (''disable-notification'', input_of f ''disable-notification''),
      (''disable-web-page-preview'', input_of f ''disable-web-page-preview'')] @
     (if markdown then [(''parse-mode'', HStr ''Markdown'')] else if html then [(''parse-mode'', HStr ''HTML'')] else []) @
     [(''token'', input_of f ''token''), (''enabled'', HBool (cf_enabled f))]"

definition VictorOpsConfig :: "conf_form \<Rightarrow> handler" where
  "VictorOpsConfig = form_properties [''api-key'', ''routing-key'', ''url'']"

definition add_item :: "string \<Rightarrow> string \<Rightarrow> conf_form \<Rightarrow> conf_form" where
  \<comment> \<open>a team, a recipient or a broker: the text is compared with the items, which are objects, so any that is not empty is added\<close>
  "add_item k item f =
     (if js_trim item = [] then f
      else disableTest (f\<lparr>cf_inputs := obj_set (cf_inputs f) k (HList ((case input_of f k of HList xs \<Rightarrow> xs | _ \<Rightarrow> []) @ [js_trim item]))\<rparr>))"

definition delete_item :: "string \<Rightarrow> string \<Rightarrow> conf_form \<Rightarrow> conf_form" where
  "delete_item k item f =
     disableTest (f\<lparr>cf_inputs := obj_set (cf_inputs f) k (HList (filter (\<lambda>x. x \<noteq> item) (case input_of f k of HList xs \<Rightarrow> xs | _ \<Rightarrow> [])))\<rparr>)"

section \<open>Several configurations of a section\<close>

record slack_conf =
  sc_options :: handler
  sc_isNew :: bool

definition new_slack_conf :: slack_conf where
  \<comment> \<open>without a workspace\<close>
  "new_slack_conf = \<lparr>sc_options = [(''url'', HBool False), (''channel'', HStr [])], sc_isNew = True\<rparr>"

definition getWorkspace :: "bool \<Rightarrow> slack_conf \<Rightarrow> string" where
  "getWorkspace multiple c = (if multiple then (case obj_get (sc_options c) ''workspace'' of Some (HStr w) \<Rightarrow> w | _ \<Rightarrow> ''new'') else [])"

definition isDefaultConfig :: "bool \<Rightarrow> slack_conf \<Rightarrow> bool" where
  "isDefaultConfig multiple c \<longleftrightarrow> getWorkspace multiple c = [] \<and> \<not> sc_isNew c"

definition getWorkspaceID :: "bool \<Rightarrow> slack_conf \<Rightarrow> string" where
  "getWorkspaceID multiple c = (if isDefaultConfig multiple c then ''default'' else if sc_isNew c then ''new'' else getWorkspace multiple c)"

definition isAddingConfigsAllowed :: "bool \<Rightarrow> slack_conf list \<Rightarrow> bool" where
  "isAddingConfigsAllowed multiple cs \<longleftrightarrow> multiple \<and> (\<forall>c\<in>set cs. \<not> sc_isNew c)"

definition addConfig_slack :: "slack_conf list \<Rightarrow> slack_conf list" where
  "addConfig_slack cs = cs @ [new_slack_conf]"

definition deleteConfig_slack :: "bool \<Rightarrow> string \<Rightarrow> string \<Rightarrow> slack_conf list \<Rightarrow> slack_conf list \<times> config_request option" where
  "deleteConfig_slack multiple specificConfig workspaceID cs =
     (if workspaceID = ''new'' then (filter (\<lambda>c. getWorkspaceID multiple c \<noteq> workspaceID) cs, None)
      else (cs, Some (RemoveConfig ''slack'' specificConfig)))"

definition isWorkspaceEmpty :: "string \<Rightarrow> bool \<Rightarrow> bool" where
  "isWorkspaceEmpty workspace is_default \<longleftrightarrow> workspace = [] \<and> \<not> is_default"

definition isTestDisabled :: "string \<Rightarrow> bool \<Rightarrow> conf_form \<Rightarrow> bool" where
  "isTestDisabled workspace is_default f \<longleftrightarrow> \<not> cf_testEnabled f \<or> \<not> cf_enabled f \<or> isWorkspaceEmpty workspace is_default"

definition SlackConfig :: "bool \<Rightarrow> string \<Rightarrow> conf_form \<Rightarrow> handler" where
  "SlackConfig isNewConfig workspace f =
     form_properties [''url'', ''channel''] f @ (if isNewConfig then [(''workspace'', HStr workspace)] else [])"

definition KafkaConfig :: "(string \<Rightarrow> int option) \<Rightarrow> bool \<Rightarrow> conf_form \<Rightarrow> handler option" where
  \<comment> \<open>none when the size of a batch is no number; the argument is \<open>parseInt\<close>\<close>
  "KafkaConfig num isNewConfig f =
     map_option (\<lambda>batchSize.
       [(''brokers'', input_of f ''brokers''), (''timeout'', input_of f ''timeout''), (''batch-size'', HNum batchSize),
        (''batch-timeout'', input_of f ''batch-timeout''), (''use-ssl'', input_of f ''use-ssl''), (''ssl-ca'', input_of f ''ssl-ca''),
        (''ssl-cert'', input_of f ''ssl-cert''), (''ssl-key'', input_of f ''ssl-key''),
        (''insecure-skip-verify'', input_of f ''insecure-skip-verify''), (''enabled'', HBool (cf_enabled f))] @
       (if isNewConfig then [(''id'', input_of f ''id'')] else []))
       (num (case input_of f ''batch-size'' of HStr s \<Rightarrow> s | _ \<Rightarrow> []))"

definition DEFAULT_CONFIG :: slack_conf where
  \<comment> \<open>of \<open>KafkaConfigs.tsx\<close>\<close>
  "DEFAULT_CONFIG =
     \<lparr>sc_options = [(''id'', HStr []), (''brokers'', HList []), (''timeout'', HStr []), (''batch-size'', HNum 0), (''batch-timeout'', HStr []),
        (''use-ssl'', HBool False), (''ssl-ca'', HStr []), (''ssl-cert'', HStr []), (''ssl-key'', HStr []), (''insecure-skip-verify'', HBool False),
        (''enabled'', HBool False)], sc_isNew = True\<rparr>"

definition getDerivedStateFromProps :: "slack_conf list \<Rightarrow> slack_conf list \<Rightarrow> slack_conf list" where
  \<comment> \<open>of the configurations of the properties and those of the state; React calls it before every rendering, also after \<open>setState\<close>\<close>
  "getDerivedStateFromProps props state = props"

definition handleAddConfig :: "slack_conf list \<Rightarrow> slack_conf list \<Rightarrow> slack_conf list" where
  "handleAddConfig props state = getDerivedStateFromProps props (state @ [DEFAULT_CONFIG])"

section \<open>Secrets\<close>

definition secret_kept :: "string list option \<Rightarrow> handler \<Rightarrow> string \<Rightarrow> bool" where
  \<comment> \<open>the input of a secret still says that there is a value\<close>
  "secret_kept redacted properties k \<longleftrightarrow>
     k \<in> set (case redacted of None \<Rightarrow> [] | Some ks \<Rightarrow> ks) \<and> obj_get properties k = Some (HStr ''true'')"

lemma obj_get_clean:
  "obj_get (foldl (\<lambda>clean badProp. if obj_get properties badProp = Some (HStr ''true'') then obj_del clean badProp else clean) clean ks) k =
     (if k \<in> set ks \<and> obj_get properties k = Some (HStr ''true'') then None else obj_get clean k)"
  by (induction ks arbitrary: clean) (auto simp: obj_get_del)

lemma obj_get_sent:
  assumes "obj_ok properties"
  shows "obj_get (without_secrets redacted properties) k =
    (if secret_kept redacted properties k then None
     else case obj_get properties k of None \<Rightarrow> if k = ''enabled'' then Some (HBool True) else None | Some v \<Rightarrow> Some v)"
  unfolding without_secrets_def obj_get_clean obj_get_assign[OF assms] secret_kept_def by (auto split: option.split)

fun sent_properties :: "config_request \<Rightarrow> handler" where
  "sent_properties (AddConfig _ ps) = ps"
| "sent_properties (UpdateConfig _ ps _) = ps"
| "sent_properties (RemoveConfig _ _) = []"


definition sample_sections :: conf_sections where
  "sample_sections = [(''alerta'', Some [\<lparr>ce_options = [(''token'', HBool True), (''origin'', HStr ''k'')], ce_redacted = Some [''token'']\<rparr>])]"

definition sample_form :: conf_form where
  "sample_form = \<lparr>cf_inputs = [(''origin'', HStr ''true''), (''token'', HStr ''true'')], cf_testEnabled = False, cf_enabled = True\<rparr>"


section \<open>What the forms do besides\<close>

lemma split_first_at: "d \<notin> set s \<Longrightarrow> split_first (d # sep) (s @ d # sep) = Some (s, [])"
  by (induction s) auto

text \<open>The form of HipChat shows the subdomain of the address it wrote, but makes another address of any other.\<close>

lemma hipchat_roundtrip:
  assumes "CHR ''.'' \<notin> set s"
  shows "hipchat_subdomain (hipchat_url s) = s"
proof -
  have "js_replace_first (hipchat_url s) ''https://'' [] = s @ ''.hipchat.com/v2/room''"
    by (simp add: js_replace_first_def hipchat_url_def)
  then show ?thesis unfolding hipchat_subdomain_def by (simp add: js_replace_first_def split_first_at[OF assms])
qed

lemma hipchat_other_host:
  "hipchat_url (hipchat_subdomain ''https://chat.example.com/v2/room'') = ''https://chat.example.com/v2/room.hipchat.com/v2/room''"
  by code_simp

text \<open>When an input is changed while the configuration is being saved, a test is offered for inputs that have not been saved.\<close>

lemma test_of_unsaved: "cf_testEnabled (form_saved True (disableTest (f\<lparr>cf_inputs := obj_set (cf_inputs f) k v\<rparr>)))"
  by (simp add: form_saved_def)

text \<open>An item can be added twice.\<close>

lemma item_twice: "cf_inputs (add_item ''teams'' ''a'' (add_item ''teams'' ''a'' (open_form True [] []))) = [(''teams'', HList [''a'', ''a''])]"
  by code_simp

text \<open>A link to a section never opens its tab, a Kapacitor whose services are not known has none, and adding a configuration of Kafka does nothing.\<close>

lemma link_opens_first_tab: "\<forall>s\<in>set SupportedServices. getInitialIndex (CHR ''#'' # s) = 0"
  by code_simp

lemma no_services_throw: "shown_tabs None sample_sections = Inl TypeError"
  by code_simp

lemma kafka_config_not_added: "handleAddConfig props state = props"
  by (simp add: handleAddConfig_def getDerivedStateFromProps_def)

text \<open>Every test of a Kafka configuration is for the first cluster.\<close>

lemma kafka_tests_first:
  "getSectionElements sections ''kafka'' = Some (e # es) \<Longrightarrow> obj_get (ce_options e) ''id'' = Some i \<Longrightarrow>
    test_body ''kafka'' (Some (kafka_test_options sections)) specificConfigOptions = [(''cluster'', i)]"
  by (simp add: test_body_def kafka_test_options_def getProperty_def getSectionElement_def)

end
