(* ===== verification/Spec2Isabelle.thy ===== *)
theory Spec2Isabelle
  imports Temp_Hydrate Temp_Editor Meta_Queries Temp_Builders Admin_Chronograf Admin_Influx Query_Store Time_Series InfluxQL Logs_Query Logs_Config Logs_Store Logs_Page
    Sources Annotations App_Store Dashboard_Types Dashboard_Store Table_Graph Cell_Editor
    Dashboard_Import Threesizer Flux_Ast Flux_Builder Flux_Filter Flux_Schema Query_Editor Auto_Refresh Cell_Overlay Flux_Results Rule_Graph Alert_Rules
    Tickscript Kapacitor_Config
begin

text \<open>
  Chronograf is the web interface of the InfluxData time series stack. Its server (Go, under \<open>src/server\<close> and others) is a thin
  store and proxy; what the program decides, it decides in the TypeScript client under \<open>ui/src\<close>, and this development is about
  the client: a shallow embedding of its functions, stores and component handlers, with the theorems that make them correct. Paths
  below are under \<open>src/ui/src\<close>.

  \<^bold>\<open>How the program works.\<close> A \<^emph>\<open>dashboard\<close> has cells, and a cell has queries. A query is either built with the mouse
  (a query configuration, from which text is written) or typed. Its text may mention \<^emph>\<open>template variables\<close>; before it is
  sent, each mention is replaced by the chosen value of the variable. The values of a variable may themselves come from a query
  that mentions other variables, so the variables form a graph that is checked for cycles and hydrated in the order of the
  dependencies. The answers become rows of graphs and tables. Beside the dashboards there are the log viewer, the data explorer,
  the builder of Flux scripts, the alert rules, and the bookkeeping of sources, annotations and sessions. State is held by redux stores,
  whose asynchronous actions call the server, and by React components with a state of their own.

  \<^bold>\<open>Conventions.\<close> A JavaScript exception is the left side of a sum (\<open>'a result\<close>), undefined and null are None where the code
  treats them alike. Strings are lists of characters below code 256. A redux store is its reducer; an asynchronous action is the list of the
  actions it dispatches, given the answers of its calls in order. A component is the record of its state and one definition for
  each handler; its life is a run of events, where the props of its owner and the answers of the server are events too, in any order the
  code allows. What is not under \<open>src/\<close> is a parameter: the server, the parsers of comma separated text and of JSON, \<open>Number\<close>, random ids,
  the clock. Where a property needs such code to behave, its documented behaviour is a hypothesis of that name, and the witness
  of the property gives a concrete instance.

  \<^bold>\<open>The theories.\<close>
  \<^item> \<open>Js_Prelude\<close>: exceptions, array and string calls, objects as dictionaries (with the interfaces \<open>keyed_store\<close>,
    \<open>erasable_store\<close>, which the objects of the code implement) and updates that keep keys (\<open>key_preserving\<close>).
    \<open>Store_Prelude\<close>: calls, runs of a store, and the interfaces \<open>invariant_steps\<close> (what every step keeps, every run
    keeps) and \<open>functional_refinement\<close> (a store that refines a map refines it along every run).
    \<open>Fast_Loops\<close>: the loops of \<open>utils/fast.ts\<close>, equal to the list functions they stand for.
  \<^item> Template variables. \<open>Temp_Vars\<close>: data, names, and which value of a variable is selected (\<open>tempVars/utils/index.ts\<close>).
    \<open>Temp_Graph\<close>: dependencies, the check for cycles and the topological sort (first half of \<open>tempVars/utils/graph.ts\<close>);
    the check accepts exactly the acyclic graphs. \<open>Temp_Replace\<close>: replacing the mentions in a query
    (\<open>tempVars/utils/replace.ts\<close>), equal to a one-pass reference. \<open>Temp_Hydrate\<close>: the asynchronous hydration
    (second half of \<open>graph.ts\<close>) as a step relation of answers in any order, with its safety, completeness and end.
    \<open>Temp_Editor\<close>: the editor of a variable, the values that are written down as text and the saved list
    (\<open>tempVars/components\<close>), which never becomes cyclic. \<open>Meta_Queries\<close>: the queries about a schema and the parsers of their answers.
    \<open>Temp_Builders\<close>: the builders whose choices come from the server, where answers and clicks may come in any order.
  \<^item> Queries. \<open>Query_Config\<close>: the transitions of a query configuration (\<open>utils/queryTransitions.ts\<close>, \<open>utils/defaultQueryConfig.ts\<close>,
    \<open>shared/reducers/helpers/fields.js\<close>). \<open>Query_Store\<close>: the stores of the data explorer and of the Kapacitor page over them; no use of them throws.
    \<open>InfluxQL\<close>: the text of a query (\<open>utils/influxql.ts\<close>, \<open>utils/buildQueriesForGraphs.ts\<close>) and what its where clause admits.
    \<open>Query_Editor\<close>: the text editor and the completion of variables. \<open>Auto_Refresh\<close>: the shared timer and what a
    graph asks for and shows. \<open>Time_Series\<close>: from answers to rows.
  \<^item> Dashboards. \<open>Dashboard_Types\<close>: dashboards and cells. \<open>Dashboard_Store\<close>: actions, reducers (a refinement of the map from ids to dashboards), the placing of
    a new cell. \<open>Cell_Editor\<close>, \<open>Cell_Overlay\<close>: editing a cell, its colors and the drafts of its queries.
    \<open>Table_Graph\<close>: sorting, filtering and ordering tables, with the interface \<open>consistent_cmp\<close> of a comparison that agrees
    with a linear order. \<open>Dashboard_Import\<close>: export, import and the switcher links. \<open>Threesizer\<close>: resizable divisions.
  \<^item> Log viewer. \<open>Logs_Query\<close>: its queries and the search for the other end of a page. \<open>Logs_Config\<close>: the columns. \<open>Logs_Store\<close>: its store
    with queries under way, in every interleaving. \<open>Logs_Page\<close>: the page, its live updates, the scrolling table and the options.
  \<^item> Flux. \<open>Flux_Ast\<close>: the walker of the syntax tree. \<open>Flux_Builder\<close>: every change of the script from the page.
    \<open>Flux_Filter\<close>: a filter as a choice of tag values. \<open>Flux_Schema\<close>: the schema explorer. \<open>Flux_Results\<close>: reading answers.
  \<^item> Kapacitor. \<open>Alert_Rules\<close>: the store of alert rules and the handlers an alert is sent to, from the configuration and from a rule.
    \<open>Rule_Graph\<close>: the graph of a rule. \<open>Tickscript\<close>: the editor of scripts and the stream of its logs. \<open>Kapacitor_Config\<close>: the forms
    that configure where alerts can be sent, and the calls that save and test them.
  \<^item> Administration. \<open>Admin_Chronograf\<close>: users, organizations and mappings. \<open>Admin_Influx\<close>: the users, roles, databases and running
    queries of an InfluxDB. In both, every call changes the list first and takes the change back when the server refuses.
  \<^item> The rest. \<open>Sources\<close>: sources and services. \<open>Annotations\<close>. \<open>App_Store\<close>: session, links, presentation, notifications and the middleware for errors.

  \<^bold>\<open>What the theorems show.\<close> For each component its invariant and that every operation keeps it, what each operation does on every
  branch, and the contracts between components: round trips of what is written and read (selections and query strings, options and columns, drafts
  and cells, text and values, Flux filters, alert handlers), refinements of the stores by maps, equivalence of hand-written loops and scans with references,
  safety of interleavings, and that what waits for the server ends; that a refused call of the administration leaves the lists as they were,
  that a database is deleted only after its name has been typed, that a secret which was not touched is not sent. Every theorem with a hypothesis is applied to a concrete case in its witness.
  Lemmas that show the code do something else than it means to are named in the manifest of findings.

  \<^bold>\<open>Bounds and fuel.\<close> No definition runs on fuel. The loops that may not end are \<open>partial_function (option)\<close>: the scan of
  \<open>replaceAllRegex\<close> returns for every value without a slash (\<open>replaceAllRegex_correct\<close>), and the search for the other
  time bound of a page of logs returns within twelve queries, as the offsets grow by the factor of the code beyond its limit of fifteen days
  (\<open>time_bound_search\<close>). The traversals of the graph end because the list of nodes seen grows
  within the nodes of the graph. A hydration takes at most one answer for each node (\<open>hydration_ends\<close>).

  \<^bold>\<open>Not modelled.\<close> The Go server. React's rendering, the DOM, drawing with dygraphs and D3, styles. The calls themselves
  (\<open>utils/ajax.ts\<close>, the \<open>apis\<close> directories), whose answers are parameters. Canned data, texts and type declarations without logic
  (\<open>shared/copy\<close>, \<open>types\<close>, \<open>shared/data\<close>). \<open>MultiGrid\<close>, a port of the grid of react-virtualized, and the
  other files that carry third-party code (\<open>external\<close>). The pages of hosts and of the start, and the components that only render what the
  modelled stores and handlers compute.
\<close>

end
